(* ===== verification/Prelude.thy ===== *)
theory Prelude
  imports Main "HOL-Library.Word"
begin

text \<open>
  Shared vocabulary of the development: the exceptions of the Python code as values, the
  result type and its sequencing, Python's list slicing, and the generic list lemmas the
  components use. Every \<open>raise\<close> of the source is an \<open>Inl\<close> of the result type; every
  fallible call is sequenced with \<open>bind_res\<close>, so the first exception wins, as in Python.
\<close>

section \<open>Exceptions and results\<close>

type_synonym byte = "8 word"
type_synonym bytes = "8 word list"
type_synonym pystr = "nat list"

text \<open>
  A Python \<open>str\<close> is the list of its code points; \<open>lit\<close> turns an ASCII literal into one.
\<close>

abbreviation lit :: "string \<Rightarrow> pystr" where
  "lit s \<equiv> map of_char s"

abbreviation ascii :: "string \<Rightarrow> bytes" where
  "ascii s \<equiv> map of_char s"

datatype py_error =
    StructError
  | UnicodeDecodeError
  | UnicodeEncodeError
  | IndexError
  | KeyError
  | TypeError
  | AttributeError
  | ValueError
  | UnboundLocalError
  | BinasciiError
  | OverflowError
  | AssertionError
  | ZeroDivisionError
  | EOFError
  | SocketTimeout
  | SocketError string
  | SSHException string
  | PipeTimeout
  | NeedRekey
  | BERException string
  | IOError string
  | IncompatiblePeer string
  | MessageOrderError
  | ChannelException int
  | AuthenticationException string
  | BadAuthenticationType "nat list list"
  | PartialAuthentication "nat list list"
  | SFTPError string
  | OSErr int pystr
  | UnknownKeyType string
  | PasswordRequired
  | ConfigParseError
  | InvalidHostKey
  | BadHostKey

type_synonym 'a res = "py_error + 'a"

definition bind_res :: "'a res \<Rightarrow> ('a \<Rightarrow> 'b res) \<Rightarrow> 'b res" where
  "bind_res r f = (case r of Inl e \<Rightarrow> Inl e | Inr x \<Rightarrow> f x)"

named_theorems res_simps \<open>evaluation of sequenced results\<close>

lemma bind_res_Inr [simp, res_simps]: "bind_res (Inr x) f = f x"
  by (simp add: bind_res_def)

lemma bind_res_Inl [simp, res_simps]: "bind_res (Inl e) f = Inl e"
  by (simp add: bind_res_def)

lemma bind_res_eq_Inr:
  "bind_res r f = Inr y \<longleftrightarrow> (\<exists>x. r = Inr x \<and> f x = Inr y)"
  by (cases r) auto

lemma bind_res_eq_Inl:
  "bind_res r f = Inl e \<longleftrightarrow> r = Inl e \<or> (\<exists>x. r = Inr x \<and> f x = Inl e)"
  by (cases r) auto

lemma bind_res_cong [fundef_cong]:
  "r = r' \<Longrightarrow> (\<And>x. r' = Inr x \<Longrightarrow> f x = f' x) \<Longrightarrow> bind_res r f = bind_res r' f'"
  by (cases r') auto

lemma bind_res_assoc: "bind_res (bind_res r f) g = bind_res r (\<lambda>x. bind_res (f x) g)"
  by (cases r) auto

lemma bind_res_split:
  "P (bind_res r f) \<longleftrightarrow> (\<forall>e. r = Inl e \<longrightarrow> P (Inl e)) \<and> (\<forall>x. r = Inr x \<longrightarrow> P (f x))"
  by (cases r) auto

definition ensure :: "bool \<Rightarrow> py_error \<Rightarrow> unit res" where
  "ensure b e = (if b then Inr () else Inl e)"

lemma ensure_simps [simp, res_simps]:
  "ensure True e = Inr ()" "ensure False e = Inl e"
  by (simp_all add: ensure_def)

lemma ensure_eq_Inr [simp]: "ensure b e = Inr u \<longleftrightarrow> b"
  by (simp add: ensure_def)

lemma ensure_eq_Inl [simp]: "ensure b e = Inl e' \<longleftrightarrow> \<not> b \<and> e' = e"
  by (auto simp: ensure_def)

fun map_res :: "('a \<Rightarrow> 'b res) \<Rightarrow> 'a list \<Rightarrow> 'b list res" where
  "map_res f [] = Inr []"
| "map_res f (x # xs) = bind_res (f x) (\<lambda>y. bind_res (map_res f xs) (\<lambda>ys. Inr (y # ys)))"

lemma map_res_Inr: "(\<And>x. x \<in> set xs \<Longrightarrow> f x = Inr (g x)) \<Longrightarrow> map_res f xs = Inr (map g xs)"
  by (induction xs) auto

lemma map_res_ok: "(\<forall>x\<in>set xs. \<exists>y. f x = Inr y) \<Longrightarrow> \<exists>ys. map_res f xs = Inr ys"
  by (induction xs) auto

lemma map_res_append:
  "map_res f (xs @ ys) =
     bind_res (map_res f xs) (\<lambda>a. bind_res (map_res f ys) (\<lambda>b. Inr (a @ b)))"
  by (induction xs) (auto simp: bind_res_def split: sum.splits)

lemma map_res_length: "map_res f xs = Inr ys \<Longrightarrow> length ys = length xs"
  by (induction xs arbitrary: ys) (auto simp: bind_res_eq_Inr)

section \<open>Stateful methods\<close>

text \<open>
  A method on an object is a state transformer with an outcome: a value, a raised exception
  (the state keeps what was done before the raise), or a call that never returns.
\<close>

datatype 'a outcome = Ret 'a | Exn py_error | Blocked

type_synonym ('s, 'a) prog = "'s \<Rightarrow> 'a outcome \<times> 's"

definition ret :: "'a \<Rightarrow> ('s, 'a) prog" where
  "ret x s = (Ret x, s)"

definition raise :: "py_error \<Rightarrow> ('s, 'a) prog" where
  "raise e s = (Exn e, s)"

definition seqp :: "('s, 'a) prog \<Rightarrow> ('a \<Rightarrow> ('s, 'b) prog) \<Rightarrow> ('s, 'b) prog" where
  "seqp m f s = (case m s of (Ret x, s') \<Rightarrow> f x s' | (Exn e, s') \<Rightarrow> (Exn e, s') | (Blocked, s') \<Rightarrow> (Blocked, s'))"

definition gets :: "('s \<Rightarrow> 'a) \<Rightarrow> ('s, 'a) prog" where
  "gets f s = (Ret (f s), s)"

definition modify :: "('s \<Rightarrow> 's) \<Rightarrow> ('s, unit) prog" where
  "modify f s = (Ret (), f s)"

definition liftr :: "'a res \<Rightarrow> ('s, 'a) prog" where
  "liftr r s = ((case r of Inl e \<Rightarrow> Exn e | Inr x \<Rightarrow> Ret x), s)"

definition whenp :: "bool \<Rightarrow> ('s, unit) prog \<Rightarrow> ('s, unit) prog" where
  "whenp b m = (if b then m else ret ())"

named_theorems prog_simps \<open>evaluation of stateful methods\<close>

lemma ret_apply [simp, prog_simps]: "ret x s = (Ret x, s)" by (simp add: ret_def)
lemma raise_apply [simp, prog_simps]: "raise e s = (Exn e, s)" by (simp add: raise_def)
lemma gets_apply [simp, prog_simps]: "gets f s = (Ret (f s), s)" by (simp add: gets_def)
lemma modify_apply [simp, prog_simps]: "modify f s = (Ret (), f s)" by (simp add: modify_def)

lemma liftr_apply [simp, prog_simps]:
  "liftr (Inr x) s = (Ret x, s)" "liftr (Inl e) s = (Exn e, s)"
  by (simp_all add: liftr_def)

lemma whenp_simps [simp, prog_simps]: "whenp True m = m" "whenp False m = ret ()"
  by (simp_all add: whenp_def)

lemma seqp_eval [prog_simps]:
  "m s = (Ret x, s') \<Longrightarrow> seqp m f s = f x s'"
  "m s = (Exn e, s') \<Longrightarrow> seqp m f s = (Exn e, s')"
  "m s = (Blocked, s') \<Longrightarrow> seqp m f s = (Blocked, s')"
  by (simp_all add: seqp_def)

lemma seqp_ret [simp]: "seqp (ret x) f s = f x s" by (simp add: seqp_def)
lemma seqp_raise [simp]: "seqp (raise e) f s = (Exn e, s)" by (simp add: seqp_def)
lemma seqp_gets [simp]: "seqp (gets g) f s = f (g s) s" by (simp add: seqp_def)
lemma seqp_modify [simp]: "seqp (modify h) f s = f () (h s)" by (simp add: seqp_def)
lemma seqp_liftr [simp]:
  "seqp (liftr (Inr x)) f s = f x s" "seqp (liftr (Inl e)) f s = (Exn e, s)"
  by (simp_all add: seqp_def)

lemma seqp_assoc: "seqp (seqp m f) g s = seqp m (\<lambda>x. seqp (f x) g) s"
  by (simp add: seqp_def split: prod.splits outcome.splits)

lemma seqp_Ret: "seqp m f s = (Ret y, s'') \<longleftrightarrow> (\<exists>x s'. m s = (Ret x, s') \<and> f x s' = (Ret y, s''))"
  by (auto simp: seqp_def split: prod.splits outcome.splits)

lemma liftr_Ret: "liftr r s = (Ret x, s') \<longleftrightarrow> r = Inr x \<and> s' = s"
  by (auto simp: liftr_def split: sum.splits)

text \<open>Methods that only read the state.\<close>

definition bind_out :: "'a outcome \<Rightarrow> ('a \<Rightarrow> 'b outcome) \<Rightarrow> 'b outcome" where
  "bind_out r f = (case r of Ret x \<Rightarrow> f x | Exn e \<Rightarrow> Exn e | Blocked \<Rightarrow> Blocked)"

lemma bind_out_simps [simp]:
  "bind_out (Ret x) f = f x" "bind_out (Exn e) f = Exn e" "bind_out Blocked f = Blocked"
  by (simp_all add: bind_out_def)

lemma bind_out_assoc: "bind_out (bind_out r f) g = bind_out r (\<lambda>x. bind_out (f x) g)"
  by (cases r) simp_all

definition out_of :: "'a res \<Rightarrow> 'a outcome" where
  "out_of r = (case r of Inl e \<Rightarrow> Exn e | Inr x \<Rightarrow> Ret x)"

lemma out_of_simps [simp]: "out_of (Inl e) = Exn e" "out_of (Inr x) = Ret x"
  by (simp_all add: out_of_def)

lemma liftr_pure: "liftr r s = (out_of r, s)"
  by (simp add: liftr_def out_of_def)

lemma bind_out_Ret: "bind_out r f = Ret y \<longleftrightarrow> (\<exists>x. r = Ret x \<and> f x = Ret y)"
  by (cases r) auto

lemma seqp_pure: "m s = (r, s) \<Longrightarrow> (\<And>x. f x s = (g x, s)) \<Longrightarrow> seqp m f s = (bind_out r g, s)"
  by (cases r) (simp_all add: seqp_def)

text \<open>An assertion about the final state, whatever the outcome.\<close>

definition preserves :: "('s \<Rightarrow> bool) \<Rightarrow> ('s, 'a) prog \<Rightarrow> bool" where
  "preserves P m \<longleftrightarrow> (\<forall>s. P s \<longrightarrow> P (snd (m s)))"

named_theorems preserves_intro \<open>invariants of stateful methods\<close>

lemma preservesI: "(\<And>s r s'. P s \<Longrightarrow> m s = (r, s') \<Longrightarrow> P s') \<Longrightarrow> preserves P m"
  unfolding preserves_def by (metis prod.collapse)

lemma preservesD: "preserves P m \<Longrightarrow> P s \<Longrightarrow> m s = (r, s') \<Longrightarrow> P s'"
  by (auto simp: preserves_def dest: spec [of _ s])

lemma preserves_ret [preserves_intro]: "preserves P (ret x)" by (simp add: preserves_def)
lemma preserves_raise [preserves_intro]: "preserves P (raise e)" by (simp add: preserves_def)
lemma preserves_gets [preserves_intro]: "preserves P (gets f)" by (simp add: preserves_def)
lemma preserves_liftr [preserves_intro]: "preserves P (liftr r)" by (simp add: preserves_def liftr_def)

lemma preserves_liftr_state [preserves_intro]: "preserves P (\<lambda>s. liftr (f s) s)"
  by (simp add: preserves_def liftr_def)

lemma preserves_modify: "(\<And>s. P s \<Longrightarrow> P (f s)) \<Longrightarrow> preserves P (modify f)"
  by (simp add: preserves_def)

lemma preserves_seqp [preserves_intro]:
  "preserves P m \<Longrightarrow> (\<And>x. preserves P (f x)) \<Longrightarrow> preserves P (seqp m f)"
  unfolding preserves_def seqp_def
  by (auto split: prod.splits outcome.splits)

lemma preserves_whenp [preserves_intro]: "preserves P m \<Longrightarrow> preserves P (whenp b m)"
  by (simp add: whenp_def preserves_ret)

lemma preserves_if [preserves_intro]:
  "(b \<Longrightarrow> preserves P m) \<Longrightarrow> (\<not> b \<Longrightarrow> preserves P n) \<Longrightarrow> preserves P (if b then m else n)"
  by simp

section \<open>Python slices\<close>

text \<open>
  \<open>py_bound n i\<close> is the position a slice bound \<open>i\<close> denotes in a sequence of length
  \<open>n\<close>: negative bounds count from the end and both ends are clipped.
\<close>

definition py_bound :: "nat \<Rightarrow> int \<Rightarrow> nat" where
  "py_bound n i = (if i < 0 then nat (int n + i) else min n (nat i))"

definition slice_to :: "'a list \<Rightarrow> int \<Rightarrow> 'a list" where
  "slice_to xs i = take (py_bound (length xs) i) xs"

definition slice_from :: "'a list \<Rightarrow> int \<Rightarrow> 'a list" where
  "slice_from xs i = drop (py_bound (length xs) i) xs"

definition slice :: "'a list \<Rightarrow> int \<Rightarrow> int \<Rightarrow> 'a list" where
  "slice xs i j = (let a = py_bound (length xs) i; b = py_bound (length xs) j
                   in take (b - a) (drop a xs))"

definition py_index :: "'a list \<Rightarrow> int \<Rightarrow> 'a res" where
  "py_index xs i = (let j = (if i < 0 then int (length xs) + i else i)
                    in if 0 \<le> j \<and> j < int (length xs) then Inr (xs ! nat j) else Inl IndexError)"

lemma slice_to_append_from [simp]: "slice_to xs i @ slice_from xs i = xs"
  by (simp add: slice_to_def slice_from_def)

lemma slice_to_nonneg: "0 \<le> i \<Longrightarrow> slice_to xs i = take (nat i) xs"
  by (simp add: slice_to_def py_bound_def min_def)

lemma slice_from_nonneg: "0 \<le> i \<Longrightarrow> slice_from xs i = drop (nat i) xs"
  by (simp add: slice_from_def py_bound_def min_def)

lemma slice_nonneg: "0 \<le> i \<Longrightarrow> 0 \<le> j \<Longrightarrow> slice xs i j = take (nat j - nat i) (drop (nat i) xs)"
  by (auto simp: slice_def py_bound_def min_def Let_def)

lemma py_index_0: "py_index xs 0 = (case xs of [] \<Rightarrow> Inl IndexError | x # _ \<Rightarrow> Inr x)"
  by (auto simp: py_index_def split: list.splits)

section \<open>Lists\<close>

lemma takeWhile_not_in: "c \<notin> set a \<Longrightarrow> takeWhile (\<lambda>x. x \<noteq> c) (a @ ys) = a @ takeWhile (\<lambda>x. x \<noteq> c) ys"
  by (induction a) auto

lemma take_drop_append: "take n x @ drop n x @ y = x @ y"
  by (metis append.assoc append_take_drop_id)

lemma dropWhile_all: "(\<forall>x\<in>set xs. P x) \<Longrightarrow> dropWhile P xs = []"
  by (induction xs) auto

lemma takeWhile_replicate: "takeWhile (\<lambda>x. x = c) xs = replicate (length (takeWhile (\<lambda>x. x = c) xs)) c"
  by (induction xs) auto

lemma strip_decomp: "xs = replicate (length xs - length (dropWhile (\<lambda>x. x = c) xs)) c @ dropWhile (\<lambda>x. x = c) xs"
proof -
  have "length xs - length (dropWhile (\<lambda>x. x = c) xs) = length (takeWhile (\<lambda>x. x = c) xs)"
    by (metis add_diff_cancel_right' length_append takeWhile_dropWhile_id)
  then show ?thesis by (metis takeWhile_dropWhile_id takeWhile_replicate)
qed

lemma dropWhile_hd: "dropWhile P xs \<noteq> [] \<Longrightarrow> \<not> P (hd (dropWhile P xs))"
  by (rule hd_dropWhile) 

fun chunks :: "nat \<Rightarrow> 'a list \<Rightarrow> 'a list list" where
  "chunks n xs = (if n = 0 \<or> xs = [] then [] else take n xs # chunks n (drop n xs))"

declare chunks.simps [simp del]

lemma concat_chunks: "0 < n \<Longrightarrow> concat (chunks n xs) = xs"
  by (induction n xs rule: chunks.induct) (subst chunks.simps, auto)

end
