(* ===== verification/Python_Runtime.thy ===== *)
theory Python_Runtime
  imports Prelude
begin

text \<open>
  What the code uses of Python's standard library: big-endian \<open>struct\<close> fields, the
  strict UTF-8 codec, \<open>io.BytesIO\<close> and \<open>str\<close> splitting and joining. These definitions
  state the documented behaviour of the library calls; the components are translated from
  the repository on top of them.
\<close>

section \<open>Big-endian integers\<close>

primrec be_bytes :: "nat \<Rightarrow> int \<Rightarrow> bytes" where
  "be_bytes 0 n = []"
| "be_bytes (Suc k) n = be_bytes k (n div 256) @ [word_of_int n]"

primrec be_acc :: "int \<Rightarrow> bytes \<Rightarrow> int" where
  "be_acc a [] = a"
| "be_acc a (b # bs) = be_acc (a * 256 + uint b) bs"

definition be_val :: "bytes \<Rightarrow> int" where
  "be_val bs = be_acc 0 bs"

lemma length_be_bytes [simp]: "length (be_bytes k n) = k"
  by (induction k arbitrary: n) auto

lemma be_acc_append: "be_acc a (xs @ ys) = be_acc (be_acc a xs) ys"
  by (induction xs arbitrary: a) auto

lemma be_acc_eq: "be_acc a bs = a * 256 ^ length bs + be_acc 0 bs"
proof (induction bs arbitrary: a)
  case (Cons b bs)
  show ?case
    using Cons [of "a * 256 + uint b"] Cons [of "uint b"] by (simp add: algebra_simps)
qed simp

lemma be_val_Nil [simp]: "be_val [] = 0"
  by (simp add: be_val_def)

lemma be_val_Cons: "be_val (b # bs) = uint b * 256 ^ length bs + be_val bs"
  unfolding be_val_def using be_acc_eq [of "uint b" bs] by simp

lemma be_val_append: "be_val (xs @ ys) = be_val xs * 256 ^ length ys + be_val ys"
  unfolding be_val_def by (simp add: be_acc_append be_acc_eq [of "be_acc 0 xs"])

lemma be_val_snoc: "be_val (xs @ [b]) = be_val xs * 256 + uint b"
  by (simp add: be_val_append be_val_Cons)

lemma uint_byte_bounds: "0 \<le> uint (b::byte)" "uint (b::byte) < 256"
  using uint_lt2p [of b] by simp_all

lemma uint_byte_consts [simp]: "uint (0xFF :: byte) = 0xFF" "uint (0x80 :: byte) = 0x80"
  by (simp_all add: uint_numeral)

lemma be_val_nonneg [simp]: "0 \<le> be_val bs"
  by (induction bs) (simp_all add: be_val_Cons)

lemma be_val_less: "be_val bs < 256 ^ length bs"
proof (induction bs)
  case (Cons b bs)
  have "be_val (b # bs) < (uint b + 1) * 256 ^ length bs"
    using Cons by (simp add: be_val_Cons algebra_simps)
  also have "\<dots> \<le> 256 * 256 ^ length bs"
    using uint_byte_bounds(2) [of b] by (intro mult_right_mono) auto
  finally show ?case by simp
qed simp

lemma uint_word_of_int_byte [simp]: "uint (word_of_int n :: byte) = n mod 256"
  by (simp add: uint_word_of_int)

lemma be_val_be_bytes: "be_val (be_bytes k n) = n mod 256 ^ k"
proof (induction k arbitrary: n)
  case (Suc k)
  have "n mod (256 * 256 ^ k) = 256 * (n div 256 mod 256 ^ k) + n mod 256"
    by (rule zmod_zmult2_eq) simp
  with Suc show ?case by (simp add: be_val_snoc mult.commute)
qed simp

lemma be_val_be_bytes_id: "0 \<le> n \<Longrightarrow> n < 256 ^ k \<Longrightarrow> be_val (be_bytes k n) = n"
  by (simp add: be_val_be_bytes)

lemma be_val_mod_256: "bs \<noteq> [] \<Longrightarrow> be_val bs mod 256 = uint (last bs)"
  by (cases bs rule: rev_cases) (auto simp: be_val_snoc uint_byte_bounds)

lemma be_bytes_be_val: "be_bytes (length bs) (be_val bs) = bs"
proof (induction bs rule: rev_induct)
  case (snoc b bs)
  have "be_val (bs @ [b]) div 256 = be_val bs"
    using uint_byte_bounds [of b] by (simp add: be_val_snoc)
  moreover have "(word_of_int (be_val (bs @ [b])) :: byte) = b"
  proof (rule word_uint_eqI)
    have "(be_val bs * 256 + uint b) mod 256 = uint b"
      using uint_byte_bounds [of b] by simp
    then show "uint (word_of_int (be_val (bs @ [b])) :: byte) = uint b"
      by (simp only: be_val_snoc uint_word_of_int_byte)
  qed
  ultimately show ?case using snoc by simp
qed simp

lemma be_val_inj: "length xs = length ys \<Longrightarrow> be_val xs = be_val ys \<Longrightarrow> xs = ys"
  by (metis be_bytes_be_val)

lemma be_bytes_4: "be_bytes 4 n =
    [word_of_int (n div 16777216), word_of_int (n div 65536), word_of_int (n div 256), word_of_int n]"
  by (simp add: numeral_eq_Suc zdiv_zmult2_eq [symmetric])

lemma be_bytes_8: "be_bytes 8 n = be_bytes 4 (n div 4294967296) @ be_bytes 4 n"
  by (simp add: numeral_eq_Suc zdiv_zmult2_eq [symmetric])

text \<open>\<open>struct.pack\<close> and \<open>struct.unpack\<close> for the formats \<open>>I\<close>, \<open>>Q\<close> and \<open>B\<close>.\<close>

definition pack_I :: "int \<Rightarrow> bytes res" where
  "pack_I n = (if 0 \<le> n \<and> n < 2 ^ 32 then Inr (be_bytes 4 n) else Inl StructError)"

definition pack_Q :: "int \<Rightarrow> bytes res" where
  "pack_Q n = (if 0 \<le> n \<and> n < 2 ^ 64 then Inr (be_bytes 8 n) else Inl StructError)"

definition pack_B :: "int \<Rightarrow> bytes res" where
  "pack_B n = (if 0 \<le> n \<and> n < 256 then Inr [word_of_int n] else Inl StructError)"

definition unpack_I :: "bytes \<Rightarrow> int res" where
  "unpack_I b = (if length b = 4 then Inr (be_val b) else Inl StructError)"

definition unpack_Q :: "bytes \<Rightarrow> int res" where
  "unpack_Q b = (if length b = 8 then Inr (be_val b) else Inl StructError)"

lemma unpack_pack_I: "pack_I n = Inr b \<Longrightarrow> unpack_I b = Inr n"
  by (auto simp: pack_I_def unpack_I_def be_val_be_bytes split: if_splits)

lemma unpack_pack_Q: "pack_Q n = Inr b \<Longrightarrow> unpack_Q b = Inr n"
  by (auto simp: pack_Q_def unpack_Q_def be_val_be_bytes split: if_splits)

section \<open>The strict UTF-8 codec\<close>

definition valid_str :: "pystr \<Rightarrow> bool" where
  "valid_str s \<longleftrightarrow> (\<forall>c\<in>set s. c < 0x110000)"

definition surrogate :: "nat \<Rightarrow> bool" where
  "surrogate c \<longleftrightarrow> 0xD800 \<le> c \<and> c \<le> 0xDFFF"

definition utf8_encode1 :: "nat \<Rightarrow> bytes res" where
  "utf8_encode1 c =
     (if c < 0x80 then Inr [of_nat c]
      else if c < 0x800 then Inr [of_nat (0xC0 + c div 64), of_nat (0x80 + c mod 64)]
      else if surrogate c \<or> 0x110000 \<le> c then Inl UnicodeEncodeError
      else if c < 0x10000 then
        Inr [of_nat (0xE0 + c div 4096), of_nat (0x80 + c div 64 mod 64), of_nat (0x80 + c mod 64)]
      else Inr [of_nat (0xF0 + c div 262144), of_nat (0x80 + c div 4096 mod 64),
                of_nat (0x80 + c div 64 mod 64), of_nat (0x80 + c mod 64)])"

fun utf8_encode :: "pystr \<Rightarrow> bytes res" where
  "utf8_encode [] = Inr []"
| "utf8_encode (c # cs) =
     bind_res (utf8_encode1 c) (\<lambda>b. bind_res (utf8_encode cs) (\<lambda>bs. Inr (b @ bs)))"

definition is_cont :: "byte \<Rightarrow> bool" where
  "is_cont b \<longleftrightarrow> 0x80 \<le> unat b \<and> unat b < 0xC0"

definition cont_val :: "byte \<Rightarrow> nat" where
  "cont_val b = unat b - 0x80"

fun utf8_decode :: "bytes \<Rightarrow> pystr res" where
  "utf8_decode [] = Inr []"
| "utf8_decode (a # r) =
     (if unat a < 0x80 then bind_res (utf8_decode r) (\<lambda>s. Inr (unat a # s))
      else if unat a < 0xC2 then Inl UnicodeDecodeError
      else if unat a < 0xE0 then
        (case r of
           b # r1 \<Rightarrow>
             (if is_cont b
              then bind_res (utf8_decode r1) (\<lambda>s. Inr (((unat a - 0xC0) * 64 + cont_val b) # s))
              else Inl UnicodeDecodeError)
         | _ \<Rightarrow> Inl UnicodeDecodeError)
      else if unat a < 0xF0 then
        (case r of
           b # c # r2 \<Rightarrow>
             (let v = (unat a - 0xE0) * 4096 + cont_val b * 64 + cont_val c
              in if is_cont b \<and> is_cont c \<and> 0x800 \<le> v \<and> \<not> surrogate v
                 then bind_res (utf8_decode r2) (\<lambda>s. Inr (v # s))
                 else Inl UnicodeDecodeError)
         | _ \<Rightarrow> Inl UnicodeDecodeError)
      else if unat a < 0xF5 then
        (case r of
           b # c # d # r3 \<Rightarrow>
             (let v = (unat a - 0xF0) * 262144 + cont_val b * 4096 + cont_val c * 64 + cont_val d
              in if is_cont b \<and> is_cont c \<and> is_cont d \<and> 0x10000 \<le> v \<and> v < 0x110000
                 then bind_res (utf8_decode r3) (\<lambda>s. Inr (v # s))
                 else Inl UnicodeDecodeError)
         | _ \<Rightarrow> Inl UnicodeDecodeError)
      else Inl UnicodeDecodeError)"

lemma unat_of_nat_byte [simp]: "n < 256 \<Longrightarrow> unat (of_nat n :: byte) = n"
  by (simp add: unat_of_nat)

lemma is_cont_of_nat: "n < 64 \<Longrightarrow> is_cont (of_nat (0x80 + n))"
  unfolding is_cont_def by (subst (1 2) unat_of_nat_byte) auto

lemma cont_val_of_nat: "n < 64 \<Longrightarrow> cont_val (of_nat (0x80 + n)) = n"
  unfolding cont_val_def by (subst unat_of_nat_byte) auto

lemma unat_lead:
  "n < 16 \<Longrightarrow> unat (of_nat (0xE0 + n) :: byte) = 0xE0 + n"
  "n < 16 \<Longrightarrow> unat (of_nat (0xF0 + n) :: byte) = 0xF0 + n"
  "n < 32 \<Longrightarrow> unat (of_nat (0xC0 + n) :: byte) = 0xC0 + n"
  by (subst unat_of_nat_byte; simp)+

lemma split64: "(c::nat) div 4096 * 4096 + c div 64 mod 64 * 64 + c mod 64 = c"
proof -
  have "c div 64 div 64 * 64 + c div 64 mod 64 = c div 64" by (rule div_mult_mod_eq)
  moreover have "c div 64 div 64 = c div 4096" by (simp add: div_mult2_eq [symmetric])
  moreover have "c div 64 * 64 + c mod 64 = c" by (rule div_mult_mod_eq)
  ultimately show ?thesis by linarith
qed

lemma split64_4: "(c::nat) div 262144 * 262144 + c div 4096 mod 64 * 4096 + c div 64 mod 64 * 64 + c mod 64 = c"
proof -
  have "c div 4096 div 64 * 64 + c div 4096 mod 64 = c div 4096" by (rule div_mult_mod_eq)
  moreover have "c div 4096 div 64 = c div 262144" by (simp add: div_mult2_eq [symmetric])
  ultimately show ?thesis using split64 [of c] by linarith
qed

lemma utf8_decode_encode1:
  assumes "utf8_encode1 c = Inr b"
  shows "utf8_decode (b @ r) = bind_res (utf8_decode r) (\<lambda>s. Inr (c # s))"
proof -
  consider (one) "c < 0x80" | (two) "0x80 \<le> c" "c < 0x800"
    | (three) "0x800 \<le> c" "c < 0x10000" "\<not> surrogate c"
    | (four) "0x10000 \<le> c" "c < 0x110000" "\<not> surrogate c"
    using assms by (force simp: utf8_encode1_def split: if_splits)
  then show ?thesis
  proof cases
    case one
    with assms show ?thesis by (auto simp: utf8_encode1_def)
  next
    case two
    then have b: "b = [of_nat (0xC0 + c div 64), of_nat (0x80 + c mod 64)]"
      using assms by (simp add: utf8_encode1_def)
    have d: "2 \<le> c div 64" "c div 64 < 32"
      using two div_le_mono [of 128 c 64] less_mult_imp_div_less [of c 32 64] by simp_all
    note u = unat_lead(3) [OF d(2)] d
    have i: "is_cont (of_nat (0x80 + c mod 64))" "cont_val (of_nat (0x80 + c mod 64)) = c mod 64"
      by (rule is_cont_of_nat, simp, rule cont_val_of_nat, simp)
    have "(0xC0 + c div 64 - 0xC0) * 64 + c mod 64 = c" by simp
    with u show ?thesis unfolding b append_Cons append_Nil utf8_decode.simps(2) list.case u(1) i(2) if_P [OF i(1)]
      by simp
  next
    case three
    then have b: "b = [of_nat (0xE0 + c div 4096), of_nat (0x80 + c div 64 mod 64), of_nat (0x80 + c mod 64)]"
      using assms by (simp add: utf8_encode1_def)
    have d: "c div 4096 < 16"
      using three less_mult_imp_div_less [of c 16 4096] by simp
    note u = unat_lead(1) [OF d] d
    have i: "is_cont (of_nat (0x80 + c mod 64))" "cont_val (of_nat (0x80 + c mod 64)) = c mod 64"
       "is_cont (of_nat (0x80 + c div 64 mod 64))" "cont_val (of_nat (0x80 + c div 64 mod 64)) = c div 64 mod 64"
      by (rule is_cont_of_nat, simp, rule cont_val_of_nat, simp)+
    have v: "(0xE0 + c div 4096 - 0xE0) * 4096 + c div 64 mod 64 * 64 + c mod 64 = c"
      using split64 [of c] by simp
    from u three i show ?thesis
      unfolding b append_Cons append_Nil utf8_decode.simps(2) list.case u(1) i(2,4) v Let_def
      by simp
  next
    case four
    then have b: "b = [of_nat (0xF0 + c div 262144), of_nat (0x80 + c div 4096 mod 64),
        of_nat (0x80 + c div 64 mod 64), of_nat (0x80 + c mod 64)]"
      using assms by (simp add: utf8_encode1_def)
    have d: "c div 262144 < 5"
      using four less_mult_imp_div_less [of c 5 262144] by simp
    then have d': "c div 262144 < 16" by simp
    note u = unat_lead(2) [OF d'] d
    have i: "is_cont (of_nat (0x80 + c mod 64))" "cont_val (of_nat (0x80 + c mod 64)) = c mod 64"
       "is_cont (of_nat (0x80 + c div 64 mod 64))" "cont_val (of_nat (0x80 + c div 64 mod 64)) = c div 64 mod 64"
       "is_cont (of_nat (0x80 + c div 4096 mod 64))" "cont_val (of_nat (0x80 + c div 4096 mod 64)) = c div 4096 mod 64"
      by (rule is_cont_of_nat, simp, rule cont_val_of_nat, simp)+
    have v: "(0xF0 + c div 262144 - 0xF0) * 262144 + c div 4096 mod 64 * 4096 + c div 64 mod 64 * 64 + c mod 64 = c"
      using split64_4 [of c] by simp
    from u four i show ?thesis
      unfolding b append_Cons append_Nil utf8_decode.simps(2) list.case u(1) i(2,4,6) v Let_def
      by simp
  qed
qed

lemma utf8_decode_encode: "utf8_encode s = Inr b \<Longrightarrow> utf8_decode b = Inr s"
  by (induction s arbitrary: b) (auto simp: bind_res_eq_Inr utf8_decode_encode1)

lemma utf8_encode_total: "(\<forall>c\<in>set s. c < 0x110000 \<and> \<not> surrogate c) \<Longrightarrow> \<exists>b. utf8_encode s = Inr b"
  by (induction s) (auto simp: utf8_encode1_def)

lemma utf8_encode_ascii: "(\<forall>c\<in>set s. c < 0x80) \<Longrightarrow> utf8_encode s = Inr (map of_nat s)"
  by (induction s) (auto simp: utf8_encode1_def)

lemma utf8_decode_ascii: "(\<forall>b\<in>set bs. unat b < 0x80) \<Longrightarrow> utf8_decode bs = Inr (map unat bs)"
  by (induction bs) auto

declare utf8_decode.simps(2) [simp del]

section \<open>Text\<close>

text \<open>
  \<open>str.split()\<close>, \<open>str.strip()\<close> and \<open>int(s, base)\<close> on ASCII text: blanks are the six ASCII
  white-space characters, and a number may have a sign, the prefix \<open>0x\<close> in base 16, and single
  underscores between its digits.
\<close>

definition is_blank :: "nat \<Rightarrow> bool" where
  "is_blank c \<longleftrightarrow> c \<in> {9, 10, 11, 12, 13, 32}"

definition py_lstrip :: "pystr \<Rightarrow> pystr" where
  "py_lstrip s = dropWhile is_blank s"

definition py_strip :: "pystr \<Rightarrow> pystr" where
  "py_strip s = rev (dropWhile is_blank (rev (dropWhile is_blank s)))"

fun split_words :: "pystr \<Rightarrow> pystr \<Rightarrow> pystr list" where
  "split_words w [] = (if w = [] then [] else [w])"
| "split_words w (c # cs) =
     (if is_blank c then (if w = [] then split_words [] cs else w # split_words [] cs)
      else split_words (w @ [c]) cs)"

definition py_split :: "pystr \<Rightarrow> pystr list" where
  "py_split s = split_words [] s"

definition digit_val :: "nat \<Rightarrow> int option" where
  "digit_val c =
     (if 48 \<le> c \<and> c \<le> 57 then Some (int c - 48)
      else if 97 \<le> c \<and> c \<le> 122 then Some (int c - 87)
      else if 65 \<le> c \<and> c \<le> 90 then Some (int c - 55) else None)"

fun read_digits :: "int \<Rightarrow> int \<Rightarrow> bool \<Rightarrow> pystr \<Rightarrow> int option" where
  "read_digits base acc seen [] = (if seen then Some acc else None)"
| "read_digits base acc seen (c # cs) =
     (if c = 95 then (if seen \<and> cs \<noteq> [] then read_digits base acc False cs else None)
      else case digit_val c of
             None \<Rightarrow> None
           | Some d \<Rightarrow> if d < base then read_digits base (acc * base + d) True cs else None)"

definition py_int :: "int \<Rightarrow> pystr \<Rightarrow> int res" where
  "py_int base s =
     (let s = py_strip s;
          sign = (if s \<noteq> [] \<and> hd s = 45 then -1 else 1 :: int);
          s = (if s \<noteq> [] \<and> (hd s = 45 \<or> hd s = 43) then tl s else s);
          s = (if base = 16 \<and> (take 2 s = [48, 120] \<or> take 2 s = [48, 88]) then drop 2 s else s)
      in case read_digits base 0 False s of None \<Rightarrow> Inl ValueError | Some n \<Rightarrow> Inr (sign * n))"

end
