(* ===== verification/Common_Util.thy ===== *)
theory Common_Util
  imports Python_Runtime
begin

unbundle bit_operations_syntax

text \<open>
  The constants of \<open>paramiko/common.py\<close> and the helper functions of
  \<open>paramiko/util.py\<close>: conversions between integers and byte strings
  (\<open>inflate_long\<close>, \<open>deflate_long\<close>), casts between text and bytes, hex dumps,
  key stretching, the modular inverse and the constant-time comparison.
\<close>

section \<open>common.py\<close>

definition byte_chr :: "int \<Rightarrow> bytes res" where
  "byte_chr c = pack_B c"

definition byte_mask :: "int \<Rightarrow> int \<Rightarrow> bytes res" where
  "byte_mask c m = pack_B (c AND m)"

definition byte_ord :: "byte \<Rightarrow> int" where
  "byte_ord c = uint c"

lemma byte_ord_bounds [simp]: "0 \<le> byte_ord b" "byte_ord b < 256"
  using uint_byte_bounds [of b] by (simp_all add: byte_ord_def)

definition MSG_DISCONNECT :: int where [simp]: "MSG_DISCONNECT = 1"
definition MSG_IGNORE :: int where [simp]: "MSG_IGNORE = 2"
definition MSG_UNIMPLEMENTED :: int where [simp]: "MSG_UNIMPLEMENTED = 3"
definition MSG_DEBUG :: int where [simp]: "MSG_DEBUG = 4"
definition MSG_SERVICE_REQUEST :: int where [simp]: "MSG_SERVICE_REQUEST = 5"
definition MSG_SERVICE_ACCEPT :: int where [simp]: "MSG_SERVICE_ACCEPT = 6"
definition MSG_EXT_INFO :: int where [simp]: "MSG_EXT_INFO = 7"
definition MSG_KEXINIT :: int where [simp]: "MSG_KEXINIT = 20"
definition MSG_NEWKEYS :: int where [simp]: "MSG_NEWKEYS = 21"
definition MSG_USERAUTH_REQUEST :: int where [simp]: "MSG_USERAUTH_REQUEST = 50"
definition MSG_USERAUTH_FAILURE :: int where [simp]: "MSG_USERAUTH_FAILURE = 51"
definition MSG_USERAUTH_SUCCESS :: int where [simp]: "MSG_USERAUTH_SUCCESS = 52"
definition MSG_USERAUTH_BANNER :: int where [simp]: "MSG_USERAUTH_BANNER = 53"
definition MSG_USERAUTH_PK_OK :: int where [simp]: "MSG_USERAUTH_PK_OK = 60"
definition MSG_USERAUTH_INFO_REQUEST :: int where [simp]: "MSG_USERAUTH_INFO_REQUEST = 60"
definition MSG_USERAUTH_INFO_RESPONSE :: int where [simp]: "MSG_USERAUTH_INFO_RESPONSE = 61"
definition HIGHEST_USERAUTH_MESSAGE_ID :: int where [simp]: "HIGHEST_USERAUTH_MESSAGE_ID = 79"
definition MSG_GLOBAL_REQUEST :: int where [simp]: "MSG_GLOBAL_REQUEST = 80"
definition MSG_REQUEST_SUCCESS :: int where [simp]: "MSG_REQUEST_SUCCESS = 81"
definition MSG_REQUEST_FAILURE :: int where [simp]: "MSG_REQUEST_FAILURE = 82"
definition MSG_CHANNEL_OPEN :: int where [simp]: "MSG_CHANNEL_OPEN = 90"
definition MSG_CHANNEL_OPEN_SUCCESS :: int where [simp]: "MSG_CHANNEL_OPEN_SUCCESS = 91"
definition MSG_CHANNEL_OPEN_FAILURE :: int where [simp]: "MSG_CHANNEL_OPEN_FAILURE = 92"
definition MSG_CHANNEL_WINDOW_ADJUST :: int where [simp]: "MSG_CHANNEL_WINDOW_ADJUST = 93"
definition MSG_CHANNEL_DATA :: int where [simp]: "MSG_CHANNEL_DATA = 94"
definition MSG_CHANNEL_EXTENDED_DATA :: int where [simp]: "MSG_CHANNEL_EXTENDED_DATA = 95"
definition MSG_CHANNEL_EOF :: int where [simp]: "MSG_CHANNEL_EOF = 96"
definition MSG_CHANNEL_CLOSE :: int where [simp]: "MSG_CHANNEL_CLOSE = 97"
definition MSG_CHANNEL_REQUEST :: int where [simp]: "MSG_CHANNEL_REQUEST = 98"
definition MSG_CHANNEL_SUCCESS :: int where [simp]: "MSG_CHANNEL_SUCCESS = 99"
definition MSG_CHANNEL_FAILURE :: int where [simp]: "MSG_CHANNEL_FAILURE = 100"

definition AUTH_SUCCESSFUL :: int where [simp]: "AUTH_SUCCESSFUL = 0"
definition AUTH_PARTIALLY_SUCCESSFUL :: int where [simp]: "AUTH_PARTIALLY_SUCCESSFUL = 1"
definition AUTH_FAILED :: int where [simp]: "AUTH_FAILED = 2"

definition OPEN_SUCCEEDED :: int where [simp]: "OPEN_SUCCEEDED = 0"
definition OPEN_FAILED_ADMINISTRATIVELY_PROHIBITED :: int where
  [simp]: "OPEN_FAILED_ADMINISTRATIVELY_PROHIBITED = 1"
definition OPEN_FAILED_CONNECT_FAILED :: int where [simp]: "OPEN_FAILED_CONNECT_FAILED = 2"
definition OPEN_FAILED_UNKNOWN_CHANNEL_TYPE :: int where
  [simp]: "OPEN_FAILED_UNKNOWN_CHANNEL_TYPE = 3"
definition OPEN_FAILED_RESOURCE_SHORTAGE :: int where [simp]: "OPEN_FAILED_RESOURCE_SHORTAGE = 4"

definition CONNECTION_FAILED_CODE :: "int \<Rightarrow> string option" where
  "CONNECTION_FAILED_CODE = map_of
     [(1, ''Administratively prohibited''), (2, ''Connect failed''),
      (3, ''Unknown channel type''), (4, ''Resource shortage'')]"

definition DISCONNECT_SERVICE_NOT_AVAILABLE :: int where [simp]: "DISCONNECT_SERVICE_NOT_AVAILABLE = 7"
definition DISCONNECT_AUTH_CANCELLED_BY_USER :: int where [simp]: "DISCONNECT_AUTH_CANCELLED_BY_USER = 13"
definition DISCONNECT_NO_MORE_AUTH_METHODS_AVAILABLE :: int where
  [simp]: "DISCONNECT_NO_MORE_AUTH_METHODS_AVAILABLE = 14"

definition zero_byte :: bytes where [simp]: "zero_byte = [0]"
definition one_byte :: bytes where [simp]: "one_byte = [1]"
definition max_byte :: bytes where [simp]: "max_byte = [0xFF]"
definition cr_byte_value :: byte where [simp]: "cr_byte_value = 13"
definition linefeed_byte :: byte where [simp]: "linefeed_byte = 10"
definition xffffffff :: int where [simp]: "xffffffff = 0xFFFFFFFF"

definition DEFAULT_WINDOW_SIZE :: int where [simp]: "DEFAULT_WINDOW_SIZE = 64 * 2 ^ 15"
definition DEFAULT_MAX_PACKET_SIZE :: int where [simp]: "DEFAULT_MAX_PACKET_SIZE = 2 ^ 15"
definition MIN_WINDOW_SIZE :: int where [simp]: "MIN_WINDOW_SIZE = 2 ^ 15"
definition MIN_PACKET_SIZE :: int where [simp]: "MIN_PACKET_SIZE = 2 ^ 12"
definition MAX_WINDOW_SIZE :: int where [simp]: "MAX_WINDOW_SIZE = 2 ^ 32 - 1"

section \<open>Casts between text and bytes\<close>

text \<open>
  The values the code passes to \<open>b()\<close>, \<open>u()\<close> and \<open>asbytes()\<close>: bytes, text, an
  object with an \<open>asbytes\<close> method (a message, a key) and any other buffer-like object.
\<close>

datatype py_obj = PBytes bytes | PStr pystr | PAsBytes bytes | PBuffer bytes

fun b_cast :: "py_obj \<Rightarrow> bytes res" where
  "b_cast (PBytes s) = Inr s"
| "b_cast (PStr s) = utf8_encode s"
| "b_cast _ = Inl TypeError"

fun u_cast :: "py_obj \<Rightarrow> pystr res" where
  "u_cast (PBytes s) = utf8_decode s"
| "u_cast (PStr s) = Inr s"
| "u_cast _ = Inl TypeError"

fun asbytes :: "py_obj \<Rightarrow> bytes res" where
  "asbytes (PAsBytes s) = Inr s"
| "asbytes (PBuffer s) = Inr s"
| "asbytes s = b_cast s"

section \<open>inflate_long and deflate_long\<close>

function inflate_loop :: "int \<Rightarrow> bytes \<Rightarrow> int" where
  "inflate_loop out s =
     (if s = [] then out else inflate_loop (push_bit 32 out + be_val (take 4 s)) (drop 4 s))"
  by pat_completeness auto
termination by (relation "measure (\<lambda>(out, s). length s)") auto

declare inflate_loop.simps [simp del]

definition inflate_long :: "bytes \<Rightarrow> bool \<Rightarrow> int" where
  "inflate_long s always_positive =
     (let negative = (\<not> always_positive \<and> 0 < length s \<and> 0x80 \<le> byte_ord (hd s));
          filler = (if negative then 0xFF else 0);
          s' = (if length s mod 4 \<noteq> 0 then replicate (4 - length s mod 4) filler @ s else s);
          out = inflate_loop 0 s'
      in if negative then out - push_bit (8 * length s') 1 else out)"

function deflate_loop :: "int \<Rightarrow> bytes \<Rightarrow> int \<times> bytes" where
  "deflate_loop n s =
     (if n \<noteq> 0 \<and> n \<noteq> -1
      then deflate_loop (drop_bit 32 n) (be_bytes 4 (n AND xffffffff) @ s)
      else (n, s))"
  by pat_completeness auto
termination
proof (relation "measure (\<lambda>(n, s). nat \<bar>n\<bar>)")
  fix n :: int and s :: bytes
  assume "n \<noteq> 0 \<and> n \<noteq> -1"
  then have "\<bar>n div 4294967296\<bar> < \<bar>n\<bar>" by arith
  then show "((drop_bit 32 n, be_bytes 4 (n AND xffffffff) @ s), (n, s)) \<in> measure (\<lambda>(n, s). nat \<bar>n\<bar>)"
    by (simp add: drop_bit_eq_div)
qed simp

declare deflate_loop.simps [simp del]

definition deflate_long :: "int \<Rightarrow> bool \<Rightarrow> bytes" where
  "deflate_long n0 add_sign_padding =
     (let (n, s) = deflate_loop n0 [];
          filler = (if n = 0 then 0 else 0xFF);
          stripped = dropWhile (\<lambda>c. c = filler) s;
          t = (if stripped = [] then [filler] else stripped)
      in if add_sign_padding \<and> n = 0 \<and> 0x80 \<le> byte_ord (hd t) then zero_byte @ t
         else if add_sign_padding \<and> n = -1 \<and> byte_ord (hd t) < 0x80 then max_byte @ t
         else t)"

text \<open>The mathematical reading of a byte string: unsigned, and two's complement.\<close>

definition sval :: "bytes \<Rightarrow> int" where
  "sval s = be_val s - (if s \<noteq> [] \<and> 0x80 \<le> byte_ord (hd s) then 256 ^ length s else 0)"

lemma inflate_loop_eq:
  "length s mod 4 = 0 \<Longrightarrow> inflate_loop out s = out * 256 ^ length s + be_val s"
proof (induction out s rule: inflate_loop.induct)
  case (1 out s)
  show ?case
  proof (cases "s = []")
    case True
    then show ?thesis by (simp add: inflate_loop.simps)
  next
    case False
    with "1.prems" have len: "4 \<le> length s"
      by (cases "length s < 4") auto
    have "inflate_loop out s = inflate_loop (out * 256 ^ 4 + be_val (take 4 s)) (drop 4 s)"
      using False by (subst inflate_loop.simps) (simp add: push_bit_eq_mult)
    also have "\<dots> = (out * 256 ^ 4 + be_val (take 4 s)) * 256 ^ (length s - 4) + be_val (drop 4 s)"
      using "1.IH" [OF False] "1.prems" len by (simp add: push_bit_eq_mult mod_diff_eq [symmetric] mod_eq_0_iff_dvd)
    also have "\<dots> = out * 256 ^ length s + be_val (take 4 s @ drop 4 s)"
    proof -
      have "(256::int) ^ length s = 256 ^ 4 * 256 ^ (length s - 4)"
        using len by (metis le_add_diff_inverse power_add)
      then show ?thesis by (simp only: be_val_append length_drop) (simp add: algebra_simps)
    qed
    finally show ?thesis by simp
  qed
qed

lemma be_val_replicate_0 [simp]: "be_val (replicate k 0 @ s) = be_val s"
  by (induction k) (auto simp: be_val_Cons)

lemma be_val_replicate_FF: "be_val (replicate k 0xFF @ s) = 256 ^ (k + length s) - 256 ^ length s + be_val s"
  by (induction k) (auto simp: be_val_Cons)

lemma pad4: "(0::nat) < n mod 4 \<Longrightarrow> (4 - n mod 4 + n) mod 4 = 0"
  by presburger

text \<open>\<open>inflate_long\<close> reads the two's complement, or the unsigned, big-endian value.\<close>

lemma inflate_long_value:
  "inflate_long s ap = (if ap then be_val s else sval s)"
proof -
  let ?neg = "\<not> ap \<and> 0 < length s \<and> 0x80 \<le> byte_ord (hd s)"
  let ?k = "if length s mod 4 \<noteq> 0 then 4 - length s mod 4 else 0"
  let ?s = "replicate ?k (if ?neg then 0xFF else 0) @ s"
  have "length ?s mod 4 = 0" using pad4 [of "length s"] by simp
  then have out: "inflate_loop 0 ?s = be_val ?s" by (simp add: inflate_loop_eq)
  have pad: "(if length s mod 4 \<noteq> 0 then replicate (4 - length s mod 4) (if ?neg then 0xFF else 0) @ s else s) = ?s"
    by simp
  have val: "inflate_long s ap = (if ?neg then be_val ?s - 2 ^ (8 * length ?s) else be_val ?s)"
    unfolding inflate_long_def Let_def pad out push_bit_eq_mult mult_1 by (rule refl)
  have pow: "(2::int) ^ (8 * (?k + length s)) = 256 ^ (?k + length s)"
    unfolding power_mult by simp
  have len: "length ?s = ?k + length s" by simp
  have eq: "inflate_long s ap =
      (if ?neg then be_val ?s - 256 ^ (?k + length s) else be_val ?s)"
    unfolding val len pow by (rule refl)
  show ?thesis
  proof (cases ?neg)
    case True
    then have "inflate_long s ap = be_val (replicate ?k 0xFF @ s) - 256 ^ (?k + length s)"
      using eq by (simp only: if_True simp_thms)
    then have "inflate_long s ap = be_val s - 256 ^ length s"
      by (simp only: be_val_replicate_FF)
    with True show ?thesis by (simp add: sval_def)
  next
    case False
    then have "inflate_long s ap = be_val (replicate ?k 0 @ s)"
      using eq by (simp only: if_False simp_thms)
    then have "inflate_long s ap = be_val s" by (simp only: be_val_replicate_0)
    with False show ?thesis by (auto simp: sval_def)
  qed
qed

lemma and_xffffffff: "n AND xffffffff = n mod 2 ^ 32"
proof -
  have "n AND mask 32 = take_bit 32 n" by (simp add: take_bit_eq_mask)
  then show ?thesis by (simp add: take_bit_eq_mod mask_eq_exp_minus_1)
qed

lemma deflate_loop_value:
  "deflate_loop n s = (n', s') \<Longrightarrow>
     (n' = 0 \<or> n' = -1) \<and> n' * 256 ^ length s' + be_val s' = n * 256 ^ length s + be_val s"
proof (induction n s rule: deflate_loop.induct)
  case (1 n s)
  show ?case
  proof (cases "n \<noteq> 0 \<and> n \<noteq> -1")
    case True
    let ?b = "be_bytes 4 (n AND xffffffff)"
    have rec: "deflate_loop (drop_bit 32 n) (?b @ s) = (n', s')"
      using True "1.prems" deflate_loop.simps [of n s] by simp
    have b: "be_val ?b = n mod 4294967296"
      unfolding and_xffffffff be_val_be_bytes by simp
    have "drop_bit 32 n * 256 ^ length (?b @ s) + be_val (?b @ s) =
        n div 4294967296 * (4294967296 * 256 ^ length s) + n mod 4294967296 * 256 ^ length s + be_val s"
      unfolding be_val_append b by (simp add: drop_bit_eq_div power_add)
    also have "\<dots> = (n div 4294967296 * 4294967296 + n mod 4294967296) * 256 ^ length s + be_val s"
      by (simp only: distrib_right mult.assoc)
    also have "\<dots> = n * 256 ^ length s + be_val s"
      by (simp only: div_mult_mod_eq)
    finally have "drop_bit 32 n * 256 ^ length (?b @ s) + be_val (?b @ s) = n * 256 ^ length s + be_val s" .
    with "1.IH" [OF True rec] show ?thesis by simp
  next
    case False
    with "1.prems" show ?thesis by (subst (asm) deflate_loop.simps) auto
  qed
qed

lemma strip_value:
  assumes "n = 0 \<and> c = 0 \<or> n = -1 \<and> c = (0xFF :: byte)"
  shows "n * 256 ^ length s + be_val s =
    n * 256 ^ length (dropWhile (\<lambda>x. x = c) s) + be_val (dropWhile (\<lambda>x. x = c) s)"
proof -
  let ?t = "dropWhile (\<lambda>x. x = c) s"
  define k where "k = length s - length ?t"
  have s: "s = replicate k c @ ?t" unfolding k_def by (rule strip_decomp)
  then have len: "length s = k + length ?t" by (metis length_append length_replicate)
  from assms show ?thesis
  proof
    assume "n = 0 \<and> c = 0"
    then show ?thesis using s by (metis be_val_replicate_0 mult_zero_left)
  next
    assume n: "n = -1 \<and> c = 0xFF"
    then have "be_val s = 256 ^ (k + length ?t) - 256 ^ length ?t + be_val ?t"
      using s be_val_replicate_FF by metis
    with n len show ?thesis by simp
  qed
qed

text \<open>
  The shape of \<open>deflate_long\<close>: a sign digit \<open>0\<close> or \<open>-1\<close> and the digits of the
  magnitude relative to it, shortest possible.
\<close>

lemma deflate_long_shape:
  obtains n c t where "n = 0 \<and> c = 0 \<or> n = -1 \<and> c = (0xFF :: byte)" and "t \<noteq> []"
    and "n * 256 ^ length t + be_val t = n0" and "hd t \<noteq> c \<or> t = [c]"
    and "deflate_long n0 p =
           (if p \<and> (n = 0 \<longleftrightarrow> 0x80 \<le> byte_ord (hd t)) then c # t else t)"
proof -
  obtain n s where loop: "deflate_loop n0 [] = (n, s)" by (cases "deflate_loop n0 []")
  have n: "n = 0 \<or> n = -1" and val: "n * 256 ^ length s + be_val s = n0"
    using deflate_loop_value [OF loop] by simp_all
  define c where "c = (if n = 0 then 0 else 0xFF :: byte)"
  define u where "u = dropWhile (\<lambda>x. x = c) s"
  define t where "t = (if u = [] then [c] else u)"
  have nc: "n = 0 \<and> c = 0 \<or> n = -1 \<and> c = 0xFF" using n by (auto simp: c_def)
  have "n * 256 ^ length u + be_val u = n0"
    using strip_value [OF nc, of s] val by (simp add: u_def)
  then have tv: "n * 256 ^ length t + be_val t = n0"
    using nc by (auto simp: t_def be_val_Cons)
  have hd: "hd t \<noteq> c \<or> t = [c]"
    using dropWhile_hd [of "\<lambda>x. x = c" s] by (auto simp: t_def u_def)
  have "deflate_long n0 p =
      (if p \<and> n = 0 \<and> 0x80 \<le> byte_ord (hd t) then zero_byte @ t
       else if p \<and> n = -1 \<and> byte_ord (hd t) < 0x80 then max_byte @ t else t)"
    unfolding deflate_long_def loop prod.case Let_def t_def u_def c_def by (rule refl)
  then have "deflate_long n0 p = (if p \<and> (n = 0 \<longleftrightarrow> 0x80 \<le> byte_ord (hd t)) then c # t else t)"
    using nc by (elim disjE) (simp_all add: not_le)
  moreover have "t \<noteq> []" by (simp add: t_def)
  ultimately show thesis using that nc tv hd by blast
qed

lemma sval_shape:
  assumes "n = 0 \<and> c = 0 \<or> n = -1 \<and> c = (0xFF :: byte)" and "t \<noteq> []"
  shows "sval (if n = 0 \<longleftrightarrow> 0x80 \<le> byte_ord (hd t) then c # t else t) = n * 256 ^ length t + be_val t"
  using assms by (auto simp: sval_def be_val_Cons byte_ord_def)

lemma sval_deflate_long: "sval (deflate_long n True) = n"
proof (rule deflate_long_shape [of n True])
  fix k c t
  assume "k = 0 \<and> c = 0 \<or> k = -1 \<and> c = (0xFF :: byte)" and "t \<noteq> []"
    and "k * 256 ^ length t + be_val t = n"
    and "deflate_long n True = (if True \<and> (k = 0 \<longleftrightarrow> 0x80 \<le> byte_ord (hd t)) then c # t else t)"
  then show ?thesis using sval_shape [of k c t] by simp
qed

lemma deflate_long_nonempty [simp]: "deflate_long n p \<noteq> []"
  by (rule deflate_long_shape [of n p]) auto

section \<open>Hex dumps and printable text\<close>

definition hex_digit :: "nat \<Rightarrow> char" where
  "hex_digit d = (if d < 10 then char_of (48 + d) else char_of (55 + d))"

text \<open>\<open>'{:02X}'.format(i)\<close> for a byte value.\<close>

definition hex02 :: "byte \<Rightarrow> string" where
  "hex02 b = [hex_digit (unat b div 16), hex_digit (unat b mod 16)]"

fun join :: "'a list \<Rightarrow> 'a list list \<Rightarrow> 'a list" where
  "join sep [] = []"
| "join sep [x] = x"
| "join sep (x # y # xs) = x @ sep @ join sep (y # xs)"

definition ljust :: "nat \<Rightarrow> string \<Rightarrow> string" where
  "ljust w s = s @ replicate (w - length s) (CHR '' '')"

definition format_binary_line :: "bytes \<Rightarrow> string" where
  "format_binary_line data =
     (let left = join '' '' (map hex02 data);
          right = map (\<lambda>c. [CHR ''.'', char_of (unat c), CHR ''.'', CHR ''.''] ! ((unat c + 63) div 95)) data
      in ljust 50 left @ '' '' @ right)"

function format_binary_loop :: "bytes \<Rightarrow> nat \<Rightarrow> string list" where
  "format_binary_loop data x =
     (if x + 16 < length data
      then format_binary_line (take 16 (drop x data)) # format_binary_loop data (x + 16)
      else if x < length data then [format_binary_line (drop x data)] else [])"
  by pat_completeness auto
termination by (relation "measure (\<lambda>(data, x). length data - x)") auto

declare format_binary_loop.simps [simp del]

definition format_binary :: "bytes \<Rightarrow> string \<Rightarrow> string list" where
  "format_binary data prefix = map (\<lambda>line. prefix @ line) (format_binary_loop data 0)"

definition safe_string :: "bytes \<Rightarrow> bytes" where
  "safe_string s = concat (map (\<lambda>c. if 32 \<le> byte_ord c \<and> byte_ord c \<le> 127 then [c]
                                    else ascii (CHR ''%'' # hex02 c)) s)"

section \<open>Integers\<close>

fun nat_bits :: "nat \<Rightarrow> nat" where
  "nat_bits n = (if n = 0 then 0 else Suc (nat_bits (n div 2)))"

declare nat_bits.simps [simp del]

text \<open>\<open>int.bit_length\<close> is defined on every \<open>int\<close>, so the fallback is never taken.\<close>

definition bit_length :: "int \<Rightarrow> int" where
  "bit_length n = int (nat_bits (nat \<bar>n\<bar>))"

function mod_inverse_loop :: "int \<times> int \<times> int \<Rightarrow> int \<times> int \<times> int \<Rightarrow> int" where
  "mod_inverse_loop (u1, u2, u3) (v1, v2, v3) =
     (if 0 < v3
      then (let q = u3 div v3
            in mod_inverse_loop (v1, v2, v3) (u1 - v1 * q, u2 - v2 * q, u3 - v3 * q))
      else u2)"
  by pat_completeness auto
termination
proof (relation "measure (\<lambda>(u, (v1, v2, v3)). nat v3)")
  fix u1 u2 u3 v1 v2 v3 q :: int
  assume "0 < v3" and "q = u3 div v3"
  then have "u3 - v3 * q = u3 mod v3" by (simp add: minus_mult_div_eq_mod)
  with \<open>0 < v3\<close> show "(((v1, v2, v3), (u1 - v1 * q, u2 - v2 * q, u3 - v3 * q)),
      ((u1, u2, u3), (v1, v2, v3))) \<in> measure (\<lambda>(u, (v1, v2, v3)). nat v3)"
    by simp
qed simp

declare mod_inverse_loop.simps [simp del]

definition mod_inverse :: "int \<Rightarrow> int \<Rightarrow> int" where
  "mod_inverse x m =
     (let u2 = mod_inverse_loop (1, 0, m) (0, 1, x) in if u2 < 0 then u2 + m else u2)"

definition clamp_value :: "int \<Rightarrow> int \<Rightarrow> int \<Rightarrow> int" where
  "clamp_value minimum val maximum = max minimum (min val maximum)"

lemma clamp_value_bounds: "lo \<le> hi \<Longrightarrow> lo \<le> clamp_value lo v hi \<and> clamp_value lo v hi \<le> hi"
  by (auto simp: clamp_value_def)

definition constant_time_bytes_eq :: "bytes \<Rightarrow> bytes \<Rightarrow> bool" where
  "constant_time_bytes_eq a b =
     (if length a \<noteq> length b then False
      else foldl (\<lambda>res i. res OR (byte_ord (a ! i) XOR byte_ord (b ! i))) 0 [0..<length a] = 0)"

section \<open>Key stretching\<close>

text \<open>
  \<open>hash_alg\<close> is the digest of the bytes fed to a fresh hash object. The loop ends only
  when every digest contributes bytes, so the result is \<open>None\<close> where it does not return.
\<close>

partial_function (option) key_bytes_loop ::
  "(bytes \<Rightarrow> bytes) \<Rightarrow> bytes \<Rightarrow> bytes \<Rightarrow> bytes \<Rightarrow> bytes \<Rightarrow> int \<Rightarrow> bytes option" where
  "key_bytes_loop hash_alg salt key digest keydata nbytes =
     (if 0 < nbytes
      then (let digest' = hash_alg ((if 0 < length digest then digest else []) @ key @ salt);
                size = min nbytes (int (length digest'))
            in key_bytes_loop hash_alg salt key digest'
                 (keydata @ take (nat size) digest') (nbytes - size))
      else Some keydata)"

definition generate_key_bytes :: "(bytes \<Rightarrow> bytes) \<Rightarrow> bytes \<Rightarrow> bytes \<Rightarrow> int \<Rightarrow> bytes option" where
  "generate_key_bytes hash_alg salt key nbytes =
     key_bytes_loop hash_alg (if 8 < length salt then take 8 salt else salt) key [] [] nbytes"

section \<open>Lemmas about the helpers\<close>

lemma or_xor_fold_zero:
  fixes r :: int
  shows "foldl (\<lambda>res i. res OR (byte_ord (a ! i) XOR byte_ord (b ! i))) r is = 0 \<longleftrightarrow>
    r = 0 \<and> (\<forall>i\<in>set is. a ! i = b ! i)"
proof (induction "is" arbitrary: r)
  case (Cons i js)
  have or0: "(x OR y = 0) = (x = 0 \<and> y = 0)" for x y :: int
    by (auto simp: bit_eq_iff bit_simps)
  have xor0: "(x XOR y = 0) = (x = y)" for x y :: int
    by (auto simp: bit_eq_iff bit_simps)
  show ?case
    by (simp only: foldl_Cons Cons.IH or0 xor0) (auto simp: byte_ord_def word_uint_eq_iff)
qed simp

lemma nat_bits_bounds: "n < 2 ^ nat_bits n \<and> (0 < n \<longrightarrow> 2 ^ (nat_bits n - 1) \<le> n)"
proof (induction n rule: nat_bits.induct)
  case (1 n)
  show ?case
  proof (cases "n = 0")
    case True
    then show ?thesis by (simp add: nat_bits.simps)
  next
    case False
    with "1.IH" have ih: "n div 2 < 2 ^ nat_bits (n div 2)"
      "0 < n div 2 \<Longrightarrow> 2 ^ (nat_bits (n div 2) - 1) \<le> n div 2" by simp_all
    have bits: "nat_bits n = Suc (nat_bits (n div 2))" using False by (subst nat_bits.simps) simp
    have "2 ^ nat_bits (n div 2) \<le> n"
    proof (cases "n div 2 = 0")
      case True
      then show ?thesis using False by (simp add: nat_bits.simps)
    next
      case pos: False
      then have "nat_bits (n div 2) = Suc (nat_bits (n div 2) - 1)" by (simp add: nat_bits.simps [of "n div 2"])
      then have "(2::nat) ^ nat_bits (n div 2) = 2 * 2 ^ (nat_bits (n div 2) - 1)" by (metis power_Suc)
      with ih(2) pos show ?thesis by simp
    qed
    with ih(1) bits show ?thesis by simp
  qed
qed

lemma mod_inverse_loop_bezout:
  assumes "u1 * m + u2 * x = u3" and "v1 * m + v2 * x = v3" and "0 \<le> v3" and "0 \<le> u3"
  shows "\<exists>k. mod_inverse_loop (u1, u2, u3) (v1, v2, v3) * x + k * m = gcd u3 v3"
  using assms
proof (induction "(u1, u2, u3)" "(v1, v2, v3)" arbitrary: u1 u2 u3 v1 v2 v3 rule: mod_inverse_loop.induct)
  case (1 u1 u2 u3 v1 v2 v3)
  show ?case
  proof (cases "0 < v3")
    case True
    define q where "q = u3 div v3"
    have r: "u3 - v3 * q = u3 mod v3" by (simp add: q_def minus_mult_div_eq_mod)
    have "(u1 - v1 * q) * m + (u2 - v2 * q) * x = (u1 * m + u2 * x) - (v1 * m + v2 * x) * q"
      by (simp add: algebra_simps)
    also have "\<dots> = u3 - v3 * q" using "1.prems" by simp
    finally have "\<exists>k. mod_inverse_loop (v1, v2, v3) (u1 - v1 * q, u2 - v2 * q, u3 - v3 * q) * x + k * m
        = gcd v3 (u3 - v3 * q)"
      using "1.hyps" [OF True q_def] "1.prems" True r by simp
    moreover have "gcd v3 (u3 - v3 * q) = gcd u3 v3"
      unfolding r by (metis gcd.commute gcd_red_int)
    ultimately show ?thesis using True mod_inverse_loop.simps [of u1 u2 u3 v1 v2 v3]
      by (simp add: q_def [symmetric] Let_def)
  next
    case False
    then have "v3 = 0" and "mod_inverse_loop (u1, u2, u3) (v1, v2, v3) = u2"
      using "1.prems" mod_inverse_loop.simps [of u1 u2 u3 v1 v2 v3] by auto
    with "1.prems" show ?thesis by (intro exI [of _ u1]) simp
  qed
qed

lemma key_bytes_loop_length:
  assumes "\<And>x. 0 < length (h x)"
  shows "\<exists>r. key_bytes_loop h salt key d kd n = Some r \<and> length r = length kd + nat n"
proof (induction "nat n" arbitrary: d kd n rule: less_induct)
  case less
  show ?case
  proof (cases "0 < n")
    case True
    define d' where "d' = h ((if 0 < length d then d else []) @ key @ salt)"
    define size where "size = min n (int (length d'))"
    have "0 < length d'" unfolding d'_def by (rule assms)
    with True have sz: "0 < size" "size \<le> n" "nat size \<le> length d'" by (auto simp: size_def)
    with True have "nat (n - size) < nat n" by simp
    from less.hyps [OF this, of d' "kd @ take (nat size) d'"]
    obtain r where "key_bytes_loop h salt key d' (kd @ take (nat size) d') (n - size) = Some r"
      and "length r = length kd + nat size + nat (n - size)"
      using sz by auto
    moreover have "nat size + nat (n - size) = nat n" using sz True by simp
    moreover have "key_bytes_loop h salt key d kd n =
        key_bytes_loop h salt key d' (kd @ take (nat size) d') (n - size)"
      using True by (simp add: key_bytes_loop.simps [of h salt key d kd n] d'_def size_def Let_def)
    ultimately show ?thesis by simp
  qed (simp add: key_bytes_loop.simps)
qed

section \<open>Properties\<close>

lemma hd_be_val: "t \<noteq> [] \<Longrightarrow> be_val t = byte_ord (hd t) * 256 ^ (length t - 1) + be_val (tl t)"
  by (cases t) (simp_all add: be_val_Cons byte_ord_def)

text \<open>A byte string of length \<open>L\<close> holds the integers of \<open>8 L\<close> bits, in two's complement.\<close>

lemma sval_range:
  assumes "s \<noteq> []"
  shows "- (128 * 256 ^ (length s - 1)) \<le> sval s" and "sval s < 128 * 256 ^ (length s - 1)"
proof -
  let ?p = "256 ^ (length s - 1) :: int"
  let ?h = "byte_ord (hd s)"
  have p: "256 ^ length s = 256 * ?p" using assms by (cases s) simp_all
  have tl: "0 \<le> be_val (tl s)" "be_val (tl s) < ?p"
    using be_val_less [of "tl s"] by simp_all
  have "?h + 1 \<le> 256" using byte_ord_bounds(2) [of "hd s"] by linarith
  then have a: "(?h + 1) * ?p \<le> 256 * ?p" by (intro mult_right_mono) simp_all
  have b: "(?h + 1) * ?p = ?h * ?p + ?p" by (simp add: distrib_right)
  have c: "sval s = ?h * ?p + be_val (tl s) - (if 128 \<le> ?h then 256 * ?p else 0)"
    using assms by (simp add: sval_def p hd_be_val [OF assms])
  have "- (128 * ?p) \<le> sval s \<and> sval s < 128 * ?p"
  proof (cases "128 \<le> ?h")
    case True
    then have "128 * ?p \<le> ?h * ?p" by (intro mult_right_mono) simp_all
    moreover have "sval s = ?h * ?p + be_val (tl s) - 256 * ?p" using c True by simp
    ultimately show ?thesis using a b tl by linarith
  next
    case False
    then have "(?h + 1) * ?p \<le> 128 * ?p" by (intro mult_right_mono) simp_all
    moreover have "0 \<le> ?h * ?p" by simp
    moreover have "sval s = ?h * ?p + be_val (tl s)" using c False by simp
    moreover have "0 < ?p" by simp
    ultimately show ?thesis using b tl by linarith
  qed
  then show "- (128 * ?p) \<le> sval s" and "sval s < 128 * ?p" by simp_all
qed

lemma sval_needs_length:
  assumes nc: "n = 0 \<and> c = 0 \<or> n = -1 \<and> c = (0xFF :: byte)" and "t \<noteq> []" and "hd t \<noteq> c"
    and v: "v = n * 256 ^ length t + be_val t"
  shows "n = 0 \<Longrightarrow> 256 ^ (length t - 1) \<le> v" and "n = -1 \<Longrightarrow> v < - (256 ^ (length t - 1))"
proof -
  let ?p = "256 ^ (length t - 1) :: int"
  let ?h = "byte_ord (hd t)"
  have p: "256 ^ length t = 256 * ?p" using assms(2) by (cases t) simp_all
  have tl: "0 \<le> be_val (tl t)" "be_val (tl t) < ?p"
    using be_val_less [of "tl t"] by simp_all
  have h: "?h \<noteq> byte_ord c" using assms(3) by (auto simp: byte_ord_def word_uint_eq_iff)
  show "?p \<le> v" if "n = 0"
  proof -
    have "byte_ord c = 0" using that nc by (auto simp: byte_ord_def)
    with h byte_ord_bounds(1) [of "hd t"] have "1 \<le> ?h" by linarith
    then have "1 * ?p \<le> ?h * ?p" by (intro mult_right_mono) simp_all
    moreover have "v = ?h * ?p + be_val (tl t)" using that by (simp add: v hd_be_val [OF assms(2)])
    ultimately show ?thesis using tl by linarith
  qed
  show "v < - ?p" if "n = -1"
  proof -
    have "byte_ord c = 255" using that nc by (auto simp: byte_ord_def)
    with h byte_ord_bounds(2) [of "hd t"] have "?h + 1 \<le> 255" by linarith
    then have "(?h + 1) * ?p \<le> 255 * ?p" by (intro mult_right_mono) simp_all
    moreover have "v = ?h * ?p + be_val (tl t) - 256 * ?p"
      using that by (simp add: v hd_be_val [OF assms(2)] p)
    moreover have "(?h + 1) * ?p = ?h * ?p + ?p" by (simp add: distrib_right)
    ultimately show ?thesis using tl by linarith
  qed
qed

text \<open>\<open>deflate_long\<close> followed by \<open>inflate_long\<close> is the identity on every Python
  integer, and the encoding is the shortest: no non-empty byte string that reads as the same
  integer is shorter.\<close>

theorem deflate_inflate_shortest:
  "inflate_long (deflate_long n True) False = n \<and>
   (\<forall>s. s \<noteq> [] \<and> inflate_long s False = n \<longrightarrow> length (deflate_long n True) \<le> length s)"
proof (intro conjI allI impI)
  show "inflate_long (deflate_long n True) False = n"
    by (simp add: inflate_long_value sval_deflate_long)
next
  fix s
  assume "s \<noteq> [] \<and> inflate_long s False = n"
  then have s: "s \<noteq> []" "sval s = n" by (simp_all add: inflate_long_value)
  let ?q = "256 ^ (length s - 1) :: int"
  have range: "- (128 * ?q) \<le> n" "n < 128 * ?q"
    using sval_range [OF s(1)] s(2) by simp_all
  have mono: "(256::int) ^ (length s) \<le> 256 ^ k" if "length s \<le> k" for k
    using that by (intro power_increasing) simp_all
  have q: "256 ^ length s = 256 * ?q" using s(1) by (cases s) simp_all
  show "length (deflate_long n True) \<le> length s"
  proof (rule deflate_long_shape [of n True])
    fix k c t
    assume nc: "k = 0 \<and> c = 0 \<or> k = -1 \<and> c = (0xFF :: byte)" and t: "t \<noteq> []"
      and v: "k * 256 ^ length t + be_val t = n" and hd: "hd t \<noteq> c \<or> t = [c]"
      and res: "deflate_long n True = (if True \<and> (k = 0 \<longleftrightarrow> 0x80 \<le> byte_ord (hd t)) then c # t else t)"
    show ?thesis
    proof (rule ccontr)
      assume longer: "\<not> ?thesis"
      have ne: "hd t \<noteq> c"
      proof
        assume "hd t = c"
        with hd have "t = [c]" by simp
        then have "length (deflate_long n True) = 1" using nc res by (auto simp: byte_ord_def)
        with longer s(1) show False by (cases s) simp_all
      qed
      have pos: "0 < ?q" by simp
      show False
      proof (cases "k = 0 \<longleftrightarrow> 0x80 \<le> byte_ord (hd t)")
        case True
        then have len: "length s \<le> length t" using longer res by simp
        have "128 * ?q \<le> 128 * 256 ^ (length t - 1)" using len by simp
        moreover have "128 * 256 ^ (length t - 1) \<le> n" if "k = 0"
        proof -
          have "0x80 * 256 ^ (length t - 1) \<le> byte_ord (hd t) * 256 ^ (length t - 1)"
            using True that by (intro mult_right_mono) auto
          moreover have "n = byte_ord (hd t) * 256 ^ (length t - 1) + be_val (tl t)"
            using v that hd_be_val [OF t] by simp
          ultimately show ?thesis using be_val_nonneg [of "tl t"] by linarith
        qed
        moreover have "n < - (128 * 256 ^ (length t - 1))" if "k = -1"
        proof -
          have "(byte_ord (hd t) + 1) * 256 ^ (length t - 1) \<le> 0x80 * 256 ^ (length t - 1)"
            using True that by (intro mult_right_mono) auto
          moreover have "be_val (tl t) < 256 ^ (length t - 1)" using be_val_less [of "tl t"] by simp
          moreover have "(256::int) ^ length t = 256 * 256 ^ (length t - 1)" using t by (cases t) simp_all
          moreover from this have "n = byte_ord (hd t) * 256 ^ (length t - 1) + be_val (tl t) - 256 * 256 ^ (length t - 1)"
            using v that hd_be_val [OF t] by simp
          moreover have "(byte_ord (hd t) + 1) * 256 ^ (length t - 1) =
              byte_ord (hd t) * 256 ^ (length t - 1) + 256 ^ (length t - 1)" by (simp add: distrib_right)
          ultimately show ?thesis by linarith
        qed
        ultimately show False using range nc by (elim disjE conjE) linarith+
      next
        case False
        then have "length s < length t" using longer res by simp
        then have "256 * ?q \<le> 256 ^ (length t - 1)"
          using mono [of "length t - 1"] q by simp
        then show False
          using sval_needs_length [OF nc t ne v [symmetric]] nc range pos by auto
      qed
    qed
  qed
qed

theorem deflate_inflate_shortest_witness:
  "length (deflate_long 200 True) \<le> length [0, 0, 200 :: byte]"
proof -
  have "inflate_long [0, 0, 200] False = 200" by code_simp
  then show ?thesis using deflate_inflate_shortest [of 200] by blast
qed

text \<open>\<open>mod_inverse(x, m)\<close> is an inverse of \<open>x\<close> modulo \<open>m\<close> whenever one exists.\<close>

theorem mod_inverse_correct:
  assumes "0 \<le> x" and "1 < m" and "coprime x m"
  shows "(mod_inverse x m * x) mod m = 1"
proof -
  let ?u = "mod_inverse_loop (1, 0, m) (0, 1, x)"
  from mod_inverse_loop_bezout [of 1 m 0 x m 0 1 x] assms
  obtain k where "?u * x + k * m = gcd m x" by auto
  then have "?u * x + k * m = 1" using assms(3) by (simp add: gcd.commute coprime_iff_gcd_eq_1)
  then have "?u * x = 1 + (- k) * m" by simp
  moreover have "(1 + (- k) * m) mod m = 1" using assms(2) by (simp only: mod_mult_self1) simp
  ultimately have "(?u * x) mod m = 1" by (simp only:)
  then show ?thesis
    using assms(2) by (simp add: mod_inverse_def Let_def distrib_right)
qed

theorem mod_inverse_correct_witness: "(mod_inverse 7 40 * 7) mod 40 = 1"
proof (rule mod_inverse_correct)
  show "coprime (7::int) 40" by code_simp
qed simp_all

lemma constant_time_eq: "constant_time_bytes_eq a b \<longleftrightarrow> a = b"
proof (cases "length a = length b")
  case True
  then have "constant_time_bytes_eq a b \<longleftrightarrow> (\<forall>i < length a. a ! i = b ! i)"
    by (auto simp: constant_time_bytes_eq_def or_xor_fold_zero)
  with True show ?thesis by (metis nth_equalityI)
qed (auto simp: constant_time_bytes_eq_def)

text \<open>The accumulating comparison agrees with equality, so a MAC is accepted exactly
  when it is the computed one.\<close>

theorem constant_time_bytes_eq_iff: "constant_time_bytes_eq a b \<longleftrightarrow> a = b"
  by (rule constant_time_eq)

text \<open>Key stretching returns exactly the number of bytes asked for, as long as the
  digest is never empty.\<close>

theorem generate_key_bytes_length:
  assumes "\<And>x. 0 < length (hash_alg x)" and "0 \<le> n"
  shows "\<exists>r. generate_key_bytes hash_alg salt key n = Some r \<and> length r = nat n"
proof -
  have "\<exists>r. key_bytes_loop hash_alg s key [] [] n = Some r \<and> length r = length ([]::bytes) + nat n" for s
    by (rule key_bytes_loop_length) (rule assms(1))
  then show ?thesis by (simp add: generate_key_bytes_def)
qed

theorem generate_key_bytes_length_witness:
  "\<exists>r. generate_key_bytes (\<lambda>x. [of_nat (length x), 7, 9]) [1, 2] [3] 8 = Some r \<and> length r = nat 8"
  by (rule generate_key_bytes_length [of "\<lambda>x. [of_nat (length x), 7, 9]" 8]) simp_all

end
