(* ===== verification/SSH_Message.thy ===== *)
theory SSH_Message
  imports Common_Util
begin

text \<open>
  \<open>paramiko/message.py\<close>: an SSH message is a byte stream (a \<open>BytesIO\<close>) with a read
  and write position. The \<open>add_*\<close> methods write typed fields at the position, the
  \<open>get_*\<close> methods parse them; short reads are padded with zero bytes. The locale
  \<open>wire_field\<close> is the contract one pair of methods keeps, and the sequence lemmas proved
  in it serve every message of the protocol.
\<close>

section \<open>The stream\<close>

record message =
  packet :: bytes
  offset :: nat

definition new_message :: message where
  "new_message = \<lparr>packet = [], offset = 0\<rparr>"

definition message_of :: "bytes \<Rightarrow> message" where
  "message_of content = \<lparr>packet = content, offset = 0\<rparr>"

text \<open>\<open>BytesIO.write\<close> overwrites from the position on, \<open>BytesIO.read\<close> reads at most \<open>n\<close>.\<close>

definition bio_write :: "message \<Rightarrow> bytes \<Rightarrow> message" where
  "bio_write m b =
     (let p = packet m; o' = offset m
      in \<lparr>packet = take o' p @ replicate (o' - length p) 0 @ b @ drop (o' + length b) p,
          offset = o' + length b\<rparr>)"

definition bio_read :: "message \<Rightarrow> int \<Rightarrow> bytes \<times> message" where
  "bio_read m n =
     (let avail = drop (offset m) (packet m);
          b = (if n < 0 then avail else take (nat n) avail)
      in (b, m\<lparr>offset := offset m + length b\<rparr>))"

definition msg_asbytes :: "message \<Rightarrow> bytes" where
  "msg_asbytes m = packet m"

definition rewind :: "message \<Rightarrow> message" where
  "rewind m = m\<lparr>offset := 0\<rparr>"

definition get_remainder :: "message \<Rightarrow> bytes \<times> message" where
  "get_remainder m =
     (let position = offset m; (remainder, m') = bio_read m (-1)
      in (remainder, m'\<lparr>offset := position\<rparr>))"

definition get_so_far :: "message \<Rightarrow> bytes \<times> message" where
  "get_so_far m = bio_read (rewind m) (int (offset m))"

section \<open>Parsing\<close>

definition max_pad_size :: int where
  "max_pad_size = push_bit 20 1"

definition get_bytes :: "message \<Rightarrow> int \<Rightarrow> bytes \<times> message" where
  "get_bytes m n =
     (let (b, m') = bio_read m n
      in (if int (length b) < n \<and> n < max_pad_size
          then (b @ replicate (nat n - length b) 0, m') else (b, m')))"

definition get_byte :: "message \<Rightarrow> bytes \<times> message" where
  "get_byte m = get_bytes m 1"

definition get_boolean :: "message \<Rightarrow> bool \<times> message" where
  "get_boolean m = (let (b, m') = get_bytes m 1 in (b \<noteq> zero_byte, m'))"

text \<open>
  \<open>struct.unpack\<close> is applied to the four (eight) bytes \<open>get_bytes\<close> has padded, so it
  cannot fail (\<open>get_int_unpacks\<close>).
\<close>

definition get_int :: "message \<Rightarrow> int \<times> message" where
  "get_int m = (let (b, m') = get_bytes m 4 in (be_val b, m'))"

definition get_int64 :: "message \<Rightarrow> int \<times> message" where
  "get_int64 m = (let (b, m') = get_bytes m 8 in (be_val b, m'))"

definition get_string :: "message \<Rightarrow> bytes \<times> message" where
  "get_string m = (let (n, m') = get_int m in get_bytes m' n)"

definition get_binary :: "message \<Rightarrow> bytes \<times> message" where
  "get_binary m = (let (n, m') = get_int m in get_bytes m' n)"

definition get_mpint :: "message \<Rightarrow> int \<times> message" where
  "get_mpint m = (let (b, m') = get_binary m in (inflate_long b False, m'))"

definition get_adaptive_int :: "message \<Rightarrow> int \<times> message" where
  "get_adaptive_int m =
     (let (byte, m1) = get_bytes m 1
      in if byte = max_byte
         then (let (b, m2) = get_binary m1 in (inflate_long b False, m2))
         else (let (r, m2) = get_bytes m1 3 in (be_val (byte @ r), m2)))"

definition get_text :: "message \<Rightarrow> (pystr \<times> message) res" where
  "get_text m = (let (b, m') = get_string m in bind_res (u_cast (PBytes b)) (\<lambda>s. Inr (s, m')))"

fun split_on :: "'a \<Rightarrow> 'a list \<Rightarrow> 'a list list" where
  "split_on sep [] = [[]]"
| "split_on sep (x # xs) =
     (if x = sep then [] # split_on sep xs
      else (case split_on sep xs of [] \<Rightarrow> [[x]] | y # ys \<Rightarrow> (x # y) # ys))"

definition comma :: nat where "comma = 44"

definition get_list :: "message \<Rightarrow> (pystr list \<times> message) res" where
  "get_list m = bind_res (get_text m) (\<lambda>(s, m'). Inr (split_on comma s, m'))"

section \<open>Composing\<close>

definition big_int :: int where
  "big_int = 0xFF000000"

definition add_bytes :: "message \<Rightarrow> bytes \<Rightarrow> message" where
  "add_bytes m b = bio_write m b"

definition add_byte :: "message \<Rightarrow> bytes \<Rightarrow> message" where
  "add_byte m b = bio_write m b"

definition add_boolean :: "message \<Rightarrow> bool \<Rightarrow> message" where
  "add_boolean m b = (if b then bio_write m one_byte else bio_write m zero_byte)"

definition add_int :: "message \<Rightarrow> int \<Rightarrow> message res" where
  "add_int m n = bind_res (pack_I n) (\<lambda>b. Inr (bio_write m b))"

definition add_int64 :: "message \<Rightarrow> int \<Rightarrow> message res" where
  "add_int64 m n = bind_res (pack_Q n) (\<lambda>b. Inr (bio_write m b))"

definition add_string :: "message \<Rightarrow> py_obj \<Rightarrow> message res" where
  "add_string m s =
     bind_res (asbytes s) (\<lambda>b.
     bind_res (add_int m (int (length b))) (\<lambda>m'. Inr (bio_write m' b)))"

definition add_mpint :: "message \<Rightarrow> int \<Rightarrow> message res" where
  "add_mpint m z = add_string m (PBytes (deflate_long z True))"

definition add_adaptive_int :: "message \<Rightarrow> int \<Rightarrow> message res" where
  "add_adaptive_int m n =
     (if big_int \<le> n
      then add_string (bio_write m max_byte) (PBytes (deflate_long n True))
      else bind_res (pack_I n) (\<lambda>b. Inr (bio_write m b)))"

definition add_list :: "message \<Rightarrow> pystr list \<Rightarrow> message res" where
  "add_list m l = add_string m (PStr (join [comma] l))"

text \<open>\<open>Message.add\<close> dispatches on the run-time type of each item.\<close>

datatype add_arg = ArgBool bool | ArgInt int | ArgList "pystr list" | ArgOther py_obj

fun add_one :: "message \<Rightarrow> add_arg \<Rightarrow> message res" where
  "add_one m (ArgBool b) = Inr (add_boolean m b)"
| "add_one m (ArgInt n) = add_adaptive_int m n"
| "add_one m (ArgList l) = add_list m l"
| "add_one m (ArgOther s) = add_string m s"

fun add_seq :: "(message \<Rightarrow> 'a \<Rightarrow> message res) \<Rightarrow> message \<Rightarrow> 'a list \<Rightarrow> message res" where
  "add_seq f m [] = Inr m"
| "add_seq f m (x # xs) = bind_res (f m x) (\<lambda>m'. add_seq f m' xs)"

definition add_args :: "message \<Rightarrow> add_arg list \<Rightarrow> message res" where
  "add_args m items = add_seq add_one m items"

text \<open>Reading \<open>n\<close> fields in a row, as the message handlers do in their counted loops.\<close>

fun get_seq :: "(message \<Rightarrow> ('a \<times> message) res) \<Rightarrow> nat \<Rightarrow> message \<Rightarrow> ('a list \<times> message) res" where
  "get_seq f 0 m = Inr ([], m)"
| "get_seq f (Suc n) m =
     bind_res (f m) (\<lambda>(x, m'). bind_res (get_seq f n m') (\<lambda>(xs, m''). Inr (x # xs, m'')))"

section \<open>Stream lemmas\<close>

definition msg_at :: "bytes \<Rightarrow> bytes \<Rightarrow> message" where
  "msg_at done todo = \<lparr>packet = done @ todo, offset = length done\<rparr>"

definition at_end :: "message \<Rightarrow> bool" where
  "at_end m \<longleftrightarrow> offset m = length (packet m)"

lemma at_end_new [simp]: "at_end new_message"
  by (simp add: at_end_def new_message_def)

lemma bio_write_at_end:
  "at_end m \<Longrightarrow> bio_write m b = \<lparr>packet = packet m @ b, offset = length (packet m) + length b\<rparr>"
  by (simp add: at_end_def bio_write_def Let_def)

lemma at_end_bio_write [simp]: "at_end m \<Longrightarrow> at_end (bio_write m b)"
  by (simp add: bio_write_at_end) (simp add: at_end_def)

lemma packet_bio_write [simp]: "at_end m \<Longrightarrow> packet (bio_write m b) = packet m @ b"
  by (simp add: bio_write_at_end)

lemma bio_write_append: "at_end m \<Longrightarrow> bio_write (bio_write m a) b = bio_write m (a @ b)"
  using at_end_bio_write [of m a] by (simp add: bio_write_at_end)

lemma message_of_msg_at: "message_of c = msg_at [] c"
  by (simp add: message_of_def msg_at_def)

lemma get_bytes_msg_at [simp]:
  "n = int (length b) \<Longrightarrow> get_bytes (msg_at p (b @ r)) n = (b, msg_at (p @ b) r)"
  by (simp add: get_bytes_def bio_read_def msg_at_def Let_def)

lemma get_int_msg_at [simp]:
  "length b = 4 \<Longrightarrow> get_int (msg_at p (b @ r)) = (be_val b, msg_at (p @ b) r)"
  by (simp add: get_int_def)

lemma get_bytes_length:
  "0 \<le> n \<Longrightarrow> n < max_pad_size \<Longrightarrow> length (fst (get_bytes m n)) = nat n"
  by (auto simp: get_bytes_def bio_read_def Let_def)

lemma get_int_unpacks: "unpack_I (fst (get_bytes m 4)) = Inr (fst (get_int m))"
proof -
  have "length (fst (get_bytes m 4)) = 4"
    using get_bytes_length [of 4 m] by (simp add: max_pad_size_def)
  then show ?thesis by (simp add: unpack_I_def get_int_def split_beta)
qed

lemma get_int64_unpacks: "unpack_Q (fst (get_bytes m 8)) = Inr (fst (get_int64 m))"
proof -
  have "length (fst (get_bytes m 8)) = 8"
    using get_bytes_length [of 8 m] by (simp add: max_pad_size_def)
  then show ?thesis by (simp add: unpack_Q_def get_int64_def split_beta)
qed

lemma get_int_range: "0 \<le> fst (get_int m) \<and> fst (get_int m) < 2 ^ 32"
proof -
  have "length (fst (get_bytes m 4)) = 4"
    using get_bytes_length [of 4 m] by (simp add: max_pad_size_def)
  then show ?thesis
    using be_val_less [of "fst (get_bytes m 4)"] by (simp add: get_int_def split_beta)
qed

section \<open>Splitting and joining\<close>

lemma split_on_nonempty [simp]: "split_on sep xs \<noteq> []"
  by (induction xs) (auto split: list.splits)

lemma split_on_clean: "sep \<notin> set x \<Longrightarrow> split_on sep x = [x]"
  by (induction x) auto

lemma split_on_append_sep:
  "sep \<notin> set x \<Longrightarrow> split_on sep (x @ sep # ys) = x # split_on sep ys"
  by (induction x) auto

lemma split_on_join:
  "xs \<noteq> [] \<Longrightarrow> (\<forall>x\<in>set xs. sep \<notin> set x) \<Longrightarrow> split_on sep (join [sep] xs) = xs"
  by (induction "[sep]" xs rule: join.induct) (auto simp: split_on_clean split_on_append_sep)

lemma join_Cons: "ys \<noteq> [] \<Longrightarrow> join sep (x # ys) = x @ sep @ join sep ys"
  by (cases ys) auto

lemma join_split_on: "join [sep] (split_on sep t) = t"
proof (induction t)
  case Nil
  show ?case by simp
next
  case (Cons x t)
  obtain y ys where t: "split_on sep t = y # ys"
    using split_on_nonempty [of sep t] by (meson list.exhaust)
  show ?case
  proof (cases "x = sep")
    case True
    then show ?thesis using Cons.IH by (simp add: join_Cons)
  next
    case False
    have "join [sep] ((x # y) # ys) = x # join [sep] (y # ys)"
      by (cases ys) simp_all
    with False Cons.IH t show ?thesis by simp
  qed
qed

section \<open>The contract of one wire field\<close>

locale wire_field =
  fixes add :: "message \<Rightarrow> 'a \<Rightarrow> message res"
    and get :: "message \<Rightarrow> ('a \<times> message) res"
    and enc :: "'a \<Rightarrow> bytes res"
  assumes add_enc: "at_end m \<Longrightarrow> add m x = bind_res (enc x) (\<lambda>b. Inr (bio_write m b))"
    and get_enc: "enc x = Inr b \<Longrightarrow> get (msg_at p (b @ r)) = Inr (x, msg_at (p @ b) r)"
begin

lemma enc_inj: "enc x = Inr b \<Longrightarrow> enc y = Inr b \<Longrightarrow> x = y"
  using get_enc [of x b "[]" "[]"] get_enc [of y b "[]" "[]"] by simp

lemma enc_prefix_free:
  assumes "enc x = Inr b" and "enc y = Inr c" and "b @ r = c @ s"
  shows "x = y \<and> r = s"
proof -
  have "get (msg_at [] (b @ r)) = Inr (x, msg_at b r)"
    using get_enc [OF assms(1), of "[]" r] by simp
  moreover have "get (msg_at [] (b @ r)) = Inr (y, msg_at c s)"
    unfolding assms(3) using get_enc [OF assms(2), of "[]" s] by simp
  ultimately have "x = y" and "msg_at b r = msg_at c s" by simp_all
  moreover from this have "length b = length c" by (simp add: msg_at_def)
  ultimately show ?thesis using assms(3) append_eq_append_conv [of b c r s] by blast
qed

lemma add_at_end: "at_end m \<Longrightarrow> add m x = Inr m' \<Longrightarrow> at_end m'"
  by (auto simp: add_enc bind_res_eq_Inr)

lemma seq_enc:
  "at_end m \<Longrightarrow> add_seq add m xs =
     bind_res (map_res enc xs) (\<lambda>bs. Inr (bio_write m (concat bs)))"
proof (induction xs arbitrary: m)
  case Nil
  then show ?case by (simp add: bio_write_at_end) (simp add: at_end_def)
next
  case (Cons x xs)
  then show ?case
    by (cases "enc x"; cases "map_res enc xs") (simp_all add: add_enc bio_write_append)
qed

lemma get_seq_enc:
  "map_res enc xs = Inr bs \<Longrightarrow>
     get_seq get (length xs) (msg_at p (concat bs @ r)) = Inr (xs, msg_at (p @ concat bs) r)"
  by (induction xs arbitrary: bs p) (auto simp: bind_res_eq_Inr get_enc)

lemma seq_roundtrip:
  assumes "add_seq add new_message xs = Inr m"
  shows "get_seq get (length xs) (message_of (msg_asbytes m)) =
    Inr (xs, msg_at (msg_asbytes m) [])"
proof -
  from assms obtain bs where bs: "map_res enc xs = Inr bs" and m: "m = bio_write new_message (concat bs)"
    by (auto simp: seq_enc bind_res_eq_Inr)
  have "msg_asbytes m = concat bs" unfolding m
    by (simp add: msg_asbytes_def bio_write_at_end) (simp add: new_message_def)
  then show ?thesis
    using get_seq_enc [OF bs, of "[]" "[]"] by (simp add: message_of_msg_at)
qed

end

section \<open>The field types of the protocol\<close>

definition enc_boolean :: "bool \<Rightarrow> bytes" where
  "enc_boolean b = (if b then one_byte else zero_byte)"

definition enc_string :: "bytes \<Rightarrow> bytes res" where
  "enc_string s = bind_res (pack_I (int (length s))) (\<lambda>b. Inr (b @ s))"

definition enc_text :: "pystr \<Rightarrow> bytes res" where
  "enc_text s = bind_res (utf8_encode s) enc_string"

definition enc_mpint :: "int \<Rightarrow> bytes res" where
  "enc_mpint z = enc_string (deflate_long z True)"

definition enc_adaptive :: "int \<Rightarrow> bytes res" where
  "enc_adaptive n = (if big_int \<le> n then bind_res (enc_mpint n) (\<lambda>b. Inr (max_byte @ b)) else pack_I n)"

text \<open>Name lists are the ones that survive the wire: non-empty, no comma inside a name.\<close>

definition wire_list :: "pystr list \<Rightarrow> bool" where
  "wire_list l \<longleftrightarrow> l \<noteq> [] \<and> (\<forall>x\<in>set l. comma \<notin> set x)"

lemma pack_I_length: "pack_I n = Inr b \<Longrightarrow> length b = 4"
  by (auto simp: pack_I_def split: if_splits)

lemma pack_I_val: "pack_I n = Inr b \<Longrightarrow> be_val b = n"
  by (auto simp: pack_I_def be_val_be_bytes split: if_splits)

lemma pack_Q_length: "pack_Q n = Inr b \<Longrightarrow> length b = 8"
  by (auto simp: pack_Q_def split: if_splits)

lemma pack_Q_val: "pack_Q n = Inr b \<Longrightarrow> be_val b = n"
  by (auto simp: pack_Q_def be_val_be_bytes split: if_splits)

lemma get_binary_enc:
  assumes "enc_string s = Inr b"
  shows "get_binary (msg_at p (b @ r)) = (s, msg_at (p @ b) r)"
proof -
  from assms obtain l where l: "pack_I (int (length s)) = Inr l" and b: "b = l @ s"
    by (auto simp: enc_string_def bind_res_eq_Inr)
  have "get_int (msg_at p (l @ (s @ r))) = (int (length s), msg_at (p @ l) (s @ r))"
    using get_int_msg_at [OF pack_I_length [OF l], of p "s @ r"] pack_I_val [OF l] by simp
  then show ?thesis using b by (simp add: get_binary_def)
qed

lemma get_string_binary: "get_string m = get_binary m"
  by (simp add: get_string_def get_binary_def)

lemma add_string_enc:
  "at_end m \<Longrightarrow> asbytes s = Inr b \<Longrightarrow>
     add_string m s = bind_res (enc_string b) (\<lambda>w. Inr (bio_write m w))"
  by (auto simp: add_string_def add_int_def enc_string_def bio_write_append bind_res_assoc)

interpretation wf_byte: wire_field
  "\<lambda>m (b::byte). Inr (add_byte m [b])"
  "\<lambda>m. let (b, m') = get_byte m in Inr (hd b, m')" "\<lambda>b. Inr [b]"
proof unfold_locales
  fix x :: byte and b p r
  assume "Inr [x] = (Inr b :: bytes res)"
  then show "(let (b, m') = get_byte (msg_at p (b @ r)) in Inr (hd b, m')) = Inr (x, msg_at (p @ b) r)"
    by (auto simp: get_byte_def simp del: append_Cons)
qed (simp add: add_byte_def)

interpretation wf_bool: wire_field
  "\<lambda>m b. Inr (add_boolean m b)" "\<lambda>m. Inr (get_boolean m)" "\<lambda>b. Inr (enc_boolean b)"
proof unfold_locales
  fix x and b p r
  assume "Inr (enc_boolean x) = (Inr b :: bytes res)"
  then have b: "b = enc_boolean x" "length b = 1" by (auto simp: enc_boolean_def)
  then show "Inr (get_boolean (msg_at p (b @ r))) = Inr (x, msg_at (p @ b) r)"
    by (simp add: get_boolean_def) (simp add: enc_boolean_def)
qed (simp add: add_boolean_def enc_boolean_def)

interpretation wf_int: wire_field add_int "\<lambda>m. Inr (get_int m)" pack_I
  by unfold_locales (auto simp: add_int_def pack_I_length pack_I_val)

interpretation wf_int64: wire_field add_int64 "\<lambda>m. Inr (get_int64 m)" pack_Q
  by unfold_locales (auto simp: add_int64_def get_int64_def pack_Q_length pack_Q_val)

interpretation wf_string: wire_field
  "\<lambda>m s. add_string m (PBytes s)" "\<lambda>m. Inr (get_string m)" enc_string
  by unfold_locales (auto simp: add_string_enc get_string_binary get_binary_enc)

interpretation wf_text: wire_field "\<lambda>m s. add_string m (PStr s)" get_text enc_text
proof unfold_locales
  fix m x
  assume "at_end m"
  then show "add_string m (PStr x) = bind_res (enc_text x) (\<lambda>b. Inr (bio_write m b))"
    by (cases "utf8_encode x") (simp_all add: enc_text_def add_string_enc add_string_def [of _ "PStr x"] add_string_enc [of m "PBytes b" for b, unfolded add_string_def, simplified])
next
  fix x b p r
  assume "enc_text x = Inr b"
  then obtain e where "utf8_encode x = Inr e" "enc_string e = Inr b"
    by (auto simp: enc_text_def bind_res_eq_Inr)
  then show "get_text (msg_at p (b @ r)) = Inr (x, msg_at (p @ b) r)"
    by (simp add: get_text_def get_string_binary get_binary_enc utf8_decode_encode)
qed

interpretation wf_mpint: wire_field add_mpint "\<lambda>m. Inr (get_mpint m)" enc_mpint
  by unfold_locales
    (auto simp: add_mpint_def add_string_enc enc_mpint_def get_mpint_def get_binary_enc
      inflate_long_value sval_deflate_long)

lemma pack_I_hd: "pack_I n = Inr b \<Longrightarrow> n < big_int \<Longrightarrow> [hd b] \<noteq> max_byte"
proof
  assume b: "pack_I n = Inr b" and n: "n < big_int" and hd: "[hd b] = max_byte"
  then obtain t where t: "b = 0xFF # t" "length t = 3"
    using pack_I_length [OF b] by (cases b) auto
  have "be_val b = 255 * 256 ^ 3 + be_val t" using t by (simp add: be_val_Cons)
  then have "be_val b = 0xFF000000 + be_val t" by simp
  with be_val_nonneg [of t] have "big_int \<le> be_val b"
    unfolding big_int_def by linarith
  then show False using pack_I_val [OF b] n by simp
qed

interpretation wf_adaptive: wire_field add_adaptive_int "\<lambda>m. Inr (get_adaptive_int m)" enc_adaptive
proof unfold_locales
  fix m x
  assume "at_end m"
  then show "add_adaptive_int m x = bind_res (enc_adaptive x) (\<lambda>b. Inr (bio_write m b))"
    by (auto simp: add_adaptive_int_def enc_adaptive_def add_string_enc enc_mpint_def
        bio_write_append bind_res_assoc)
next
  fix x b p r
  assume enc: "enc_adaptive x = Inr b"
  show "Inr (get_adaptive_int (msg_at p (b @ r))) = Inr (x, msg_at (p @ b) r)"
  proof (cases "big_int \<le> x")
    case True
    with enc obtain w where w: "enc_string (deflate_long x True) = Inr w" "b = max_byte @ w"
      by (auto simp: enc_adaptive_def enc_mpint_def bind_res_eq_Inr)
    have "get_bytes (msg_at p (max_byte @ (w @ r))) 1 = (max_byte, msg_at (p @ max_byte) (w @ r))"
      by (rule get_bytes_msg_at) simp
    with w get_binary_enc [OF w(1), of "p @ max_byte" r] show ?thesis
      by (simp add: get_adaptive_int_def inflate_long_value sval_deflate_long)
  next
    case False
    with enc have b: "pack_I x = Inr b" by (simp add: enc_adaptive_def)
    then obtain a t where t: "b = [a] @ t" "length t = 3"
      using pack_I_length [OF b] by (cases b) auto
    have "[a] \<noteq> max_byte" using pack_I_hd [OF b] False t by simp
    moreover have "get_bytes (msg_at p ([a] @ (t @ r))) 1 = ([a], msg_at (p @ [a]) (t @ r))"
      by (rule get_bytes_msg_at) simp
    ultimately show ?thesis
      using t pack_I_val [OF b] by (simp add: get_adaptive_int_def)
  qed
qed

section \<open>Whole messages\<close>

text \<open>
  A message is a sequence of typed fields. \<open>add_field\<close> calls the \<open>add_*\<close> method of the
  field's type, \<open>get_field\<close> the matching \<open>get_*\<close> method.
\<close>

datatype field =
    FByte byte | FBool bool | FInt int | FInt64 int | FMpint int | FAdaptive int
  | FString bytes | FText pystr | FList "pystr list"

datatype kind = KByte | KBool | KInt | KInt64 | KMpint | KAdaptive | KString | KText | KList

fun kind_of :: "field \<Rightarrow> kind" where
  "kind_of (FByte _) = KByte" | "kind_of (FBool _) = KBool" | "kind_of (FInt _) = KInt"
| "kind_of (FInt64 _) = KInt64" | "kind_of (FMpint _) = KMpint" | "kind_of (FAdaptive _) = KAdaptive"
| "kind_of (FString _) = KString" | "kind_of (FText _) = KText" | "kind_of (FList _) = KList"

fun field_ok :: "field \<Rightarrow> bool" where
  "field_ok (FList l) = wire_list l"
| "field_ok _ = True"

fun add_field :: "message \<Rightarrow> field \<Rightarrow> message res" where
  "add_field m (FByte b) = Inr (add_byte m [b])"
| "add_field m (FBool b) = Inr (add_boolean m b)"
| "add_field m (FInt n) = add_int m n"
| "add_field m (FInt64 n) = add_int64 m n"
| "add_field m (FMpint n) = add_mpint m n"
| "add_field m (FAdaptive n) = add_adaptive_int m n"
| "add_field m (FString s) = add_string m (PBytes s)"
| "add_field m (FText s) = add_string m (PStr s)"
| "add_field m (FList l) = add_list m l"

fun get_field :: "kind \<Rightarrow> message \<Rightarrow> (field \<times> message) res" where
  "get_field KByte m = (let (b, m') = get_byte m in Inr (FByte (hd b), m'))"
| "get_field KBool m = (let (b, m') = get_boolean m in Inr (FBool b, m'))"
| "get_field KInt m = (let (n, m') = get_int m in Inr (FInt n, m'))"
| "get_field KInt64 m = (let (n, m') = get_int64 m in Inr (FInt64 n, m'))"
| "get_field KMpint m = (let (n, m') = get_mpint m in Inr (FMpint n, m'))"
| "get_field KAdaptive m = (let (n, m') = get_adaptive_int m in Inr (FAdaptive n, m'))"
| "get_field KString m = (let (s, m') = get_string m in Inr (FString s, m'))"
| "get_field KText m = bind_res (get_text m) (\<lambda>(s, m'). Inr (FText s, m'))"
| "get_field KList m = bind_res (get_list m) (\<lambda>(l, m'). Inr (FList l, m'))"

fun get_fields :: "kind list \<Rightarrow> message \<Rightarrow> (field list \<times> message) res" where
  "get_fields [] m = Inr ([], m)"
| "get_fields (k # ks) m =
     bind_res (get_field k m) (\<lambda>(f, m'). bind_res (get_fields ks m') (\<lambda>(fs, m''). Inr (f # fs, m'')))"

fun enc_field :: "field \<Rightarrow> bytes res" where
  "enc_field (FByte b) = Inr [b]"
| "enc_field (FBool b) = Inr (enc_boolean b)"
| "enc_field (FInt n) = pack_I n"
| "enc_field (FInt64 n) = pack_Q n"
| "enc_field (FMpint n) = enc_mpint n"
| "enc_field (FAdaptive n) = enc_adaptive n"
| "enc_field (FString s) = enc_string s"
| "enc_field (FText s) = enc_text s"
| "enc_field (FList l) = enc_text (join [comma] l)"

lemma add_field_enc:
  "at_end m \<Longrightarrow> add_field m f = bind_res (enc_field f) (\<lambda>b. Inr (bio_write m b))"
  using wf_byte.add_enc wf_bool.add_enc wf_int.add_enc wf_int64.add_enc wf_mpint.add_enc
    wf_adaptive.add_enc wf_string.add_enc wf_text.add_enc
  by (cases f) (simp_all add: add_list_def)

lemma get_field_enc:
  assumes "field_ok f" and "enc_field f = Inr b"
  shows "get_field (kind_of f) (msg_at p (b @ r)) = Inr (f, msg_at (p @ b) r)"
proof (cases f)
  case (FByte x)
  then show ?thesis using assms wf_byte.get_enc [of x b p r] by (auto simp: split_beta)
next
  case (FList l)
  then show ?thesis
    using assms wf_text.get_enc [of "join [comma] l" b p r]
    by (simp add: get_list_def wire_list_def split_on_join)
next
  case (FBool x)
  then show ?thesis using assms wf_bool.get_enc [of x b p r] by simp
next
  case (FInt x)
  then show ?thesis using assms wf_int.get_enc [of x b p r] by simp
next
  case (FInt64 x)
  then show ?thesis using assms wf_int64.get_enc [of x b p r] by simp
next
  case (FMpint x)
  then show ?thesis using assms wf_mpint.get_enc [of x b p r] by simp
next
  case (FAdaptive x)
  then show ?thesis using assms wf_adaptive.get_enc [of x b p r] by simp
next
  case (FString x)
  then show ?thesis using assms wf_string.get_enc [of x b p r] by simp
next
  case (FText x)
  then show ?thesis using assms wf_text.get_enc [of x b p r] by simp
qed

lemma get_fields_enc:
  "map_res enc_field fs = Inr bs \<Longrightarrow> (\<forall>f\<in>set fs. field_ok f) \<Longrightarrow>
     get_fields (map kind_of fs) (msg_at p (concat bs @ r)) = Inr (fs, msg_at (p @ concat bs) r)"
  by (induction fs arbitrary: bs p) (auto simp: bind_res_eq_Inr get_field_enc)

lemma add_fields_enc:
  "at_end m \<Longrightarrow> add_seq add_field m fs =
     bind_res (map_res enc_field fs) (\<lambda>bs. Inr (bio_write m (concat bs)))"
proof (induction fs arbitrary: m)
  case Nil
  then show ?case by (simp add: bio_write_at_end) (simp add: at_end_def)
next
  case (Cons f fs)
  then show ?case
    by (cases "enc_field f"; cases "map_res enc_field fs") (simp_all add: add_field_enc bio_write_append)
qed


lemma message_example:
  "add_seq add_field new_message
     [FByte 50, FBool True, FInt 7, FMpint (-129), FString [1, 2], FList [lit ''a'', lit ''b'']] =
   Inr (msg_at [50, 1, 0, 0, 0, 7, 0, 0, 0, 2, 0xFF, 0x7F, 0, 0, 0, 2, 1, 2,
         0, 0, 0, 3, 97, 44, 98] [])"
  by code_simp


text \<open>The parsed part and the remainder are the whole message, at every point of a parse.\<close>

lemma so_far_remainder:
  "offset m \<le> length (packet m) \<Longrightarrow>
     fst (get_so_far m) @ fst (get_remainder m) = packet m \<and>
     snd (get_so_far m) = m \<and> snd (get_remainder m) = m"
  by (auto simp: get_so_far_def get_remainder_def bio_read_def rewind_def Let_def)

lemma get_bytes_offset:
  "offset m \<le> length (packet m) \<Longrightarrow> offset m \<le> offset (snd (get_bytes m n)) \<and>
     offset (snd (get_bytes m n)) \<le> length (packet m) \<and> packet (snd (get_bytes m n)) = packet m"
  by (auto simp: get_bytes_def bio_read_def Let_def)

text \<open>The empty name list does not survive: it is read back as one empty name.\<close>

lemma empty_list_read_back:
  "add_list new_message [] = Inr (msg_at [0, 0, 0, 0] [])"
  "get_list (message_of [0, 0, 0, 0]) = Inr ([[]], msg_at [0, 0, 0, 0] [])"
  by code_simp+

section \<open>Reading a composed message field by field\<close>

text \<open>
  \<open>reads w fs r m\<close>: the message \<open>m\<close> stands before the wire form of the fields \<open>fs\<close>, which is
  followed by \<open>r\<close>; what was read before and the fields together are \<open>w\<close>. The parsers of the
  protocol are run on such messages, one getter at a time.
\<close>

definition reads :: "bytes \<Rightarrow> field list \<Rightarrow> bytes \<Rightarrow> message \<Rightarrow> bool" where
  "reads w fs r m \<longleftrightarrow>
     (\<exists>p bs. map_res enc_field fs = Inr bs \<and> m = msg_at p (concat bs @ r) \<and> p @ concat bs = w)"

lemma reads_field:
  assumes "reads w (f # fs) r m" and "field_ok f"
  shows "\<exists>m'. get_field (kind_of f) m = Inr (f, m') \<and> reads w fs r m'"
proof -
  from assms(1) obtain p b bs where b: "enc_field f = Inr b" "map_res enc_field fs = Inr bs"
    and m: "m = msg_at p ((b @ concat bs) @ r)" "p @ b @ concat bs = w"
    by (auto simp: reads_def bind_res_eq_Inr)
  have "get_field (kind_of f) m = Inr (f, msg_at (p @ b) (concat bs @ r))"
    using get_field_enc [OF assms(2) b(1), of p "concat bs @ r"] m(1) by simp
  moreover have "reads w fs r (msg_at (p @ b) (concat bs @ r))"
    unfolding reads_def using b(2) m(2) by (intro exI [of _ "p @ b"] exI [of _ bs]) simp
  ultimately show ?thesis by blast
qed

lemma reads_int: "reads w (FInt n # fs) r m \<Longrightarrow> \<exists>m'. get_int m = (n, m') \<and> reads w fs r m'"
  using reads_field [of w "FInt n" fs r m] by (auto split: prod.splits)

lemma reads_int64: "reads w (FInt64 n # fs) r m \<Longrightarrow> \<exists>m'. get_int64 m = (n, m') \<and> reads w fs r m'"
  using reads_field [of w "FInt64 n" fs r m] by (auto split: prod.splits)

lemma reads_string: "reads w (FString b # fs) r m \<Longrightarrow> \<exists>m'. get_string m = (b, m') \<and> reads w fs r m'"
  using reads_field [of w "FString b" fs r m] by (auto split: prod.splits)

lemma reads_binary: "reads w (FString b # fs) r m \<Longrightarrow> \<exists>m'. get_binary m = (b, m') \<and> reads w fs r m'"
  using reads_string by (simp add: get_string_binary)

lemma reads_mpint: "reads w (FMpint n # fs) r m \<Longrightarrow> \<exists>m'. get_mpint m = (n, m') \<and> reads w fs r m'"
  using reads_field [of w "FMpint n" fs r m] by (auto split: prod.splits)

lemma reads_bool: "reads w (FBool b # fs) r m \<Longrightarrow> \<exists>m'. get_boolean m = (b, m') \<and> reads w fs r m'"
  using reads_field [of w "FBool b" fs r m] by (auto split: prod.splits)

lemma reads_text: "reads w (FText t # fs) r m \<Longrightarrow> \<exists>m'. get_text m = Inr (t, m') \<and> reads w fs r m'"
  using reads_field [of w "FText t" fs r m] by (auto simp: bind_res_eq_Inr split: prod.splits)

lemma reads_list:
  "reads w (FList l # fs) r m \<Longrightarrow> wire_list l \<Longrightarrow> \<exists>m'. get_list m = Inr (l, m') \<and> reads w fs r m'"
  using reads_field [of w "FList l" fs r m] by (auto simp: bind_res_eq_Inr split: prod.splits)

lemma reads_no_list:
  assumes "reads w (FString [] # fs) r m"
  shows "\<exists>m'. get_list m = Inr ([[]], m') \<and> reads w fs r m'"
proof -
  from reads_string [OF assms] obtain m' where "get_string m = ([], m')" "reads w fs r m'" by blast
  then show ?thesis by (simp add: get_list_def get_text_def)
qed

lemma map_res_bytes: "map_res enc_field (map FByte bs @ fs) = Inr es \<longleftrightarrow>
    (\<exists>cs. map_res enc_field fs = Inr cs \<and> es = map (\<lambda>b. [b]) bs @ cs)"
  by (induction bs arbitrary: es) (auto simp: bind_res_eq_Inr)

lemma reads_bytes:
  assumes "reads w (map FByte bs @ fs) r m" and "n = int (length bs)"
  shows "\<exists>m'. get_bytes m n = (bs, m') \<and> reads w fs r m'"
proof -
  from assms(1) obtain p cs where cs: "map_res enc_field fs = Inr cs" "m = msg_at p (bs @ (concat cs @ r))"
    "p @ bs @ concat cs = w"
    by (auto simp: reads_def map_res_bytes)
  then show ?thesis
    using get_bytes_msg_at [OF assms(2), of p "concat cs @ r"]
    by (auto simp: reads_def intro!: exI [of _ "p @ bs"])
qed

lemma reads_end: "reads w [] r m \<Longrightarrow> m = msg_at w r"
  by (auto simp: reads_def)

lemma get_so_far_msg_at [simp]: "get_so_far (msg_at w r) = (w, msg_at w r)"
  by (simp add: get_so_far_def rewind_def bio_read_def msg_at_def Let_def)

lemma composed_bytes:
  assumes "add_seq add_field new_message fs = Inr m"
  shows "\<exists>bs. map_res enc_field fs = Inr bs \<and> msg_asbytes m = concat bs"
proof -
  from assms obtain bs where bs: "map_res enc_field fs = Inr bs" and m: "m = bio_write new_message (concat bs)"
    by (auto simp: add_fields_enc bind_res_eq_Inr)
  have "msg_asbytes m = concat bs" unfolding m
    by (simp add: msg_asbytes_def bio_write_at_end) (simp add: new_message_def)
  with bs show ?thesis by blast
qed

text \<open>A whole message, and a message whose type byte has been taken off.\<close>

lemma reads_composed:
  "add_seq add_field new_message fs = Inr m \<Longrightarrow> reads (msg_asbytes m) fs r (message_of (msg_asbytes m @ r))"
  using composed_bytes [of fs m] by (auto simp: reads_def message_of_msg_at)

lemma reads_body:
  assumes "add_seq add_field new_message (FByte b # fs) = Inr m"
  shows "\<exists>w. msg_asbytes m = b # w \<and> reads w fs r (message_of (w @ r))"
  using composed_bytes [OF assms] by (auto simp: bind_res_eq_Inr reads_def message_of_msg_at)

end
