(* ===== verification/Packet_Layer.thy ===== *)
theory Packet_Layer
  imports SSH_Message
begin

text \<open>
  \<open>paramiko/packet.py\<close>: the \<open>Packetizer\<close> frames, pads, encrypts and authenticates
  messages on a socket, counts bytes and packets for re-keying, and runs the keepalive and
  handshake timers. The socket is the list of outcomes of its future calls, so a theorem
  about every list holds for every behaviour of the network. The cipher, MAC, compression
  and random-byte functions come from other packages: they are the fields of \<open>crypto\<close>,
  an argument of the methods that use them.
\<close>

section \<open>State\<close>

text \<open>
  Outcomes of \<open>recv\<close> (with the time read after a timeout), and what other threads may do
  between two of them: the handshake timer fires, another thread closes the packetizer or
  asks for new keys.
\<close>

datatype recv_ev =
    Recv bytes
  | RecvTimeout int
  | RecvEAGAIN int
  | RecvError
  | TimerFired
  | ClosedByOther
  | RekeyByOther

datatype send_ev = Sent nat | SendTimeout | SendEAGAIN | SendError | SendProxyFailure

record ('e, 'm, 'z) crypto =
  cr_update :: "'e \<Rightarrow> bytes \<Rightarrow> bytes \<times> 'e"
  cr_encrypt :: "'e \<Rightarrow> bytes \<Rightarrow> bytes \<Rightarrow> bytes \<Rightarrow> bytes"
  cr_decrypt :: "'e \<Rightarrow> bytes \<Rightarrow> bytes \<Rightarrow> bytes \<Rightarrow> bytes res"
  cr_hmac :: "'m \<Rightarrow> bytes \<Rightarrow> bytes \<Rightarrow> bytes"
  cr_compress :: "'z \<Rightarrow> bytes \<Rightarrow> bytes \<times> 'z"
  cr_decompress :: "'z \<Rightarrow> bytes \<Rightarrow> (bytes \<times> 'z) res"
  cr_urandom :: "nat \<Rightarrow> bytes"

record ('e, 'm, 'z) packetizer =
  rx :: "recv_ev list"
  tx :: "send_ev list"
  wire :: bytes
  sock_closed :: bool
  pk_closed :: bool
  need_rekey :: bool
  init_count :: int
  remainder :: bytes
  initial_kex_done :: bool
  sent_bytes :: int
  sent_packets :: int
  received_bytes :: int
  received_packets :: int
  received_bytes_overflow :: int
  received_packets_overflow :: int
  block_size_out :: int
  block_size_in :: int
  mac_size_out :: int
  mac_size_in :: int
  block_engine_out :: "'e option"
  block_engine_in :: "'e option"
  sdctr_out :: bool
  mac_engine_out :: "'m option"
  mac_engine_in :: "'m option"
  mac_key_out :: bytes
  mac_key_in :: bytes
  compress_engine_out :: "'z option"
  compress_engine_in :: "'z option"
  sequence_number_out :: int
  sequence_number_in :: int
  etm_out :: bool
  etm_in :: bool
  aead_out :: bool
  aead_in :: bool
  iv_out :: bytes
  iv_in :: bytes
  keepalive_interval :: int
  keepalive_last :: int
  keepalives_sent :: nat
  timer_started :: bool
  handshake_complete :: bool
  timer_expired :: bool

definition REKEY_PACKETS :: int where "REKEY_PACKETS = 2 ^ 29"
definition REKEY_BYTES :: int where "REKEY_BYTES = 2 ^ 29"
definition REKEY_PACKETS_OVERFLOW_MAX :: int where "REKEY_PACKETS_OVERFLOW_MAX = 2 ^ 29"
definition REKEY_BYTES_OVERFLOW_MAX :: int where "REKEY_BYTES_OVERFLOW_MAX = 2 ^ 29"

text \<open>\<open>__init__\<close>: \<open>now\<close> is the clock reading, \<open>r\<close> and \<open>t\<close> the socket to come.\<close>

definition new_packetizer :: "int \<Rightarrow> recv_ev list \<Rightarrow> send_ev list \<Rightarrow> ('e, 'm, 'z) packetizer" where
  "new_packetizer now r t =
     \<lparr>rx = r, tx = t, wire = [], sock_closed = False, pk_closed = False, need_rekey = False,
      init_count = 0, remainder = [], initial_kex_done = False, sent_bytes = 0, sent_packets = 0,
      received_bytes = 0, received_packets = 0, received_bytes_overflow = 0,
      received_packets_overflow = 0, block_size_out = 8, block_size_in = 8, mac_size_out = 0,
      mac_size_in = 0, block_engine_out = None, block_engine_in = None, sdctr_out = False,
      mac_engine_out = None, mac_engine_in = None, mac_key_out = [], mac_key_in = [],
      compress_engine_out = None, compress_engine_in = None, sequence_number_out = 0,
      sequence_number_in = 0, etm_out = False, etm_in = False, aead_out = False, aead_in = False,
      iv_out = [], iv_in = [], keepalive_interval = 0, keepalive_last = now, keepalives_sent = 0,
      timer_started = False, handshake_complete = False, timer_expired = False\<rparr>"

section \<open>Setters\<close>

definition reset_seqno_out :: "('e, 'm, 'z) packetizer \<Rightarrow> ('e, 'm, 'z) packetizer" where
  "reset_seqno_out p = p\<lparr>sequence_number_out := 0\<rparr>"

definition reset_seqno_in :: "('e, 'm, 'z) packetizer \<Rightarrow> ('e, 'm, 'z) packetizer" where
  "reset_seqno_in p = p\<lparr>sequence_number_in := 0\<rparr>"

definition clear_rekey_if_both :: "('e, 'm, 'z) packetizer \<Rightarrow> ('e, 'm, 'z) packetizer" where
  "clear_rekey_if_both p =
     (if init_count p = 3 then p\<lparr>init_count := 0, need_rekey := False\<rparr> else p)"

definition set_outbound_cipher ::
  "('e, 'm, 'z) packetizer \<Rightarrow> 'e option \<Rightarrow> int \<Rightarrow> 'm option \<Rightarrow> int \<Rightarrow> bytes \<Rightarrow> bool \<Rightarrow> bool \<Rightarrow>
     bool \<Rightarrow> bytes \<Rightarrow> ('e, 'm, 'z) packetizer" where
  "set_outbound_cipher p block_engine block_size mac_engine mac_size mac_key sdctr etm aead iv =
     (let p = p\<lparr>block_engine_out := block_engine, sdctr_out := sdctr, block_size_out := block_size,
          mac_engine_out := mac_engine, mac_size_out := mac_size, mac_key_out := mac_key,
          sent_bytes := 0, sent_packets := 0, etm_out := etm, aead_out := aead, iv_out := iv,
          init_count := init_count p OR 1\<rparr>
      in clear_rekey_if_both p)"

definition set_inbound_cipher ::
  "('e, 'm, 'z) packetizer \<Rightarrow> 'e option \<Rightarrow> int \<Rightarrow> 'm option \<Rightarrow> int \<Rightarrow> bytes \<Rightarrow> bool \<Rightarrow>
     bool \<Rightarrow> bytes \<Rightarrow> ('e, 'm, 'z) packetizer" where
  "set_inbound_cipher p block_engine block_size mac_engine mac_size mac_key etm aead iv =
     (let p = p\<lparr>block_engine_in := block_engine, block_size_in := block_size,
          mac_engine_in := mac_engine, mac_size_in := mac_size, mac_key_in := mac_key,
          received_bytes := 0, received_packets := 0, received_bytes_overflow := 0,
          received_packets_overflow := 0, etm_in := etm, aead_in := aead, iv_in := iv,
          init_count := init_count p OR 2\<rparr>
      in clear_rekey_if_both p)"

definition set_outbound_compressor :: "('e, 'm, 'z) packetizer \<Rightarrow> 'z option \<Rightarrow> ('e, 'm, 'z) packetizer" where
  "set_outbound_compressor p c = p\<lparr>compress_engine_out := c\<rparr>"

definition set_inbound_compressor :: "('e, 'm, 'z) packetizer \<Rightarrow> 'z option \<Rightarrow> ('e, 'm, 'z) packetizer" where
  "set_inbound_compressor p c = p\<lparr>compress_engine_in := c\<rparr>"

definition pk_close :: "('e, 'm, 'z) packetizer \<Rightarrow> ('e, 'm, 'z) packetizer" where
  "pk_close p = p\<lparr>pk_closed := True, sock_closed := True\<rparr>"

definition set_keepalive :: "('e, 'm, 'z) packetizer \<Rightarrow> int \<Rightarrow> int \<Rightarrow> ('e, 'm, 'z) packetizer" where
  "set_keepalive p interval now = p\<lparr>keepalive_interval := interval, keepalive_last := now\<rparr>"

definition read_timer :: "('e, 'm, 'z) packetizer \<Rightarrow> ('e, 'm, 'z) packetizer" where
  "read_timer p = p\<lparr>timer_expired := True\<rparr>"

definition start_handshake :: "('e, 'm, 'z) packetizer \<Rightarrow> ('e, 'm, 'z) packetizer" where
  "start_handshake p = (if \<not> timer_started p then p\<lparr>timer_started := True\<rparr> else p)"

definition handshake_timed_out :: "('e, 'm, 'z) packetizer \<Rightarrow> bool" where
  "handshake_timed_out p =
     (if \<not> timer_started p then False else if handshake_complete p then False else timer_expired p)"

definition complete_handshake :: "('e, 'm, 'z) packetizer \<Rightarrow> ('e, 'm, 'z) packetizer" where
  "complete_handshake p =
     (if timer_started p then p\<lparr>timer_expired := False, handshake_complete := True\<rparr> else p)"

definition trigger_rekey :: "('e, 'm, 'z) packetizer \<Rightarrow> ('e, 'm, 'z) packetizer" where
  "trigger_rekey p = p\<lparr>need_rekey := True\<rparr>"

text \<open>\<open>keepalives_sent\<close> counts the calls of the keepalive callback.\<close>

definition check_keepalive :: "('e, 'm, 'z) packetizer \<Rightarrow> int \<Rightarrow> ('e, 'm, 'z) packetizer" where
  "check_keepalive p now =
     (if keepalive_interval p = 0 \<or> block_engine_out p = None \<or> need_rekey p then p
      else if keepalive_last p + keepalive_interval p < now
      then p\<lparr>keepalives_sent := Suc (keepalives_sent p), keepalive_last := now\<rparr> else p)"

section \<open>Socket input\<close>

text \<open>
  \<open>recv(n)\<close> delivers at most \<open>n\<close> bytes of the next chunk and keeps the rest for the next
  call; an empty chunk is the end of the stream.
\<close>

fun read_loop ::
  "('e, 'm, 'z) packetizer \<Rightarrow> int \<Rightarrow> bytes \<Rightarrow> bool \<Rightarrow> recv_ev list \<Rightarrow>
     bytes outcome \<times> ('e, 'm, 'z) packetizer" where
  "read_loop p n out check_rekey [] =
     (if 0 < n then (if handshake_timed_out p then Exn EOFError else Blocked, p\<lparr>rx := []\<rparr>)
      else (Ret out, p\<lparr>rx := []\<rparr>))"
| "read_loop p n out check_rekey (e # es) =
     (if 0 < n then
        (case e of
           TimerFired \<Rightarrow> read_loop (read_timer p) n out check_rekey es
         | ClosedByOther \<Rightarrow> read_loop (pk_close p) n out check_rekey es
         | RekeyByOther \<Rightarrow> read_loop (trigger_rekey p) n out check_rekey es
         | _ \<Rightarrow>
           if handshake_timed_out p then (Exn EOFError, p\<lparr>rx := e # es\<rparr>)
           else
             (case e of
                Recv x \<Rightarrow>
                  if length x = 0 then (Exn EOFError, p\<lparr>rx := es\<rparr>)
                  else if int (length x) \<le> n
                  then read_loop p (n - int (length x)) (out @ x) check_rekey es
                  else (Ret (out @ take (nat n) x), p\<lparr>rx := Recv (drop (nat n) x) # es\<rparr>)
              | RecvTimeout now \<Rightarrow>
                  if pk_closed p then (Exn EOFError, p\<lparr>rx := es\<rparr>)
                  else if check_rekey \<and> length out = 0 \<and> need_rekey p
                  then (Exn NeedRekey, p\<lparr>rx := es\<rparr>)
                  else read_loop (check_keepalive p now) n out check_rekey es
              | RecvEAGAIN now \<Rightarrow>
                  if pk_closed p then (Exn EOFError, p\<lparr>rx := es\<rparr>)
                  else if check_rekey \<and> length out = 0 \<and> need_rekey p
                  then (Exn NeedRekey, p\<lparr>rx := es\<rparr>)
                  else read_loop (check_keepalive p now) n out check_rekey es
              | _ \<Rightarrow>
                  if pk_closed p then (Exn EOFError, p\<lparr>rx := es\<rparr>)
                  else (Exn (SocketError ''recv''), p\<lparr>rx := es\<rparr>)))
      else (Ret out, p\<lparr>rx := e # es\<rparr>))"

definition read_all :: "int \<Rightarrow> bool \<Rightarrow> (('e, 'm, 'z) packetizer, bytes) prog" where
  "read_all n check_rekey p =
     (let (out, n, p) =
        (if 0 < length (remainder p)
         then (let out = slice_to (remainder p) n
               in (out, n - int (length out), p\<lparr>remainder := slice_from (remainder p) n\<rparr>))
         else ([], n, p))
      in read_loop p n out check_rekey (rx p))"

text \<open>\<open>_read_timeout\<close> and \<open>readline\<close>, for the banner: \<open>start\<close> is the clock at the call.\<close>

fun read_timeout ::
  "('e, 'm, 'z) packetizer \<Rightarrow> int \<Rightarrow> int \<Rightarrow> recv_ev list \<Rightarrow> bytes outcome \<times> ('e, 'm, 'z) packetizer" where
  "read_timeout p start timeout [] = (Blocked, p\<lparr>rx := []\<rparr>)"
| "read_timeout p start timeout (e # es) =
     (case e of
        Recv x \<Rightarrow> if length x = 0 then (Exn EOFError, p\<lparr>rx := es\<rparr>)
                  else (Ret (take 128 x), p\<lparr>rx := (if 128 < length x then Recv (drop 128 x) # es else es)\<rparr>)
      | RecvTimeout now \<Rightarrow>
          if pk_closed p then (Exn EOFError, p\<lparr>rx := es\<rparr>)
          else if timeout \<le> now - start then (Exn SocketTimeout, p\<lparr>rx := es\<rparr>)
          else read_timeout p start timeout es
      | RecvEAGAIN now \<Rightarrow> (Exn (SocketError ''recv''), p\<lparr>rx := es\<rparr>)
      | RecvError \<Rightarrow> (Exn (SocketError ''recv''), p\<lparr>rx := es\<rparr>)
      | TimerFired \<Rightarrow> read_timeout (read_timer p) start timeout es
      | ClosedByOther \<Rightarrow> read_timeout (pk_close p) start timeout es
      | RekeyByOther \<Rightarrow> read_timeout (trigger_rekey p) start timeout es)"

text \<open>
  \<open>readline\<close> asks for more until a line feed has arrived: \<open>starts\<close> are the clock readings
  at the calls of \<open>_read_timeout\<close>. \<open>None\<close> is a call that still waits when they are used up.
\<close>

definition line_of :: "bytes \<Rightarrow> bytes" where
  "line_of buf = (if buf \<noteq> [] \<and> last buf = cr_byte_value then butlast buf else buf)"

fun readline_loop ::
  "('e, 'm, 'z) packetizer \<Rightarrow> bytes \<Rightarrow> int \<Rightarrow> int list \<Rightarrow> pystr outcome \<times> ('e, 'm, 'z) packetizer" where
  "readline_loop p buf timeout starts =
     (if linefeed_byte \<in> set buf then
        (let n = length (takeWhile (\<lambda>b. b \<noteq> linefeed_byte) buf)
         in ((case u_cast (PBytes (line_of (take n buf))) of Inl e \<Rightarrow> Exn e | Inr x \<Rightarrow> Ret x),
             p\<lparr>remainder := drop (n + 1) buf\<rparr>))
      else
        (case starts of
           [] \<Rightarrow> (Blocked, p)
         | start # starts \<Rightarrow>
             (case read_timeout p start timeout (rx p) of
                (Ret x, p) \<Rightarrow> readline_loop p (buf @ x) timeout starts
              | (Exn e, p) \<Rightarrow> (Exn e, p)
              | (Blocked, p) \<Rightarrow> (Blocked, p))))"

declare readline_loop.simps [simp del]

definition readline :: "int \<Rightarrow> int list \<Rightarrow> (('e, 'm, 'z) packetizer, pystr) prog" where
  "readline timeout starts p = readline_loop p (remainder p) timeout starts"

section \<open>Socket output\<close>

text \<open>
  \<open>zeros\<close> is \<open>iteration_with_zero_as_return_value\<close>: it counts every call of \<open>send\<close>
  that did not time out.
\<close>

fun write_loop :: "('e, 'm, 'z) packetizer \<Rightarrow> bytes \<Rightarrow> nat \<Rightarrow> send_ev list \<Rightarrow> unit outcome \<times> ('e, 'm, 'z) packetizer" where
  "write_loop p out zeros [] =
     (if 0 < length out then (Blocked, p\<lparr>tx := []\<rparr>) else (Ret (), p\<lparr>tx := []\<rparr>))"
| "write_loop p out zeros (e # es) =
     (if 0 < length out then
        (case e of
           Sent n \<Rightarrow>
             (let n = min n (length out); p = p\<lparr>wire := wire p @ take n out\<rparr>
              in if n = 0 \<and> 10 < zeros then (Exn EOFError, p\<lparr>tx := es\<rparr>)
                 else if n = length out then (Ret (), p\<lparr>tx := es\<rparr>)
                 else write_loop p (drop n out) (Suc zeros) es)
         | SendTimeout \<Rightarrow>
             if pk_closed p then (Exn EOFError, p\<lparr>tx := es\<rparr>) else write_loop p out zeros es
         | SendEAGAIN \<Rightarrow>
             if pk_closed p then (Exn EOFError, p\<lparr>tx := es\<rparr>) else write_loop p out zeros es
         | SendError \<Rightarrow> (Exn EOFError, p\<lparr>tx := es\<rparr>)
         | SendProxyFailure \<Rightarrow> (Exn (SSHException ''ProxyCommandFailure''), p\<lparr>tx := es\<rparr>))
      else (Ret (), p\<lparr>tx := e # es\<rparr>))"

definition write_all :: "bytes \<Rightarrow> int \<Rightarrow> (('e, 'm, 'z) packetizer, unit) prog" where
  "write_all out now p = write_loop (p\<lparr>keepalive_last := now\<rparr>) out 0 (tx p)"

section \<open>Sending a packet\<close>

text \<open>\<open>int.to_bytes(8)\<close> overflows when the counter does.\<close>

definition inc_iv_counter :: "bytes \<Rightarrow> bytes res" where
  "inc_iv_counter iv =
     (let c = be_val (drop 4 iv) + 1
      in if c < 2 ^ 64 then Inr (take 4 iv @ be_bytes 8 c) else Inl OverflowError)"

definition build_packet ::
  "('e, 'm, 'z) crypto \<Rightarrow> ('e, 'm, 'z) packetizer \<Rightarrow> bytes \<Rightarrow> bytes res" where
  "build_packet cr p payload =
     (let bsize = block_size_out p;
          addlen = (if etm_out p \<or> aead_out p then 4 else 8)
      in bind_res (ensure (bsize \<noteq> 0) ZeroDivisionError) (\<lambda>_.
         let padding = 3 + bsize - (int (length payload) + addlen) mod bsize
         in bind_res (pack_I (int (length payload) + padding + 1)) (\<lambda>l.
            bind_res (pack_B padding) (\<lambda>b.
            Inr (l @ b @ payload @
              (if sdctr_out p \<or> block_engine_out p = None
               then concat (replicate (nat padding) zero_byte)
               else cr_urandom cr (nat padding)))))))"

text \<open>What \<open>send_message\<close> does to the built packet: encrypt, authenticate.\<close>

definition protect_packet ::
  "('e, 'm, 'z) crypto \<Rightarrow> bytes \<Rightarrow> (('e, 'm, 'z) packetizer, bytes) prog" where
  "protect_packet cr pkt =
     seqp (gets id) (\<lambda>p.
     seqp (case block_engine_out p of
             None \<Rightarrow> ret pkt
           | Some e \<Rightarrow>
               if etm_out p then
                 (let (c, e') = cr_update cr e (drop 4 pkt)
                  in seqp (modify (\<lambda>p. p\<lparr>block_engine_out := Some e'\<rparr>)) (\<lambda>_. ret (take 4 pkt @ c)))
               else if aead_out p then
                 seqp (liftr (inc_iv_counter (iv_out p))) (\<lambda>iv'.
                 seqp (modify (\<lambda>p. p\<lparr>iv_out := iv'\<rparr>)) (\<lambda>_.
                   ret (take 4 pkt @ cr_encrypt cr e (iv_out p) (drop 4 pkt) (take 4 pkt))))
               else
                 (let (c, e') = cr_update cr e pkt
                  in seqp (modify (\<lambda>p. p\<lparr>block_engine_out := Some e'\<rparr>)) (\<lambda>_. ret c))) (\<lambda>out.
     if block_engine_out p \<noteq> None \<and> \<not> aead_out p then
       seqp (liftr (pack_I (sequence_number_out p))) (\<lambda>packed.
       (case mac_engine_out p of
          None \<Rightarrow> raise TypeError
        | Some m \<Rightarrow>
            ret (out @ slice_to (cr_hmac cr m (mac_key_out p) (packed @ (if etm_out p then out else pkt)))
                         (mac_size_out p))))
     else ret out))"

definition count_sent :: "int \<Rightarrow> ('e, 'm, 'z) packetizer \<Rightarrow> ('e, 'm, 'z) packetizer" where
  "count_sent n p =
     (let p = p\<lparr>sent_bytes := sent_bytes p + n, sent_packets := sent_packets p + 1\<rparr>;
          sent_too_much = (REKEY_PACKETS \<le> sent_packets p \<or> REKEY_BYTES \<le> sent_bytes p)
      in if sent_too_much \<and> \<not> need_rekey p
         then trigger_rekey (p\<lparr>received_bytes_overflow := 0, received_packets_overflow := 0\<rparr>)
         else p)"

definition send_message ::
  "('e, 'm, 'z) crypto \<Rightarrow> bytes \<Rightarrow> int \<Rightarrow> (('e, 'm, 'z) packetizer, unit) prog" where
  "send_message cr data now =
     seqp (liftr (py_index data 0)) (\<lambda>_.
     seqp (gets compress_engine_out) (\<lambda>ce.
     seqp (case ce of
             None \<Rightarrow> ret data
           | Some z \<Rightarrow> (let (d, z') = cr_compress cr z data
                        in seqp (modify (\<lambda>p. p\<lparr>compress_engine_out := Some z'\<rparr>)) (\<lambda>_. ret d))) (\<lambda>data.
     seqp (\<lambda>p. liftr (build_packet cr p data) p) (\<lambda>pkt.
     seqp (protect_packet cr pkt) (\<lambda>out.
     seqp (gets (\<lambda>p. (sequence_number_out p + 1) AND xffffffff)) (\<lambda>next_seq.
     seqp (gets initial_kex_done) (\<lambda>done.
     if next_seq = 0 \<and> \<not> done
     then raise (SSHException ''Sequence number rolled over during initial kex!'')
     else
     seqp (modify (\<lambda>p. p\<lparr>sequence_number_out := next_seq\<rparr>)) (\<lambda>_.
     seqp (write_all out now) (\<lambda>_.
     modify (count_sent (int (length out))))))))))))"

section \<open>Receiving a packet\<close>

definition check_mac ::
  "('e, 'm, 'z) crypto \<Rightarrow> int \<Rightarrow> bytes \<Rightarrow> bytes \<Rightarrow> (('e, 'm, 'z) packetizer, unit) prog" where
  "check_mac cr packet_size pkt mac =
     seqp (gets id) (\<lambda>p.
     seqp (liftr (pack_I (sequence_number_in p))) (\<lambda>s.
     seqp (liftr (pack_I packet_size)) (\<lambda>l.
     (case mac_engine_in p of
        None \<Rightarrow> raise TypeError
      | Some m \<Rightarrow>
          (let my_mac = slice_to (cr_hmac cr m (mac_key_in p) (s @ l @ pkt)) (mac_size_in p)
           in if constant_time_bytes_eq my_mac mac then ret ()
              else raise (SSHException ''Mismatched MAC''))))))"

definition decrypt_update ::
  "('e, 'm, 'z) crypto \<Rightarrow> bytes \<Rightarrow> (('e, 'm, 'z) packetizer, bytes) prog" where
  "decrypt_update cr x =
     seqp (gets block_engine_in) (\<lambda>be.
     (case be of
        None \<Rightarrow> ret x
      | Some e \<Rightarrow>
          (let (y, e') = cr_update cr e x
           in seqp (modify (\<lambda>p. p\<lparr>block_engine_in := Some e'\<rparr>)) (\<lambda>_. ret y))))"

text \<open>The encrypt-then-mac branch: the length is in the clear, the MAC covers the ciphertext.\<close>

definition etm_body ::
  "('e, 'm, 'z) crypto \<Rightarrow> bytes \<Rightarrow> (('e, 'm, 'z) packetizer, int \<times> bytes) prog" where
  "etm_body cr header =
     seqp (gets id) (\<lambda>p.
     seqp (liftr (unpack_I (take 4 header))) (\<lambda>packet_size.
     seqp (read_all (packet_size - block_size_in p + 4) False) (\<lambda>rest.
     seqp (read_all (mac_size_in p) False) (\<lambda>mac.
     seqp (check_mac cr packet_size (drop 4 header @ rest) mac) (\<lambda>_.
     ret (packet_size, drop 4 header @ rest))))))"

definition read_etm ::
  "('e, 'm, 'z) crypto \<Rightarrow> bytes \<Rightarrow> (('e, 'm, 'z) packetizer, int \<times> bytes) prog" where
  "read_etm cr header =
     seqp (etm_body cr header) (\<lambda>(packet_size, body).
     seqp (decrypt_update cr body) (\<lambda>pkt.
     ret (packet_size, pkt)))"

definition read_aead ::
  "('e, 'm, 'z) crypto \<Rightarrow> bytes \<Rightarrow> (('e, 'm, 'z) packetizer, int \<times> bytes) prog" where
  "read_aead cr header =
     seqp (gets id) (\<lambda>p.
     seqp (liftr (unpack_I (take 4 header))) (\<lambda>packet_size.
     seqp (read_all (packet_size - block_size_in p + 4 + mac_size_in p) False) (\<lambda>rest.
     (case block_engine_in p of
        None \<Rightarrow> raise AttributeError
      | Some e \<Rightarrow>
          seqp (liftr (cr_decrypt cr e (iv_in p) (drop 4 header @ rest) (take 4 header))) (\<lambda>pkt.
          seqp (liftr (inc_iv_counter (iv_in p))) (\<lambda>iv'.
          seqp (modify (\<lambda>p. p\<lparr>iv_in := iv'\<rparr>)) (\<lambda>_.
          ret (packet_size, pkt))))))))"

definition read_classic ::
  "('e, 'm, 'z) crypto \<Rightarrow> bytes \<Rightarrow> (('e, 'm, 'z) packetizer, int \<times> bytes) prog" where
  "read_classic cr header0 =
     seqp (gets id) (\<lambda>p.
     seqp (decrypt_update cr header0) (\<lambda>header.
     seqp (liftr (unpack_I (take 4 header))) (\<lambda>packet_size.
     let leftover = drop 4 header; todo = packet_size - int (length leftover)
     in if block_size_in p = 0 then raise ZeroDivisionError
        else if todo mod block_size_in p \<noteq> 0 then raise (SSHException ''Invalid packet blocking'')
        else
     seqp (read_all (packet_size + mac_size_in p - int (length leftover)) False) (\<lambda>buf.
     seqp (decrypt_update cr (slice_to buf todo)) (\<lambda>body.
     let pkt = leftover @ body
     in seqp (if 0 < mac_size_in p
              then check_mac cr packet_size pkt (slice_to (slice_from buf todo) (mac_size_in p))
              else ret ()) (\<lambda>_.
        ret (packet_size, pkt)))))))"

text \<open>Counting what was read, and the two re-keying limits.\<close>

definition count_received :: "int \<Rightarrow> (('e, 'm, 'z) packetizer, unit) prog" where
  "count_received raw_packet_size =
     seqp (modify (\<lambda>p. p\<lparr>received_bytes := received_bytes p + raw_packet_size,
                        received_packets := received_packets p + 1\<rparr>)) (\<lambda>_.
     seqp (gets id) (\<lambda>p.
     if need_rekey p then
       seqp (modify (\<lambda>p. p\<lparr>received_bytes_overflow := received_bytes_overflow p + raw_packet_size,
                          received_packets_overflow := received_packets_overflow p + 1\<rparr>)) (\<lambda>_.
       seqp (gets id) (\<lambda>p.
       if REKEY_PACKETS_OVERFLOW_MAX \<le> received_packets_overflow p \<or>
          REKEY_BYTES_OVERFLOW_MAX \<le> received_bytes_overflow p
       then raise (SSHException ''Remote transport is ignoring rekey requests'') else ret ()))
     else if REKEY_PACKETS \<le> received_packets p \<or> REKEY_BYTES \<le> received_bytes p
     then modify (\<lambda>p. trigger_rekey (p\<lparr>received_bytes_overflow := 0, received_packets_overflow := 0\<rparr>))
     else ret ()))"

text \<open>\<open>read_message\<close> returns the command byte, the message and its sequence number.\<close>

definition read_message ::
  "('e, 'm, 'z) crypto \<Rightarrow> (('e, 'm, 'z) packetizer, int \<times> message \<times> int) prog" where
  "read_message cr =
     seqp (gets block_size_in) (\<lambda>bs.
     seqp (read_all bs True) (\<lambda>header.
     seqp (gets etm_in) (\<lambda>etm.
     seqp (gets aead_in) (\<lambda>aead.
     seqp (if etm \<and> aead then seqp (etm_body cr header) (\<lambda>(_, header). read_aead cr header)
           else if etm then read_etm cr header
           else if aead then read_aead cr header
           else read_classic cr header) (\<lambda>(packet_size, pkt).
     seqp (liftr (py_index pkt 0)) (\<lambda>pad.
     let padding = byte_ord pad; payload = slice pkt 1 (packet_size - padding)
     in
     seqp (gets compress_engine_in) (\<lambda>ce.
     seqp (case ce of
             None \<Rightarrow> ret payload
           | Some z \<Rightarrow>
               seqp (liftr (cr_decompress cr z payload)) (\<lambda>(d, z').
               seqp (modify (\<lambda>p. p\<lparr>compress_engine_in := Some z'\<rparr>)) (\<lambda>_. ret d))) (\<lambda>payload.
     seqp (gets sequence_number_in) (\<lambda>seqno.
     seqp (gets initial_kex_done) (\<lambda>done.
     let next_seq = (seqno + 1) AND xffffffff
     in if next_seq = 0 \<and> \<not> done
        then raise (SSHException ''Sequence number rolled over during initial kex!'')
        else
     seqp (modify (\<lambda>p. p\<lparr>sequence_number_in := next_seq\<rparr>)) (\<lambda>_.
     seqp (gets mac_size_in) (\<lambda>ms.
     seqp (count_received (packet_size + ms + 4)) (\<lambda>_.
     seqp (liftr (py_index payload 0)) (\<lambda>cmd.
     ret (byte_ord cmd, message_of (drop 1 payload), seqno)))))))))))))))"

end
