(* ===== verification/Packet_Props.thy ===== *)
theory Packet_Props
  imports Packet_Layer
begin

text \<open>
  What the packet layer promises: framing bounds, exact reads whatever way the network cuts
  the stream, no byte lost to a re-key interrupt, complete writes, and the round trip of a
  message from one packetizer to its peer in every protection mode.
\<close>

section \<open>Reading exactly\<close>

text \<open>The socket will deliver the bytes \<open>bs\<close>, in any division into non-empty chunks.\<close>

definition delivers :: "recv_ev list \<Rightarrow> bytes \<Rightarrow> bool" where
  "delivers evs bs \<longleftrightarrow> (\<exists>xs. evs = map Recv xs \<and> [] \<notin> set xs \<and> concat xs = bs)"

definition pends :: "recv_ev list \<Rightarrow> bytes \<Rightarrow> bytes \<Rightarrow> bool" where
  "pends evs left bs \<longleftrightarrow> (\<exists>s. delivers evs s \<and> bs = left @ s)"

abbreviation pending :: "('e, 'm, 'z) packetizer \<Rightarrow> bytes \<Rightarrow> bool" where
  "pending p \<equiv> pends (rx p) (remainder p)"

lemma read_loop_exact:
  assumes "[] \<notin> set xs" and "0 \<le> n" and "n \<le> int (length (concat xs))" and "\<not> handshake_timed_out p"
  shows "\<exists>ys. read_loop p n out ck (map Recv xs) = (Ret (out @ take (nat n) (concat xs)), p\<lparr>rx := map Recv ys\<rparr>) \<and>
           [] \<notin> set ys \<and> concat ys = drop (nat n) (concat xs)"
  using assms(1-3)
proof (induction xs arbitrary: n out)
  case Nil
  then show ?case by (intro exI [of _ "[]"]) auto
next
  case (Cons x xs)
  consider (zero) "n = 0" | (part) "0 < n" "n < int (length x)" | (all) "0 < n" "int (length x) \<le> n"
    using Cons.prems(2) by linarith
  then show ?case
  proof cases
    case zero
    then show ?thesis using Cons.prems by (intro exI [of _ "x # xs"]) auto
  next
    case part
    then show ?thesis using Cons.prems assms(4) by (intro exI [of _ "drop (nat n) x # xs"]) auto
  next
    case all
    let ?n = "n - int (length x)"
    have "\<exists>ys. read_loop p ?n (out @ x) ck (map Recv xs) =
        (Ret ((out @ x) @ take (nat ?n) (concat xs)), p\<lparr>rx := map Recv ys\<rparr>) \<and>
        [] \<notin> set ys \<and> concat ys = drop (nat ?n) (concat xs)"
      using Cons.prems all by (intro Cons.IH) auto
    moreover have "nat ?n = nat n - length x" "length x \<le> nat n" using all by auto
    ultimately show ?thesis using Cons.prems assms(4) all by auto
  qed
qed

lemma remainder_upd_same [simp]: "remainder p = r \<Longrightarrow> p\<lparr>remainder := r\<rparr> = p"
  by (cases p) auto

lemma read_all_pending:
  assumes "pending p bs" and "0 \<le> n" and "n \<le> int (length bs)" and "\<not> handshake_timed_out p"
  shows "\<exists>r m. read_all n ck p = (Ret (take (nat n) bs), p\<lparr>rx := r, remainder := m\<rparr>) \<and>
           pends r m (drop (nat n) bs)"
proof -
  from assms(1) obtain xs where xs: "rx p = map Recv xs" "[] \<notin> set xs" "bs = remainder p @ concat xs"
    by (auto simp: pends_def delivers_def)
  define m where "m = drop (nat n) (remainder p)"
  define out where "out = take (nat n) (remainder p)"
  define p1 where "p1 = p\<lparr>remainder := m\<rparr>"
  have n': "0 \<le> n - int (length out)" "n - int (length out) \<le> int (length (concat xs))"
    using assms(2,3) xs(3) by (auto simp: out_def)
  have "handshake_timed_out p1 = handshake_timed_out p"
    by (simp add: p1_def handshake_timed_out_def)
  then have "\<not> handshake_timed_out p1" using assms(4) by simp
  from read_loop_exact [OF xs(2) n' this, of out ck] obtain ys where
    ys: "read_loop p1 (n - int (length out)) out ck (map Recv xs) =
        (Ret (out @ take (nat (n - int (length out))) (concat xs)), p1\<lparr>rx := map Recv ys\<rparr>)"
      "[] \<notin> set ys" "concat ys = drop (nat (n - int (length out))) (concat xs)" by blast
  have nat_n: "nat (n - int (length out)) = nat n - length (remainder p)"
    using assms(2) by (auto simp: out_def)
  have "read_all n ck p = read_loop p1 (n - int (length out)) out ck (map Recv xs)"
    using assms(2) xs(1)
    by (auto simp: read_all_def out_def p1_def m_def slice_to_nonneg slice_from_nonneg Let_def)
  moreover have "out @ take (nat n - length (remainder p)) (concat xs) = take (nat n) bs"
    by (simp add: out_def xs(3))
  moreover have "pending (p\<lparr>rx := map Recv ys, remainder := m\<rparr>) (drop (nat n) bs)"
    using ys(2,3) by (auto simp: pends_def delivers_def nat_n m_def xs(3))
  moreover have "p1\<lparr>rx := map Recv ys\<rparr> = p\<lparr>rx := map Recv ys, remainder := m\<rparr>"
    by (simp add: p1_def)
  ultimately show ?thesis using ys(1) unfolding nat_n by (intro exI [of _ "map Recv ys"] exI [of _ m]) simp
qed

lemma handshake_timed_out_upd [simp]:
  "handshake_timed_out (p\<lparr>rx := r\<rparr>) = handshake_timed_out p"
  "handshake_timed_out (p\<lparr>remainder := m\<rparr>) = handshake_timed_out p"
  "handshake_timed_out (p\<lparr>block_engine_in := d\<rparr>) = handshake_timed_out p"
  by (simp_all add: handshake_timed_out_def)

lemma read_all_ex:
  assumes "pending p (a @ b)" and "n = int (length a)" and "\<not> handshake_timed_out p"
  shows "\<exists>r m. read_all n ck p = (Ret a, p\<lparr>rx := r, remainder := m\<rparr>) \<and> pends r m b"
  using read_all_pending [of p "a @ b" n ck] assms by auto

lemma read_all_append:
  assumes "pending p (a @ b)" and "n = int (length a)" and "\<not> handshake_timed_out p"
  obtains r m where "read_all n ck p = (Ret a, p\<lparr>rx := r, remainder := m\<rparr>)"
    "pends r m b"
  using read_all_pending [of p "a @ b" n ck] assms by auto

section \<open>Framing\<close>

definition padding_len :: "('e, 'm, 'z) packetizer \<Rightarrow> bytes \<Rightarrow> int" where
  "padding_len p payload =
     3 + block_size_out p -
       (int (length payload) + (if etm_out p \<or> aead_out p then 4 else 8)) mod block_size_out p"

lemma padding_len_bounds:
  "0 < block_size_out p \<Longrightarrow> 4 \<le> padding_len p payload \<and> padding_len p payload \<le> 3 + block_size_out p"
  using pos_mod_bound [of "block_size_out p"] pos_mod_sign [of "block_size_out p"]
  by (auto simp: padding_len_def) (smt (verit) pos_mod_bound)+

lemma length_concat_replicate_zero [simp]: "length (concat (replicate n zero_byte)) = n"
  by (induction n) auto

lemma build_packet_eq:
  "build_packet cr p payload =
     (if block_size_out p = 0 then Inl ZeroDivisionError
      else bind_res (pack_I (int (length payload) + padding_len p payload + 1)) (\<lambda>l.
           bind_res (pack_B (padding_len p payload)) (\<lambda>b.
           Inr (l @ b @ payload @
             (if sdctr_out p \<or> block_engine_out p = None
              then concat (replicate (nat (padding_len p payload)) zero_byte)
              else cr_urandom cr (nat (padding_len p payload)))))))"
  by (simp add: build_packet_def padding_len_def Let_def ensure_def)

lemma build_packet_Inr:
  assumes "build_packet cr p payload = Inr pkt" and "0 < block_size_out p"
    and "\<And>n. length (cr_urandom cr n) = n"
  obtains padding where
    "pkt = be_bytes 4 (int (length payload) + padding_len p payload + 1) @
       [word_of_int (padding_len p payload)] @ payload @ padding"
    "length padding = nat (padding_len p payload)" "padding_len p payload < 256"
    "int (length payload) + padding_len p payload + 1 < 2 ^ 32"
proof -
  define padding where "padding =
    (if sdctr_out p \<or> block_engine_out p = None then concat (replicate (nat (padding_len p payload)) zero_byte)
     else cr_urandom cr (nat (padding_len p payload)))"
  have len: "length padding = nat (padding_len p payload)"
    by (simp add: padding_def assms(3))
  from assms(1) obtain l b where "pack_I (int (length payload) + padding_len p payload + 1) = Inr l"
    "pack_B (padding_len p payload) = Inr b" "pkt = l @ b @ payload @ padding"
    unfolding build_packet_eq padding_def [symmetric]
    by (auto simp only: bind_res_eq_Inr sum.inject sum.distinct split: if_splits)
  then show thesis
    by (intro that [OF _ len]) (simp_all only: pack_I_def pack_B_def sum.inject sum.distinct split: if_splits)
qed

text \<open>Every packet the builder produces carries between 4 and 255 bytes of padding,
  states its own length correctly in its first four bytes, and the part of it that is
  encrypted as blocks (all of it, or all but the length field in the encrypt-then-MAC and AEAD
  modes) is a multiple of the cipher's block size.\<close>

theorem build_packet_framing:
  assumes "build_packet cr p payload = Inr pkt" and "0 < block_size_out p"
    and "\<And>n. length (cr_urandom cr n) = n"
  shows "int (length pkt) = 4 + be_val (take 4 pkt) \<and>
    (\<exists>pad. 4 \<le> pad \<and> pad \<le> 255 \<and> pkt ! 4 = word_of_int pad \<and>
       take (length payload) (drop 5 pkt) = payload \<and> int (length pkt) = 5 + int (length payload) + pad) \<and>
    (int (length pkt) - (if etm_out p \<or> aead_out p then 4 else 0)) mod block_size_out p = 0"
proof -
  let ?n = "padding_len p payload"
  let ?add = "if etm_out p \<or> aead_out p then 4 else 8 :: int"
  from build_packet_Inr [OF assms] obtain padding where pkt:
    "pkt = be_bytes 4 (int (length payload) + ?n + 1) @ [word_of_int ?n] @ payload @ padding"
    and len: "length padding = nat ?n" "?n < 256" "int (length payload) + ?n + 1 < 2 ^ 32" by blast
  have n: "4 \<le> ?n" using padding_len_bounds [OF assms(2), of payload] by simp
  have total: "int (length pkt) = 5 + int (length payload) + ?n" using n by (simp add: pkt len)
  have "be_val (take 4 pkt) = int (length payload) + ?n + 1"
    using len n by (simp add: pkt be_val_be_bytes)
  moreover have "(int (length pkt) - (if etm_out p \<or> aead_out p then 4 else 0)) mod block_size_out p = 0"
  proof -
    have "int (length pkt) - (if etm_out p \<or> aead_out p then 4 else 0) =
        (int (length payload) + ?add) - (int (length payload) + ?add) mod block_size_out p + block_size_out p"
      unfolding total padding_len_def by simp
    moreover have "(x - x mod b + b) mod b = 0" for x b :: int
      by (simp add: minus_mod_eq_mult_div)
    ultimately show ?thesis by (simp only:)
  qed
  moreover have "pkt ! 4 = word_of_int ?n" "take (length payload) (drop 5 pkt) = payload"
    by (simp_all add: pkt nth_append)
  moreover have "int (length pkt) = 4 + be_val (take 4 pkt)"
    using total calculation(1) by linarith
  ultimately show ?thesis using total n len(2) by (intro conjI exI [of _ ?n]) (assumption | linarith)+
qed

theorem build_packet_framing_witness:
  "\<exists>pkt. build_packet
      \<lparr>cr_update = (\<lambda>e x. (x, e)), cr_encrypt = (\<lambda>e iv x a. x), cr_decrypt = (\<lambda>e iv x a. Inr x),
       cr_hmac = (\<lambda>m k x. x), cr_compress = (\<lambda>z x. (x, z)), cr_decompress = (\<lambda>z x. Inr (x, z)),
       cr_urandom = (\<lambda>n. replicate n 0)\<rparr>
      (new_packetizer 0 [] [] :: (unit, unit, unit) packetizer) [21] = Inr pkt \<and>
     int (length pkt) mod 8 = 0"
proof -
  let ?cr = "\<lparr>cr_update = (\<lambda>e x. (x, e)), cr_encrypt = (\<lambda>e iv x a. x), cr_decrypt = (\<lambda>e iv x a. Inr x),
       cr_hmac = (\<lambda>m k x. x), cr_compress = (\<lambda>z x. (x, z)), cr_decompress = (\<lambda>z x. Inr (x, z)),
       cr_urandom = (\<lambda>n. replicate n 0)\<rparr> :: (unit, unit, unit) crypto"
  let ?p = "new_packetizer 0 [] [] :: (unit, unit, unit) packetizer"
  obtain pkt where b: "build_packet ?cr ?p [21] = Inr pkt"
    by (simp add: build_packet_def new_packetizer_def pack_I_def pack_B_def)
  have "0 < block_size_out ?p" "\<And>n. length (cr_urandom ?cr n) = n" by (simp_all add: new_packetizer_def)
  from build_packet_framing [OF b this] have "(int (length pkt) -
      (if etm_out ?p \<or> aead_out ?p then 4 else 0)) mod block_size_out ?p = 0"
    by (elim conjE)
  with b show ?thesis by (simp add: new_packetizer_def)
qed

section \<open>A packetizer and its peer\<close>

text \<open>
  The assumptions on the cryptographic library: \<open>sync e d\<close> relates an encryptor and the
  peer's decryptor. Contexts work on a stream of whole blocks and the decryptor undoes the
  encryptor; AEAD opens what it sealed; decompression undoes compression; digests are at
  least as long as the MAC; random bytes come in the number asked for.
\<close>

definition sound_crypto ::
  "('e, 'm, 'z) crypto \<Rightarrow> ('e \<Rightarrow> 'e \<Rightarrow> bool) \<Rightarrow> ('z \<Rightarrow> 'z \<Rightarrow> bool) \<Rightarrow> nat \<Rightarrow> nat \<Rightarrow> bool" where
  "sound_crypto cr sync csync bs ms \<longleftrightarrow>
     (\<forall>e a b. bs dvd length a \<longrightarrow>
        cr_update cr e (a @ b) =
          (fst (cr_update cr e a) @ fst (cr_update cr (snd (cr_update cr e a)) b),
           snd (cr_update cr (snd (cr_update cr e a)) b))) \<and>
     (\<forall>e d x. sync e d \<longrightarrow> bs dvd length x \<longrightarrow>
        length (fst (cr_update cr e x)) = length x \<and>
        fst (cr_update cr d (fst (cr_update cr e x))) = x \<and>
        sync (snd (cr_update cr e x)) (snd (cr_update cr d (fst (cr_update cr e x))))) \<and>
     (\<forall>e d iv x a. sync e d \<longrightarrow>
        cr_decrypt cr d iv (cr_encrypt cr e iv x a) a = Inr x \<and>
        length (cr_encrypt cr e iv x a) = length x + ms) \<and>
     (\<forall>z z' x. csync z z' \<longrightarrow>
        (\<exists>z2. cr_decompress cr z' (fst (cr_compress cr z x)) = Inr (x, z2) \<and>
              csync (snd (cr_compress cr z x)) z2)) \<and>
     (\<forall>m k x. ms \<le> length (cr_hmac cr m k x)) \<and>
     (\<forall>n. length (cr_urandom cr n) = n)"

fun opt_rel :: "('a \<Rightarrow> 'b \<Rightarrow> bool) \<Rightarrow> 'a option \<Rightarrow> 'b option \<Rightarrow> bool" where
  "opt_rel R None None \<longleftrightarrow> True"
| "opt_rel R (Some x) (Some y) \<longleftrightarrow> R x y"
| "opt_rel R _ _ \<longleftrightarrow> False"

text \<open>
  The sender's outbound side agrees with the receiver's inbound side, as after a key
  exchange: same algorithms, keys, counters and modes, contexts in step.
\<close>

definition in_step ::
  "('e \<Rightarrow> 'e \<Rightarrow> bool) \<Rightarrow> ('z \<Rightarrow> 'z \<Rightarrow> bool) \<Rightarrow> ('e, 'm, 'z) packetizer \<Rightarrow> ('e, 'm, 'z) packetizer \<Rightarrow> bool" where
  "in_step sync csync p q \<longleftrightarrow>
     block_size_in q = block_size_out p \<and> mac_size_in q = mac_size_out p \<and>
     mac_engine_in q = mac_engine_out p \<and> mac_key_in q = mac_key_out p \<and>
     etm_in q = etm_out p \<and> aead_in q = aead_out p \<and> iv_in q = iv_out p \<and>
     sequence_number_in q = sequence_number_out p \<and> initial_kex_done q = initial_kex_done p \<and>
     opt_rel sync (block_engine_out p) (block_engine_in q) \<and>
     opt_rel csync (compress_engine_out p) (compress_engine_in q)"

text \<open>The modes a key exchange sets up: no cipher means no MAC; AEAD carries its own tag.\<close>

definition mode_ok :: "('e, 'm, 'z) packetizer \<Rightarrow> bool" where
  "mode_ok p \<longleftrightarrow>
     8 \<le> block_size_out p \<and> 0 \<le> mac_size_out p \<and> \<not> (etm_out p \<and> aead_out p) \<and>
     (block_engine_out p = None \<longrightarrow> mac_size_out p = 0 \<and> \<not> etm_out p \<and> \<not> aead_out p)"

text \<open>Both sides' context calls, with no context being the identity.\<close>

definition opt_update :: "('e, 'm, 'z) crypto \<Rightarrow> 'e option \<Rightarrow> bytes \<Rightarrow> bytes \<times> 'e option" where
  "opt_update cr eo x =
     (case eo of None \<Rightarrow> (x, None) | Some e \<Rightarrow> (fst (cr_update cr e x), Some (snd (cr_update cr e x))))"

lemma decrypt_update_eq:
  "decrypt_update cr x q =
     (Ret (fst (opt_update cr (block_engine_in q) x)), q\<lparr>block_engine_in := snd (opt_update cr (block_engine_in q) x)\<rparr>)"
proof (cases "block_engine_in q")
  case None
  then have "q\<lparr>block_engine_in := None\<rparr> = q" by (cases q) auto
  with None show ?thesis by (simp add: decrypt_update_def opt_update_def)
next
  case (Some e)
  then show ?thesis by (cases "cr_update cr e x") (simp add: decrypt_update_def opt_update_def)
qed

lemma opt_rel_cases:
  assumes "opt_rel R x y"
  obtains "x = None" "y = None" | a b where "x = Some a" "y = Some b" "R a b"
  using assms by (cases "(R, x, y)" rule: opt_rel.cases) auto

lemma opt_update_sync:
  assumes "sound_crypto cr sync csync bs ms" and "opt_rel sync e d" and "bs dvd length x"
  shows "length (fst (opt_update cr e x)) = length x"
    and "fst (opt_update cr d (fst (opt_update cr e x))) = x"
    and "opt_rel sync (snd (opt_update cr e x)) (snd (opt_update cr d (fst (opt_update cr e x))))"
  using assms(2) by (cases rule: opt_rel_cases; use assms(1,3) in \<open>auto simp: sound_crypto_def opt_update_def\<close>)+

lemma opt_update_append:
  assumes "sound_crypto cr sync csync bs ms" and "bs dvd length a"
  shows "fst (opt_update cr e (a @ b)) =
           fst (opt_update cr e a) @ fst (opt_update cr (snd (opt_update cr e a)) b)"
    and "snd (opt_update cr e (a @ b)) = snd (opt_update cr (snd (opt_update cr e a)) b)"
  using assms by (auto simp: sound_crypto_def opt_update_def split: option.splits)

lemma check_mac_ok:
  assumes "mac_engine_in q = Some m" and "pack_I (sequence_number_in q) = Inr s"
    and "pack_I n = Inr l" and "mac = slice_to (cr_hmac cr m (mac_key_in q) (s @ l @ pkt)) (mac_size_in q)"
  shows "check_mac cr n pkt mac q = (Ret (), q)"
  using assms by (simp add: check_mac_def constant_time_eq)

section \<open>Reading back each protection mode\<close>

text \<open>
  The three branches of \<open>read_message\<close> share a shape: given the frame's ciphertext on the
  wire, the branch returns the packet's length and its plain body, and leaves the rest of the
  stream unread.
\<close>

lemma take_block_split:
  assumes "(4::nat) \<le> b" and "length x = 4"
  shows "take b (x @ y) = x @ take (b - 4) y" and "drop b (x @ y) = drop (b - 4) y"
  using assms by auto

lemma unpack_I_be: "0 \<le> n \<Longrightarrow> n < 2 ^ 32 \<Longrightarrow> unpack_I (be_bytes 4 n) = Inr n"
  by (simp add: unpack_I_def be_val_be_bytes)

lemma pack_I_be: "0 \<le> n \<Longrightarrow> n < 2 ^ 32 \<Longrightarrow> pack_I n = Inr (be_bytes 4 n)"
  by (simp add: pack_I_def)

lemma read_etm_ok:
  assumes L: "L = int (length c)" "L < 2 ^ 32"
    and bs: "8 \<le> block_size_in q" "block_size_in q \<le> L" and ms: "0 \<le> mac_size_in q"
    and mac: "mac_engine_in q = Some m" "pack_I (sequence_number_in q) = Inr s"
      "mac = slice_to (cr_hmac cr m (mac_key_in q) (s @ be_bytes 4 L @ c)) (mac_size_in q)"
      "int (length mac) = mac_size_in q"
    and hdr: "header = take (nat (block_size_in q)) (be_bytes 4 L @ c)"
    and pend: "pending q (drop (nat (block_size_in q)) (be_bytes 4 L @ c) @ mac @ rest)"
    and tm: "\<not> handshake_timed_out q"
  shows "\<exists>r t. read_etm cr header q =
      (Ret (L, fst (opt_update cr (block_engine_in q) c)),
       q\<lparr>rx := r, remainder := t, block_engine_in := snd (opt_update cr (block_engine_in q) c)\<rparr>) \<and>
     pends r t rest"
proof -
  let ?b = "nat (block_size_in q)"
  have b: "4 \<le> ?b" "length (be_bytes 4 L) = 4" using bs by auto
  have hdr': "take 4 header = be_bytes 4 L" "drop 4 header = take (?b - 4) c"
    unfolding hdr take_block_split(1) [OF b] by simp_all
  have pend': "pending q (drop (?b - 4) c @ mac @ rest)"
    using pend by (simp only: append_assoc [symmetric] take_block_split(2) [OF b]) 
  have n1: "L - block_size_in q + 4 = int (length (drop (?b - 4) c))" using bs L by auto
  from read_all_append [OF pend' n1 tm, of False] obtain r t where
    r1: "read_all (L - block_size_in q + 4) False q = (Ret (drop (?b - 4) c), q\<lparr>rx := r, remainder := t\<rparr>)"
    "pends r t (mac @ rest)" by blast
  have "pending (q\<lparr>rx := r, remainder := t\<rparr>) (mac @ rest)" using r1(2) by simp
  from read_all_ex [OF this mac(4) [symmetric], of False] tm obtain r2 t2 where
    r2: "read_all (mac_size_in q) False (q\<lparr>rx := r, remainder := t\<rparr>) = (Ret mac, q\<lparr>rx := r2, remainder := t2\<rparr>)"
    "pends r2 t2 rest" by auto
  have L0: "0 \<le> L" by (simp add: L(1))
  have chk: "check_mac cr L c mac (q\<lparr>rx := r2, remainder := t2\<rparr>) = (Ret (), q\<lparr>rx := r2, remainder := t2\<rparr>)"
    by (rule check_mac_ok [of _ m s _ "be_bytes 4 L"]) (use mac L in \<open>simp_all add: pack_I_be\<close>)
  have "read_etm cr header q =
      (Ret (L, fst (opt_update cr (block_engine_in q) c)),
       q\<lparr>rx := r2, remainder := t2, block_engine_in := snd (opt_update cr (block_engine_in q) c)\<rparr>)"
    by (simp add: seqp_def read_etm_def etm_body_def hdr' unpack_I_be [OF L0 L(2)] r1(1) r2(1)
        chk decrypt_update_eq)
  with r2(2) show ?thesis by blast
qed

lemma read_aead_ok:
  assumes L: "L + mac_size_in q = int (length c)" "0 \<le> L" "L < 2 ^ 32"
    and bs: "8 \<le> block_size_in q" "block_size_in q \<le> L" and ms: "0 \<le> mac_size_in q"
    and eng: "block_engine_in q = Some d" "cr_decrypt cr d (iv_in q) c (be_bytes 4 L) = Inr body"
      "inc_iv_counter (iv_in q) = Inr iv'"
    and hdr: "header = take (nat (block_size_in q)) (be_bytes 4 L @ c)"
    and pend: "pending q (drop (nat (block_size_in q)) (be_bytes 4 L @ c) @ rest)"
    and tm: "\<not> handshake_timed_out q"
  shows "\<exists>r t. read_aead cr header q = (Ret (L, body), q\<lparr>rx := r, remainder := t, iv_in := iv'\<rparr>) \<and>
     pends r t rest"
proof -
  let ?b = "nat (block_size_in q)"
  have b: "4 \<le> ?b" "length (be_bytes 4 L) = 4" using bs by auto
  have hdr': "take 4 header = be_bytes 4 L" "drop 4 header = take (?b - 4) c"
    unfolding hdr take_block_split(1) [OF b] by simp_all
  have pend': "pending q (drop (?b - 4) c @ rest)"
    using pend by (simp only: take_block_split(2) [OF b])
  have n1: "L - block_size_in q + 4 + mac_size_in q = int (length (drop (?b - 4) c))"
    using bs L ms by auto
  from read_all_append [OF pend' n1 tm, of False] obtain r t where
    r1: "read_all (L - block_size_in q + 4 + mac_size_in q) False q =
      (Ret (drop (?b - 4) c), q\<lparr>rx := r, remainder := t\<rparr>)"
    "pends r t rest" by blast
  have "read_aead cr header q = (Ret (L, body), q\<lparr>rx := r, remainder := t, iv_in := iv'\<rparr>)"
    using L eng by (simp add: seqp_def read_aead_def hdr' unpack_I_be r1(1))
  with r1(2) show ?thesis by blast
qed

lemma read_classic_ok:
  assumes cr: "sound_crypto cr sync csync bs n" "opt_rel sync e (block_engine_in q)" "bs dvd length frame"
    and frame: "frame = be_bytes 4 L @ body" "L = int (length body)" "L < 2 ^ 32"
    and bs: "int bs = block_size_in q" "8 \<le> bs" "bs \<le> length frame"
    and mac: "0 < mac_size_in q \<longrightarrow> mac_engine_in q = Some m \<and> pack_I (sequence_number_in q) = Inr s \<and>
        mac = slice_to (cr_hmac cr m (mac_key_in q) (s @ frame)) (mac_size_in q)"
      "int (length mac) = mac_size_in q"
    and c: "c = fst (opt_update cr e frame)"
    and pend: "pending q (drop bs c @ mac @ rest)"
    and tm: "\<not> handshake_timed_out q"
  shows "\<exists>r t d. read_classic cr (take bs c) q =
      (Ret (L, body), q\<lparr>rx := r, remainder := t, block_engine_in := d\<rparr>) \<and>
     opt_rel sync (snd (opt_update cr e frame)) d \<and>
     pends r t rest"
proof -
  define x1 x2 where "x1 = take bs frame" and "x2 = drop bs frame"
  define a e1 where "a = fst (opt_update cr e x1)" and "e1 = snd (opt_update cr e x1)"
  define d1 where "d1 = snd (opt_update cr (block_engine_in q) a)"
  define b2 where "b2 = fst (opt_update cr e1 x2)"
  have len: "length x1 = bs" "length x2 = length frame - bs" using bs by (auto simp: x1_def x2_def)
  have dvd: "bs dvd length x1" "bs dvd length x2" using cr(3) by (simp_all add: len)
  note s1 = opt_update_sync [OF cr(1,2) dvd(1), folded a_def e1_def, folded d1_def]
  note s2 = opt_update_sync [OF cr(1) s1(3) dvd(2), folded b2_def]
  have split_c: "c = a @ b2" "snd (opt_update cr e frame) = snd (opt_update cr e1 x2)"
    using opt_update_append [OF cr(1) dvd(1), of e x2]
    by (simp_all add: c a_def b2_def e1_def x1_def x2_def)
  have c12: "take bs c = a" "drop bs c = b2" using s1(1) len by (auto simp: split_c)
  have x1: "take 4 x1 = be_bytes 4 L" "drop 4 x1 = take (bs - 4) body" "drop 4 x1 @ x2 = body"
  proof -
    have four: "4 \<le> bs" "length (be_bytes 4 L) = 4" using bs(2) by auto
    show "take 4 x1 = be_bytes 4 L" "drop 4 x1 = take (bs - 4) body" "drop 4 x1 @ x2 = body"
      unfolding x1_def x2_def frame(1) take_block_split(1) [OF four] take_block_split(2) [OF four] by simp_all
  qed
  define left where "left = int (length (drop 4 x1))"
  have left: "left = block_size_in q - 4" using bs len by (simp add: left_def)
  have flen: "int (length frame) = 4 + L" by (simp add: frame)
  have todo: "L - left = int (length b2)"
    using s2(1) len left bs flen by linarith
  have mod0: "(L - left) mod block_size_in q = 0"
    unfolding todo s2(1) bs(1) [symmetric] using dvd(2) by (simp add: zmod_int [symmetric])
  have ms: "0 \<le> mac_size_in q" using mac(2) by linarith
  have n1: "L + mac_size_in q - left = int (length (b2 @ mac))" using todo mac(2) by simp
  have pend': "pending (q\<lparr>block_engine_in := d1\<rparr>) ((b2 @ mac) @ rest)"
    using pend by (simp add: c12)
  have tm': "\<not> handshake_timed_out (q\<lparr>block_engine_in := d1\<rparr>)" using tm by simp
  from read_all_ex [OF pend' n1 tm', of False] obtain r t where
    r1: "read_all (L + mac_size_in q - left) False (q\<lparr>block_engine_in := d1\<rparr>) =
      (Ret (b2 @ mac), q\<lparr>block_engine_in := d1, rx := r, remainder := t\<rparr>)"
    "pends r t rest" by blast
  have sl: "slice_to (b2 @ mac) (L - left) = b2" "slice_from (b2 @ mac) (L - left) = mac"
    "slice_to mac (mac_size_in q) = mac"
    using mac(2) by (simp_all add: todo slice_to_nonneg slice_from_nonneg ms)
  let ?q = "q\<lparr>rx := r, remainder := t, block_engine_in := snd (opt_update cr d1 b2)\<rparr>"
  have chk: "check_mac cr L body mac ?q = (Ret (), ?q)" if "0 < mac_size_in q"
    by (rule check_mac_ok [of _ m s _ "be_bytes 4 L"])
      (use that mac frame in \<open>simp_all add: pack_I_be\<close>)
  have dec: "decrypt_update cr a q = (Ret x1, q\<lparr>block_engine_in := d1\<rparr>)"
    "decrypt_update cr b2 (q\<lparr>block_engine_in := d1, rx := r, remainder := t\<rparr>) = (Ret x2, ?q)"
    by (simp add: decrypt_update_eq s1(2) d1_def) (simp add: decrypt_update_eq s2(2))
  have bz: "block_size_in q \<noteq> 0" using bs by linarith
  have L: "0 \<le> L" "L < 2 ^ 32" using frame by simp_all
  have "read_classic cr a q = (Ret (L, body), ?q)"
    unfolding read_classic_def
    by (simp add: seqp_def dec(1) x1(1) unpack_I_be [OF L] bz mod0 r1(1)
        Let_def left_def [symmetric] sl dec(2) x1(3) chk del: length_drop)
  then show ?thesis using r1(2) s2(3) by (auto simp: c12 split_c(2))
qed

section \<open>What the sender puts on the wire\<close>

lemma write_loop_Ret:
  "write_loop p out z es = (Ret (), p') \<Longrightarrow> \<exists>t. p' = p\<lparr>wire := wire p @ out, tx := t\<rparr>"
proof (induction es arbitrary: p out z)
  case Nil
  then show ?case by (cases p) (auto split: if_splits)
next
  case (Cons ev es)
  show ?case
  proof (cases "out = [] \<or> (\<exists>n. ev = Sent n)")
    case True
    with Cons.prems show ?thesis
    proof (elim disjE exE)
      assume "out = []"
      then show ?thesis using Cons.prems by (cases p) auto
    next
      fix n assume ev: "ev = Sent n"
      show ?thesis
      proof (cases "length out \<le> n \<or> out = []")
        case True
        then show ?thesis using Cons.prems ev
          by (cases p) (auto simp: min_def Let_def split: if_splits)
      next
        case False
        then have "write_loop (p\<lparr>wire := wire p @ take n out\<rparr>) (drop n out) (Suc z) es = (Ret (), p')"
          using Cons.prems ev by (auto simp: min_def Let_def split: if_splits)
        from Cons.IH [OF this] show ?thesis by auto
      qed
    qed
  next
    case False
    then show ?thesis using Cons.prems Cons.IH [of p out z]
      by (cases ev) (auto split: if_splits)
  qed
qed

lemma protect_etm:
  assumes "protect_packet cr (be_bytes 4 L @ body) p = (Ret out, p2)"
    and "block_engine_out p \<noteq> None" and "etm_out p" and "\<not> aead_out p"
    and c: "c = fst (opt_update cr (block_engine_out p) body)"
  shows "\<exists>m s. mac_engine_out p = Some m \<and> pack_I (sequence_number_out p) = Inr s \<and>
     out = be_bytes 4 L @ c @ slice_to (cr_hmac cr m (mac_key_out p) (s @ be_bytes 4 L @ c)) (mac_size_out p) \<and>
     p2 = p\<lparr>block_engine_out := snd (opt_update cr (block_engine_out p) body)\<rparr>"
  using assms
  by (auto simp: protect_packet_def seqp_Ret liftr_Ret opt_update_def split: prod.splits option.splits)

lemma protect_aead:
  assumes "protect_packet cr (be_bytes 4 L @ body) p = (Ret out, p2)"
    and "block_engine_out p = Some e" and "\<not> etm_out p" and "aead_out p"
  shows "\<exists>iv'. inc_iv_counter (iv_out p) = Inr iv' \<and>
     out = be_bytes 4 L @ cr_encrypt cr e (iv_out p) body (be_bytes 4 L) \<and> p2 = p\<lparr>iv_out := iv'\<rparr>"
  using assms by (auto simp: protect_packet_def seqp_Ret liftr_Ret)

lemma protect_classic:
  assumes "protect_packet cr pkt p = (Ret out, p2)" and "\<not> etm_out p" and "\<not> aead_out p"
    and c: "c = fst (opt_update cr (block_engine_out p) pkt)"
  shows "\<exists>m s mac. out = c @ mac \<and>
     (if block_engine_out p = None then mac = []
      else mac_engine_out p = Some m \<and> pack_I (sequence_number_out p) = Inr s \<and>
        mac = slice_to (cr_hmac cr m (mac_key_out p) (s @ pkt)) (mac_size_out p)) \<and>
     p2 = p\<lparr>block_engine_out := snd (opt_update cr (block_engine_out p) pkt)\<rparr>"
proof (cases "block_engine_out p")
  case None
  then have "p\<lparr>block_engine_out := None\<rparr> = p" by (cases p) auto
  with None assms show ?thesis by (auto simp: protect_packet_def opt_update_def)
next
  case (Some e)
  then show ?thesis using assms
    by (auto simp: protect_packet_def seqp_Ret liftr_Ret opt_update_def split: prod.splits option.splits)
qed

section \<open>One frame, sent and read back\<close>

lemma reader_upd_same [simp]: "block_engine_in p = d \<Longrightarrow> p\<lparr>block_engine_in := d\<rparr> = p"
  "iv_in p = iv \<Longrightarrow> p\<lparr>iv_in := iv\<rparr> = p"
  by (cases p; auto)+

definition read_protected ::
  "('e, 'm, 'z) crypto \<Rightarrow> bytes \<Rightarrow> (('e, 'm, 'z) packetizer, int \<times> bytes) prog" where
  "read_protected cr header q =
     (if etm_in q \<and> aead_in q then seqp (etm_body cr header) (\<lambda>(_, header). read_aead cr header) q
      else if etm_in q then read_etm cr header q
      else if aead_in q then read_aead cr header q else read_classic cr header q)"

text \<open>What reading a frame may change.\<close>

definition reader_upd ::
  "('e, 'm, 'z) packetizer \<Rightarrow> recv_ev list \<Rightarrow> bytes \<Rightarrow> 'e option \<Rightarrow> bytes \<Rightarrow> ('e, 'm, 'z) packetizer" where
  "reader_upd q r t d iv = q\<lparr>rx := r, remainder := t, block_engine_in := d, iv_in := iv\<rparr>"

definition frame_ok :: "('e, 'm, 'z) packetizer \<Rightarrow> int \<Rightarrow> bytes \<Rightarrow> bool" where
  "frame_ok p L body \<longleftrightarrow> L = int (length body) \<and> 0 < L \<and> L < 2 ^ 32 \<and>
     nat (block_size_out p) dvd (if etm_out p \<or> aead_out p then length body else 4 + length body)"

definition frame_read ::
  "('e, 'm, 'z) crypto \<Rightarrow> ('e \<Rightarrow> 'e \<Rightarrow> bool) \<Rightarrow> ('z \<Rightarrow> 'z \<Rightarrow> bool) \<Rightarrow> ('e, 'm, 'z) packetizer \<Rightarrow>
     ('e, 'm, 'z) packetizer \<Rightarrow> int \<Rightarrow> bytes \<Rightarrow> bytes \<Rightarrow> bool" where
  "frame_read cr sync csync p2 q L body rest \<longleftrightarrow>
     (\<exists>header q1 r t d iv.
        read_all (block_size_in q) True q = (Ret header, q1) \<and>
        etm_in q1 = etm_in q \<and> aead_in q1 = aead_in q \<and>
        read_protected cr header q1 = (Ret (L, body), reader_upd q r t d iv) \<and>
        in_step sync csync p2 (reader_upd q r t d iv) \<and> pends r t rest)"

lemma frame_etm:
  assumes cr: "sound_crypto cr sync csync (nat (block_size_out p)) (nat (mac_size_out p))"
    and step: "in_step sync csync p q" and mode: "mode_ok p" and fr: "frame_ok p L body"
    and etm: "etm_out p"
    and prot: "protect_packet cr (be_bytes 4 L @ body) p = (Ret out, p2)"
    and pend: "pending q (out @ rest)" and tm: "\<not> handshake_timed_out q"
  shows "frame_read cr sync csync p2 q L body rest"
proof -
  let ?b = "nat (block_size_out p)" and ?e = "block_engine_out p"
  define c where "c = fst (opt_update cr ?e body)"
  have m: "?e \<noteq> None" "\<not> aead_out p" "8 \<le> block_size_out p" "0 \<le> mac_size_out p"
    using mode etm by (auto simp: mode_ok_def)
  from protect_etm [OF prot m(1) etm m(2) c_def] obtain me s where
    ms: "mac_engine_out p = Some me" "pack_I (sequence_number_out p) = Inr s"
    and out: "out = be_bytes 4 L @ c @ slice_to (cr_hmac cr me (mac_key_out p) (s @ be_bytes 4 L @ c)) (mac_size_out p)"
    and p2: "p2 = p\<lparr>block_engine_out := snd (opt_update cr ?e body)\<rparr>" by blast
  define mac where "mac = slice_to (cr_hmac cr me (mac_key_out p) (s @ be_bytes 4 L @ c)) (mac_size_out p)"
  have macl: "int (length mac) = mac_size_out p"
    using cr m(4) by (simp add: mac_def slice_to_nonneg sound_crypto_def min_absorb2)
  have eqs: "block_size_in q = block_size_out p" "mac_size_in q = mac_size_out p"
    "mac_engine_in q = mac_engine_out p" "mac_key_in q = mac_key_out p" "etm_in q = etm_out p"
    "sequence_number_in q = sequence_number_out p" "opt_rel sync ?e (block_engine_in q)"
    "aead_in q = aead_out p"
    using step by (auto simp: in_step_def)
  have dvd: "?b dvd length body" and L: "L = int (length body)" "0 < L" "L < 2 ^ 32"
    using fr etm by (auto simp: frame_ok_def)
  note sy = opt_update_sync [OF cr eqs(7) dvd, folded c_def]
  have b_le: "?b \<le> length body" using dvd L by (intro dvd_imp_le) auto
  have pend1: "pending q (take ?b (be_bytes 4 L @ c) @ drop ?b (be_bytes 4 L @ c) @ mac @ rest)"
    using pend unfolding take_drop_append by (simp add: out mac_def)
  have n: "block_size_in q = int (length (take ?b (be_bytes 4 L @ c)))"
    using m(3) b_le sy(1) by (simp add: eqs)
  from read_all_ex [OF pend1 n tm, of True] obtain r t where
    r1: "read_all (block_size_in q) True q = (Ret (take ?b (be_bytes 4 L @ c)), q\<lparr>rx := r, remainder := t\<rparr>)"
    "pends r t (drop ?b (be_bytes 4 L @ c) @ mac @ rest)" by blast
  let ?q = "q\<lparr>rx := r, remainder := t\<rparr>"
  have "\<exists>r' t'. read_etm cr (take ?b (be_bytes 4 L @ c)) ?q =
      (Ret (L, fst (opt_update cr (block_engine_in ?q) c)),
       ?q\<lparr>rx := r', remainder := t', block_engine_in := snd (opt_update cr (block_engine_in ?q) c)\<rparr>) \<and>
     pends r' t' rest"
  proof (rule read_etm_ok [of L c ?q me s mac])
    show "int (length mac) = mac_size_in ?q" using macl eqs by simp
  qed (use L b_le m sy(1) r1(2) tm eqs ms in \<open>simp_all add: mac_def\<close>)
  then obtain r' t' where r2: "read_etm cr (take ?b (be_bytes 4 L @ c)) ?q =
      (Ret (L, body), reader_upd q r' t' (snd (opt_update cr (block_engine_in q) c)) (iv_in q))"
     "pends r' t' rest" using sy(2) by (auto simp: reader_upd_def)
  have "in_step sync csync p2 (reader_upd q r' t' (snd (opt_update cr (block_engine_in q) c)) (iv_in q))"
    using step sy(3) by (simp add: in_step_def p2 reader_upd_def)
  moreover have "read_protected cr (take ?b (be_bytes 4 L @ c)) ?q =
      (Ret (L, body), reader_upd q r' t' (snd (opt_update cr (block_engine_in q) c)) (iv_in q))"
    using r2(1) eqs(5,8) etm m(2) by (simp add: read_protected_def)
  ultimately show ?thesis using r1(1) r2(2) unfolding frame_read_def
    by (intro exI [of _ "take ?b (be_bytes 4 L @ c)"] exI [of _ ?q] exI [of _ r'] exI [of _ t']
        exI [of _ "snd (opt_update cr (block_engine_in q) c)"] exI [of _ "iv_in q"]) simp
qed

lemma frame_aead:
  assumes cr: "sound_crypto cr sync csync (nat (block_size_out p)) (nat (mac_size_out p))"
    and step: "in_step sync csync p q" and mode: "mode_ok p" and fr: "frame_ok p L body"
    and aead: "aead_out p"
    and prot: "protect_packet cr (be_bytes 4 L @ body) p = (Ret out, p2)"
    and pend: "pending q (out @ rest)" and tm: "\<not> handshake_timed_out q"
  shows "frame_read cr sync csync p2 q L body rest"
proof -
  let ?b = "nat (block_size_out p)"
  have m: "block_engine_out p \<noteq> None" "\<not> etm_out p" "8 \<le> block_size_out p" "0 \<le> mac_size_out p"
    using mode aead by (auto simp: mode_ok_def)
  then obtain e where e: "block_engine_out p = Some e" by auto
  from protect_aead [OF prot e m(2) aead] obtain iv' where
    iv: "inc_iv_counter (iv_out p) = Inr iv'"
    and out: "out = be_bytes 4 L @ cr_encrypt cr e (iv_out p) body (be_bytes 4 L)"
    and p2: "p2 = p\<lparr>iv_out := iv'\<rparr>" by blast
  define c where "c = cr_encrypt cr e (iv_out p) body (be_bytes 4 L)"
  have eqs: "block_size_in q = block_size_out p" "mac_size_in q = mac_size_out p" "iv_in q = iv_out p"
    "etm_in q = etm_out p" "aead_in q = aead_out p" "opt_rel sync (Some e) (block_engine_in q)"
    using step by (auto simp: in_step_def e)
  from eqs(6) obtain d where d: "block_engine_in q = Some d" "sync e d"
    by (cases rule: opt_rel_cases) auto
  have cl: "length c = length body + nat (mac_size_out p)" "cr_decrypt cr d (iv_out p) c (be_bytes 4 L) = Inr body"
    using cr d(2) by (auto simp: sound_crypto_def c_def)
  have dvd: "?b dvd length body" and L: "L = int (length body)" "0 < L" "L < 2 ^ 32"
    using fr aead by (auto simp: frame_ok_def)
  have b_le: "?b \<le> length body" using dvd L by (intro dvd_imp_le) auto
  have pend1: "pending q (take ?b (be_bytes 4 L @ c) @ drop ?b (be_bytes 4 L @ c) @ rest)"
    using pend unfolding take_drop_append by (simp add: out c_def)
  have n: "block_size_in q = int (length (take ?b (be_bytes 4 L @ c)))"
    using m(3) b_le cl(1) by (simp add: eqs)
  from read_all_ex [OF pend1 n tm, of True] obtain r t where
    r1: "read_all (block_size_in q) True q = (Ret (take ?b (be_bytes 4 L @ c)), q\<lparr>rx := r, remainder := t\<rparr>)"
    "pends r t (drop ?b (be_bytes 4 L @ c) @ rest)" by blast
  let ?q = "q\<lparr>rx := r, remainder := t\<rparr>"
  have "\<exists>r' t'. read_aead cr (take ?b (be_bytes 4 L @ c)) ?q =
      (Ret (L, body), ?q\<lparr>rx := r', remainder := t', iv_in := iv'\<rparr>) \<and> pends r' t' rest"
    by (rule read_aead_ok [of L ?q c d])
      (use L b_le m cl r1(2) tm eqs d iv in \<open>simp_all\<close>)
  then obtain r' t' where r2: "read_aead cr (take ?b (be_bytes 4 L @ c)) ?q =
      (Ret (L, body), reader_upd q r' t' (block_engine_in q) iv')"
     "pends r' t' rest" by (auto simp: reader_upd_def)
  have "in_step sync csync p2 (reader_upd q r' t' (block_engine_in q) iv')"
    using step by (simp add: in_step_def p2 reader_upd_def)
  moreover have "read_protected cr (take ?b (be_bytes 4 L @ c)) ?q =
      (Ret (L, body), reader_upd q r' t' (block_engine_in q) iv')"
    using r2(1) eqs(4,5) aead m(2) by (simp add: read_protected_def)
  ultimately show ?thesis using r1(1) r2(2) unfolding frame_read_def
    by (intro exI [of _ "take ?b (be_bytes 4 L @ c)"] exI [of _ ?q] exI [of _ r'] exI [of _ t']
        exI [of _ "block_engine_in q"] exI [of _ iv']) simp
qed

lemma frame_classic:
  assumes cr: "sound_crypto cr sync csync (nat (block_size_out p)) (nat (mac_size_out p))"
    and step: "in_step sync csync p q" and mode: "mode_ok p" and fr: "frame_ok p L body"
    and cl: "\<not> etm_out p" "\<not> aead_out p"
    and prot: "protect_packet cr (be_bytes 4 L @ body) p = (Ret out, p2)"
    and pend: "pending q (out @ rest)" and tm: "\<not> handshake_timed_out q"
  shows "frame_read cr sync csync p2 q L body rest"
proof -
  let ?b = "nat (block_size_out p)" and ?e = "block_engine_out p" and ?pkt = "be_bytes 4 L @ body"
  define c where "c = fst (opt_update cr ?e ?pkt)"
  have m: "8 \<le> block_size_out p" "0 \<le> mac_size_out p" "?e = None \<Longrightarrow> mac_size_out p = 0"
    using mode by (auto simp: mode_ok_def)
  from protect_classic [OF prot cl c_def] obtain me s mac where out: "out = c @ mac"
    and mac: "if ?e = None then mac = []
      else mac_engine_out p = Some me \<and> pack_I (sequence_number_out p) = Inr s \<and>
        mac = slice_to (cr_hmac cr me (mac_key_out p) (s @ ?pkt)) (mac_size_out p)"
    and p2: "p2 = p\<lparr>block_engine_out := snd (opt_update cr ?e ?pkt)\<rparr>" by blast
  have macl: "int (length mac) = mac_size_out p"
    using cr m mac by (auto simp: slice_to_nonneg sound_crypto_def min_absorb2 split: if_splits)
  have eqs: "block_size_in q = block_size_out p" "mac_size_in q = mac_size_out p"
    "mac_engine_in q = mac_engine_out p" "mac_key_in q = mac_key_out p" "etm_in q = etm_out p"
    "aead_in q = aead_out p"
    "sequence_number_in q = sequence_number_out p" "opt_rel sync ?e (block_engine_in q)"
    using step by (auto simp: in_step_def)
  have dvd: "?b dvd length ?pkt" and L: "L = int (length body)" "0 < L" "L < 2 ^ 32"
    using fr cl by (auto simp: frame_ok_def)
  note sy = opt_update_sync [OF cr eqs(8) dvd, folded c_def]
  have b_le: "?b \<le> length ?pkt" using dvd by (intro dvd_imp_le) auto
  have pend1: "pending q (take ?b c @ drop ?b c @ mac @ rest)"
    using pend unfolding take_drop_append by (simp add: out)
  have n: "block_size_in q = int (length (take ?b c))"
    using m(1) b_le sy(1) by (simp add: eqs)
  from read_all_ex [OF pend1 n tm, of True] obtain r t where
    r1: "read_all (block_size_in q) True q = (Ret (take ?b c), q\<lparr>rx := r, remainder := t\<rparr>)"
    "pends r t (drop ?b c @ mac @ rest)" by blast
  let ?q = "q\<lparr>rx := r, remainder := t\<rparr>"
  have "\<exists>r' t' d. read_classic cr (take ?b c) ?q =
      (Ret (L, body), ?q\<lparr>rx := r', remainder := t', block_engine_in := d\<rparr>) \<and>
     opt_rel sync (snd (opt_update cr ?e ?pkt)) d \<and> pends r' t' rest"
  proof (rule read_classic_ok [OF cr _ dvd refl L(1) L(3)])
    show "0 < mac_size_in ?q \<longrightarrow> mac_engine_in ?q = Some me \<and> pack_I (sequence_number_in ?q) = Inr s \<and>
        mac = slice_to (cr_hmac cr me (mac_key_in ?q) (s @ ?pkt)) (mac_size_in ?q)"
      using mac m(3) by (auto simp: eqs split: if_splits)
    show "c = fst (opt_update cr ?e ?pkt)" by (rule c_def)
  qed (use b_le m r1(2) tm eqs macl in simp_all)
  then obtain r' t' d where r2: "read_classic cr (take ?b c) ?q =
      (Ret (L, body), reader_upd q r' t' d (iv_in q))"
     "opt_rel sync (snd (opt_update cr ?e ?pkt)) d" "pends r' t' rest" by (auto simp: reader_upd_def)
  have "in_step sync csync p2 (reader_upd q r' t' d (iv_in q))"
    using step r2(2) by (simp add: in_step_def p2 reader_upd_def)
  moreover have "read_protected cr (take ?b c) ?q = (Ret (L, body), reader_upd q r' t' d (iv_in q))"
    using r2(1) eqs(5,6) cl by (simp add: read_protected_def)
  ultimately show ?thesis using r1(1) r2(3) unfolding frame_read_def
    by (intro exI [of _ "take ?b c"] exI [of _ ?q] exI [of _ r'] exI [of _ t']
        exI [of _ d] exI [of _ "iv_in q"]) simp
qed

section \<open>One message, sent and read back\<close>

definition next_seq :: "int \<Rightarrow> int" where
  "next_seq n = (n + 1) AND xffffffff"

definition compressed ::
  "('e, 'm, 'z) crypto \<Rightarrow> ('e, 'm, 'z) packetizer \<Rightarrow> bytes \<Rightarrow> bytes \<times> ('e, 'm, 'z) packetizer" where
  "compressed cr p data =
     (case compress_engine_out p of
        None \<Rightarrow> (data, p)
      | Some z \<Rightarrow> (fst (cr_compress cr z data), p\<lparr>compress_engine_out := Some (snd (cr_compress cr z data))\<rparr>))"

lemma preserves_wire_protect: "preserves (\<lambda>p. wire p = w) (protect_packet cr pkt)"
  unfolding preserves_def protect_packet_def
  by (auto simp: seqp_def liftr_def Let_def split: prod.splits option.splits sum.splits outcome.splits)

lemma send_message_Ret:
  assumes "send_message cr data now p = (Ret (), p')"
  obtains pl p1 pkt out p2 where "data \<noteq> []" "compressed cr p data = (pl, p1)"
    "build_packet cr p1 pl = Inr pkt" "protect_packet cr pkt p1 = (Ret out, p2)"
    "\<not> (next_seq (sequence_number_out p2) = 0 \<and> \<not> initial_kex_done p2)"
    "wire p' = wire p @ out"
    "\<And>sync csync q. in_step sync csync p' q =
       in_step sync csync (p2\<lparr>sequence_number_out := next_seq (sequence_number_out p2)\<rparr>) q"
proof -
  obtain pl p1 where c: "compressed cr p data = (pl, p1)" by (cases "compressed cr p data") auto
  have ne: "data \<noteq> []" using assms by (auto simp: send_message_def seqp_Ret liftr_Ret py_index_def)
  then have idx: "\<exists>x. py_index data 0 = Inr x" by (cases data) (auto simp: py_index_0)
  have w: "wire p1 = wire p" using c by (auto simp: compressed_def split: option.splits)
  obtain pkt where pkt: "build_packet cr p1 pl = Inr pkt"
    and rest: "seqp (protect_packet cr pkt) (\<lambda>out.
      seqp (gets (\<lambda>p. next_seq (sequence_number_out p))) (\<lambda>n.
      seqp (gets initial_kex_done) (\<lambda>done.
      if n = 0 \<and> \<not> done
      then raise (SSHException ''Sequence number rolled over during initial kex!'')
      else seqp (modify (\<lambda>p. p\<lparr>sequence_number_out := n\<rparr>)) (\<lambda>_.
      seqp (write_all out now) (\<lambda>_.
      modify (count_sent (int (length out)))))))) p1 = (Ret (), p')"
    using assms c idx unfolding send_message_def next_seq_def
    by (auto simp: compressed_def seqp_Ret liftr_Ret split: option.splits prod.splits)
  from rest obtain out p2 p3 where prot: "protect_packet cr pkt p1 = (Ret out, p2)"
    and roll: "\<not> (next_seq (sequence_number_out p2) = 0 \<and> \<not> initial_kex_done p2)"
    and wr: "write_all out now (p2\<lparr>sequence_number_out := next_seq (sequence_number_out p2)\<rparr>) = (Ret (), p3)"
    and p': "p' = count_sent (int (length out)) p3"
    by (auto simp: seqp_Ret split: if_splits)
  from write_loop_Ret [OF wr [unfolded write_all_def]] obtain t where
    p3: "p3 = p2\<lparr>sequence_number_out := next_seq (sequence_number_out p2), keepalive_last := now,
      wire := wire p2 @ out, tx := t\<rparr>" by auto
  have "wire p2 = wire p1" using preservesD [OF preserves_wire_protect _ prot] by blast
  then have "wire p' = wire p @ out" using w by (simp add: p' p3 count_sent_def Let_def trigger_rekey_def)
  moreover have "in_step sync csync p' q =
      in_step sync csync (p2\<lparr>sequence_number_out := next_seq (sequence_number_out p2)\<rparr>) q" for sync csync q
    by (simp add: p' p3 count_sent_def Let_def trigger_rekey_def in_step_def)
  ultimately show thesis by (rule that [OF ne c pkt prot roll])
qed

definition decompressed ::
  "('e, 'm, 'z) crypto \<Rightarrow> ('e, 'm, 'z) packetizer \<Rightarrow> bytes \<Rightarrow> bytes \<Rightarrow> 'z option \<Rightarrow> bool" where
  "decompressed cr q payload data zo \<longleftrightarrow>
     (case compress_engine_in q of
        None \<Rightarrow> data = payload \<and> zo = None
      | Some z \<Rightarrow> (\<exists>z2. cr_decompress cr z payload = Inr (data, z2) \<and> zo = Some z2))"

lemma count_received_ok:
  assumes "\<not> need_rekey q"
  shows "\<exists>q'. count_received n q = (Ret (), q') \<and> rx q' = rx q \<and> remainder q' = remainder q \<and>
     (\<forall>sync csync p. in_step sync csync p q' = in_step sync csync p q)"
  using assms by (auto simp: count_received_def seqp_def trigger_rekey_def in_step_def)

lemma read_message_after:
  assumes hd: "read_all (block_size_in q) True q = (Ret header, q1)" "etm_in q1 = etm_in q" "aead_in q1 = aead_in q"
    and rd: "read_protected cr header q1 = (Ret (L, body), q2)"
    and body: "body = [word_of_int n] @ payload @ padding" "length padding = nat n" "0 \<le> n" "n < 256"
      "L = int (length body)"
    and dec: "decompressed cr q2 payload data zo" and ne: "data \<noteq> []"
    and roll: "\<not> (next_seq (sequence_number_in q2) = 0 \<and> \<not> initial_kex_done q2)"
    and nr: "\<not> need_rekey q2"
  shows "\<exists>q3. read_message cr q =
      (Ret (byte_ord (List.hd data), message_of (tl data), sequence_number_in q2), q3) \<and>
     rx q3 = rx q2 \<and> remainder q3 = remainder q2 \<and>
     (\<forall>sync csync p. in_step sync csync p q3 =
        in_step sync csync p (q2\<lparr>compress_engine_in := zo, sequence_number_in := next_seq (sequence_number_in q2)\<rparr>))"
proof -
  let ?q2 = "q2\<lparr>compress_engine_in := zo\<rparr>"
  let ?q3 = "?q2\<lparr>sequence_number_in := next_seq (sequence_number_in q2)\<rparr>"
  obtain x xs where x: "data = x # xs" using ne by (cases data) auto
  have pad: "byte_ord (word_of_int n) = n" using body(3,4)
    by (simp add: byte_ord_def uint_word_of_int)
  have sl: "slice body 1 (L - n) = payload"
    using body by (simp add: slice_nonneg nat_diff_distrib)
  have idx: "py_index body 0 = Inr (word_of_int n)" by (simp add: body py_index_0)
  have idx': "py_index (x # xs) 0 = Inr x" by (simp add: py_index_0)
  have rd': "(if etm_in q \<and> aead_in q then seqp (etm_body cr header) (\<lambda>(_, header). read_aead cr header)
      else if etm_in q then read_etm cr header else if aead_in q then read_aead cr header
      else read_classic cr header) q1 = (Ret (L, body), q2)"
    using rd unfolding read_protected_def hd by (simp split: if_splits)
  have z: "compress_engine_in q2 = None \<Longrightarrow> zo = None \<Longrightarrow> ?q2 = q2" by (cases q2) auto
  have dec': "(case compress_engine_in q2 of
             None \<Rightarrow> ret (slice body 1 (L - byte_ord (word_of_int n)))
           | Some z \<Rightarrow>
               seqp (liftr (cr_decompress cr z (slice body 1 (L - byte_ord (word_of_int n))))) (\<lambda>(d, z').
               seqp (modify (\<lambda>p. p\<lparr>compress_engine_in := Some z'\<rparr>)) (\<lambda>_. ret d))) q2 = (Ret data, ?q2)"
    unfolding pad sl using dec z by (auto simp: decompressed_def split: option.splits)
  from count_received_ok [of ?q3 "L + mac_size_in q2 + 4"] nr obtain q3 where
    q3: "count_received (L + mac_size_in q2 + 4) ?q3 = (Ret (), q3)" "rx q3 = rx q2"
      "remainder q3 = remainder q2" "\<forall>sync csync p. in_step sync csync p q3 = in_step sync csync p ?q3" by auto
  have "read_message cr q = (Ret (byte_ord x, message_of xs, sequence_number_in q2), q3)"
    using roll rd' unfolding read_message_def next_seq_def [symmetric]
    by (cases "etm_in q"; cases "aead_in q"; simp add: seqp_def hd idx idx' dec' q3(1) Let_def x)
  then show ?thesis using q3 by (intro exI [of _ q3]) (simp add: x)
qed

lemma protect_compressor:
  "protect_packet cr pkt p = (Ret out, p2) \<Longrightarrow>
   protect_packet cr pkt (p\<lparr>compress_engine_out := z\<rparr>) = (Ret out, p2\<lparr>compress_engine_out := z\<rparr>)"
  unfolding protect_packet_def
  by (auto simp: seqp_Ret liftr_Ret Let_def split: prod.splits option.splits if_splits)

lemma build_packet_compressor:
  "build_packet cr (p\<lparr>compress_engine_out := z\<rparr>) pl = build_packet cr p pl"
  by (simp add: build_packet_def)

lemma compressed_upd:
  assumes "compressed cr p data = (pl, p1)"
  shows "p1 = p\<lparr>compress_engine_out := compress_engine_out p1\<rparr>"
    and "p = p1\<lparr>compress_engine_out := compress_engine_out p\<rparr>"
  using assms by (cases p; auto simp: compressed_def split: option.splits)+

lemma compressed_in_step:
  assumes "sound_crypto cr sync csync bs ms" and "compressed cr p data = (pl, p1)"
    and "opt_rel csync (compress_engine_out p) (compress_engine_in q)"
  obtains zo where "decompressed cr q pl data zo" "opt_rel csync (compress_engine_out p1) zo"
proof (rule opt_rel_cases [OF assms(3)])
  assume "compress_engine_out p = None" "compress_engine_in q = None"
  with that [of None] assms(2) show thesis by (auto simp: compressed_def decompressed_def)
next
  fix a b assume ab: "compress_engine_out p = Some a" "compress_engine_in q = Some b" "csync a b"
  with assms(1) obtain z2 where z: "cr_decompress cr b (fst (cr_compress cr a data)) = Inr (data, z2)"
    "csync (snd (cr_compress cr a data)) z2" unfolding sound_crypto_def by blast
  with that [of "Some z2"] ab assms(2) show thesis by (auto simp: compressed_def decompressed_def)
qed

lemma frame_all:
  assumes "sound_crypto cr sync csync (nat (block_size_out p)) (nat (mac_size_out p))"
    and "in_step sync csync p q" and "mode_ok p" and "frame_ok p L body"
    and "protect_packet cr (be_bytes 4 L @ body) p = (Ret out, p2)"
    and "pending q (out @ rest)" and "\<not> handshake_timed_out q"
  shows "frame_read cr sync csync p2 q L body rest"
  using frame_etm [OF assms(1-4) _ assms(5-7)] frame_aead [OF assms(1-4) _ assms(5-7)]
    frame_classic [OF assms(1-4) _ _ assms(5-7)] by blast

lemma built_frame_ok:
  assumes "sound_crypto cr sync csync bs ms" and "0 < block_size_out p" and "build_packet cr p pl = Inr pkt"
  obtains n padding where
    "pkt = be_bytes 4 (int (length pl) + n + 1) @ [word_of_int n] @ pl @ padding"
    "length padding = nat n" "0 \<le> n" "n < 256"
    "frame_ok p (int (length pl) + n + 1) ([word_of_int n] @ pl @ padding)"
proof -
  have u: "length (cr_urandom cr n) = n" for n using assms(1) by (simp add: sound_crypto_def)
  let ?n = "padding_len p pl"
  from build_packet_Inr [OF assms(3,2) u] obtain padding where
    b: "pkt = be_bytes 4 (int (length pl) + ?n + 1) @ [word_of_int ?n] @ pl @ padding"
      "length padding = nat ?n" "?n < 256" "int (length pl) + ?n + 1 < 2 ^ 32" by blast
  have n: "4 \<le> ?n" using padding_len_bounds [OF assms(2), of pl] by simp
  let ?body = "[word_of_int ?n] @ pl @ padding"
  have L: "int (length ?body) = int (length pl) + ?n + 1" using b n by simp
  let ?x = "int (length pl) + (if etm_out p \<or> aead_out p then 4 else 8)"
  have "int (length pl) + ?n + 1 + (if etm_out p \<or> aead_out p then 0 else 4) =
      ?x - ?x mod block_size_out p + block_size_out p"
    by (simp add: padding_len_def)
  also have "block_size_out p dvd \<dots>" by (simp add: minus_mod_eq_mult_div)
  finally have "block_size_out p dvd int (if etm_out p \<or> aead_out p then length ?body else 4 + length ?body)"
    using L by (auto simp: ac_simps split: if_splits)
  then have "nat (block_size_out p) dvd (if etm_out p \<or> aead_out p then length ?body else 4 + length ?body)"
    using assms(2) by (simp add: nat_dvd_iff)
  then have "frame_ok p (int (length pl) + ?n + 1) ?body"
    unfolding frame_ok_def using L b(4) n by linarith
  then show thesis using that [OF b(1,2) _ b(3)] n by simp
qed

lemma send_read_one:
  assumes cr: "sound_crypto cr sync csync (nat (block_size_out p)) (nat (mac_size_out p))"
    and step: "in_step sync csync p q" and mode: "mode_ok p"
    and sent: "send_message cr data now p = (Ret (), p')"
    and pend: "pending q (drop (length (wire p)) (wire p') @ rest)"
    and tm: "\<not> handshake_timed_out q" and nr: "\<not> need_rekey q"
  shows "\<exists>q'. read_message cr q =
      (Ret (byte_ord (hd data), message_of (tl data), sequence_number_out p), q') \<and>
     in_step sync csync p' q' \<and> pending q' rest"
proof -
  from send_message_Ret [OF sent] obtain pl p1 pkt out p2' where ne: "data \<noteq> []"
    and c: "compressed cr p data = (pl, p1)" and b1: "build_packet cr p1 pl = Inr pkt"
    and pr1: "protect_packet cr pkt p1 = (Ret out, p2')"
    and roll: "\<not> (next_seq (sequence_number_out p2') = 0 \<and> \<not> initial_kex_done p2')"
    and w: "wire p' = wire p @ out"
    and p': "\<And>sync csync q. in_step sync csync p' q =
       in_step sync csync (p2'\<lparr>sequence_number_out := next_seq (sequence_number_out p2')\<rparr>) q" by blast
  have b: "build_packet cr p pl = Inr pkt"
    using b1 compressed_upd(1) [OF c] build_packet_compressor by metis
  define p2 where "p2 = p2'\<lparr>compress_engine_out := compress_engine_out p\<rparr>"
  have pr: "protect_packet cr pkt p = (Ret out, p2)"
    using protect_compressor [OF pr1] compressed_upd(2) [OF c] by (simp add: p2_def) metis
  have "protect_packet cr pkt p1 = (Ret out, p2\<lparr>compress_engine_out := compress_engine_out p1\<rparr>)"
    using protect_compressor [OF pr] compressed_upd(1) [OF c] by metis
  then have p2': "p2' = p2\<lparr>compress_engine_out := compress_engine_out p1\<rparr>" using pr1 by simp
  have bs: "0 < block_size_out p" using mode by (simp add: mode_ok_def)
  from built_frame_ok [OF cr bs b] obtain n padding where
    pkt: "pkt = be_bytes 4 (int (length pl) + n + 1) @ [word_of_int n] @ pl @ padding"
    and n: "length padding = nat n" "0 \<le> n" "n < 256"
    and fr: "frame_ok p (int (length pl) + n + 1) ([word_of_int n] @ pl @ padding)" by blast
  let ?L = "int (length pl) + n + 1" and ?body = "[word_of_int n] @ pl @ padding"
  have "pending q (out @ rest)" using pend by (simp add: w)
  from frame_all [OF cr step mode fr pr [unfolded pkt] this tm, unfolded frame_read_def]
  obtain header q1 r t d iv where rd: "read_all (block_size_in q) True q = (Ret header, q1)"
    "etm_in q1 = etm_in q" "aead_in q1 = aead_in q"
    "read_protected cr header q1 = (Ret (?L, ?body), reader_upd q r t d iv)"
    and st2: "in_step sync csync p2 (reader_upd q r t d iv)" and rest: "pends r t rest" by blast
  let ?q2 = "reader_upd q r t d iv"
  have "opt_rel csync (compress_engine_out p) (compress_engine_in ?q2)"
    using step by (simp add: in_step_def reader_upd_def)
  from compressed_in_step [OF cr c this] obtain zo where
    z: "decompressed cr ?q2 pl data zo" "opt_rel csync (compress_engine_out p1) zo" by blast
  have seqs: "sequence_number_in ?q2 = sequence_number_out p2'" "initial_kex_done ?q2 = initial_kex_done p2'"
    "sequence_number_in ?q2 = sequence_number_out p"
    using st2 step by (auto simp: in_step_def p2' reader_upd_def)
  have roll': "\<not> (next_seq (sequence_number_in ?q2) = 0 \<and> \<not> initial_kex_done ?q2)"
    using roll by (simp only: seqs(1,2) simp_thms)
  have nr': "\<not> need_rekey ?q2" using nr by (simp add: reader_upd_def)
  have "\<exists>q3. read_message cr q =
      (Ret (byte_ord (hd data), message_of (tl data), sequence_number_in ?q2), q3) \<and>
     rx q3 = rx ?q2 \<and> remainder q3 = remainder ?q2 \<and>
     (\<forall>sync csync p. in_step sync csync p q3 =
        in_step sync csync p (?q2\<lparr>compress_engine_in := zo, sequence_number_in := next_seq (sequence_number_in ?q2)\<rparr>))"
    using n by (intro read_message_after [OF rd refl n _ z(1) ne roll' nr']) simp_all
  moreover have "in_step sync csync p'
      (?q2\<lparr>compress_engine_in := zo, sequence_number_in := next_seq (sequence_number_in ?q2)\<rparr>)"
    unfolding p' p2' using st2 z(2) by (simp add: in_step_def)
  ultimately show ?thesis using rest unfolding seqs(3) by (auto simp: reader_upd_def)
qed

text \<open>Claim C1. A message sent by a packetizer is read back by its peer: whatever the mode
  (plain, encrypt-and-MAC, encrypt-then-MAC or AEAD, compressed or not) and however the network
  cuts the stream, \<open>read_message\<close> returns the command byte, the rest of the message and the
  sender's sequence number, consumes exactly the packet, and leaves both sides in step.\<close>

theorem packet_roundtrip:
  assumes "sound_crypto cr sync csync (nat (block_size_out p)) (nat (mac_size_out p))"
    and "in_step sync csync p q" and "mode_ok p"
    and "send_message cr data now p = (Ret (), p')"
    and "pending q (drop (length (wire p)) (wire p') @ rest)"
    and "\<not> handshake_timed_out q" and "\<not> need_rekey q"
  shows "\<exists>q'. read_message cr q =
      (Ret (byte_ord (hd data), message_of (tl data), sequence_number_out p), q') \<and>
     in_step sync csync p' q' \<and> pending q' rest"
  by (rule send_read_one [OF assms])

definition toy_crypto :: "(unit, unit, unit) crypto" where
  "toy_crypto =
     \<lparr>cr_update = (\<lambda>e x. (map NOT x, e)),
      cr_encrypt = (\<lambda>e iv x a. x @ replicate 4 0),
      cr_decrypt = (\<lambda>e iv x a. Inr (take (length x - 4) x)),
      cr_hmac = (\<lambda>m k x. replicate 4 (last (0 # x))),
      cr_compress = (\<lambda>z x. (x, z)),
      cr_decompress = (\<lambda>z x. Inr (x, z)),
      cr_urandom = (\<lambda>n. replicate n 7)\<rparr>"

definition toy_sender :: "(unit, unit, unit) packetizer" where
  "toy_sender = set_outbound_cipher (new_packetizer 0 [] [Sent 5, SendTimeout, Sent 100]) (Some ()) 8 (Some ()) 4 [1, 2] False True False []"

definition toy_wire :: bytes where
  "toy_wire = wire (snd (send_message toy_crypto [20, 1, 2] 0 toy_sender))"

definition toy_receiver :: "(unit, unit, unit) packetizer" where
  "toy_receiver = set_inbound_cipher
     (new_packetizer 0 [Recv (take 3 toy_wire), Recv (drop 3 toy_wire)] []) (Some ()) 8 (Some ()) 4 [1, 2] True False []"

lemma toy_crypto_sound: "sound_crypto toy_crypto (\<lambda>_ _. True) (\<lambda>_ _. True) 8 4"
  by (auto simp: sound_crypto_def toy_crypto_def o_def)

theorem packet_roundtrip_witness:
  "\<exists>q'. read_message toy_crypto toy_receiver =
      (Ret (20, message_of [1, 2], 0), q') \<and>
     in_step (\<lambda>_ _. True) (\<lambda>_ _. True) (snd (send_message toy_crypto [20, 1, 2] 0 toy_sender)) q' \<and> pending q' []"
proof -
  have "\<exists>q'. read_message toy_crypto toy_receiver =
      (Ret (byte_ord (hd [20, 1, 2]), message_of (tl [20, 1, 2]), sequence_number_out toy_sender), q') \<and>
     in_step (\<lambda>_ _. True) (\<lambda>_ _. True) (snd (send_message toy_crypto [20, 1, 2] 0 toy_sender)) q' \<and> pending q' []"
  proof (rule packet_roundtrip [where p = toy_sender and now = 0])
    have bs: "nat (block_size_out toy_sender) = 8" "nat (mac_size_out toy_sender) = 4" by code_simp+
    show "sound_crypto toy_crypto (\<lambda>_ _. True) (\<lambda>_ _. True) (nat (block_size_out toy_sender)) (nat (mac_size_out toy_sender))"
      unfolding bs by (rule toy_crypto_sound)
    show "in_step (\<lambda>_ _. True) (\<lambda>_ _. True) toy_sender toy_receiver" by code_simp
    show "mode_ok toy_sender" by code_simp
    show "send_message toy_crypto [20, 1, 2] 0 toy_sender = (Ret (), snd (send_message toy_crypto [20, 1, 2] 0 toy_sender))"
      by code_simp
    have "rx toy_receiver = map Recv [take 3 toy_wire, drop 3 toy_wire]" "remainder toy_receiver = []"
      by (simp_all add: toy_receiver_def set_inbound_cipher_def new_packetizer_def clear_rekey_if_both_def Let_def)
    moreover have "wire toy_sender = []" by code_simp
    moreover have "take 3 toy_wire \<noteq> []" "drop 3 toy_wire \<noteq> []" by code_simp+
    ultimately show "pending toy_receiver (drop (length (wire toy_sender))
        (wire (snd (send_message toy_crypto [20, 1, 2] 0 toy_sender))) @ [])"
      unfolding pends_def delivers_def
      by (intro exI [of _ toy_wire] conjI exI [of _ "[take 3 toy_wire, drop 3 toy_wire]"])
        (auto simp: toy_wire_def)
    show "\<not> handshake_timed_out toy_receiver" "\<not> need_rekey toy_receiver" by code_simp+
  qed
  moreover have "sequence_number_out toy_sender = 0" by code_simp
  ultimately show ?thesis by (simp add: byte_ord_def)
qed


end
