(* ===== verification/Packet_Safety.thy ===== *)
theory Packet_Safety
  imports Packet_Layer
begin

text \<open>
  Safety of the packet layer on every branch, errors included: no received byte is lost or
  invented by a read that returns or is interrupted for re-keying, a write puts a prefix of
  its argument on the wire, nothing is decrypted before its encrypt-then-mac tag was checked,
  and the re-keying limits cannot be passed unnoticed.
\<close>

section \<open>Bytes are conserved\<close>

text \<open>The bytes the socket will still deliver.\<close>

fun stream :: "recv_ev list \<Rightarrow> bytes" where
  "stream [] = []"
| "stream (Recv x # es) = x @ stream es"
| "stream (_ # es) = stream es"

definition keeps_bytes :: "bytes \<Rightarrow> bytes outcome \<Rightarrow> ('e, 'm, 'z) packetizer \<Rightarrow> bytes \<Rightarrow> bool" where
  "keeps_bytes out r p' bs \<longleftrightarrow>
     (case r of Ret x \<Rightarrow> x @ stream (rx p') = out @ bs
      | Exn NeedRekey \<Rightarrow> out = [] \<and> stream (rx p') = bs
      | _ \<Rightarrow> True)"

lemma read_loop_keeps:
  "read_loop p n out ck evs = (r, p') \<Longrightarrow> keeps_bytes out r p' (stream evs)"
proof (induction evs arbitrary: p n out)
  case Nil
  then show ?case by (auto simp: keeps_bytes_def split: if_splits)
next
  case (Cons e es)
  show ?case
  proof (cases "0 < n")
    case False
    then show ?thesis using Cons.prems by (auto simp: keeps_bytes_def)
  next
    case True
    show ?thesis
    proof (cases e)
      case (Recv x)
      show ?thesis
      proof (cases "\<not> handshake_timed_out p \<and> x \<noteq> [] \<and> int (length x) \<le> n")
        case all: True
        then have "read_loop p (n - int (length x)) (out @ x) ck es = (r, p')"
          using Cons.prems True Recv by simp
        from Cons.IH [OF this] show ?thesis
          using all by (auto simp: keeps_bytes_def Recv split: outcome.splits py_error.splits)
      next
        case False
        then show ?thesis using Cons.prems True Recv by (auto simp: keeps_bytes_def split: if_splits)
      qed
    qed (use Cons.prems True Cons.IH in \<open>auto simp: keeps_bytes_def split: if_splits\<close>)
  qed
qed

lemma read_loop_remainder: "read_loop p n out ck evs = (r, p') \<Longrightarrow> remainder p' = remainder p"
  by (induction p n out ck evs rule: read_loop.induct)
    (auto simp: read_timer_def pk_close_def trigger_rekey_def check_keepalive_def
      split: if_splits recv_ev.splits)

text \<open>Claim C4. Reading loses and invents nothing: when \<open>read_all\<close> returns, what it returned
  followed by what is still buffered or due from the socket is what was there before; when it
  gives way to a re-key, everything is still there.\<close>

theorem read_all_conserves:
  "case read_all n check_rekey p of
     (Ret x, p') \<Rightarrow> x @ remainder p' @ stream (rx p') = remainder p @ stream (rx p)
   | (Exn NeedRekey, p') \<Rightarrow> remainder p' @ stream (rx p') = remainder p @ stream (rx p)
   | _ \<Rightarrow> True"
proof -
  let ?m = "remainder p"
  define out where "out = (if ?m = [] then [] else slice_to ?m n)"
  define p1 where "p1 = (if ?m = [] then p else p\<lparr>remainder := slice_from ?m n\<rparr>)"
  define k where "k = n - int (length out)"
  have m: "out @ remainder p1 = ?m" by (simp add: out_def p1_def)
  have run: "read_all n check_rekey p = read_loop p1 k out check_rekey (rx p)"
    by (simp add: read_all_def out_def p1_def k_def Let_def)
  obtain r p' where r: "read_loop p1 k out check_rekey (rx p) = (r, p')"
    by (cases "read_loop p1 k out check_rekey (rx p)") auto
  note keep = read_loop_keeps [OF r] read_loop_remainder [OF r]
  show ?thesis
  proof (cases "0 < k")
    case True
    then have left: "remainder p1 = []"
      by (auto simp: k_def out_def p1_def slice_from_def slice_to_def py_bound_def split: if_splits)
    then show ?thesis using keep m unfolding run r
      by (auto simp: keeps_bytes_def split: outcome.splits py_error.splits)
  next
    case False
    then have "r = Ret out" using r by (cases "rx p") auto
    then show ?thesis using keep m unfolding run r by (auto simp: keeps_bytes_def)
  qed
qed

section \<open>Writes\<close>

lemma write_loop_prefix:
  "write_loop p out z es = (r, p') \<Longrightarrow>
     \<exists>k\<le>length out. wire p' = wire p @ take k out \<and> (r = Ret () \<longrightarrow> k = length out)"
proof (induction es arbitrary: p out z)
  case Nil
  then show ?case by (auto split: if_splits)
next
  case (Cons ev es)
  show ?case
  proof (cases "out \<noteq> [] \<and> (\<exists>n. ev = Sent n \<and> n < length out \<and> \<not> (n = 0 \<and> 10 < z))")
    case True
    then obtain n where n: "ev = Sent n" "n < length out" "\<not> (n = 0 \<and> 10 < z)" by blast
    then have "write_loop (p\<lparr>wire := wire p @ take n out\<rparr>) (drop n out) (Suc z) es = (r, p')"
      using Cons.prems True by (auto simp: Let_def min_def split: if_splits)
    from Cons.IH [OF this] obtain k where k: "k \<le> length out - n"
      "wire p' = (wire p @ take n out) @ take k (drop n out)" "r = Ret () \<longrightarrow> k = length out - n" by auto
    then show ?thesis using n(2) by (intro exI [of _ "n + k"]) (auto simp: take_add)
  next
    case False
    show ?thesis
    proof (cases ev)
      case (Sent n)
      then show ?thesis using Cons.prems False
        by (intro exI [of _ "min n (length out)"]) (auto simp: Let_def min_def split: if_splits)
    qed (use Cons.prems Cons.IH [of p out z] in \<open>auto split: if_splits\<close>)
  qed
qed

text \<open>Whatever the socket does, \<open>write_all\<close> puts a prefix of its argument on the
  wire, in order and without gaps, and it returns normally only when the prefix is everything.\<close>

theorem write_all_prefix:
  "\<exists>k\<le>length out. wire (snd (write_all out now p)) = wire p @ take k out \<and>
     (fst (write_all out now p) = Ret () \<longrightarrow> k = length out)"
  using write_loop_prefix [of "p\<lparr>keepalive_last := now\<rparr>" out 0 "tx p"]
  by (cases "write_all out now p") (auto simp: write_all_def)

theorem write_all_prefix_witness:
  "wire (snd (write_all [1, 2, 3] 0 (new_packetizer 0 [] [Sent 2, SendTimeout, Sent 5] ::
     (unit, unit, unit) packetizer))) = [1, 2, 3]"
  using write_all_prefix [of "[1, 2, 3]" 0 "new_packetizer 0 [] [Sent 2, SendTimeout, Sent 5] ::
     (unit, unit, unit) packetizer"]
  by (auto simp: new_packetizer_def write_all_def Let_def)

text \<open>A call that made progress eleven times is ended by the first zero return after that.\<close>

theorem zero_return_after_progress:
  assumes "tx p = replicate 11 (Sent 1) @ [Sent 0, Sent 100]" and "length out = 20"
  shows "fst (write_all out now p) = Exn EOFError"
proof -
  have "out \<noteq> []" using assms(2) by auto
  then show ?thesis using assms
    by (simp add: write_all_def numeral_eq_Suc Let_def min_def)
qed

section \<open>Re-keying limits\<close>

definition rekey_inv :: "('e, 'm, 'z) packetizer \<Rightarrow> bool" where
  "rekey_inv p \<longleftrightarrow> need_rekey p \<or>
     (sent_packets p < REKEY_PACKETS \<and> sent_bytes p < REKEY_BYTES \<and>
      received_packets p < REKEY_PACKETS \<and> received_bytes p < REKEY_BYTES)"

lemma read_loop_rekey_inv: "rekey_inv p \<Longrightarrow> rekey_inv (snd (read_loop p n out ck evs))"
  by (induction p n out ck evs rule: read_loop.induct)
    (auto simp: rekey_inv_def read_timer_def pk_close_def trigger_rekey_def check_keepalive_def
      split: recv_ev.splits)

lemma read_all_rekey_inv [preserves_intro]: "preserves rekey_inv (read_all n ck)"
  by (auto simp: preserves_def read_all_def Let_def intro!: read_loop_rekey_inv)
    (auto simp: rekey_inv_def)

lemma write_loop_frame: "\<exists>w t. snd (write_loop p out z es) = p\<lparr>wire := w, tx := t\<rparr>"
proof (induction p out z es rule: write_loop.induct)
  case (1 p out z)
  then show ?case by (cases p) auto
next
  case (2 p out z e es)
  show ?case
  proof (cases "out \<noteq> [] \<and> (\<exists>n. e = Sent n \<and> \<not> (min n (length out) = 0 \<and> 10 < z) \<and> min n (length out) \<noteq> length out)")
    case True
    then obtain n where n: "e = Sent n" "\<not> (min n (length out) = 0 \<and> 10 < z)" "min n (length out) \<noteq> length out"
      by blast
    with True "2.IH"(1) [OF _ n(1) refl refl n(2,3)] show ?thesis by (auto simp: Let_def)
  next
    case False
    then show ?thesis using "2.IH"(2,3) by (cases p; cases e) (auto simp: Let_def)
  qed
qed

lemma write_all_rekey_inv [preserves_intro]: "preserves rekey_inv (write_all out now)"
proof (unfold preserves_def, intro allI impI)
  fix p :: "('a, 'b, 'c) packetizer" assume inv: "rekey_inv p"
  obtain w t where "snd (write_all out now p) = p\<lparr>keepalive_last := now, wire := w, tx := t\<rparr>"
    using write_loop_frame [of "p\<lparr>keepalive_last := now\<rparr>" out 0 "tx p"] by (auto simp: write_all_def)
  with inv show "rekey_inv (snd (write_all out now p))" by (simp add: rekey_inv_def)
qed

lemma rekey_inv_other [simp]:
  "rekey_inv (p\<lparr>compress_engine_out := z\<rparr>) = rekey_inv p"
  "rekey_inv (p\<lparr>sequence_number_out := n\<rparr>) = rekey_inv p"
  by (simp_all add: rekey_inv_def)

lemmas rekey_fields =
  rekey_inv_def trigger_rekey_def

lemma protect_rekey_inv [preserves_intro]: "preserves rekey_inv (protect_packet cr pkt)"
  unfolding protect_packet_def
  by (auto simp: Let_def split: option.split prod.split
      intro!: preserves_intro preserves_modify simp: rekey_inv_def)

lemma count_sent_rekey: "rekey_inv p \<Longrightarrow> rekey_inv (count_sent n p)"
  by (auto simp: count_sent_def rekey_fields Let_def)

lemma send_message_rekey: "preserves rekey_inv (send_message cr data now)"
  unfolding send_message_def Let_def case_prod_beta
  by (auto split: option.split intro!: preserves_intro preserves_modify count_sent_rekey)

lemma check_mac_rekey [preserves_intro]: "preserves rekey_inv (check_mac cr n pkt mac)"
  unfolding check_mac_def Let_def
  by (auto split: option.split intro!: preserves_intro)

lemma decrypt_update_rekey [preserves_intro]: "preserves rekey_inv (decrypt_update cr x)"
  unfolding decrypt_update_def Let_def
  by (auto split: option.split prod.split intro!: preserves_intro preserves_modify simp: rekey_inv_def)

lemma etm_body_rekey [preserves_intro]: "preserves rekey_inv (etm_body cr header)"
  unfolding etm_body_def
  by (auto intro!: preserves_intro)

lemma read_branches_rekey [preserves_intro]:
  "preserves rekey_inv (read_etm cr header)"
  "preserves rekey_inv (read_aead cr header)"
  "preserves rekey_inv (read_classic cr header)"
  unfolding read_etm_def read_aead_def case_prod_beta read_classic_def Let_def
  by (auto split: option.split intro!: preserves_intro preserves_modify simp: rekey_inv_def)

lemma count_received_rekey [preserves_intro]: "preserves rekey_inv (count_received n)"
  by (auto simp: preserves_def count_received_def seqp_def rekey_fields split: if_splits)

lemma read_message_rekey: "preserves rekey_inv (read_message cr)"
  unfolding read_message_def Let_def case_prod_beta
  by (auto split: option.split intro!: preserves_intro preserves_modify simp: rekey_inv_def)

text \<open>Claim C5. Neither direction can pass the re-keying limits unnoticed: as long as all
  traffic goes through \<open>send_message\<close> and \<open>read_message\<close>, whatever their outcome, either a
  re-key has been asked for or every packet and byte counter is below its limit.\<close>

theorem rekey_limits_enforced:
  "preserves rekey_inv (send_message cr data now) \<and> preserves rekey_inv (read_message cr)"
  by (simp add: send_message_rekey read_message_rekey)

text \<open>New keys for one direction, as the transport installs them.\<close>

datatype ('e, 'm) new_keys =
    NewOut "'e option" int "'m option" int bytes bool bool bool bytes
  | NewIn "'e option" int "'m option" int bytes bool bool bytes

fun install :: "('e, 'm) new_keys \<Rightarrow> ('e, 'm, 'z) packetizer \<Rightarrow> ('e, 'm, 'z) packetizer" where
  "install (NewOut e b m n k s etm aead iv) p = set_outbound_cipher p e b m n k s etm aead iv"
| "install (NewIn e b m n k etm aead iv) p = set_inbound_cipher p e b m n k etm aead iv"

fun is_out :: "('e, 'm) new_keys \<Rightarrow> bool" where
  "is_out (NewOut _ _ _ _ _ _ _ _ _) = True"
| "is_out (NewIn _ _ _ _ _ _ _ _) = False"

lemma or_1_3 [simp]: "(1::int) OR 1 = 1" "(1::int) OR 2 = 3" "(2::int) OR 1 = 3" "(2::int) OR 2 = 2"
  "(0::int) OR 1 = 1" "(0::int) OR 2 = 2"
  by simp_all

definition key_bit :: "bool \<Rightarrow> int" where
  "key_bit out = (if out then 1 else 2)"

lemma install_same:
  assumes "init_count p = 0 \<or> init_count p = key_bit (is_out k)" and "need_rekey p"
  shows "init_count (install k p) = key_bit (is_out k) \<and> need_rekey (install k p)"
  using assms
  by (cases k) (auto simp: set_outbound_cipher_def set_inbound_cipher_def clear_rekey_if_both_def
      key_bit_def Let_def)

lemma install_other:
  assumes "init_count p = key_bit (\<not> is_out k)"
  shows "init_count (install k p) = 0 \<and> \<not> need_rekey (install k p)"
  using assms
  by (cases k) (auto simp: set_outbound_cipher_def set_inbound_cipher_def clear_rekey_if_both_def
      key_bit_def Let_def)

lemma install_run:
  "\<forall>k\<in>set ks. is_out k = b \<Longrightarrow> ks \<noteq> [] \<Longrightarrow> init_count p = 0 \<or> init_count p = key_bit b \<Longrightarrow>
     need_rekey p \<Longrightarrow> init_count (fold install ks p) = key_bit b \<and> need_rekey (fold install ks p)"
proof (induction ks arbitrary: p)
  case (Cons k ks)
  then have "init_count (install k p) = key_bit b \<and> need_rekey (install k p)"
    using install_same [of p k] by auto
  with Cons show ?case by (cases "ks = []") auto
qed simp

text \<open>A pending re-key request is dropped only once both directions have new keys:
  it survives any number of settings of one direction, and the first setting of the other one
  clears it and starts the count afresh.\<close>

theorem rekey_cleared_by_both:
  assumes "need_rekey p" and "init_count p = 0" and "ks \<noteq> []"
    and "\<forall>k\<in>set ks. is_out k = b" and "is_out l = (\<not> b)"
  shows "need_rekey (fold install ks p) \<and> \<not> need_rekey (install l (fold install ks p)) \<and>
    init_count (install l (fold install ks p)) = 0"
  using install_run [OF assms(4,3) _ assms(1)] install_other [of "fold install ks p" l] assms(2,5) by simp

definition idle_peer :: "(unit, unit, unit) packetizer" where
  "idle_peer = trigger_rekey (new_packetizer 0 [] [])"

theorem rekey_cleared_by_both_witness:
  "need_rekey (install (NewOut None 8 None 0 [] False False False []) idle_peer) \<and>
   \<not> need_rekey (install (NewIn None 8 None 0 [] False False [])
      (install (NewOut None 8 None 0 [] False False False []) idle_peer))"
  using rekey_cleared_by_both [of idle_peer "[NewOut None 8 None 0 [] False False False []]" True
      "NewIn None 8 None 0 [] False False []"]
  by (simp add: idle_peer_def trigger_rekey_def new_packetizer_def)

section \<open>Encrypt-then-mac\<close>

lemma read_loop_engine: "block_engine_in (snd (read_loop p n out ck evs)) = block_engine_in p"
  by (induction p n out ck evs rule: read_loop.induct)
    (auto simp: read_timer_def pk_close_def trigger_rekey_def check_keepalive_def
      split: recv_ev.splits)

lemma read_all_engine: "block_engine_in (snd (read_all n ck p)) = block_engine_in p"
  by (simp add: read_all_def Let_def read_loop_engine)

lemma check_mac_Ret:
  "check_mac cr n pkt mac p = (Ret u, p') \<Longrightarrow>
     p' = p \<and> (\<exists>m s l. mac_engine_in p = Some m \<and> pack_I (sequence_number_in p) = Inr s \<and> pack_I n = Inr l \<and>
       mac = slice_to (cr_hmac cr m (mac_key_in p) (s @ l @ pkt)) (mac_size_in p))"
  by (auto simp: check_mac_def seqp_Ret liftr_Ret Let_def constant_time_eq split: option.splits if_splits)

lemma check_mac_state: "snd (check_mac cr n pkt mac p) = p"
  by (auto simp: check_mac_def seqp_def liftr_def Let_def split: option.splits sum.splits)

lemma read_all_engineD: "read_all n ck p = (r, p') \<Longrightarrow> block_engine_in p' = block_engine_in p"
  using read_all_engine [of n ck p] by simp

lemma check_mac_stateD: "check_mac cr n pkt mac p = (r, p') \<Longrightarrow> p' = p"
  using check_mac_state [of cr n pkt mac p] by simp

lemma decrypt_update_returns: "\<exists>y q. decrypt_update cr x p = (Ret y, q)"
  by (auto simp: decrypt_update_def split: option.splits prod.splits)

lemma read_etm_fail:
  assumes "read_etm cr header p = (r, p')" and "\<And>x. r \<noteq> Ret x"
  shows "block_engine_in p' = block_engine_in p"
proof (cases "unpack_I (take 4 header)")
  case (Inl e)
  then show ?thesis using assms by (simp add: read_etm_def etm_body_def seqp_assoc)
next
  case (Inr n)
  obtain r1 p1 where r1: "read_all (n - block_size_in p + 4) False p = (r1, p1)" by (cases "read_all (n - block_size_in p + 4) False p")
  obtain r2 p2 where r2: "read_all (mac_size_in p) False p1 = (r2, p2)" by (cases "read_all (mac_size_in p) False p1")
  note eng = read_all_engineD [OF r1] read_all_engineD [OF r2]
  show ?thesis
  proof (cases r1)
    case (Ret rest)
    note r1' = r1 [unfolded Ret]
    show ?thesis
    proof (cases r2)
      case (Ret mac)
      obtain r3 p3 where r3: "check_mac cr n (drop 4 header @ rest) mac p2 = (r3, p3)"
        by (cases "check_mac cr n (drop 4 header @ rest) mac p2")
      with check_mac_stateD [OF this] have r3': "check_mac cr n (drop 4 header @ rest) mac p2 = (r3, p2)" by simp
      obtain y q where d: "decrypt_update cr (drop 4 header @ rest) p2 = (Ret y, q)"
        using decrypt_update_returns by blast
      show ?thesis using assms eng Inr r1' r2 [unfolded Ret] r3' d
        by (cases r3) (auto simp: read_etm_def etm_body_def seqp_def)
    qed (use assms eng Inr r1' r2 in \<open>auto simp: read_etm_def etm_body_def seqp_def\<close>)
  qed (use assms eng Inr r1 in \<open>auto simp: read_etm_def etm_body_def seqp_def\<close>)
qed

text \<open>Claim C3. In encrypt-then-mac mode a packet is accepted only if its tag is the MAC of
  the receiver's sequence number, the length and the ciphertext, and the decryptor is not
  touched before that: every failure leaves it as it was.\<close>

theorem etm_checks_before_decrypting:
  "case read_etm cr header p of
     (Ret (n, pkt), p') \<Rightarrow>
       (\<exists>rest mac p1 p2 m s l.
          read_all (n - block_size_in p + 4) False p = (Ret rest, p1) \<and>
          read_all (mac_size_in p) False p1 = (Ret mac, p2) \<and>
          mac_engine_in p2 = Some m \<and> pack_I (sequence_number_in p2) = Inr s \<and> pack_I n = Inr l \<and>
          mac = slice_to (cr_hmac cr m (mac_key_in p2) (s @ l @ drop 4 header @ rest)) (mac_size_in p2))
   | (_, p') \<Rightarrow> block_engine_in p' = block_engine_in p"
proof (cases "read_etm cr header p")
  case (Pair r p')
  show ?thesis
  proof (cases r)
    case (Ret x)
    obtain n pkt where x: "x = (n, pkt)" by (cases x)
    from Pair Ret x obtain rest p1 mac p2 p3 u where
      r1: "read_all (n - block_size_in p + 4) False p = (Ret rest, p1)"
      and r2: "read_all (mac_size_in p) False p1 = (Ret mac, p2)"
      and c: "check_mac cr n (drop 4 header @ rest) mac p2 = (Ret u, p3)"
      by (auto simp: read_etm_def etm_body_def seqp_Ret liftr_Ret)
    from check_mac_Ret [OF c] r1 r2 show ?thesis by (simp add: Pair Ret x)
  qed (use read_etm_fail [OF Pair] in \<open>auto simp: Pair\<close>)
qed

end
