(* ===== verification/Buffered_Pipe.thy ===== *)
theory Buffered_Pipe
  imports Common_Util
begin

text \<open>
  \<open>paramiko/buffered_pipe.py\<close> and \<open>paramiko/pipe.py\<close>. A \<open>BufferedPipe\<close> is a monitor:
  every method runs under its lock, so a concurrent history is a sequence of operations,
  and a blocked \<open>read\<close> is a loop over the wake-ups of its condition variable, each with the
  operations other threads completed in between. An attached event object receives the
  \<open>set\<close> and \<open>clear\<close> calls the methods make; \<open>OrPipe\<close> and \<open>PosixPipe\<close> are such objects.
\<close>

section \<open>The buffer\<close>

record bpipe =
  buf :: bytes
  bclosed :: bool
  has_event :: bool

datatype ev_call = EvSet | EvClear

definition new_bpipe :: bpipe where
  "new_bpipe = \<lparr>buf = [], bclosed = False, has_event = False\<rparr>"

definition ev :: "bpipe \<Rightarrow> ev_call \<Rightarrow> ev_call list" where
  "ev p c = (if has_event p then [c] else [])"

definition set_event :: "bpipe \<Rightarrow> bpipe \<times> ev_call list" where
  "set_event p =
     (let p' = p\<lparr>has_event := True\<rparr>
      in (p', if bclosed p' \<or> 0 < length (buf p') then [EvSet] else [EvClear]))"

text \<open>\<open>feed\<close> sets the event first; a wrongly typed argument then raises.\<close>

definition feed :: "bpipe \<Rightarrow> py_obj \<Rightarrow> unit res \<times> bpipe \<times> ev_call list" where
  "feed p data =
     (case b_cast data of
        Inl e \<Rightarrow> (Inl e, p, ev p EvSet)
      | Inr d \<Rightarrow> (Inr (), p\<lparr>buf := buf p @ d\<rparr>, ev p EvSet))"

definition read_ready :: "bpipe \<Rightarrow> bool" where
  "read_ready p = (if length (buf p) = 0 then False else True)"

text \<open>The end of \<open>read\<close>, once there is data or the pipe is closed.\<close>

definition take_data :: "bpipe \<Rightarrow> int \<Rightarrow> bytes \<times> bpipe \<times> ev_call list" where
  "take_data p nbytes =
     (if int (length (buf p)) \<le> nbytes
      then (buf p, p\<lparr>buf := []\<rparr>, if \<not> bclosed p then ev p EvClear else [])
      else (slice_to (buf p) nbytes, p\<lparr>buf := slice_from (buf p) nbytes\<rparr>, []))"

definition empty :: "bpipe \<Rightarrow> bytes \<times> bpipe \<times> ev_call list" where
  "empty p = (buf p, p\<lparr>buf := []\<rparr>, if \<not> bclosed p then ev p EvClear else [])"

definition close :: "bpipe \<Rightarrow> bpipe \<times> ev_call list" where
  "close p = (p\<lparr>bclosed := True\<rparr>, ev p EvSet)"

definition bpipe_len :: "bpipe \<Rightarrow> nat" where
  "bpipe_len p = length (buf p)"

section \<open>Histories of operations\<close>

text \<open>
  \<open>Take n\<close> is a \<open>read(n)\<close> that does not have to wait: with an empty buffer it only
  happens on a closed pipe, where it returns the empty string.
\<close>

datatype bp_op = Feed bytes | Take int | Empty | Close | SetEvent

fun bp_step :: "bpipe \<Rightarrow> bp_op \<Rightarrow> bytes \<times> bpipe \<times> ev_call list" where
  "bp_step p (Feed d) = (let (r, p', e) = feed p (PBytes d) in ([], p', e))"
| "bp_step p (Take n) = (if buf p = [] then ([], p, []) else take_data p n)"
| "bp_step p Empty = empty p"
| "bp_step p Close = (let (p', e) = close p in ([], p', e))"
| "bp_step p SetEvent = (let (p', e) = set_event p in ([], p', e))"

fun bp_run :: "bpipe \<Rightarrow> bp_op list \<Rightarrow> bytes \<times> bpipe \<times> ev_call list" where
  "bp_run p [] = ([], p, [])"
| "bp_run p (x # xs) =
     (let (d, p', e) = bp_step p x; (ds, p'', es) = bp_run p' xs in (d @ ds, p'', e @ es))"

fun fed :: "bp_op list \<Rightarrow> bytes" where
  "fed [] = []"
| "fed (Feed d # xs) = d @ fed xs"
| "fed (_ # xs) = fed xs"

text \<open>
  \<open>read(nbytes, timeout)\<close>: each wake-up is the operations of the other threads while the
  reader waited and the time it waited. The outcome is \<open>None\<close> while the reader still waits.
\<close>

fun read_wait ::
  "bpipe \<Rightarrow> int \<Rightarrow> int option \<Rightarrow> (bp_op list \<times> int) list \<Rightarrow>
     bytes res option \<times> bpipe \<times> ev_call list" where
  "read_wait p nbytes timeout [] =
     (if buf p = [] \<and> \<not> bclosed p then (None, p, [])
      else (let (d, p', e) = take_data p nbytes in (Some (Inr d), p', e)))"
| "read_wait p nbytes timeout ((ops, dt) # ws) =
     (if buf p = [] \<and> \<not> bclosed p
      then (let (_, p', e) = bp_run p ops
            in case timeout of
                 None \<Rightarrow> (let (r, p'', e') = read_wait p' nbytes None ws in (r, p'', e @ e'))
               | Some t \<Rightarrow>
                   if t - dt \<le> 0 then (Some (Inl PipeTimeout), p', e)
                   else (let (r, p'', e') = read_wait p' nbytes (Some (t - dt)) ws in (r, p'', e @ e')))
      else (let (d, p', e) = take_data p nbytes in (Some (Inr d), p', e)))"

definition read ::
  "bpipe \<Rightarrow> int \<Rightarrow> int option \<Rightarrow> (bp_op list \<times> int) list \<Rightarrow>
     bytes res option \<times> bpipe \<times> ev_call list" where
  "read p nbytes timeout ws =
     (if length (buf p) = 0
      then if bclosed p then (Some (Inr []), p, [])
           else if timeout = Some 0 then (Some (Inl PipeTimeout), p, [])
           else read_wait p nbytes timeout ws
      else (let (d, p', e) = take_data p nbytes in (Some (Inr d), p', e)))"

section \<open>The contract of a byte feeder\<close>

text \<open>What a channel relies on: bytes come out in the order they went in, none lost.\<close>

locale byte_feeder =
  fixes put :: "'s \<Rightarrow> bytes \<Rightarrow> 's"
    and grab :: "'s \<Rightarrow> int \<Rightarrow> bytes \<times> 's"
    and contents :: "'s \<Rightarrow> bytes"
  assumes put_contents: "contents (put s d) = contents s @ d"
    and grab_contents: "grab s n = (d, s') \<Longrightarrow> d @ contents s' = contents s"
    and grab_some: "0 < n \<Longrightarrow> contents s \<noteq> [] \<Longrightarrow> fst (grab s n) \<noteq> []"
    and grab_limit: "0 \<le> n \<Longrightarrow> int (length (fst (grab s n))) \<le> n"
begin

text \<open>A history alternates puts (\<open>Inl\<close>) and grabs (\<open>Inr\<close>).\<close>

fun history :: "'s \<Rightarrow> (bytes + int) list \<Rightarrow> bytes \<times> 's" where
  "history s [] = ([], s)"
| "history s (Inl d # xs) = history (put s d) xs"
| "history s (Inr n # xs) = (let (d, s') = grab s n; (ds, s'') = history s' xs in (d @ ds, s''))"

fun history_in :: "(bytes + int) list \<Rightarrow> bytes" where
  "history_in [] = []"
| "history_in (Inl d # xs) = d @ history_in xs"
| "history_in (Inr n # xs) = history_in xs"

lemma history_fifo:
  "history s xs = (out, s') \<Longrightarrow> out @ contents s' = contents s @ history_in xs"
proof (induction xs arbitrary: s out s' rule: history_in.induct)
  case (3 n xs)
  obtain d t where g: "grab s n = (d, t)" by fastforce
  obtain ds u where h: "history t xs = (ds, u)" by fastforce
  with 3 g have "ds @ contents u = contents t @ history_in xs" by blast
  with grab_contents [OF g] 3(2) g h show ?case by auto
qed (auto simp: put_contents)

lemma drain_history:
  assumes "contents s = []" and "history s xs = (out, s')" and "contents s' = []"
  shows "out = history_in xs"
  using history_fifo [OF assms(2)] assms(1,3) by simp

end

definition bp_put :: "bpipe \<Rightarrow> bytes \<Rightarrow> bpipe" where
  "bp_put p d = fst (snd (feed p (PBytes d)))"

definition bp_grab :: "bpipe \<Rightarrow> int \<Rightarrow> bytes \<times> bpipe" where
  "bp_grab p n = (let (d, p', e) = take_data p n in (d, p'))"

interpretation bp: byte_feeder bp_put bp_grab buf
proof unfold_locales
  fix s :: bpipe and d
  show "buf (bp_put s d) = buf s @ d" by (simp add: bp_put_def feed_def)
next
  fix s :: bpipe and n d s'
  assume "bp_grab s n = (d, s')"
  then show "d @ buf s' = buf s" by (auto simp: bp_grab_def take_data_def split: if_splits)
next
  fix n :: int and s :: bpipe
  assume "0 < n" and "buf s \<noteq> []"
  then show "fst (bp_grab s n) \<noteq> []"
    by (auto simp: bp_grab_def take_data_def slice_to_nonneg)
next
  fix n :: int and s :: bpipe
  assume "0 \<le> n"
  then show "int (length (fst (bp_grab s n))) \<le> n"
    by (auto simp: bp_grab_def take_data_def slice_to_nonneg)
qed

section \<open>Stream and event invariants\<close>

lemma take_data_stream: "take_data p n = (d, p', e) \<Longrightarrow> d @ buf p' = buf p"
  using bp.grab_contents [of p n d p'] by (simp add: bp_grab_def)

lemma bp_step_stream:
  "bp_step p x = (d, p', e) \<Longrightarrow> d @ buf p' = buf p @ (case x of Feed f \<Rightarrow> f | _ \<Rightarrow> [])"
  by (cases x) (auto simp: feed_def empty_def close_def set_event_def Let_def
      dest: take_data_stream split: if_splits)

lemma bp_run_stream: "bp_run p xs = (d, p', e) \<Longrightarrow> d @ buf p' = buf p @ fed xs"
proof (induction xs arbitrary: p d p' e)
  case (Cons x xs)
  obtain a q f where s: "bp_step p x = (a, q, f)" by (cases "bp_step p x") auto
  obtain b r g where r: "bp_run q xs = (b, r, g)" by (cases "bp_run q xs") auto
  from Cons.prems s r have "d = a @ b" "p' = r" by auto
  have "a @ (b @ buf r) = (a @ buf q) @ fed xs" using Cons.IH [OF r] by simp
  then show ?case
    unfolding \<open>d = a @ b\<close> \<open>p' = r\<close> bp_step_stream [OF s] by (cases x) simp_all
qed simp

text \<open>The flag of an attached event after the calls made to it.\<close>

fun ev_flag :: "bool \<Rightarrow> ev_call list \<Rightarrow> bool" where
  "ev_flag b [] = b"
| "ev_flag b (EvSet # cs) = ev_flag True cs"
| "ev_flag b (EvClear # cs) = ev_flag False cs"

lemma ev_flag_append [simp]: "ev_flag b (xs @ ys) = ev_flag (ev_flag b xs) ys"
  by (induction b xs rule: ev_flag.induct) auto

definition ev_inv :: "bpipe \<Rightarrow> bool \<Rightarrow> bool" where
  "ev_inv p flag \<longleftrightarrow> (has_event p \<longrightarrow> bclosed p \<or> buf p \<noteq> [] \<longrightarrow> flag)"

definition ev_exact :: "bpipe \<Rightarrow> bool \<Rightarrow> bool" where
  "ev_exact p flag \<longleftrightarrow> (has_event p \<longrightarrow> flag \<longleftrightarrow> bclosed p \<or> buf p \<noteq> [])"

lemmas bp_defs = feed_def empty_def close_def set_event_def take_data_def ev_def Let_def

lemma bp_step_ev_inv: "bp_step p x = (d, p', e) \<Longrightarrow> ev_inv p b \<Longrightarrow> ev_inv p' (ev_flag b e)"
  by (cases x) (auto simp: bp_defs ev_inv_def slice_from_def split: if_splits)

lemma slice_from_empty: "slice_from xs n = [] \<Longrightarrow> n < int (length xs) \<Longrightarrow> xs = []"
  by (cases "0 \<le> int (length xs) + n") (auto simp: slice_from_def py_bound_def split: if_splits)

lemma bp_step_ev_exact:
  "bp_step p x = (d, p', e) \<Longrightarrow> x \<noteq> Feed [] \<Longrightarrow> ev_exact p b \<Longrightarrow> ev_exact p' (ev_flag b e)"
  by (cases x) (auto simp: bp_defs ev_exact_def dest!: slice_from_empty split: if_splits)

lemma bp_run_Cons:
  "bp_run p (x # xs) = (d, p', e) \<longleftrightarrow>
     (\<exists>a q f c g. bp_step p x = (a, q, f) \<and> bp_run q xs = (c, p', g) \<and> d = a @ c \<and> e = f @ g)"
  by (cases "bp_step p x"; cases "bp_run (fst (snd (bp_step p x))) xs") auto

lemma bp_run_ev_inv: "bp_run p xs = (d, p', e) \<Longrightarrow> ev_inv p b \<Longrightarrow> ev_inv p' (ev_flag b e)"
  by (induction xs arbitrary: p d e b)
    (simp, fastforce simp: bp_run_Cons simp del: bp_run.simps dest: bp_step_ev_inv)

lemma bp_run_ev_exact:
  "bp_run p xs = (d, p', e) \<Longrightarrow> Feed [] \<notin> set xs \<Longrightarrow> ev_exact p b \<Longrightarrow> ev_exact p' (ev_flag b e)"
  by (induction xs arbitrary: p d e b)
    (simp, fastforce simp: bp_run_Cons simp del: bp_run.simps dest: bp_step_ev_exact)

section \<open>PosixPipe and OrPipe\<close>

text \<open>
  \<open>os_bytes\<close> is what the kernel pipe holds. Reading from an empty one blocks for good
  (outer \<open>None\<close>); reading from a closed descriptor raises.
\<close>

record posix_pipe =
  pset :: bool
  forever :: bool
  pclosed :: bool
  os_bytes :: nat

definition new_posix :: posix_pipe where
  "new_posix = \<lparr>pset = False, forever = False, pclosed = False, os_bytes = 0\<rparr>"

definition posix_close :: "posix_pipe \<Rightarrow> posix_pipe" where
  "posix_close p = p\<lparr>pclosed := True\<rparr>"

definition posix_clear :: "posix_pipe \<Rightarrow> posix_pipe res option" where
  "posix_clear p =
     (if \<not> pset p \<or> forever p then Some (Inr p)
      else if pclosed p then Some (Inl (IOError ''Bad file descriptor''))
      else case os_bytes p of 0 \<Rightarrow> None
           | Suc n \<Rightarrow> Some (Inr (p\<lparr>os_bytes := n, pset := False\<rparr>)))"

definition posix_set :: "posix_pipe \<Rightarrow> posix_pipe" where
  "posix_set p =
     (if pset p \<or> pclosed p then p else p\<lparr>pset := True, os_bytes := Suc (os_bytes p)\<rparr>)"

definition set_forever :: "posix_pipe \<Rightarrow> posix_pipe" where
  "set_forever p = posix_set (p\<lparr>forever := True\<rparr>)"

record or_pipe =
  or1 :: bool
  or2 :: bool
  real_pipe :: posix_pipe

definition make_or_pipe :: "posix_pipe \<Rightarrow> or_pipe" where
  "make_or_pipe p = \<lparr>or1 = False, or2 = False, real_pipe = p\<rparr>"

text \<open>\<open>first\<close> says which of the two partners the call is made on.\<close>

definition or_set :: "bool \<Rightarrow> or_pipe \<Rightarrow> or_pipe" where
  "or_set first s =
     (let s' = (if first then s\<lparr>or1 := True\<rparr> else s\<lparr>or2 := True\<rparr>);
          partner = (if first then or2 s else or1 s)
      in if \<not> partner then s'\<lparr>real_pipe := posix_set (real_pipe s')\<rparr> else s')"

definition or_clear :: "bool \<Rightarrow> or_pipe \<Rightarrow> or_pipe res option" where
  "or_clear first s =
     (let s' = (if first then s\<lparr>or1 := False\<rparr> else s\<lparr>or2 := False\<rparr>);
          partner = (if first then or2 s else or1 s)
      in if \<not> partner
         then map_option (\<lambda>r. bind_res r (\<lambda>p. Inr (s'\<lparr>real_pipe := p\<rparr>))) (posix_clear (real_pipe s'))
         else Some (Inr s'))"

definition or_call :: "bool \<times> ev_call \<Rightarrow> or_pipe \<Rightarrow> or_pipe res option" where
  "or_call c s = (case c of (first, EvSet) \<Rightarrow> Some (Inr (or_set first s))
                          | (first, EvClear) \<Rightarrow> or_clear first s)"

fun or_run :: "(bool \<times> ev_call) list \<Rightarrow> or_pipe \<Rightarrow> or_pipe res option" where
  "or_run [] s = Some (Inr s)"
| "or_run (c # cs) s =
     (case or_call c s of None \<Rightarrow> None | Some (Inl e) \<Rightarrow> Some (Inl e) | Some (Inr s') \<Rightarrow> or_run cs s')"

definition or_inv :: "or_pipe \<Rightarrow> bool" where
  "or_inv s \<longleftrightarrow>
     (let p = real_pipe s
      in \<not> pclosed p \<and> \<not> forever p \<and> pset p = (or1 s \<or> or2 s) \<and>
         os_bytes p = (if pset p then 1 else 0))"

lemma or_call_inv: "or_inv s \<Longrightarrow> \<exists>s'. or_call c s = Some (Inr s') \<and> or_inv s' \<and>
    or1 s' = (if fst c then snd c = EvSet else or1 s) \<and> or2 s' = (if fst c then or2 s else snd c = EvSet)"
  by (cases c; cases "snd c")
    (auto simp: or_inv_def or_call_def or_set_def or_clear_def posix_set_def posix_clear_def Let_def)

fun side_flag :: "bool \<Rightarrow> bool \<Rightarrow> (bool \<times> ev_call) list \<Rightarrow> bool" where
  "side_flag which b [] = b"
| "side_flag which b ((first, c) # cs) = side_flag which (if first = which then c = EvSet else b) cs"

lemma or_run_inv:
  "or_inv s \<Longrightarrow> \<exists>s'. or_run cs s = Some (Inr s') \<and> or_inv s' \<and>
     or1 s' = side_flag True (or1 s) cs \<and> or2 s' = side_flag False (or2 s) cs"
proof (induction cs arbitrary: s)
  case (Cons c cs)
  obtain s1 where s1: "or_call c s = Some (Inr s1)" "or_inv s1"
    "or1 s1 = (if fst c then snd c = EvSet else or1 s)" "or2 s1 = (if fst c then or2 s else snd c = EvSet)"
    using or_call_inv [OF Cons.prems, of c] by blast
  with Cons.IH [OF s1(2)] show ?case by (cases c) auto
qed auto

section \<open>Properties\<close>

text \<open>Claim C6. Whatever threads do to a fresh pipe, the bytes returned so far followed by the
  bytes still buffered are exactly the bytes fed, in order: nothing is lost, duplicated or
  reordered.\<close>

theorem pipe_stream_integrity:
  "fst (bp_run new_bpipe ops) @ buf (fst (snd (bp_run new_bpipe ops))) = fed ops"
  by (cases "bp_run new_bpipe ops") (auto dest: bp_run_stream simp: new_bpipe_def)

text \<open>Claim C7. The attached event is set whenever a reader could make progress (data is
  buffered or the pipe is closed), after any history; and if no empty string is ever fed it is
  set only then.\<close>

theorem pipe_event_tracks_readiness:
  "bp_run new_bpipe ops = (d, p, e) \<Longrightarrow> has_event p \<Longrightarrow>
     (bclosed p \<or> buf p \<noteq> [] \<longrightarrow> ev_flag False e) \<and>
     (Feed [] \<notin> set ops \<longrightarrow> ev_flag False e \<longrightarrow> bclosed p \<or> buf p \<noteq> [])"
  using bp_run_ev_inv [of new_bpipe ops d p e False] bp_run_ev_exact [of new_bpipe ops d p e False]
  by (auto simp: ev_inv_def ev_exact_def new_bpipe_def)

lemma pipe_event_example:
  "bp_run new_bpipe [SetEvent, Feed [1, 2], Take 5, Feed [3]] =
     ([1, 2], \<lparr>buf = [3], bclosed = False, has_event = True\<rparr>, [EvClear, EvSet, EvClear, EvSet])"
  by (simp add: bp_defs new_bpipe_def)

theorem pipe_event_tracks_readiness_witness:
  "ev_flag False [EvClear, EvSet, EvClear, EvSet]"
  using pipe_event_tracks_readiness [OF pipe_event_example] by simp

lemma read_wait_returns:
  "0 < t \<Longrightarrow> t \<le> sum_list (map snd ws) \<Longrightarrow> fst (read_wait p n (Some t) ws) \<noteq> None"
proof (induction ws arbitrary: p t)
  case (Cons w ws)
  obtain ops dt where w: "w = (ops, dt)" by fastforce
  show ?case
  proof (cases "t - dt \<le> 0")
    case False
    with Cons.prems w have "fst (read_wait q n (Some (t - dt)) ws) \<noteq> None" for q
      by (intro Cons.IH) auto
    then show ?thesis using w by (auto simp: split_beta Let_def)
  qed (use w in \<open>auto simp: split_beta Let_def\<close>)
qed simp

text \<open>A blocking read with a positive timeout returns once the time it has spent
  waiting reaches the timeout, whatever the other threads do.\<close>

theorem read_timeout_returns:
  assumes "0 < t" and "t \<le> sum_list (map snd ws)"
  shows "fst (read p n (Some t) ws) \<noteq> None"
  using read_wait_returns [OF assms, of p n] by (auto simp: read_def split_beta Let_def)

theorem read_timeout_returns_witness:
  "fst (read new_bpipe 10 (Some 5) [([], 3), ([Feed [1], Take 1], 2)]) \<noteq> None"
  by (rule read_timeout_returns) simp_all

text \<open>Two or-ed pipe ends never block and never fail on an open pipe, and the
  descriptor handed to \<open>select\<close> is readable (it holds exactly one byte) if and only if at
  least one of the ends is set.\<close>

theorem or_pipe_readable_iff:
  "\<exists>s. or_run cs (make_or_pipe new_posix) = Some (Inr s) \<and>
     os_bytes (real_pipe s) = (if side_flag True False cs \<or> side_flag False False cs then 1 else 0)"
proof -
  have "or_inv (make_or_pipe new_posix)"
    by (simp add: or_inv_def make_or_pipe_def new_posix_def)
  from or_run_inv [OF this, of cs] show ?thesis
    by (auto simp: or_inv_def make_or_pipe_def Let_def)
qed

end
