(* ===== verification/Channel_Core.thy ===== *)
theory Channel_Core
  imports Buffered_Pipe SSH_Message
begin

text \<open>
  \<open>paramiko/channel.py\<close>. A \<open>Channel\<close> is a monitor over the record below. A method is a
  state transformer; the points where it waits (for data, for send window, for an answer of
  the server) take the list of wake-ups, each with what the other threads did to the channel
  meanwhile, so a theorem about every list holds for every schedule. The messages handed to
  the transport are recorded in order, as their typed fields.
\<close>

section \<open>State\<close>

record channel =
  chanid :: int
  remote_chanid :: int
  has_transport :: bool
  ch_active :: bool
  eof_received :: bool
  eof_sent :: bool
  in_buffer :: bpipe
  in_stderr_buffer :: bpipe
  ch_timeout :: "int option"
  ch_closed :: bool
  in_window_size :: int
  out_window_size :: int
  in_max_packet_size :: int
  out_max_packet_size :: int
  in_window_threshold :: int
  in_window_sofar :: int
  status_event :: bool
  ch_name :: pystr
  ch_pipe :: or_pipe
  pipe_open :: bool
  ch_event :: bool
  event_ready :: bool
  combine_stderr :: bool
  exit_status :: int
  outbox :: "field list list"
  linked :: bool
  saved_exception :: "py_error option"
  x11_handler_set :: bool
  agent_handler_set :: bool

text \<open>\<open>outbox\<close>, \<open>linked\<close>, \<open>saved_exception\<close> and the handlers are the transport's side.\<close>

definition new_channel :: "int \<Rightarrow> pystr \<Rightarrow> channel" where
  "new_channel cid nm =
     \<lparr>chanid = cid, remote_chanid = 0, has_transport = False, ch_active = False,
      eof_received = False, eof_sent = False, in_buffer = new_bpipe, in_stderr_buffer = new_bpipe,
      ch_timeout = None, ch_closed = False, in_window_size = 0, out_window_size = 0,
      in_max_packet_size = 0, out_max_packet_size = 0, in_window_threshold = 0,
      in_window_sofar = 0, status_event = False, ch_name = nm, ch_pipe = make_or_pipe new_posix,
      pipe_open = False, ch_event = False, event_ready = False, combine_stderr = False,
      exit_status = -1, outbox = [], linked = False, saved_exception = None,
      x11_handler_set = False, agent_handler_set = False\<rparr>"

section \<open>Messages to the transport\<close>

definition compose :: "field list \<Rightarrow> message res" where
  "compose fs = add_seq add_field new_message fs"

text \<open>Building a message may raise; handing it over needs a transport.\<close>

definition build :: "field list \<Rightarrow> (channel, unit) prog" where
  "build fs = seqp (liftr (compose fs)) (\<lambda>_. ret ())"

definition send_user_message :: "field list \<Rightarrow> (channel, unit) prog" where
  "send_user_message fs =
     seqp (gets has_transport) (\<lambda>t.
     if t then modify (\<lambda>c. c\<lparr>outbox := outbox c @ [fs]\<rparr>) else raise AttributeError)"

fun send_msgs :: "field list option list \<Rightarrow> (channel, unit) prog" where
  "send_msgs [] = ret ()"
| "send_msgs (None # ms) = send_msgs ms"
| "send_msgs (Some m # ms) = seqp (send_user_message m) (\<lambda>_. send_msgs ms)"

definition msg_byte :: "int \<Rightarrow> field" where
  "msg_byte n = FByte (word_of_int n)"

section \<open>The descriptor pipe and the two buffers\<close>

text \<open>The calls a buffer makes on its event go to one side of the \<open>OrPipe\<close>.\<close>

definition pipe_calls :: "bool \<Rightarrow> ev_call list \<Rightarrow> (channel, unit) prog" where
  "pipe_calls first cs c =
     (case or_run (map (Pair first) cs) (ch_pipe c) of
        None \<Rightarrow> (Blocked, c)
      | Some (Inl e) \<Rightarrow> (Exn e, c)
      | Some (Inr p) \<Rightarrow> (Ret (), c\<lparr>ch_pipe := p\<rparr>))"

text \<open>\<open>std\<close> selects \<open>in_buffer\<close> (and the first side) or \<open>in_stderr_buffer\<close>.\<close>

definition buffer :: "bool \<Rightarrow> channel \<Rightarrow> bpipe" where
  "buffer std c = (if std then in_buffer c else in_stderr_buffer c)"

definition set_buffer :: "bool \<Rightarrow> bpipe \<Rightarrow> channel \<Rightarrow> channel" where
  "set_buffer std b c = (if std then c\<lparr>in_buffer := b\<rparr> else c\<lparr>in_stderr_buffer := b\<rparr>)"

definition on_buffer :: "bool \<Rightarrow> (bpipe \<Rightarrow> 'a \<times> bpipe \<times> ev_call list) \<Rightarrow> (channel, 'a) prog" where
  "on_buffer std f =
     seqp (gets (\<lambda>c. f (buffer std c))) (\<lambda>(x, b, cs).
     seqp (modify (set_buffer std b)) (\<lambda>_.
     seqp (pipe_calls std cs) (\<lambda>_. ret x)))"

definition close_buffer :: "bool \<Rightarrow> (channel, unit) prog" where
  "close_buffer std = on_buffer std (\<lambda>b. ((), close b))"

definition feed_buffer :: "bool \<Rightarrow> bytes \<Rightarrow> (channel, unit) prog" where
  "feed_buffer std d = seqp (on_buffer std (\<lambda>b. feed b (PBytes d))) liftr"

definition pipe_forever :: "(channel, unit) prog" where
  "pipe_forever = modify (\<lambda>c. if pipe_open c
     then c\<lparr>ch_pipe := (ch_pipe c)\<lparr>real_pipe := set_forever (real_pipe (ch_pipe c))\<rparr>\<rparr> else c)"

text \<open>\<open>fileno\<close>: the first call creates the pipe and attaches it to both buffers.\<close>

definition fileno :: "(channel, unit) prog" where
  "fileno =
     seqp (gets pipe_open) (\<lambda>o'.
     if o' then ret ()
     else
       seqp (modify (\<lambda>c. c\<lparr>pipe_open := True, ch_pipe := make_or_pipe new_posix\<rparr>)) (\<lambda>_.
       seqp (on_buffer True (\<lambda>b. ((), set_event b))) (\<lambda>_.
       on_buffer False (\<lambda>b. ((), set_event b)))))"

section \<open>Closing and EOF\<close>

definition set_closed :: "(channel, unit) prog" where
  "set_closed =
     seqp (modify (\<lambda>c. c\<lparr>ch_closed := True\<rparr>)) (\<lambda>_.
     seqp (close_buffer True) (\<lambda>_.
     seqp (close_buffer False) (\<lambda>_.
     seqp (modify (\<lambda>c. c\<lparr>ch_event := True, status_event := True\<rparr>)) (\<lambda>_.
     pipe_forever))))"

definition send_eof :: "(channel, field list option) prog" where
  "send_eof =
     seqp (gets id) (\<lambda>c.
     if eof_sent c then ret None
     else
       (let m = [msg_byte MSG_CHANNEL_EOF, FInt (remote_chanid c)]
        in seqp (build m) (\<lambda>_. seqp (modify (\<lambda>c. c\<lparr>eof_sent := True\<rparr>)) (\<lambda>_. ret (Some m)))))"

definition close_internal :: "(channel, field list option list) prog" where
  "close_internal =
     seqp (gets id) (\<lambda>c.
     if \<not> ch_active c \<or> ch_closed c then ret [None, None]
     else
       seqp send_eof (\<lambda>m1.
       (let m2 = [msg_byte MSG_CHANNEL_CLOSE, FInt (remote_chanid c)]
        in seqp (build m2) (\<lambda>_. seqp set_closed (\<lambda>_. ret [m1, Some m2])))))"

definition ch_close :: "(channel, unit) prog" where
  "ch_close =
     seqp (modify (\<lambda>c. if pipe_open c
        then c\<lparr>ch_pipe := (ch_pipe c)\<lparr>real_pipe := posix_close (real_pipe (ch_pipe c))\<rparr>,
               pipe_open := False\<rparr> else c)) (\<lambda>_.
     seqp (gets id) (\<lambda>c.
     if \<not> ch_active c \<or> ch_closed c then ret ()
     else seqp close_internal send_msgs))"

definition unlink :: "(channel, unit) prog" where
  "unlink =
     seqp (gets ch_closed) (\<lambda>cl.
     if cl then ret ()
     else
       seqp set_closed (\<lambda>_.
       seqp (gets has_transport) (\<lambda>t.
       if t then modify (\<lambda>c. c\<lparr>linked := False\<rparr>) else raise AttributeError)))"

definition shutdown :: "int \<Rightarrow> (channel, unit) prog" where
  "shutdown how =
     seqp (if how = 0 \<or> how = 2 then modify (\<lambda>c. c\<lparr>eof_received := True\<rparr>) else ret ()) (\<lambda>_.
     if how = 1 \<or> how = 2
     then seqp send_eof (\<lambda>m. seqp (gets has_transport) (\<lambda>t.
          case m of Some m \<Rightarrow> if t then send_user_message m else ret () | None \<Rightarrow> ret ()))
     else ret ())"

definition shutdown_read :: "(channel, unit) prog" where "shutdown_read = shutdown 0"
definition shutdown_write :: "(channel, unit) prog" where "shutdown_write = shutdown 1"

section \<open>Calls from the transport\<close>

definition set_transport :: "(channel, unit) prog" where
  "set_transport = modify (\<lambda>c. c\<lparr>has_transport := True\<rparr>)"

definition set_window :: "int \<Rightarrow> int \<Rightarrow> (channel, unit) prog" where
  "set_window window_size max_packet_size =
     modify (\<lambda>c. c\<lparr>in_window_size := window_size, in_max_packet_size := max_packet_size,
       in_window_threshold := window_size div 10, in_window_sofar := 0\<rparr>)"

text \<open>\<open>sanitize_packet_size\<close> is the transport's clamp to the protocol limits.\<close>

definition sanitize_packet_size :: "int \<Rightarrow> int option \<Rightarrow> int" where
  "sanitize_packet_size dflt max_packet_size =
     clamp_value MIN_PACKET_SIZE (case max_packet_size of None \<Rightarrow> dflt | Some n \<Rightarrow> n) MAX_WINDOW_SIZE"

definition sanitize_window_size :: "int \<Rightarrow> int option \<Rightarrow> int" where
  "sanitize_window_size dflt window_size =
     clamp_value MIN_WINDOW_SIZE (case window_size of None \<Rightarrow> dflt | Some n \<Rightarrow> n) MAX_WINDOW_SIZE"

definition set_remote_channel :: "int \<Rightarrow> int \<Rightarrow> int \<Rightarrow> (channel, unit) prog" where
  "set_remote_channel cid window_size max_packet_size =
     seqp (modify (\<lambda>c. c\<lparr>remote_chanid := cid, out_window_size := window_size\<rparr>)) (\<lambda>_.
     seqp (gets has_transport) (\<lambda>t.
     if t then modify (\<lambda>c. c\<lparr>out_max_packet_size := sanitize_packet_size DEFAULT_MAX_PACKET_SIZE (Some max_packet_size),
         ch_active := True\<rparr>)
     else raise AttributeError))"

definition request_success :: "(channel, unit) prog" where
  "request_success = modify (\<lambda>c. c\<lparr>event_ready := True, ch_event := True\<rparr>)"

definition request_failed :: "(channel, unit) prog" where
  "request_failed = seqp close_internal send_msgs"

definition ch_feed :: "message \<Rightarrow> (channel, unit) prog" where
  "ch_feed m = feed_buffer True (fst (get_binary m))"

definition feed_extended :: "message \<Rightarrow> (channel, unit) prog" where
  "feed_extended m =
     (let (code, m) = get_int m; (s, m) = get_binary m
      in if code \<noteq> 1 then ret ()
         else seqp (gets combine_stderr) (\<lambda>comb. feed_buffer comb s))"

definition window_adjust :: "message \<Rightarrow> (channel, unit) prog" where
  "window_adjust m =
     (let (nbytes, m) = get_int m in modify (\<lambda>c. c\<lparr>out_window_size := out_window_size c + nbytes\<rparr>))"

definition handle_eof :: "(channel, unit) prog" where
  "handle_eof =
     seqp (gets eof_received) (\<lambda>e.
     if e then ret ()
     else
       seqp (modify (\<lambda>c. c\<lparr>eof_received := True\<rparr>)) (\<lambda>_.
       seqp (close_buffer True) (\<lambda>_.
       seqp (close_buffer False) (\<lambda>_. pipe_forever))))"

definition handle_close :: "(channel, unit) prog" where
  "handle_close =
     seqp close_internal (\<lambda>msgs.
     seqp (gets has_transport) (\<lambda>t.
     if t then seqp (modify (\<lambda>c. c\<lparr>linked := False\<rparr>)) (\<lambda>_. send_msgs msgs)
     else raise AttributeError))"

section \<open>Requests of the client\<close>

definition open_only :: "(channel, 'a) prog \<Rightarrow> (channel, 'a) prog" where
  "open_only m =
     seqp (gets id) (\<lambda>c.
     if ch_closed c \<or> eof_received c \<or> eof_sent c \<or> \<not> ch_active c
     then raise (SSHException ''Channel is not open'') else m)"

definition event_pending :: "(channel, unit) prog" where
  "event_pending = modify (\<lambda>c. c\<lparr>ch_event := False, event_ready := False\<rparr>)"

text \<open>\<open>get_exception\<close> of the transport hands its saved exception out once.\<close>

definition get_exception :: "(channel, py_error option) prog" where
  "get_exception =
     seqp (gets saved_exception) (\<lambda>e.
     seqp (modify (\<lambda>c. c\<lparr>saved_exception := None\<rparr>)) (\<lambda>_. ret e))"

text \<open>Other threads run until the event is set; with no wake-up left the caller still waits.\<close>

fun wait_until :: "(channel \<Rightarrow> bool) \<Rightarrow> (channel \<Rightarrow> channel) list \<Rightarrow> (channel, unit) prog" where
  "wait_until P [] c = (if P c then (Ret (), c) else (Blocked, c))"
| "wait_until P (f # fs) c = (if P c then (Ret (), c) else wait_until P fs (f c))"

definition wait_for_event :: "(channel \<Rightarrow> channel) list \<Rightarrow> (channel, unit) prog" where
  "wait_for_event ws =
     seqp (wait_until ch_event ws) (\<lambda>_.
     seqp (gets event_ready) (\<lambda>r.
     if r then ret ()
     else seqp get_exception (\<lambda>e.
       raise (case e of None \<Rightarrow> SSHException ''Channel closed.'' | Some e \<Rightarrow> e))))"

definition request_fields :: "string \<Rightarrow> bool \<Rightarrow> field list \<Rightarrow> channel \<Rightarrow> field list" where
  "request_fields nm want_reply fs c =
     [msg_byte MSG_CHANNEL_REQUEST, FInt (remote_chanid c), FText (lit nm), FBool want_reply] @ fs"

text \<open>A request whose answer the caller waits for, and one that is sent and forgotten.\<close>

definition ask :: "string \<Rightarrow> field list \<Rightarrow> (channel \<Rightarrow> channel) list \<Rightarrow> (channel, unit) prog" where
  "ask nm fs ws =
     seqp (gets (request_fields nm True fs)) (\<lambda>m.
     seqp (build m) (\<lambda>_.
     seqp event_pending (\<lambda>_.
     seqp (send_user_message m) (\<lambda>_.
     wait_for_event ws))))"

definition tell :: "string \<Rightarrow> field list \<Rightarrow> (channel, unit) prog" where
  "tell nm fs =
     seqp (gets (request_fields nm False fs)) (\<lambda>m.
     seqp (build m) (\<lambda>_. send_user_message m))"

definition get_pty where
  "get_pty term width height width_pixels height_pixels ws =
     open_only (ask ''pty-req'' [FText term, FInt width, FInt height, FInt width_pixels,
       FInt height_pixels, FString []] ws)"

definition invoke_shell where
  "invoke_shell ws = open_only (ask ''shell'' [] ws)"

definition exec_command where
  "exec_command command ws = open_only (ask ''exec'' [FText command] ws)"

definition invoke_subsystem where
  "invoke_subsystem subsystem ws = open_only (ask ''subsystem'' [FText subsystem] ws)"

definition resize_pty where
  "resize_pty width height width_pixels height_pixels =
     open_only (tell ''window-change'' [FInt width, FInt height, FInt width_pixels, FInt height_pixels])"

definition set_environment_variable where
  "set_environment_variable nm val = open_only (tell ''env'' [FText nm, FText val])"

text \<open>An \<open>SSHException\<close> is wrapped in another one; other errors pass through.\<close>

fun update_environment :: "(pystr \<times> pystr) list \<Rightarrow> (channel, unit) prog" where
  "update_environment [] = ret ()"
| "update_environment ((nm, val) # env) =
     (\<lambda>c. case set_environment_variable nm val c of
        (Ret _, c') \<Rightarrow> update_environment env c'
      | (Exn e, c') \<Rightarrow>
          (case e of
             SSHException _ \<Rightarrow> (Exn (SSHException ''Failed to set environment variable''), c')
           | _ \<Rightarrow> (Exn e, c'))
      | (Blocked, c') \<Rightarrow> (Blocked, c'))"

definition send_exit_status where
  "send_exit_status status = tell ''exit-status'' [FInt status]"

text \<open>\<open>cookie\<close> is the one given, or the hexadecimal text of 16 random bytes \<open>fresh\<close>.\<close>

definition request_x11 ::
  "int \<Rightarrow> pystr option \<Rightarrow> pystr option \<Rightarrow> pystr \<Rightarrow> bool \<Rightarrow> (channel \<Rightarrow> channel) list \<Rightarrow> (channel, pystr) prog" where
  "request_x11 screen_number auth_protocol auth_cookie fresh single_connection ws =
     (let proto = (case auth_protocol of None \<Rightarrow> lit ''MIT-MAGIC-COOKIE-1'' | Some p \<Rightarrow> p);
          cookie = (case auth_cookie of None \<Rightarrow> fresh | Some c \<Rightarrow> c)
      in open_only (seqp (ask ''x11-req'' [FBool single_connection, FText proto, FText cookie,
            FInt screen_number] ws) (\<lambda>_.
         seqp (modify (\<lambda>c. c\<lparr>x11_handler_set := True\<rparr>)) (\<lambda>_. ret cookie))))"

definition request_forward_agent :: "(channel, bool) prog" where
  "request_forward_agent =
     open_only (seqp (tell ''auth-agent-req@openssh.com'' []) (\<lambda>_.
       seqp (modify (\<lambda>c. c\<lparr>agent_handler_set := True\<rparr>)) (\<lambda>_. ret True)))"

definition exit_status_ready :: "channel \<Rightarrow> bool" where
  "exit_status_ready c = (ch_closed c \<or> status_event c)"

definition recv_exit_status :: "(channel \<Rightarrow> channel) list \<Rightarrow> (channel, int) prog" where
  "recv_exit_status ws = seqp (wait_until status_event ws) (\<lambda>_. gets exit_status)"

section \<open>Accessors and modes\<close>

definition set_name where "set_name nm = modify (\<lambda>c. c\<lparr>ch_name := nm\<rparr>)"
definition settimeout :: "int option \<Rightarrow> (channel, unit) prog" where
  "settimeout t = modify (\<lambda>c. c\<lparr>ch_timeout := t\<rparr>)"
definition setblocking :: "bool \<Rightarrow> (channel, unit) prog" where
  "setblocking blocking = (if blocking then settimeout None else settimeout (Some 0))"

definition set_combine_stderr :: "bool \<Rightarrow> (channel, bool) prog" where
  "set_combine_stderr combine =
     seqp (gets combine_stderr) (\<lambda>old.
     seqp (modify (\<lambda>c. c\<lparr>combine_stderr := combine\<rparr>)) (\<lambda>_.
     seqp (if combine \<and> \<not> old then on_buffer False empty else ret []) (\<lambda>data.
     seqp (if 0 < length data then feed_buffer True data else ret ()) (\<lambda>_.
     ret old))))"

section \<open>Receiving\<close>

text \<open>
  \<open>BufferedPipe.read\<close> on one of the buffers. A wake-up \<open>(f, dt)\<close> is what the other threads
  did to the channel and the time the reader waited.
\<close>

fun read_wait_on :: "bool \<Rightarrow> int \<Rightarrow> int option \<Rightarrow> ((channel \<Rightarrow> channel) \<times> int) list \<Rightarrow> (channel, bytes) prog" where
  "read_wait_on std n t [] c =
     (if buf (buffer std c) = [] \<and> \<not> bclosed (buffer std c) then (Blocked, c)
      else on_buffer std (\<lambda>b. take_data b n) c)"
| "read_wait_on std n t ((f, dt) # ws) c =
     (if buf (buffer std c) = [] \<and> \<not> bclosed (buffer std c)
      then (case t of
              None \<Rightarrow> read_wait_on std n None ws (f c)
            | Some t \<Rightarrow> if t - dt \<le> 0 then (Exn PipeTimeout, f c)
                        else read_wait_on std n (Some (t - dt)) ws (f c))
      else on_buffer std (\<lambda>b. take_data b n) c)"

definition read_on :: "bool \<Rightarrow> int \<Rightarrow> ((channel \<Rightarrow> channel) \<times> int) list \<Rightarrow> (channel, bytes) prog" where
  "read_on std n ws c =
     (if length (buf (buffer std c)) = 0
      then if bclosed (buffer std c) then (Ret [], c)
           else if ch_timeout c = Some 0 then (Exn PipeTimeout, c)
           else read_wait_on std n (ch_timeout c) ws c
      else on_buffer std (\<lambda>b. take_data b n) c)"

definition check_add_window :: "int \<Rightarrow> (channel, int) prog" where
  "check_add_window n =
     seqp (gets id) (\<lambda>c.
     if ch_closed c \<or> eof_received c \<or> \<not> ch_active c then ret 0
     else
       seqp (modify (\<lambda>c. c\<lparr>in_window_sofar := in_window_sofar c + n\<rparr>)) (\<lambda>_.
       seqp (gets id) (\<lambda>c.
       if in_window_sofar c \<le> in_window_threshold c then ret 0
       else seqp (modify (\<lambda>c. c\<lparr>in_window_sofar := 0\<rparr>)) (\<lambda>_. ret (in_window_sofar c)))))"

definition socket_timeout :: "'a outcome \<times> channel \<Rightarrow> 'a outcome \<times> channel" where
  "socket_timeout r = (case r of (Exn PipeTimeout, c) \<Rightarrow> (Exn SocketTimeout, c) | _ \<Rightarrow> r)"

definition recv_on :: "bool \<Rightarrow> int \<Rightarrow> ((channel \<Rightarrow> channel) \<times> int) list \<Rightarrow> (channel, bytes) prog" where
  "recv_on std nbytes ws =
     seqp (\<lambda>c. socket_timeout (read_on std nbytes ws c)) (\<lambda>out.
     seqp (check_add_window (int (length out))) (\<lambda>ack.
     if 0 < ack then
       seqp (gets (\<lambda>c. [msg_byte MSG_CHANNEL_WINDOW_ADJUST, FInt (remote_chanid c), FInt ack])) (\<lambda>m.
       seqp (build m) (\<lambda>_. seqp (send_user_message m) (\<lambda>_. ret out)))
     else ret out))"

definition recv where "recv = recv_on True"
definition recv_stderr where "recv_stderr = recv_on False"
definition recv_ready :: "channel \<Rightarrow> bool" where "recv_ready c = read_ready (in_buffer c)"
definition recv_stderr_ready :: "channel \<Rightarrow> bool" where
  "recv_stderr_ready c = read_ready (in_stderr_buffer c)"

section \<open>Sending\<close>

text \<open>
  Waiting for the send window. \<open>None\<close> as a result is the early return of 0 on a closed
  stream; the wake-ups are those of \<open>out_buffer_cv\<close>.
\<close>

fun window_loop :: "int option \<Rightarrow> ((channel \<Rightarrow> channel) \<times> int) list \<Rightarrow> (channel, bool) prog" where
  "window_loop t [] c =
     (if out_window_size c = 0
      then if ch_closed c \<or> eof_sent c then (Ret False, c) else (Blocked, c)
      else (Ret True, c))"
| "window_loop t ((f, dt) # ws) c =
     (if out_window_size c = 0
      then if ch_closed c \<or> eof_sent c then (Ret False, c)
           else (case t of
                   None \<Rightarrow> window_loop None ws (f c)
                 | Some t \<Rightarrow> if t - dt \<le> 0 then (Exn SocketTimeout, f c)
                             else window_loop (Some (t - dt)) ws (f c))
      else (Ret True, c))"

definition allocate :: "int \<Rightarrow> (channel, int) prog" where
  "allocate sz =
     seqp (gets id) (\<lambda>c.
     if ch_closed c \<or> eof_sent c then ret 0
     else
       (let sz = (if out_window_size c < sz then out_window_size c else sz);
            sz = (if out_max_packet_size c - 64 < sz then out_max_packet_size c - 64 else sz)
        in seqp (modify (\<lambda>c. c\<lparr>out_window_size := out_window_size c - sz\<rparr>)) (\<lambda>_. ret sz)))"

definition wait_for_send_window ::
  "int \<Rightarrow> ((channel \<Rightarrow> channel) \<times> int) list \<Rightarrow> (channel, int) prog" where
  "wait_for_send_window sz ws =
     seqp (gets id) (\<lambda>c.
     if ch_closed c \<or> eof_sent c then ret 0
     else if out_window_size c = 0 then
       (if ch_timeout c = Some 0 then raise SocketTimeout
        else seqp (window_loop (ch_timeout c) ws) (\<lambda>go. if go then allocate sz else ret 0))
     else allocate sz)"

text \<open>
  \<open>send_locked\<close> is the part under the lock: the sz taken from the window and the message.
  The lock is released before the message is handed over.
\<close>

definition send_locked ::
  "bytes \<Rightarrow> field list \<Rightarrow> ((channel \<Rightarrow> channel) \<times> int) list \<Rightarrow> (channel, int \<times> field list option) prog" where
  "send_locked s fs ws =
     seqp (gets ch_closed) (\<lambda>cl.
     if cl then raise (SocketError ''Socket is closed'')
     else
       seqp (wait_for_send_window (int (length s)) ws) (\<lambda>sz.
       if sz = 0 then ret (0, None)
       else
         (let m = fs @ [FString (slice_to s sz)]
          in seqp (build m) (\<lambda>_. ret (sz, Some m)))))"

definition data_header :: "channel \<Rightarrow> field list" where
  "data_header c = [msg_byte MSG_CHANNEL_DATA, FInt (remote_chanid c)]"

definition stderr_header :: "channel \<Rightarrow> field list" where
  "stderr_header c = [msg_byte MSG_CHANNEL_EXTENDED_DATA, FInt (remote_chanid c), FInt 1]"

definition send_on :: "bool \<Rightarrow> bytes \<Rightarrow> ((channel \<Rightarrow> channel) \<times> int) list \<Rightarrow> (channel, int) prog" where
  "send_on std s ws =
     seqp (gets (if std then data_header else stderr_header)) (\<lambda>fs.
     seqp (build fs) (\<lambda>_.
     seqp (send_locked s fs ws) (\<lambda>(sz, m).
     seqp (send_msgs [m]) (\<lambda>_. ret sz))))"

definition ch_send where "ch_send = send_on True"
definition send_stderr where "send_stderr = send_on False"

definition send_ready :: "channel \<Rightarrow> bool" where
  "send_ready c = (if ch_closed c \<or> eof_sent c then True else 0 < out_window_size c)"

text \<open>
  \<open>sendall\<close>: one list of wake-ups per call of \<open>send\<close>. The outer \<open>None\<close> is a call that is
  still looping when the lists are used up.
\<close>

fun sendall_on :: "bool \<Rightarrow> bytes \<Rightarrow> ((channel \<Rightarrow> channel) \<times> int) list list \<Rightarrow>
    channel \<Rightarrow> (unit outcome \<times> channel) option" where
  "sendall_on std s [] c = (if s = [] then Some (Ret (), c) else None)"
| "sendall_on std s (ws # wss) c =
     (if s = [] then Some (Ret (), c)
      else case send_on std s ws c of
             (Ret sent, c') \<Rightarrow> sendall_on std (slice_from s sent) wss c'
           | (Exn e, c') \<Rightarrow> Some (Exn e, c')
           | (Blocked, c') \<Rightarrow> Some (Blocked, c'))"

definition sendall where "sendall = sendall_on True"
definition sendall_stderr where "sendall_stderr = sendall_on False"

section \<open>Requests of the server's peer\<close>

text \<open>
  The server object is the application's: a decision for every request. The request carries
  the arguments in the order of the \<open>check_channel_*\<close> callbacks.
\<close>

datatype chan_request =
    PtyRequest bytes int int int int bytes
  | ShellRequest
  | EnvRequest bytes bytes
  | ExecRequest bytes
  | SubsystemRequest pystr
  | WindowChangeRequest int int int int
  | X11Request bool pystr bytes int
  | AgentRequest

definition decide :: "(chan_request \<Rightarrow> bool) option \<Rightarrow> chan_request \<Rightarrow> (channel, bool) prog" where
  "decide server r = ret (case server of None \<Rightarrow> False | Some check \<Rightarrow> check r)"

definition parse_pty :: "message \<Rightarrow> chan_request" where
  "parse_pty m =
     (let (term, m) = get_string m; (w, m) = get_int m; (h, m) = get_int m;
          (pw, m) = get_int m; (ph, m) = get_int m; (modes, m) = get_string m
      in PtyRequest term w h pw ph modes)"

definition parse_env :: "message \<Rightarrow> chan_request" where
  "parse_env m = (let (nm, m) = get_string m; (val, m) = get_string m in EnvRequest nm val)"

definition parse_window_change :: "message \<Rightarrow> chan_request" where
  "parse_window_change m =
     (let (w, m) = get_int m; (h, m) = get_int m; (pw, m) = get_int m; (ph, m) = get_int m
      in WindowChangeRequest w h pw ph)"

definition parse_x11 :: "message \<Rightarrow> chan_request res" where
  "parse_x11 m =
     (let (single, m) = get_boolean m
      in bind_res (get_text m) (\<lambda>(proto, m).
         let (cookie, m) = get_binary m; (screen, m) = get_int m
         in Inr (X11Request single proto cookie screen)))"

definition handle_key :: "(chan_request \<Rightarrow> bool) option \<Rightarrow> pystr \<Rightarrow> message \<Rightarrow> (channel, bool) prog" where
  "handle_key server key m =
     (if key = lit ''exit-status'' then
        seqp (modify (\<lambda>c. c\<lparr>exit_status := fst (get_int m), status_event := True\<rparr>)) (\<lambda>_. ret True)
      else if key = lit ''xon-xoff'' then ret True
      else if key = lit ''pty-req'' then decide server (parse_pty m)
      else if key = lit ''shell'' then decide server ShellRequest
      else if key = lit ''env'' then decide server (parse_env m)
      else if key = lit ''exec'' then decide server (ExecRequest (fst (get_string m)))
      else if key = lit ''subsystem'' then
        seqp (liftr (get_text m)) (\<lambda>(nm, m). decide server (SubsystemRequest nm))
      else if key = lit ''window-change'' then decide server (parse_window_change m)
      else if key = lit ''x11-req'' then seqp (liftr (parse_x11 m)) (decide server)
      else if key = lit ''auth-agent-req@openssh.com'' then decide server AgentRequest
      else ret False)"

definition handle_request :: "(chan_request \<Rightarrow> bool) option \<Rightarrow> message \<Rightarrow> (channel, unit) prog" where
  "handle_request server m =
     seqp (liftr (get_text m)) (\<lambda>(key, m).
     let (want_reply, m) = get_boolean m
     in
     seqp (gets has_transport) (\<lambda>t.
     if \<not> t then raise AttributeError
     else
     seqp (handle_key server key m) (\<lambda>ok.
     if want_reply then
       seqp (gets (\<lambda>c. [msg_byte (if ok then MSG_CHANNEL_SUCCESS else MSG_CHANNEL_FAILURE),
          FInt (remote_chanid c)])) (\<lambda>m.
       seqp (build m) (\<lambda>_. send_user_message m))
     else ret ())))"

end
