(* ===== verification/Channel_Props.thy ===== *)
theory Channel_Props
  imports Channel_Core "HOL-Library.Sublist"
begin

text \<open>
  What a channel promises: the send window is never overrun, the receive window is given back
  so that the peer cannot starve, EOF and CLOSE are sent at most once under every interleaving,
  reads after the end of the stream do not block, every request that wants a reply gets one.
\<close>

section \<open>What the buffer operations leave alone\<close>

text \<open>The part of a channel that the buffers and the descriptor pipe have no influence on.\<close>

definition core where
  "core c = (eof_sent c, outbox c, remote_chanid c, ch_active c, out_window_size c,
     out_max_packet_size c, has_transport c, in_window_sofar c, in_window_threshold c)"

lemma core_eq:
  "core c = core d \<longleftrightarrow> eof_sent c = eof_sent d \<and> outbox c = outbox d \<and> remote_chanid c = remote_chanid d \<and>
     ch_active c = ch_active d \<and> out_window_size c = out_window_size d \<and>
     out_max_packet_size c = out_max_packet_size d \<and> has_transport c = has_transport d \<and>
     in_window_sofar c = in_window_sofar d \<and> in_window_threshold c = in_window_threshold d"
  by (simp add: core_def)

lemma pipe_calls_core: "pipe_calls f cs c = (r, c') \<Longrightarrow>
    core c' = core c \<and> ch_closed c' = ch_closed c \<and> eof_received c' = eof_received c \<and>
    in_buffer c' = in_buffer c \<and> in_stderr_buffer c' = in_stderr_buffer c"
  by (auto simp: pipe_calls_def core_eq split: option.splits sum.splits)

lemma set_buffer_core: "core (set_buffer std b c) = core c \<and> ch_closed (set_buffer std b c) = ch_closed c \<and>
    eof_received (set_buffer std b c) = eof_received c"
  by (simp add: set_buffer_def core_eq)

lemma on_buffer_core: "on_buffer std f c = (r, c') \<Longrightarrow>
    core c' = core c \<and> ch_closed c' = ch_closed c \<and> eof_received c' = eof_received c"
proof -
  assume run: "on_buffer std f c = (r, c')"
  obtain x b cs where f: "f (buffer std c) = (x, b, cs)" by (cases "f (buffer std c)") auto
  obtain r1 c1 where p: "pipe_calls std cs (set_buffer std b c) = (r1, c1)"
    by (cases "pipe_calls std cs (set_buffer std b c)")
  from run f p have "c' = c1" by (cases r1) (auto simp: on_buffer_def seqp_def)
  with pipe_calls_core [OF p] set_buffer_core [of std b c] show ?thesis by simp
qed

lemma pipe_forever_core: "core (snd (pipe_forever c)) = core c \<and> fst (pipe_forever c) = Ret () \<and>
    ch_closed (snd (pipe_forever c)) = ch_closed c \<and> eof_received (snd (pipe_forever c)) = eof_received c \<and>
    in_buffer (snd (pipe_forever c)) = in_buffer c \<and> in_stderr_buffer (snd (pipe_forever c)) = in_stderr_buffer c"
  by (simp add: pipe_forever_def core_eq)

lemma set_closed_core: "set_closed c = (r, c') \<Longrightarrow> core c' = core c \<and> ch_closed c'"
proof -
  assume run: "set_closed c = (r, c')"
  let ?c0 = "c\<lparr>ch_closed := True\<rparr>"
  obtain r1 c1 where s1: "close_buffer True ?c0 = (r1, c1)" by (cases "close_buffer True ?c0")
  obtain r2 c2 where s2: "close_buffer False c1 = (r2, c2)" by (cases "close_buffer False c1")
  let ?c3 = "c2\<lparr>ch_event := True, status_event := True\<rparr>"
  note k = on_buffer_core [OF s1 [unfolded close_buffer_def]] on_buffer_core [OF s2 [unfolded close_buffer_def]]
    pipe_forever_core [of ?c3]
  show ?thesis
  proof (cases r1)
    case (Ret a)
    show ?thesis
      using run s1 s2 k Ret by (cases r2) (auto simp: set_closed_def seqp_def core_eq split: prod.splits)
  qed (use run s1 k in \<open>auto simp: set_closed_def seqp_def core_eq\<close>)
qed

section \<open>Closing the stream\<close>

definition eof_msg :: "channel \<Rightarrow> field list" where
  "eof_msg c = [msg_byte MSG_CHANNEL_EOF, FInt (remote_chanid c)]"

definition close_msg :: "channel \<Rightarrow> field list" where
  "close_msg c = [msg_byte MSG_CHANNEL_CLOSE, FInt (remote_chanid c)]"

lemma send_eof_eq:
  "send_eof c =
     (if eof_sent c then (Ret None, c)
      else case compose (eof_msg c) of
             Inl e \<Rightarrow> (Exn e, c)
           | Inr _ \<Rightarrow> (Ret (Some (eof_msg c)), c\<lparr>eof_sent := True\<rparr>))"
  by (simp add: send_eof_def build_def seqp_def Let_def eof_msg_def liftr_def split: sum.splits)

lemma close_internal_eq:
  "close_internal c =
     (if \<not> ch_active c \<or> ch_closed c then (Ret [None, None], c)
      else case send_eof c of
             (Ret m1, c1) \<Rightarrow>
               (case compose (close_msg c) of
                  Inl e \<Rightarrow> (Exn e, c1)
                | Inr _ \<Rightarrow> (case set_closed c1 of
                              (Ret _, c2) \<Rightarrow> (Ret [m1, Some (close_msg c)], c2)
                            | (Exn e, c2) \<Rightarrow> (Exn e, c2)
                            | (Blocked, c2) \<Rightarrow> (Blocked, c2)))
           | (Exn e, c1) \<Rightarrow> (Exn e, c1)
           | (Blocked, c1) \<Rightarrow> (Blocked, c1))"
  by (simp add: close_internal_def build_def seqp_def Let_def close_msg_def liftr_def
      split: sum.splits prod.splits outcome.splits)

definition is_eof :: "field list \<Rightarrow> bool" where
  "is_eof m \<longleftrightarrow> m \<noteq> [] \<and> hd m = msg_byte MSG_CHANNEL_EOF"

definition is_close :: "field list \<Rightarrow> bool" where
  "is_close m \<longleftrightarrow> m \<noteq> [] \<and> hd m = msg_byte MSG_CHANNEL_CLOSE"

definition is_data :: "field list \<Rightarrow> bool" where
  "is_data m \<longleftrightarrow> m \<noteq> [] \<and> (hd m = msg_byte MSG_CHANNEL_DATA \<or> hd m = msg_byte MSG_CHANNEL_EXTENDED_DATA)"

lemma kinds [simp]:
  "is_eof (eof_msg c)" "\<not> is_close (eof_msg c)" "is_close (close_msg c)" "\<not> is_eof (close_msg c)"
  "\<not> is_eof (data_header c @ x)" "\<not> is_close (data_header c @ x)" "is_data (data_header c @ x)"
  "\<not> is_eof (stderr_header c @ x)" "\<not> is_close (stderr_header c @ x)" "is_data (stderr_header c @ x)"
  by (simp_all add: is_eof_def is_close_def is_data_def eof_msg_def close_msg_def data_header_def
      stderr_header_def msg_byte_def)

section \<open>Threads sharing a channel\<close>

text \<open>
  The methods change the channel under its lock and hand their messages over after releasing
  it, so a system is a channel with, for every thread, the messages it still has to hand over.
  One step is one locked section of some thread, or the handing over of some thread's next
  message.
\<close>

type_synonym chan_sys = "channel \<times> field list list list"

definition queued :: "field list option list outcome \<Rightarrow> field list list list" where
  "queued r = (case r of Ret ms \<Rightarrow> [map the (filter (\<lambda>m. m \<noteq> None) ms)] | _ \<Rightarrow> [])"

lemma queued_simps [simp]:
  "queued (Ret ms) = [map the (filter (\<lambda>m. m \<noteq> None) ms)]" "queued (Exn e) = []" "queued Blocked = []"
  by (simp_all add: queued_def)

fun outcome_map :: "('a \<Rightarrow> 'b) \<Rightarrow> 'a outcome \<Rightarrow> 'b outcome" where
  "outcome_map f (Ret x) = Ret (f x)"
| "outcome_map f (Exn e) = Exn e"
| "outcome_map f Blocked = Blocked"

inductive chan_step :: "chan_sys \<Rightarrow> chan_sys \<Rightarrow> bool" where
  lock_close: "close_internal c = (r, c') \<Longrightarrow> chan_step (c, q) (c', queued r @ q)"
| lock_shutdown: "send_eof c = (r, c') \<Longrightarrow> chan_step (c, q) (c', queued (outcome_map (\<lambda>m. [m]) r) @ q)"
| lock_send: "fs = data_header c \<or> fs = stderr_header c \<Longrightarrow> send_locked s fs [] c = (r, c') \<Longrightarrow>
    chan_step (c, q) (c', queued (outcome_map (\<lambda>(n, m). [m]) r) @ q)"
| lock_read: "on_buffer std (\<lambda>b. take_data b n) c = (r, c') \<Longrightarrow> chan_step (c, q) (c', q)"
| lock_feed: "feed_buffer std d c = (r, c') \<Longrightarrow> chan_step (c, q) (c', q)"
| lock_unlink: "unlink c = (r, c') \<Longrightarrow> chan_step (c, q) (c', q)"
| lock_eof: "handle_eof c = (r, c') \<Longrightarrow> chan_step (c, q) (c', q)"
| lock_adjust: "window_adjust m c = (r, c') \<Longrightarrow> chan_step (c, q) (c', q)"
| lock_ack: "check_add_window n c = (r, c') \<Longrightarrow>
    chan_step (c, q) (c', [[[msg_byte MSG_CHANNEL_WINDOW_ADJUST, FInt (remote_chanid c), FInt k]]] @ q)"
| hand_over: "chan_step (c, a @ (m # ms) # b) (c\<lparr>outbox := outbox c @ [m]\<rparr>, a @ ms # b)"

inductive_cases chan_stepE: "chan_step s t"

definition all_msgs :: "chan_sys \<Rightarrow> field list list" where
  "all_msgs s = outbox (fst s) @ concat (snd s)"

definition once_inv :: "chan_sys \<Rightarrow> bool" where
  "once_inv s \<longleftrightarrow>
     length (filter is_eof (all_msgs s)) \<le> (if eof_sent (fst s) then 1 else 0) \<and>
     length (filter is_close (all_msgs s)) \<le> (if ch_closed (fst s) then 1 else 0)"

text \<open>A step that keeps the outbox, the flags, and queues no EOF or CLOSE keeps the invariant.\<close>

lemma once_inv_quiet:
  assumes "once_inv (c, q)" and "outbox c' = outbox c" and "eof_sent c' = eof_sent c"
    and "ch_closed c \<longrightarrow> ch_closed c'" and "\<forall>m\<in>set (concat new). \<not> is_eof m \<and> \<not> is_close m"
  shows "once_inv (c', new @ q)"
proof -
  have "filter is_eof (concat new) = []" "filter is_close (concat new) = []"
    using assms(5) by (auto simp: filter_empty_conv)
  with assms(1-4) show ?thesis by (auto simp: once_inv_def all_msgs_def split: if_splits)
qed

lemma send_locked_result:
  assumes "fs = data_header c \<or> fs = stderr_header c" and "send_locked s fs [] c = (r, c')"
  shows "outbox c' = outbox c \<and> eof_sent c' = eof_sent c \<and> ch_closed c' = ch_closed c \<and>
    (\<forall>m\<in>set (concat (queued (outcome_map (\<lambda>(n, m). [m]) r))). \<not> is_eof m \<and> \<not> is_close m)"
  using assms
  by (auto simp: send_locked_def wait_for_send_window_def allocate_def build_def seqp_def liftr_def
      Let_def queued_def is_eof_def is_close_def data_header_def stderr_header_def msg_byte_def
      split: if_splits sum.splits)

lemma close_internal_once:
  assumes "close_internal c = (r, c')" and "once_inv (c, q)"
  shows "once_inv (c', queued r @ q)"
proof (cases "\<not> ch_active c \<or> ch_closed c")
  case True
  then have "r = Ret [None, None]" "c' = c" using assms(1) by (auto simp: close_internal_eq)
  then show ?thesis using assms(2) by (simp add: once_inv_def all_msgs_def)
next
  case False
  obtain r1 c1 where e: "send_eof c = (r1, c1)" by (cases "send_eof c")
  obtain r2 c2 where k: "set_closed c1 = (r2, c2)" by (cases "set_closed c1")
  from set_closed_core [OF k] have k': "outbox c2 = outbox c1" "eof_sent c2 = eof_sent c1" "ch_closed c2"
    by (simp_all add: core_eq)
  have inv: "length (filter is_eof (all_msgs (c, q))) \<le> (if eof_sent c then 1 else 0)"
    "filter is_close (all_msgs (c, q)) = []"
    using assms(2) False by (auto simp: once_inv_def split: if_splits)
  have inv': "length (filter is_close (outbox c)) = 0" "length (filter is_close (concat q)) = 0"
    using inv(2) by (simp_all add: all_msgs_def)
  show ?thesis
  proof (cases "eof_sent c")
    case True
    then have e': "send_eof c = (Ret None, c)" "c1 = c" using e by (simp_all add: send_eof_eq)
    have "(r = Ret [None, Some (close_msg c)] \<and> c' = c2) \<or> (\<exists>x. r = Exn x \<and> c' = c) \<or>
        (queued r = [] \<and> c' = c2)"
      using assms(1) [symmetric] False k
      by (cases "compose (close_msg c)"; cases r2) (simp_all add: close_internal_eq e')
    then show ?thesis using k' inv inv' True e'(2) by (auto simp: once_inv_def all_msgs_def)
  next
    case ne: False
    have "(\<exists>x. r1 = Exn x \<and> c1 = c) \<or> (r1 = Ret (Some (eof_msg c)) \<and> c1 = c\<lparr>eof_sent := True\<rparr>)"
      using e [symmetric] ne by (cases "compose (eof_msg c)") (simp_all add: send_eof_eq)
    then consider x where "r1 = Exn x" "c1 = c" | "r1 = Ret (Some (eof_msg c))" "c1 = c\<lparr>eof_sent := True\<rparr>"
      by blast
    then show ?thesis
    proof cases
      case 1
      then have "r = Exn x" "c' = c" using assms(1) False e by (auto simp: close_internal_eq)
      then show ?thesis using assms(2) by simp
    next
      case 2
      have "(r = Ret [Some (eof_msg c), Some (close_msg c)] \<and> c' = c2) \<or> (\<exists>x. r = Exn x \<and> c' = c1) \<or>
          (queued r = [] \<and> c' = c2)"
        using assms(1) [symmetric] False k e 2(1)
        by (cases "compose (close_msg c)"; cases r2) (simp_all add: close_internal_eq)
      then show ?thesis using k' inv inv' ne 2(2) by (auto simp: once_inv_def all_msgs_def)
    qed
  qed
qed

lemma send_eof_once:
  assumes "send_eof c = (r, c')" and "once_inv (c, q)"
  shows "once_inv (c', queued (outcome_map (\<lambda>m. [m]) r) @ q)"
proof (cases "eof_sent c")
  case True
  then have "r = Ret None" "c' = c" using assms(1) by (simp_all add: send_eof_eq)
  then show ?thesis using assms(2) by (simp add: once_inv_def all_msgs_def)
next
  case False
  have "(\<exists>e. r = Exn e \<and> c' = c) \<or> (r = Ret (Some (eof_msg c)) \<and> c' = c\<lparr>eof_sent := True\<rparr>)"
    using assms(1) [symmetric] False by (cases "compose (eof_msg c)") (simp_all add: send_eof_eq)
  then show ?thesis using assms(2) False by (auto simp: once_inv_def all_msgs_def)
qed

lemma unlink_core: "unlink c = (r, c') \<Longrightarrow>
    outbox c' = outbox c \<and> eof_sent c' = eof_sent c \<and> (ch_closed c \<longrightarrow> ch_closed c')"
proof (cases "ch_closed c")
  case False
  assume "unlink c = (r, c')"
  moreover obtain r1 c1 where k: "set_closed c = (r1, c1)" by (cases "set_closed c")
  moreover note set_closed_core [OF k]
  ultimately show ?thesis using False
    by (cases r1) (auto simp: unlink_def seqp_def core_eq split: if_splits)
qed (simp add: unlink_def)

lemma handle_eof_core: "handle_eof c = (r, c') \<Longrightarrow> core c' = core c \<and> ch_closed c' = ch_closed c"
proof (cases "eof_received c")
  case False
  assume run: "handle_eof c = (r, c')"
  let ?c0 = "c\<lparr>eof_received := True\<rparr>"
  obtain r1 c1 where s1: "close_buffer True ?c0 = (r1, c1)" by (cases "close_buffer True ?c0")
  obtain r2 c2 where s2: "close_buffer False c1 = (r2, c2)" by (cases "close_buffer False c1")
  note k = on_buffer_core [OF s1 [unfolded close_buffer_def]] on_buffer_core [OF s2 [unfolded close_buffer_def]]
    pipe_forever_core [of c2]
  show ?thesis
  proof (cases r1)
    case (Ret a)
    show ?thesis
      using run s1 s2 k Ret False by (cases r2) (auto simp: handle_eof_def seqp_def core_eq)
  qed (use run s1 k False in \<open>auto simp: handle_eof_def seqp_def core_eq\<close>)
qed (simp add: handle_eof_def)

lemma feed_buffer_core: "feed_buffer std d c = (r, c') \<Longrightarrow> core c' = core c \<and> ch_closed c' = ch_closed c"
proof -
  assume run: "feed_buffer std d c = (r, c')"
  obtain r1 c1 where k: "on_buffer std (\<lambda>b. feed b (PBytes d)) c = (r1, c1)"
    by (cases "on_buffer std (\<lambda>b. feed b (PBytes d)) c")
  from run have "c' = c1" unfolding feed_buffer_def seqp_def k
    by (cases r1) (auto simp: liftr_def)
  with on_buffer_core [OF k] show ?thesis by simp
qed

lemma check_add_window_core: "check_add_window n c = (r, c') \<Longrightarrow>
    outbox c' = outbox c \<and> eof_sent c' = eof_sent c \<and> ch_closed c' = ch_closed c"
  by (auto simp: check_add_window_def split: if_splits)

lemma chan_step_once: "chan_step s t \<Longrightarrow> once_inv s \<Longrightarrow> once_inv t"
proof (induction rule: chan_step.induct)
  case (lock_close c r c' q)
  then show ?case by (rule close_internal_once)
next
  case (lock_shutdown c r c' q)
  then show ?case by (rule send_eof_once)
next
  case (lock_send fs c s r c' q)
  from send_locked_result [OF lock_send.hyps] show ?case
    by (intro once_inv_quiet [OF lock_send.prems]) blast+
next
  case (lock_read std n c r c' q)
  from on_buffer_core [OF lock_read.hyps] have "once_inv (c', [] @ q)"
    by (intro once_inv_quiet [OF lock_read.prems]) (simp_all add: core_eq)
  then show ?case by simp
next
  case (lock_feed std d c r c' q)
  from feed_buffer_core [OF lock_feed.hyps] have "once_inv (c', [] @ q)"
    by (intro once_inv_quiet [OF lock_feed.prems]) (simp_all add: core_eq)
  then show ?case by simp
next
  case (lock_unlink c r c' q)
  from unlink_core [OF lock_unlink.hyps] have "once_inv (c', [] @ q)"
    by (intro once_inv_quiet [OF lock_unlink.prems]) simp_all
  then show ?case by simp
next
  case (lock_eof c r c' q)
  from handle_eof_core [OF lock_eof.hyps] have "once_inv (c', [] @ q)"
    by (intro once_inv_quiet [OF lock_eof.prems]) (simp_all add: core_eq)
  then show ?case by simp
next
  case (lock_adjust m c r c' q)
  have "once_inv (c', [] @ q)"
    using lock_adjust.hyps by (intro once_inv_quiet [OF lock_adjust.prems]) (auto simp: window_adjust_def split_beta)
  then show ?case by simp
next
  case (lock_ack n c r c' q k)
  from check_add_window_core [OF lock_ack.hyps] show ?case
    by (intro once_inv_quiet [OF lock_ack.prems]) (simp_all add: is_eof_def is_close_def msg_byte_def)
next
  case (hand_over c a m ms b)
  have "length (filter P (all_msgs (c\<lparr>outbox := outbox c @ [m]\<rparr>, a @ ms # b))) =
      length (filter P (all_msgs (c, a @ (m # ms) # b)))" for P
    by (simp add: all_msgs_def)
  with hand_over.prems show ?case by (simp add: once_inv_def)
qed

text \<open>Claim C9. EOF and CLOSE are each sent at most once on a channel: in every interleaving of
  threads that shut down, close, send, receive and unlink it and of the transport's handlers,
  at most one EOF and at most one CLOSE is handed over or still waits to be, and none before the
  channel is marked so.\<close>

theorem eof_and_close_at_most_once:
  assumes "chan_step\<^sup>*\<^sup>* (c0, []) (c, q)" and "outbox c0 = []"
  shows "length (filter is_eof (outbox c @ concat q)) \<le> (if eof_sent c then 1 else 0)
    \<and> length (filter is_close (outbox c @ concat q)) \<le> (if ch_closed c then 1 else 0)"
proof -
  have "once_inv (c0, [])" using assms(2) by (simp add: once_inv_def all_msgs_def)
  with assms(1) have "once_inv (c, q)"
    by (induction rule: rtranclp_induct) (auto intro: chan_step_once)
  then show ?thesis by (simp add: once_inv_def all_msgs_def)
qed

definition live_channel :: channel where
  "live_channel = (new_channel 0 [])\<lparr>has_transport := True, ch_active := True, remote_chanid := 3,
     out_window_size := 100, out_max_packet_size := 4096\<rparr>"

definition shut_channel :: channel where
  "shut_channel = live_channel\<lparr>eof_sent := True\<rparr>"

lemma compose_small [simp]: "compose [FByte b, FInt 3] \<noteq> Inl e"
  by (simp add: compose_def pack_I_def add_int_def)

lemma send_eof_open: "send_eof live_channel = (Ret (Some (eof_msg live_channel)), shut_channel)"
  by (cases "compose (eof_msg live_channel)")
    (simp_all add: send_eof_eq shut_channel_def live_channel_def new_channel_def eof_msg_def msg_byte_def)

theorem eof_and_close_at_most_once_witness:
  "length (filter is_eof ([eof_msg live_channel] @ concat [[]])) \<le> 1"
proof -
  have "chan_step (live_channel, []) (shut_channel, queued (Ret [Some (eof_msg live_channel)]) @ [])"
    using lock_shutdown [OF send_eof_open] by simp
  moreover have "chan_step (shut_channel, [] @ (eof_msg live_channel # []) # [])
      (shut_channel\<lparr>outbox := outbox shut_channel @ [eof_msg live_channel]\<rparr>, [] @ [] # [])"
    by (rule hand_over)
  ultimately have "chan_step\<^sup>*\<^sup>* (live_channel, [])
      (shut_channel\<lparr>outbox := outbox shut_channel @ [eof_msg live_channel]\<rparr>, [[]])" by simp
  from eof_and_close_at_most_once [OF this] show ?thesis
    by (simp add: shut_channel_def live_channel_def new_channel_def)
qed

section \<open>The send window\<close>

definition window_ok :: "channel \<Rightarrow> bool" where
  "window_ok c \<longleftrightarrow> 0 \<le> out_window_size c \<and> MIN_PACKET_SIZE \<le> out_max_packet_size c"

text \<open>The channel at the moment the waiting \<open>send\<close> goes on, and the bytes it may then send.\<close>

fun woken :: "((channel \<Rightarrow> channel) \<times> int) list \<Rightarrow> channel \<Rightarrow> channel" where
  "woken [] c = c"
| "woken ((f, dt) # ws) c =
     (if out_window_size c = 0 \<and> \<not> ch_closed c \<and> \<not> eof_sent c then woken ws (f c) else c)"

definition share :: "int \<Rightarrow> channel \<Rightarrow> int" where
  "share n c =
     (if ch_closed c \<or> eof_sent c then 0
      else min n (min (out_window_size c) (out_max_packet_size c - 64)))"

definition pay :: "int \<Rightarrow> channel \<Rightarrow> channel" where
  "pay n c = c\<lparr>out_window_size := out_window_size c - n\<rparr>"

lemma pay_zero [simp]: "pay 0 c = c" by (simp add: pay_def)

lemma share_bounds: "window_ok c \<Longrightarrow> 0 \<le> n \<Longrightarrow>
    0 \<le> share n c \<and> share n c \<le> n \<and> share n c \<le> out_window_size c \<and> share n c \<le> out_max_packet_size c - 64"
  by (auto simp: share_def window_ok_def)

lemma allocate_eq: "allocate n c = (Ret (share n c), pay (share n c) c)"
  by (auto simp: allocate_def share_def pay_def Let_def min_def)

text \<open>The other threads may do anything that keeps the window well formed.\<close>

definition fair_wakeups :: "((channel \<Rightarrow> channel) \<times> int) list \<Rightarrow> bool" where
  "fair_wakeups ws \<longleftrightarrow> (\<forall>w\<in>set ws. \<forall>c. window_ok c \<longrightarrow> window_ok (fst w c))"

lemma woken_ok: "fair_wakeups ws \<Longrightarrow> window_ok c \<Longrightarrow> window_ok (woken ws c)"
  by (induction ws c rule: woken.induct) (auto simp: fair_wakeups_def)

text \<open>A wait that ends well ends at the first channel that has window or is at its end.\<close>

lemma window_loop_woken:
  "window_loop t ws c = (Ret go, c') \<Longrightarrow>
     c' = woken ws c \<and> (go \<longleftrightarrow> out_window_size c' \<noteq> 0) \<and> (\<not> go \<longrightarrow> ch_closed c' \<or> eof_sent c')"
  by (induction t ws c rule: window_loop.induct) (auto split: if_splits option.splits)

lemma woken_now: "out_window_size c \<noteq> 0 \<or> ch_closed c \<or> eof_sent c \<Longrightarrow> woken ws c = c"
  by (cases ws) auto

lemma wait_for_send_window_woken:
  assumes "wait_for_send_window n ws c = (Ret k, c')"
  shows "k = share n (woken ws c) \<and> c' = pay k (woken ws c)"
proof (cases "out_window_size c \<noteq> 0 \<or> ch_closed c \<or> eof_sent c")
  case True
  then show ?thesis using assms
    by (auto simp: wait_for_send_window_def woken_now allocate_eq share_def split: if_splits)
next
  case False
  then have "seqp (window_loop (ch_timeout c) ws) (\<lambda>go. if go then allocate n else ret 0) c = (Ret k, c')"
    using assms by (simp add: wait_for_send_window_def split: if_splits)
  then obtain go c1 where "window_loop (ch_timeout c) ws c = (Ret go, c1)"
    and "(if go then allocate n else ret 0) c1 = (Ret k, c')" by (auto simp: seqp_Ret)
  then show ?thesis
    using window_loop_woken by (fastforce simp: allocate_eq share_def split: if_splits)
qed

definition header :: "bool \<Rightarrow> channel \<Rightarrow> field list" where
  "header std c = (if std then data_header c else stderr_header c)"

lemma send_msgs_one: "send_msgs [m] c = (Ret u, c') \<Longrightarrow>
    c' = (case m of None \<Rightarrow> c | Some x \<Rightarrow> c\<lparr>outbox := outbox c @ [x]\<rparr>)"
  by (cases m) (auto simp: send_user_message_def seqp_Ret split: if_splits)

lemma send_locked_Ret:
  assumes "send_locked s fs ws c = (Ret (n, m), c')"
  shows "wait_for_send_window (int (length s)) ws c = (Ret n, c') \<and>
     m = (if n = 0 then None else Some (fs @ [FString (slice_to s n)]))"
  using assms by (auto simp: send_locked_def seqp_Ret build_def liftr_Ret Let_def split: if_splits)

lemma send_on_Ret:
  assumes "send_on std s ws c = (Ret n, c')"
  obtains c2 where "wait_for_send_window (int (length s)) ws c = (Ret n, c2)"
    "c' = (if n = 0 then c2 else c2\<lparr>outbox := outbox c2 @ [header std c @ [FString (slice_to s n)]]\<rparr>)"
proof -
  from assms obtain m c2 u where l: "send_locked s (header std c) ws c = (Ret (n, m), c2)"
    and e: "send_msgs [m] c2 = (Ret u, c')"
    by (auto simp: send_on_def seqp_Ret build_def liftr_Ret header_def simp del: send_msgs.simps split: if_splits)
  from send_locked_Ret [OF l] send_msgs_one [OF e] that [of c2] show thesis by (auto split: if_splits)
qed

lemma send_within_window_all:
  assumes "send_on std s ws c = (Ret n, c')" and "window_ok c" and "fair_wakeups ws"
  shows "n = share (int (length s)) (woken ws c) \<and> 0 \<le> n \<and> n \<le> int (length s) \<and> window_ok c' \<and>
    c' = (woken ws c)\<lparr>out_window_size := out_window_size (woken ws c) - n,
            outbox := outbox (woken ws c) @ (if n = 0 then [] else [header std c @ [FString (take (nat n) s)]])\<rparr>"
proof -
  from send_on_Ret [OF assms(1)] obtain c2 where
    w: "wait_for_send_window (int (length s)) ws c = (Ret n, c2)"
    and c': "c' = (if n = 0 then c2 else c2\<lparr>outbox := outbox c2 @ [header std c @ [FString (slice_to s n)]]\<rparr>)"
    by blast
  have n: "n = share (int (length s)) (woken ws c)" and c2: "c2 = pay n (woken ws c)"
    using wait_for_send_window_woken [OF w] by simp_all
  have ok: "window_ok (woken ws c)" using woken_ok assms(2,3) by simp
  from share_bounds [OF ok, of "int (length s)"] have b: "0 \<le> n" "n \<le> int (length s)" "n \<le> out_window_size (woken ws c)"
    by (simp_all add: n)
  moreover have "c' = (woken ws c)\<lparr>out_window_size := out_window_size (woken ws c) - n,
      outbox := outbox (woken ws c) @ (if n = 0 then [] else [header std c @ [FString (take (nat n) s)]])\<rparr>"
    using b(1) by (simp add: c' c2 pay_def slice_to_nonneg)
  ultimately show ?thesis using n ok by (simp add: window_ok_def)
qed

text \<open>Claim C10. When a \<open>send\<close> returns \<open>n\<close>, it had waited until the channel first
  had send window (or had reached its end), \<open>n\<close> is the smallest of the length of its argument, that
  window and the remote's packet size less 64 (0 on a closed or ended channel), and all it did to
  the channel it found then is to lower the window by exactly \<open>n\<close> and to hand over the first \<open>n\<close>
  bytes in one message, none for \<open>n = 0\<close>. So the window never gets negative, for every
  schedule of other threads that keep it so.\<close>

theorem send_within_window:
  assumes "send_on std s ws c = (Ret n, c')" and "window_ok c" and "fair_wakeups ws"
  defines "c1 \<equiv> woken ws c"
  shows "n = share (int (length s)) c1 \<and> 0 \<le> n \<and> n \<le> int (length s) \<and> window_ok c' \<and>
    c' = c1\<lparr>out_window_size := out_window_size c1 - n,
            outbox := outbox c1 @ (if n = 0 then [] else [header std c @ [FString (take (nat n) s)]])\<rparr>"
  unfolding c1_def by (rule send_within_window_all [OF assms(1-3)])

definition opened :: "channel \<Rightarrow> channel" where
  "opened c = c\<lparr>out_window_size := 100\<rparr>"

theorem send_within_window_witness:
  "snd (send_on True [1, 2, 3] [(opened, 5)] (live_channel\<lparr>out_window_size := 0\<rparr>)) =
     live_channel\<lparr>out_window_size := 97, outbox := [header True live_channel @ [FString [1, 2, 3]]]\<rparr>"
proof -
  let ?c = "live_channel\<lparr>out_window_size := 0\<rparr>"
  let ?r = "send_on True [1, 2, 3] [(opened, 5)] ?c"
  have "fst ?r = Ret 3" by code_simp
  then have r: "?r = (Ret 3, snd ?r)" by (metis prod.collapse)
  have "window_ok ?c" "fair_wakeups [(opened, 5)]"
    by (simp_all add: window_ok_def live_channel_def new_channel_def fair_wakeups_def opened_def)
  note sent = send_within_window [OF r this]
  have "woken [(opened, 5)] ?c = live_channel" by (simp add: opened_def live_channel_def new_channel_def)
  with sent show ?thesis
    by (simp add: header_def data_header_def live_channel_def new_channel_def)
qed

text \<open>While \<open>sendall\<close> waits, other threads may send, read, adjust the window or end the stream: they
  keep the channel's numbers and only add to what was handed over.\<close>

definition other_threads :: "((channel \<Rightarrow> channel) \<times> int) list \<Rightarrow> bool" where
  "other_threads ws \<longleftrightarrow> fair_wakeups ws \<and>
     (\<forall>w\<in>set ws. \<forall>c. remote_chanid (fst w c) = remote_chanid c \<and>
        out_max_packet_size (fst w c) = out_max_packet_size c \<and> (\<exists>ms. outbox (fst w c) = outbox c @ ms))"

lemma woken_others:
  "other_threads ws \<Longrightarrow> remote_chanid (woken ws c) = remote_chanid c \<and>
     out_max_packet_size (woken ws c) = out_max_packet_size c \<and> (\<exists>ms. outbox (woken ws c) = outbox c @ ms)"
proof (induction ws c rule: woken.induct)
  case (2 f dt ws c)
  have ot: "other_threads ws" using "2.prems" by (simp add: other_threads_def fair_wakeups_def)
  have f: "remote_chanid (f c) = remote_chanid c" "out_max_packet_size (f c) = out_max_packet_size c"
    "\<exists>ms. outbox (f c) = outbox c @ ms" using "2.prems" by (simp_all add: other_threads_def)
  show ?case using "2.IH" [OF _ ot] f by (auto simp: woken.simps split: if_splits)
qed simp

text \<open>The window the other threads opened (or used) while a call of \<open>sendall\<close> was waiting.\<close>

fun window_gained :: "bool \<Rightarrow> bytes \<Rightarrow> ((channel \<Rightarrow> channel) \<times> int) list list \<Rightarrow> channel \<Rightarrow> int" where
  "window_gained std s [] c = 0"
| "window_gained std s (ws # wss) c =
     (if s = [] then 0
      else out_window_size (woken ws c) - out_window_size c +
        (case send_on std s ws c of
           (Ret sent, c') \<Rightarrow> window_gained std (slice_from s sent) wss c'
         | _ \<Rightarrow> 0))"

definition data_messages :: "bool \<Rightarrow> channel \<Rightarrow> bytes list \<Rightarrow> field list list" where
  "data_messages std c ds = map (\<lambda>d. header std c @ [FString d]) ds"

lemma sendall_sends:
  "sendall_on std s wss c = Some (Ret (), c') \<Longrightarrow> window_ok c \<Longrightarrow> list_all other_threads wss \<Longrightarrow>
   \<exists>ds new. outbox c' = outbox c @ new \<and> subseq (data_messages std c ds) new \<and> concat ds = s \<and>
     (list_all ((=) []) wss \<longrightarrow> new = data_messages std c ds) \<and>
     list_all (\<lambda>d. d \<noteq> [] \<and> int (length d) \<le> out_max_packet_size c - 64) ds"
proof (induction wss arbitrary: s c)
  case Nil
  then show ?case by (intro exI [of _ "[]"]) (simp add: data_messages_def split: if_splits)
next
  case (Cons ws wss)
  show ?case
  proof (cases "s = []")
    case True
    then show ?thesis using Cons.prems by (intro exI [of _ "[]"]) (simp add: data_messages_def)
  next
    case False
    obtain r c2 where r: "send_on std s ws c = (r, c2)" by (cases "send_on std s ws c")
    with Cons.prems(1) False obtain n where n: "r = Ret n"
      and rest: "sendall_on std (slice_from s n) wss c2 = Some (Ret (), c')" by (cases r) auto
    have ot: "other_threads ws" and ots: "list_all other_threads wss" using Cons.prems(3) by simp_all
    then have fw: "fair_wakeups ws" by (simp add: other_threads_def)
    let ?c1 = "woken ws c" and ?d = "take (nat n) s"
    have sent: "n = share (int (length s)) ?c1" "0 \<le> n" "n \<le> int (length s)" "window_ok c2"
      "c2 = ?c1\<lparr>out_window_size := out_window_size ?c1 - n,
         outbox := outbox ?c1 @ (if n = 0 then [] else [header std c @ [FString ?d]])\<rparr>"
      using send_within_window_all [OF r [unfolded n] Cons.prems(2) fw] by blast+
    from woken_others [OF ot] obtain ms where c1: "remote_chanid ?c1 = remote_chanid c"
      "out_max_packet_size ?c1 = out_max_packet_size c" "outbox ?c1 = outbox c @ ms" by blast
    have hd: "data_messages std c2 = data_messages std c" "out_max_packet_size c2 = out_max_packet_size c"
      using c1 by (simp_all add: sent(5) fun_eq_iff data_messages_def header_def data_header_def stderr_header_def)
    from Cons.IH [OF rest sent(4) ots] obtain ds new where ds:
      "outbox c' = outbox c2 @ new" "subseq (data_messages std c ds) new" "concat ds = slice_from s n"
      "list_all ((=) []) wss \<longrightarrow> new = data_messages std c ds"
      "list_all (\<lambda>d. d \<noteq> [] \<and> int (length d) \<le> out_max_packet_size c - 64) ds" unfolding hd by blast
    define es where "es = (if n = 0 then ds else ?d # ds)"
    define front where "front = (if n = 0 then [] else data_messages std c [?d])"
    have es: "data_messages std c es = front @ data_messages std c ds"
      by (simp add: es_def front_def data_messages_def)
    have "outbox c' = outbox c @ (ms @ front @ new)"
      by (simp add: ds(1) sent(5) c1(3) front_def data_messages_def)
    moreover have "subseq (data_messages std c es) (ms @ front @ new)"
      unfolding es using ds(2) by (intro list_emb_append2 list_emb_append_mono) simp_all
    moreover have "concat es = s" using ds(3) sent(2) by (simp add: es_def slice_from_nonneg)
    moreover have "list_all ((=) []) (ws # wss) \<longrightarrow> ms @ front @ new = data_messages std c es"
      using ds(4) c1(3) by (auto simp: es)
    moreover have "list_all (\<lambda>d. d \<noteq> [] \<and> int (length d) \<le> out_max_packet_size c - 64) es"
      using ds(5) sent(2,3) share_bounds [OF woken_ok, of ws c "int (length s)"] Cons.prems(2) ot False c1(2)
      by (auto simp: es_def other_threads_def sent(1) [symmetric])
    ultimately show ?thesis by blast
  qed
qed

lemma sendall_window:
  "sendall_on std s wss c = Some (Ret (), c') \<Longrightarrow> window_ok c \<Longrightarrow> list_all other_threads wss \<Longrightarrow>
   out_window_size c' = out_window_size c + window_gained std s wss c - int (length s) \<and> window_ok c'"
proof (induction wss arbitrary: s c)
  case (Cons ws wss)
  show ?case
  proof (cases "s = []")
    case False
    obtain r c2 where r: "send_on std s ws c = (r, c2)" by (cases "send_on std s ws c")
    with Cons.prems(1) False obtain n where n: "r = Ret n"
      and rest: "sendall_on std (slice_from s n) wss c2 = Some (Ret (), c')" by (cases r) auto
    have "fair_wakeups ws" using Cons.prems(3) by (simp add: other_threads_def)
    note sent = send_within_window_all [OF r [unfolded n] Cons.prems(2) this]
    from sent have "0 \<le> n" "n \<le> int (length s)" "window_ok c2" by blast+
    moreover have "out_window_size c2 = out_window_size (woken ws c) - n"
      using arg_cong [of c2 _ out_window_size] sent by fastforce
    ultimately show ?thesis using Cons.IH [OF rest] Cons.prems(3) r n False by (simp add: slice_from_nonneg)
  qed (use Cons.prems in simp)
qed (simp split: if_splits)

text \<open>Claim C11. A \<open>sendall\<close> that returns has handed over its whole argument, in order, in
  non-empty messages of at most the remote's packet size less 64, whatever the other threads do
  and hand over while it waits for window; when it never waits, nothing comes between. It has taken
  exactly the length of its argument from the window it found and the window that was opened meanwhile.\<close>

theorem sendall_complete:
  assumes "sendall_on std s wss c = Some (Ret (), c')" and "window_ok c" and "list_all other_threads wss"
  shows "(\<exists>ds new. outbox c' = outbox c @ new \<and> subseq (data_messages std c ds) new \<and> concat ds = s \<and>
       (list_all ((=) []) wss \<longrightarrow> new = data_messages std c ds) \<and>
       list_all (\<lambda>d. d \<noteq> [] \<and> int (length d) \<le> out_max_packet_size c - 64) ds) \<and>
     out_window_size c' = out_window_size c + window_gained std s wss c - int (length s) \<and> window_ok c'"
  using sendall_sends [OF assms] sendall_window [OF assms] by blast

definition granting :: "channel \<Rightarrow> channel" where
  "granting c = c\<lparr>out_window_size := 2, outbox := outbox c @ [[FByte 9]]\<rparr>"

theorem sendall_complete_witness:
  "\<exists>ds new. concat ds = [1, 2, 3 :: byte] \<and> subseq (data_messages True live_channel ds) new \<and>
     outbox (snd (the (sendall_on True [1, 2, 3] [[], [(granting, 1)]] (live_channel\<lparr>out_window_size := 2\<rparr>)))) = new \<and>
     out_window_size (snd (the (sendall_on True [1, 2, 3] [[], [(granting, 1)]] (live_channel\<lparr>out_window_size := 2\<rparr>)))) = 1"
proof -
  let ?c = "live_channel\<lparr>out_window_size := 2\<rparr>"
  let ?r = "sendall_on True [1, 2, 3] [[], [(granting, 1)]] ?c"
  have "map_option fst ?r = Some (Ret ())" by code_simp
  then have r: "?r = Some (Ret (), snd (the ?r))" by (cases ?r) auto
  have ok: "window_ok ?c" by (simp add: window_ok_def live_channel_def new_channel_def)
  have ot: "list_all other_threads [[], [(granting, 1)]]"
    by (simp add: other_threads_def fair_wakeups_def window_ok_def granting_def)
  note all = sendall_complete [OF r ok ot]
  have "window_gained True [1, 2, 3] [[], [(granting, 1)]] ?c = 2" by code_simp
  then have "out_window_size (snd (the ?r)) = 1" using conjunct1 [OF conjunct2 [OF all]] by simp
  moreover have "outbox ?c = []" "data_messages True ?c = data_messages True live_channel"
    by (simp_all add: fun_eq_iff live_channel_def new_channel_def data_messages_def header_def data_header_def)
  ultimately show ?thesis using conjunct1 [OF all] by (metis append_Nil)
qed

text \<open>On a channel whose EOF was sent but that is not closed, \<open>send\<close> returns 0 and \<open>sendall\<close>
  never returns.\<close>

theorem sendall_spins_after_eof:
  assumes "eof_sent c" and "\<not> ch_closed c" and "s \<noteq> []" and "compose (header std c) = Inr m"
  shows "sendall_on std s (replicate k []) c = None"
proof (induction k)
  case 0
  then show ?case using assms(3) by simp
next
  case (Suc k)
  have "send_on std s [] c = (Ret 0, c)"
    using assms by (auto simp: send_on_def build_def header_def send_locked_def wait_for_send_window_def
        seqp_def split: if_splits)
  then show ?case using Suc assms(3) by (simp add: slice_from_nonneg)
qed

text \<open>
  The lock is released between taking the window and handing the data over, so another
  thread's EOF can overtake the data: the peer sees data after the end of the stream.
\<close>

definition one_data :: "field list" where
  "one_data = data_header live_channel @ [FString [7]]"

theorem data_can_follow_eof:
  "\<exists>c q. chan_step\<^sup>*\<^sup>* (live_channel, []) (c, q) \<and> outbox c = [eof_msg live_channel, one_data]"
proof -
  let ?c1 = "live_channel\<lparr>out_window_size := 99\<rparr>"
  let ?c2 = "?c1\<lparr>eof_sent := True\<rparr>"
  let ?c3 = "?c2\<lparr>outbox := outbox ?c2 @ [eof_msg live_channel]\<rparr>"
  let ?c4 = "?c3\<lparr>outbox := outbox ?c3 @ [one_data]\<rparr>"
  have "send_locked [7] (data_header live_channel) [] live_channel = (Ret (1, Some one_data), ?c1)"
    unfolding one_data_def by code_simp
  from lock_send [OF disjI1 [OF refl] this, of "[]"]
  have 1: "chan_step (live_channel, []) (?c1, [[one_data]])" by simp
  have "send_eof ?c1 = (Ret (Some (eof_msg live_channel)), ?c2)"
    by (cases "compose (eof_msg live_channel)")
      (simp_all add: send_eof_eq live_channel_def new_channel_def eof_msg_def msg_byte_def)
  from lock_shutdown [OF this, of "[[one_data]]"]
  have 2: "chan_step (?c1, [[one_data]]) (?c2, [[eof_msg live_channel], [one_data]])" by simp
  have 3: "chan_step (?c2, [[eof_msg live_channel], [one_data]]) (?c3, [[], [one_data]])"
    using hand_over [of ?c2 "[]" "eof_msg live_channel" "[]" "[[one_data]]"] by simp
  have 4: "chan_step (?c3, [[], [one_data]]) (?c4, [[], []])"
    using hand_over [of ?c3 "[[]]" one_data "[]" "[]"] by simp
  have "outbox ?c4 = [eof_msg live_channel, one_data]" by (simp add: live_channel_def new_channel_def)
  moreover have "chan_step\<^sup>*\<^sup>* (live_channel, []) (?c4, [[], []])"
    using 1 2 3 4 by (meson rtranclp.rtrancl_into_rtrancl rtranclp.rtrancl_refl)
  ultimately show ?thesis by blast
qed

section \<open>The receive window\<close>

fun acks :: "int list \<Rightarrow> channel \<Rightarrow> int list \<times> channel" where
  "acks [] c = ([], c)"
| "acks (n # ns) c =
     (case check_add_window n c of
        (Ret k, c1) \<Rightarrow> (let (ks, c2) = acks ns c1 in (k # ks, c2))
      | (_, c1) \<Rightarrow> ([], c1))"

definition receiving :: "channel \<Rightarrow> bool" where
  "receiving c \<longleftrightarrow> ch_active c \<and> \<not> ch_closed c \<and> \<not> eof_received c"

lemma check_add_window_open:
  assumes "receiving c" and "0 \<le> in_window_threshold c"
  shows "\<exists>k s. check_add_window n c = (Ret k, c\<lparr>in_window_sofar := s\<rparr>) \<and>
     k + s = n + in_window_sofar c \<and> s \<le> in_window_threshold c \<and>
     (0 \<le> n \<longrightarrow> 0 \<le> in_window_sofar c \<longrightarrow> 0 \<le> s)"
  using assms
  by (auto simp: check_add_window_def receiving_def intro!: exI)

lemma acks_open:
  "receiving c \<Longrightarrow> 0 \<le> in_window_threshold c \<Longrightarrow> in_window_sofar c \<le> in_window_threshold c \<Longrightarrow>
   0 \<le> in_window_sofar c \<Longrightarrow> \<forall>n\<in>set ns. 0 \<le> n \<Longrightarrow> acks ns c = (ks, c') \<Longrightarrow>
     0 \<le> in_window_sofar c' \<and> sum_list ks + in_window_sofar c' = sum_list ns + in_window_sofar c \<and>
     in_window_sofar c' \<le> in_window_threshold c"
proof (induction ns arbitrary: c ks c')
  case (Cons n ns)
  obtain k s where k: "check_add_window n c = (Ret k, c\<lparr>in_window_sofar := s\<rparr>)"
    "k + s = n + in_window_sofar c" "s \<le> in_window_threshold c" "0 \<le> s"
    using check_add_window_open [OF Cons.prems(1,2), of n] Cons.prems(4,5) by auto
  obtain ks1 c1 where r: "acks ns (c\<lparr>in_window_sofar := s\<rparr>) = (ks1, c1)"
    by (cases "acks ns (c\<lparr>in_window_sofar := s\<rparr>)")
  have "receiving (c\<lparr>in_window_sofar := s\<rparr>)" using Cons.prems(1) by (simp add: receiving_def)
  from Cons.IH [OF this _ _ _ _ r] Cons.prems(2,5) k(3,4)
  have "0 \<le> in_window_sofar c1" "sum_list ks1 + in_window_sofar c1 = sum_list ns + s" "in_window_sofar c1 \<le> in_window_threshold c"
    by simp_all
  moreover have "ks = k # ks1" "c' = c1" using Cons.prems(6) k(1) r by simp_all
  ultimately show ?case using k(2) by simp
qed simp

text \<open>Claim C12. A reader gives window back in time: on an open channel whose window was set to
  \<open>w\<close>, after any reads the window adjustments sent never exceed what was read, and once
  everything the peer sent has been read the peer has at least nine tenths of the window, so it
  is never left waiting.\<close>

theorem reader_never_starves_peer:
  assumes "set_window w mp c0 = (Ret (), c)" and "receiving c" and "0 < w"
    and "acks ns c = (ks, c')" and "\<forall>n\<in>set ns. 0 \<le> n"
  shows "sum_list ks \<le> sum_list ns \<and> w - w div 10 \<le> w - sum_list ns + sum_list ks \<and>
    0 < w - sum_list ns + sum_list ks"
proof -
  have c: "in_window_sofar c = 0" "in_window_threshold c = w div 10"
    using assms(1) by (auto simp: set_window_def)
  have "0 \<le> w div 10" "w div 10 < w" using assms(3) by auto
  with acks_open [OF assms(2) _ _ _ assms(5,4)] c show ?thesis by auto
qed

theorem reader_never_starves_peer_witness:
  "0 < (50::int) - sum_list [3, 20, 4] + sum_list [0, 23, 0]"
proof -
  let ?c0 = "(new_channel 0 [])\<lparr>ch_active := True\<rparr>"
  let ?c = "snd (set_window 50 4096 ?c0)"
  have w: "set_window 50 4096 ?c0 = (Ret (), ?c)" by (simp add: set_window_def)
  have "fst (acks [3, 20, 4] ?c) = [0, 23, 0]" by code_simp
  then have a: "acks [3, 20, 4] ?c = ([0, 23, 0], snd (acks [3, 20, 4] ?c))" by (metis prod.collapse)
  have "receiving ?c" by (simp add: receiving_def set_window_def new_channel_def)
  from reader_never_starves_peer [OF w this _ a] show ?thesis by simp
qed

section \<open>After the end of the stream\<close>

lemma close_buffer_Ret:
  assumes "close_buffer std c = (Ret u, c')"
  shows "buffer std c' = (buffer std c)\<lparr>bclosed := True\<rparr> \<and> buffer (\<not> std) c' = buffer (\<not> std) c"
proof -
  from assms obtain c1 where "pipe_calls std (snd (close (buffer std c)))
      (set_buffer std (fst (close (buffer std c))) c) = (Ret (), c1)" "c' = c1"
    by (auto simp: close_buffer_def on_buffer_def seqp_Ret split: prod.splits)
  with pipe_calls_core [OF this(1)] show ?thesis
    by (cases std) (auto simp: set_buffer_def buffer_def close_def)
qed

lemma read_closed:
  assumes "bclosed (buffer std c)" and "0 \<le> n"
  shows "\<exists>c'. read_on std n ws c = (Ret (take (nat n) (buf (buffer std c))), c') \<and>
     buf (buffer std c') = drop (nat n) (buf (buffer std c)) \<and> bclosed (buffer std c') \<and>
     core c' = core c \<and> ch_closed c' = ch_closed c \<and> eof_received c' = eof_received c"
proof (cases "buf (buffer std c) = []")
  case True
  then show ?thesis using assms(1) by (intro exI [of _ c]) (simp add: read_on_def)
next
  case False
  have p: "pipe_calls std [] d = (Ret (), d)" for d by (simp add: pipe_calls_def)
  let ?t = "take_data (buffer std c) n"
  have t: "?t = (take (nat n) (buf (buffer std c)), (buffer std c)\<lparr>buf := drop (nat n) (buf (buffer std c))\<rparr>, [])"
    using assms by (auto simp: take_data_def slice_to_nonneg slice_from_nonneg)
  have run: "on_buffer std (\<lambda>b. take_data b n) c =
      (Ret (take (nat n) (buf (buffer std c))),
       set_buffer std ((buffer std c)\<lparr>buf := drop (nat n) (buf (buffer std c))\<rparr>) c)"
    by (simp add: on_buffer_def t seqp_def p)
  have "buffer std (set_buffer std b c) = b" for b by (simp add: buffer_def set_buffer_def)
  then show ?thesis using False run set_buffer_core assms(1) by (simp add: read_on_def)
qed

lemma recv_closed:
  assumes "bclosed (buffer std c)" and "0 \<le> n" and "ch_closed c \<or> eof_received c"
  shows "\<exists>c'. recv_on std n ws c = (Ret (take (nat n) (buf (buffer std c))), c') \<and>
     buf (buffer std c') = drop (nat n) (buf (buffer std c)) \<and> bclosed (buffer std c') \<and>
     outbox c' = outbox c"
proof -
  from read_closed [OF assms(1,2), of ws] obtain c1 where
    r: "read_on std n ws c = (Ret (take (nat n) (buf (buffer std c))), c1)"
      "buf (buffer std c1) = drop (nat n) (buf (buffer std c))" "bclosed (buffer std c1)"
      "core c1 = core c" "ch_closed c1 = ch_closed c" "eof_received c1 = eof_received c" by blast
  then have "check_add_window k c1 = (Ret 0, c1)" for k
    using assms(3) by (auto simp: check_add_window_def)
  with r(1) have "recv_on std n ws c = (Ret (take (nat n) (buf (buffer std c))), c1)"
    by (simp add: recv_on_def seqp_def socket_timeout_def)
  with r show ?thesis by (intro exI [of _ c1]) (simp add: core_eq)
qed

text \<open>Once the peer's EOF has been handled, \<open>recv\<close> and \<open>recv_stderr\<close> never wait: they
  return what is still buffered, in order, and the empty string when it is used up, without
  asking for more window, whatever the timeout.\<close>

theorem recv_after_eof:
  assumes "handle_eof c = (Ret (), c1)" and "\<not> eof_received c" and "0 \<le> n"
  shows "\<exists>c2. recv_on std n ws c1 = (Ret (take (nat n) (buf (buffer std c))), c2) \<and>
     buf (buffer std c2) = drop (nat n) (buf (buffer std c)) \<and> outbox c2 = outbox c"
proof -
  from assms(1,2) obtain a b d e where
    a: "close_buffer True (c\<lparr>eof_received := True\<rparr>) = (Ret a, b)"
    and d: "close_buffer False b = (Ret d, e)" and p: "pipe_forever e = (Ret (), c1)"
    by (auto simp: handle_eof_def seqp_Ret)
  note ab = close_buffer_Ret [OF a] and de = close_buffer_Ret [OF d]
  have "buffer std c1 = buffer std e" "eof_received c1 = eof_received e"
    using pipe_forever_core [of e] p by (simp_all add: buffer_def)
  moreover have "eof_received e"
    using on_buffer_core [OF a [unfolded close_buffer_def]] on_buffer_core [OF d [unfolded close_buffer_def]]
    by simp
  moreover have "bclosed (buffer std e)" "buf (buffer std e) = buf (buffer std c)"
    using ab de by (cases std; simp add: buffer_def)+
  moreover have "outbox c1 = outbox c" using handle_eof_core [OF assms(1)] by (simp add: core_eq)
  ultimately show ?thesis using recv_closed [of std c1 n ws] assms(3) by auto
qed

definition fed_channel :: channel where
  "fed_channel = snd (feed_buffer True [1, 2, 3] live_channel)"

theorem recv_after_eof_witness:
  "fst (recv_on True 2 [] (snd (handle_eof fed_channel))) = Ret [1, 2]"
proof -
  have "fst (handle_eof fed_channel) = Ret ()" by code_simp
  then have e: "handle_eof fed_channel = (Ret (), snd (handle_eof fed_channel))" by (metis prod.collapse)
  have "\<not> eof_received fed_channel" "buf (buffer True fed_channel) = [1, 2, 3]" by code_simp+
  with recv_after_eof [OF e, of 2 True "[]"] show ?thesis by auto
qed

section \<open>Channel requests\<close>

definition granted :: "(chan_request \<Rightarrow> bool) option \<Rightarrow> pystr \<Rightarrow> bool" where
  "granted server key \<longleftrightarrow> key = lit ''exit-status'' \<or> key = lit ''xon-xoff'' \<or>
     (\<exists>check r. server = Some check \<and> check r)"

lemma decide_Ret: "decide server r c = (Ret ok, c') \<Longrightarrow> c' = c \<and> (ok \<longrightarrow> (\<exists>check. server = Some check \<and> check r))"
  by (auto simp: decide_def split: option.splits)

lemma handle_key_Ret:
  assumes "handle_key server key m c = (Ret ok, c')"
  shows "outbox c' = outbox c \<and> remote_chanid c' = remote_chanid c \<and> (ok \<longrightarrow> granted server key)"
proof -
  have d: "granted server key" if "\<exists>check. server = Some check \<and> check r" for r
    using that by (auto simp: granted_def)
  consider (exit) "key = lit ''exit-status''" | (xon) "key = lit ''xon-xoff''"
    | (ask) r where "decide server r c = (Ret ok, c')" | (other) "ok = False" "c' = c"
    using assms unfolding handle_key_def
    by (auto simp only: seqp_Ret liftr_Ret ret_apply prod.inject outcome.inject split: if_splits prod.splits)
  then show ?thesis
  proof cases
    case ask
    then show ?thesis using decide_Ret [OF ask] d by auto
  qed (use assms in \<open>auto simp: handle_key_def granted_def\<close>)
qed

text \<open>A channel request that is handled without an exception is answered exactly when
  the peer asked for an answer, by one message; the answer is a success only for an exit
  status, for flow control, or when the application's server object agreed. A client, which
  has no server object, grants nothing else.\<close>

theorem request_answered_once:
  assumes "handle_request server m c = (Ret (), c')"
    and "get_text m = Inr (key, m1)" and "get_boolean m1 = (want_reply, m2)"
  shows "\<exists>ok. outbox c' = outbox c @
      (if want_reply then [[msg_byte (if ok then MSG_CHANNEL_SUCCESS else MSG_CHANNEL_FAILURE),
         FInt (remote_chanid c)]] else []) \<and>
     (ok \<longrightarrow> key = lit ''exit-status'' \<or> key = lit ''xon-xoff'' \<or> (\<exists>check r. server = Some check \<and> check r))"
proof -
  from assms obtain ok c1 where k: "handle_key server key m2 c = (Ret ok, c1)"
    and rest: "(if want_reply then
       seqp (gets (\<lambda>c. [msg_byte (if ok then MSG_CHANNEL_SUCCESS else MSG_CHANNEL_FAILURE),
          FInt (remote_chanid c)])) (\<lambda>m. seqp (build m) (\<lambda>_. send_user_message m))
     else ret ()) c1 = (Ret (), c')"
    by (auto simp: handle_request_def seqp_Ret liftr_Ret simp del: if_True if_False split: if_splits)
  note h = handle_key_Ret [OF k]
  let ?reply = "[msg_byte (if ok then MSG_CHANNEL_SUCCESS else MSG_CHANNEL_FAILURE), FInt (remote_chanid c1)]"
  have "outbox c' = outbox c1 @ (if want_reply then [?reply] else [])"
  proof (cases want_reply)
    case True
    then have "seqp (build ?reply) (\<lambda>_. send_user_message ?reply) c1 = (Ret (), c')" using rest by simp
    then have "send_user_message ?reply c1 = (Ret (), c')"
      unfolding seqp_Ret build_def by (auto simp only: seqp_Ret liftr_Ret ret_apply prod.inject)
    with True show ?thesis by (auto simp: send_user_message_def split: if_splits)
  qed (use rest in simp)
  with h show ?thesis unfolding granted_def by (intro exI [of _ ok]) simp
qed

definition shell_request :: message where
  "shell_request = message_of ([0, 0, 0, 5] @ ascii ''shell'' @ [1])"

theorem request_answered_once_witness:
  "outbox (snd (handle_request None shell_request live_channel)) = [[msg_byte MSG_CHANNEL_FAILURE, FInt 3]]"
proof -
  let ?r = "handle_request None shell_request live_channel"
  have "fst ?r = Ret ()" by code_simp
  then have r: "?r = (Ret (), snd ?r)" by (metis prod.collapse)
  obtain m1 where t: "get_text shell_request = Inr (lit ''shell'', m1)" "get_boolean m1 = (True, snd (get_boolean m1))"
  proof -
    have "get_text shell_request = Inr (lit ''shell'', \<lparr>packet = packet shell_request, offset = 9\<rparr>)"
      "fst (get_boolean \<lparr>packet = packet shell_request, offset = 9\<rparr>) = True" by code_simp+
    then show thesis using that by (metis prod.collapse)
  qed
  have "outbox live_channel = []" "remote_chanid live_channel = 3"
    by (simp_all add: live_channel_def new_channel_def)
  moreover have "(lit ''shell'' :: pystr) \<noteq> lit ''exit-status''" "(lit ''shell'' :: pystr) \<noteq> lit ''xon-xoff''"
    by simp_all
  ultimately show ?thesis using request_answered_once [OF r t] by auto
qed

end
