(* ===== verification/Buffered_File.thy ===== *)
theory Buffered_File
  imports Common_Util
begin

text \<open>
  \<open>paramiko/file.py\<close>: \<open>BufferedFile\<close> adds line reading, read buffering and write buffering
  to a raw stream. The raw \<open>_read\<close> and \<open>_write\<close> of the subclass are the lists of their
  future outcomes, so a theorem about all lists holds for every stream, however it cuts the
  data, and whenever it fails. The flag word of the code is its seven bits.
\<close>

section \<open>State\<close>

text \<open>What a raw read may come to: data, the end of the file (\<open>None\<close> or an empty string), or an exception.\<close>

datatype raw_in = Data bytes | AtEnd | Fails py_error
datatype raw_out = Count nat | WriteFails py_error

datatype newlines = NoNewline | OneNewline bytes | Newlines "bytes list"

record bfile =
  src :: "raw_in list"
  sink :: "raw_out list"
  written :: bytes
  newlines :: newlines
  flag_read :: bool
  flag_write :: bool
  flag_append :: bool
  flag_binary :: bool
  flag_buffered :: bool
  flag_line_buffered :: bool
  flag_universal :: bool
  bufsize :: int
  wbuffer :: bytes
  rbuffer :: bytes
  at_trailing_cr :: bool
  f_closed :: bool
  pos :: int
  realpos :: int
  f_size :: int

definition DEFAULT_BUFSIZE :: int where "DEFAULT_BUFSIZE = 8192"

definition new_bfile :: "raw_in list \<Rightarrow> raw_out list \<Rightarrow> bfile" where
  "new_bfile r w =
     \<lparr>src = r, sink = w, written = [], newlines = NoNewline, flag_read = False, flag_write = False,
      flag_append = False, flag_binary = False, flag_buffered = False, flag_line_buffered = False,
      flag_universal = False, bufsize = DEFAULT_BUFSIZE, wbuffer = [], rbuffer = [],
      at_trailing_cr = False, f_closed = False, pos = 0, realpos = 0, f_size = 0\<rparr>"

text \<open>\<open>_set_mode\<close>: \<open>total_size\<close> is what the subclass's \<open>_get_size\<close> returns.\<close>

definition set_mode :: "string \<Rightarrow> int \<Rightarrow> int \<Rightarrow> bfile \<Rightarrow> bfile" where
  "set_mode mode bsize total_size f =
     (let f = f\<lparr>bufsize := DEFAULT_BUFSIZE\<rparr>;
          bsize = (if bsize < 0 then 0 else bsize);
          f = (if bsize = 1 then f\<lparr>flag_buffered := True, flag_line_buffered := True\<rparr>
               else if 1 < bsize then f\<lparr>bufsize := bsize, flag_buffered := True, flag_line_buffered := False\<rparr>
               else f\<lparr>flag_buffered := False, flag_line_buffered := False\<rparr>);
          f = (if CHR ''r'' \<in> set mode \<or> CHR ''+'' \<in> set mode then f\<lparr>flag_read := True\<rparr> else f);
          f = (if CHR ''w'' \<in> set mode \<or> CHR ''+'' \<in> set mode then f\<lparr>flag_write := True\<rparr> else f);
          f = (if CHR ''a'' \<in> set mode
               then f\<lparr>flag_write := True, flag_append := True, f_size := total_size, pos := total_size, realpos := total_size\<rparr>
               else f);
          f = (if CHR ''b'' \<in> set mode then f\<lparr>flag_binary := True\<rparr> else f)
      in if CHR ''U'' \<in> set mode then f\<lparr>flag_universal := True, newlines := NoNewline\<rparr> else f)"

definition readable :: "bfile \<Rightarrow> bool" where "readable f = flag_read f"
definition writable :: "bfile \<Rightarrow> bool" where "writable f = flag_write f"
definition seekable :: "bfile \<Rightarrow> bool" where "seekable f = False"
definition tell :: "bfile \<Rightarrow> int" where "tell f = pos f"
definition seek :: "int \<Rightarrow> int \<Rightarrow> (bfile, unit) prog" where
  "seek off whence = raise (IOError ''File does not support seeking.'')"

text \<open>A raw read of at most \<open>n\<close> bytes; the empty string is the end of the file.\<close>

fun raw_read :: "int \<Rightarrow> raw_in list \<Rightarrow> bytes res \<times> raw_in list" where
  "raw_read n [] = (Inr [], [])"
| "raw_read n (Data d # es) =
     (if int (length d) \<le> n then (Inr d, es) else (Inr (take (nat n) d), Data (drop (nat n) d) # es))"
| "raw_read n (AtEnd # es) = (Inr [], es)"
| "raw_read n (Fails e # es) = (Inl e, es)"

fun src_size :: "raw_in list \<Rightarrow> nat" where
  "src_size [] = 0"
| "src_size (Data d # es) = Suc (length d + src_size es)"
| "src_size (_ # es) = Suc (src_size es)"

lemma raw_read_smaller: "raw_read n es = (Inr d, es') \<Longrightarrow> d \<noteq> [] \<Longrightarrow> src_size es' < src_size es"
  by (induction n es rule: raw_read.induct) (auto split: if_splits)

text \<open>\<open>BufferedFile\<close> takes an \<open>EOFError\<close> of \<open>_read\<close> for the end of the file.\<close>

definition file_read :: "int \<Rightarrow> raw_in list \<Rightarrow> bytes res \<times> raw_in list" where
  "file_read n es = (case raw_read n es of (r, es') \<Rightarrow> (if r = Inl EOFError then Inr [] else r, es'))"

lemma file_read_smaller: "file_read n es = (Inr d, es') \<Longrightarrow> d \<noteq> [] \<Longrightarrow> src_size es' < src_size es"
  by (auto simp: file_read_def split: prod.splits if_splits intro: raw_read_smaller)

section \<open>Reading\<close>

text \<open>The loop of \<open>read()\<close> to the end, and of \<open>read(size)\<close>.\<close>

function read_rest :: "bytes \<Rightarrow> raw_in list \<Rightarrow> bfile \<Rightarrow> bytes outcome \<times> bfile" where
  "read_rest out es f =
     (case file_read DEFAULT_BUFSIZE es of
        (Inl e, es') \<Rightarrow> (Exn e, f\<lparr>src := es'\<rparr>)
      | (Inr d, es') \<Rightarrow>
          if d = [] then (Ret out, f\<lparr>src := es'\<rparr>)
          else read_rest (out @ d) es'
                 (f\<lparr>realpos := realpos f + int (length d), pos := pos f + int (length d)\<rparr>))"
  by auto
termination
  by (relation "measure (\<lambda>(out, es, f). src_size es)") (auto dest: file_read_smaller [OF sym])

function fill :: "int \<Rightarrow> raw_in list \<Rightarrow> bfile \<Rightarrow> unit outcome \<times> bfile" where
  "fill n es f =
     (if int (length (rbuffer f)) < n then
        (let want = n - int (length (rbuffer f));
             want = (if flag_buffered f then max (bufsize f) want else want)
         in case file_read want es of
              (Inl e, es') \<Rightarrow> (Exn e, f\<lparr>src := es'\<rparr>)
            | (Inr d, es') \<Rightarrow>
                if d = [] then (Ret (), f\<lparr>src := es'\<rparr>)
                else fill n es' (f\<lparr>rbuffer := rbuffer f @ d, realpos := realpos f + int (length d)\<rparr>))
      else (Ret (), f\<lparr>src := es\<rparr>))"
  by auto
termination
  by (relation "measure (\<lambda>(n, es, f). src_size es)") (auto dest: file_read_smaller [OF sym])

declare read_rest.simps [simp del] fill.simps [simp del]

text \<open>The common end: hand out the first \<open>n\<close> buffered bytes.\<close>

definition take_buffered :: "int \<Rightarrow> (bfile, bytes) prog" where
  "take_buffered n =
     seqp (gets (\<lambda>f. slice_to (rbuffer f) n)) (\<lambda>result.
     seqp (modify (\<lambda>f. f\<lparr>rbuffer := slice_from (rbuffer f) n, pos := pos f + int (length result)\<rparr>)) (\<lambda>_.
     ret result))"

definition bf_read :: "int option \<Rightarrow> (bfile, bytes) prog" where
  "bf_read sz =
     seqp (gets id) (\<lambda>f.
     if f_closed f then raise (IOError ''File is closed'')
     else if \<not> flag_read f then raise (IOError ''File is not open for reading'')
     else
       (case sz of
          None \<Rightarrow> (\<lambda>f. read_rest (rbuffer f) (src f)
                    (f\<lparr>rbuffer := [], pos := pos f + int (length (rbuffer f))\<rparr>))
        | Some n \<Rightarrow>
            if n < 0 then (\<lambda>f. read_rest (rbuffer f) (src f)
                    (f\<lparr>rbuffer := [], pos := pos f + int (length (rbuffer f))\<rparr>))
            else if n \<le> int (length (rbuffer f)) then take_buffered n
            else seqp (\<lambda>f. fill n (src f) f) (\<lambda>_. take_buffered n)))"

text \<open>The bytes \<open>readinto\<close> puts at the front of its argument, and their number.\<close>

definition readinto :: "nat \<Rightarrow> (bfile, bytes \<times> nat) prog" where
  "readinto len = seqp (bf_read (Some (int len))) (\<lambda>d. ret (d, length d))"

section \<open>Lines\<close>

definition record_newline :: "bytes \<Rightarrow> bfile \<Rightarrow> bfile" where
  "record_newline nl f =
     (if \<not> flag_universal f then f
      else case newlines f of
             NoNewline \<Rightarrow> f\<lparr>newlines := OneNewline nl\<rparr>
           | OneNewline o' \<Rightarrow> if o' \<noteq> nl then f\<lparr>newlines := Newlines [o', nl]\<rparr> else f
           | Newlines ns \<Rightarrow> if nl \<notin> set ns then f\<lparr>newlines := Newlines (ns @ [nl])\<rparr> else f)"

definition cr_byte :: byte where [simp]: "cr_byte = 13"

text \<open>A carriage return ended the last line: a line feed that comes now belongs to it.\<close>

definition after_cr :: "bytes \<Rightarrow> bfile \<Rightarrow> bytes \<times> bfile" where
  "after_cr line f =
     (if at_trailing_cr f \<and> flag_universal f \<and> 0 < length line
      then if hd line = linefeed_byte
           then (tl line, (record_newline [cr_byte, linefeed_byte] f)\<lparr>at_trailing_cr := False\<rparr>)
           else (line, (record_newline [cr_byte] f)\<lparr>at_trailing_cr := False\<rparr>)
      else (line, f))"

datatype line_end = Found bytes | Truncated bytes | EndOfFile bytes

function line_loop :: "int option \<Rightarrow> bytes \<Rightarrow> raw_in list \<Rightarrow> bfile \<Rightarrow> line_end outcome \<times> bfile" where
  "line_loop sz line0 es f0 =
     (let (line, f) = after_cr line0 f0
      in if (case sz of Some n \<Rightarrow> 0 \<le> n \<and> n \<le> int (length line) | None \<Rightarrow> False)
         then (Ret (Truncated (slice_to line (the sz))), f\<lparr>src := es, rbuffer := slice_from line (the sz)\<rparr>)
         else if linefeed_byte \<in> set line \<or> (flag_universal f \<and> cr_byte \<in> set line)
         then (Ret (Found line), f\<lparr>src := es\<rparr>)
         else
           (let n = (case sz of Some n \<Rightarrow> if 0 \<le> n then n - int (length line) else bufsize f
                              | None \<Rightarrow> bufsize f)
            in case file_read n es of
                 (Inl e, es') \<Rightarrow> (Exn e, f\<lparr>src := es'\<rparr>)
               | (Inr d, es') \<Rightarrow>
                   if d = [] then (Ret (EndOfFile line), f\<lparr>src := es'\<rparr>)
                   else line_loop sz (line @ d) es' (f\<lparr>realpos := realpos f + int (length d)\<rparr>)))"
  by auto
termination
  by (relation "measure (\<lambda>(sz, line, es, f). src_size es)") (auto dest: file_read_smaller [OF sym])

declare line_loop.simps [simp del]

definition find_byte :: "byte \<Rightarrow> bytes \<Rightarrow> nat option" where
  "find_byte b xs = (if b \<in> set xs then Some (length (takeWhile (\<lambda>x. x \<noteq> b) xs)) else None)"

definition newline_at :: "bool \<Rightarrow> bytes \<Rightarrow> nat option" where
  "newline_at universal line =
     (case find_byte linefeed_byte line of
        None \<Rightarrow> if universal then find_byte cr_byte line else None
      | Some p \<Rightarrow>
          (case (if universal then find_byte cr_byte line else None) of
             None \<Rightarrow> Some p | Some r \<Rightarrow> if r < p then Some r else Some p))"

definition cut_line :: "bool \<Rightarrow> bytes \<Rightarrow> (bfile, bytes) prog" where
  "cut_line truncated line =
     seqp (gets (\<lambda>f. newline_at (flag_universal f) line)) (\<lambda>p.
     case p of
       None \<Rightarrow> seqp (modify (\<lambda>f. f\<lparr>pos := pos f + int (length line)\<rparr>)) (\<lambda>_. ret line)
     | Some p \<Rightarrow>
         (let xpos = (if line ! p = cr_byte_value \<and> p + 1 < length line \<and> line ! (p + 1) = linefeed_byte
                      then p + 2 else p + 1);
              lf = take (xpos - p) (drop p line)
          in seqp (modify (\<lambda>f. f\<lparr>rbuffer := drop xpos line @ (if truncated then rbuffer f else [])\<rparr>)) (\<lambda>_.
             seqp (modify (\<lambda>f. if length (rbuffer f) = 0 \<and> lf = [cr_byte]
                               then f\<lparr>at_trailing_cr := True\<rparr> else record_newline lf f)) (\<lambda>_.
             seqp (modify (\<lambda>f. f\<lparr>pos := pos f + int (p + 1)\<rparr>)) (\<lambda>_.
             ret (take p line @ [linefeed_byte]))))))"

text \<open>The line as bytes; \<open>readline\<close> then decodes it unless the file is binary.\<close>

definition line_bytes :: "int option \<Rightarrow> (bfile, bytes) prog" where
  "line_bytes sz =
     seqp (gets id) (\<lambda>f.
     if f_closed f then raise (IOError ''File is closed'')
     else if \<not> flag_read f then raise (IOError ''File not open for reading'')
     else
       seqp (\<lambda>f. line_loop sz (rbuffer f) (src f) f) (\<lambda>r.
       case r of
         EndOfFile line \<Rightarrow>
           seqp (modify (\<lambda>f. f\<lparr>rbuffer := [], pos := pos f + int (length line)\<rparr>)) (\<lambda>_. ret line)
       | Found line \<Rightarrow> cut_line False line
       | Truncated line \<Rightarrow> cut_line True line))"

datatype line_value = BytesLine bytes | TextLine pystr

definition decode_line :: "bytes \<Rightarrow> (bfile, line_value) prog" where
  "decode_line line =
     seqp (gets flag_binary) (\<lambda>b.
     if b then ret (BytesLine line)
     else seqp (liftr (u_cast (PBytes line))) (\<lambda>s. ret (TextLine s)))"

definition bf_readline :: "int option \<Rightarrow> (bfile, line_value) prog" where
  "bf_readline sz = seqp (line_bytes sz) decode_line"

text \<open>\<open>readlines\<close>, at most \<open>fuel\<close> lines; \<open>Blocked\<close> is a call that wants to go on.\<close>

fun value_len :: "line_value \<Rightarrow> int" where
  "value_len (BytesLine b) = int (length b)"
| "value_len (TextLine s) = int (length s)"

fun readlines_loop :: "nat \<Rightarrow> int option \<Rightarrow> int \<Rightarrow> (bfile, line_value list) prog" where
  "readlines_loop 0 sizehint count f = (Blocked, f)"
| "readlines_loop (Suc k) sizehint count f =
     seqp (bf_readline None) (\<lambda>line.
       if value_len line = 0 then ret []
       else
         (let count = count + value_len line
          in if (case sizehint of None \<Rightarrow> False | Some h \<Rightarrow> h \<le> count) then ret [line]
             else seqp (readlines_loop k sizehint count) (\<lambda>ls. ret (line # ls)))) f"

definition readlines :: "nat \<Rightarrow> int option \<Rightarrow> (bfile, line_value list) prog" where
  "readlines fuel sizehint = readlines_loop fuel sizehint 0"

section \<open>Writing\<close>

fun write_raw :: "bytes \<Rightarrow> raw_out list \<Rightarrow> bfile \<Rightarrow> unit outcome \<times> bfile" where
  "write_raw data [] f = (if data = [] then Ret () else Blocked, f\<lparr>sink := []\<rparr>)"
| "write_raw data (w # ws) f =
     (if data = [] then (Ret (), f\<lparr>sink := w # ws\<rparr>)
      else case w of
             WriteFails e \<Rightarrow> (Exn e, f\<lparr>sink := ws\<rparr>)
           | Count k \<Rightarrow>
               (let n = min k (length data);
                    f = f\<lparr>written := written f @ take n data\<rparr>;
                    f = (if flag_append f
                         then f\<lparr>f_size := f_size f + int n, pos := f_size f + int n, realpos := f_size f + int n\<rparr>
                         else f\<lparr>pos := pos f + int n, realpos := realpos f + int n\<rparr>)
                in write_raw (drop n data) ws f))"

definition bf_write_all :: "bytes \<Rightarrow> (bfile, unit) prog" where
  "bf_write_all data f = write_raw data (sink f) f"

definition flush :: "(bfile, unit) prog" where
  "flush =
     seqp (gets wbuffer) (\<lambda>w.
     seqp (bf_write_all w) (\<lambda>_.
     modify (\<lambda>f. f\<lparr>wbuffer := []\<rparr>)))"

definition bf_close :: "(bfile, unit) prog" where
  "bf_close = seqp flush (\<lambda>_. modify (\<lambda>f. f\<lparr>f_closed := True\<rparr>))"

text \<open>The position after the last line feed.\<close>

definition last_newline :: "bytes \<Rightarrow> nat option" where
  "last_newline xs =
     (if linefeed_byte \<in> set xs then Some (length xs - length (takeWhile (\<lambda>x. x \<noteq> linefeed_byte) (rev xs)))
      else None)"

fun to_bytes :: "py_obj \<Rightarrow> bytes res" where
  "to_bytes (PStr s) = utf8_encode s"
| "to_bytes (PBytes b) = Inr b"
| "to_bytes (PBuffer b) = Inr b"
| "to_bytes (PAsBytes b) = Inl TypeError"

definition bf_write :: "py_obj \<Rightarrow> (bfile, unit) prog" where
  "bf_write obj =
     seqp (liftr (to_bytes obj)) (\<lambda>data.
     seqp (gets id) (\<lambda>f.
     if f_closed f then raise (IOError ''File is closed'')
     else if \<not> flag_write f then raise (IOError ''File not open for writing'')
     else if \<not> flag_buffered f then bf_write_all data
     else
       seqp (modify (\<lambda>f. f\<lparr>wbuffer := wbuffer f @ data\<rparr>)) (\<lambda>_.
       if flag_line_buffered f then
         (case last_newline data of
            None \<Rightarrow> ret ()
          | Some k \<Rightarrow>
              seqp (gets wbuffer) (\<lambda>wbuf.
              (let cut = length wbuf - length data + k
               in seqp (bf_write_all (take cut wbuf)) (\<lambda>_.
                  modify (\<lambda>f. f\<lparr>wbuffer := drop cut wbuf\<rparr>)))))
       else
         seqp (gets id) (\<lambda>f.
         if bufsize f \<le> int (length (wbuffer f)) then flush else ret ()))))"

fun writelines :: "py_obj list \<Rightarrow> (bfile, unit) prog" where
  "writelines [] = ret ()"
| "writelines (x # xs) = seqp (bf_write x) (\<lambda>_. writelines xs)"

end
