(* ===== verification/File_Props.thy ===== *)
theory File_Props
  imports Buffered_File
begin

text \<open>
  What \<open>BufferedFile\<close> promises over every raw stream: reads lose nothing, lines do not depend
  on how the stream is cut (also with universal newlines), writes come out once and in order
  while the stream does not fail; and what happens to the data when it does.
\<close>

section \<open>Raw reads\<close>

fun raw_bytes :: "raw_in list \<Rightarrow> bytes" where
  "raw_bytes [] = []"
| "raw_bytes (Data d # es) = d @ raw_bytes es"
| "raw_bytes (_ # es) = raw_bytes es"

lemma raw_read_bytes:
  "raw_read n es = (r, es') \<Longrightarrow> (case r of Inr d \<Rightarrow> d | Inl _ \<Rightarrow> []) @ raw_bytes es' = raw_bytes es"
  by (induction n es rule: raw_read.induct) (auto split: if_splits)

lemma raw_read_limit: "raw_read n es = (Inr d, es') \<Longrightarrow> 0 \<le> n \<Longrightarrow> int (length d) \<le> n"
  by (induction n es rule: raw_read.induct) (auto split: if_splits)

text \<open>The stream delivers data until its end.\<close>

definition data_only :: "raw_in list \<Rightarrow> bool" where
  "data_only es \<longleftrightarrow> list_all (\<lambda>e. \<exists>d. e = Data d \<and> d \<noteq> []) es"

lemma data_only_simps [simp]:
  "data_only []" "data_only (Data d # es) \<longleftrightarrow> d \<noteq> [] \<and> data_only es"
  "\<not> data_only (AtEnd # es)" "\<not> data_only (Fails e # es)"
  by (simp_all add: data_only_def)

lemma raw_read_data:
  assumes "data_only es" and "0 < n"
  obtains d es' where "raw_read n es = (Inr d, es')" "data_only es'" "d @ raw_bytes es' = raw_bytes es"
    "d = [] \<longrightarrow> raw_bytes es = []"
proof (cases es)
  case Nil
  then show ?thesis using that by simp
next
  case (Cons e rest)
  with assms(1) obtain d where d: "e = Data d" "d \<noteq> []" "data_only rest" by (cases e) auto
  show ?thesis
  proof (cases "int (length d) \<le> n")
    case True
    then show ?thesis using that [of d rest] d Cons by simp
  next
    case False
    then have "drop (nat n) d \<noteq> []" "take (nat n) d \<noteq> []" using assms(2) d(2) by auto
    then show ?thesis using that [of "take (nat n) d" "Data (drop (nat n) d) # rest"] d Cons False by simp
  qed
qed

text \<open>The same for reads that take an \<open>EOFError\<close> for the end.\<close>

lemma file_read_bytes:
  "file_read n es = (r, es') \<Longrightarrow> (case r of Inr d \<Rightarrow> d | Inl _ \<Rightarrow> []) @ raw_bytes es' = raw_bytes es"
  using raw_read_bytes [of n es] by (auto simp: file_read_def split: prod.splits if_splits sum.splits)

lemma file_read_limit: "file_read n es = (Inr d, es') \<Longrightarrow> 0 \<le> n \<Longrightarrow> int (length d) \<le> n"
  using raw_read_limit [of n es] by (auto simp: file_read_def split: prod.splits if_splits)

lemma file_read_data:
  assumes "data_only es" and "0 < n"
  obtains d es' where "file_read n es = (Inr d, es')" "data_only es'" "d @ raw_bytes es' = raw_bytes es"
    "d = [] \<longrightarrow> raw_bytes es = []"
proof -
  from raw_read_data [OF assms] obtain d es' where "raw_read n es = (Inr d, es')" "data_only es'"
    "d @ raw_bytes es' = raw_bytes es" "d = [] \<longrightarrow> raw_bytes es = []" .
  then show ?thesis by (intro that [of d es']) (simp_all add: file_read_def)
qed

section \<open>read\<close>

definition content :: "bfile \<Rightarrow> bytes" where
  "content f = rbuffer f @ raw_bytes (src f)"

definition got :: "bytes outcome \<Rightarrow> bytes" where
  "got r = (case r of Ret d \<Rightarrow> d | _ \<Rightarrow> [])"

lemma fill_conserves:
  "fill n es f = (r, f') \<Longrightarrow> rbuffer f' @ raw_bytes (src f') = rbuffer f @ raw_bytes es \<and>
     realpos f' - realpos f = int (length (rbuffer f')) - int (length (rbuffer f)) \<and> pos f' = pos f \<and>
     r \<noteq> Blocked"
proof (induction n es f rule: fill.induct)
  case (1 n es f)
  let ?want = "let w = n - int (length (rbuffer f)) in if flag_buffered f then max (bufsize f) w else w"
  obtain q es' where q: "file_read ?want es = (q, es')" by (cases "file_read ?want es")
  show ?case
  proof (cases "int (length (rbuffer f)) < n")
    case True
    show ?thesis
    proof (cases q)
      case (Inl e)
      then show ?thesis using "1.prems" True q file_read_bytes [OF q] by (subst (asm) fill.simps) (auto simp: Let_def)
    next
      case (Inr d)
      show ?thesis
      proof (cases "d = []")
        case True
        then show ?thesis using "1.prems" \<open>int (length (rbuffer f)) < n\<close> q Inr file_read_bytes [OF q]
          by (subst (asm) fill.simps) (auto simp: Let_def)
      next
        case False
        let ?g = "f\<lparr>rbuffer := rbuffer f @ d, realpos := realpos f + int (length d)\<rparr>"
        have "fill n es' ?g = (r, f')"
          using "1.prems" True q Inr False by (subst (asm) fill.simps) (auto simp: Let_def)
        from "1.IH" [OF True refl refl _ _ False this] q Inr file_read_bytes [OF q] show ?thesis
          by (auto simp: Let_def)
      qed
    qed
  next
    case False
    then show ?thesis using "1.prems" by (subst (asm) fill.simps) auto
  qed
qed

text \<open>The file's notion of where it is: the underlying position is ahead by what is buffered.\<close>

definition position_ok :: "bfile \<Rightarrow> bool" where
  "position_ok f \<longleftrightarrow> realpos f = pos f + int (length (rbuffer f))"

lemma take_buffered_eq:
  "0 \<le> n \<Longrightarrow> take_buffered n f =
     (Ret (take (nat n) (rbuffer f)),
      f\<lparr>rbuffer := drop (nat n) (rbuffer f), pos := pos f + int (length (take (nat n) (rbuffer f)))\<rparr>)"
  by (simp add: take_buffered_def slice_to_nonneg slice_from_nonneg)

text \<open>A bounded read loses, invents and reorders nothing, also when the raw stream
  raises: what it returned followed by what is still buffered or still to come is what was
  there before; it returns at most the number of bytes asked for; and \<open>tell\<close> stays the
  underlying position less the buffered bytes.\<close>

theorem read_conserves:
  assumes "bf_read (Some n) f = (r, f')" and "0 \<le> n"
  shows "got r @ content f' = content f \<and> int (length (got r)) \<le> n \<and>
    (position_ok f \<longrightarrow> position_ok f')"
proof -
  consider (no) "f_closed f \<or> \<not> flag_read f"
    | (enough) "\<not> f_closed f" "flag_read f" "n \<le> int (length (rbuffer f))"
    | (need) "\<not> f_closed f" "flag_read f" "int (length (rbuffer f)) < n" by linarith
  then show ?thesis
  proof cases
    case no
    then show ?thesis using assms by (auto simp: bf_read_def got_def split: if_splits)
  next
    case enough
    then have "take_buffered n f = (r, f')" using assms by (auto simp: bf_read_def)
    then show ?thesis using assms(2)
      by (auto simp: take_buffered_eq got_def content_def position_ok_def)
  next
    case need
    obtain q g where g: "fill n (src f) f = (q, g)" by (cases "fill n (src f) f")
    note c = fill_conserves [OF g]
    have run: "seqp (\<lambda>f. fill n (src f) f) (\<lambda>_. take_buffered n) f = (r, f')"
      using assms need by (auto simp: bf_read_def)
    show ?thesis
    proof (cases q)
      case (Ret u)
      then have "take_buffered n g = (r, f')" using run g by (simp add: seqp_def)
      then show ?thesis using assms(2) c
        by (auto simp: take_buffered_eq got_def content_def position_ok_def take_drop_append)
    next
      case (Exn e)
      then show ?thesis using run g c assms(2)
        by (auto simp: seqp_def got_def content_def position_ok_def)
    qed (use c in simp)
  qed
qed

definition demo_file :: bfile where
  "demo_file = set_mode ''rb'' 0 0 (new_bfile [Data [1, 2], Fails SocketTimeout, Data [3]] [])"

theorem read_conserves_witness:
  "content (snd (bf_read (Some 5) demo_file)) = [1, 2, 3]"
proof -
  have r: "bf_read (Some 5) demo_file = (fst (bf_read (Some 5) demo_file), snd (bf_read (Some 5) demo_file))"
    by simp
  have "got (fst (bf_read (Some 5) demo_file)) = []" "content demo_file = [1, 2, 3]" by code_simp+
  with read_conserves [OF r] show ?thesis by simp
qed

text \<open>
  \<open>readline\<close> and an unbounded \<open>read\<close> collect the data in a local variable: when the raw
  stream raises (a channel's time-out, say) what they had taken from it is lost.
\<close>

theorem readline_loses_data_on_timeout:
  "fst (bf_readline None demo_file) = Exn SocketTimeout \<and>
   content (snd (bf_readline None demo_file)) = [3]"
  by code_simp

theorem read_rest_loses_data_on_timeout:
  "fst (bf_read None demo_file) = Exn SocketTimeout \<and>
   content (snd (bf_read None demo_file)) = [3]"
  by code_simp

section \<open>Lines and universal newlines\<close>

fun norm :: "bytes \<Rightarrow> bytes" where
  "norm [] = []"
| "norm (x # xs) =
     (if x = cr_byte
      then linefeed_byte # (case xs of [] \<Rightarrow> [] | y # ys \<Rightarrow> if y = linefeed_byte then norm ys else norm xs)
      else x # norm xs)"

text \<open>\<open>t\<close>: the last byte read was a carriage return that already ended a line.\<close>

definition norm_after :: "bool \<Rightarrow> bytes \<Rightarrow> bytes" where
  "norm_after t xs = norm (if t \<and> xs \<noteq> [] \<and> hd xs = linefeed_byte then tl xs else xs)"

definition view_of :: "bfile \<Rightarrow> bytes \<Rightarrow> bytes" where
  "view_of f rest = (if flag_universal f then norm_after (at_trailing_cr f) rest else rest)"

text \<open>What the reader of lines will see of the file.\<close>

definition view :: "bfile \<Rightarrow> bytes" where
  "view f = view_of f (content f)"

definition is_nl :: "bool \<Rightarrow> byte \<Rightarrow> bool" where
  "is_nl universal b \<longleftrightarrow> b = linefeed_byte \<or> (universal \<and> b = cr_byte)"

lemma norm_plain: "\<forall>b\<in>set a. \<not> is_nl True b \<Longrightarrow> norm (a @ xs) = a @ norm xs"
  by (induction a) (auto simp: is_nl_def)

lemma norm_cr: "norm (13 # xs) = 10 # norm_after True xs"
  by (cases xs) (auto simp: norm_after_def)

lemma norm_lf: "norm (10 # xs) = 10 # norm xs"
  by simp

declare norm.simps(2) [simp del]

lemma norm_after_False [simp]: "norm_after False xs = norm xs"
  by (simp add: norm_after_def)

lemma after_cr_view:
  assumes "after_cr line f = (line', f')"
  shows "view_of f' (line' @ xs) = view_of f (line @ xs)"
    and "flag_universal f' = flag_universal f" "bufsize f' = bufsize f" "line' \<noteq> [] \<and> flag_universal f \<longrightarrow> \<not> at_trailing_cr f'"
    and "line = [] \<longrightarrow> line' = [] \<and> f' = f"
    and "flag_binary f' = flag_binary f" "flag_read f' = flag_read f" "f_closed f' = f_closed f"
  using assms
  by (cases line; auto simp: after_cr_def view_of_def norm_after_def record_newline_def
      split: if_splits newlines.splits)+

lemma view_of_plain:
  assumes "flag_universal f \<longrightarrow> line \<noteq> [] \<longrightarrow> \<not> at_trailing_cr f"
  shows "line \<noteq> [] \<Longrightarrow> view_of f (line @ xs) = (if flag_universal f then norm (line @ xs) else line @ xs)"
    and "\<forall>b\<in>set line. \<not> is_nl (flag_universal f) b \<Longrightarrow> view_of f line = line"
  using assms norm_plain [of line "[]"]
  by (cases line; auto simp: view_of_def norm_after_def)+

definition line_result :: "bfile \<Rightarrow> bytes \<Rightarrow> line_end outcome \<times> bfile \<Rightarrow> bool" where
  "line_result f todo res \<longleftrightarrow>
     (\<exists>r f'. res = (Ret r, f') \<and> data_only (src f') \<and> flag_universal f' = flag_universal f \<and>
        flag_binary f' = flag_binary f \<and> flag_read f' = flag_read f \<and> f_closed f' = f_closed f \<and>
        bufsize f' = bufsize f \<and>
        (case r of
           Found l \<Rightarrow> (\<exists>b\<in>set l. is_nl (flag_universal f) b) \<and> (flag_universal f \<longrightarrow> \<not> at_trailing_cr f') \<and>
             view_of f todo = (if flag_universal f then norm (l @ raw_bytes (src f')) else l @ raw_bytes (src f'))
         | EndOfFile l \<Rightarrow> (\<forall>b\<in>set l. \<not> is_nl (flag_universal f) b) \<and> raw_bytes (src f') = [] \<and>
             view_of f todo = l
         | Truncated l \<Rightarrow> False))"

lemma line_result_cong:
  assumes "line_result g t res" and "view_of g t = view_of f t'"
    and "flag_universal g = flag_universal f" "flag_binary g = flag_binary f" "flag_read g = flag_read f"
      "f_closed g = f_closed f" "bufsize g = bufsize f"
  shows "line_result f t' res"
  using assms(1) unfolding line_result_def assms(2-7) .

lemma line_loop_result:
  "data_only es \<Longrightarrow> 0 < bufsize f \<Longrightarrow> line_result f (line @ raw_bytes es) (line_loop None line es f)"
proof (induction es arbitrary: line f rule: measure_induct_rule [of src_size])
  case (less es)
  obtain l g where ac: "after_cr line f = (l, g)" by (cases "after_cr line f")
  note v = after_cr_view [OF ac]
  show ?case
  proof (cases "\<exists>b\<in>set l. is_nl (flag_universal f) b")
    case True
    then have "line_loop None line es f = (Ret (Found l), g\<lparr>src := es\<rparr>)"
      using ac v(2) by (subst line_loop.simps) (auto simp: is_nl_def Let_def)
    moreover have "l \<noteq> []" using True by auto
    moreover have "view_of f (line @ raw_bytes es) =
        (if flag_universal f then norm (l @ raw_bytes es) else l @ raw_bytes es)"
      using view_of_plain(1) [of g l "raw_bytes es"] v(1) [of "raw_bytes es"] v(2,4) \<open>l \<noteq> []\<close> by simp
    ultimately show ?thesis using True v less.prems(1) by (simp add: line_result_def)
  next
    case False
    have pos: "0 < bufsize g" using less.prems(2) v(3) by simp
    obtain d es' where d: "file_read (bufsize g) es = (Inr d, es')" "data_only es'"
      "d @ raw_bytes es' = raw_bytes es" "d = [] \<longrightarrow> raw_bytes es = []"
      using file_read_data [OF less.prems(1) pos] by blast
    have step: "line_loop None line es f =
        (if d = [] then (Ret (EndOfFile l), g\<lparr>src := es'\<rparr>)
         else line_loop None (l @ d) es' (g\<lparr>realpos := realpos g + int (length d)\<rparr>))"
      using ac v(2) False d(1) by (subst line_loop.simps) (auto simp: is_nl_def Let_def)
    show ?thesis
    proof (cases "d = []")
      case True
      then have "raw_bytes es = []" "raw_bytes es' = []" using d by auto
      moreover have "view_of f line = l"
        using v(1) [of "[]"] view_of_plain(2) [of g l] v(2,4) False by auto
      ultimately show ?thesis using step True v d(2) False by (simp add: line_result_def)
    next
      case nd: False
      let ?g = "g\<lparr>realpos := realpos g + int (length d)\<rparr>"
      have "src_size es' < src_size es" using file_read_smaller [OF d(1)] nd by blast
      from less.IH [OF this d(2), of ?g "l @ d"] pos
      have "line_result ?g ((l @ d) @ raw_bytes es') (line_loop None (l @ d) es' ?g)" by simp
      moreover have "view_of ?g xs = view_of g xs" for xs by (simp add: view_of_def)
      then have "view_of ?g ((l @ d) @ raw_bytes es') = view_of f (line @ raw_bytes es)"
        using v(1) [of "raw_bytes es"] d(3) by simp
      ultimately have "line_result f (line @ raw_bytes es) (line_loop None (l @ d) es' ?g)"
        by (rule line_result_cong) (use v in simp_all)
      then show ?thesis using step nd by simp
    qed
  qed
qed

definition first_line :: "bytes \<Rightarrow> bytes" where
  "first_line xs = (if linefeed_byte \<in> set xs then takeWhile (\<lambda>b. b \<noteq> linefeed_byte) xs @ [linefeed_byte] else xs)"

lemma first_line_cut: "linefeed_byte \<notin> set a \<Longrightarrow> first_line (a @ linefeed_byte # xs) = a @ [linefeed_byte]"
  by (simp add: first_line_def takeWhile_not_in)

text \<open>The first line terminator of a line that has one.\<close>

lemma newline_split:
  assumes "\<exists>b\<in>set l. is_nl u b"
  obtains a c b where "l = a @ c # b" "is_nl u c" "\<forall>x\<in>set a. \<not> is_nl u x"
  using split_list_first_prop [of l "is_nl u"] assms by blast

lemma find_byte_split: "c \<notin> set a \<Longrightarrow> find_byte c (a @ c # b) = Some (length a)"
  by (simp add: find_byte_def takeWhile_not_in)

lemma find_byte_later:
  assumes "x \<notin> set a" and "c \<noteq> x"
  shows "find_byte x (a @ c # b) = None \<or> (\<exists>p. find_byte x (a @ c # b) = Some p \<and> length a < p)"
  using assms by (auto simp: find_byte_def takeWhile_not_in)

lemma newline_at_split:
  assumes "is_nl u c" and "\<forall>x\<in>set a. \<not> is_nl u x"
  shows "newline_at u (a @ c # b) = Some (length a)"
proof (cases "c = linefeed_byte")
  case True
  then have "find_byte linefeed_byte (a @ c # b) = Some (length a)"
    using find_byte_split [of c a b] assms(2) by (auto simp: is_nl_def)
  moreover have "u \<Longrightarrow> find_byte cr_byte (a @ c # b) = None \<or> (\<exists>p. find_byte cr_byte (a @ c # b) = Some p \<and> length a < p)"
    using find_byte_later [of cr_byte a c b] assms(2) True by (auto simp: is_nl_def)
  ultimately show ?thesis by (auto simp: newline_at_def split: option.splits)
next
  case False
  then have u: "u" "c = cr_byte" using assms(1) by (auto simp: is_nl_def)
  then have "find_byte cr_byte (a @ c # b) = Some (length a)"
    using find_byte_split [of c a b] assms(2) by (auto simp: is_nl_def)
  moreover have "find_byte linefeed_byte (a @ c # b) = None \<or>
      (\<exists>p. find_byte linefeed_byte (a @ c # b) = Some p \<and> length a < p)"
    using find_byte_later [of linefeed_byte a c b] assms(2) False by (auto simp: is_nl_def)
  ultimately show ?thesis using u by (auto simp: newline_at_def split: option.splits)
qed

definition same_mode :: "bfile \<Rightarrow> bfile \<Rightarrow> bool" where
  "same_mode f g \<longleftrightarrow> flag_universal f = flag_universal g \<and> flag_binary f = flag_binary g \<and>
     flag_read f = flag_read g \<and> f_closed f = f_closed g \<and> bufsize f = bufsize g"

lemma record_newline_same [simp]:
  "flag_binary (record_newline x f) = flag_binary f" "flag_read (record_newline x f) = flag_read f"
  "f_closed (record_newline x f) = f_closed f" "bufsize (record_newline x f) = bufsize f" "src (record_newline x f) = src f"
  "rbuffer (record_newline x f) = rbuffer f" "at_trailing_cr (record_newline x f) = at_trailing_cr f"
  "flag_universal (record_newline x f) = flag_universal f"
  by (auto simp: record_newline_def split: newlines.splits)

text \<open>What is left of the line after its terminator, and whether a line feed may follow.\<close>

fun after_nl :: "byte \<Rightarrow> bytes \<Rightarrow> bytes" where
  "after_nl c (y # ys) = (if c = cr_byte \<and> y = linefeed_byte then ys else y # ys)"
| "after_nl c [] = []"

lemma cut_line_eq:
  assumes l: "l = a @ c # b" and c: "is_nl (flag_universal g) c"
    and a: "\<forall>x\<in>set a. \<not> is_nl (flag_universal g) x"
  shows "\<exists>f'. cut_line False l g = (Ret (a @ [linefeed_byte]), f') \<and> same_mode f' g \<and> src f' = src g \<and>
     rbuffer f' = after_nl c b \<and>
     at_trailing_cr f' = (if b = [] \<and> c = cr_byte then True else at_trailing_cr g)"
proof -
  have p: "newline_at (flag_universal g) l = Some (length a)"
    unfolding l by (rule newline_at_split [OF c a])
  have nth: "l ! length a = c" "take (length a) l = a" "drop (Suc (length a)) l = b"
    "drop (length a) l = c # b" by (simp_all add: l)
  have nth': "Suc (length a) < length l \<longleftrightarrow> b \<noteq> []" "b \<noteq> [] \<Longrightarrow> l ! Suc (length a) = hd b"
    "drop (Suc (Suc (length a))) l = tl b"
    by (cases b; simp add: l nth_append)+
  show ?thesis
    using p l by (cases b) (auto simp: cut_line_def nth nth'(2,3) nth_append Let_def same_mode_def)
qed

lemma view_after_line:
  assumes "is_nl u c" and "\<forall>x\<in>set a. \<not> is_nl u x"
  shows "(if u then norm ((a @ c # b) @ xs) else (a @ c # b) @ xs) =
    a @ linefeed_byte # (if u then norm_after (b = [] \<and> c = cr_byte) (after_nl c b @ xs) else after_nl c b @ xs)"
proof (cases u)
  case True
  then have "norm ((a @ c # b) @ xs) = a @ norm (c # b @ xs)"
    using assms(2) norm_plain [of a "c # b @ xs"] by simp
  moreover have "norm (c # b @ xs) = linefeed_byte # norm_after (b = [] \<and> c = cr_byte) (after_nl c b @ xs)"
    using assms(1) norm_cr [of "b @ xs"] norm_lf [of "b @ xs"]
    by (cases b) (auto simp: is_nl_def norm_after_def)
  ultimately show ?thesis using True by simp
next
  case False
  then show ?thesis using assms(1) by (cases b) (auto simp: is_nl_def)
qed

definition line_file :: "bfile \<Rightarrow> bool" where
  "line_file f \<longleftrightarrow> data_only (src f) \<and> 0 < bufsize f \<and> \<not> f_closed f \<and> flag_read f"

lemma line_bytes_spec:
  assumes "line_file f"
  shows "\<exists>f'. line_bytes None f = (Ret (first_line (view f)), f') \<and> line_file f' \<and>
     flag_binary f' = flag_binary f \<and> view f = first_line (view f) @ view f'"
proof -
  have f: "data_only (src f)" "0 < bufsize f" "\<not> f_closed f" "flag_read f"
    using assms by (auto simp: line_file_def)
  from line_loop_result [OF f(1,2), of "rbuffer f"] obtain r g where
    run: "line_loop None (rbuffer f) (src f) f = (Ret r, g)"
    and g: "data_only (src g)" "flag_universal g = flag_universal f" "flag_binary g = flag_binary f"
      "flag_read g = flag_read f" "f_closed g = f_closed f" "bufsize g = bufsize f"
    and r: "case r of
           Found l \<Rightarrow> (\<exists>b\<in>set l. is_nl (flag_universal f) b) \<and> (flag_universal f \<longrightarrow> \<not> at_trailing_cr g) \<and>
             view f = (if flag_universal f then norm (l @ raw_bytes (src g)) else l @ raw_bytes (src g))
         | EndOfFile l \<Rightarrow> (\<forall>b\<in>set l. \<not> is_nl (flag_universal f) b) \<and> raw_bytes (src g) = [] \<and> view f = l
         | Truncated l \<Rightarrow> False"
    unfolding line_result_def view_def content_def by blast
  have start: "line_bytes None f = (case r of
         EndOfFile line \<Rightarrow>
           seqp (modify (\<lambda>f. f\<lparr>rbuffer := [], pos := pos f + int (length line)\<rparr>)) (\<lambda>_. ret line)
       | Found line \<Rightarrow> cut_line False line
       | Truncated line \<Rightarrow> cut_line True line) g"
    using f(3,4) run by (simp add: line_bytes_def seqp_def)
  show ?thesis
  proof (cases r)
    case (Found l)
    from r Found have l: "\<exists>b\<in>set l. is_nl (flag_universal g) b" "flag_universal g \<longrightarrow> \<not> at_trailing_cr g"
      "view f = (if flag_universal g then norm (l @ raw_bytes (src g)) else l @ raw_bytes (src g))"
      using g(2) by simp_all
    from newline_split [OF l(1)] obtain a c b where
      abc: "l = a @ c # b" "is_nl (flag_universal g) c" "\<forall>x\<in>set a. \<not> is_nl (flag_universal g) x" by blast
    from cut_line_eq [OF abc] obtain f' where f': "cut_line False l g = (Ret (a @ [linefeed_byte]), f')"
      "same_mode f' g" "src f' = src g" "rbuffer f' = after_nl c b"
      "at_trailing_cr f' = (if b = [] \<and> c = cr_byte then True else at_trailing_cr g)" by blast
    have "view f' = (if flag_universal g
        then norm_after (b = [] \<and> c = cr_byte) (after_nl c b @ raw_bytes (src g))
        else after_nl c b @ raw_bytes (src g))"
      using f' l(2) by (auto simp: view_def view_of_def content_def same_mode_def)
    then have v: "view f = a @ linefeed_byte # view f'"
      using l(3) view_after_line [OF abc(2,3), of b "raw_bytes (src g)"] unfolding abc(1) by (simp only:)
    have "linefeed_byte \<notin> set a" using abc(3) by (auto simp: is_nl_def)
    from first_line_cut [OF this] v have fl: "first_line (view f) = a @ [linefeed_byte]" by simp
    have "line_file f'" "flag_binary f' = flag_binary f"
      using f'(2,3) g f by (auto simp: line_file_def same_mode_def)
    with f'(1) v fl start Found show ?thesis by (intro exI [of _ f']) simp
  next
    case (EndOfFile l)
    let ?h = "g\<lparr>rbuffer := [], pos := pos g + int (length l)\<rparr>"
    have l: "view f = l" "linefeed_byte \<notin> set l" "raw_bytes (src g) = []"
      using r EndOfFile by (auto simp: is_nl_def)
    have "view ?h = []" using l(3) by (simp add: view_def view_of_def content_def norm_after_def)
    moreover have "first_line (view f) = l" using l by (simp add: first_line_def)
    moreover have "line_file ?h" using g f by (simp add: line_file_def)
    ultimately show ?thesis using start EndOfFile l(1) g(3) by (intro exI [of _ ?h]) simp
  qed (use r in simp)
qed

section \<open>All lines\<close>

text \<open>The reference: cut after every line feed.\<close>

function split_lines :: "bytes \<Rightarrow> bytes list" where
  "split_lines xs = (if xs = [] then [] else first_line xs # split_lines (drop (length (first_line xs)) xs))"
  by auto
termination
proof (relation "measure length")
  fix xs :: bytes assume "xs \<noteq> []"
  then have "0 < length (first_line xs)" by (auto simp: first_line_def)
  with \<open>xs \<noteq> []\<close> show "(drop (length (first_line xs)) xs, xs) \<in> measure length" by simp
qed simp

declare split_lines.simps [simp del]

lemma concat_split_lines: "concat (split_lines xs) = xs"
proof (induction xs rule: split_lines.induct)
  case (1 xs)
  have "first_line xs @ drop (length (first_line xs)) xs = xs"
  proof (cases "linefeed_byte \<in> set xs")
    case True
    then obtain a b where "xs = a @ linefeed_byte # b" "linefeed_byte \<notin> set a"
      using split_list_first by metis
    then show ?thesis using first_line_cut [of a b] by simp
  qed (simp add: first_line_def)
  with 1 show ?case by (cases "xs = []") (subst split_lines.simps, simp)+
qed

lemma readlines_loop_spec:
  assumes "line_file f" and "flag_binary f" and "length (view f) < fuel"
  shows "\<exists>f'. readlines_loop fuel None n f = (Ret (map BytesLine (split_lines (view f))), f')"
  using assms
proof (induction fuel arbitrary: f n)
  case (Suc fuel)
  from line_bytes_spec [OF Suc.prems(1)] obtain g where
    g: "line_bytes None f = (Ret (first_line (view f)), g)" "line_file g" "flag_binary g = flag_binary f"
      "view f = first_line (view f) @ view g" by blast
  have line: "bf_readline None f = (Ret (BytesLine (first_line (view f))), g)"
    using g Suc.prems(2) by (simp add: bf_readline_def decode_line_def seqp_def)
  show ?case
  proof (cases "view f = []")
    case True
    then show ?thesis using line by (simp add: first_line_def seqp_def split_lines.simps)
  next
    case False
    then have ne: "0 < length (first_line (view f))" by (auto simp: first_line_def)
    have vg: "view g = drop (length (first_line (view f))) (view f)"
      using g(4) by (metis append_eq_conv_conj)
    have "length (view f) = length (first_line (view f)) + length (view g)"
      using arg_cong [OF g(4), of length] by (simp only: length_append)
    then have "length (view g) < fuel" using ne Suc.prems(3) by linarith
    from Suc.IH [OF g(2) _ this, of "n + int (length (first_line (view f)))"] g(3) Suc.prems(2) obtain h where
      "readlines_loop fuel None (n + int (length (first_line (view f)))) g =
        (Ret (map BytesLine (split_lines (view g))), h)" by auto
    then show ?thesis using line ne False vg
      by (intro exI [of _ h]) (subst split_lines.simps, simp add: seqp_def Let_def)
  qed
qed simp

text \<open>Claim C13. Reading all lines of a binary file gives the file's bytes, with every line
  terminator read as a line feed when universal newlines are on, cut after each line feed. The
  answer does not depend on how the raw stream divides the data, and needs no more calls of
  \<open>readline\<close> than there are bytes.\<close>

theorem readlines_reference:
  assumes "line_file f" and "flag_binary f" and "length (view f) < fuel"
  shows "\<exists>f'. readlines fuel None f = (Ret (map BytesLine (split_lines (view f))), f') \<and>
    concat (split_lines (view f)) = view f"
  using readlines_loop_spec [OF assms, of 0] concat_split_lines by (simp add: readlines_def)

definition crlf_file :: bfile where
  "crlf_file = set_mode ''rbU'' 0 0 (new_bfile [Data [65, 13], Data [10, 66], Data [13, 67]] [])"

theorem readlines_reference_witness:
  "\<exists>f'. readlines 10 None crlf_file = (Ret (map BytesLine [[65, 10], [66, 10], [67]]), f')"
proof -
  have v: "view crlf_file = [65, 10, 66, 10, 67]" by code_simp
  have s: "split_lines [65, 10, 66, 10, 67] = [[65, 10], [66, 10], [67]]"
    by (simp add: split_lines.simps first_line_def)
  have "line_file crlf_file" "flag_binary crlf_file"
    by (simp_all add: line_file_def crlf_file_def set_mode_def new_bfile_def DEFAULT_BUFSIZE_def Let_def)
  from readlines_reference [OF this, of 10] v s show ?thesis by auto
qed

section \<open>Writes\<close>

lemma write_raw_Ret:
  "write_raw data ws f = (Ret u, f') \<Longrightarrow> written f' = written f @ data \<and> wbuffer f' = wbuffer f \<and>
     flag_buffered f' = flag_buffered f"
proof (induction ws arbitrary: data f)
  case (Cons w ws)
  show ?case
  proof (cases "data = [] \<or> (\<exists>e. w = WriteFails e)")
    case True
    then show ?thesis using Cons.prems by (auto split: if_splits)
  next
    case False
    then obtain k where k: "w = Count k" "data \<noteq> []" by (cases w) auto
    let ?n = "min k (length data)"
    define g where "g = (let f = f\<lparr>written := written f @ take ?n data\<rparr>
      in if flag_append f
         then f\<lparr>f_size := f_size f + int ?n, pos := f_size f + int ?n, realpos := f_size f + int ?n\<rparr>
         else f\<lparr>pos := pos f + int ?n, realpos := realpos f + int ?n\<rparr>)"
    have "write_raw (drop ?n data) ws g = (Ret u, f')"
      using Cons.prems k by (simp add: g_def Let_def)
    from Cons.IH [OF this] show ?thesis by (auto simp: g_def Let_def)
  qed
qed (auto split: if_splits)

lemma flush_Ret: "flush f = (Ret u, f') \<Longrightarrow>
    written f' = written f @ wbuffer f \<and> wbuffer f' = [] \<and> flag_buffered f' = flag_buffered f"
  by (auto simp: flush_def seqp_Ret bf_write_all_def dest!: write_raw_Ret)

definition all_written :: "bfile \<Rightarrow> bytes" where
  "all_written f = written f @ wbuffer f"

definition buffer_ok :: "bfile \<Rightarrow> bool" where
  "buffer_ok f \<longleftrightarrow> flag_buffered f \<or> wbuffer f = []"

lemma bf_write_Ret:
  assumes "bf_write obj f = (Ret u, f')" and "buffer_ok f"
  shows "\<exists>d. to_bytes obj = Inr d \<and> all_written f' = all_written f @ d \<and> buffer_ok f'"
proof -
  from assms(1) obtain d where d: "to_bytes obj = Inr d" by (auto simp: bf_write_def seqp_Ret liftr_Ret)
  have open_f: "\<not> f_closed f" "flag_write f" using assms(1) d by (auto simp: bf_write_def split: if_splits)
  let ?g = "f\<lparr>wbuffer := wbuffer f @ d\<rparr>"
  consider (raw) "\<not> flag_buffered f" | (line) "flag_buffered f" "flag_line_buffered f"
    | (block) "flag_buffered f" "\<not> flag_line_buffered f" by blast
  then show ?thesis
  proof cases
    case raw
    then have "bf_write_all d f = (Ret u, f')" using assms(1) d open_f by (simp add: bf_write_def)
    from write_raw_Ret [OF this [unfolded bf_write_all_def]] raw assms(2) d show ?thesis
      by (simp add: all_written_def buffer_ok_def)
  next
    case block
    then have "(if bufsize f \<le> int (length (wbuffer ?g)) then flush ?g else (Ret (), ?g)) = (Ret u, f')"
      using assms(1) d open_f by (simp add: bf_write_def split: if_splits)
    with flush_Ret [of ?g u f'] block d show ?thesis
      by (auto simp: all_written_def buffer_ok_def split: if_splits)
  next
    case line
    show ?thesis
    proof (cases "last_newline d")
      case None
      then have "f' = ?g" using assms(1) d open_f line by (simp add: bf_write_def)
      then show ?thesis using d line by (simp add: all_written_def buffer_ok_def)
    next
      case (Some k)
      let ?cut = "length (wbuffer ?g) - length d + k"
      from Some obtain h where h: "bf_write_all (take ?cut (wbuffer ?g)) ?g = (Ret (), h)"
        "f' = h\<lparr>wbuffer := drop ?cut (wbuffer ?g)\<rparr>"
        using assms(1) d open_f line by (auto simp: bf_write_def seqp_Ret Let_def)
      from write_raw_Ret [OF h(1) [unfolded bf_write_all_def]]
      have hw: "written h = written f @ take ?cut (wbuffer ?g)" "flag_buffered h" using line by auto
      then have "all_written f' = written f @ take ?cut (wbuffer ?g) @ drop ?cut (wbuffer ?g)"
        unfolding h(2) all_written_def by simp
      also have "\<dots> = all_written f @ d" by (simp add: all_written_def del: take_append drop_append)
      finally have "all_written f' = all_written f @ d" .
      then show ?thesis using d hw(2) by (simp add: h(2) buffer_ok_def)
    qed
  qed
qed

lemma writelines_Ret:
  "writelines xs f = (Ret u, f') \<Longrightarrow> buffer_ok f \<Longrightarrow>
     \<exists>ds. map_res to_bytes xs = Inr ds \<and> all_written f' = all_written f @ concat ds \<and> buffer_ok f'"
proof (induction xs arbitrary: f)
  case (Cons x xs)
  from Cons.prems(1) obtain v g where w: "bf_write x f = (Ret v, g)" "writelines xs g = (Ret u, f')"
    by (auto simp: seqp_Ret)
  from bf_write_Ret [OF w(1) Cons.prems(2)] obtain d where d: "to_bytes x = Inr d"
    "all_written g = all_written f @ d" "buffer_ok g" by blast
  from Cons.IH [OF w(2) d(3)] d show ?case by auto
qed auto

text \<open>Writes that succeed come out once and in order, under every buffering mode and
  however little the raw stream accepts at a time: after any sequence of writes and a flush, the
  stream has received exactly the data, in order, and nothing is left in the buffer.\<close>

theorem writes_come_out_in_order:
  assumes "writelines xs f = (Ret u, g)" and "flush g = (Ret v, h)" and "buffer_ok f"
  shows "\<exists>ds. map_res to_bytes xs = Inr ds \<and> written h = written f @ wbuffer f @ concat ds \<and> wbuffer h = []"
  using writelines_Ret [OF assms(1,3)] flush_Ret [OF assms(2)] by (auto simp: all_written_def)

definition out_file :: bfile where
  "out_file = set_mode ''w'' 4 0 (new_bfile [] [Count 1, Count 2, Count 9, Count 9])"

theorem writes_come_out_in_order_witness:
  "written (snd (flush (snd (writelines [PBytes [1, 2, 3], PBytes [4, 5], PBytes [6]] out_file)))) = [1, 2, 3, 4, 5, 6]"
proof -
  let ?w = "writelines [PBytes [1, 2, 3], PBytes [4, 5], PBytes [6]] out_file"
  have "fst ?w = Ret ()" by code_simp
  then have w: "?w = (Ret (), snd ?w)" by (metis prod.collapse)
  have "fst (flush (snd ?w)) = Ret ()" by code_simp
  then have fl: "flush (snd ?w) = (Ret (), snd (flush (snd ?w)))" by (metis prod.collapse)
  have "buffer_ok out_file" "written out_file = []" "wbuffer out_file = []" by code_simp+
  with writes_come_out_in_order [OF w fl] show ?thesis by auto
qed

text \<open>
  A line-buffered write without a line feed returns before the size check, so the buffer grows
  without bound; and a flush that fails half-way keeps what it already wrote in the buffer.
\<close>

theorem line_buffer_ignores_bufsize:
  assumes "\<not> f_closed f" "flag_write f" "flag_buffered f" "flag_line_buffered f" "linefeed_byte \<notin> set d"
  shows "bf_write (PBytes d) f = (Ret (), f\<lparr>wbuffer := wbuffer f @ d\<rparr>)"
  using assms by (simp add: bf_write_def last_newline_def)

definition failing_file :: bfile where
  "failing_file = set_mode ''w'' 4 0 (new_bfile [] [Count 2, WriteFails SocketTimeout, Count 9])"

theorem failed_flush_duplicates:
  "fst (bf_write (PBytes [1, 2, 3, 4]) failing_file) = Exn SocketTimeout \<and>
   written (snd (bf_close (snd (bf_write (PBytes [1, 2, 3, 4]) failing_file)))) = [1, 2, 1, 2, 3, 4]"
  by code_simp

end
