(* ===== verification/Sftp_Wire.thy ===== *)
theory Sftp_Wire
  imports SSH_Message Buffered_File "HOL-Library.AList"
begin

text \<open>
  \<open>paramiko/sftp.py\<close> and \<open>paramiko/sftp_attr.py\<close>: the packets of the SFTP protocol on a
  stream, the version exchange, and the file attributes with their wire form and their
  \<open>ls -l\<close> form. The stream under it (a channel or a socket) is again the list of the outcomes
  of its calls, with the raw reads of \<open>Buffered_File\<close>.
\<close>

section \<open>Constants\<close>

definition CMD_INIT :: int where [simp]: "CMD_INIT = 1"
definition CMD_VERSION :: int where [simp]: "CMD_VERSION = 2"
definition CMD_OPEN :: int where [simp]: "CMD_OPEN = 3"
definition CMD_CLOSE :: int where [simp]: "CMD_CLOSE = 4"
definition CMD_READ :: int where [simp]: "CMD_READ = 5"
definition CMD_WRITE :: int where [simp]: "CMD_WRITE = 6"
definition CMD_LSTAT :: int where [simp]: "CMD_LSTAT = 7"
definition CMD_FSTAT :: int where [simp]: "CMD_FSTAT = 8"
definition CMD_SETSTAT :: int where [simp]: "CMD_SETSTAT = 9"
definition CMD_FSETSTAT :: int where [simp]: "CMD_FSETSTAT = 10"
definition CMD_OPENDIR :: int where [simp]: "CMD_OPENDIR = 11"
definition CMD_READDIR :: int where [simp]: "CMD_READDIR = 12"
definition CMD_REMOVE :: int where [simp]: "CMD_REMOVE = 13"
definition CMD_MKDIR :: int where [simp]: "CMD_MKDIR = 14"
definition CMD_RMDIR :: int where [simp]: "CMD_RMDIR = 15"
definition CMD_REALPATH :: int where [simp]: "CMD_REALPATH = 16"
definition CMD_STAT :: int where [simp]: "CMD_STAT = 17"
definition CMD_RENAME :: int where [simp]: "CMD_RENAME = 18"
definition CMD_READLINK :: int where [simp]: "CMD_READLINK = 19"
definition CMD_SYMLINK :: int where [simp]: "CMD_SYMLINK = 20"
definition CMD_STATUS :: int where [simp]: "CMD_STATUS = 101"
definition CMD_HANDLE :: int where [simp]: "CMD_HANDLE = 102"
definition CMD_DATA :: int where [simp]: "CMD_DATA = 103"
definition CMD_NAME :: int where [simp]: "CMD_NAME = 104"
definition CMD_ATTRS :: int where [simp]: "CMD_ATTRS = 105"
definition CMD_EXTENDED :: int where [simp]: "CMD_EXTENDED = 200"
definition CMD_EXTENDED_REPLY :: int where [simp]: "CMD_EXTENDED_REPLY = 201"

definition SFTP_OK :: int where [simp]: "SFTP_OK = 0"
definition SFTP_EOF :: int where [simp]: "SFTP_EOF = 1"
definition SFTP_NO_SUCH_FILE :: int where [simp]: "SFTP_NO_SUCH_FILE = 2"
definition SFTP_PERMISSION_DENIED :: int where [simp]: "SFTP_PERMISSION_DENIED = 3"
definition SFTP_FAILURE :: int where [simp]: "SFTP_FAILURE = 4"
definition SFTP_BAD_MESSAGE :: int where [simp]: "SFTP_BAD_MESSAGE = 5"
definition SFTP_NO_CONNECTION :: int where [simp]: "SFTP_NO_CONNECTION = 6"
definition SFTP_CONNECTION_LOST :: int where [simp]: "SFTP_CONNECTION_LOST = 7"
definition SFTP_OP_UNSUPPORTED :: int where [simp]: "SFTP_OP_UNSUPPORTED = 8"
definition SFTP_VERSION :: int where [simp]: "SFTP_VERSION = 3"

section \<open>Packets\<close>

record sftp_conn =
  s_rx :: "raw_in list"
  s_tx :: "raw_out list"
  s_out :: bytes

fun sftp_write_loop :: "bytes \<Rightarrow> raw_out list \<Rightarrow> sftp_conn \<Rightarrow> unit outcome \<times> sftp_conn" where
  "sftp_write_loop out [] s = (if out = [] then Ret () else Blocked, s\<lparr>s_tx := []\<rparr>)"
| "sftp_write_loop out (w # ws) s =
     (if out = [] then (Ret (), s\<lparr>s_tx := w # ws\<rparr>)
      else case w of
             WriteFails e \<Rightarrow> (Exn e, s\<lparr>s_tx := ws\<rparr>)
           | Count k \<Rightarrow>
               (let n = min k (length out); s = s\<lparr>s_out := s_out s @ take n out\<rparr>
                in if n = 0 then (Exn EOFError, s\<lparr>s_tx := ws\<rparr>)
                   else if n = length out then (Ret (), s\<lparr>s_tx := ws\<rparr>)
                   else sftp_write_loop (drop n out) ws s))"

definition sftp_write_all :: "bytes \<Rightarrow> (sftp_conn, unit) prog" where
  "sftp_write_all out s = sftp_write_loop out (s_tx s) s"

function sftp_read_loop :: "int \<Rightarrow> bytes \<Rightarrow> raw_in list \<Rightarrow> sftp_conn \<Rightarrow> bytes outcome \<times> sftp_conn" where
  "sftp_read_loop n out es s =
     (if 0 < n then
        (case raw_read n es of
           (Inl e, es') \<Rightarrow> (Exn e, s\<lparr>s_rx := es'\<rparr>)
         | (Inr x, es') \<Rightarrow>
             if x = [] then (Exn EOFError, s\<lparr>s_rx := es'\<rparr>)
             else sftp_read_loop (n - int (length x)) (out @ x) es' s)
      else (Ret out, s\<lparr>s_rx := es\<rparr>))"
  by auto
termination
  by (relation "measure (\<lambda>(n, out, es, s). src_size es)") (auto dest: raw_read_smaller [OF sym])

declare sftp_read_loop.simps [simp del]

definition sftp_read_all :: "int \<Rightarrow> (sftp_conn, bytes) prog" where
  "sftp_read_all n s = sftp_read_loop n [] (s_rx s) s"

definition send_packet :: "int \<Rightarrow> bytes \<Rightarrow> (sftp_conn, unit) prog" where
  "send_packet t pkt =
     seqp (liftr (pack_I (int (length pkt) + 1))) (\<lambda>l.
     seqp (liftr (byte_chr t)) (\<lambda>b.
     sftp_write_all (l @ b @ pkt)))"

definition read_packet :: "(sftp_conn, int \<times> bytes) prog" where
  "read_packet =
     seqp (sftp_read_all 4) (\<lambda>x.
     seqp (liftr (py_index x 0)) (\<lambda>b.
     if byte_ord b \<noteq> 0 then raise (SFTPError ''Garbage packet received'')
     else
       seqp (liftr (unpack_I x)) (\<lambda>n.
       seqp (sftp_read_all n) (\<lambda>d.
       if 0 < n then seqp (liftr (py_index d 0)) (\<lambda>t. ret (byte_ord t, drop 1 d))
       else ret (0, [])))))"

text \<open>The two sides of the version exchange.\<close>

definition send_version :: "(sftp_conn, int) prog" where
  "send_version =
     seqp (liftr (add_int new_message SFTP_VERSION)) (\<lambda>m.
     seqp (send_packet CMD_INIT (msg_asbytes m)) (\<lambda>_.
     seqp read_packet (\<lambda>(t, d).
     if t \<noteq> CMD_VERSION then raise (SFTPError ''Incompatible sftp protocol'')
     else liftr (unpack_I (take 4 d)))))"

definition send_server_version :: "(sftp_conn, int) prog" where
  "send_server_version =
     seqp read_packet (\<lambda>(t, d).
     if t \<noteq> CMD_INIT then raise (SFTPError ''Incompatible sftp protocol'')
     else
       seqp (liftr (unpack_I (take 4 d))) (\<lambda>version.
       seqp (liftr (add_int new_message SFTP_VERSION)) (\<lambda>m.
       seqp (liftr (add_args m [ArgOther (PStr (lit ''check-file'')), ArgOther (PStr (lit ''md5,sha1''))])) (\<lambda>m.
       seqp (send_packet CMD_VERSION (msg_asbytes m)) (\<lambda>_.
       ret version)))))"

section \<open>File attributes\<close>

text \<open>The times are whole seconds; \<open>attr\<close> is a dict in insertion order.\<close>

record sftp_attr =
  st_size :: "int option"
  st_uid :: "int option"
  st_gid :: "int option"
  st_mode :: "int option"
  st_atime :: "int option"
  st_mtime :: "int option"
  attr :: "(bytes \<times> bytes) list"

definition FLAG_SIZE :: int where [simp]: "FLAG_SIZE = 1"
definition FLAG_UIDGID :: int where [simp]: "FLAG_UIDGID = 2"
definition FLAG_PERMISSIONS :: int where [simp]: "FLAG_PERMISSIONS = 4"
definition FLAG_AMTIME :: int where [simp]: "FLAG_AMTIME = 8"
definition FLAG_EXTENDED :: int where [simp]: "FLAG_EXTENDED = 0x80000000"

definition new_attr :: sftp_attr where
  "new_attr = \<lparr>st_size = None, st_uid = None, st_gid = None, st_mode = None, st_atime = None,
     st_mtime = None, attr = []\<rparr>"

text \<open>\<open>from_stat\<close>, of the six fields of a stat object.\<close>

definition from_stat :: "int \<Rightarrow> int \<Rightarrow> int \<Rightarrow> int \<Rightarrow> int \<Rightarrow> int \<Rightarrow> sftp_attr" where
  "from_stat sz uid gid mode atime mtime =
     new_attr\<lparr>st_size := Some sz, st_uid := Some uid, st_gid := Some gid, st_mode := Some mode,
       st_atime := Some atime, st_mtime := Some mtime\<rparr>"

definition has_flag :: "int \<Rightarrow> int \<Rightarrow> bool" where
  "has_flag fl b \<longleftrightarrow> fl AND b \<noteq> 0"

text \<open>
  One round of the loop over the extended attributes. Python evaluates the right-hand side of
  \<open>self.attr[msg.get_string()] = msg.get_string()\<close> first: the first string becomes the value.
\<close>

fun unpack_attrs :: "nat \<Rightarrow> message \<Rightarrow> (bytes \<times> bytes) list \<Rightarrow> (bytes \<times> bytes) list \<times> message" where
  "unpack_attrs 0 m d = (d, m)"
| "unpack_attrs (Suc n) m d =
     (let (val, m) = get_string m; (key, m) = get_string m
      in unpack_attrs n m (AList.update key val d))"

definition on_flag ::
  "int \<Rightarrow> int \<Rightarrow> (sftp_attr \<Rightarrow> message \<Rightarrow> sftp_attr \<times> message) \<Rightarrow> sftp_attr \<times> message \<Rightarrow> sftp_attr \<times> message" where
  "on_flag fl b f am = (if has_flag fl b then f (fst am) (snd am) else am)"

definition attr_unpack :: "message \<Rightarrow> sftp_attr \<times> message" where
  "attr_unpack m =
     (let (fl, m) = get_int m;
          am = (new_attr, m);
          am = on_flag fl FLAG_SIZE (\<lambda>a m. let (n, m) = get_int64 m in (a\<lparr>st_size := Some n\<rparr>, m)) am;
          am = on_flag fl FLAG_UIDGID (\<lambda>a m. let (u, m) = get_int m; (g, m) = get_int m
                                              in (a\<lparr>st_uid := Some u, st_gid := Some g\<rparr>, m)) am;
          am = on_flag fl FLAG_PERMISSIONS (\<lambda>a m. let (n, m) = get_int m in (a\<lparr>st_mode := Some n\<rparr>, m)) am;
          am = on_flag fl FLAG_AMTIME (\<lambda>a m. let (t, m) = get_int m; (u, m) = get_int m
                                              in (a\<lparr>st_atime := Some t, st_mtime := Some u\<rparr>, m)) am
      in on_flag fl FLAG_EXTENDED (\<lambda>a m. let (n, m) = get_int m; (d, m) = unpack_attrs (nat n) m []
                                         in (a\<lparr>attr := d\<rparr>, m)) am)"

definition attr_flags :: "sftp_attr \<Rightarrow> int" where
  "attr_flags a =
     (let fl = 0;
          fl = (if st_size a \<noteq> None then fl OR FLAG_SIZE else fl);
          fl = (if st_uid a \<noteq> None \<and> st_gid a \<noteq> None then fl OR FLAG_UIDGID else fl);
          fl = (if st_mode a \<noteq> None then fl OR FLAG_PERMISSIONS else fl);
          fl = (if st_atime a \<noteq> None \<and> st_mtime a \<noteq> None then fl OR FLAG_AMTIME else fl)
      in if 0 < length (attr a) then fl OR FLAG_EXTENDED else fl)"

fun pack_attrs :: "(bytes \<times> bytes) list \<Rightarrow> message \<Rightarrow> message res" where
  "pack_attrs [] m = Inr m"
| "pack_attrs ((key, val) # kvs) m =
     bind_res (add_string m (PBytes key)) (\<lambda>m.
     bind_res (add_string m (PBytes val)) (\<lambda>m.
     pack_attrs kvs m))"

definition when_flag :: "int \<Rightarrow> int \<Rightarrow> (message \<Rightarrow> message res) \<Rightarrow> message \<Rightarrow> message res" where
  "when_flag fl b f m = (if has_flag fl b then f m else Inr m)"

definition attr_pack :: "sftp_attr \<Rightarrow> message \<Rightarrow> message res" where
  "attr_pack a m =
     (let fl = attr_flags a
      in bind_res (add_int m fl) (\<lambda>m.
         bind_res (when_flag fl FLAG_SIZE (\<lambda>m. add_int64 m (the (st_size a))) m) (\<lambda>m.
         bind_res (when_flag fl FLAG_UIDGID (\<lambda>m. bind_res (add_int m (the (st_uid a))) (\<lambda>m. add_int m (the (st_gid a)))) m) (\<lambda>m.
         bind_res (when_flag fl FLAG_PERMISSIONS (\<lambda>m. add_int m (the (st_mode a))) m) (\<lambda>m.
         bind_res (when_flag fl FLAG_AMTIME (\<lambda>m. bind_res (add_int m (the (st_atime a))) (\<lambda>m. add_int m (the (st_mtime a)))) m) (\<lambda>m.
         when_flag fl FLAG_EXTENDED (\<lambda>m. bind_res (add_int m (int (length (attr a)))) (pack_attrs (attr a))) m))))))"

section \<open>The mode string of \<open>ls -l\<close>\<close>

definition rwx :: "int \<Rightarrow> bool \<Rightarrow> bool \<Rightarrow> string" where
  "rwx n suid sticky =
     (let s = (if suid then 2 else 0 :: int)
      in [''-r'' ! nat (drop_bit 2 n)] @ [''-w'' ! nat (drop_bit 1 n AND 1)] @
         [(if sticky then ''-xTt'' else ''-xSs'') ! nat (s + (n AND 1))])"

definition kind_char :: "int \<Rightarrow> char" where
  "kind_char mode =
     (let kind = mode AND 0xF000
      in if kind = 0x1000 then CHR ''p'' else if kind = 0x2000 then CHR ''c''
         else if kind = 0x4000 then CHR ''d'' else if kind = 0x6000 then CHR ''b''
         else if kind = 0x8000 then CHR ''-'' else if kind = 0xA000 then CHR ''l''
         else if kind = 0xC000 then CHR ''s'' else CHR ''?'')"

definition mode_string :: "int option \<Rightarrow> string" where
  "mode_string mode =
     (case mode of
        None \<Rightarrow> ''?---------''
      | Some m \<Rightarrow> [kind_char m] @
          rwx (drop_bit 6 (m AND 0x1C0)) (m AND 0x800 \<noteq> 0) False @
          rwx (drop_bit 3 (m AND 0x38)) (m AND 0x400 \<noteq> 0) False @
          rwx (m AND 7) (m AND 0x200 \<noteq> 0) True)"

end
