(* ===== verification/Sftp_Props.thy ===== *)
theory Sftp_Props
  imports Sftp_Wire File_Props
begin

text \<open>
  Properties of the SFTP packet layer and of the file attributes: a packet crosses the stream
  unchanged however the stream is divided, what the attribute codec preserves (and what it
  does not), and the shape of the mode string.
\<close>

section \<open>Packets over the stream\<close>

lemma sftp_write_loop_prefix:
  "sftp_write_loop out ws s = (r, s') \<Longrightarrow>
     \<exists>p q. out = p @ q \<and> s_out s' = s_out s @ p \<and> s_rx s' = s_rx s \<and> (r = Ret () \<longrightarrow> q = [])"
proof (induction out ws s arbitrary: r s' rule: sftp_write_loop.induct)
  case (1 out s)
  then show ?case by (intro exI [of _ "[]"] exI [of _ out]) (auto split: if_splits)
next
  case (2 out w ws s)
  show ?case
  proof (cases "out = []")
    case True
    with "2.prems" show ?thesis by (intro exI [of _ "[]"]) auto
  next
    case ne: False
    show ?thesis
    proof (cases w)
      case (WriteFails e)
      with "2.prems" ne show ?thesis by (intro exI [of _ "[]"] exI [of _ out]) auto
    next
      case (Count k)
      let ?n = "min k (length out)" let ?s = "s\<lparr>s_out := s_out s @ take ?n out\<rparr>"
      show ?thesis
      proof (cases "?n = 0 \<or> ?n = length out")
        case True
        with "2.prems" ne Count show ?thesis
          by (intro exI [of _ "take ?n out"] exI [of _ "drop ?n out"]) (auto simp: Let_def split: if_splits)
      next
        case False
        with "2.prems" ne Count have "sftp_write_loop (drop ?n out) ws ?s = (r, s')"
          by (auto simp: Let_def split: if_splits)
        with "2.IH" [OF ne Count refl refl] False obtain p q
          where "drop ?n out = p @ q" "s_out s' = s_out ?s @ p" "s_rx s' = s_rx ?s" "r = Ret () \<longrightarrow> q = []"
          by blast
        moreover from this have "out = (take ?n out @ p) @ q" by (metis append.assoc append_take_drop_id)
        moreover have "s_out ?s @ p = s_out s @ (take ?n out @ p)" "s_rx ?s = s_rx s" by simp_all
        ultimately show ?thesis by metis
      qed
    qed
  qed
qed

lemma sftp_read_loop_data:
  assumes "data_only es" and "raw_bytes es = d @ rest" and "int (length d) = n"
  shows "\<exists>es'. sftp_read_loop n out es s = (Ret (out @ d), s\<lparr>s_rx := es'\<rparr>) \<and> data_only es' \<and> raw_bytes es' = rest"
  using assms
proof (induction es arbitrary: n out d rule: measure_induct_rule [of src_size])
  case (less es)
  show ?case
  proof (cases "0 < n")
    case False
    with less.prems show ?thesis by (subst sftp_read_loop.simps) auto
  next
    case True
    obtain x es' where x: "raw_read n es = (Inr x, es')" "data_only es'" "x @ raw_bytes es' = raw_bytes es"
      "x = [] \<longrightarrow> raw_bytes es = []"
      using raw_read_data [OF less.prems(1) True] .
    have ne: "x \<noteq> []" using x(4) True less.prems by auto
    have "int (length x) \<le> n" using raw_read_limit [OF x(1)] True by simp
    then have le: "length x \<le> length d" using less.prems(3) by simp
    have d: "d = x @ drop (length x) d" and r: "raw_bytes es' = drop (length x) d @ rest"
    proof -
      have e: "x @ raw_bytes es' = d @ rest" using x(3) less.prems(2) by simp
      then have "take (length x) (d @ rest) = x" by (metis append_eq_conv_conj)
      with le show d: "d = x @ drop (length x) d" by (metis append_take_drop_id diff_is_0_eq' take0 take_append append_Nil2)
      from e le show "raw_bytes es' = drop (length x) d @ rest"
        by (metis append_eq_conv_conj drop_append diff_is_0_eq' drop0)
    qed
    have n: "int (length (drop (length x) d)) = n - int (length x)" using le less.prems(3) by simp
    obtain es'' where "sftp_read_loop (n - int (length x)) (out @ x) es' s =
        (Ret ((out @ x) @ drop (length x) d), s\<lparr>s_rx := es''\<rparr>)" "data_only es''" "raw_bytes es'' = rest"
      using less.IH [OF raw_read_smaller [OF x(1) ne] x(2) r n] by blast
    moreover have "sftp_read_loop n out es s = sftp_read_loop (n - int (length x)) (out @ x) es' s"
      using True x(1) ne by (subst sftp_read_loop.simps) simp
    ultimately show ?thesis using d by (metis append_assoc)
  qed
qed

lemma sftp_read_all_data:
  assumes "data_only (s_rx s)" and "raw_bytes (s_rx s) = d @ rest" and "int (length d) = n"
  obtains es' where "sftp_read_all n s = (Ret d, s\<lparr>s_rx := es'\<rparr>)" "data_only es'" "raw_bytes es' = rest"
  using sftp_read_loop_data [OF assms, of "[]" s] by (auto simp: sftp_read_all_def)

text \<open>What \<open>send_packet\<close> puts on the stream.\<close>

definition sftp_frame :: "int \<Rightarrow> bytes \<Rightarrow> bytes" where
  "sftp_frame t pkt = be_bytes 4 (int (length pkt) + 1) @ word_of_int t # pkt"

lemma send_packet_frame:
  assumes "send_packet t pkt s = (Ret (), s')"
  shows "s_out s' = s_out s @ sftp_frame t pkt \<and> 0 \<le> t \<and> t < 256 \<and> int (length pkt) + 1 < 2 ^ 32"
proof -
  from assms obtain l b where l: "pack_I (int (length pkt) + 1) = Inr l" and b: "byte_chr t = Inr b"
    and w: "sftp_write_all (l @ b @ pkt) s = (Ret (), s')"
    by (auto simp: send_packet_def seqp_Ret liftr_Ret)
  have "s_out s' = s_out s @ l @ b @ pkt"
    using sftp_write_loop_prefix [OF w [unfolded sftp_write_all_def]] by auto
  with l b show ?thesis
    by (auto simp: pack_I_def byte_chr_def pack_B_def sftp_frame_def split: if_splits)
qed

lemma read_packet_frame:
  assumes "data_only (s_rx r)" and "raw_bytes (s_rx r) = sftp_frame t pkt @ rest"
    and "0 \<le> t" "t < 256" "int (length pkt) + 1 < 2 ^ 32"
  shows "int (length pkt) + 1 < 2 ^ 24 \<Longrightarrow>
      \<exists>es. read_packet r = (Ret (t, pkt), r\<lparr>s_rx := es\<rparr>) \<and> data_only es \<and> raw_bytes es = rest"
    and "2 ^ 24 \<le> int (length pkt) + 1 \<Longrightarrow>
      fst (read_packet r) = Exn (SFTPError ''Garbage packet received'')"
proof -
  let ?n = "int (length pkt) + 1" let ?x = "be_bytes 4 ?n"
  obtain es where x: "sftp_read_all 4 r = (Ret ?x, r\<lparr>s_rx := es\<rparr>)" and es: "data_only es"
    "raw_bytes es = (word_of_int t # pkt) @ rest"
    using sftp_read_all_data [OF assms(1), of ?x "(word_of_int t # pkt) @ rest" 4] assms(2)
    by (auto simp: sftp_frame_def)
  have hd: "py_index ?x 0 = Inr (word_of_int (?n div 2 ^ 24))"
    by (simp add: be_bytes_4 py_index_def)
  have top: "byte_ord (word_of_int (?n div 2 ^ 24)) = ?n div 2 ^ 24"
    using assms(5) by (simp add: byte_ord_def uint_word_of_int_byte)
  have n: "unpack_I ?x = Inr ?n" using assms(5) by (simp add: unpack_I_def be_val_be_bytes_id)
  show "\<exists>es. read_packet r = (Ret (t, pkt), r\<lparr>s_rx := es\<rparr>) \<and> data_only es \<and> raw_bytes es = rest"
    if "?n < 2 ^ 24"
  proof -
    have z: "byte_ord (word_of_int (?n div 2 ^ 24)) = 0" using top that by simp
    obtain es' where d: "sftp_read_all ?n (r\<lparr>s_rx := es\<rparr>) = (Ret (word_of_int t # pkt), r\<lparr>s_rx := es'\<rparr>)"
      and es': "data_only es'" "raw_bytes es' = rest"
      using sftp_read_all_data [of "r\<lparr>s_rx := es\<rparr>" "word_of_int t # pkt" rest ?n] es by auto
    have t: "byte_ord (word_of_int t) = t" using assms(3,4) by (simp add: byte_ord_def)
    have "read_packet r = (Ret (t, pkt), r\<lparr>s_rx := es'\<rparr>)"
      unfolding read_packet_def seqp_def x using hd z n d t
      by (simp add: seqp_def py_index_def)
    with es' show ?thesis by blast
  qed
  show "fst (read_packet r) = Exn (SFTPError ''Garbage packet received'')" if "2 ^ 24 \<le> ?n"
  proof -
    have "?n div 2 ^ 24 \<noteq> 0" using that by simp
    then have "byte_ord (word_of_int (?n div 2 ^ 24)) \<noteq> 0" using top by simp
    then show ?thesis unfolding read_packet_def seqp_def x using hd by simp
  qed
qed

text \<open>Claim C14. A packet written by \<open>_send_packet\<close> is read back by the peer's
  \<open>_read_packet\<close>, whatever pieces the stream is cut into and whatever follows it, as long as
  its payload stays below 2\^24 - 1 bytes; a longer one, which the sender accepts, is refused by the
  reader as garbage.\<close>

theorem sftp_packet_roundtrip:
  assumes "send_packet t pkt s = (Ret (), s')" and "s_out s = []"
    and "data_only (s_rx r)" and "raw_bytes (s_rx r) = s_out s' @ rest"
  shows "if int (length pkt) + 1 < 2 ^ 24
         then \<exists>es. read_packet r = (Ret (t, pkt), r\<lparr>s_rx := es\<rparr>) \<and> data_only es \<and> raw_bytes es = rest
         else fst (read_packet r) = Exn (SFTPError ''Garbage packet received'')"
proof -
  have f: "s_out s' = sftp_frame t pkt" "0 \<le> t" "t < 256" "int (length pkt) + 1 < 2 ^ 32"
    using send_packet_frame [OF assms(1)] assms(2) by auto
  show ?thesis
    using read_packet_frame [OF assms(3) assms(4) [unfolded f(1)] f(2-4)] by auto
qed

definition demo_sender :: sftp_conn where
  "demo_sender = \<lparr>s_rx = [], s_tx = [Count 2, Count 5, Count 100], s_out = []\<rparr>"

definition demo_reader :: sftp_conn where
  "demo_reader = \<lparr>s_rx = [Data [0], Data [0, 0, 3, 103], Data [7], Data [8, 9]], s_tx = [], s_out = []\<rparr>"

lemma demo_sent: "send_packet 103 [7, 8] demo_sender = (Ret (), demo_sender\<lparr>s_tx := [Count 100], s_out := [0, 0, 0, 3, 103, 7, 8]\<rparr>)"
  by code_simp

theorem sftp_packet_roundtrip_witness:
  "\<exists>es. read_packet demo_reader = (Ret (103, [7, 8]), demo_reader\<lparr>s_rx := es\<rparr>) \<and> data_only es \<and> raw_bytes es = [9]"
  using sftp_packet_roundtrip [OF demo_sent, of demo_reader "[9]"]
  by (simp add: demo_sender_def demo_reader_def)

section \<open>Attributes\<close>

text \<open>The fields \<open>_pack\<close> writes, in order, and what the reader can make of them.\<close>

fun attrs_fields :: "(bytes \<times> bytes) list \<Rightarrow> field list" where
  "attrs_fields [] = []"
| "attrs_fields ((key, val) # kvs) = FString key # FString val # attrs_fields kvs"

definition if_some :: "'a option \<Rightarrow> 'b option \<Rightarrow> field list \<Rightarrow> field list" where
  "if_some x y fs = (if x \<noteq> None \<and> y \<noteq> None then fs else [])"

definition attr_fields :: "sftp_attr \<Rightarrow> field list" where
  "attr_fields a =
     [FInt (attr_flags a)] @
     if_some (st_size a) (st_size a) [FInt64 (the (st_size a))] @
     if_some (st_uid a) (st_gid a) [FInt (the (st_uid a)), FInt (the (st_gid a))] @
     if_some (st_mode a) (st_mode a) [FInt (the (st_mode a))] @
     if_some (st_atime a) (st_mtime a) [FInt (the (st_atime a)), FInt (the (st_mtime a))] @
     (if attr a = [] then [] else FInt (int (length (attr a))) # attrs_fields (attr a))"

definition attr_seen :: "sftp_attr \<Rightarrow> sftp_attr" where
  "attr_seen a =
     \<lparr>st_size = st_size a,
      st_uid = (if st_gid a = None then None else st_uid a),
      st_gid = (if st_uid a = None then None else st_gid a),
      st_mode = st_mode a,
      st_atime = (if st_mtime a = None then None else st_atime a),
      st_mtime = (if st_atime a = None then None else st_mtime a),
      attr = fold (\<lambda>(key, val). AList.update val key) (attr a) []\<rparr>"

lemma flags_value:
  "attr_flags a = (if attr a = [] then 0 else 0x80000000) +
     (if st_atime a \<noteq> None \<and> st_mtime a \<noteq> None then 8 else 0) + (if st_mode a = None then 0 else 4) +
     (if st_uid a \<noteq> None \<and> st_gid a \<noteq> None then 2 else 0) + (if st_size a = None then 0 else 1)"
  by (simp add: attr_flags_def)

lemma flag_conditions:
  "has_flag (attr_flags a) FLAG_SIZE \<longleftrightarrow> st_size a \<noteq> None"
  "has_flag (attr_flags a) FLAG_UIDGID \<longleftrightarrow> st_uid a \<noteq> None \<and> st_gid a \<noteq> None"
  "has_flag (attr_flags a) FLAG_PERMISSIONS \<longleftrightarrow> st_mode a \<noteq> None"
  "has_flag (attr_flags a) FLAG_AMTIME \<longleftrightarrow> st_atime a \<noteq> None \<and> st_mtime a \<noteq> None"
  "has_flag (attr_flags a) FLAG_EXTENDED \<longleftrightarrow> attr a \<noteq> []"
  unfolding flags_value has_flag_def by simp_all

lemma add_seq_append: "add_seq f m (xs @ ys) = bind_res (add_seq f m xs) (\<lambda>m. add_seq f m ys)"
  by (induction xs arbitrary: m) (simp_all add: bind_res_assoc)

lemma pack_attrs_fields: "pack_attrs kvs = (\<lambda>m. add_seq add_field m (attrs_fields kvs))"
proof (induction kvs)
  case (Cons kv kvs)
  obtain k v where kv: "kv = (k, v)" by (cases kv)
  have "pack_attrs (kv # kvs) m = add_seq add_field m (attrs_fields (kv # kvs))" for m
    unfolding kv pack_attrs.simps attrs_fields.simps add_seq.simps add_field.simps Cons.IH ..
  then show ?case by blast
qed (simp add: fun_eq_iff)

lemma attr_pack_fields: "attr_pack a m = add_seq add_field m (attr_fields a)"
proof -
  have one: "bind_res r Inr = r" for r :: "message res" by (cases r) simp_all
  have swap: "(if b \<noteq> [] then x else y) = (if b = [] then y else x)" for b :: "(bytes \<times> bytes) list" and x y :: "message res"
    by simp
  show ?thesis
    unfolding attr_pack_def attr_fields_def add_seq_append when_flag_def flag_conditions if_some_def Let_def
    by (simp add: one swap pack_attrs_fields add_seq_append bind_res_assoc if_distrib [of "add_seq add_field _"] cong: if_cong)
qed

lemma reads_attrs:
  "reads w (attrs_fields kvs) r m \<Longrightarrow>
     \<exists>m'. unpack_attrs (length kvs) m d = (fold (\<lambda>(key, val). AList.update val key) kvs d, m') \<and> reads w [] r m'"
proof (induction kvs arbitrary: m d)
  case Nil
  then show ?case by simp
next
  case (Cons kv kvs)
  obtain k v where kv: "kv = (k, v)" by (cases kv)
  have "reads w (FString k # FString v # attrs_fields kvs) r m" using Cons.prems kv by simp
  from reads_string [OF this] obtain m1 where
    m1: "get_string m = (k, m1)" "reads w (FString v # attrs_fields kvs) r m1" by blast
  from reads_string [OF m1(2)] m1(1) obtain m2 where
    "get_string m = (k, m1)" "get_string m1 = (v, m2)" "reads w (attrs_fields kvs) r m2" by blast
  with Cons.IH [of m2 "AList.update v k d"] kv show ?case by simp
qed

lemma unpack_stage:
  assumes "reads w (if_some x y fs @ gs) r m" and "has_flag fl b \<longleftrightarrow> x \<noteq> None \<and> y \<noteq> None"
    and "x \<noteq> None \<Longrightarrow> y \<noteq> None \<Longrightarrow> reads w (fs @ gs) r m \<Longrightarrow> \<exists>m'. f a m = (a', m') \<and> reads w gs r m'"
    and "\<not> (x \<noteq> None \<and> y \<noteq> None) \<Longrightarrow> a' = a"
  shows "\<exists>m'. on_flag fl b f (a, m) = (a', m') \<and> reads w gs r m'"
proof (cases "x \<noteq> None \<and> y \<noteq> None")
  case True
  with assms(1-3) show ?thesis by (simp add: on_flag_def if_some_def)
next
  case False
  with assms(1,2,4) show ?thesis by (auto simp: on_flag_def if_some_def)
qed

lemma stage_size:
  assumes "reads w (if_some (st_size a) (st_size a) [FInt64 (the (st_size a))] @ gs) r m" and "st_size b = None"
  shows "\<exists>m'. on_flag (attr_flags a) FLAG_SIZE (\<lambda>a m. let (n, m) = get_int64 m in (a\<lparr>st_size := Some n\<rparr>, m)) (b, m) =
    (b\<lparr>st_size := st_size a\<rparr>, m') \<and> reads w gs r m'"
proof (rule unpack_stage [OF assms(1)])
  assume "reads w ([FInt64 (the (st_size a))] @ gs) r m" and "st_size a \<noteq> None"
  with reads_int64 [of w "the (st_size a)" gs r m]
  show "\<exists>m'. (let (n, m) = get_int64 m in (b\<lparr>st_size := Some n\<rparr>, m)) = (b\<lparr>st_size := st_size a\<rparr>, m') \<and> reads w gs r m'"
    by auto
qed (use assms(2) flag_conditions in auto)

lemma stage_mode:
  assumes "reads w (if_some (st_mode a) (st_mode a) [FInt (the (st_mode a))] @ gs) r m" and "st_mode b = None"
  shows "\<exists>m'. on_flag (attr_flags a) FLAG_PERMISSIONS (\<lambda>a m. let (n, m) = get_int m in (a\<lparr>st_mode := Some n\<rparr>, m)) (b, m) =
    (b\<lparr>st_mode := st_mode a\<rparr>, m') \<and> reads w gs r m'"
proof (rule unpack_stage [OF assms(1)])
  assume "reads w ([FInt (the (st_mode a))] @ gs) r m" and "st_mode a \<noteq> None"
  with reads_int [of w "the (st_mode a)" gs r m]
  show "\<exists>m'. (let (n, m) = get_int m in (b\<lparr>st_mode := Some n\<rparr>, m)) = (b\<lparr>st_mode := st_mode a\<rparr>, m') \<and> reads w gs r m'"
    by auto
qed (use assms(2) flag_conditions in auto)

lemma reads_two:
  assumes "reads w ([FInt i, FInt j] @ gs) r m"
  shows "\<exists>m1 m2. get_int m = (i, m1) \<and> get_int m1 = (j, m2) \<and> reads w gs r m2"
  using assms reads_int by (metis append_Cons append_Nil)

lemma stage_owner:
  assumes "reads w (if_some (st_uid a) (st_gid a) [FInt (the (st_uid a)), FInt (the (st_gid a))] @ gs) r m"
    and "st_uid b = None" "st_gid b = None"
  shows "\<exists>m'. on_flag (attr_flags a) FLAG_UIDGID (\<lambda>a m. let (u, m) = get_int m; (g, m) = get_int m
      in (a\<lparr>st_uid := Some u, st_gid := Some g\<rparr>, m)) (b, m) =
    (b\<lparr>st_uid := st_uid (attr_seen a), st_gid := st_gid (attr_seen a)\<rparr>, m') \<and> reads w gs r m'"
proof (rule unpack_stage [OF assms(1)])
  assume "reads w ([FInt (the (st_uid a)), FInt (the (st_gid a))] @ gs) r m" and "st_uid a \<noteq> None" "st_gid a \<noteq> None"
  with reads_two [of w "the (st_uid a)" "the (st_gid a)" gs r m]
  show "\<exists>m'. (let (u, m) = get_int m; (g, m) = get_int m in (b\<lparr>st_uid := Some u, st_gid := Some g\<rparr>, m)) =
      (b\<lparr>st_uid := st_uid (attr_seen a), st_gid := st_gid (attr_seen a)\<rparr>, m') \<and> reads w gs r m'"
    by (auto simp: attr_seen_def)
qed (use assms(2,3) flag_conditions in \<open>auto simp: attr_seen_def\<close>)

lemma stage_times:
  assumes "reads w (if_some (st_atime a) (st_mtime a) [FInt (the (st_atime a)), FInt (the (st_mtime a))] @ gs) r m"
    and "st_atime b = None" "st_mtime b = None"
  shows "\<exists>m'. on_flag (attr_flags a) FLAG_AMTIME (\<lambda>a m. let (t, m) = get_int m; (u, m) = get_int m
      in (a\<lparr>st_atime := Some t, st_mtime := Some u\<rparr>, m)) (b, m) =
    (b\<lparr>st_atime := st_atime (attr_seen a), st_mtime := st_mtime (attr_seen a)\<rparr>, m') \<and> reads w gs r m'"
proof (rule unpack_stage [OF assms(1)])
  assume "reads w ([FInt (the (st_atime a)), FInt (the (st_mtime a))] @ gs) r m" and "st_atime a \<noteq> None" "st_mtime a \<noteq> None"
  with reads_two [of w "the (st_atime a)" "the (st_mtime a)" gs r m]
  show "\<exists>m'. (let (t, m) = get_int m; (u, m) = get_int m in (b\<lparr>st_atime := Some t, st_mtime := Some u\<rparr>, m)) =
      (b\<lparr>st_atime := st_atime (attr_seen a), st_mtime := st_mtime (attr_seen a)\<rparr>, m') \<and> reads w gs r m'"
    by (auto simp: attr_seen_def)
qed (use assms(2,3) flag_conditions in \<open>auto simp: attr_seen_def\<close>)

lemma stage_extended:
  assumes "reads w (if attr a = [] then [] else FInt (int (length (attr a))) # attrs_fields (attr a)) r m"
    and "attr b = []"
  shows "\<exists>m'. on_flag (attr_flags a) FLAG_EXTENDED (\<lambda>a m. let (n, m) = get_int m; (d, m) = unpack_attrs (nat n) m []
      in (a\<lparr>attr := d\<rparr>, m)) (b, m) = (b\<lparr>attr := attr (attr_seen a)\<rparr>, m') \<and> reads w [] r m'"
proof (cases "attr a = []")
  case True
  with assms show ?thesis by (simp add: on_flag_def flag_conditions attr_seen_def del: FLAG_EXTENDED_def)
next
  case False
  then have "reads w (FInt (int (length (attr a))) # attrs_fields (attr a)) r m" using assms(1) by simp
  from reads_int [OF this] obtain m1 where
    m1: "get_int m = (int (length (attr a)), m1)" "reads w (attrs_fields (attr a)) r m1" by blast
  have d: "attr (attr_seen a) = fold (\<lambda>(key, val). AList.update val key) (attr a) []"
    by (simp add: attr_seen_def)
  from reads_attrs [OF m1(2)] obtain m2 where
    "unpack_attrs (length (attr a)) m1 [] = (attr (attr_seen a), m2)" "reads w [] r m2"
    unfolding d by blast
  with m1(1) False show ?thesis by (simp add: on_flag_def flag_conditions del: FLAG_EXTENDED_def)
qed

lemma new_attr_fields [simp]:
  "st_size new_attr = None" "st_uid new_attr = None" "st_gid new_attr = None" "st_mode new_attr = None"
  "st_atime new_attr = None" "st_mtime new_attr = None" "attr new_attr = []"
  by (simp_all add: new_attr_def)

lemma unpack_reads:
  assumes "reads w (attr_fields a) r m"
  shows "\<exists>m'. attr_unpack m = (attr_seen a, m') \<and> reads w [] r m'"
proof -
  let ?a1 = "new_attr\<lparr>st_size := st_size a\<rparr>"
  let ?a2 = "?a1\<lparr>st_uid := st_uid (attr_seen a), st_gid := st_gid (attr_seen a)\<rparr>"
  let ?a3 = "?a2\<lparr>st_mode := st_mode a\<rparr>"
  let ?a4 = "?a3\<lparr>st_atime := st_atime (attr_seen a), st_mtime := st_mtime (attr_seen a)\<rparr>"
  obtain m0 where m0: "get_int m = (attr_flags a, m0)" and "reads w (tl (attr_fields a)) r m0"
    using assms reads_int [of w "attr_flags a" "tl (attr_fields a)" r m] by (auto simp: attr_fields_def)
  then have r0: "reads w (if_some (st_size a) (st_size a) [FInt64 (the (st_size a))] @
     if_some (st_uid a) (st_gid a) [FInt (the (st_uid a)), FInt (the (st_gid a))] @
     if_some (st_mode a) (st_mode a) [FInt (the (st_mode a))] @
     if_some (st_atime a) (st_mtime a) [FInt (the (st_atime a)), FInt (the (st_mtime a))] @
     (if attr a = [] then [] else FInt (int (length (attr a))) # attrs_fields (attr a))) r m0"
    by (simp add: attr_fields_def)
  from stage_size [OF r0, of new_attr, OF new_attr_fields(1)]
  obtain m1 where s1: "on_flag (attr_flags a) FLAG_SIZE (\<lambda>a m. let (n, m) = get_int64 m in (a\<lparr>st_size := Some n\<rparr>, m))
      (new_attr, m0) = (?a1, m1)" and r1: "reads w (if_some (st_uid a) (st_gid a) [FInt (the (st_uid a)), FInt (the (st_gid a))] @
     if_some (st_mode a) (st_mode a) [FInt (the (st_mode a))] @
     if_some (st_atime a) (st_mtime a) [FInt (the (st_atime a)), FInt (the (st_mtime a))] @
     (if attr a = [] then [] else FInt (int (length (attr a))) # attrs_fields (attr a))) r m1"
    by blast
  have n1: "st_uid ?a1 = None" "st_gid ?a1 = None" by simp_all
  from stage_owner [OF r1 n1] obtain m2 where s2: "on_flag (attr_flags a) FLAG_UIDGID
      (\<lambda>a m. let (u, m) = get_int m; (g, m) = get_int m in (a\<lparr>st_uid := Some u, st_gid := Some g\<rparr>, m)) (?a1, m1) = (?a2, m2)"
    and r2: "reads w (if_some (st_mode a) (st_mode a) [FInt (the (st_mode a))] @
     if_some (st_atime a) (st_mtime a) [FInt (the (st_atime a)), FInt (the (st_mtime a))] @
     (if attr a = [] then [] else FInt (int (length (attr a))) # attrs_fields (attr a))) r m2"
    by blast
  have n2: "st_mode ?a2 = None" by simp
  from stage_mode [OF r2 n2] obtain m3 where s3: "on_flag (attr_flags a) FLAG_PERMISSIONS
      (\<lambda>a m. let (n, m) = get_int m in (a\<lparr>st_mode := Some n\<rparr>, m)) (?a2, m2) = (?a3, m3)"
    and r3: "reads w (if_some (st_atime a) (st_mtime a) [FInt (the (st_atime a)), FInt (the (st_mtime a))] @
     (if attr a = [] then [] else FInt (int (length (attr a))) # attrs_fields (attr a))) r m3"
    by blast
  have n3: "st_atime ?a3 = None" "st_mtime ?a3 = None" by simp_all
  from stage_times [OF r3 n3] obtain m4 where s4: "on_flag (attr_flags a) FLAG_AMTIME
      (\<lambda>a m. let (t, m) = get_int m; (u, m) = get_int m in (a\<lparr>st_atime := Some t, st_mtime := Some u\<rparr>, m)) (?a3, m3) = (?a4, m4)"
    and r4: "reads w (if attr a = [] then [] else FInt (int (length (attr a))) # attrs_fields (attr a)) r m4"
    by blast
  have n4: "attr ?a4 = []" by simp
  from stage_extended [OF r4 n4] obtain m5 where s5: "on_flag (attr_flags a) FLAG_EXTENDED
      (\<lambda>a m. let (n, m) = get_int m; (d, m) = unpack_attrs (nat n) m [] in (a\<lparr>attr := d\<rparr>, m)) (?a4, m4) =
      (?a4\<lparr>attr := attr (attr_seen a)\<rparr>, m5)" and r5: "reads w [] r m5"
    by blast
  have "attr_unpack m = (?a4\<lparr>attr := attr (attr_seen a)\<rparr>, m5)"
    unfolding attr_unpack_def m0 Let_def prod.case s1 [unfolded Let_def] s2 [unfolded Let_def] s3 [unfolded Let_def]
      s4 [unfolded Let_def] s5 [unfolded Let_def] ..
  moreover have "?a4\<lparr>attr := attr (attr_seen a)\<rparr> = attr_seen a" by (simp add: attr_seen_def new_attr_def)
  ultimately show ?thesis using r5 by metis
qed

lemma attr_unpack_packed:
  assumes "attr_pack a new_message = Inr m"
  shows "\<exists>m'. attr_unpack (message_of (msg_asbytes m @ rest)) = (attr_seen a, m') \<and>
    fst (get_remainder m') = rest"
proof -
  have "reads (msg_asbytes m) (attr_fields a) rest (message_of (msg_asbytes m @ rest))"
    using assms by (simp add: attr_pack_fields reads_composed)
  from unpack_reads [OF this] obtain m' where m': "attr_unpack (message_of (msg_asbytes m @ rest)) = (attr_seen a, m')"
    "reads (msg_asbytes m) [] rest m'" by blast
  then have "fst (get_remainder m') = rest"
    by (auto dest!: reads_end simp: get_remainder_def bio_read_def msg_at_def Let_def)
  with m' show ?thesis by blast
qed

text \<open>Claim C15. What \<open>_pack\<close> writes, \<open>_unpack\<close> reads back: size and mode exactly, the
  owner and the times when both of their halves are set (a half alone is dropped), the extended
  attributes with names and values exchanged; exactly the written bytes are consumed.\<close>

theorem attributes_roundtrip:
  assumes "attr_pack a new_message = Inr m"
  shows "\<exists>m'. attr_unpack (message_of (msg_asbytes m @ rest)) = (attr_seen a, m') \<and>
    fst (get_remainder m') = rest"
  by (rule attr_unpack_packed [OF assms])

definition demo_attr :: sftp_attr where
  "demo_attr = new_attr\<lparr>st_uid := Some 500, st_mode := Some 420, attr := [([97], [98])]\<rparr>"

lemma demo_packed: "attr_pack demo_attr new_message =
    Inr \<lparr>packet = [128, 0, 0, 4, 0, 0, 1, 164, 0, 0, 0, 1, 0, 0, 0, 1, 97, 0, 0, 0, 1, 98], offset = 22\<rparr>"
  by code_simp

theorem attributes_roundtrip_witness:
  "\<exists>m'. attr_unpack (message_of (msg_asbytes (projr (attr_pack demo_attr new_message)) @ [7])) =
     (demo_attr\<lparr>st_uid := None, attr := [([98], [97])]\<rparr>, m') \<and> fst (get_remainder m') = [7]"
  using attributes_roundtrip [OF demo_packed, of "[7]"]
  by (simp add: demo_packed) (simp add: demo_attr_def attr_seen_def new_attr_def)

text \<open>The extended attributes of a file come back with names and values exchanged.\<close>

lemma extended_attributes_swapped:
  "attr (fst (attr_unpack (message_of (msg_asbytes (projr (attr_pack demo_attr new_message)))))) = [([98], [97])] \<and>
   attr demo_attr = [([97], [98])]"
proof -
  obtain m' where "attr_unpack (message_of (msg_asbytes (projr (attr_pack demo_attr new_message)))) = (attr_seen demo_attr, m')"
    using attr_unpack_packed [OF demo_packed, of "[]"] by (auto simp: demo_packed)
  then show ?thesis by (simp add: demo_attr_def attr_seen_def)
qed

section \<open>The mode string\<close>

lemma rwx_bits:
  assumes "0 \<le> n" and "n < 8"
  shows "length (rwx n suid sticky) = 3" "rwx n suid sticky ! 0 = CHR ''r'' \<longleftrightarrow> bit n 2"
    "rwx n suid sticky ! 1 = CHR ''w'' \<longleftrightarrow> bit n 1"
    "rwx n suid sticky ! 2 \<in> {CHR ''x'', CHR ''s'', CHR ''t''} \<longleftrightarrow> bit n 0"
proof -
  have "n = 0 \<or> n = 1 \<or> n = 2 \<or> n = 3 \<or> n = 4 \<or> n = 5 \<or> n = 6 \<or> n = 7" using assms by linarith
  then show "length (rwx n suid sticky) = 3" "rwx n suid sticky ! 0 = CHR ''r'' \<longleftrightarrow> bit n 2"
    "rwx n suid sticky ! 1 = CHR ''w'' \<longleftrightarrow> bit n 1"
    "rwx n suid sticky ! 2 \<in> {CHR ''x'', CHR ''s'', CHR ''t''} \<longleftrightarrow> bit n 0"
    by (elim disjE; cases suid; cases sticky; simp add: rwx_def drop_bit_eq_div bit_iff_odd)+
qed

lemma triple_bits:
  "drop_bit 6 (m AND 0x1C0) = take_bit 3 (drop_bit 6 (m::int))"
  "drop_bit 3 (m AND 0x38) = take_bit 3 (drop_bit 3 (m::int))"
  "m AND 7 = take_bit 3 (m::int)"
proof -
  have k: "(0x1C0::int) = push_bit 6 (mask 3)" "(0x38::int) = push_bit 3 (mask 3)" "(7::int) = mask 3"
    by (simp_all add: mask_eq_exp_minus_1 push_bit_eq_mult)
  show "drop_bit 6 (m AND 0x1C0) = take_bit 3 (drop_bit 6 m)" "drop_bit 3 (m AND 0x38) = take_bit 3 (drop_bit 3 m)"
    "m AND 7 = take_bit 3 m"
    unfolding k by (rule bit_eqI; auto simp: bit_simps)+
qed

lemma take3: "0 \<le> take_bit 3 (m::int)" "take_bit 3 (m::int) < 8"
  using take_bit_int_less_exp [of 3 m] by simp_all

definition exec_char :: "char \<Rightarrow> bool" where
  "exec_char c \<longleftrightarrow> c \<in> {CHR ''x'', CHR ''s'', CHR ''t''}"

text \<open>For every mode the long listing starts with exactly ten characters, and of these
  the read, write and execute letters of owner, group and others show exactly the nine
  permission bits.\<close>

theorem mode_string_shows_bits:
  "length (mode_string (Some m)) = 10 \<and>
   map (\<lambda>i. mode_string (Some m) ! i = CHR ''r'') [1, 4, 7] = map (bit m) [8, 5, 2] \<and>
   map (\<lambda>i. mode_string (Some m) ! i = CHR ''w'') [2, 5, 8] = map (bit m) [7, 4, 1] \<and>
   map (\<lambda>i. exec_char (mode_string (Some m) ! i)) [3, 6, 9] = map (bit m) [6, 3, 0]"
proof -
  let ?a = "rwx (take_bit 3 (drop_bit 6 m)) (m AND 0x800 \<noteq> 0) False"
  let ?b = "rwx (take_bit 3 (drop_bit 3 m)) (m AND 0x400 \<noteq> 0) False"
  let ?c = "rwx (take_bit 3 m) (m AND 0x200 \<noteq> 0) True"
  have e: "mode_string (Some m) = kind_char m # ?a @ ?b @ ?c"
    by (simp add: mode_string_def triple_bits)
  note A = rwx_bits [OF take3, of "drop_bit 6 m" "m AND 0x800 \<noteq> 0" False]
    and B = rwx_bits [OF take3, of "drop_bit 3 m" "m AND 0x400 \<noteq> 0" False]
    and C = rwx_bits [OF take3, of m "m AND 0x200 \<noteq> 0" True]
  have at: "mode_string (Some m) ! 1 = ?a ! 0" "mode_string (Some m) ! 2 = ?a ! 1" "mode_string (Some m) ! 3 = ?a ! 2"
    "mode_string (Some m) ! 4 = ?b ! 0" "mode_string (Some m) ! 5 = ?b ! 1" "mode_string (Some m) ! 6 = ?b ! 2"
    "mode_string (Some m) ! 7 = ?c ! 0" "mode_string (Some m) ! 8 = ?c ! 1" "mode_string (Some m) ! 9 = ?c ! 2"
    unfolding e using A(1) B(1) C(1) by (simp_all add: nth_append nth_Cons')
  have len: "length (mode_string (Some m)) = 10" unfolding e using A(1) B(1) C(1) by simp
  show ?thesis using len
    by (simp add: at A B C exec_char_def [abs_def] bit_take_bit_iff bit_drop_bit_eq del: One_nat_def insert_iff)
qed

end
