(* ===== verification/Prime_Moduli.thy ===== *)
theory Prime_Moduli
  imports Common_Util "HOL-Library.AList"
begin

text \<open>
  \<open>paramiko/primes.py\<close>: the pack of Diffie-Hellman moduli read from an OpenSSH \<open>moduli\<close> file,
  the choice of a modulus for a requested size range, and the rejection sampling of
  \<open>_roll_random\<close>. The state of a sampling is the supply of random bytes \<open>os.urandom\<close> will hand
  out; when the supply ends the call has not returned (\<open>Blocked\<close>), so a theorem about every supply
  is a theorem about every run.
\<close>

section \<open>Random numbers\<close>

text \<open>One sample: \<open>byte_count\<close> fresh bytes with the superfluous high bits masked off.\<close>

definition roll_sample :: "int \<Rightarrow> bytes \<Rightarrow> int res" where
  "roll_sample hbyte_mask x =
     bind_res (if 0 < hbyte_mask
               then bind_res (py_index x 0) (\<lambda>h.
                    bind_res (byte_mask (byte_ord h) hbyte_mask) (\<lambda>b. Inr (b @ slice_from x 1)))
               else Inr x)
       (\<lambda>x. Inr (inflate_long x True))"

function roll_loop :: "int \<Rightarrow> nat \<Rightarrow> int \<Rightarrow> (bytes, int) prog" where
  "roll_loop n byte_count hbyte_mask entropy =
     (if length entropy < byte_count then (Blocked, entropy)
      else
        (case roll_sample hbyte_mask (take byte_count entropy) of
           Inl e \<Rightarrow> (Exn e, drop byte_count entropy)
         | Inr num \<Rightarrow>
             if num < n then (Ret num, drop byte_count entropy)
             else if byte_count = 0 then (Blocked, entropy)
             else roll_loop n byte_count hbyte_mask (drop byte_count entropy)))"
  by pat_completeness auto
termination by (relation "measure (\<lambda>(n, c, m, e). length e)") auto

declare roll_loop.simps [simp del]

definition roll_random :: "int \<Rightarrow> (bytes, int) prog" where
  "roll_random n =
     (let bits = bit_length (n - 1); byte_count = (bits + 7) div 8; hbyte_mask = 2 ^ nat (bits mod 8) - 1
      in roll_loop n (nat byte_count) hbyte_mask)"

section \<open>The pack\<close>

text \<open>\<open>pack\<close> is a dict from bit lengths to lists of (generator, modulus).\<close>

datatype discard_reason = BasicRequirements | IncorrectBitLength int

record modulus_pack =
  pack :: "(int \<times> (int \<times> int) list) list"
  discarded :: "(int \<times> discard_reason) list"

definition new_modulus_pack :: modulus_pack where
  "new_modulus_pack = \<lparr>pack = [], discarded = []\<rparr>"

text \<open>A line of the file, parsed: \<open>line.split()\<close> and the seven \<open>int()\<close> conversions.\<close>

definition parse_fields :: "pystr \<Rightarrow> (int \<times> int \<times> int \<times> int \<times> int \<times> int) res" where
  "parse_fields line =
     (case py_split line of
        [timestamp, mtype, tests, tries, sz, generator, modulus] \<Rightarrow>
          bind_res (py_int 10 mtype) (\<lambda>mtype.
          bind_res (py_int 10 tests) (\<lambda>tests.
          bind_res (py_int 10 tries) (\<lambda>tries.
          bind_res (py_int 10 sz) (\<lambda>sz.
          bind_res (py_int 10 generator) (\<lambda>generator.
          bind_res (py_int 16 modulus) (\<lambda>modulus.
          Inr (mtype, tests, tries, sz, generator, modulus)))))))
      | _ \<Rightarrow> Inl ValueError)"

definition meets_requirements :: "int \<Rightarrow> int \<Rightarrow> int \<Rightarrow> bool" where
  "meets_requirements mtype tests tries \<longleftrightarrow>
     \<not> (mtype < 2 \<or> tests < 4 \<or> (tests AND 4 \<noteq> 0 \<and> tests < 8 \<and> tries < 100))"

definition parse_modulus :: "pystr \<Rightarrow> (modulus_pack, unit) prog" where
  "parse_modulus line =
     seqp (liftr (parse_fields line)) (\<lambda>(mtype, tests, tries, sz, generator, modulus).
     if \<not> meets_requirements mtype tests tries
     then modify (\<lambda>p. p\<lparr>discarded := discarded p @ [(modulus, BasicRequirements)]\<rparr>)
     else
       (let generator = (if generator = 0 then 2 else generator); bl = bit_length modulus
        in if bl \<noteq> sz \<and> bl \<noteq> sz + 1
           then modify (\<lambda>p. p\<lparr>discarded := discarded p @ [(modulus, IncorrectBitLength sz)]\<rparr>)
           else
             seqp (modify (\<lambda>p. if map_of (pack p) bl = None then p\<lparr>pack := AList.update bl [] (pack p)\<rparr> else p)) (\<lambda>_.
             modify (\<lambda>p. p\<lparr>pack := AList.update bl (the (map_of (pack p) bl) @ [(generator, modulus)]) (pack p)\<rparr>))))"

text \<open>\<open>read_file\<close>, on the lines of the file; a line that raises is skipped.\<close>

fun read_lines :: "pystr list \<Rightarrow> modulus_pack \<Rightarrow> modulus_pack" where
  "read_lines [] p = p"
| "read_lines (line # ls) p =
     (let line = py_strip line
      in if line = [] \<or> hd line = 35 then read_lines ls p
         else read_lines ls (snd (parse_modulus line p)))"

definition read_file :: "pystr list \<Rightarrow> modulus_pack \<Rightarrow> modulus_pack" where
  "read_file ls p = read_lines ls (p\<lparr>pack := []\<rparr>)"

section \<open>Choosing a modulus\<close>

text \<open>The two scans over the sorted sizes; \<open>-1\<close> stands for nothing found yet.\<close>

fun scan_up :: "int \<Rightarrow> int \<Rightarrow> int \<Rightarrow> int list \<Rightarrow> int" where
  "scan_up prefer hi good [] = good"
| "scan_up prefer hi good (b # bs) =
     scan_up prefer hi (if prefer \<le> b \<and> b \<le> hi \<and> (b < good \<or> good = -1) then b else good) bs"

fun scan_down :: "int \<Rightarrow> int \<Rightarrow> int \<Rightarrow> int list \<Rightarrow> int" where
  "scan_down lo hi good [] = good"
| "scan_down lo hi good (b # bs) =
     scan_down lo hi (if lo \<le> b \<and> b \<le> hi \<and> good < b then b else good) bs"

definition pick_size :: "int list \<Rightarrow> int \<Rightarrow> int \<Rightarrow> int \<Rightarrow> int" where
  "pick_size bitsizes lo prefer hi =
     (let good = scan_up prefer hi (-1) bitsizes;
          good = (if good = -1 then scan_down lo hi (-1) bitsizes else good)
      in if good = -1
         then (let good = hd bitsizes in if good < lo then last bitsizes else good)
         else good)"

definition get_modulus :: "modulus_pack \<Rightarrow> int \<Rightarrow> int \<Rightarrow> int \<Rightarrow> (bytes, int \<times> int) prog" where
  "get_modulus p lo prefer hi =
     (let bitsizes = sort (map fst (pack p))
      in if bitsizes = [] then raise (SSHException ''no moduli available'')
         else
           (let good = pick_size bitsizes lo prefer hi; ms = the (map_of (pack p) good)
            in seqp (roll_random (int (length ms))) (\<lambda>n. liftr (py_index ms n))))"

section \<open>Sampling\<close>

lemma bit_length_nonneg [simp]: "0 \<le> bit_length n"
  by (simp add: bit_length_def)

lemma less_bit_length: "0 \<le> n \<Longrightarrow> n < 2 ^ nat (bit_length n)"
  using nat_bits_bounds [of "nat n"] by (simp add: bit_length_def nat_less_iff)

definition draw_size :: "int \<Rightarrow> nat" where
  "draw_size n = nat ((bit_length (n - 1) + 7) div 8)"

lemma pow_256: "(256::int) ^ n = 2 ^ (8 * n)"
  by (simp add: power_mult)

lemma roll_sample_value:
  assumes bits: "0 \<le> bits" and len: "length x = nat ((bits + 7) div 8)"
  shows "roll_sample (2 ^ nat (bits mod 8) - 1) x = Inr (be_val x mod 2 ^ nat bits)"
proof -
  define q k where "q = nat (bits div 8)" and "k = nat (bits mod 8)"
  have qk: "bits = int (8 * q + k)" "k < 8" "nat (bits mod 8) = k" "nat bits = 8 * q + k"
  proof -
    have i: "int q = bits div 8" "int k = bits mod 8" using bits by (simp_all add: q_def k_def)
    then show "bits = int (8 * q + k)" by simp
    then show "nat bits = 8 * q + k" by simp
    show "k < 8" using i(2) by simp
    show "nat (bits mod 8) = k" by (simp add: k_def)
  qed
  show ?thesis
  proof (cases "k = 0")
    case True
    have "length x = q" using len qk(1) True by simp
    then have "(256::int) ^ length x = 2 ^ nat bits" using qk(4) True by (simp add: pow_256)
    then have "be_val x mod 2 ^ nat bits = be_val x"
      using be_val_less [of x] by (metis be_val_nonneg mod_pos_pos_trivial)
    with True qk(3) show ?thesis by (simp add: roll_sample_def inflate_long_value)
  next
    case False
    have "(bits + 7) div 8 = int q + 1" using qk(1,2) False by simp
    then have "length x = Suc q" using len by simp
    then obtain h t where x: "x = h # t" "length t = q" by (cases x) auto
    have mask: "byte_ord h AND (2 ^ k - 1) = uint h mod 2 ^ k"
      by (simp add: byte_ord_def flip: mask_eq_exp_minus_1 take_bit_eq_mask take_bit_eq_mod)
    have small: "uint h mod 2 ^ k < 256" "0 \<le> uint h mod 2 ^ k"
      using uint_byte_bounds [of h] by (auto intro: le_less_trans [OF zmod_le_nonneg_dividend])
    let ?b = "word_of_int (uint h mod 2 ^ k) :: byte"
    have u: "uint ?b = uint h mod 2 ^ k" using small by (simp only: uint_word_of_int_byte) simp
    have "(0::int) < 2 ^ k - 1" using False one_less_power [of "2::int" k] by simp
    then have s: "roll_sample (2 ^ k - 1) x = Inr (be_val (?b # t))"
      using x mask small by (simp add: roll_sample_def byte_mask_def pack_B_def py_index_0 inflate_long_value
          slice_from_nonneg)
    have t: "0 \<le> be_val t" "be_val t < 2 ^ (8 * q)" using be_val_less [of t] x(2) by (simp_all add: pow_256)
    have "be_val x mod 2 ^ nat bits = (uint h * 2 ^ (8 * q) + be_val t) mod (2 ^ (8 * q) * 2 ^ k)"
      using x qk(4) by (simp add: be_val_Cons pow_256 power_add)
    also have "\<dots> = 2 ^ (8 * q) * (uint h mod 2 ^ k) + be_val t"
      using t by (simp add: zmod_zmult2_eq)
    also have "\<dots> = be_val (?b # t)" using x u by (simp add: be_val_Cons pow_256 del: uint_word_of_int_byte)
    finally show ?thesis using s qk(3) by simp
  qed
qed

lemma roll_loop_eval:
  assumes "0 < n"
  shows "roll_random n e =
    (if length e < draw_size n then (Blocked, e)
     else (let v = be_val (take (draw_size n) e) mod 2 ^ nat (bit_length (n - 1))
           in if v < n then (Ret v, drop (draw_size n) e)
              else if draw_size n = 0 then (Blocked, e) else roll_random n (drop (draw_size n) e)))"
proof -
  let ?m = "2 ^ nat (bit_length (n - 1) mod 8) - 1 :: int"
  have r: "roll_random n = roll_loop n (draw_size n) ?m"
    unfolding roll_random_def draw_size_def Let_def ..
  show ?thesis
  proof (cases "length e < draw_size n")
    case True
    then show ?thesis unfolding r by (subst roll_loop.simps) simp
  next
    case False
    then have "roll_sample ?m (take (draw_size n) e) =
        Inr (be_val (take (draw_size n) e) mod 2 ^ nat (bit_length (n - 1)))"
      using roll_sample_value [OF bit_length_nonneg, of "take (draw_size n) e" "n - 1"] by (simp add: draw_size_def)
    with False show ?thesis unfolding r by (subst roll_loop.simps) (simp add: Let_def)
  qed
qed

lemma roll_random_range:
  assumes "roll_random n e = (r, e')" and "0 < n"
  shows "r = Blocked \<or> (\<exists>v. r = Ret v \<and> 0 \<le> v \<and> v < n)"
  using assms(1)
proof (induction e arbitrary: r e' rule: length_induct)
  case (1 e)
  let ?c = "draw_size n" let ?v = "be_val (take ?c e) mod 2 ^ nat (bit_length (n - 1))"
  note eval = roll_loop_eval [OF assms(2), of e]
  show ?case
  proof (cases "length e < ?c \<or> ?v < n \<or> ?c = 0")
    case True
    with 1(2) eval show ?thesis by (auto simp: Let_def split: if_splits)
  next
    case False
    then have "roll_random n (drop ?c e) = (r, e')" and "length (drop ?c e) < length e"
      using 1(2) eval by (auto simp: Let_def)
    with 1(1) show ?thesis by blast
  qed
qed

lemma roll_random_first:
  assumes "0 < n" and "draw_size n \<le> length e"
    and "be_val (take (draw_size n) e) mod 2 ^ nat (bit_length (n - 1)) < n"
  shows "roll_random n e = (Ret (be_val (take (draw_size n) e) mod 2 ^ nat (bit_length (n - 1))), drop (draw_size n) e)"
  using assms roll_loop_eval [OF assms(1), of e] by (simp add: Let_def)

text \<open>\<open>_roll_random\<close> returns as soon as one block of random bytes denotes, without its
  superfluous bits, a number below \<open>n\<close>; what it returns is always below \<open>n\<close>, and every number
  below \<open>n\<close> is the result of some block.\<close>

theorem roll_random_live:
  assumes "0 < n"
  shows "(i * draw_size n + draw_size n \<le> length e \<and>
      be_val (take (draw_size n) (drop (i * draw_size n) e)) mod 2 ^ nat (bit_length (n - 1)) < n \<longrightarrow>
      (\<exists>v e'. roll_random n e = (Ret v, e') \<and> 0 \<le> v \<and> v < n)) \<and>
    (0 \<le> v \<and> v < n \<longrightarrow> roll_random n (be_bytes (draw_size n) v @ rest) = (Ret v, rest))"
proof (intro conjI impI; (elim conjE)?)
  assume "i * draw_size n + draw_size n \<le> length e"
    and "be_val (take (draw_size n) (drop (i * draw_size n) e)) mod 2 ^ nat (bit_length (n - 1)) < n"
  then have "\<exists>v e'. roll_random n e = (Ret v, e')"
  proof (induction i arbitrary: e)
    case 0
    then show ?case using roll_random_first [OF assms, of e] by simp
  next
    case (Suc i)
    let ?c = "draw_size n" let ?v = "be_val (take ?c e) mod 2 ^ nat (bit_length (n - 1))"
    show ?case
    proof (cases "?v < n")
      case True
      with Suc.prems(1) show ?thesis using roll_random_first [OF assms, of e] by simp
    next
      case False
      have "take ?c (drop (Suc i * ?c) e) = take ?c (drop (i * ?c) (drop ?c e))" by (simp add: add.commute)
      moreover have "i * ?c + ?c \<le> length (drop ?c e)" using Suc.prems(1) by simp
      ultimately obtain v e' where v: "roll_random n (drop ?c e) = (Ret v, e')"
        using Suc.IH [of "drop ?c e"] Suc.prems(2) by (metis (no_types))
      show ?thesis
      proof (cases "?c = 0")
        case True
        with Suc.prems(2) False show ?thesis by simp
      next
        case c: False
        with v False Suc.prems(1) roll_loop_eval [OF assms, of e] show ?thesis by (simp add: Let_def)
      qed
    qed
  qed
  then show "\<exists>v e'. roll_random n e = (Ret v, e') \<and> 0 \<le> v \<and> v < n"
    using roll_random_range [OF _ assms, of e] by blast
next
  assume v: "0 \<le> v" "v < n"
  let ?c = "draw_size n" let ?b = "nat (bit_length (n - 1))"
  have "v < 2 ^ ?b" using v less_bit_length [of "n - 1"] by simp
  moreover have "(2::int) ^ ?b \<le> 256 ^ ?c"
    unfolding pow_256 by (rule power_increasing) (auto simp: draw_size_def)
  ultimately have "be_val (be_bytes ?c v) mod 2 ^ ?b = v" using v by (simp add: be_val_be_bytes_id)
  then show "roll_random n (be_bytes ?c v @ rest) = (Ret v, rest)"
    using roll_random_first [OF assms, of "be_bytes ?c v @ rest"] v by simp
qed

theorem roll_random_live_witness:
  "(\<exists>v e'. roll_random 5 [7, 6, 12, 1] = (Ret v, e') \<and> 0 \<le> v \<and> v < 5) \<and> roll_random 5 ([3] @ [9]) = (Ret 3, [9])"
proof -
  have d: "draw_size 5 = 1" "nat (bit_length (5 - 1)) = 3" by code_simp+
  have "be_val (take 1 (drop (2 * 1) [7, 6, 12, 1])) mod 2 ^ 3 < 5" by code_simp
  moreover have "be_bytes 1 3 = [3]" by code_simp
  ultimately show ?thesis
    using roll_random_live [of 5 2 "[7, 6, 12, 1]" 3 "[9]", unfolded d] by simp
qed

section \<open>What the pack holds\<close>

definition entry :: "modulus_pack \<Rightarrow> int \<Rightarrow> int \<times> int \<Rightarrow> bool" where
  "entry p bl gm \<longleftrightarrow> (\<exists>ms. map_of (pack p) bl = Some ms \<and> gm \<in> set ms)"

text \<open>What one line contributes.\<close>

definition line_entry :: "pystr \<Rightarrow> int \<Rightarrow> int \<times> int \<Rightarrow> bool" where
  "line_entry line bl gm \<longleftrightarrow>
     (\<exists>mtype tests tries sz g m.
        parse_fields line = Inr (mtype, tests, tries, sz, g, m) \<and> meets_requirements mtype tests tries \<and>
        bl = bit_length m \<and> (bl = sz \<or> bl = sz + 1) \<and> gm = (if g = 0 then 2 else g, m))"

definition pack_ok :: "modulus_pack \<Rightarrow> bool" where
  "pack_ok p \<longleftrightarrow> distinct (map fst (pack p)) \<and> (\<forall>bl ms. map_of (pack p) bl = Some ms \<longrightarrow> ms \<noteq> [] \<and> 0 \<le> bl)"

lemma pack_ok_update:
  "pack_ok p \<Longrightarrow> ms \<noteq> [] \<Longrightarrow> 0 \<le> bl \<Longrightarrow> pack_ok (p\<lparr>pack := AList.update bl ms (pack p)\<rparr>)"
  by (auto simp: pack_ok_def distinct_update update_conv split: if_splits)

lemma parse_modulus_accept:
  assumes "parse_fields line = Inr (mtype, tests, tries, sz, g, m)" and "meets_requirements mtype tests tries"
    and "bit_length m = sz \<or> bit_length m = sz + 1"
  shows "\<exists>ms. snd (parse_modulus line p) = p\<lparr>pack := AList.update (bit_length m)
      (ms @ [(if g = 0 then 2 else g, m)]) (pack p)\<rparr> \<and>
      set ms = (case map_of (pack p) (bit_length m) of None \<Rightarrow> {} | Some xs \<Rightarrow> set xs)"
proof (cases "map_of (pack p) (bit_length m)")
  case None
  with assms show ?thesis
    by (intro exI [of _ "[]"])
       (auto simp: parse_modulus_def seqp_def Let_def update_conv split: if_splits)
next
  case (Some ms)
  with assms show ?thesis
    by (intro exI [of _ ms]) (auto simp: parse_modulus_def seqp_def Let_def split: if_splits)
qed

lemma parse_modulus_step:
  assumes "pack_ok p"
  shows "pack_ok (snd (parse_modulus line p)) \<and>
    (entry (snd (parse_modulus line p)) bl gm \<longleftrightarrow> entry p bl gm \<or> line_entry line bl gm)"
proof (cases "parse_fields line")
  case (Inl e)
  then have "snd (parse_modulus line p) = p" by (simp add: parse_modulus_def seqp_def)
  with assms Inl show ?thesis by (simp add: line_entry_def)
next
  case (Inr r)
  obtain mtype tests tries sz g m where r: "r = (mtype, tests, tries, sz, g, m)" by (cases r)
  show ?thesis
  proof (cases "meets_requirements mtype tests tries \<and> (bit_length m = sz \<or> bit_length m = sz + 1)")
    case True
    then obtain ms where ms: "snd (parse_modulus line p) = p\<lparr>pack := AList.update (bit_length m)
        (ms @ [(if g = 0 then 2 else g, m)]) (pack p)\<rparr>"
      "set ms = (case map_of (pack p) (bit_length m) of None \<Rightarrow> {} | Some xs \<Rightarrow> set xs)"
      using parse_modulus_accept [OF Inr [unfolded r], of p] by blast
    have "pack_ok (snd (parse_modulus line p))"
      unfolding ms(1) by (rule pack_ok_update [OF assms]) simp_all
    moreover have "line_entry line bl gm \<longleftrightarrow> bl = bit_length m \<and> gm = (if g = 0 then 2 else g, m)"
      using True by (auto simp: line_entry_def Inr r)
    moreover have "entry (snd (parse_modulus line p)) bl gm \<longleftrightarrow>
        entry p bl gm \<or> bl = bit_length m \<and> gm = (if g = 0 then 2 else g, m)"
      unfolding ms(1) entry_def using ms(2) by (auto simp: update_conv split: option.splits if_splits)
    ultimately show ?thesis by blast
  next
    case False
    then have "pack (snd (parse_modulus line p)) = pack p"
      using Inr r by (auto simp: parse_modulus_def seqp_def Let_def)
    moreover have "\<not> line_entry line bl gm" using False by (auto simp: line_entry_def Inr r)
    ultimately show ?thesis using assms by (simp add: pack_ok_def entry_def)
  qed
qed

definition useful :: "pystr \<Rightarrow> bool" where
  "useful line \<longleftrightarrow> py_strip line \<noteq> [] \<and> hd (py_strip line) \<noteq> 35"

lemma read_lines_entries:
  "pack_ok p \<Longrightarrow> pack_ok (read_lines ls p) \<and>
     (entry (read_lines ls p) bl gm \<longleftrightarrow>
        entry p bl gm \<or> (\<exists>line\<in>set ls. useful line \<and> line_entry (py_strip line) bl gm))"
proof (induction ls arbitrary: p)
  case (Cons line ls)
  show ?case
  proof (cases "useful line")
    case True
    note step = parse_modulus_step [OF Cons.prems, of "py_strip line" bl gm]
    from True have "read_lines (line # ls) p = read_lines ls (snd (parse_modulus (py_strip line) p))"
      by (auto simp: useful_def Let_def)
    with Cons.IH [of "snd (parse_modulus (py_strip line) p)"] step True show ?thesis by auto
  next
    case False
    then have "read_lines (line # ls) p = read_lines ls p" by (auto simp: useful_def Let_def)
    with Cons.IH [OF Cons.prems] False show ?thesis by auto
  qed
qed simp

text \<open>After \<open>read_file\<close> the pack holds, under each bit length, exactly the moduli of
  that length of the lines that parse, meet the three requirements and state the length
  correctly up to one bit, with a missing generator read as 2; nothing of an earlier file stays.\<close>

theorem read_file_exact:
  "pack_ok (read_file ls p) \<and>
   (entry (read_file ls p) bl gm \<longleftrightarrow> (\<exists>line\<in>set ls. useful line \<and> line_entry (py_strip line) bl gm))"
proof -
  have e: "pack_ok (p\<lparr>pack := []\<rparr>)" "\<not> entry (p\<lparr>pack := []\<rparr>) bl gm"
    by (simp_all add: pack_ok_def entry_def)
  then show ?thesis using read_lines_entries [OF e(1), of ls bl gm] by (simp add: read_file_def)
qed

section \<open>The chosen modulus\<close>

text \<open>The size \<open>get_modulus\<close> is meant to choose, on the set of available sizes.\<close>

definition best_size :: "int set \<Rightarrow> int \<Rightarrow> int \<Rightarrow> int \<Rightarrow> int" where
  "best_size S lo prefer hi =
     (if \<exists>b\<in>S. prefer \<le> b \<and> b \<le> hi then Min {b \<in> S. prefer \<le> b \<and> b \<le> hi}
      else if \<exists>b\<in>S. lo \<le> b \<and> b \<le> hi then Max {b \<in> S. lo \<le> b \<and> b \<le> hi}
      else if Min S < lo then Max S else Min S)"

lemma Min_insert_larger: "finite B \<Longrightarrow> a \<le> b \<Longrightarrow> Min (insert b (insert a B)) = Min (insert a B)"
  for a b :: int by (cases "B = {}") (auto simp: min_def)

lemma Max_insert_two: "finite B \<Longrightarrow> Max (insert a (insert b B)) = Max (insert (max a b) B)"
  for a b :: int by (cases "B = {}") (auto simp: max.assoc)

lemma Max_insert_minus:
  fixes B :: "int set"
  assumes "finite B" and "\<forall>b\<in>B. 0 \<le> b"
  shows "Max (insert (-1) B) = (if B = {} then -1 else Max B)"
proof (cases "B = {}")
  case False
  then have "0 \<le> Max B" using assms Max_in [of B] by blast
  with False assms(1) show ?thesis by simp
qed simp

lemma scan_up_min:
  assumes "\<forall>b\<in>set bs. 0 \<le> b" and "good = -1 \<or> 0 \<le> good"
  shows "scan_up prefer hi good bs =
    (let A = {b \<in> set bs. prefer \<le> b \<and> b \<le> hi} \<union> (if good = -1 then {} else {good})
     in if A = {} then -1 else Min A)"
  using assms
proof (induction bs arbitrary: good)
  case (Cons b bs)
  let ?g = "if prefer \<le> b \<and> b \<le> hi \<and> (b < good \<or> good = -1) then b else good"
  let ?B = "{b \<in> set bs. prefer \<le> b \<and> b \<le> hi}"
  have b: "0 \<le> b" and g: "?g = -1 \<or> 0 \<le> ?g" using Cons.prems by auto
  have IH: "scan_up prefer hi ?g bs = (let A = ?B \<union> (if ?g = -1 then {} else {?g}) in if A = {} then -1 else Min A)"
    by (rule Cons.IH) (use Cons.prems g in auto)
  have e: "{x \<in> set (b # bs). prefer \<le> x \<and> x \<le> hi} = (if prefer \<le> b \<and> b \<le> hi then insert b ?B else ?B)" by auto
  have fin: "finite ?B" by simp
  show ?case
  proof (cases "prefer \<le> b \<and> b \<le> hi \<and> good \<noteq> -1 \<and> \<not> b < good")
    case True
    then have "scan_up prefer hi good (b # bs) = Min (insert good ?B)"
      using IH by (simp add: Let_def)
    moreover have "Min (insert b (insert good ?B)) = Min (insert good ?B)"
      using True by (intro Min_insert_larger fin) simp
    ultimately show ?thesis using True e by (simp add: Let_def insert_commute)
  next
    case False
    show ?thesis
    proof (cases "prefer \<le> b \<and> b \<le> hi")
      case True
      with False have "?g = b" by auto
      then have "scan_up prefer hi good (b # bs) = Min (insert b ?B)" using IH b by (simp add: Let_def)
      moreover have "good \<noteq> -1 \<Longrightarrow> Min (insert good (insert b ?B)) = Min (insert b ?B)"
        using True False by (intro Min_insert_larger fin) auto
      ultimately show ?thesis using True e by (auto simp: Let_def insert_commute)
    next
      case F: False
      then have g: "?g = good" by auto
      have "scan_up prefer hi good (b # bs) = scan_up prefer hi good bs" using g by simp
      with IH [unfolded g] F e show ?thesis by (simp only: if_False)
    qed
  qed
qed (auto simp: Let_def)

lemma scan_down_max:
  assumes "\<forall>b\<in>set bs. 0 \<le> b" and "good = -1 \<or> 0 \<le> good"
  shows "scan_down lo hi good bs = Max (insert good {b \<in> set bs. lo \<le> b \<and> b \<le> hi})"
  using assms
proof (induction bs arbitrary: good)
  case (Cons b bs)
  let ?g = "if lo \<le> b \<and> b \<le> hi \<and> good < b then b else good"
  let ?B = "{b \<in> set bs. lo \<le> b \<and> b \<le> hi}"
  have fin: "finite ?B" by simp
  have IH: "scan_down lo hi ?g bs = Max (insert ?g ?B)"
    by (rule Cons.IH) (use Cons.prems in auto)
  have e: "{x \<in> set (b # bs). lo \<le> x \<and> x \<le> hi} = (if lo \<le> b \<and> b \<le> hi then insert b ?B else ?B)" by auto
  have "Max (insert good (insert b ?B)) = Max (insert (max good b) ?B)"
    by (rule Max_insert_two [OF fin])
  then show ?case using IH e by (auto simp: max_def split: if_splits)
qed simp

lemma pick_size_best:
  assumes "sorted bs" and "bs \<noteq> []" and nn: "\<forall>b\<in>set bs. 0 \<le> b"
  shows "pick_size bs lo prefer hi = best_size (set bs) lo prefer hi"
proof -
  let ?U = "{b \<in> set bs. prefer \<le> b \<and> b \<le> hi}" and ?D = "{b \<in> set bs. lo \<le> b \<and> b \<le> hi}"
  have ends: "hd bs = Min (set bs)" "last bs = Max (set bs)"
  proof -
    obtain b ds where bs: "bs = b # ds" using assms(2) by (cases bs) auto
    with assms(1) show "hd bs = Min (set bs)" by (auto intro!: Min_eqI [symmetric])
    obtain z as where zs: "bs = as @ [z]" using assms(2) by (cases bs rule: rev_cases) auto
    with assms(1) show "last bs = Max (set bs)" by (auto intro!: Max_eqI [symmetric] simp: sorted_append)
  qed
  have up: "scan_up prefer hi (-1) bs = (if ?U = {} then -1 else Min ?U)"
    using scan_up_min [OF nn, of "-1" "prefer" hi] by (simp add: Let_def)
  have down: "scan_down lo hi (-1) bs = (if ?D = {} then -1 else Max ?D)"
    using scan_down_max [OF nn, of "-1" lo hi] Max_insert_minus [of ?D] nn by simp
  have U: "?U \<noteq> {} \<Longrightarrow> Min ?U \<noteq> -1" using nn Min_in [of ?U] by fastforce
  have D: "?D \<noteq> {} \<Longrightarrow> Max ?D \<noteq> -1" using nn Max_in [of ?D] by fastforce
  show ?thesis
    using U D unfolding pick_size_def best_size_def up down ends Let_def by auto
qed

lemma best_size_in:
  assumes "finite S" and "S \<noteq> {}"
  shows "best_size S lo prefer hi \<in> S"
proof -
  have "Min {b \<in> S. P b} \<in> S" "Max {b \<in> S. P b} \<in> S" if "\<exists>b\<in>S. P b" for P
    using that assms(1) Min_in [of "{b \<in> S. P b}"] Max_in [of "{b \<in> S. P b}"] by auto
  with assms show ?thesis unfolding best_size_def by (auto split: if_splits)
qed

text \<open>From a pack read from a file, \<open>get_modulus\<close> returns an entry of the best size:
  the smallest available one in the preferred range, else the largest in the permitted range,
  else the end of the list nearest to it; it never raises, and fails to return only while the
  random numbers do not fit.\<close>

theorem get_modulus_best:
  assumes "p = read_file ls p0" and "pack p \<noteq> []" and "get_modulus p lo prefer hi e = (r, e')"
  shows "r = Blocked \<or> (\<exists>g m. r = Ret (g, m) \<and> entry p (bit_length m) (g, m) \<and>
    bit_length m = best_size (fst ` set (pack p)) lo prefer hi)"
proof -
  let ?bs = "sort (map fst (pack p))" let ?good = "pick_size ?bs lo prefer hi"
  have ok: "pack_ok p" using read_file_exact assms(1) by blast
  have key: "\<exists>ms. map_of (pack p) b = Some ms \<and> ms \<noteq> [] \<and> 0 \<le> b" if "b \<in> fst ` set (pack p)" for b
    using that ok by (metis map_of_eq_None_iff not_Some_eq pack_ok_def)
  have ne: "?bs \<noteq> []" using assms(2) by (metis length_0_conv length_map length_sort)
  have good: "?good = best_size (fst ` set (pack p)) lo prefer hi"
  proof -
    have s: "sorted ?bs" "?bs \<noteq> []" "set ?bs = fst ` set (pack p)" using ne by simp_all
    with key have "\<forall>b\<in>set ?bs. 0 \<le> b" by metis
    then show ?thesis using pick_size_best [OF s(1,2)] s(3) by metis
  qed
  moreover have "best_size (fst ` set (pack p)) lo prefer hi \<in> fst ` set (pack p)"
    by (rule best_size_in) (use assms(2) in auto)
  ultimately obtain ms where ms: "map_of (pack p) ?good = Some ms" "ms \<noteq> []" using key by metis
  have run: "seqp (roll_random (int (length ms))) (\<lambda>n. liftr (py_index ms n)) e = (r, e')"
    using assms(3) ne ms(1) unfolding get_modulus_def Let_def by (simp only: if_False option.sel)
  obtain q e1 where q: "roll_random (int (length ms)) e = (q, e1)" by (cases "roll_random (int (length ms)) e")
  have "0 < int (length ms)" using ms(2) by simp
  from roll_random_range [OF q this] consider "q = Blocked" | v where "q = Ret v" "0 \<le> v" "v < int (length ms)"
    by auto
  then show ?thesis
  proof cases
    case 1
    with run q show ?thesis by (simp add: seqp_def)
  next
    case 2
    obtain g m where gm: "ms ! nat v = (g, m)" by (cases "ms ! nat v")
    with run q 2 have "r = Ret (g, m)" by (simp add: seqp_def py_index_def)
    moreover have "(g, m) \<in> set ms" using gm 2 by (metis nat_less_iff nth_mem)
    then have e: "entry p ?good (g, m)" using ms(1) by (auto simp: entry_def)
    then have "bit_length m = ?good"
      using read_file_exact [of ls p0 ?good "(g, m)"] assms(1) by (auto simp: line_entry_def)
    ultimately show ?thesis using e good by metis
  qed
qed

definition demo_moduli :: "pystr list" where
  "demo_moduli = map lit [''# a comment'', ''20060827 2 6 100 3 0 B'', ''junk'', ''20060827 2 6 100 4 5 17'',
     ''20060827 1 6 100 4 5 1D'']"

theorem get_modulus_best_witness:
  "\<exists>g m. fst (get_modulus (read_file demo_moduli new_modulus_pack) 3 5 8 []) = Ret (g, m) \<and>
    entry (read_file demo_moduli new_modulus_pack) (bit_length m) (g, m) \<and>
    bit_length m = best_size (fst ` set (pack (read_file demo_moduli new_modulus_pack))) 3 5 8"
proof -
  let ?p = "read_file demo_moduli new_modulus_pack"
  have p: "pack ?p = [(4, [(2, 11)]), (5, [(5, 23)])]" by code_simp
  have "fst (get_modulus ?p 3 5 8 []) = Ret (5, 23)"
    unfolding get_modulus_def p by code_simp
  then show ?thesis
    using get_modulus_best [OF refl, of demo_moduli new_modulus_pack 3 5 8 "[]"] p
    by (cases "get_modulus ?p 3 5 8 []") auto
qed

end
