(* ===== verification/Transport_Core.thy ===== *)
theory Transport_Core
  imports Channel_Core Prime_Moduli
begin

text \<open>
  \<open>paramiko/transport.py\<close>, the state of a \<open>Transport\<close> and its helpers: the preference lists
  and their filters, the server's keys, the exchange hash and the derivation of the session
  keys. What the transport asks of its packetizer is recorded in order in \<open>calls\<close>. The
  cryptography library is a parameter (\<open>crypto_env\<close>).
\<close>

section \<open>The cryptography the key exchange uses\<close>

text \<open>
  The first argument of the functions is the name of the key exchange method or of the
  signature algorithm. The elliptic curve operations: \<open>ec_point\<close> decodes the bytes of a peer (and
  can reject them), \<open>ec_public\<close> gives the public bytes of a private key, and \<open>ec_shared\<close> the
  shared secret of a private key and a decoded peer. \<open>sign_data\<close> and \<open>verify_sig\<close> work on the wire form of a key.
\<close>

record crypto_env =
  kex_hash :: "pystr \<Rightarrow> bytes \<Rightarrow> bytes"
  sign_data :: "bytes \<Rightarrow> bytes \<Rightarrow> pystr \<Rightarrow> bytes"
  verify_sig :: "pystr \<Rightarrow> bytes \<Rightarrow> bytes \<Rightarrow> bytes \<Rightarrow> bool res"
  ec_point :: "pystr \<Rightarrow> bytes \<Rightarrow> bytes res"
  ec_public :: "pystr \<Rightarrow> bytes \<Rightarrow> bytes"
  ec_shared :: "pystr \<Rightarrow> bytes \<Rightarrow> bytes \<Rightarrow> bytes res"

section \<open>State\<close>

record host_key_rec =
  hk_name :: pystr
  hk_blob :: bytes
  hk_rsa :: bool

text \<open>The arguments of \<open>set_inbound_cipher\<close> and \<open>set_outbound_cipher\<close>; the engine is given by the
  cipher's name and its key and IV.\<close>

record cipher_setup =
  cs_cipher :: pystr
  cs_key :: bytes
  cs_iv :: bytes
  cs_block_size :: int
  cs_mac_engine :: "pystr option"
  cs_mac_size :: int
  cs_mac_key :: "bytes option"
  cs_sdctr :: bool
  cs_etm :: bool
  cs_aead :: bool
  cs_iv_arg :: "bytes option"

datatype pk_call =
    Send bytes
  | WriteAll bytes
  | SetInbound cipher_setup
  | SetOutbound cipher_setup
  | InCompressor pystr
  | OutCompressor pystr
  | ResetSeqnoIn
  | ResetSeqnoOut
  | InitialKexDone
  | StartHandshake
  | CompleteHandshake
  | ClosePacketizer

record transport =
  server_mode :: bool
  active :: bool
  advertise_strict_kex :: bool
  agreed_on_strict_kex :: bool
  p_ciphers :: "pystr list"
  p_macs :: "pystr list"
  p_keys :: "pystr list"
  p_pubkeys :: "pystr list"
  p_kex :: "pystr list"
  p_compression :: "pystr list"
  disabled_algorithms :: "(string \<times> pystr list) list"
  server_sig_algs :: bool
  server_key_dict :: "(pystr \<times> host_key_rec) list"
  moduli :: "modulus_pack option"
  local_version :: pystr
  remote_version :: pystr
  local_kex_init :: "bytes option"
  remote_kex_init :: "bytes option"
  latest_kex_init :: bytes
  remote_ext_info :: "pystr option"
  kex_engine :: "pystr option"
  host_key_type :: "pystr option"
  t_host_key :: "bytes option"
  kex_K :: "int option"
  kex_H :: "bytes option"
  session_id :: "bytes option"
  local_cipher :: pystr
  remote_cipher :: pystr
  local_mac :: pystr
  remote_mac :: pystr
  local_compression :: pystr
  remote_compression :: pystr
  initial_kex_done :: bool
  in_kex :: bool
  authenticated :: bool
  expected_packet :: "int list"
  clear_to_send :: bool
  completion_event :: "bool option"
  server_extensions :: "(pystr \<times> bytes) list"
  need_rekey :: bool
  init_out :: bool
  init_in :: bool
  has_auth_handler :: bool
  entropy :: bytes
  calls :: "pk_call list"

section \<open>The algorithm tables\<close>

definition default_ciphers :: "pystr list" where
  "default_ciphers = map lit [''aes128-ctr'', ''aes192-ctr'', ''aes256-ctr'', ''aes128-cbc'', ''aes192-cbc'',
     ''aes256-cbc'', ''3des-cbc'', ''aes128-gcm@openssh.com'', ''aes256-gcm@openssh.com'']"

definition default_macs :: "pystr list" where
  "default_macs = map lit [''hmac-sha2-256'', ''hmac-sha2-512'', ''hmac-sha2-256-etm@openssh.com'',
     ''hmac-sha2-512-etm@openssh.com'', ''hmac-sha1'', ''hmac-md5'', ''hmac-sha1-96'', ''hmac-md5-96'']"

definition default_keys :: "pystr list" where
  "default_keys = map lit [''ssh-ed25519'', ''ecdsa-sha2-nistp256'', ''ecdsa-sha2-nistp384'',
     ''ecdsa-sha2-nistp521'', ''rsa-sha2-512'', ''rsa-sha2-256'']"

definition default_pubkeys :: "pystr list" where
  "default_pubkeys = default_keys"

text \<open>The argument of \<open>default_kex\<close> and \<open>kex_info\<close>: Curve25519 is available.\<close>

definition default_kex :: "bool \<Rightarrow> pystr list" where
  "default_kex avail = map lit ((if avail then [''curve25519-sha256@libssh.org''] else []) @
     [''ecdh-sha2-nistp256'', ''ecdh-sha2-nistp384'', ''ecdh-sha2-nistp521'', ''diffie-hellman-group16-sha512'',
      ''diffie-hellman-group-exchange-sha256'', ''diffie-hellman-group14-sha256''])"

record cipher_info =
  ci_block_size :: int
  ci_key_size :: int
  ci_iv_size :: "int option"
  ci_aead :: bool

definition plain_cipher :: "int \<Rightarrow> int \<Rightarrow> cipher_info" where
  "plain_cipher b k = \<lparr>ci_block_size = b, ci_key_size = k, ci_iv_size = None, ci_aead = False\<rparr>"

definition gcm_cipher :: "int \<Rightarrow> cipher_info" where
  "gcm_cipher k = \<lparr>ci_block_size = 16, ci_key_size = k, ci_iv_size = Some 12, ci_aead = True\<rparr>"

definition cipher_table :: "(pystr \<times> cipher_info) list" where
  "cipher_table =
     [(lit ''aes128-ctr'', plain_cipher 16 16), (lit ''aes192-ctr'', plain_cipher 16 24),
      (lit ''aes256-ctr'', plain_cipher 16 32), (lit ''aes128-cbc'', plain_cipher 16 16),
      (lit ''aes192-cbc'', plain_cipher 16 24), (lit ''aes256-cbc'', plain_cipher 16 32),
      (lit ''3des-cbc'', plain_cipher 8 24), (lit ''aes128-gcm@openssh.com'', gcm_cipher 16),
      (lit ''aes256-gcm@openssh.com'', gcm_cipher 32)]"

text \<open>The entries of \<open>_mac_info\<close>: the digest size of the hash class, and the transmitted size.\<close>

definition mac_table :: "(pystr \<times> int \<times> int) list" where
  "mac_table =
     [(lit ''hmac-sha1'', 20, 20), (lit ''hmac-sha1-96'', 20, 12), (lit ''hmac-sha2-256'', 32, 32),
      (lit ''hmac-sha2-256-etm@openssh.com'', 32, 32), (lit ''hmac-sha2-512'', 64, 64),
      (lit ''hmac-sha2-512-etm@openssh.com'', 64, 64), (lit ''hmac-md5'', 16, 16), (lit ''hmac-md5-96'', 16, 12)]"

definition cert_of :: "pystr \<Rightarrow> pystr" where
  "cert_of x = x @ lit ''-cert-v01@openssh.com''"

definition key_names :: "pystr list" where
  "key_names = concat (map (\<lambda>x. [x, cert_of x]) (map lit [''rsa-sha2-256'', ''rsa-sha2-512'', ''ecdsa-sha2-nistp256'',
     ''ecdsa-sha2-nistp384'', ''ecdsa-sha2-nistp521'', ''ssh-ed25519'']))"

definition kex_names :: "bool \<Rightarrow> pystr list" where
  "kex_names avail = map lit ([''diffie-hellman-group-exchange-sha256'', ''diffie-hellman-group14-sha256'',
     ''diffie-hellman-group16-sha512'', ''ecdh-sha2-nistp256'', ''ecdh-sha2-nistp384'', ''ecdh-sha2-nistp521''] @
     (if avail then [''curve25519-sha256@libssh.org''] else []))"

definition compression_names :: "pystr list" where
  "compression_names = map lit [''zlib@openssh.com'', ''zlib'', ''none'']"

definition new_transport :: "bool \<Rightarrow> (string \<times> pystr list) list \<Rightarrow> bool \<Rightarrow> bool \<Rightarrow> transport" where
  "new_transport avail disabled sig_algs strict_kex =
     \<lparr>server_mode = False, active = False, advertise_strict_kex = strict_kex, agreed_on_strict_kex = False,
      p_ciphers = default_ciphers, p_macs = default_macs, p_keys = default_keys, p_pubkeys = default_pubkeys,
      p_kex = default_kex avail, p_compression = [lit ''none''], disabled_algorithms = disabled,
      server_sig_algs = sig_algs, server_key_dict = [], moduli = None, local_version = lit ''SSH-2.0-paramiko'',
      remote_version = [], local_kex_init = None, remote_kex_init = None, latest_kex_init = [],
      remote_ext_info = None, kex_engine = None, host_key_type = None, t_host_key = None, kex_K = None,
      kex_H = None, session_id = None, local_cipher = [], remote_cipher = [], local_mac = [], remote_mac = [],
      local_compression = [], remote_compression = [], initial_kex_done = False, in_kex = False,
      authenticated = False, expected_packet = [], clear_to_send = False, completion_event = None,
      server_extensions = [], need_rekey = False, init_out = False, init_in = False, has_auth_handler = False, entropy = [], calls = []\<rparr>"

section \<open>Preferences\<close>

definition disabled :: "transport \<Rightarrow> string \<Rightarrow> pystr list" where
  "disabled t type = (case map_of (disabled_algorithms t) type of None \<Rightarrow> [] | Some l \<Rightarrow> l)"

definition filter_algorithm :: "transport \<Rightarrow> string \<Rightarrow> pystr list \<Rightarrow> pystr list" where
  "filter_algorithm t type names = filter (\<lambda>x. x \<notin> set (disabled t type)) names"

definition preferred_ciphers where "preferred_ciphers t = filter_algorithm t ''ciphers'' (p_ciphers t)"
definition preferred_macs where "preferred_macs t = filter_algorithm t ''macs'' (p_macs t)"
definition preferred_keys where
  "preferred_keys t = (let filtered = filter_algorithm t ''keys'' (p_keys t) in filtered @ map cert_of filtered)"
definition preferred_pubkeys where "preferred_pubkeys t = filter_algorithm t ''pubkeys'' (p_pubkeys t)"
definition preferred_kex where "preferred_kex t = filter_algorithm t ''kex'' (p_kex t)"
definition preferred_compression where
  "preferred_compression t = filter_algorithm t ''compression'' (p_compression t)"

text \<open>\<open>SecurityOptions._set\<close> and its setters: every name must be in the table.\<close>

definition set_option :: "pystr list \<Rightarrow> pystr list \<Rightarrow> (transport \<Rightarrow> transport) \<Rightarrow> (transport, unit) prog" where
  "set_option possible x upd =
     (if filter (\<lambda>n. n \<notin> set possible) x \<noteq> [] then raise ValueError else modify upd)"

definition set_ciphers where "set_ciphers x = set_option (map fst cipher_table) x (\<lambda>t. t\<lparr>p_ciphers := x\<rparr>)"
definition set_digests where "set_digests x = set_option (map fst mac_table) x (\<lambda>t. t\<lparr>p_macs := x\<rparr>)"
definition set_key_types where "set_key_types x = set_option key_names x (\<lambda>t. t\<lparr>p_keys := x\<rparr>)"
definition set_kex where "set_kex avail x = set_option (kex_names avail) x (\<lambda>t. t\<lparr>p_kex := x\<rparr>)"
definition set_compression where "set_compression x = set_option compression_names x (\<lambda>t. t\<lparr>p_compression := x\<rparr>)"

definition use_compression :: "bool \<Rightarrow> transport \<Rightarrow> transport" where
  "use_compression compress t =
     t\<lparr>p_compression := (if compress then map lit [''zlib@openssh.com'', ''zlib'', ''none''] else [lit ''none''])\<rparr>"

section \<open>Server keys\<close>

definition add_server_key :: "host_key_rec \<Rightarrow> transport \<Rightarrow> transport" where
  "add_server_key key t =
     (let t = t\<lparr>server_key_dict := AList.update (hk_name key) key (server_key_dict t)\<rparr>
      in if hk_rsa key
         then t\<lparr>server_key_dict := AList.update (lit ''rsa-sha2-512'') key
                  (AList.update (lit ''rsa-sha2-256'') key (server_key_dict t))\<rparr>
         else t)"

definition get_server_key :: "transport \<Rightarrow> host_key_rec option" where
  "get_server_key t =
     (case host_key_type t of None \<Rightarrow> None | Some n \<Rightarrow> map_of (server_key_dict t) n)"

definition get_remote_server_key :: "(transport, bytes option) prog" where
  "get_remote_server_key =
     seqp (gets id) (\<lambda>t.
     if \<not> active t \<or> \<not> initial_kex_done t then raise (SSHException ''No existing session'') else ret (t_host_key t))"

section \<open>Messages and the expected packets\<close>

definition call :: "pk_call \<Rightarrow> (transport, unit) prog" where
  "call c = modify (\<lambda>t. t\<lparr>calls := calls t @ [c]\<rparr>)"

definition t_send :: "field list \<Rightarrow> (transport, unit) prog" where
  "t_send fs = seqp (liftr (compose fs)) (\<lambda>m. call (Send (msg_asbytes m)))"

definition expect_packet :: "int list \<Rightarrow> (transport, unit) prog" where
  "expect_packet ptypes = modify (\<lambda>t. t\<lparr>expected_packet := ptypes\<rparr>)"

text \<open>\<open>os.urandom\<close> hands out the next bytes of the supply.\<close>

definition urandom :: "nat \<Rightarrow> (transport, bytes) prog" where
  "urandom n =
     seqp (gets entropy) (\<lambda>e.
     if length e < n then (\<lambda>t. (Blocked, t))
     else seqp (modify (\<lambda>t. t\<lparr>entropy := drop n e\<rparr>)) (\<lambda>_. ret (take n e)))"

text \<open>A sampling on the supply of random bytes.\<close>

definition on_entropy :: "(bytes, 'a) prog \<Rightarrow> (transport, 'a) prog" where
  "on_entropy p t = (case p (entropy t) of (r, e) \<Rightarrow> (r, t\<lparr>entropy := e\<rparr>))"

section \<open>The exchange hash and the session keys\<close>

definition set_K_H :: "int \<Rightarrow> bytes \<Rightarrow> (transport, unit) prog" where
  "set_K_H k h =
     modify (\<lambda>t. t\<lparr>kex_K := Some k, kex_H := Some h,
        session_id := (if session_id t = None then Some h else session_id t)\<rparr>)"

definition verify_key :: "crypto_env \<Rightarrow> bytes \<Rightarrow> bytes \<Rightarrow> (transport, unit) prog" where
  "verify_key env host_key sig =
     seqp (gets id) (\<lambda>t.
     case host_key_type t of
       None \<Rightarrow> raise KeyError
     | Some alg \<Rightarrow>
         if alg \<notin> set key_names then raise KeyError
         else
           seqp (liftr (case kex_H t of None \<Rightarrow> Inl TypeError | Some h \<Rightarrow> verify_sig env alg host_key h sig)) (\<lambda>ok.
           if ok then modify (\<lambda>t. t\<lparr>t_host_key := Some host_key\<rparr>)
           else raise (SSHException ''Signature verification failed.'')))"

text \<open>
  The loop of \<open>_compute_key\<close>; a digest without bytes would repeat it forever.
\<close>

function key_loop :: "(bytes \<Rightarrow> bytes) \<Rightarrow> bytes \<Rightarrow> bytes \<Rightarrow> bytes \<Rightarrow> nat \<Rightarrow> bytes outcome" where
  "key_loop h kh out sofar n =
     (if length out < n then
        (let digest = h (kh @ sofar)
         in if digest = [] then Blocked else key_loop h kh (out @ digest) (sofar @ digest) n)
      else Ret (take n out))"
  by pat_completeness auto
termination by (relation "measure (\<lambda>(h, kh, out, sofar, n). n - length out)") (auto simp flip: length_greater_0_conv)

declare key_loop.simps [simp del]

definition derive_key :: "(bytes \<Rightarrow> bytes) \<Rightarrow> bytes \<Rightarrow> bytes \<Rightarrow> bytes \<Rightarrow> char \<Rightarrow> int \<Rightarrow> bytes outcome" where
  "derive_key h kmp hh sid c nbytes =
     (let first = h (kmp @ hh @ [of_char c] @ sid) in key_loop h (kmp @ hh) first first (nat nbytes))"

text \<open>Without an engine the hash is SHA-1, which the environment has under the empty name.\<close>

definition engine_name :: "transport \<Rightarrow> pystr" where
  "engine_name t = (case kex_engine t of None \<Rightarrow> [] | Some e \<Rightarrow> e)"

definition compute_key :: "crypto_env \<Rightarrow> char \<Rightarrow> int \<Rightarrow> (transport, bytes) prog" where
  "compute_key env c nbytes =
     seqp (gets id) (\<lambda>t.
     case (kex_K t, kex_H t, session_id t) of
       (Some k, Some hh, Some sid) \<Rightarrow>
         seqp (liftr (enc_mpint k)) (\<lambda>kmp. \<lambda>t. (derive_key (kex_hash env (engine_name t)) kmp hh sid c nbytes, t))
     | _ \<Rightarrow> raise TypeError)"

end
