(* ===== verification/Key_Negotiation.thy ===== *)
theory Key_Negotiation
  imports Transport_Core
begin

text \<open>
  The negotiation half of \<open>paramiko/transport.py\<close>: \<open>_send_kex_init\<close>, the parser of the peer's
  \<open>KEXINIT\<close> and the choice of the algorithms in \<open>_parse_kex_init\<close>, with the strict-kex and
  ext-info markers that travel in the list of key exchange methods.
\<close>

section \<open>Sending\<close>

definition gex_prefix :: pystr where
  "gex_prefix = lit ''diffie-hellman-group-exchange-sha''"

definition starts_with :: "pystr \<Rightarrow> pystr \<Rightarrow> bool" where
  "starts_with p s \<longleftrightarrow> take (length p) s = p"

definition strict_marker :: "bool \<Rightarrow> pystr" where
  "strict_marker server = (if server then lit ''kex-strict-s-v00@openssh.com'' else lit ''kex-strict-c-v00@openssh.com'')"

definition available_server_keys :: "transport \<Rightarrow> pystr list" where
  "available_server_keys t =
     (if server_mode t then filter (\<lambda>k. k \<in> fst ` set (server_key_dict t)) (preferred_keys t) else preferred_keys t)"

text \<open>The lists of the message, computed before a server without moduli gives up group exchange.\<close>

definition offered_kex :: "transport \<Rightarrow> pystr list" where
  "offered_kex t =
     preferred_kex t @ (if server_mode t then [] else [lit ''ext-info-c'']) @
     (if advertise_strict_kex t then [strict_marker (server_mode t)] else [])"

definition kexinit_fields :: "bytes \<Rightarrow> pystr list \<Rightarrow> transport \<Rightarrow> field list" where
  "kexinit_fields cookie kex t =
     msg_byte MSG_KEXINIT # map FByte cookie @
     [FList kex, FList (available_server_keys t),
      FList (preferred_ciphers t), FList (preferred_ciphers t), FList (preferred_macs t), FList (preferred_macs t),
      FList (preferred_compression t), FList (preferred_compression t), FString [], FString [], FBool False, FInt 0]"

text \<open>\<open>avail\<close>: Curve25519 is in the table of key exchange methods.\<close>

definition drop_gex :: "bool \<Rightarrow> (transport, unit) prog" where
  "drop_gex avail =
     seqp (gets id) (\<lambda>t.
     if server_mode t \<and> moduli t = None \<and> filter (starts_with gex_prefix) (preferred_kex t) \<noteq> []
     then set_kex avail (filter (\<lambda>k. \<not> starts_with gex_prefix k) (p_kex t)) else ret ())"

definition send_kex_init :: "bool \<Rightarrow> (transport, unit) prog" where
  "send_kex_init avail =
     seqp (modify (\<lambda>t. t\<lparr>clear_to_send := False, in_kex := True\<rparr>)) (\<lambda>_.
     seqp (gets offered_kex) (\<lambda>kex.
     seqp (drop_gex avail) (\<lambda>_.
     seqp (urandom 16) (\<lambda>cookie.
     seqp (gets (kexinit_fields cookie kex)) (\<lambda>fs.
     seqp (liftr (compose fs)) (\<lambda>m.
     seqp (modify (\<lambda>t. t\<lparr>local_kex_init := Some (msg_asbytes m), latest_kex_init := msg_asbytes m\<rparr>)) (\<lambda>_.
     call (Send (msg_asbytes m)))))))))"

section \<open>Parsing\<close>

record kexinit =
  kex_algo_list :: "pystr list"
  server_key_algo_list :: "pystr list"
  client_encrypt_algo_list :: "pystr list"
  server_encrypt_algo_list :: "pystr list"
  client_mac_algo_list :: "pystr list"
  server_mac_algo_list :: "pystr list"
  client_compress_algo_list :: "pystr list"
  server_compress_algo_list :: "pystr list"
  client_lang_list :: "pystr list"
  server_lang_list :: "pystr list"
  kex_follows :: bool

definition really_parse_kex_init :: "message \<Rightarrow> bool \<Rightarrow> (kexinit \<times> message) res" where
  "really_parse_kex_init m ignore_first_byte =
     (let m = (if ignore_first_byte then snd (get_byte m) else m); m = snd (get_bytes m 16)
      in bind_res (get_list m) (\<lambda>(kex, m).
         bind_res (get_list m) (\<lambda>(key, m).
         bind_res (get_list m) (\<lambda>(ce, m).
         bind_res (get_list m) (\<lambda>(se, m).
         bind_res (get_list m) (\<lambda>(cm, m).
         bind_res (get_list m) (\<lambda>(sm, m).
         bind_res (get_list m) (\<lambda>(cc, m).
         bind_res (get_list m) (\<lambda>(sc, m).
         bind_res (get_list m) (\<lambda>(cl, m).
         bind_res (get_list m) (\<lambda>(sl, m).
         let (follows, m) = get_boolean m; (unused, m) = get_int m
         in Inr (\<lparr>kex_algo_list = kex, server_key_algo_list = key, client_encrypt_algo_list = ce,
                  server_encrypt_algo_list = se, client_mac_algo_list = cm, server_mac_algo_list = sm,
                  client_compress_algo_list = cc, server_compress_algo_list = sc, client_lang_list = cl,
                  server_lang_list = sl, kex_follows = follows\<rparr>, m))))))))))))"

definition get_latest_kex_init :: "transport \<Rightarrow> kexinit res" where
  "get_latest_kex_init t = bind_res (really_parse_kex_init (message_of (latest_kex_init t)) True) (\<lambda>(k, m). Inr k)"

text \<open>One turn of the loop that records and strips the markers.\<close>

definition ext_prefix :: pystr where "ext_prefix = lit ''ext-info-''"
definition strict_prefix :: pystr where "strict_prefix = lit ''kex-strict-''"

definition scan_marker :: "transport \<Rightarrow> pystr \<Rightarrow> transport" where
  "scan_marker t algo =
     (if starts_with ext_prefix algo then t\<lparr>remote_ext_info := Some algo\<rparr>
      else if starts_with strict_prefix algo
      then t\<lparr>agreed_on_strict_kex := (algo = strict_marker (\<not> server_mode t) \<and> advertise_strict_kex t)\<rparr>
      else t)"

definition is_marker :: "pystr \<Rightarrow> bool" where
  "is_marker algo \<longleftrightarrow> starts_with ext_prefix algo \<or> starts_with strict_prefix algo"

text \<open>
  The agreed algorithms, best first: a server goes through the client's list, a client through
  its own.
\<close>

definition agree :: "bool \<Rightarrow> pystr list \<Rightarrow> pystr list \<Rightarrow> pystr list" where
  "agree server mine theirs =
     (if server then filter (\<lambda>x. x \<in> set mine) theirs else filter (\<lambda>x. x \<in> set theirs) mine)"

text \<open>The lists for what this side sends (\<open>local\<close>) and receives (\<open>remote\<close>).\<close>

definition agree_local :: "bool \<Rightarrow> pystr list \<Rightarrow> pystr list \<Rightarrow> pystr list \<Rightarrow> pystr list" where
  "agree_local server mine client_list server_list = agree server mine (if server then server_list else client_list)"

definition agree_remote :: "bool \<Rightarrow> pystr list \<Rightarrow> pystr list \<Rightarrow> pystr list \<Rightarrow> pystr list" where
  "agree_remote server mine client_list server_list = agree server mine (if server then client_list else server_list)"

definition choose_kex :: "kexinit \<Rightarrow> (transport, unit) prog" where
  "choose_kex p =
     seqp (gets (\<lambda>t. agree (server_mode t) (preferred_kex t) (filter (\<lambda>a. \<not> is_marker a) (kex_algo_list p)))) (\<lambda>agreed.
     if agreed = [] then raise (IncompatiblePeer ''Incompatible ssh peer (no acceptable kex algorithm)'')
     else modify (\<lambda>t. t\<lparr>kex_engine := Some (hd agreed)\<rparr>))"

definition choose_host_key :: "kexinit \<Rightarrow> (transport, unit) prog" where
  "choose_host_key p =
     seqp (gets (\<lambda>t. agree (server_mode t) (available_server_keys t) (server_key_algo_list p))) (\<lambda>agreed.
     if agreed = [] then raise (IncompatiblePeer ''Incompatible ssh peer (no acceptable host key)'')
     else
       seqp (modify (\<lambda>t. t\<lparr>host_key_type := Some (hd agreed)\<rparr>)) (\<lambda>_.
       seqp (gets id) (\<lambda>t.
       if server_mode t \<and> get_server_key t = None
       then raise (IncompatiblePeer ''Incompatible ssh peer (can't match requested host key type)'') else ret ())))"

definition choose_ciphers :: "kexinit \<Rightarrow> (transport, unit) prog" where
  "choose_ciphers p =
     seqp (gets id) (\<lambda>t.
     let l = agree_local (server_mode t) (preferred_ciphers t) (client_encrypt_algo_list p) (server_encrypt_algo_list p);
         r = agree_remote (server_mode t) (preferred_ciphers t) (client_encrypt_algo_list p) (server_encrypt_algo_list p)
     in if l = [] \<or> r = [] then raise (IncompatiblePeer ''Incompatible ssh server (no acceptable ciphers)'')
        else modify (\<lambda>t. t\<lparr>local_cipher := hd l, remote_cipher := hd r\<rparr>))"

definition choose_macs :: "kexinit \<Rightarrow> (transport, unit) prog" where
  "choose_macs p =
     seqp (gets id) (\<lambda>t.
     let l = agree_local (server_mode t) (preferred_macs t) (client_mac_algo_list p) (server_mac_algo_list p);
         r = agree_remote (server_mode t) (preferred_macs t) (client_mac_algo_list p) (server_mac_algo_list p)
     in if l = [] \<or> r = [] then raise (IncompatiblePeer ''Incompatible ssh server (no acceptable macs)'')
        else modify (\<lambda>t. t\<lparr>local_mac := hd l, remote_mac := hd r\<rparr>))"

definition choose_compression :: "kexinit \<Rightarrow> (transport, unit) prog" where
  "choose_compression p =
     seqp (gets id) (\<lambda>t.
     let l = agree_local (server_mode t) (preferred_compression t) (client_compress_algo_list p) (server_compress_algo_list p);
         r = agree_remote (server_mode t) (preferred_compression t) (client_compress_algo_list p) (server_compress_algo_list p)
     in if l = [] \<or> r = [] then raise (IncompatiblePeer ''Incompatible ssh server (no acceptable compression)'')
        else modify (\<lambda>t. t\<lparr>local_compression := hd l, remote_compression := hd r\<rparr>))"

text \<open>\<open>m\<close> is the message after its type byte; \<open>seqno\<close> is the sequence number it arrived with.\<close>

definition parse_kex_init :: "int \<Rightarrow> message \<Rightarrow> (transport, unit) prog" where
  "parse_kex_init seqno m =
     seqp (liftr (really_parse_kex_init m False)) (\<lambda>(p, m').
     seqp (modify (\<lambda>t. foldl scan_marker (t\<lparr>remote_ext_info := None\<rparr>) (kex_algo_list p))) (\<lambda>_.
     seqp (gets id) (\<lambda>t.
     if agreed_on_strict_kex t \<and> \<not> initial_kex_done t \<and> seqno \<noteq> 0 then raise MessageOrderError
     else
       seqp (choose_kex p) (\<lambda>_.
       seqp (choose_host_key p) (\<lambda>_.
       seqp (choose_ciphers p) (\<lambda>_.
       seqp (choose_macs p) (\<lambda>_.
       seqp (choose_compression p) (\<lambda>_.
       modify (\<lambda>t. t\<lparr>remote_kex_init := Some (word_of_int MSG_KEXINIT # fst (get_so_far m'))\<rparr>)))))))))"

end
