(* ===== verification/Negotiation_Props.thy ===== *)
theory Negotiation_Props
  imports Key_Negotiation
begin

text \<open>
  The negotiation of algorithms: both sides of an exchange of \<open>KEXINIT\<close> messages come to the
  same algorithms (each side's sending ones being the other's receiving ones), never to a
  disabled one, and agree on the strict mode.
\<close>

section \<open>The message and its parser\<close>

definition kexinit_of :: "pystr list \<Rightarrow> transport \<Rightarrow> kexinit" where
  "kexinit_of kex t =
     \<lparr>kex_algo_list = kex, server_key_algo_list = available_server_keys t,
      client_encrypt_algo_list = preferred_ciphers t, server_encrypt_algo_list = preferred_ciphers t,
      client_mac_algo_list = preferred_macs t, server_mac_algo_list = preferred_macs t,
      client_compress_algo_list = preferred_compression t, server_compress_algo_list = preferred_compression t,
      client_lang_list = [[]], server_lang_list = [[]], kex_follows = False\<rparr>"

text \<open>The lists a transport offers can be put on the wire.\<close>

definition offers_ok :: "transport \<Rightarrow> bool" where
  "offers_ok t \<longleftrightarrow> wire_list (preferred_kex t) \<and> wire_list (available_server_keys t) \<and>
     wire_list (preferred_ciphers t) \<and> wire_list (preferred_macs t) \<and> wire_list (preferred_compression t) \<and>
     (\<forall>a\<in>set (preferred_kex t). \<not> is_marker a)"

lemma offered_wire: "offers_ok t \<Longrightarrow> wire_list (offered_kex t)"
  unfolding offers_ok_def wire_list_def offered_kex_def strict_marker_def
  by (auto simp: comma_def)

lemma parse_composed:
  assumes c: "compose (kexinit_fields cookie kex t) = Inr m" and "length cookie = 16"
    and "wire_list kex" "wire_list (available_server_keys t)" "wire_list (preferred_ciphers t)"
      "wire_list (preferred_macs t)" "wire_list (preferred_compression t)"
  shows "\<exists>w m'. msg_asbytes m = 20 # w \<and>
    really_parse_kex_init (message_of (w @ r)) False = Inr (kexinit_of kex t, m') \<and> fst (get_so_far m') = w"
proof -
  obtain w where w: "msg_asbytes m = 20 # w" and r0: "reads w (map FByte cookie @
     [FList kex, FList (available_server_keys t),
      FList (preferred_ciphers t), FList (preferred_ciphers t), FList (preferred_macs t), FList (preferred_macs t),
      FList (preferred_compression t), FList (preferred_compression t), FString [], FString [], FBool False, FInt 0])
      r (message_of (w @ r))"
    using reads_body [of 20 _ m r] c by (auto simp: compose_def kexinit_fields_def msg_byte_def)
  obtain m0 where m0: "get_bytes (message_of (w @ r)) 16 = (cookie, m0)" and "reads w
     [FList kex, FList (available_server_keys t),
      FList (preferred_ciphers t), FList (preferred_ciphers t), FList (preferred_macs t), FList (preferred_macs t),
      FList (preferred_compression t), FList (preferred_compression t), FString [], FString [], FBool False, FInt 0] r m0"
    using reads_bytes [OF r0, of 16] assms(2) by auto
  from reads_list [OF this(2) assms(3)] obtain m1 where m1: "get_list m0 = Inr (kex, m1)" and r1: "reads w
     [FList (available_server_keys t),
      FList (preferred_ciphers t), FList (preferred_ciphers t), FList (preferred_macs t), FList (preferred_macs t),
      FList (preferred_compression t), FList (preferred_compression t), FString [], FString [], FBool False, FInt 0] r m1"
    by blast
  from reads_list [OF r1 assms(4)] obtain m2 where m2: "get_list m1 = Inr (available_server_keys t, m2)" and r2: "reads w
     [FList (preferred_ciphers t), FList (preferred_ciphers t), FList (preferred_macs t), FList (preferred_macs t),
      FList (preferred_compression t), FList (preferred_compression t), FString [], FString [], FBool False, FInt 0] r m2"
    by blast
  from reads_list [OF r2 assms(5)] obtain m3 where m3: "get_list m2 = Inr (preferred_ciphers t, m3)" and r3: "reads w
     [FList (preferred_ciphers t), FList (preferred_macs t), FList (preferred_macs t),
      FList (preferred_compression t), FList (preferred_compression t), FString [], FString [], FBool False, FInt 0] r m3"
    by blast
  from reads_list [OF r3 assms(5)] obtain m4 where m4: "get_list m3 = Inr (preferred_ciphers t, m4)" and r4: "reads w
     [FList (preferred_macs t), FList (preferred_macs t),
      FList (preferred_compression t), FList (preferred_compression t), FString [], FString [], FBool False, FInt 0] r m4"
    by blast
  from reads_list [OF r4 assms(6)] obtain m5 where m5: "get_list m4 = Inr (preferred_macs t, m5)" and r5: "reads w
     [FList (preferred_macs t),
      FList (preferred_compression t), FList (preferred_compression t), FString [], FString [], FBool False, FInt 0] r m5"
    by blast
  from reads_list [OF r5 assms(6)] obtain m6 where m6: "get_list m5 = Inr (preferred_macs t, m6)" and r6: "reads w
     [FList (preferred_compression t), FList (preferred_compression t), FString [], FString [], FBool False, FInt 0] r m6"
    by blast
  from reads_list [OF r6 assms(7)] obtain m7 where m7: "get_list m6 = Inr (preferred_compression t, m7)" and r7: "reads w
     [FList (preferred_compression t), FString [], FString [], FBool False, FInt 0] r m7"
    by blast
  from reads_list [OF r7 assms(7)] obtain m8 where m8: "get_list m7 = Inr (preferred_compression t, m8)" and r8: "reads w
     [FString [], FString [], FBool False, FInt 0] r m8"
    by blast
  from reads_no_list [OF r8] obtain m9 where m9: "get_list m8 = Inr ([[]], m9)" and r9: "reads w [FString [], FBool False, FInt 0] r m9"
    by blast
  from reads_no_list [OF r9] obtain m10 where m10: "get_list m9 = Inr ([[]], m10)" and r10: "reads w [FBool False, FInt 0] r m10"
    by blast
  from reads_bool [OF r10] obtain m11 where m11: "get_boolean m10 = (False, m11)" and r11: "reads w [FInt 0] r m11"
    by blast
  from reads_int [OF r11] obtain m12 where m12: "get_int m11 = (0, m12)" and r12: "reads w [] r m12" by blast
  have "really_parse_kex_init (message_of (w @ r)) False = Inr (kexinit_of kex t, m12)"
    by (simp add: really_parse_kex_init_def m0 m1 m2 m3 m4 m5 m6 m7 m8 m9 m10 m11 m12 kexinit_of_def)
  moreover have "fst (get_so_far m12) = w" using reads_end [OF r12] by simp
  ultimately show ?thesis using w by blast
qed

section \<open>The choice\<close>

text \<open>The scan over the markers touches two fields only.\<close>

lemma scan_marker_fields:
  "server_mode (scan_marker t a) = server_mode t" "advertise_strict_kex (scan_marker t a) = advertise_strict_kex t"
  "preferred_kex (scan_marker t a) = preferred_kex t" "available_server_keys (scan_marker t a) = available_server_keys t"
  "preferred_ciphers (scan_marker t a) = preferred_ciphers t" "preferred_macs (scan_marker t a) = preferred_macs t"
  "preferred_compression (scan_marker t a) = preferred_compression t"
  "server_key_dict (scan_marker t a) = server_key_dict t" "initial_kex_done (scan_marker t a) = initial_kex_done t"
  "local_kex_init (scan_marker t a) = local_kex_init t"
  by (simp_all add: scan_marker_def preferred_kex_def preferred_ciphers_def preferred_macs_def
      preferred_compression_def preferred_keys_def available_server_keys_def filter_algorithm_def disabled_def)

lemma scan_fields [simp]:
  "server_mode (foldl scan_marker t xs) = server_mode t"
  "advertise_strict_kex (foldl scan_marker t xs) = advertise_strict_kex t"
  "preferred_kex (foldl scan_marker t xs) = preferred_kex t"
  "available_server_keys (foldl scan_marker t xs) = available_server_keys t"
  "preferred_ciphers (foldl scan_marker t xs) = preferred_ciphers t"
  "preferred_macs (foldl scan_marker t xs) = preferred_macs t"
  "preferred_compression (foldl scan_marker t xs) = preferred_compression t"
  "server_key_dict (foldl scan_marker t xs) = server_key_dict t"
  "initial_kex_done (foldl scan_marker t xs) = initial_kex_done t"
  "local_kex_init (foldl scan_marker t xs) = local_kex_init t"
  by (induction xs arbitrary: t) (simp_all add: scan_marker_fields)

lemma scan_none: "(\<forall>a\<in>set xs. \<not> is_marker a) \<Longrightarrow> foldl scan_marker t xs = t"
  by (induction xs arbitrary: t) (auto simp: scan_marker_def is_marker_def)

text \<open>The eight lists of candidates, in the order the code computes them.\<close>

definition candidates :: "transport \<Rightarrow> kexinit \<Rightarrow> pystr list list" where
  "candidates t p =
     [agree (server_mode t) (preferred_kex t) (filter (\<lambda>a. \<not> is_marker a) (kex_algo_list p)),
      agree (server_mode t) (available_server_keys t) (server_key_algo_list p),
      agree_local (server_mode t) (preferred_ciphers t) (client_encrypt_algo_list p) (server_encrypt_algo_list p),
      agree_remote (server_mode t) (preferred_ciphers t) (client_encrypt_algo_list p) (server_encrypt_algo_list p),
      agree_local (server_mode t) (preferred_macs t) (client_mac_algo_list p) (server_mac_algo_list p),
      agree_remote (server_mode t) (preferred_macs t) (client_mac_algo_list p) (server_mac_algo_list p),
      agree_local (server_mode t) (preferred_compression t) (client_compress_algo_list p) (server_compress_algo_list p),
      agree_remote (server_mode t) (preferred_compression t) (client_compress_algo_list p) (server_compress_algo_list p)]"

text \<open>What the eight agreed names are stored in.\<close>

definition agreed_names :: "transport \<Rightarrow> pystr option list" where
  "agreed_names t =
     [kex_engine t, host_key_type t, Some (local_cipher t), Some (remote_cipher t), Some (local_mac t),
      Some (remote_mac t), Some (local_compression t), Some (remote_compression t)]"

lemma agree_subset: "set (agree s mine theirs) \<subseteq> set mine \<inter> set theirs"
  by (auto simp: agree_def)

lemma server_key_known:
  assumes "server_mode t" and "x \<in> set (available_server_keys t)"
  shows "map_of (server_key_dict t) x \<noteq> None"
  using assms by (auto simp: available_server_keys_def map_of_eq_None_iff)

lemma choose_eval:
  fixes t :: transport
  shows "choose_kex p t = (let l = agree (server_mode t) (preferred_kex t) (filter (\<lambda>a. \<not> is_marker a) (kex_algo_list p))
      in if l = [] then (Exn (IncompatiblePeer ''Incompatible ssh peer (no acceptable kex algorithm)''), t)
         else (Ret (), t\<lparr>kex_engine := Some (hd l)\<rparr>))"
    "choose_ciphers p t = (let l = agree_local (server_mode t) (preferred_ciphers t) (client_encrypt_algo_list p) (server_encrypt_algo_list p);
         r = agree_remote (server_mode t) (preferred_ciphers t) (client_encrypt_algo_list p) (server_encrypt_algo_list p)
      in if l = [] \<or> r = [] then (Exn (IncompatiblePeer ''Incompatible ssh server (no acceptable ciphers)''), t)
         else (Ret (), t\<lparr>local_cipher := hd l, remote_cipher := hd r\<rparr>))"
    "choose_macs p t = (let l = agree_local (server_mode t) (preferred_macs t) (client_mac_algo_list p) (server_mac_algo_list p);
         r = agree_remote (server_mode t) (preferred_macs t) (client_mac_algo_list p) (server_mac_algo_list p)
      in if l = [] \<or> r = [] then (Exn (IncompatiblePeer ''Incompatible ssh server (no acceptable macs)''), t)
         else (Ret (), t\<lparr>local_mac := hd l, remote_mac := hd r\<rparr>))"
    "choose_compression p t = (let l = agree_local (server_mode t) (preferred_compression t) (client_compress_algo_list p) (server_compress_algo_list p);
         r = agree_remote (server_mode t) (preferred_compression t) (client_compress_algo_list p) (server_compress_algo_list p)
      in if l = [] \<or> r = [] then (Exn (IncompatiblePeer ''Incompatible ssh server (no acceptable compression)''), t)
         else (Ret (), t\<lparr>local_compression := hd l, remote_compression := hd r\<rparr>))"
  by (simp_all add: choose_kex_def choose_ciphers_def choose_macs_def choose_compression_def Let_def)

lemma choose_host_key_eval:
  "choose_host_key p t = (let l = agree (server_mode t) (available_server_keys t) (server_key_algo_list p)
      in if l = [] then (Exn (IncompatiblePeer ''Incompatible ssh peer (no acceptable host key)''), t)
         else (Ret (), t\<lparr>host_key_type := Some (hd l)\<rparr>))"
proof (cases "agree (server_mode t) (available_server_keys t) (server_key_algo_list p)")
  case Nil
  then show ?thesis by (simp add: choose_host_key_def)
next
  case (Cons x xs)
  then have "x \<in> set (available_server_keys t)"
    using agree_subset [of "server_mode t" "available_server_keys t" "server_key_algo_list p"] by simp
  then have "server_mode t \<Longrightarrow> map_of (server_key_dict t) x \<noteq> None" using server_key_known by blast
  with Cons show ?thesis by (auto simp: choose_host_key_def get_server_key_def)
qed

lemma preferences_upd [simp]:
  "preferred_kex (t\<lparr>kex_engine := x\<rparr>) = preferred_kex t" "preferred_ciphers (t\<lparr>kex_engine := x\<rparr>) = preferred_ciphers t"
  "preferred_macs (t\<lparr>kex_engine := x\<rparr>) = preferred_macs t" "preferred_compression (t\<lparr>kex_engine := x\<rparr>) = preferred_compression t"
  "available_server_keys (t\<lparr>kex_engine := x\<rparr>) = available_server_keys t"
  "preferred_ciphers (t\<lparr>host_key_type := y\<rparr>) = preferred_ciphers t"
  "preferred_macs (t\<lparr>host_key_type := y\<rparr>) = preferred_macs t"
  "preferred_compression (t\<lparr>host_key_type := y\<rparr>) = preferred_compression t"
  "preferred_macs (t\<lparr>local_cipher := a, remote_cipher := b\<rparr>) = preferred_macs t"
  "preferred_compression (t\<lparr>local_cipher := a, remote_cipher := b\<rparr>) = preferred_compression t"
  "preferred_compression (t\<lparr>local_mac := a, remote_mac := b\<rparr>) = preferred_compression t"
  "preferred_kex (t\<lparr>remote_ext_info := z\<rparr>) = preferred_kex t" "preferred_ciphers (t\<lparr>remote_ext_info := z\<rparr>) = preferred_ciphers t"
  "preferred_macs (t\<lparr>remote_ext_info := z\<rparr>) = preferred_macs t"
  "preferred_compression (t\<lparr>remote_ext_info := z\<rparr>) = preferred_compression t"
  "available_server_keys (t\<lparr>remote_ext_info := z\<rparr>) = available_server_keys t"
  by (simp_all add: preferred_kex_def preferred_ciphers_def preferred_macs_def
      preferred_compression_def preferred_keys_def available_server_keys_def filter_algorithm_def disabled_def)

lemma parse_kex_init_result:
  assumes "really_parse_kex_init m False = Inr (p, m')"
    and "t1 = foldl scan_marker (t\<lparr>remote_ext_info := None\<rparr>) (kex_algo_list p)"
    and "parse_kex_init seqno m t = (r, t')"
  shows "(r = Ret ()) = ([] \<notin> set (candidates t p) \<and>
            \<not> (agreed_on_strict_kex t1 \<and> \<not> initial_kex_done t \<and> seqno \<noteq> 0))"
    and "r = Ret () \<Longrightarrow> agreed_names t' = map (\<lambda>l. Some (hd l)) (candidates t p)"
    and "r = Ret () \<Longrightarrow> agreed_on_strict_kex t' = agreed_on_strict_kex t1"
    and "r = Ret () \<Longrightarrow> remote_kex_init t' = Some (20 # fst (get_so_far m'))"
    and "r = Ret () \<Longrightarrow> local_kex_init t' = local_kex_init t"
proof -
  have e: "seqp (liftr (Inr (p, m'))) f = f (p, m')" for f :: "_ \<Rightarrow> (transport, unit) prog"
    by (simp add: fun_eq_iff)
  have t1: "server_mode t1 = server_mode t" "initial_kex_done t1 = initial_kex_done t" "candidates t1 p = candidates t p"
    "local_kex_init t1 = local_kex_init t"
    by (simp_all add: assms(2) candidates_def)
  show "(r = Ret ()) = ([] \<notin> set (candidates t p) \<and> \<not> (agreed_on_strict_kex t1 \<and> \<not> initial_kex_done t \<and> seqno \<noteq> 0))"
    "r = Ret () \<Longrightarrow> agreed_names t' = map (\<lambda>l. Some (hd l)) (candidates t p)"
    "r = Ret () \<Longrightarrow> agreed_on_strict_kex t' = agreed_on_strict_kex t1"
    "r = Ret () \<Longrightarrow> remote_kex_init t' = Some (20 # fst (get_so_far m'))"
    "r = Ret () \<Longrightarrow> local_kex_init t' = local_kex_init t"
    using assms(3) unfolding parse_kex_init_def assms(1) e prod.case
    by (simp_all add: assms(2) [symmetric] t1 [symmetric])
       (auto simp: seqp_def choose_eval choose_host_key_eval candidates_def agreed_names_def Let_def split: if_splits)
qed

section \<open>Both sides together\<close>

text \<open>Group exchange is only offered by a server that has moduli for it.\<close>

definition gex_possible :: "transport \<Rightarrow> bool" where
  "gex_possible t \<longleftrightarrow> \<not> server_mode t \<or> moduli t \<noteq> None \<or> (\<forall>k\<in>set (preferred_kex t). \<not> starts_with gex_prefix k)"

definition same_offer :: "transport \<Rightarrow> transport \<Rightarrow> bool" where
  "same_offer t t' \<longleftrightarrow> server_mode t' = server_mode t \<and> advertise_strict_kex t' = advertise_strict_kex t \<and>
     agreed_on_strict_kex t' = agreed_on_strict_kex t \<and> preferred_kex t' = preferred_kex t \<and>
     available_server_keys t' = available_server_keys t \<and> preferred_ciphers t' = preferred_ciphers t \<and>
     preferred_macs t' = preferred_macs t \<and> preferred_compression t' = preferred_compression t \<and>
     initial_kex_done t' = initial_kex_done t"

lemma drop_gex_none: "gex_possible t \<Longrightarrow> drop_gex avail t = (Ret (), t)"
  by (auto simp: drop_gex_def gex_possible_def filter_empty_conv)

lemma send_kex_init_run:
  assumes "gex_possible t"
  shows "send_kex_init avail t =
    (let t0 = t\<lparr>clear_to_send := False, in_kex := True\<rparr>; c = take 16 (entropy t)
     in if length (entropy t) < 16 then (Blocked, t0)
        else case compose (kexinit_fields c (offered_kex t) t) of
               Inl e \<Rightarrow> (Exn e, t0\<lparr>entropy := drop 16 (entropy t)\<rparr>)
             | Inr m \<Rightarrow> (Ret (), t0\<lparr>entropy := drop 16 (entropy t), local_kex_init := Some (msg_asbytes m),
                 latest_kex_init := msg_asbytes m, calls := calls t @ [Send (msg_asbytes m)]\<rparr>))"
proof -
  let ?t0 = "t\<lparr>clear_to_send := False, in_kex := True\<rparr>"
  let ?c = "take 16 (entropy t)" let ?t1 = "?t0\<lparr>entropy := drop 16 (entropy t)\<rparr>"
  have o: "offered_kex ?t0 = offered_kex t" "gex_possible ?t0"
    using assms by (simp_all add: offered_kex_def gex_possible_def preferred_kex_def filter_algorithm_def disabled_def)
  have f: "kexinit_fields ?c (offered_kex t) ?t1 = kexinit_fields ?c (offered_kex t) t"
    by (simp add: kexinit_fields_def preferred_ciphers_def preferred_macs_def preferred_compression_def
        preferred_keys_def available_server_keys_def filter_algorithm_def disabled_def)
  have d: "seqp (drop_gex avail) f ?t0 = f () ?t0" for f :: "unit \<Rightarrow> (transport, unit) prog"
    by (simp add: seqp_def drop_gex_none [OF o(2)])
  have u: "seqp (urandom 16) f ?t0 = (if length (entropy t) < 16 then (Blocked, ?t0) else f ?c ?t1)"
    for f :: "bytes \<Rightarrow> (transport, unit) prog"
    by (simp add: seqp_def urandom_def)
  have run: "send_kex_init avail t =
      (if length (entropy t) < 16 then (Blocked, ?t0)
       else seqp (liftr (compose (kexinit_fields ?c (offered_kex t) t))) (\<lambda>m.
         seqp (modify (\<lambda>t. t\<lparr>local_kex_init := Some (msg_asbytes m), latest_kex_init := msg_asbytes m\<rparr>)) (\<lambda>_.
         call (Send (msg_asbytes m)))) ?t1)"
    unfolding send_kex_init_def seqp_modify seqp_gets o(1) d u f by (rule refl)
  show ?thesis
    unfolding run Let_def by (cases "compose (kexinit_fields ?c (offered_kex t) t)") (simp_all add: call_def)
qed

lemma send_kex_init_result:
  assumes "send_kex_init avail t = (Ret (), t')" and "gex_possible t"
  shows "\<exists>cookie m. length cookie = 16 \<and> compose (kexinit_fields cookie (offered_kex t) t) = Inr m \<and>
    local_kex_init t' = Some (msg_asbytes m) \<and> last (calls t') = Send (msg_asbytes m) \<and> same_offer t t'"
proof -
  let ?c = "take 16 (entropy t)"
  note run = send_kex_init_run [OF assms(2), of avail, unfolded assms(1) Let_def]
  have len: "\<not> length (entropy t) < 16"
  proof
    assume "length (entropy t) < 16"
    then show False using run by simp
  qed
  obtain m where m: "compose (kexinit_fields ?c (offered_kex t) t) = Inr m"
  proof (cases "compose (kexinit_fields ?c (offered_kex t) t)")
    case (Inl e)
    then show ?thesis using run len by simp
  qed (use that in blast)
  have t': "t' = t\<lparr>clear_to_send := False, in_kex := True, entropy := drop 16 (entropy t),
      local_kex_init := Some (msg_asbytes m), latest_kex_init := msg_asbytes m, calls := calls t @ [Send (msg_asbytes m)]\<rparr>"
    using run len m by simp
  have "length ?c = 16" using len by simp
  moreover have "same_offer t t'"
    unfolding t' same_offer_def by (simp add: preferred_kex_def preferred_ciphers_def preferred_macs_def
      preferred_compression_def preferred_keys_def available_server_keys_def filter_algorithm_def disabled_def)
  ultimately show ?thesis using m t' by (intro exI [of _ ?c] exI [of _ m]) simp
qed

text \<open>Lists of ASCII names can always be sent.\<close>

definition ascii_list :: "pystr list \<Rightarrow> bool" where
  "ascii_list l \<longleftrightarrow> list_all (\<lambda>c. c < 0x80) (join [comma] l) \<and> int (length (join [comma] l)) < 2 ^ 32"

lemma ascii_list_enc: "ascii_list l \<Longrightarrow> \<exists>b. enc_field (FList l) = Inr b"
  by (auto simp: ascii_list_def enc_text_def utf8_encode_ascii list_all_iff enc_string_def pack_I_def)

lemma kexinit_composes:
  assumes "ascii_list kex" "ascii_list (available_server_keys t)" "ascii_list (preferred_ciphers t)"
    "ascii_list (preferred_macs t)" "ascii_list (preferred_compression t)"
  shows "\<exists>m. compose (kexinit_fields cookie kex t) = Inr m"
proof -
  have "\<exists>bs. map_res enc_field (kexinit_fields cookie kex t) = Inr bs"
    using assms [THEN ascii_list_enc]
    by (intro map_res_ok) (auto simp: kexinit_fields_def msg_byte_def enc_string_def pack_I_def)
  then show ?thesis by (auto simp: compose_def add_fields_enc)
qed

lemma send_kex_init_ok:
  assumes "gex_possible t" and "16 \<le> length (entropy t)"
    and "ascii_list (offered_kex t)" "ascii_list (available_server_keys t)" "ascii_list (preferred_ciphers t)"
    "ascii_list (preferred_macs t)" "ascii_list (preferred_compression t)"
  shows "\<exists>t'. send_kex_init avail t = (Ret (), t')"
  using kexinit_composes [OF assms(3-7), of "take 16 (entropy t)"] assms(2)
  by (auto simp: send_kex_init_run [OF assms(1)] Let_def)

lemma strict_marker_facts:
  "starts_with strict_prefix (strict_marker True)" "starts_with strict_prefix (strict_marker False)"
  "\<not> starts_with ext_prefix (strict_marker True)" "\<not> starts_with ext_prefix (strict_marker False)"
  "strict_marker True \<noteq> strict_marker False"
  by code_simp+

lemma marker_facts:
  "is_marker (lit ''ext-info-c'')" "is_marker (strict_marker b)" "starts_with ext_prefix (lit ''ext-info-c'')"
  "\<not> starts_with ext_prefix (strict_marker b)" "starts_with strict_prefix (strict_marker b)"
  "(strict_marker b = strict_marker c) = (b = c)"
proof -
  show x: "starts_with ext_prefix (lit ''ext-info-c'')" by code_simp
  then show "is_marker (lit ''ext-info-c'')" by (simp add: is_marker_def)
  show "\<not> starts_with ext_prefix (strict_marker b)" "starts_with strict_prefix (strict_marker b)"
    "is_marker (strict_marker b)"
    using strict_marker_facts by (cases b; simp add: is_marker_def)+
  show "(strict_marker b = strict_marker c) = (b = c)"
    using strict_marker_facts(5) by (cases b; cases c; metis (full_types))
qed

lemma markers_of_offer:
  assumes "\<forall>a\<in>set (preferred_kex t). \<not> is_marker a"
  shows "filter (\<lambda>a. \<not> is_marker a) (offered_kex t) = preferred_kex t"
    and "agreed_on_strict_kex (foldl scan_marker u (offered_kex t)) =
      (if advertise_strict_kex t then server_mode u \<noteq> server_mode t \<and> advertise_strict_kex u else agreed_on_strict_kex u)"
proof -
  note e = marker_facts
  have "filter (\<lambda>a. \<not> is_marker a) (preferred_kex t) = preferred_kex t"
    by (rule filter_True) (use assms in blast)
  then show "filter (\<lambda>a. \<not> is_marker a) (offered_kex t) = preferred_kex t"
    using e(1) by (simp add: offered_kex_def e(2))
  show "agreed_on_strict_kex (foldl scan_marker u (offered_kex t)) =
      (if advertise_strict_kex t then server_mode u \<noteq> server_mode t \<and> advertise_strict_kex u else agreed_on_strict_kex u)"
    using scan_none [OF assms, of u] e(3) by (auto simp: offered_kex_def scan_marker_def e(4-6))
qed

definition mirrored :: "transport \<Rightarrow> transport \<Rightarrow> bool" where
  "mirrored c s \<longleftrightarrow> kex_engine c = kex_engine s \<and> host_key_type c = host_key_type s \<and>
     local_cipher c = remote_cipher s \<and> remote_cipher c = local_cipher s \<and>
     local_mac c = remote_mac s \<and> remote_mac c = local_mac s \<and>
     local_compression c = remote_compression s \<and> remote_compression c = local_compression s \<and>
     agreed_on_strict_kex c = agreed_on_strict_kex s \<and>
     remote_kex_init c = local_kex_init s \<and> remote_kex_init s = local_kex_init c"

lemma eight_perm:
  assumes "length l = 8"
  shows "x \<notin> set [l ! 0, l ! 1, l ! 3, l ! 2, l ! 5, l ! 4, l ! 7, l ! 6] \<longleftrightarrow> x \<notin> set l"
  using assms by (auto simp: length_Suc_conv numeral_eq_Suc)

definition wire_of :: "transport \<Rightarrow> message" where
  "wire_of t = message_of (drop 1 (the (local_kex_init t)))"

lemma candidates_mirror:
  assumes "\<not> server_mode c" "server_mode s" and "offers_ok c" "offers_ok s"
  shows "candidates c (kexinit_of (offered_kex s) s) =
    (let l = candidates s (kexinit_of (offered_kex c) c) in [l ! 0, l ! 1, l ! 3, l ! 2, l ! 5, l ! 4, l ! 7, l ! 6])"
  using assms markers_of_offer(1) [of c] markers_of_offer(1) [of s]
  by (simp add: candidates_def kexinit_of_def agree_def agree_local_def agree_remote_def offers_ok_def Let_def)

lemma kexinit_arrives:
  assumes "length cookie = 16" and "compose (kexinit_fields cookie (offered_kex t) t) = Inr m"
    and "local_kex_init t1 = Some (msg_asbytes m)" and "offers_ok t"
  obtains w p where "msg_asbytes m = 20 # w" "fst (get_so_far p) = w"
    "really_parse_kex_init (wire_of t1) False = Inr (kexinit_of (offered_kex t) t, p)"
proof -
  have l: "wire_list (available_server_keys t)" "wire_list (preferred_ciphers t)" "wire_list (preferred_macs t)"
    "wire_list (preferred_compression t)"
    using assms(4) by (simp_all add: offers_ok_def)
  obtain w p where w: "msg_asbytes m = 20 # w" "fst (get_so_far p) = w"
    "really_parse_kex_init (message_of (w @ [])) False = Inr (kexinit_of (offered_kex t) t, p)"
    using parse_composed [OF assms(2,1) offered_wire [OF assms(4)] l, of "[]"] by blast
  have "wire_of t1 = message_of (w @ [])" using assms(3) w(1) by (simp add: wire_of_def)
  with that w show thesis by metis
qed

lemma negotiation_result:
  assumes "send_kex_init av C = (Ret (), C1)" and "send_kex_init av' S = (Ret (), S1)"
    and "\<not> server_mode C" "server_mode S" and "offers_ok C" "offers_ok S" and "gex_possible S"
    and "agreed_on_strict_kex C = agreed_on_strict_kex S"
      "advertise_strict_kex C \<and> advertise_strict_kex S \<or> \<not> agreed_on_strict_kex S"
    and "parse_kex_init 0 (wire_of S1) C1 = (rc, C2)" and "parse_kex_init 0 (wire_of C1) S1 = (rs, S2)"
  shows "rc = Ret () \<longleftrightarrow> [] \<notin> set (candidates C (kexinit_of (offered_kex S) S))"
    and "(rc = Ret () \<longleftrightarrow> rs = Ret ()) \<and> (rc = Ret () \<longrightarrow> mirrored C2 S2)"
proof -
  obtain kc mc where C: "length kc = 16" "compose (kexinit_fields kc (offered_kex C) C) = Inr mc"
    "local_kex_init C1 = Some (msg_asbytes mc)" "same_offer C C1"
    using send_kex_init_result [OF assms(1)] assms(3) by (auto simp: gex_possible_def)
  obtain ks ms where S: "length ks = 16" "compose (kexinit_fields ks (offered_kex S) S) = Inr ms"
    "local_kex_init S1 = Some (msg_asbytes ms)" "same_offer S S1"
    using send_kex_init_result [OF assms(2)] assms(7) by auto
  obtain wc pc where wc: "msg_asbytes mc = 20 # wc" "fst (get_so_far pc) = wc"
    "really_parse_kex_init (wire_of C1) False = Inr (kexinit_of (offered_kex C) C, pc)"
    by (rule kexinit_arrives [OF C(1-3) assms(5)])
  obtain ws ps where ws: "msg_asbytes ms = 20 # ws" "fst (get_so_far ps) = ws"
    "really_parse_kex_init (wire_of S1) False = Inr (kexinit_of (offered_kex S) S, ps)"
    by (rule kexinit_arrives [OF S(1-3) assms(6)])
  note rc = parse_kex_init_result [OF ws(3) refl assms(10)]
  note rs = parse_kex_init_result [OF wc(3) refl assms(11)]
  have cands: "candidates C1 p = candidates C p" "candidates S1 p = candidates S p" for p
    using C(4) S(4) by (simp_all add: same_offer_def candidates_def)
  have mir: "candidates C (kexinit_of (offered_kex S) S) = (let l = candidates S (kexinit_of (offered_kex C) C)
      in [l ! 0, l ! 1, l ! 3, l ! 2, l ! 5, l ! 4, l ! 7, l ! 6])"
    by (rule candidates_mirror [OF assms(3-6)])
  have len: "length (candidates S p) = 8" for p by (simp add: candidates_def)
  have empty: "[] \<notin> set (candidates C (kexinit_of (offered_kex S) S)) \<longleftrightarrow>
      [] \<notin> set (candidates S (kexinit_of (offered_kex C) C))"
    unfolding mir Let_def using len [of "kexinit_of (offered_kex C) C"] by (rule eight_perm)
  have strict: "agreed_on_strict_kex (foldl scan_marker (C1\<lparr>remote_ext_info := None\<rparr>) (offered_kex S)) =
      agreed_on_strict_kex (foldl scan_marker (S1\<lparr>remote_ext_info := None\<rparr>) (offered_kex C))"
    using assms(3-6,8,9) C(4) S(4) by (auto simp: markers_of_offer(2) offers_ok_def same_offer_def)
  have iff: "rc = Ret () \<longleftrightarrow> rs = Ret ()"
    unfolding rc(1) rs(1) cands empty by simp
  have "mirrored C2 S2" if ok: "rc = Ret ()"
  proof -
    have ok': "rs = Ret ()" using iff ok by simp
    have names: "agreed_names C2 = (let l = agreed_names S2 in [l ! 0, l ! 1, l ! 3, l ! 2, l ! 5, l ! 4, l ! 7, l ! 6])"
      unfolding rc(2) [OF ok] rs(2) [OF ok'] cands mir Let_def using len [of "kexinit_of (offered_kex C) C"]
      by simp
    have fields: "agreed_on_strict_kex C2 = agreed_on_strict_kex S2" "remote_kex_init C2 = local_kex_init S2"
      "remote_kex_init S2 = local_kex_init C2"
      using rc(3,4,5) [OF ok] rs(3,4,5) [OF ok'] strict wc(1,2) ws(1,2) C(3) S(3) by (simp_all add: kexinit_of_def)
    show ?thesis using names fields by (simp add: mirrored_def agreed_names_def Let_def)
  qed
  with iff show "(rc = Ret () \<longleftrightarrow> rs = Ret ()) \<and> (rc = Ret () \<longrightarrow> mirrored C2 S2)" by blast
  show "rc = Ret () \<longleftrightarrow> [] \<notin> set (candidates C (kexinit_of (offered_kex S) S))"
    unfolding rc(1) cands by simp
qed

text \<open>Claim C16. When a client and a server each send their \<open>KEXINIT\<close> and parse the other's, either
  both find algorithms or both give up as incompatible; if they do, they hold the same key
  exchange method and host key type, what one sends with is what the other receives with, both
  or neither are in strict mode, and each holds the other's message for the exchange hash. This is
  for offers that can be written as name lists and hold no marker of their own (\<open>offers_ok\<close>), sides
  that are in the same strict state before, and a server that offers group exchange only when it
  has moduli to do it with (\<open>gex_possible\<close>): without them it drops the method after its message was
  sent, and \<open>server_without_moduli_disagrees\<close> shows that the sides may then choose differently.\<close>

theorem negotiation_agrees:
  assumes "send_kex_init av C = (Ret (), C1)" and "send_kex_init av' S = (Ret (), S1)"
    and "\<not> server_mode C" "server_mode S" and "offers_ok C" "offers_ok S" and "gex_possible S"
    and "agreed_on_strict_kex C = agreed_on_strict_kex S"
      "advertise_strict_kex C \<and> advertise_strict_kex S \<or> \<not> agreed_on_strict_kex S"
    and "parse_kex_init 0 (wire_of S1) C1 = (rc, C2)" and "parse_kex_init 0 (wire_of C1) S1 = (rs, S2)"
  shows "(rc = Ret () \<longleftrightarrow> rs = Ret ()) \<and> (rc = Ret () \<longrightarrow> mirrored C2 S2)"
  by (rule negotiation_result(2) [OF assms])

definition demo_client :: transport where
  "demo_client = (new_transport False [(''ciphers'', [lit ''x''])] True True)\<lparr>p_kex := [lit ''k'', lit ''g''],
     p_keys := [lit ''e'', lit ''r''], p_ciphers := [lit ''x'', lit ''c'', lit ''d''], p_macs := [lit ''m''],
     p_compression := [lit ''n''], entropy := replicate 16 7\<rparr>"

definition demo_server :: transport where
  "demo_server = add_server_key \<lparr>hk_name = lit ''r'', hk_blob = [1], hk_rsa = False\<rparr>
     ((new_transport False [] True True)\<lparr>server_mode := True, p_kex := [lit ''g'', lit ''k''],
       p_keys := [lit ''e'', lit ''r''], p_ciphers := [lit ''d'', lit ''x'', lit ''c''], p_macs := [lit ''h'', lit ''m''],
       p_compression := [lit ''n''], entropy := replicate 16 9\<rparr>)"

lemma demo_lists:
  "preferred_kex demo_client = [lit ''k'', lit ''g'']" "preferred_kex demo_server = [lit ''g'', lit ''k'']"
  "available_server_keys demo_client = [lit ''e'', lit ''r'', cert_of (lit ''e''), cert_of (lit ''r'')]"
  "available_server_keys demo_server = [lit ''r'']"
  "preferred_ciphers demo_client = [lit ''c'', lit ''d'']" "preferred_ciphers demo_server = [lit ''d'', lit ''x'', lit ''c'']"
  "preferred_macs demo_client = [lit ''m'']" "preferred_macs demo_server = [lit ''h'', lit ''m'']"
  "preferred_compression demo_client = [lit ''n'']" "preferred_compression demo_server = [lit ''n'']"
  "server_mode demo_client = False" "server_mode demo_server = True"
  "agreed_on_strict_kex demo_client = False" "agreed_on_strict_kex demo_server = False"
  "advertise_strict_kex demo_client = True" "advertise_strict_kex demo_server = True"
  "entropy demo_client = replicate 16 7" "entropy demo_server = replicate 16 9"
  by (simp_all add: demo_client_def demo_server_def new_transport_def add_server_key_def preferred_kex_def
      preferred_ciphers_def preferred_macs_def preferred_compression_def preferred_keys_def available_server_keys_def
      filter_algorithm_def disabled_def cert_of_def)

lemma demo_ok:
  "offers_ok demo_client" "offers_ok demo_server" "gex_possible demo_server" "\<not> server_mode demo_client"
  "server_mode demo_server" "agreed_on_strict_kex demo_client = agreed_on_strict_kex demo_server"
  "\<not> agreed_on_strict_kex demo_server"
  by (simp_all add: offers_ok_def gex_possible_def demo_lists wire_list_def comma_def cert_of_def is_marker_def
      starts_with_def ext_prefix_def strict_prefix_def gex_prefix_def)

definition client_sent :: transport where "client_sent = snd (send_kex_init False demo_client)"
definition server_sent :: transport where "server_sent = snd (send_kex_init False demo_server)"

lemma demo_ascii:
  "ascii_list (offered_kex demo_client)" "ascii_list (available_server_keys demo_client)"
  "ascii_list (preferred_ciphers demo_client)" "ascii_list (preferred_macs demo_client)"
  "ascii_list (preferred_compression demo_client)" "gex_possible demo_client" "16 \<le> length (entropy demo_client)"
  "ascii_list (offered_kex demo_server)" "ascii_list (available_server_keys demo_server)"
  "ascii_list (preferred_ciphers demo_server)" "ascii_list (preferred_macs demo_server)"
  "ascii_list (preferred_compression demo_server)" "gex_possible demo_server" "16 \<le> length (entropy demo_server)"
  by (simp_all add: ascii_list_def demo_lists offered_kex_def strict_marker_def comma_def cert_of_def
      gex_possible_def starts_with_def gex_prefix_def)

lemma demo_sends:
  "send_kex_init False demo_client = (Ret (), client_sent)"
  "send_kex_init False demo_server = (Ret (), server_sent)"
  using send_kex_init_ok [OF demo_ascii(6,7,1-5)] send_kex_init_ok [OF demo_ascii(13,14,8-12)]
  unfolding client_sent_def server_sent_def by (metis snd_conv)+

lemma demo_candidates: "[] \<notin> set (candidates demo_client (kexinit_of (offered_kex demo_server) demo_server))"
  by (simp add: candidates_def kexinit_of_def agree_def agree_local_def agree_remote_def demo_lists offered_kex_def
      strict_marker_def cert_of_def is_marker_def starts_with_def ext_prefix_def strict_prefix_def)

theorem negotiation_agrees_witness:
  "mirrored (snd (parse_kex_init 0 (wire_of server_sent) client_sent))
     (snd (parse_kex_init 0 (wire_of client_sent) server_sent))"
proof -
  note res = negotiation_result(1) [OF demo_sends demo_ok(4,5,1,2,3,6) disjI2 [OF demo_ok(7)] prod.collapse [symmetric] prod.collapse [symmetric]]
  note both = negotiation_agrees [OF demo_sends demo_ok(4,5,1,2,3,6) disjI2 [OF demo_ok(7)] prod.collapse [symmetric] prod.collapse [symmetric]]
  show ?thesis by (rule mp [OF conjunct2 [OF both] iffD2 [OF res demo_candidates]])
qed

section \<open>Disabled algorithms\<close>

lemma hd_agree: "[] \<noteq> agree s mine theirs \<Longrightarrow> hd (agree s mine theirs) \<in> set mine"
  using agree_subset [of s mine theirs] by (metis IntD1 hd_in_set subsetD)

text \<open>Whatever the peer sends, a negotiation that succeeds never settles on an algorithm
  the application disabled, nor on one this side does not offer; a host key type is an enabled
  one or the certificate form of an enabled one.\<close>

theorem disabled_never_agreed:
  assumes "parse_kex_init seqno m t = (Ret (), t')"
  shows "(\<exists>k. kex_engine t' = Some k \<and> k \<in> set (p_kex t) \<and> k \<notin> set (disabled t ''kex'')) \<and>
    (\<exists>k x. host_key_type t' = Some k \<and> (k = x \<or> k = cert_of x) \<and> x \<in> set (p_keys t) \<and> x \<notin> set (disabled t ''keys'')) \<and>
    {local_cipher t', remote_cipher t'} \<subseteq> set (p_ciphers t) - set (disabled t ''ciphers'') \<and>
    {local_mac t', remote_mac t'} \<subseteq> set (p_macs t) - set (disabled t ''macs'') \<and>
    {local_compression t', remote_compression t'} \<subseteq> set (p_compression t) - set (disabled t ''compression'')"
proof -
  obtain p m' where p: "really_parse_kex_init m False = Inr (p, m')"
    using assms by (cases "really_parse_kex_init m False") (auto simp: parse_kex_init_def)
  note r = parse_kex_init_result [OF p refl assms]
  have ne: "[] \<notin> set (candidates t p)" using r(1) by simp
  note names = r(2) [OF refl]
  from ne names have
    "kex_engine t' = Some (hd (candidates t p ! 0))" "hd (candidates t p ! 0) \<in> set (preferred_kex t)"
    "host_key_type t' = Some (hd (candidates t p ! 1))" "hd (candidates t p ! 1) \<in> set (available_server_keys t)"
    "local_cipher t' \<in> set (preferred_ciphers t)" "remote_cipher t' \<in> set (preferred_ciphers t)"
    "local_mac t' \<in> set (preferred_macs t)" "remote_mac t' \<in> set (preferred_macs t)"
    "local_compression t' \<in> set (preferred_compression t)" "remote_compression t' \<in> set (preferred_compression t)"
    by (simp_all add: candidates_def agreed_names_def agree_local_def agree_remote_def hd_agree)
  moreover have "set (available_server_keys t) \<subseteq> set (preferred_keys t)" by (auto simp: available_server_keys_def)
  ultimately show ?thesis
    by (auto simp: preferred_kex_def preferred_ciphers_def preferred_macs_def preferred_compression_def
        preferred_keys_def filter_algorithm_def Let_def)
qed

theorem disabled_never_agreed_witness:
  "{local_cipher (snd (parse_kex_init 0 (wire_of server_sent) client_sent)),
    remote_cipher (snd (parse_kex_init 0 (wire_of server_sent) client_sent))}
     \<subseteq> set (p_ciphers client_sent) - set (disabled client_sent ''ciphers'')"
proof -
  let ?r = "parse_kex_init 0 (wire_of server_sent) client_sent"
  have "fst ?r = Ret ()"
    using negotiation_result(1) [OF demo_sends demo_ok(4,5,1,2,3,6) disjI2 [OF demo_ok(7)] prod.collapse [symmetric]
      prod.collapse [symmetric]] demo_candidates by blast
  then have "?r = (Ret (), snd ?r)" by (metis prod.collapse)
  from disabled_never_agreed [OF this] show ?thesis by blast
qed

section \<open>A server without moduli\<close>

text \<open>
  \<open>_send_kex_init\<close> copies the list of methods before it removes group exchange from the
  preferences, so a server without moduli offers group exchange in its first message; a client
  that prefers it chooses it, while the server chooses another method.
\<close>

lemma server_without_moduli_disagrees:
  assumes "server_mode s" and "moduli s = None" and "starts_with gex_prefix g" and "g \<in> set (preferred_kex s)"
    and "preferred_kex c = g # ks" and "drop_gex avail s = (Ret (), s')"
  shows "hd (agree False (preferred_kex c) (offered_kex s)) = g \<and> g \<notin> set (agree True (preferred_kex s') theirs)"
proof -
  have ne: "filter (starts_with gex_prefix) (preferred_kex s) \<noteq> []"
    using assms(3,4) by (auto simp: filter_empty_conv)
  then have "s' = s\<lparr>p_kex := filter (\<lambda>k. \<not> starts_with gex_prefix k) (p_kex s)\<rparr>"
    using assms(1,2,6) by (simp add: drop_gex_def set_kex_def set_option_def split: if_splits)
  then have "g \<notin> set (preferred_kex s')"
    using assms(3) by (simp add: preferred_kex_def filter_algorithm_def)
  then show ?thesis
    using assms(1,4,5) by (simp add: agree_def offered_kex_def)
qed

end
