(* ===== verification/BER_Codec.thy ===== *)
theory BER_Codec
  imports Common_Util
begin

text \<open>
  \<open>paramiko/ber.py\<close>: the small BER reader and writer used for private keys. The reader
  walks a byte string with an index; a nested sequence is read by a fresh reader on the
  value's bytes. A value that does not fit makes the reader return nothing rather than fail.
\<close>

section \<open>Decoding\<close>

datatype ber_val = BInt int | BSeq "ber_val list"

text \<open>The loop for identifiers above 30: seven bits per byte until the high bit is clear.\<close>

function ident_loop :: "bytes \<Rightarrow> nat \<Rightarrow> int \<Rightarrow> int \<times> nat" where
  "ident_loop content idx ident =
     (if idx < length content
      then (let t = byte_ord (content ! idx);
                ident' = push_bit 7 ident OR (t AND 0x7F)
            in if t AND 0x80 = 0 then (ident', idx + 1)
               else ident_loop content (idx + 1) ident')
      else (ident, idx))"
  by pat_completeness auto
termination by (relation "measure (\<lambda>(content, idx, ident). length content - idx)") auto

declare ident_loop.simps [simp del]

definition read_ident :: "bytes \<Rightarrow> nat \<Rightarrow> int \<times> nat" where
  "read_ident content idx =
     (let ident = byte_ord (content ! idx)
      in if ident AND 31 = 31 then ident_loop content (idx + 1) 0 else (ident, idx + 1))"

text \<open>The length: one byte, or the count of the length bytes that follow.\<close>

definition read_size :: "bytes \<Rightarrow> nat \<Rightarrow> nat \<times> int option" where
  "read_size content idx =
     (let sz = byte_ord (content ! idx); idx = idx + 1
      in if sz AND 0x80 \<noteq> 0
         then (let t = nat (sz AND 0x7F)
               in if length content < idx + t then (idx, None)
                  else (idx + t, Some (inflate_long (take t (drop idx content)) True)))
         else (idx, Some sz))"

text \<open>
  The part of \<open>decode_next\<close> before the value is interpreted: the index after it, and the
  identifier and contents, or nothing where the code returns \<open>None\<close>.
\<close>

definition read_tlv :: "bytes \<Rightarrow> nat \<Rightarrow> nat \<times> (int \<times> bytes) option" where
  "read_tlv content idx =
     (if length content \<le> idx then (idx, None)
      else let (ident, idx) = read_ident content idx
           in if length content \<le> idx then (idx, None)
              else (case read_size content idx of
                      (idx, None) \<Rightarrow> (idx, None)
                    | (idx, Some sz) \<Rightarrow>
                        if int (length content) < int idx + sz then (idx, None)
                        else (idx + nat sz, Some (ident, take (nat sz) (drop idx content)))))"

lemma ident_loop_mono: "idx \<le> snd (ident_loop content idx i)"
proof (induction content idx i rule: ident_loop.induct)
  case (1 content idx i)
  then show ?case
    by (subst ident_loop.simps) (force simp: Let_def intro: le_trans [of idx "Suc idx"])
qed

lemma read_ident_mono: "read_ident content idx = (i, j) \<Longrightarrow> idx < j"
  using ident_loop_mono [of "idx + 1" content 0]
  by (auto simp: read_ident_def Let_def split: if_splits)

lemma read_size_mono: "read_size content idx = (j, r) \<Longrightarrow> idx < j"
  by (auto simp: read_size_def Let_def split: if_splits)

lemma read_tlv_progress:
  assumes "read_tlv content idx = (i, Some (ident, data))"
  shows "idx < length content" and "idx < i" and "length data < length content"
proof -
  show len: "idx < length content" using assms by (auto simp: read_tlv_def split: if_splits)
  from assms len obtain a b s where a: "read_ident content idx = (ident, a)"
    and b: "read_size content a = (b, Some s)"
    and i: "i = b + nat s" "data = take (nat s) (drop b content)"
    by (auto simp: read_tlv_def not_le split: prod.splits if_splits option.splits)
  from a b have "idx < a" "a < b" by (simp_all add: read_ident_mono read_size_mono)
  with i len show "idx < i" and "length data < length content" by auto
qed

function ber_sequence :: "bytes \<Rightarrow> nat \<Rightarrow> ber_val list res" where
  "ber_sequence content idx =
     (case read_tlv content idx of
        (i, None) \<Rightarrow> Inr []
      | (i, Some (ident, data)) \<Rightarrow>
          bind_res
            (if ident = 0x30 then bind_res (ber_sequence data 0) (\<lambda>xs. Inr (BSeq xs))
             else if ident = 2 then Inr (BInt (inflate_long data False))
             else Inl (BERException ''Unknown ber encoding type''))
            (\<lambda>x. bind_res (ber_sequence content i) (\<lambda>xs. Inr (x # xs))))"
  by pat_completeness auto
termination
  by (relation "measures [\<lambda>(content, idx). length content, \<lambda>(content, idx). length content - idx]")
    (auto dest: read_tlv_progress [OF sym] intro: diff_less_mono2)

declare ber_sequence.simps [simp del]

definition decode_sequence :: "bytes \<Rightarrow> ber_val list res" where
  "decode_sequence data = ber_sequence data 0"

definition decode_next :: "bytes \<Rightarrow> nat \<Rightarrow> (ber_val option \<times> nat) res" where
  "decode_next content idx =
     (case read_tlv content idx of
        (i, None) \<Rightarrow> Inr (None, i)
      | (i, Some (ident, data)) \<Rightarrow>
          if ident = 0x30 then bind_res (decode_sequence data) (\<lambda>xs. Inr (Some (BSeq xs), i))
          else if ident = 2 then Inr (Some (BInt (inflate_long data False)), i)
          else Inl (BERException ''Unknown ber encoding type''))"

definition ber_decode :: "bytes \<Rightarrow> ber_val option res" where
  "ber_decode content = bind_res (decode_next content 0) (\<lambda>(x, i). Inr x)"

text \<open>
  The loop of \<open>decode_sequence\<close> as the source has it: call \<open>decode_next\<close> until it
  returns nothing. \<open>ber_sequence\<close> is that loop with \<open>decode_next\<close> inlined.
\<close>

lemma ber_sequence_loop:
  "ber_sequence content idx =
     bind_res (decode_next content idx) (\<lambda>(x, i).
       case x of None \<Rightarrow> Inr []
       | Some y \<Rightarrow> bind_res (ber_sequence content i) (\<lambda>xs. Inr (y # xs)))"
  by (subst ber_sequence.simps)
    (auto simp: decode_next_def decode_sequence_def bind_res_assoc split: prod.splits option.splits)

section \<open>Encoding\<close>

definition encode_tlv :: "bytes \<Rightarrow> int \<Rightarrow> bytes \<Rightarrow> bytes res" where
  "encode_tlv content ident val =
     bind_res (byte_chr ident) (\<lambda>i.
     bind_res
       (if 0x7F < length val
        then (let lenstr = deflate_long (int (length val)) True
              in bind_res (byte_chr (0x80 + int (length lenstr))) (\<lambda>l. Inr (l @ lenstr)))
        else byte_chr (int (length val))) (\<lambda>l.
     Inr (content @ i @ l @ val)))"

text \<open>
  The run-time types \<open>encode\<close> distinguishes. For a \<open>str\<close> the code appends the text to
  the \<open>bytes\<close> buffer, which raises \<open>TypeError\<close>.
\<close>

datatype ber_arg = EBool bool | EInt int | EStr pystr | EList "ber_arg list" | EOther

fun encode :: "bytes \<Rightarrow> ber_arg \<Rightarrow> bytes res"
  and encode_items :: "bytes \<Rightarrow> ber_arg list \<Rightarrow> bytes res" where
  "encode content (EBool b) = encode_tlv content 1 (if b then max_byte else zero_byte)"
| "encode content (EInt n) = encode_tlv content 2 (deflate_long n True)"
| "encode content (EStr s) = Inl TypeError"
| "encode content (EList xs) = bind_res (encode_items [] xs) (\<lambda>d. encode_tlv content 0x30 d)"
| "encode content EOther = Inl (BERException ''Unknown type for encoding'')"
| "encode_items content [] = Inr content"
| "encode_items content (x # xs) = bind_res (encode content x) (\<lambda>c. encode_items c xs)"

definition encode_sequence :: "ber_arg list \<Rightarrow> bytes res" where
  "encode_sequence xs = encode_items [] xs"

section \<open>Round trip\<close>

lemma encode_tlv_content: "encode_tlv content i v = bind_res (encode_tlv [] i v) (\<lambda>b. Inr (content @ b))"
  by (auto simp: encode_tlv_def bind_res_assoc)

lemma encode_content: "encode content x = bind_res (encode [] x) (\<lambda>b. Inr (content @ b))"
proof (cases x)
  case (EList xs)
  then show ?thesis
    by (cases "encode_items [] xs") (simp_all add: encode_tlv_content [of content])
qed (simp_all add: encode_tlv_content [of content])

lemma encode_items_content:
  "encode_items content xs = bind_res (encode_items [] xs) (\<lambda>b. Inr (content @ b))"
proof (induction xs arbitrary: content)
  case (Cons x xs)
  show ?case
  proof (cases "encode [] x")
    case (Inr b)
    then have "encode content x = Inr (content @ b)"
      by (simp add: encode_content [of content])
    with Inr Cons [of "content @ b"] Cons [of b] show ?thesis
      by (simp add: bind_res_assoc)
  qed (simp add: encode_content [of content])
qed simp

lemma encode_items_Cons:
  "encode_items [] (x # xs) =
     bind_res (encode [] x) (\<lambda>b. bind_res (encode_items [] xs) (\<lambda>c. Inr (b @ c)))"
proof (cases "encode [] x")
  case (Inr b)
  with encode_items_content [of b xs] show ?thesis by simp
qed simp

text \<open>What the reader makes of an argument: Python booleans and text do not come back.\<close>

fun decoded :: "ber_arg \<Rightarrow> ber_val option" where
  "decoded (EInt n) = Some (BInt n)"
| "decoded (EList xs) =
     (if None \<in> set (map decoded xs) then None else Some (BSeq (map (the \<circ> decoded) xs)))"
| "decoded _ = None"

lemma and_0x80: "0 \<le> s \<Longrightarrow> s < 256 \<Longrightarrow> (s AND 0x80 = 0) = (s < (0x80::int))"
proof -
  assume s: "0 \<le> s" "s < 256"
  have "(s AND 2 ^ 7 = 0) = (\<not> bit s 7)" by (rule and_exp_eq_0_iff_not_bit)
  moreover have "bit s 7 \<longleftrightarrow> odd (s div 128)" by (simp add: bit_iff_odd)
  moreover have "odd (s div 128) \<longleftrightarrow> 128 \<le> s" using s by presburger
  ultimately show ?thesis by auto
qed

lemma and_0x7F: "0 \<le> s \<Longrightarrow> s < 128 \<Longrightarrow> (0x80 + s) AND 0x7F = (s::int)"
proof -
  assume s: "0 \<le> s" "s < 128"
  have "(0x80 + s) AND mask 7 = take_bit 7 (0x80 + s)" by (simp add: take_bit_eq_mask)
  then show ?thesis using s by (simp add: take_bit_eq_mod mask_eq_exp_minus_1)
qed

lemma byte_ord_of_int: "0 \<le> i \<Longrightarrow> i < 256 \<Longrightarrow> byte_ord (word_of_int i) = i"
  by (simp add: byte_ord_def)

lemma unsigned_deflate_long:
  assumes "0 \<le> n"
  shows "be_val (deflate_long n True) = n"
proof -
  let ?b = "deflate_long n True"
  have "sval ?b = n" by (rule sval_deflate_long)
  moreover have "be_val ?b < 256 ^ length ?b" by (rule be_val_less)
  ultimately have "\<not> (?b \<noteq> [] \<and> 0x80 \<le> byte_ord (hd ?b))"
    using assms by (auto simp: sval_def)
  with \<open>sval ?b = n\<close> show ?thesis by (auto simp: sval_def)
qed

lemma read_size_encoded:
  assumes "(if 0x7F < length v
        then (let lenstr = deflate_long (int (length v)) True
              in bind_res (byte_chr (0x80 + int (length lenstr))) (\<lambda>l. Inr (l @ lenstr)))
        else byte_chr (int (length v))) = Inr l"
  shows "read_size (p @ l @ v @ r) (length p) = (length p + length l, Some (int (length v)))"
proof (cases "0x7F < length v")
  case True
  define lenstr where "lenstr = deflate_long (int (length v)) True"
  from True assms obtain c where "byte_chr (0x80 + int (length lenstr)) = Inr c" "l = c @ lenstr"
    by (auto simp: lenstr_def [symmetric] Let_def bind_res_eq_Inr)
  then have n: "length lenstr < 128" and c: "c = [word_of_int (0x80 + int (length lenstr))]"
    and l: "l = c @ lenstr"
    by (auto simp: byte_chr_def pack_B_def split: if_splits)
  obtain k where k: "c = [k]" "byte_ord k = 0x80 + int (length lenstr)"
    using c n byte_ord_of_int [of "0x80 + int (length lenstr)"] by auto
  have val: "be_val lenstr = int (length v)"
    using unsigned_deflate_long [of "int (length v)"] by (simp add: lenstr_def)
  have "(0x80 + int (length lenstr)) AND 0x80 \<noteq> 0"
    using and_0x80 [of "0x80 + int (length lenstr)"] n by simp
  then show ?thesis
    unfolding l by (simp add: read_size_def k and_0x7F n inflate_long_value val)
next
  case False
  then have l: "l = [word_of_int (int (length v))]"
    using assms by (auto simp: byte_chr_def pack_B_def split: if_splits)
  have "byte_ord (word_of_int (int (length v))) = int (length v)"
    using False by (intro byte_ord_of_int) auto
  moreover have "int (length v) AND 0x80 = 0"
    using and_0x80 [of "int (length v)"] False by simp
  ultimately show ?thesis unfolding l by (simp add: read_size_def)
qed

lemma read_tlv_encode_tlv:
  assumes enc: "encode_tlv [] i v = Inr b" and i: "0 \<le> i" "i < 256" "i AND 31 \<noteq> 31"
  shows "read_tlv (p @ b @ r) (length p) = (length p + length b, Some (i, v))"
proof -
  from enc i obtain l where l: "(if 0x7F < length v
        then (let lenstr = deflate_long (int (length v)) True
              in bind_res (byte_chr (0x80 + int (length lenstr))) (\<lambda>l. Inr (l @ lenstr)))
        else byte_chr (int (length v))) = Inr l" and b: "b = word_of_int i # l @ v"
    by (auto simp: encode_tlv_def bind_res_eq_Inr byte_chr_def [of i] pack_B_def [of i])
  from l have "l \<noteq> []"
    by (auto simp: Let_def bind_res_eq_Inr byte_chr_def pack_B_def split: if_splits)
  moreover have "read_ident (p @ b @ r) (length p) = (i, Suc (length p))"
    using i by (simp add: read_ident_def b byte_ord_of_int)
  moreover have "read_size (p @ b @ r) (Suc (length p)) =
      (Suc (length p) + length l, Some (int (length v)))"
    using read_size_encoded [OF l, of "p @ [word_of_int i]" r] b by simp
  ultimately show ?thesis
    unfolding read_tlv_def by (auto simp: b)
qed

definition reads_back :: "ber_arg \<Rightarrow> bool" where
  "reads_back x \<longleftrightarrow> (\<forall>b v p r. encode [] x = Inr b \<longrightarrow> decoded x = Some v \<longrightarrow>
     (\<exists>i d. read_tlv (p @ b @ r) (length p) = (length p + length b, Some (i, d)) \<and>
        (if i = 0x30 then bind_res (ber_sequence d 0) (\<lambda>xs. Inr (BSeq xs))
         else if i = 2 then Inr (BInt (inflate_long d False))
         else Inl (BERException ''Unknown ber encoding type'')) = Inr v))"

lemma ber_sequence_items:
  assumes "\<forall>x\<in>set xs. reads_back x" and "encode_items [] xs = Inr b"
    and "None \<notin> set (map decoded xs)"
  shows "ber_sequence (p @ b) (length p) = Inr (map (the \<circ> decoded) xs)"
  using assms
proof (induction xs arbitrary: p b)
  case Nil
  then show ?case by (subst ber_sequence.simps) (simp add: read_tlv_def)
next
  case (Cons x xs)
  from Cons.prems(3) have "decoded x \<noteq> None" by auto
  then obtain v where v: "decoded x = Some v" by blast
  from Cons.prems(2) obtain b1 b2 where b1: "encode [] x = Inr b1"
    and b2: "encode_items [] xs = Inr b2" and b: "b = b1 @ b2"
    unfolding encode_items_Cons bind_res_eq_Inr by blast
  have rest: "ber_sequence ((p @ b1) @ b2) (length (p @ b1)) = Inr (map (the \<circ> decoded) xs)"
    using Cons.prems b2 by (intro Cons.IH) auto
  from Cons.prems(1) b1 v obtain i d where
    "read_tlv (p @ b1 @ b2) (length p) = (length p + length b1, Some (i, d))"
    "(if i = 0x30 then bind_res (ber_sequence d 0) (\<lambda>xs. Inr (BSeq xs))
      else if i = 2 then Inr (BInt (inflate_long d False))
      else Inl (BERException ''Unknown ber encoding type'')) = Inr v"
    unfolding reads_back_def by (meson list.set_intros(1))
  with rest v show ?case
    by (subst ber_sequence.simps) (simp add: b)
qed

lemma encode_reads_back: "reads_back x"
proof (induction x)
  case (EInt n)
  show ?case
    unfolding reads_back_def
  proof (intro allI impI)
    fix b v p r
    assume b: "encode [] (EInt n) = Inr b" and v: "decoded (EInt n) = Some v"
    from b have "read_tlv (p @ b @ r) (length p) = (length p + length b, Some (2, deflate_long n True))"
      by (intro read_tlv_encode_tlv) simp_all
    with v show "\<exists>i d. read_tlv (p @ b @ r) (length p) = (length p + length b, Some (i, d)) \<and>
        (if i = 0x30 then bind_res (ber_sequence d 0) (\<lambda>xs. Inr (BSeq xs))
         else if i = 2 then Inr (BInt (inflate_long d False))
         else Inl (BERException ''Unknown ber encoding type'')) = Inr v"
      by (intro exI [of _ 2] exI [of _ "deflate_long n True"]) (simp add: inflate_long_value sval_deflate_long)
  qed
next
  case (EList xs)
  show ?case
    unfolding reads_back_def
  proof (intro allI impI)
    fix b v p r
    assume b: "encode [] (EList xs) = Inr b" and v: "decoded (EList xs) = Some v"
    from b obtain c where c: "encode_items [] xs = Inr c" and tlv: "encode_tlv [] 0x30 c = Inr b"
      by (auto simp: bind_res_eq_Inr)
    have "read_tlv (p @ b @ r) (length p) = (length p + length b, Some (0x30, c))"
      by (rule read_tlv_encode_tlv [OF tlv]) simp_all
    moreover have "ber_sequence ([] @ c) (length ([]::bytes)) = Inr (map (the \<circ> decoded) xs)"
      using EList c v by (intro ber_sequence_items) (auto split: if_splits)
    ultimately show "\<exists>i d. read_tlv (p @ b @ r) (length p) = (length p + length b, Some (i, d)) \<and>
        (if i = 0x30 then bind_res (ber_sequence d 0) (\<lambda>xs. Inr (BSeq xs))
         else if i = 2 then Inr (BInt (inflate_long d False))
         else Inl (BERException ''Unknown ber encoding type'')) = Inr v"
      using v by (auto split: if_splits)
  qed
qed (simp_all add: reads_back_def)

text \<open>Claim C8. Every integer, and every (nested) list of integers, that the BER encoder
  accepts is decoded by the BER decoder to the same value.\<close>

theorem ber_roundtrip:
  assumes "encode [] x = Inr b" and "decoded x = Some v"
  shows "ber_decode b = Inr (Some v)"
proof -
  from encode_reads_back [of x] assms obtain i d where
    "read_tlv ([] @ b @ []) (length ([]::bytes)) = (length ([]::bytes) + length b, Some (i, d))"
    "(if i = 0x30 then bind_res (ber_sequence d 0) (\<lambda>xs. Inr (BSeq xs))
      else if i = 2 then Inr (BInt (inflate_long d False))
      else Inl (BERException ''Unknown ber encoding type'')) = Inr v"
    unfolding reads_back_def by blast
  then show ?thesis
    by (auto simp: ber_decode_def decode_next_def decode_sequence_def bind_res_eq_Inr split: if_splits)
qed

lemma ber_example: "encode [] (EList [EInt 300, EList [EInt (-1)]]) = Inr [0x30, 0x09, 0x02, 0x02, 0x01, 0x2C, 0x30, 0x03, 0x02, 0x01, 0xFF]"
  by code_simp

theorem ber_roundtrip_witness:
  "ber_decode [0x30, 0x09, 0x02, 0x02, 0x01, 0x2C, 0x30, 0x03, 0x02, 0x01, 0xFF] =
     Inr (Some (BSeq [BInt 300, BSeq [BInt (-1)]]))"
  by (rule ber_roundtrip [OF ber_example]) simp

end
