(* ===== verification/Key_Activation.thy ===== *)
theory Key_Activation
  imports Key_Negotiation
begin

text \<open>
  The end of a key exchange in \<open>paramiko/transport.py\<close>: the derivation of the six session keys
  and their activation (\<open>_activate_outbound\<close> with the \<open>NEWKEYS\<close> message, \<open>_activate_inbound\<close> when
  the peer's arrives), the extension message, and delayed compression.
\<close>

section \<open>Cipher set-ups\<close>

fun contains :: "pystr \<Rightarrow> pystr \<Rightarrow> bool" where
  "contains p [] = (p = [])"
| "contains p (c # cs) = (starts_with p (c # cs) \<or> contains p cs)"

definition ends_with :: "pystr \<Rightarrow> pystr \<Rightarrow> bool" where
  "ends_with p s \<longleftrightarrow> starts_with (rev p) (rev s)"

definition etm_suffix :: pystr where "etm_suffix = lit ''etm@openssh.com''"

text \<open>
  The letters name the keys of one direction: \<open>iv\<close>, cipher key and MAC key. The cipher engine
  is made from the name, the key and the IV; only then is the MAC key computed.
\<close>

definition make_setup :: "crypto_env \<Rightarrow> pystr \<Rightarrow> pystr \<Rightarrow> char \<Rightarrow> char \<Rightarrow> char \<Rightarrow> bool \<Rightarrow> (transport, cipher_setup) prog" where
  "make_setup env cipher mac ivc keyc macc sdctr =
     seqp (liftr (case map_of cipher_table cipher of None \<Rightarrow> Inl KeyError | Some i \<Rightarrow> Inr i)) (\<lambda>info.
     seqp (compute_key env ivc (case ci_iv_size info of None \<Rightarrow> ci_block_size info | Some n \<Rightarrow> n)) (\<lambda>iv.
     seqp (compute_key env keyc (ci_key_size info)) (\<lambda>key.
     seqp (liftr (case map_of mac_table mac of None \<Rightarrow> Inl KeyError | Some i \<Rightarrow> Inr i)) (\<lambda>sizes.
     seqp (compute_key env macc (fst sizes)) (\<lambda>mac_key.
     let aead = ci_aead info
     in ret \<lparr>cs_cipher = cipher, cs_key = key, cs_iv = iv, cs_block_size = ci_block_size info,
             cs_mac_engine = (if aead then None else Some mac), cs_mac_size = (if aead then 16 else snd sizes),
             cs_mac_key = (if aead then None else Some mac_key), cs_sdctr = sdctr,
             cs_etm = (\<not> aead \<and> contains etm_suffix mac), cs_aead = aead,
             cs_iv_arg = (if aead then Some iv else None)\<rparr>)))))"

text \<open>Both ciphers replaced: the packetizer's request to re-key is fulfilled.\<close>

definition new_cipher :: "bool \<Rightarrow> transport \<Rightarrow> transport" where
  "new_cipher out t =
     (let t = (if out then t\<lparr>init_out := True\<rparr> else t\<lparr>init_in := True\<rparr>)
      in if init_out t \<and> init_in t then t\<lparr>init_out := False, init_in := False, need_rekey := False\<rparr> else t)"

text \<open>\<open>zlib@openssh.com\<close> waits for the authentication.\<close>

definition zlib_delayed :: pystr where "zlib_delayed = lit ''zlib@openssh.com''"
definition no_compression :: pystr where "no_compression = lit ''none''"

definition compress_now :: "pystr \<Rightarrow> transport \<Rightarrow> bool" where
  "compress_now name t \<longleftrightarrow> name \<noteq> no_compression \<and> (name \<noteq> zlib_delayed \<or> authenticated t)"

definition compressor_known :: "pystr \<Rightarrow> (transport, unit) prog" where
  "compressor_known name = liftr (if name \<in> set compression_names then Inr () else Inl KeyError)"

definition activate_inbound :: "crypto_env \<Rightarrow> (transport, unit) prog" where
  "activate_inbound env =
     seqp (gets id) (\<lambda>t.
     seqp (if server_mode t
           then make_setup env (remote_cipher t) (remote_mac t) (CHR ''A'') (CHR ''C'') (CHR ''E'') False
           else make_setup env (remote_cipher t) (remote_mac t) (CHR ''B'') (CHR ''D'') (CHR ''F'') False) (\<lambda>setup.
     seqp (call (SetInbound setup)) (\<lambda>_.
     seqp (modify (new_cipher False)) (\<lambda>_.
     seqp (compressor_known (remote_compression t)) (\<lambda>_.
     seqp (whenp (compress_now (remote_compression t) t) (call (InCompressor (remote_compression t)))) (\<lambda>_.
     whenp (agreed_on_strict_kex t) (call ResetSeqnoIn)))))))"

definition ctr_suffix :: pystr where "ctr_suffix = lit ''-ctr''"

definition sends_ext_info :: "transport \<Rightarrow> bool" where
  "sends_ext_info t \<longleftrightarrow> server_mode t \<and> server_sig_algs t \<and> remote_ext_info t = Some (lit ''ext-info-c'')"

text \<open>The second half of \<open>_activate_outbound\<close>, once the new cipher is made; \<open>t\<close> is the transport at its start.\<close>

definition finish_outbound :: "transport \<Rightarrow> cipher_setup \<Rightarrow> (transport, unit) prog" where
  "finish_outbound t setup =
     seqp (call (SetOutbound setup)) (\<lambda>_.
     seqp (modify (new_cipher True)) (\<lambda>_.
     seqp (compressor_known (local_compression t)) (\<lambda>_.
     seqp (whenp (compress_now (local_compression t) t) (call (OutCompressor (local_compression t)))) (\<lambda>_.
     seqp (modify (\<lambda>t. if \<not> need_rekey t then t\<lparr>in_kex := False\<rparr> else t)) (\<lambda>_.
     seqp (whenp (sends_ext_info t)
             (t_send [msg_byte MSG_EXT_INFO, FInt 1, FText (lit ''server-sig-algs''), FText (join [comma] (preferred_pubkeys t))])) (\<lambda>_.
     expect_packet [MSG_NEWKEYS]))))))"

definition activate_outbound :: "crypto_env \<Rightarrow> (transport, unit) prog" where
  "activate_outbound env =
     seqp (t_send [msg_byte MSG_NEWKEYS]) (\<lambda>_.
     seqp (gets id) (\<lambda>t.
     seqp (whenp (agreed_on_strict_kex t) (call ResetSeqnoOut)) (\<lambda>_.
     seqp (if server_mode t
           then make_setup env (local_cipher t) (local_mac t) (CHR ''B'') (CHR ''D'') (CHR ''F'') (ends_with ctr_suffix (local_cipher t))
           else make_setup env (local_cipher t) (local_mac t) (CHR ''A'') (CHR ''C'') (CHR ''E'') (ends_with ctr_suffix (local_cipher t)))
       (finish_outbound t))))"

definition auth_trigger :: "(transport, unit) prog" where
  "auth_trigger =
     seqp (modify (\<lambda>t. t\<lparr>authenticated := True\<rparr>)) (\<lambda>_.
     seqp (gets id) (\<lambda>t.
     seqp (whenp (local_compression t = zlib_delayed) (call (OutCompressor zlib_delayed))) (\<lambda>_.
     whenp (remote_compression t = zlib_delayed) (call (InCompressor zlib_delayed)))))"

fun read_extensions :: "nat \<Rightarrow> message \<Rightarrow> (pystr \<times> bytes) list \<Rightarrow> (pystr \<times> bytes) list res" where
  "read_extensions 0 m d = Inr d"
| "read_extensions (Suc n) m d =
     bind_res (get_text m) (\<lambda>(name, m). let (val, m) = get_string m in read_extensions n m (AList.update name val d))"

definition parse_ext_info :: "message \<Rightarrow> (transport, unit) prog" where
  "parse_ext_info m =
     (let (n, m) = get_int m
      in seqp (liftr (read_extensions (nat n) m [])) (\<lambda>d. modify (\<lambda>t. t\<lparr>server_extensions := d\<rparr>)))"

definition set_completion :: "transport \<Rightarrow> transport" where
  "set_completion t = t\<lparr>completion_event := map_option (\<lambda>_. True) (completion_event t)\<rparr>"

definition parse_newkeys :: "crypto_env \<Rightarrow> (transport, unit) prog" where
  "parse_newkeys env =
     seqp (activate_inbound env) (\<lambda>_.
     seqp (modify (\<lambda>t. t\<lparr>local_kex_init := None, remote_kex_init := None, kex_K := None, kex_engine := None\<rparr>)) (\<lambda>_.
     seqp (modify (\<lambda>t. if server_mode t \<and> \<not> has_auth_handler t then t\<lparr>has_auth_handler := True\<rparr> else t)) (\<lambda>_.
     seqp (gets id) (\<lambda>t.
     seqp (if \<not> initial_kex_done t then seqp (modify (\<lambda>t. t\<lparr>initial_kex_done := True\<rparr>)) (\<lambda>_. call InitialKexDone) else ret ()) (\<lambda>_.
     seqp (modify set_completion) (\<lambda>_.
     modify (\<lambda>t. (if \<not> need_rekey t then t\<lparr>in_kex := False\<rparr> else t)\<lparr>clear_to_send := True\<rparr>)))))))"

section \<open>Both sides use the same keys\<close>

lemma key_loop_calls: "compute_key env c n t = (r, t') \<Longrightarrow> t' = t"
  by (auto simp: compute_key_def seqp_def liftr_def split: option.splits sum.splits prod.splits)

text \<open>The pieces of the transport the session keys depend on.\<close>

definition key_material :: "transport \<Rightarrow> int option \<times> bytes option \<times> bytes option \<times> pystr" where
  "key_material t = (kex_K t, kex_H t, session_id t, engine_name t)"

lemma compute_key_cong:
  "key_material a = key_material b \<Longrightarrow> compute_key env c n a = (fst (compute_key env c n b), a)"
  by (auto simp: compute_key_def key_material_def seqp_def liftr_def split: option.splits sum.splits)

definition setup_result ::
  "(char \<Rightarrow> int \<Rightarrow> bytes outcome) \<Rightarrow> pystr \<Rightarrow> pystr \<Rightarrow> char \<Rightarrow> char \<Rightarrow> char \<Rightarrow> bool \<Rightarrow> cipher_setup outcome" where
  "setup_result derive cipher mac ivc keyc macc sdctr =
     bind_out (out_of (case map_of cipher_table cipher of None \<Rightarrow> Inl KeyError | Some i \<Rightarrow> Inr i)) (\<lambda>info.
     bind_out (derive ivc (case ci_iv_size info of None \<Rightarrow> ci_block_size info | Some n \<Rightarrow> n)) (\<lambda>iv.
     bind_out (derive keyc (ci_key_size info)) (\<lambda>key.
     bind_out (out_of (case map_of mac_table mac of None \<Rightarrow> Inl KeyError | Some i \<Rightarrow> Inr i)) (\<lambda>sizes.
     bind_out (derive macc (fst sizes)) (\<lambda>mac_key.
     Ret (let aead = ci_aead info in
           \<lparr>cs_cipher = cipher, cs_key = key, cs_iv = iv, cs_block_size = ci_block_size info,
             cs_mac_engine = (if aead then None else Some mac), cs_mac_size = (if aead then 16 else snd sizes),
             cs_mac_key = (if aead then None else Some mac_key), cs_sdctr = sdctr,
             cs_etm = (\<not> aead \<and> contains etm_suffix mac), cs_aead = aead,
             cs_iv_arg = (if aead then Some iv else None)\<rparr>))))))"

lemma make_setup_pure:
  "make_setup env cipher mac i k m sd t = (setup_result (\<lambda>c n. fst (compute_key env c n t)) cipher mac i k m sd, t)"
proof -
  have c: "compute_key env c n t = (fst (compute_key env c n t), t)" for c n
    by (rule compute_key_cong) simp
  show ?thesis
    unfolding make_setup_def setup_result_def Let_def
    by (intro seqp_pure liftr_pure c ret_apply)
qed

lemma setup_result_sdctr:
  "setup_result d cipher mac i k m sd = bind_out (setup_result d cipher mac i k m False) (\<lambda>x. Ret (x\<lparr>cs_sdctr := sd\<rparr>))"
  by (simp only: setup_result_def bind_out_assoc bind_out_simps Let_def cipher_setup.update_convs)

lemma derive_cong:
  assumes "key_material a = key_material b"
  shows "(\<lambda>c n. fst (compute_key env c n a)) = (\<lambda>c n. fst (compute_key env c n b))"
proof (intro ext)
  show "fst (compute_key env c n a) = fst (compute_key env c n b)" for c n
    using compute_key_cong [OF assms, of env c n] by (metis fst_conv)
qed

text \<open>What a transport derives with.\<close>

abbreviation derive :: "crypto_env \<Rightarrow> transport \<Rightarrow> char \<Rightarrow> int \<Rightarrow> bytes outcome" where
  "derive env t \<equiv> (\<lambda>c n. fst (compute_key env c n t))"

definition inbound_setup :: "crypto_env \<Rightarrow> transport \<Rightarrow> cipher_setup outcome" where
  "inbound_setup env t =
     (if server_mode t then setup_result (derive env t) (remote_cipher t) (remote_mac t) (CHR ''A'') (CHR ''C'') (CHR ''E'') False
      else setup_result (derive env t) (remote_cipher t) (remote_mac t) (CHR ''B'') (CHR ''D'') (CHR ''F'') False)"

definition outbound_setup :: "crypto_env \<Rightarrow> transport \<Rightarrow> cipher_setup outcome" where
  "outbound_setup env t =
     (let ctr = ends_with ctr_suffix (local_cipher t)
      in if server_mode t then setup_result (derive env t) (local_cipher t) (local_mac t) (CHR ''B'') (CHR ''D'') (CHR ''F'') ctr
         else setup_result (derive env t) (local_cipher t) (local_mac t) (CHR ''A'') (CHR ''C'') (CHR ''E'') ctr)"

lemma whenp_call: "whenp b (call c) t = (Ret (), if b then t\<lparr>calls := calls t @ [c]\<rparr> else t)"
  by (simp add: whenp_def call_def)

lemma key_material_upd [simp]: "key_material (t\<lparr>calls := x\<rparr>) = key_material t"
  by (simp add: key_material_def engine_name_def)

lemma new_cipher_fields [simp]:
  "calls (new_cipher b t) = calls t" "authenticated (new_cipher b t) = authenticated t"
  "preferred_pubkeys (new_cipher b t) = preferred_pubkeys t"
  by (simp_all add: new_cipher_def Let_def preferred_pubkeys_def filter_algorithm_def disabled_def)

lemma inbound_result:
  assumes "activate_inbound env t = (Ret (), t')"
  shows "\<exists>s. inbound_setup env t = Ret s \<and>
    calls t' = calls t @ [SetInbound s] @
      (if compress_now (remote_compression t) t then [InCompressor (remote_compression t)] else []) @
      (if agreed_on_strict_kex t then [ResetSeqnoIn] else [])"
proof -
  have m: "(if server_mode t
           then make_setup env (remote_cipher t) (remote_mac t) (CHR ''A'') (CHR ''C'') (CHR ''E'') False
           else make_setup env (remote_cipher t) (remote_mac t) (CHR ''B'') (CHR ''D'') (CHR ''F'') False) t =
      (inbound_setup env t, t)"
    by (simp add: make_setup_pure inbound_setup_def)
  show ?thesis
    using assms unfolding activate_inbound_def seqp_gets id_apply
    by (auto simp: seqp_Ret m whenp_call call_def compressor_known_def liftr_Ret)
qed

lemma finish_outbound_result:
  assumes "finish_outbound t s u = (Ret (), u')"
  shows "expected_packet u' = [MSG_NEWKEYS] \<and> (\<exists>ext.
    calls u' = calls u @ [SetOutbound s] @
      (if compress_now (local_compression t) t then [OutCompressor (local_compression t)] else []) @ ext \<and>
    (if sends_ext_info t then \<exists>b. ext = [Send b] else ext = []))"
proof (cases "sends_ext_info t")
  case False
  with assms show ?thesis
    unfolding finish_outbound_def
    by (auto simp: seqp_Ret whenp_call call_def compressor_known_def liftr_Ret expect_packet_def)
next
  case True
  with assms show ?thesis
    unfolding finish_outbound_def
    by (auto simp: seqp_Ret whenp_call call_def compressor_known_def liftr_Ret expect_packet_def t_send_def)
qed

lemma outbound_result:
  assumes "activate_outbound env t = (Ret (), t')"
  shows "\<exists>s ext. outbound_setup env t = Ret s \<and> expected_packet t' = [MSG_NEWKEYS] \<and>
    calls t' = calls t @ [Send [21]] @ (if agreed_on_strict_kex t then [ResetSeqnoOut] else []) @ [SetOutbound s] @
      (if compress_now (local_compression t) t then [OutCompressor (local_compression t)] else []) @ ext \<and>
    (if sends_ext_info t then \<exists>b. ext = [Send b] else ext = [])"
proof -
  let ?t0 = "t\<lparr>calls := calls t @ [Send [21]]\<rparr>"
  let ?t1 = "if agreed_on_strict_kex t then ?t0\<lparr>calls := calls ?t0 @ [ResetSeqnoOut]\<rparr> else ?t0"
  have n: "t_send [msg_byte MSG_NEWKEYS] t = (Ret (), ?t0)"
    by (simp add: t_send_def compose_def msg_byte_def call_def msg_asbytes_def add_byte_def)
       (simp add: new_message_def bio_write_def)
  have s: "outbound_setup env ?t1 = outbound_setup env t"
  proof -
    have "key_material ?t1 = key_material t" by simp
    from derive_cong [OF this] show ?thesis by (simp add: outbound_setup_def Let_def)
  qed
  have m: "(if server_mode ?t0
           then make_setup env (local_cipher ?t0) (local_mac ?t0) (CHR ''B'') (CHR ''D'') (CHR ''F'') (ends_with ctr_suffix (local_cipher ?t0))
           else make_setup env (local_cipher ?t0) (local_mac ?t0) (CHR ''A'') (CHR ''C'') (CHR ''E'') (ends_with ctr_suffix (local_cipher ?t0))) ?t1 =
      (outbound_setup env t, ?t1)"
    unfolding s [symmetric] by (simp add: make_setup_pure outbound_setup_def Let_def)
  have w: "whenp (agreed_on_strict_kex ?t0) (call ResetSeqnoOut) ?t0 = (Ret (), ?t1)"
    by (simp add: whenp_call)
  have "activate_outbound env t = seqp (\<lambda>x. (outbound_setup env t, x)) (finish_outbound ?t0) ?t1"
    unfolding activate_outbound_def seqp_def [of "t_send _"] n gets_apply prod.case outcome.case
      seqp_def [of "gets _"] id_apply seqp_def [of "whenp _ _"] w seqp_def [of "if _ then _ else _"] m
    by (simp add: seqp_def)
  then obtain u where u: "outbound_setup env t = Ret u" "finish_outbound ?t0 u ?t1 = (Ret (), t')"
    using assms by (cases "outbound_setup env t") (simp_all add: seqp_def)
  have e: "compress_now x ?t0 = compress_now x t" "sends_ext_info ?t0 = sends_ext_info t" for x
    by (simp_all add: compress_now_def sends_ext_info_def)
  from finish_outbound_result [OF u(2)] obtain ext where "expected_packet t' = [MSG_NEWKEYS]"
    "calls t' = calls ?t1 @ [SetOutbound u] @
      (if compress_now (local_compression t) t then [OutCompressor (local_compression t)] else []) @ ext"
    "if sends_ext_info t then \<exists>b. ext = [Send b] else ext = []"
    unfolding e by auto
  with u(1) show ?thesis by (intro exI [of _ u] exI [of _ ext]) simp
qed

text \<open>The set-ups of the two directions differ in the flag of the sender's counter mode only.\<close>

lemma setups_match:
  assumes "key_material a = key_material b" and "server_mode a \<noteq> server_mode b"
    and "local_cipher a = remote_cipher b" "local_mac a = remote_mac b"
  shows "outbound_setup env a = bind_out (inbound_setup env b) (\<lambda>x. Ret (x\<lparr>cs_sdctr := ends_with ctr_suffix (local_cipher a)\<rparr>))"
proof (cases "server_mode a")
  case True
  with assms(2) have "\<not> server_mode b" by simp
  with True assms(3,4) show ?thesis
    unfolding outbound_setup_def inbound_setup_def Let_def derive_cong [OF assms(1)]
    by (simp only: if_True if_False) (rule setup_result_sdctr)
next
  case False
  with assms(2) have "server_mode b" by simp
  with False assms(3,4) show ?thesis
    unfolding outbound_setup_def inbound_setup_def Let_def derive_cong [OF assms(1)]
    by (simp only: if_True if_False) (rule setup_result_sdctr)
qed


section \<open>The derivation returns keys of the right size\<close>

lemma key_loop_returns:
  "(\<And>b. h b \<noteq> []) \<Longrightarrow> \<exists>k. key_loop h kh out sofar n = Ret k \<and> length k = n"
proof (induction h kh out sofar n rule: key_loop.induct)
  case (1 h kh out sofar n)
  show ?case
  proof (cases "length out < n")
    case False
    then show ?thesis by (subst key_loop.simps) simp
  next
    case True
    then have "\<exists>k. key_loop h kh (out @ h (kh @ sofar)) (sofar @ h (kh @ sofar)) n = Ret k \<and> length k = n"
      using "1.IH" [OF True refl] "1.prems" by simp
    moreover have "key_loop h kh out sofar n = key_loop h kh (out @ h (kh @ sofar)) (sofar @ h (kh @ sofar)) n"
      using True "1.prems" by (subst key_loop.simps) (simp add: Let_def)
    ultimately show ?thesis by simp
  qed
qed

definition has_keys :: "transport \<Rightarrow> bool" where
  "has_keys t \<longleftrightarrow> (case kex_K t of None \<Rightarrow> False | Some k \<Rightarrow> int (length (deflate_long k True)) < 2 ^ 32) \<and>
     kex_H t \<noteq> None \<and> session_id t \<noteq> None"

lemma compute_key_returns:
  assumes "\<And>e b. kex_hash env e b \<noteq> []" and "has_keys t"
  shows "\<exists>k. fst (compute_key env c n t) = Ret k \<and> length k = nat n"
proof -
  obtain k hh sid where k: "kex_K t = Some k" "kex_H t = Some hh" "session_id t = Some sid"
    "int (length (deflate_long k True)) < 2 ^ 32"
    using assms(2) by (auto simp: has_keys_def split: option.splits)
  then obtain b where b: "enc_mpint k = Inr b"
    by (auto simp: enc_mpint_def enc_string_def pack_I_def)
  have "\<exists>x. key_loop (kex_hash env (engine_name t)) kh out sofar (nat n) = Ret x \<and> length x = nat n" for kh out sofar
    by (rule key_loop_returns) (rule assms(1))
  then show ?thesis using k b by (simp add: compute_key_def derive_key_def Let_def)
qed

definition iv_size :: "cipher_info \<Rightarrow> int" where
  "iv_size info = (case ci_iv_size info of None \<Rightarrow> ci_block_size info | Some n \<Rightarrow> n)"

lemma setup_result_returns:
  assumes "\<And>c n. \<exists>k. d c n = Ret k \<and> length k = nat n"
    and "map_of cipher_table cipher = Some info" and "map_of mac_table mac = Some (dsize, msize)"
  shows "\<exists>s. setup_result d cipher mac i k m sd = Ret s \<and> length (cs_key s) = nat (ci_key_size info) \<and>
    length (cs_iv s) = nat (iv_size info) \<and> (cs_aead s = ci_aead info) \<and>
    map_option length (cs_mac_key s) = (if ci_aead info then None else Some (nat dsize))"
proof -
  obtain iv where iv: "d i (case ci_iv_size info of None \<Rightarrow> ci_block_size info | Some n \<Rightarrow> n) = Ret iv"
    "length iv = nat (iv_size info)" using assms(1) unfolding iv_size_def by blast
  obtain key where key: "d k (ci_key_size info) = Ret key" "length key = nat (ci_key_size info)"
    using assms(1) by blast
  obtain mk where mk: "d m dsize = Ret mk" "length mk = nat dsize" using assms(1) by blast
  show ?thesis by (simp add: setup_result_def assms(2,3) iv key mk Let_def)
qed

text \<open>With a hash whose digests are not empty, and a secret and a hash from a key exchange,
  the activation of any cipher, MAC and compression of the tables succeeds, and the cipher gets a key
  and an IV of exactly the lengths it needs, and the MAC a key of its digest's length.\<close>

theorem activation_succeeds:
  assumes "\<forall>e b. kex_hash env e b \<noteq> []" and "has_keys t"
    and "map_of cipher_table (remote_cipher t) = Some info" and "map_of mac_table (remote_mac t) = Some (dsize, msize)"
    and "remote_compression t \<in> set compression_names"
  shows "\<exists>t' s. activate_inbound env t = (Ret (), t') \<and> SetInbound s \<in> set (calls t') \<and>
    length (cs_key s) = nat (ci_key_size info) \<and> length (cs_iv s) = nat (iv_size info) \<and>
    map_option length (cs_mac_key s) = (if ci_aead info then None else Some (nat dsize))"
proof -
  have d: "\<exists>k. derive env t c n = Ret k \<and> length k = nat n" for c n
    using compute_key_returns [of env, OF _ assms(2)] assms(1) by blast
  obtain s where s: "inbound_setup env t = Ret s" "length (cs_key s) = nat (ci_key_size info)"
    "length (cs_iv s) = nat (iv_size info)"
    "map_option length (cs_mac_key s) = (if ci_aead info then None else Some (nat dsize))"
    using setup_result_returns [of "derive env t", OF d assms(3,4)] unfolding inbound_setup_def by metis
  have "\<exists>t'. activate_inbound env t = (Ret (), t')"
    unfolding activate_inbound_def seqp_gets id_apply
    using s(1) assms(5)
    by (simp add: seqp_def make_setup_pure inbound_setup_def whenp_def call_def compressor_known_def split: if_splits)
  then obtain t' where t': "activate_inbound env t = (Ret (), t')" by blast
  then obtain i where "inbound_setup env t = Ret i" "SetInbound i \<in> set (calls t')"
    using inbound_result by fastforce
  with s t' show ?thesis by auto
qed

section \<open>A concrete exchange\<close>

definition demo_env :: crypto_env where
  "demo_env = \<lparr>kex_hash = (\<lambda>e b. word_of_nat (length b) # take 19 b), sign_data = (\<lambda>k h a. k @ h),
     verify_sig = (\<lambda>a k h s. Inr (s = k @ h)), ec_point = (\<lambda>e b. Inr b), ec_public = (\<lambda>e b. b),
     ec_shared = (\<lambda>e a b. Inr (map2 (+) a b))\<rparr>"

definition demo_side :: "bool \<Rightarrow> transport" where
  "demo_side srv = (new_transport True [] True True)\<lparr>server_mode := srv, kex_K := Some 300, kex_H := Some [1, 2, 3],
     session_id := Some [1, 2, 3], local_cipher := lit ''aes128-ctr'', remote_cipher := lit ''aes128-ctr'',
     local_mac := lit ''hmac-sha1'', remote_mac := lit ''hmac-sha1'', local_compression := lit ''zlib'',
     remote_compression := lit ''zlib'', agreed_on_strict_kex := True\<rparr>"

lemma demo_tables:
  "map_of cipher_table (lit ''aes128-ctr'') = Some (plain_cipher 16 16)"
  "map_of mac_table (lit ''hmac-sha1'') = Some (20, 20)" "lit ''zlib'' \<in> set compression_names"
  by (simp_all add: cipher_table_def mac_table_def compression_names_def)

lemma demo_has_keys: "has_keys (demo_side srv)"
proof -
  have "deflate_long 300 True = [1, 44]" by code_simp
  then show ?thesis by (simp add: has_keys_def demo_side_def)
qed

lemma demo_hash: "\<forall>e b. kex_hash demo_env e b \<noteq> []"
  by (simp add: demo_env_def)

theorem activation_succeeds_witness:
  "\<exists>t' s. activate_inbound demo_env (demo_side True) = (Ret (), t') \<and> SetInbound s \<in> set (calls t') \<and>
     length (cs_key s) = 16 \<and> length (cs_iv s) = 16 \<and> map_option length (cs_mac_key s) = Some 20"
  using activation_succeeds [OF demo_hash demo_has_keys, of True "plain_cipher 16 16" 20 20] demo_tables
  by (simp add: demo_side_def plain_cipher_def iv_size_def)

lemma outbound_succeeds:
  assumes "outbound_setup env t = Ret s" and "local_compression t \<in> set compression_names" and "\<not> sends_ext_info t"
  shows "\<exists>t'. activate_outbound env t = (Ret (), t')"
proof -
  have f: "\<exists>u'. finish_outbound v s u = (Ret (), u')"
    if "local_compression v = local_compression t" "\<not> sends_ext_info v" for u v
    using that assms(2) unfolding finish_outbound_def
    by (simp add: seqp_def whenp_def call_def compressor_known_def expect_packet_def)
  have n: "t_send [msg_byte MSG_NEWKEYS] t = (Ret (), t\<lparr>calls := calls t @ [Send [21]]\<rparr>)"
    by (simp add: t_send_def compose_def msg_byte_def call_def msg_asbytes_def add_byte_def)
       (simp add: new_message_def bio_write_def)
  have d: "derive env (t\<lparr>calls := x\<rparr>) = derive env t" for x by (rule derive_cong) simp
  have e: "sends_ext_info (t\<lparr>calls := x\<rparr>) = sends_ext_info t" for x by (simp add: sends_ext_info_def)
  show ?thesis
    unfolding activate_outbound_def seqp_def [of "t_send _"] n gets_apply prod.case outcome.case seqp_gets id_apply
    using assms(1,3) f by (simp add: seqp_def whenp_def call_def make_setup_pure outbound_setup_def Let_def d e split: if_splits)
qed


end
