(* ===== verification/Server_Interface.thy ===== *)
theory Server_Interface
  imports Key_Activation
begin

text \<open>
  \<open>paramiko/server.py\<close>: what a server application decides. \<open>server_obj\<close> is an object of a
  subclass of \<open>ServerInterface\<close> (a parameter of the handlers); \<open>default_server\<close> is the class
  itself, which refuses everything. Keyboard-interactive queries are \<open>interactive_query\<close>.
\<close>

section \<open>Keyboard-interactive queries\<close>

record interactive_query =
  q_name :: pystr
  q_instructions :: pystr
  q_prompts :: "(pystr \<times> bool) list"

definition add_prompt :: "pystr \<Rightarrow> bool \<Rightarrow> interactive_query \<Rightarrow> interactive_query" where
  "add_prompt prompt echo q = q\<lparr>q_prompts := q_prompts q @ [(prompt, echo)]\<rparr>"

text \<open>A prompt is a string, which is echoed, or a pair.\<close>

definition new_query :: "pystr \<Rightarrow> pystr \<Rightarrow> (pystr + pystr \<times> bool) list \<Rightarrow> interactive_query" where
  "new_query nm instructions prompts =
     fold (\<lambda>x q. case x of Inl s \<Rightarrow> add_prompt s True q | Inr (s, echo) \<Rightarrow> add_prompt s echo q) prompts
       \<lparr>q_name = nm, q_instructions = instructions, q_prompts = []\<rparr>"

text \<open>The two callbacks of keyboard-interactive answer with a result or another query.\<close>

datatype verdict = Verdict int | Query interactive_query

section \<open>Keys of users\<close>

text \<open>The parts of a \<open>PKey\<close> the authentication uses: \<open>get_name\<close>, \<open>asbytes\<close>, and the type and contents
  of its certificate (\<open>public_blob\<close>).\<close>

record user_key =
  uk_name :: pystr
  uk_blob :: bytes
  uk_cert :: "(pystr \<times> bytes) option"

section \<open>The server object\<close>

record server_obj =
  get_banner :: "pystr option \<times> pystr"
  get_allowed_auths :: "pystr \<Rightarrow> pystr"
  check_auth_none :: "pystr \<Rightarrow> int"
  check_auth_password :: "pystr \<Rightarrow> py_obj \<Rightarrow> int"
  check_auth_publickey :: "pystr \<Rightarrow> user_key \<Rightarrow> int"
  check_auth_interactive :: "pystr \<Rightarrow> bytes \<Rightarrow> verdict"
  check_auth_interactive_response :: "pystr list \<Rightarrow> verdict"
  check_port_forward_request :: "pystr \<Rightarrow> int \<Rightarrow> field option"
  check_global_request :: "pystr \<Rightarrow> message \<Rightarrow> field list option"
  check_channel_request :: "pystr \<Rightarrow> int \<Rightarrow> int"
  check_channel_direct_tcpip_request :: "int \<Rightarrow> pystr \<times> int \<Rightarrow> pystr \<times> int \<Rightarrow> int"
  check_channel_action :: "int \<Rightarrow> chan_request \<Rightarrow> bool"

text \<open>
  \<open>check_port_forward_request\<close> answers \<open>None\<close> for \<open>False\<close>, otherwise the port (or \<open>True\<close>) as a field; \<open>check_global_request\<close> answers \<open>None\<close> for
  \<open>False\<close>, \<open>Some []\<close> for \<open>True\<close>, and the fields of the answer for a tuple. \<open>check_channel_action\<close>
  collects the eight callbacks for requests on a channel.
\<close>

definition default_channel_request :: "pystr \<Rightarrow> int \<Rightarrow> int" where
  "default_channel_request kind cid = OPEN_FAILED_ADMINISTRATIVELY_PROHIBITED"

definition default_allowed_auths :: "pystr \<Rightarrow> pystr" where
  "default_allowed_auths username = lit ''password''"

definition default_auth_none :: "pystr \<Rightarrow> int" where
  "default_auth_none username = AUTH_FAILED"

definition default_auth_password :: "pystr \<Rightarrow> py_obj \<Rightarrow> int" where
  "default_auth_password username password = AUTH_FAILED"

definition default_auth_publickey :: "pystr \<Rightarrow> user_key \<Rightarrow> int" where
  "default_auth_publickey username key = AUTH_FAILED"

definition default_auth_interactive :: "pystr \<Rightarrow> bytes \<Rightarrow> verdict" where
  "default_auth_interactive username submethods = Verdict AUTH_FAILED"

definition default_auth_interactive_response :: "pystr list \<Rightarrow> verdict" where
  "default_auth_interactive_response responses = Verdict AUTH_FAILED"

definition default_port_forward_request :: "pystr \<Rightarrow> int \<Rightarrow> field option" where
  "default_port_forward_request address port = None"

definition default_global_request :: "pystr \<Rightarrow> message \<Rightarrow> field list option" where
  "default_global_request kind m = None"

definition default_direct_tcpip_request :: "int \<Rightarrow> pystr \<times> int \<Rightarrow> pystr \<times> int \<Rightarrow> int" where
  "default_direct_tcpip_request cid origin destination = OPEN_FAILED_ADMINISTRATIVELY_PROHIBITED"

text \<open>
  A subsystem is started when a handler is registered under its name; \<open>subsystems\<close> are those names.
\<close>

definition default_subsystem_request :: "pystr set \<Rightarrow> pystr \<Rightarrow> bool" where
  "default_subsystem_request subsystems nm = (nm \<in> subsystems)"

fun default_channel_action :: "pystr set \<Rightarrow> int \<Rightarrow> chan_request \<Rightarrow> bool" where
  "default_channel_action subsystems cid (SubsystemRequest nm) = default_subsystem_request subsystems nm"
| "default_channel_action subsystems cid r = False"

definition default_banner :: "pystr option \<times> pystr" where
  "default_banner = (None, [])"

definition default_server :: "pystr set \<Rightarrow> server_obj" where
  "default_server subsystems =
     \<lparr>get_banner = default_banner, get_allowed_auths = default_allowed_auths, check_auth_none = default_auth_none,
      check_auth_password = default_auth_password, check_auth_publickey = default_auth_publickey,
      check_auth_interactive = default_auth_interactive,
      check_auth_interactive_response = default_auth_interactive_response,
      check_port_forward_request = default_port_forward_request, check_global_request = default_global_request,
      check_channel_request = default_channel_request,
      check_channel_direct_tcpip_request = default_direct_tcpip_request,
      check_channel_action = default_channel_action subsystems\<rparr>"

end
