(* ===== verification/Key_Exchange.thy ===== *)
theory Key_Exchange
  imports Key_Activation
begin

text \<open>
  The key exchange methods of \<open>paramiko/kex_*.py\<close>: fixed Diffie-Hellman groups
  (\<open>kex_group14.py\<close>, \<open>kex_group16.py\<close>), group exchange (\<open>kex_gex.py\<close>), the NIST curves
  (\<open>kex_ecdh_nist.py\<close>) and Curve25519 (\<open>kex_curve25519.py\<close>). A method works on the transport and
  on its own state. All of them end the same way (\<open>server_finish\<close>, \<open>client_finish\<close>), with
  their own part of the exchange hash.
\<close>

section \<open>A method and its transport\<close>

type_synonym ('k, 'a) kprog = "(transport \<times> 'k, 'a) prog"

definition on_t :: "(transport, 'a) prog \<Rightarrow> ('k, 'a) kprog" where
  "on_t p s = (case p (fst s) of (r, t') \<Rightarrow> (r, (t', snd s)))"

lemma on_t_Ret: "on_t p (t, k) = (Ret x, (t', k')) \<longleftrightarrow> p t = (Ret x, t') \<and> k' = k"
  by (auto simp: on_t_def split: prod.splits)

definition upd_k :: "('k \<Rightarrow> 'k) \<Rightarrow> ('k, unit) kprog" where
  "upd_k f = modify (\<lambda>(t, k). (t, f k))"

definition need :: "'a option \<Rightarrow> 'a res" where
  "need x = (case x of None \<Rightarrow> Inl TypeError | Some v \<Rightarrow> Inr v)"

text \<open>\<open>pow(b, e, m)\<close>; the exponents of this code are never negative.\<close>

definition py_pow :: "int \<Rightarrow> int \<Rightarrow> int \<Rightarrow> int res" where
  "py_pow b e m = (if m = 0 then Inl ValueError else Inr (b ^ nat e mod m))"

text \<open>\<open>V_C, V_S, I_C, I_S\<close>, in the same order on both sides.\<close>

definition transcript :: "transport \<Rightarrow> field list res" where
  "transcript t =
     bind_res (need (local_kex_init t)) (\<lambda>l.
     bind_res (need (remote_kex_init t)) (\<lambda>r.
     Inr (if server_mode t then [FText (remote_version t), FText (local_version t), FString r, FString l]
          else [FText (local_version t), FText (remote_version t), FString l, FString r])))"

definition exchange_hash :: "crypto_env \<Rightarrow> field list \<Rightarrow> (transport, bytes) prog" where
  "exchange_hash env hfs =
     seqp (gets id) (\<lambda>t.
     seqp (liftr (transcript t)) (\<lambda>tr.
     seqp (liftr (compose (tr @ hfs))) (\<lambda>hm. ret (kex_hash env (engine_name t) (msg_asbytes hm)))))"

definition server_key_blob :: "(transport, bytes) prog" where
  "server_key_blob =
     seqp (gets get_server_key) (\<lambda>k. liftr (case k of None \<Rightarrow> Inl AttributeError | Some k \<Rightarrow> Inr (hk_blob k)))"

definition server_finish :: "crypto_env \<Rightarrow> int \<Rightarrow> bytes \<Rightarrow> field list \<Rightarrow> int \<Rightarrow> field \<Rightarrow> (transport, unit) prog" where
  "server_finish env reply key hfs K mine =
     seqp (exchange_hash env hfs) (\<lambda>H.
     seqp (set_K_H K H) (\<lambda>_.
     seqp (gets host_key_type) (\<lambda>alg.
     let sig = sign_data env key H (case alg of None \<Rightarrow> [] | Some a \<Rightarrow> a)
     in seqp (t_send [msg_byte reply, FString key, mine, FString sig]) (\<lambda>_. activate_outbound env))))"

definition client_finish :: "crypto_env \<Rightarrow> bytes \<Rightarrow> bytes \<Rightarrow> field list \<Rightarrow> int \<Rightarrow> (transport, unit) prog" where
  "client_finish env host_key sig hfs K =
     seqp (exchange_hash env hfs) (\<lambda>H.
     seqp (set_K_H K H) (\<lambda>_.
     seqp (verify_key env host_key sig) (\<lambda>_. activate_outbound env)))"

section \<open>Fixed groups\<close>

definition MSG_KEXDH_INIT :: int where [simp]: "MSG_KEXDH_INIT = 30"
definition MSG_KEXDH_REPLY :: int where [simp]: "MSG_KEXDH_REPLY = 31"

record dh =
  dh_x :: int
  dh_e :: int
  dh_f :: int

definition new_dh :: dh where "new_dh = \<lparr>dh_x = 0, dh_e = 0, dh_f = 0\<rparr>"

definition rejected_head :: "bytes \<Rightarrow> bool" where
  "rejected_head x \<longleftrightarrow> take 8 x = 0x7F # replicate 7 0xFF \<or> take 8 x = replicate 8 0"

fun group_x_loop :: "nat \<Rightarrow> (bytes, int) prog" where
  "group_x_loop 0 supply = (Blocked, supply)"
| "group_x_loop (Suc n) supply =
     (if length supply < 128 then (Blocked, supply)
      else
        (case byte_mask (byte_ord (hd supply)) 0x7F of
           Inl e \<Rightarrow> (Exn e, drop 128 supply)
         | Inr h \<Rightarrow>
             let x = h @ drop 1 (take 128 supply)
             in if \<not> rejected_head x then (Ret (inflate_long x False), drop 128 supply)
                else group_x_loop n (drop 128 supply)))"

text \<open>Every turn takes 128 bytes, so there are never more turns than bytes.\<close>

definition group_x :: "(bytes, int) prog" where
  "group_x supply = group_x_loop (Suc (length supply)) supply"

definition group_start :: "int \<Rightarrow> int \<Rightarrow> (dh, unit) kprog" where
  "group_start P G =
     seqp (on_t (on_entropy group_x)) (\<lambda>x.
     seqp (upd_k (\<lambda>k. k\<lparr>dh_x := x\<rparr>)) (\<lambda>_.
     seqp (gets fst) (\<lambda>t.
     seqp (liftr (py_pow G x P)) (\<lambda>v.
     if server_mode t then seqp (upd_k (\<lambda>k. k\<lparr>dh_f := v\<rparr>)) (\<lambda>_. on_t (expect_packet [MSG_KEXDH_INIT]))
     else
       seqp (upd_k (\<lambda>k. k\<lparr>dh_e := v\<rparr>)) (\<lambda>_.
       seqp (on_t (t_send [msg_byte MSG_KEXDH_INIT, FMpint v])) (\<lambda>_.
       on_t (expect_packet [MSG_KEXDH_REPLY])))))))"

definition group_reply :: "crypto_env \<Rightarrow> int \<Rightarrow> message \<Rightarrow> (dh, unit) kprog" where
  "group_reply env P m =
     (let (host_key, m) = get_string m; (f, m) = get_mpint m
      in seqp (upd_k (\<lambda>k. k\<lparr>dh_f := f\<rparr>)) (\<lambda>_.
         if f < 1 \<or> P - 1 < f then raise (SSHException ''Server kex \"f\" is out of range'')
         else
           (let (sig, m) = get_binary m
            in seqp (gets snd) (\<lambda>k.
               seqp (liftr (py_pow f (dh_x k) P)) (\<lambda>K.
               on_t (client_finish env host_key sig [FString host_key, FMpint (dh_e k), FMpint f, FMpint K] K))))))"

definition group_init :: "crypto_env \<Rightarrow> int \<Rightarrow> message \<Rightarrow> (dh, unit) kprog" where
  "group_init env P m =
     (let (e, m) = get_mpint m
      in seqp (upd_k (\<lambda>k. k\<lparr>dh_e := e\<rparr>)) (\<lambda>_.
         if e < 1 \<or> P - 1 < e then raise (SSHException ''Client kex \"e\" is out of range'')
         else
           seqp (gets snd) (\<lambda>k.
           seqp (liftr (py_pow e (dh_x k) P)) (\<lambda>K.
           seqp (on_t server_key_blob) (\<lambda>key.
           on_t (server_finish env MSG_KEXDH_REPLY key [FString key, FMpint e, FMpint (dh_f k), FMpint K] K (FMpint (dh_f k))))))))"

definition group_parse_next :: "crypto_env \<Rightarrow> int \<Rightarrow> int \<Rightarrow> message \<Rightarrow> (dh, unit) kprog" where
  "group_parse_next env P ptype m =
     seqp (gets fst) (\<lambda>t.
     if server_mode t \<and> ptype = MSG_KEXDH_INIT then group_init env P m
     else if \<not> server_mode t \<and> ptype = MSG_KEXDH_REPLY then group_reply env P m
     else raise (SSHException ''KexGroup14SHA256 asked to handle packet type''))"

section \<open>Group exchange\<close>

definition GEX_REQUEST_OLD :: int where [simp]: "GEX_REQUEST_OLD = 30"
definition GEX_GROUP :: int where [simp]: "GEX_GROUP = 31"
definition GEX_INIT :: int where [simp]: "GEX_INIT = 32"
definition GEX_REPLY :: int where [simp]: "GEX_REPLY = 33"
definition GEX_REQUEST :: int where [simp]: "GEX_REQUEST = 34"

record gex =
  gx_p :: "int option"
  gx_g :: "int option"
  gx_x :: "int option"
  gx_e :: "int option"
  gx_f :: "int option"
  min_bits :: int
  max_bits :: int
  preferred_bits :: int
  old_style :: bool

definition new_gex :: gex where
  "new_gex = \<lparr>gx_p = None, gx_g = None, gx_x = None, gx_e = None, gx_f = None, min_bits = 2048, max_bits = 8192,
     preferred_bits = 2048, old_style = False\<rparr>"

text \<open>\<open>test_old\<close> is the argument of the unit tests.\<close>

definition gex_start :: "bool \<Rightarrow> (gex, unit) kprog" where
  "gex_start test_old =
     seqp (gets id) (\<lambda>(t, k).
     if server_mode t then on_t (expect_packet [GEX_REQUEST, GEX_REQUEST_OLD])
     else
       seqp (if test_old
             then seqp (upd_k (\<lambda>k. k\<lparr>old_style := True\<rparr>)) (\<lambda>_.
                  on_t (t_send [msg_byte GEX_REQUEST_OLD, FInt (preferred_bits k)]))
             else on_t (t_send [msg_byte GEX_REQUEST, FInt (min_bits k), FInt (preferred_bits k), FInt (max_bits k)])) (\<lambda>_.
       on_t (expect_packet [GEX_GROUP])))"

text \<open>
  The mask for the top byte: \<open>None\<close> where the loop does not end (a zero top byte).
\<close>

function mask_loop :: "int \<Rightarrow> int \<Rightarrow> int option" where
  "mask_loop qhbyte qmask =
     (if qhbyte AND 0x80 \<noteq> 0 then Some qmask
      else if qhbyte \<le> 0 \<or> 0x80 \<le> qhbyte then None
      else mask_loop (push_bit 1 qhbyte) (drop_bit 1 qmask))"
  by pat_completeness auto
termination by (relation "measure (\<lambda>(h, m). nat (0x80 - h))") auto

declare mask_loop.simps [simp del]

function gex_x_loop :: "int \<Rightarrow> nat \<Rightarrow> int \<Rightarrow> (bytes, int) prog" where
  "gex_x_loop q byte_count qmask supply =
     (if byte_count = 0 \<or> length supply < byte_count then (Blocked, supply)
      else
        (case byte_mask (byte_ord (hd supply)) qmask of
           Inl e \<Rightarrow> (Exn e, drop byte_count supply)
         | Inr h \<Rightarrow>
             let x = inflate_long (h @ drop 1 (take byte_count supply)) True
             in if 1 < x \<and> x < q then (Ret x, drop byte_count supply)
                else gex_x_loop q byte_count qmask (drop byte_count supply)))"
  by pat_completeness auto
termination by (relation "measure (\<lambda>(q, c, m, e). length e)") auto

declare gex_x_loop.simps [simp del]

definition gex_generate_x :: "(gex, unit) kprog" where
  "gex_generate_x =
     seqp (gets snd) (\<lambda>k.
     seqp (liftr (need (gx_p k))) (\<lambda>p.
     let q = (p - 1) div 2; qnorm = deflate_long q False
     in seqp (liftr (py_index qnorm 0)) (\<lambda>h.
        case mask_loop (byte_ord h) 0xFF of
          None \<Rightarrow> (\<lambda>s. (Blocked, s))
        | Some qmask \<Rightarrow>
            seqp (on_t (on_entropy (gex_x_loop q (length qnorm) qmask))) (\<lambda>x.
            upd_k (\<lambda>k. k\<lparr>gx_x := Some x\<rparr>)))))"

definition gex_send_group :: "(gex, unit) kprog" where
  "gex_send_group =
     seqp (gets id) (\<lambda>(t, k).
     case moduli t of
       None \<Rightarrow> raise (SSHException ''Can't do server-side gex with no modulus pack'')
     | Some pk \<Rightarrow>
         seqp (on_t (on_entropy (get_modulus pk (min_bits k) (preferred_bits k) (max_bits k)))) (\<lambda>(g, p).
         seqp (upd_k (\<lambda>k. k\<lparr>gx_g := Some g, gx_p := Some p\<rparr>)) (\<lambda>_.
         seqp (on_t (t_send [msg_byte GEX_GROUP, FMpint p, FMpint g])) (\<lambda>_.
         on_t (expect_packet [GEX_INIT])))))"

text \<open>The request's bit sizes made consistent with this side's limits.\<close>

definition settle_bits :: "int \<Rightarrow> int \<Rightarrow> int \<Rightarrow> gex \<Rightarrow> gex" where
  "settle_bits minbits preferredbits maxbits k =
     (let preferredbits = (if max_bits k < preferredbits then max_bits k else preferredbits);
          preferredbits = (if preferredbits < min_bits k then min_bits k else preferredbits);
          minbits = (if preferredbits < minbits then preferredbits else minbits);
          maxbits = (if maxbits < preferredbits then preferredbits else maxbits)
      in k\<lparr>min_bits := minbits, preferred_bits := preferredbits, max_bits := maxbits\<rparr>)"

definition gex_request :: "message \<Rightarrow> (gex, unit) kprog" where
  "gex_request m =
     (let (minbits, m) = get_int m; (preferredbits, m) = get_int m; (maxbits, m) = get_int m
      in seqp (upd_k (settle_bits minbits preferredbits maxbits)) (\<lambda>_. gex_send_group))"

definition gex_request_old :: "message \<Rightarrow> (gex, unit) kprog" where
  "gex_request_old m =
     (let (preferredbits, m) = get_int m
      in seqp (upd_k (\<lambda>k. let b = (if max_bits k < preferredbits then max_bits k else preferredbits);
                              b = (if b < min_bits k then min_bits k else b) in k\<lparr>preferred_bits := b\<rparr>)) (\<lambda>_.
         seqp gex_send_group (\<lambda>_. upd_k (\<lambda>k. k\<lparr>old_style := True\<rparr>))))"

definition gex_group :: "message \<Rightarrow> (gex, unit) kprog" where
  "gex_group m =
     (let (p, m) = get_mpint m; (g, m) = get_mpint m; bitlen = bit_length p
      in seqp (upd_k (\<lambda>k. k\<lparr>gx_p := Some p, gx_g := Some g\<rparr>)) (\<lambda>_.
         if bitlen < 1024 \<or> 8192 < bitlen
         then raise (SSHException ''Server-generated gex p (don't ask) is out of range'')
         else
           seqp gex_generate_x (\<lambda>_.
           seqp (gets snd) (\<lambda>k.
           seqp (liftr (bind_res (need (gx_x k)) (\<lambda>x. py_pow g x p))) (\<lambda>e.
           seqp (upd_k (\<lambda>k. k\<lparr>gx_e := Some e\<rparr>)) (\<lambda>_.
           seqp (on_t (t_send [msg_byte GEX_INIT, FMpint e])) (\<lambda>_.
           on_t (expect_packet [GEX_REPLY]))))))))"

text \<open>The part of the exchange hash between the host key and the public values.\<close>

definition gex_fields :: "bytes \<Rightarrow> gex \<Rightarrow> int \<Rightarrow> int \<Rightarrow> int \<Rightarrow> int \<Rightarrow> int \<Rightarrow> field list" where
  "gex_fields key k p g e f K =
     [FString key] @ (if old_style k then [] else [FInt (min_bits k)]) @ [FInt (preferred_bits k)] @
     (if old_style k then [] else [FInt (max_bits k)]) @ [FMpint p, FMpint g, FMpint e, FMpint f, FMpint K]"

definition gex_init :: "crypto_env \<Rightarrow> message \<Rightarrow> (gex, unit) kprog" where
  "gex_init env m =
     (let (e, m) = get_mpint m
      in seqp (upd_k (\<lambda>k. k\<lparr>gx_e := Some e\<rparr>)) (\<lambda>_.
         seqp (gets snd) (\<lambda>k.
         seqp (liftr (need (gx_p k))) (\<lambda>p.
         if e < 1 \<or> p - 1 < e then raise (SSHException ''Client kex \"e\" is out of range'')
         else
           seqp gex_generate_x (\<lambda>_.
           seqp (gets snd) (\<lambda>k.
           seqp (liftr (need (gx_x k))) (\<lambda>x.
           seqp (liftr (need (gx_g k))) (\<lambda>g.
           seqp (liftr (py_pow g x p)) (\<lambda>f.
           seqp (upd_k (\<lambda>k. k\<lparr>gx_f := Some f\<rparr>)) (\<lambda>_.
           seqp (liftr (py_pow e x p)) (\<lambda>K.
           seqp (on_t server_key_blob) (\<lambda>key.
           on_t (server_finish env GEX_REPLY key (gex_fields key k p g e f K) K (FMpint f))))))))))))))"

definition gex_reply :: "crypto_env \<Rightarrow> message \<Rightarrow> (gex, unit) kprog" where
  "gex_reply env m =
     (let (host_key, m) = get_string m; (f, m) = get_mpint m; (sig, m) = get_string m
      in seqp (upd_k (\<lambda>k. k\<lparr>gx_f := Some f\<rparr>)) (\<lambda>_.
         seqp (gets snd) (\<lambda>k.
         seqp (liftr (need (gx_p k))) (\<lambda>p.
         if f < 1 \<or> p - 1 < f then raise (SSHException ''Server kex \"f\" is out of range'')
         else
           seqp (liftr (need (gx_x k))) (\<lambda>x.
           seqp (liftr (py_pow f x p)) (\<lambda>K.
           seqp (liftr (need (gx_g k))) (\<lambda>g.
           seqp (liftr (need (gx_e k))) (\<lambda>e.
           on_t (client_finish env host_key sig (gex_fields host_key k p g e f K) K)))))))))"

definition gex_parse_next :: "crypto_env \<Rightarrow> int \<Rightarrow> message \<Rightarrow> (gex, unit) kprog" where
  "gex_parse_next env ptype m =
     (if ptype = GEX_REQUEST then gex_request m
      else if ptype = GEX_GROUP then gex_group m
      else if ptype = GEX_INIT then gex_init env m
      else if ptype = GEX_REPLY then gex_reply env m
      else if ptype = GEX_REQUEST_OLD then gex_request_old m
      else raise (SSHException ''KexGex asked to handle packet type''))"

section \<open>Elliptic curves\<close>

definition MSG_KEXECDH_INIT :: int where [simp]: "MSG_KEXECDH_INIT = 30"
definition MSG_KEXECDH_REPLY :: int where [simp]: "MSG_KEXECDH_REPLY = 31"

text \<open>The state is the ephemeral private key; \<open>priv\<close> is the one the library generates.\<close>

definition ec_start :: "crypto_env \<Rightarrow> bytes \<Rightarrow> (bytes, unit) kprog" where
  "ec_start env priv =
     seqp (upd_k (\<lambda>_. priv)) (\<lambda>_.
     seqp (gets fst) (\<lambda>t.
     if server_mode t then on_t (expect_packet [MSG_KEXECDH_INIT])
     else
       seqp (on_t (t_send [msg_byte MSG_KEXECDH_INIT, FString (ec_public env (engine_name t) priv)])) (\<lambda>_.
       on_t (expect_packet [MSG_KEXECDH_REPLY]))))"

text \<open>\<open>int(hexlify(K), 16)\<close>.\<close>

definition int_of_bytes :: "bytes \<Rightarrow> int res" where
  "int_of_bytes b = (if b = [] then Inl ValueError else Inr (be_val b))"

text \<open>
  \<open>_perform_exchange\<close> of Curve25519 rejects the all-zero secret, the NIST curves have no such check;
  \<open>montgomery\<close> tells them apart.
\<close>

definition perform_exchange :: "crypto_env \<Rightarrow> pystr \<Rightarrow> bytes \<Rightarrow> bytes \<Rightarrow> bytes res" where
  "perform_exchange env eng priv peer =
     bind_res (ec_shared env eng priv peer) (\<lambda>s.
     if s = replicate 32 0 then Inl (SSHException ''peer's curve25519 public value has wrong order'') else Inr s)"

definition ec_secret :: "crypto_env \<Rightarrow> bool \<Rightarrow> pystr \<Rightarrow> bytes \<Rightarrow> bytes \<Rightarrow> int res" where
  "ec_secret env montgomery eng priv peer =
     bind_res (if montgomery then perform_exchange env eng priv peer else ec_shared env eng priv peer) int_of_bytes"

definition nist_init :: "crypto_env \<Rightarrow> message \<Rightarrow> (bytes, unit) kprog" where
  "nist_init env m =
     (let (q_c, m) = get_string m
      in seqp (gets id) (\<lambda>(t, priv).
         seqp (liftr (ec_point env (engine_name t) q_c)) (\<lambda>peer.
         seqp (on_t server_key_blob) (\<lambda>key.
         seqp (liftr (ec_secret env False (engine_name t) priv peer)) (\<lambda>K.
         let q_s = ec_public env (engine_name t) priv
         in on_t (server_finish env MSG_KEXECDH_REPLY key [FString key, FString q_c, FString q_s, FMpint K] K (FString q_s)))))))"

definition curve25519_init :: "crypto_env \<Rightarrow> message \<Rightarrow> (bytes, unit) kprog" where
  "curve25519_init env m =
     (let (q_c, m) = get_string m
      in seqp (gets id) (\<lambda>(t, priv).
         seqp (liftr (ec_point env (engine_name t) q_c)) (\<lambda>peer.
         seqp (liftr (ec_secret env True (engine_name t) priv peer)) (\<lambda>K.
         seqp (on_t server_key_blob) (\<lambda>key.
         let q_s = ec_public env (engine_name t) priv
         in on_t (server_finish env MSG_KEXECDH_REPLY key [FString key, FString q_c, FString q_s, FMpint K] K (FString q_s)))))))"

definition ec_init :: "crypto_env \<Rightarrow> bool \<Rightarrow> message \<Rightarrow> (bytes, unit) kprog" where
  "ec_init env montgomery = (if montgomery then curve25519_init env else nist_init env)"

definition ec_reply :: "crypto_env \<Rightarrow> bool \<Rightarrow> message \<Rightarrow> (bytes, unit) kprog" where
  "ec_reply env montgomery m =
     (let (k_s, m) = get_string m; (q_s, m) = get_string m; (sig, m) = get_binary m
      in seqp (gets id) (\<lambda>(t, priv).
         seqp (liftr (ec_point env (engine_name t) q_s)) (\<lambda>peer.
         seqp (liftr (ec_secret env montgomery (engine_name t) priv peer)) (\<lambda>K.
         let q_c = ec_public env (engine_name t) priv
         in on_t (client_finish env k_s sig [FString k_s, FString q_c, FString q_s, FMpint K] K)))))"

definition ec_parse_next :: "crypto_env \<Rightarrow> bool \<Rightarrow> int \<Rightarrow> message \<Rightarrow> (bytes, unit) kprog" where
  "ec_parse_next env montgomery ptype m =
     seqp (gets fst) (\<lambda>t.
     if server_mode t \<and> ptype = MSG_KEXECDH_INIT then ec_init env montgomery m
     else if \<not> server_mode t \<and> ptype = MSG_KEXECDH_REPLY then ec_reply env montgomery m
     else raise (SSHException ''asked to handle packet type''))"

end
