(* ===== verification/Auth_Handler.thy ===== *)
theory Auth_Handler
  imports Server_Interface Key_Exchange
begin

text \<open>
  \<open>paramiko/auth_handler.py\<close>: both sides of the user authentication. A method works on the
  transport and on the handler (\<open>kprog\<close>). Keys are parsed, and signatures made and verified, by the
  functions of \<open>auth_env\<close>; the server's decisions are those of a \<open>server_obj\<close>.
\<close>

section \<open>State\<close>

text \<open>\<open>saved\<close> is the transport's \<open>saved_exception\<close>, \<open>agreed_algorithm\<close> its \<open>_agreed_pubkey_algorithm\<close>.\<close>

record auth =
  a_username :: "pystr option"
  a_authenticated :: bool
  a_event :: "bool option"
  a_method :: pystr
  a_banner :: "bytes option"
  a_password :: "py_obj option"
  a_key :: "user_key option"
  a_submethods :: pystr
  auth_username :: "pystr option"
  auth_fail_count :: int
  saved :: "py_error option"
  agreed_algorithm :: "pystr option"

definition new_auth :: auth where
  "new_auth = \<lparr>a_username = None, a_authenticated = False, a_event = None, a_method = [], a_banner = None,
     a_password = None, a_key = None, a_submethods = [], auth_username = None, auth_fail_count = 0,
     saved = None, agreed_algorithm = None\<rparr>"

record auth_env =
  parse_key :: "pystr \<Rightarrow> bytes \<Rightarrow> user_key res"
  sign_ssh_data :: "user_key \<Rightarrow> bytes \<Rightarrow> pystr \<Rightarrow> bytes"
  verify_ssh_sig :: "user_key \<Rightarrow> bytes \<Rightarrow> bytes \<Rightarrow> bool res"

text \<open>The event is one object: \<open>set\<close> on the one the handler holds.\<close>

definition set_auth_event :: "auth \<Rightarrow> auth" where
  "set_auth_event k = k\<lparr>a_event := map_option (\<lambda>_. True) (a_event k)\<rparr>"

definition abort_auth :: "(auth, unit) kprog" where
  "abort_auth = upd_k set_auth_event"

definition get_username :: "transport \<Rightarrow> auth \<Rightarrow> pystr option" where
  "get_username t k = (if server_mode t then auth_username k else a_username k)"

section \<open>Requests of the client\<close>

definition ssh_userauth :: pystr where "ssh_userauth = lit ''ssh-userauth''"
definition ssh_connection :: pystr where "ssh_connection = lit ''ssh-connection''"
definition m_none :: pystr where "m_none = lit ''none''"
definition m_password :: pystr where "m_password = lit ''password''"
definition m_publickey :: pystr where "m_publickey = lit ''publickey''"
definition m_interactive :: pystr where "m_interactive = lit ''keyboard-interactive''"

definition request_auth :: "(auth, unit) kprog" where
  "request_auth = on_t (t_send [msg_byte MSG_SERVICE_REQUEST, FText ssh_userauth])"

definition auth_none :: "pystr \<Rightarrow> (auth, unit) kprog" where
  "auth_none username =
     seqp (upd_k (\<lambda>k. k\<lparr>a_event := Some False, a_method := m_none, a_username := Some username\<rparr>)) (\<lambda>_. request_auth)"

definition auth_publickey :: "pystr \<Rightarrow> user_key \<Rightarrow> (auth, unit) kprog" where
  "auth_publickey username key =
     seqp (upd_k (\<lambda>k. k\<lparr>a_event := Some False, a_method := m_publickey, a_username := Some username, a_key := Some key\<rparr>))
       (\<lambda>_. request_auth)"

definition auth_password :: "pystr \<Rightarrow> py_obj \<Rightarrow> (auth, unit) kprog" where
  "auth_password username password =
     seqp (upd_k (\<lambda>k. k\<lparr>a_event := Some False, a_method := m_password, a_username := Some username,
        a_password := Some password\<rparr>)) (\<lambda>_. request_auth)"

definition auth_interactive :: "pystr \<Rightarrow> pystr \<Rightarrow> (auth, unit) kprog" where
  "auth_interactive username submethods =
     seqp (upd_k (\<lambda>k. k\<lparr>a_event := Some False, a_method := m_interactive, a_username := Some username,
        a_submethods := submethods\<rparr>)) (\<lambda>_. request_auth)"

section \<open>Disconnecting\<close>

text \<open>\<open>Transport.stop_thread\<close> and \<open>close\<close>; the channels are unlinked by the session.\<close>

definition stop_thread :: "(transport, unit) prog" where
  "stop_thread = seqp (modify (\<lambda>t. t\<lparr>active := False\<rparr>)) (\<lambda>_. call ClosePacketizer)"

definition t_close :: "(transport, unit) prog" where
  "t_close = seqp (gets active) (\<lambda>a. if \<not> a then ret () else stop_thread)"

definition disconnect_service_not_available :: "(auth, unit) kprog" where
  "disconnect_service_not_available =
     seqp (on_t (t_send [msg_byte MSG_DISCONNECT, FInt DISCONNECT_SERVICE_NOT_AVAILABLE,
        FText (lit ''Service not available''), FText (lit ''en'')])) (\<lambda>_. on_t t_close)"

definition disconnect_no_more_auth :: "(auth, unit) kprog" where
  "disconnect_no_more_auth =
     seqp (on_t (t_send [msg_byte MSG_DISCONNECT, FInt DISCONNECT_NO_MORE_AUTH_METHODS_AVAILABLE,
        FText (lit ''No more auth methods available''), FText (lit ''en'')])) (\<lambda>_. on_t t_close)"

section \<open>The signed data\<close>

definition key_type_and_bits :: "user_key \<Rightarrow> pystr \<times> bytes" where
  "key_type_and_bits key = (case uk_cert key of Some (ty, b) \<Rightarrow> (ty, b) | None \<Rightarrow> (uk_name key, uk_blob key))"

definition session_blob :: "user_key \<Rightarrow> pystr \<Rightarrow> pystr \<Rightarrow> pystr \<Rightarrow> transport \<Rightarrow> bytes res" where
  "session_blob key service username algorithm t =
     bind_res (need (session_id t)) (\<lambda>sid.
     bind_res (compose [FString sid, msg_byte MSG_USERAUTH_REQUEST, FText username, FText service, FText m_publickey,
        FBool True, FText algorithm, FString (snd (key_type_and_bits key))]) (\<lambda>m. Inr (msg_asbytes m)))"

section \<open>Waiting for the server's answer\<close>

definition take_exception :: "(auth, py_error option) kprog" where
  "take_exception =
     seqp (gets snd) (\<lambda>k. seqp (upd_k (\<lambda>k. k\<lparr>saved := None\<rparr>)) (\<lambda>_. ret (saved k)))"

text \<open>
  A wake-up is what the other threads did meanwhile and the clock after it; with none left the
  caller still waits. \<open>max_ts\<close> is the deadline, if there is one.
\<close>

fun response_loop :: "int option \<Rightarrow> ((transport \<times> auth \<Rightarrow> transport \<times> auth) \<times> int) list \<Rightarrow> (auth, unit) kprog" where
  "response_loop max_ts [] s = (Blocked, s)"
| "response_loop max_ts ((f, now) # ws) s =
     (let s = f s
      in if \<not> active (fst s) then
           seqp take_exception (\<lambda>e. raise (case e of
               None \<Rightarrow> AuthenticationException ''Authentication failed: transport shut down or saw EOF''
             | Some EOFError \<Rightarrow> AuthenticationException ''Authentication failed: transport shut down or saw EOF''
             | Some e \<Rightarrow> e)) s
         else if a_event (snd s) = Some True then (Ret (), s)
         else if (case max_ts of None \<Rightarrow> False | Some d \<Rightarrow> d \<le> now)
         then (Exn (AuthenticationException ''Authentication timeout.''), s)
         else response_loop max_ts ws s)"

definition wait_for_response ::
  "int option \<Rightarrow> ((transport \<times> auth \<Rightarrow> transport \<times> auth) \<times> int) list \<Rightarrow> (auth, pystr list) kprog" where
  "wait_for_response max_ts ws =
     seqp (response_loop max_ts ws) (\<lambda>_.
     seqp (gets snd) (\<lambda>k.
     if \<not> a_authenticated k then
       seqp take_exception (\<lambda>e.
         case e of
           None \<Rightarrow> raise (AuthenticationException ''Authentication failed.'')
         | Some (PartialAuthentication types) \<Rightarrow> ret types
         | Some e \<Rightarrow> raise e)
     else ret []))"

section \<open>The service\<close>

definition parse_service_request :: "server_obj \<Rightarrow> message \<Rightarrow> (auth, unit) kprog" where
  "parse_service_request srv m =
     seqp (liftr (get_text m)) (\<lambda>(service, m).
     seqp (gets fst) (\<lambda>t.
     if server_mode t \<and> service = ssh_userauth then
       seqp (on_t (t_send [msg_byte MSG_SERVICE_ACCEPT, FText service])) (\<lambda>_.
       case get_banner srv of
         (Some banner, language) \<Rightarrow>
           if banner = [] then ret ()
           else on_t (t_send [msg_byte MSG_USERAUTH_BANNER, FText banner, FText language])
       | (None, _) \<Rightarrow> ret ())
     else disconnect_service_not_available))"

text \<open>\<open>str.replace(p, '')\<close>: every occurrence, from the left.\<close>

function remove_all :: "pystr \<Rightarrow> pystr \<Rightarrow> pystr" where
  "remove_all p s =
     (if s = [] then []
      else if p \<noteq> [] \<and> starts_with p s then remove_all p (drop (length p) s)
      else hd s # remove_all p (tl s))"
  by pat_completeness auto
termination by (relation "measure (\<lambda>(p, s). length s)") (auto simp: starts_with_def)

declare remove_all.simps [simp del]

definition cert_suffix :: pystr where "cert_suffix = lit ''-cert-v01@openssh.com''"

text \<open>\<open>None\<close> where the code answers \<open>None\<close>; an unknown algorithm is a \<open>KeyError\<close>.\<close>

definition generate_key_from_request :: "auth_env \<Rightarrow> pystr \<Rightarrow> bytes \<Rightarrow> transport \<Rightarrow> user_key option res" where
  "generate_key_from_request env algorithm keyblob t =
     (if remove_all cert_suffix algorithm \<notin> set (preferred_pubkeys t) then Inr None
      else if algorithm \<notin> set key_names then Inl KeyError
      else bind_res (parse_key env algorithm keyblob) (\<lambda>k. Inr (Some k)))"

definition rsa_name :: pystr where "rsa_name = lit ''rsa''"

definition server_sig_name :: pystr where "server_sig_name = lit ''server-sig-algs''"

text \<open>The signature algorithm for a key: from the server's list when it sent one, in our order.\<close>

definition choose_pubkey_algorithm :: "pystr \<Rightarrow> transport \<Rightarrow> pystr res" where
  "choose_pubkey_algorithm key_type t =
     (let my_algos = filter (contains rsa_name) (preferred_pubkeys t)
      in if my_algos = []
         then Inl (SSHException ''An RSA key was specified, but no RSA pubkey algorithms are configured!'')
         else
           bind_res (utf8_decode (case map_of (server_extensions t) server_sig_name of None \<Rightarrow> [] | Some b \<Rightarrow> b)) (\<lambda>str.
           bind_res
             (if str \<noteq> [] then
                (case filter (\<lambda>a. a \<in> set (split_on comma str)) my_algos of
                   a # _ \<Rightarrow> Inr a
                 | [] \<Rightarrow> Inl (AuthenticationException ''Unable to agree on a pubkey algorithm for signing the key!''))
              else Inr (hd my_algos)) (\<lambda>algo.
           Inr (if ends_with cert_suffix key_type then algo @ cert_suffix else algo))))"

definition finalize_pubkey_algorithm :: "pystr \<Rightarrow> (auth, pystr) kprog" where
  "finalize_pubkey_algorithm key_type =
     (if \<not> contains rsa_name key_type then ret key_type
      else
        seqp (gets fst) (\<lambda>t.
        seqp (liftr (choose_pubkey_algorithm key_type t)) (\<lambda>algo.
        seqp (upd_k (\<lambda>k. k\<lparr>agreed_algorithm := Some algo\<rparr>)) (\<lambda>_. ret algo))))"

section \<open>The client's request\<close>

definition publickey_fields :: "auth_env \<Rightarrow> user_key \<Rightarrow> pystr \<Rightarrow> (auth, field list) kprog" where
  "publickey_fields env key username =
     seqp (finalize_pubkey_algorithm (fst (key_type_and_bits key))) (\<lambda>algorithm.
     seqp (gets fst) (\<lambda>t.
     seqp (liftr (session_blob key ssh_connection username algorithm t)) (\<lambda>blob.
     ret [FBool True, FText algorithm, FString (snd (key_type_and_bits key)), FString (sign_ssh_data env key blob algorithm)])))"

definition method_fields :: "auth_env \<Rightarrow> pystr \<Rightarrow> (auth, field list) kprog" where
  "method_fields env username =
     seqp (gets snd) (\<lambda>k.
     if a_method k = m_password then
       seqp (liftr (bind_res (need (a_password k)) b_cast)) (\<lambda>pw. ret [FBool False, FString pw])
     else if a_method k = m_publickey then
       seqp (liftr (case a_key k of None \<Rightarrow> Inl AttributeError | Some key \<Rightarrow> Inr key)) (\<lambda>key.
       publickey_fields env key username)
     else if a_method k = m_interactive then ret [FText [], FText (a_submethods k)]
     else if a_method k = m_none then ret []
     else raise (SSHException ''Unknown auth method''))"

definition auth_request :: "pystr \<Rightarrow> pystr \<Rightarrow> field list \<Rightarrow> field list" where
  "auth_request username meth fs =
     [msg_byte MSG_USERAUTH_REQUEST, FText username, FText ssh_connection, FText meth] @ fs"

definition parse_service_accept :: "auth_env \<Rightarrow> message \<Rightarrow> (auth, unit) kprog" where
  "parse_service_accept env m =
     seqp (liftr (get_text m)) (\<lambda>(service, m).
     if service = ssh_userauth then
       seqp (gets snd) (\<lambda>k.
       seqp (liftr (need (a_username k))) (\<lambda>username.
       seqp (method_fields env username) (\<lambda>fs. on_t (t_send (auth_request username (a_method k) fs)))))
     else ret ())"

section \<open>The server's answers\<close>

definition send_result :: "server_obj \<Rightarrow> pystr \<Rightarrow> int \<Rightarrow> (auth, unit) kprog" where
  "send_result srv username result =
     (if result = AUTH_SUCCESSFUL
      then seqp (upd_k (\<lambda>k. k\<lparr>a_authenticated := True\<rparr>)) (\<lambda>_. on_t (t_send [msg_byte MSG_USERAUTH_SUCCESS]))
      else
        seqp (if result = AUTH_PARTIALLY_SUCCESSFUL then ret ()
              else upd_k (\<lambda>k. k\<lparr>auth_fail_count := auth_fail_count k + 1\<rparr>)) (\<lambda>_.
        on_t (t_send [msg_byte MSG_USERAUTH_FAILURE, FText (get_allowed_auths srv username),
          FBool (result = AUTH_PARTIALLY_SUCCESSFUL)])))"

definition after_result :: "int \<Rightarrow> (auth, unit) kprog" where
  "after_result result =
     seqp (gets snd) (\<lambda>k.
     seqp (if 10 \<le> auth_fail_count k then disconnect_no_more_auth else ret ()) (\<lambda>_.
     if result = AUTH_SUCCESSFUL then on_t auth_trigger else ret ()))"

definition send_auth_result :: "server_obj \<Rightarrow> pystr \<Rightarrow> int \<Rightarrow> (auth, unit) kprog" where
  "send_auth_result srv username result = seqp (send_result srv username result) (\<lambda>_. after_result result)"

definition prompt_fields :: "(pystr \<times> bool) list \<Rightarrow> field list" where
  "prompt_fields ps = concat (map (\<lambda>(p, echo). [FText p, FBool echo]) ps)"

definition interactive_query_msg :: "interactive_query \<Rightarrow> (auth, unit) kprog" where
  "interactive_query_msg q =
     on_t (t_send ([msg_byte MSG_USERAUTH_INFO_REQUEST, FText (q_name q), FText (q_instructions q), FString [],
       FInt (int (length (q_prompts q)))] @ prompt_fields (q_prompts q)))"

text \<open>A password that is not UTF-8 is handed over as bytes.\<close>

definition decode_password :: "bytes \<Rightarrow> py_obj" where
  "decode_password pw = (case utf8_decode pw of Inr s \<Rightarrow> PStr s | Inl _ \<Rightarrow> PBytes pw)"

definition password_result :: "server_obj \<Rightarrow> pystr \<Rightarrow> message \<Rightarrow> int" where
  "password_result srv username m =
     (let (changereq, m) = get_boolean m; (password, m) = get_binary m
      in if changereq then AUTH_FAILED else check_auth_password srv username (decode_password password))"

definition requested_key :: "auth_env \<Rightarrow> pystr \<Rightarrow> bytes \<Rightarrow> transport \<Rightarrow> user_key option" where
  "requested_key env algorithm keyblob t =
     (case generate_key_from_request env algorithm keyblob t of Inl _ \<Rightarrow> None | Inr k \<Rightarrow> k)"

definition publickey_request :: "auth_env \<Rightarrow> server_obj \<Rightarrow> pystr \<Rightarrow> pystr \<Rightarrow> message \<Rightarrow> (auth, unit) kprog" where
  "publickey_request env srv username service m =
     (let (sig_attached, m) = get_boolean m
      in seqp (liftr (get_text m)) (\<lambda>(algorithm, m).
         let (keyblob, m) = get_binary m
         in seqp (gets fst) (\<lambda>t.
            case requested_key env algorithm keyblob t of
              None \<Rightarrow> disconnect_no_more_auth
            | Some key \<Rightarrow>
                let result = check_auth_publickey srv username key
                in if result = AUTH_FAILED then send_auth_result srv username result
                   else if \<not> sig_attached
                   then on_t (t_send [msg_byte MSG_USERAUTH_PK_OK, FText algorithm, FString keyblob])
                   else
                     let (sig, m) = get_binary m
                     in seqp (liftr (session_blob key service username algorithm t)) (\<lambda>blob.
                        seqp (liftr (verify_ssh_sig env key blob sig)) (\<lambda>ok.
                        send_auth_result srv username (if ok then result else AUTH_FAILED))))))"

definition answer_verdict :: "server_obj \<Rightarrow> pystr \<Rightarrow> verdict \<Rightarrow> (auth, unit) kprog" where
  "answer_verdict srv username v =
     (case v of Query q \<Rightarrow> interactive_query_msg q | Verdict r \<Rightarrow> send_auth_result srv username r)"

definition method_request ::
  "auth_env \<Rightarrow> server_obj \<Rightarrow> pystr \<Rightarrow> pystr \<Rightarrow> pystr \<Rightarrow> message \<Rightarrow> (auth, unit) kprog" where
  "method_request env srv username service meth m =
     (if meth = m_none then send_auth_result srv username (check_auth_none srv username)
      else if meth = m_password then send_auth_result srv username (password_result srv username m)
      else if meth = m_publickey then publickey_request env srv username service m
      else if meth = m_interactive then
        answer_verdict srv username (check_auth_interactive srv username (fst (get_string m)))
      else send_auth_result srv username (check_auth_none srv username))"

definition parse_userauth_request :: "auth_env \<Rightarrow> server_obj \<Rightarrow> message \<Rightarrow> (auth, unit) kprog" where
  "parse_userauth_request env srv m =
     seqp (gets id) (\<lambda>(t, k).
     if \<not> server_mode t then on_t (t_send [msg_byte MSG_USERAUTH_FAILURE, FText m_none, FBool False])
     else if a_authenticated k then ret ()
     else
       seqp (liftr (get_text m)) (\<lambda>(username, m).
       seqp (liftr (get_text m)) (\<lambda>(service, m).
       seqp (liftr (get_text m)) (\<lambda>(meth, m).
       if service \<noteq> ssh_connection then disconnect_service_not_available
       else if auth_username k \<noteq> None \<and> auth_username k \<noteq> Some username then disconnect_no_more_auth
       else
         seqp (upd_k (\<lambda>k. k\<lparr>auth_username := Some username\<rparr>)) (\<lambda>_.
         method_request env srv username service meth m)))))"

text \<open>The answers of a client to a query.\<close>

fun read_texts :: "nat \<Rightarrow> message \<Rightarrow> pystr list res" where
  "read_texts 0 m = Inr []"
| "read_texts (Suc n) m = bind_res (get_text m) (\<lambda>(x, m). bind_res (read_texts n m) (\<lambda>xs. Inr (x # xs)))"

text \<open>The name under which the result is reported can be \<open>None\<close>, which an application gets as such; it is \<open>[]\<close> here.\<close>

definition parse_info_response :: "server_obj \<Rightarrow> message \<Rightarrow> (auth, unit) kprog" where
  "parse_info_response srv m =
     seqp (gets id) (\<lambda>(t, k).
     if \<not> server_mode t then raise (SSHException ''Illegal info response from server'')
     else
       (let (n, m) = get_int m
        in seqp (liftr (read_texts (nat n) m)) (\<lambda>responses.
           answer_verdict srv (case auth_username k of None \<Rightarrow> [] | Some u \<Rightarrow> u)
             (check_auth_interactive_response srv responses))))"

section \<open>The client's handlers\<close>

definition parse_userauth_success :: "(auth, unit) kprog" where
  "parse_userauth_success =
     seqp (upd_k (\<lambda>k. k\<lparr>a_authenticated := True\<rparr>)) (\<lambda>_.
     seqp (on_t auth_trigger) (\<lambda>_. upd_k set_auth_event))"

definition parse_userauth_failure :: "message \<Rightarrow> (auth, unit) kprog" where
  "parse_userauth_failure m =
     seqp (liftr (get_list m)) (\<lambda>(authlist, m).
     let (part, m) = get_boolean m
     in seqp (upd_k (\<lambda>k. if part then k\<lparr>saved := Some (PartialAuthentication authlist)\<rparr>
                         else if a_method k \<notin> set authlist then k\<lparr>saved := Some (BadAuthenticationType authlist)\<rparr>
                         else k)) (\<lambda>_.
        upd_k (\<lambda>k. set_auth_event (k\<lparr>a_authenticated := False, a_username := None\<rparr>))))"

definition parse_userauth_banner :: "message \<Rightarrow> (auth, unit) kprog" where
  "parse_userauth_banner m = upd_k (\<lambda>k. k\<lparr>a_banner := Some (fst (get_string m))\<rparr>)"

fun read_prompts :: "nat \<Rightarrow> message \<Rightarrow> (pystr \<times> bool) list res" where
  "read_prompts 0 m = Inr []"
| "read_prompts (Suc n) m =
     bind_res (get_text m) (\<lambda>(p, m). let (echo, m) = get_boolean m in bind_res (read_prompts n m) (\<lambda>ps. Inr ((p, echo) # ps)))"

text \<open>\<open>handler\<close> is the application's interactive handler.\<close>

definition parse_info_request :: "(pystr \<Rightarrow> pystr \<Rightarrow> (pystr \<times> bool) list \<Rightarrow> pystr list res) \<Rightarrow> message \<Rightarrow> (auth, unit) kprog" where
  "parse_info_request handler m =
     seqp (gets snd) (\<lambda>k.
     if a_method k \<noteq> m_interactive then raise (SSHException ''Illegal info request from server'')
     else
       seqp (liftr (get_text m)) (\<lambda>(title, m).
       seqp (liftr (get_text m)) (\<lambda>(instructions, m).
       let (lang, m) = get_binary m; (n, m) = get_int m
       in seqp (liftr (read_prompts (nat n) m)) (\<lambda>prompts.
          seqp (liftr (handler title instructions prompts)) (\<lambda>responses.
          on_t (t_send ([msg_byte MSG_USERAUTH_INFO_RESPONSE, FInt (int (length responses))] @ map FText responses)))))))"

section \<open>The handler tables\<close>

text \<open>\<open>None\<close>: the type is not in the table. \<open>only\<close> is the table of \<open>AuthOnlyHandler\<close>.\<close>

definition server_handler :: "auth_env \<Rightarrow> server_obj \<Rightarrow> int \<Rightarrow> message \<Rightarrow> (auth, unit) kprog option" where
  "server_handler env srv ptype m =
     (if ptype = MSG_SERVICE_REQUEST then Some (parse_service_request srv m)
      else if ptype = MSG_USERAUTH_REQUEST then Some (parse_userauth_request env srv m)
      else if ptype = MSG_USERAUTH_INFO_RESPONSE then Some (parse_info_response srv m)
      else None)"

definition client_handler ::
  "auth_env \<Rightarrow> (pystr \<Rightarrow> pystr \<Rightarrow> (pystr \<times> bool) list \<Rightarrow> pystr list res) \<Rightarrow> bool \<Rightarrow> int \<Rightarrow> message \<Rightarrow> (auth, unit) kprog option" where
  "client_handler env handler only ptype m =
     (if ptype = MSG_SERVICE_ACCEPT then (if only then None else Some (parse_service_accept env m))
      else if ptype = MSG_USERAUTH_SUCCESS then Some parse_userauth_success
      else if ptype = MSG_USERAUTH_FAILURE then Some (parse_userauth_failure m)
      else if ptype = MSG_USERAUTH_BANNER then Some (parse_userauth_banner m)
      else if ptype = MSG_USERAUTH_INFO_REQUEST then Some (parse_info_request handler m)
      else None)"

section \<open>The sibling handler\<close>

text \<open>
  \<open>AuthOnlyHandler\<close> sends the request itself; \<open>finish\<close> is the callback that gives the fields of the method,
  or nothing. It is called after the generic fields were written and without looking whether it is there.
\<close>

definition send_auth_request ::
  "pystr \<Rightarrow> pystr \<Rightarrow> (auth, field list) kprog option \<Rightarrow> int option \<Rightarrow> ((transport \<times> auth \<Rightarrow> transport \<times> auth) \<times> int) list \<Rightarrow> (auth, pystr list) kprog" where
  "send_auth_request username meth finish max_ts ws =
     seqp (upd_k (\<lambda>k. k\<lparr>a_method := meth, a_username := Some username\<rparr>)) (\<lambda>_.
     seqp (liftr (compose (auth_request username meth []))) (\<lambda>_.
     seqp (case finish of None \<Rightarrow> raise TypeError | Some f \<Rightarrow> f) (\<lambda>fs.
     seqp (on_t (t_send (auth_request username meth fs))) (\<lambda>_.
     seqp (upd_k (\<lambda>k. k\<lparr>a_event := Some False\<rparr>)) (\<lambda>_. wait_for_response max_ts ws)))))"

definition only_none where
  "only_none username max_ts ws = send_auth_request username m_none None max_ts ws"

text \<open>The algorithm and the data to sign are found before, the signature is made in the callback.\<close>

definition only_publickey where
  "only_publickey env username key max_ts ws =
     seqp (finalize_pubkey_algorithm (fst (key_type_and_bits key))) (\<lambda>algorithm.
     seqp (gets fst) (\<lambda>t.
     seqp (liftr (session_blob key ssh_connection username algorithm t)) (\<lambda>blob.
     send_auth_request username m_publickey
       (Some (ret [FBool True, FText algorithm, FString (snd (key_type_and_bits key)), FString (sign_ssh_data env key blob algorithm)]))
       max_ts ws)))"

definition only_password where
  "only_password username password max_ts ws =
     send_auth_request username m_password
       (Some (seqp (liftr (b_cast password)) (\<lambda>pw. ret [FBool False, FString pw]))) max_ts ws"

text \<open>The method set here has an underscore; the request sets it again.\<close>

definition only_interactive where
  "only_interactive username submethods max_ts ws =
     seqp (upd_k (\<lambda>k. k\<lparr>a_method := lit ''keyboard_interactive''\<rparr>)) (\<lambda>_.
     send_auth_request username m_interactive (Some (ret [FText [], FText submethods])) max_ts ws)"

text \<open>So \<open>auth_none\<close> of this handler always raises, and sends nothing.\<close>

lemma only_none_never_sends: "\<exists>e k'. only_none username max_ts ws (t, k) = (Exn e, (t, k'))"
  by (cases "compose (auth_request username m_none [])")
    (auto simp: only_none_def send_auth_request_def upd_k_def seqp_def)

end
