(* ===== verification/Session.thy ===== *)
theory Session
  imports Auth_Handler
begin

text \<open>
  The rest of \<open>paramiko/transport.py\<close>: the channel table, the handlers of the transport's thread, its
  main loop, and the calls of user threads. A \<open>session\<close> is a transport with its key exchange
  method, authentication handler and channels. \<open>config\<close> holds what is outside of the program.
\<close>

section \<open>Key exchange methods by name\<close>

definition P14 :: int where
  "P14 = 0xFFFFFFFFFFFFFFFFC90FDAA22168C234C4C6628B80DC1CD129024E088A67CC74020BBEA63B139B22514A08798E3404DDEF9519B3CD3A431B302B0A6DF25F14374FE1356D6D51C245E485B576625E7EC6F44C42E9A637ED6B0BFF5CB6F406B7EDEE386BFB5A899FA5AE9F24117C4B1FE649286651ECE45B3DC2007CB8A163BF0598DA48361C55D39A69163FA8FD24CF5F83655D23DCA3AD961C62F356208552BB9ED529077096966D670C354E4ABC9804F1746C08CA18217C32905E462E36CE3BE39E772C180E86039B2783A2EC07A28FB5C55DF06F4C52C9DE2BCBF6955817183995497CEA956AE515D2261898FA051015728E5A8AACAA68FFFFFFFFFFFFFFFF"

definition P16 :: int where
  "P16 = 0xFFFFFFFFFFFFFFFFC90FDAA22168C234C4C6628B80DC1CD129024E088A67CC74020BBEA63B139B22514A08798E3404DDEF9519B3CD3A431B302B0A6DF25F14374FE1356D6D51C245E485B576625E7EC6F44C42E9A637ED6B0BFF5CB6F406B7EDEE386BFB5A899FA5AE9F24117C4B1FE649286651ECE45B3DC2007CB8A163BF0598DA48361C55D39A69163FA8FD24CF5F83655D23DCA3AD961C62F356208552BB9ED529077096966D670C354E4ABC9804F1746C08CA18217C32905E462E36CE3BE39E772C180E86039B2783A2EC07A28FB5C55DF06F4C52C9DE2BCBF6955817183995497CEA956AE515D2261898FA051015728E5A8AAAC42DAD33170D04507A33A85521ABDF1CBA64ECFB850458DBEF0A8AEA71575D060C7DB3970F85A6E1E4C7ABF5AE8CDB0933D71E8C94E04A25619DCEE3D2261AD2EE6BF12FFA06D98A0864D87602733EC86A64521F2B18177B200CBBE117577A615D6C770988C0BAD946E208E24FA074E5AB3143DB5BFCE0FD108E4B82D120A92108011A723C12A787E6D788719A10BDBA5B2699C327186AF4E23C1A946834B6150BDA2583E9CA2AD44CE8DBBBC2DB04DE8EF92E8EFC141FBECAA6287C59474E6BC05D99B2964FA090C3A2233BA186515BE7ED1F612970CEE2D7AFB81BDD762170481CD0069127D5B05AA993B4EA988D8FDDC186FFB7DC90A6C08F4DF435C934063199FFFFFFFFFFFFFFFF"

definition G14 :: int where "G14 = 2"

datatype kex_state = NoKex | Group int dh | Gex gex | Ec bool bytes

text \<open>\<open>_kex_info\<close>: the method object of a name; \<open>priv\<close> is the private key the library would generate.\<close>

definition new_kex :: "pystr \<Rightarrow> bytes \<Rightarrow> kex_state" where
  "new_kex nm priv =
     (if nm = lit ''diffie-hellman-group14-sha256'' then Group P14 new_dh
      else if nm = lit ''diffie-hellman-group16-sha512'' then Group P16 new_dh
      else if nm = lit ''diffie-hellman-group-exchange-sha256'' then Gex new_gex
      else if nm = lit ''curve25519-sha256@libssh.org'' then Ec True priv
      else Ec False priv)"

section \<open>State\<close>

record session =
  tr :: transport
  au :: auth
  kex :: kex_state
  chans :: "(int \<times> channel) list"
  seen :: "int list"
  channel_counter :: int
  channel_events :: "int list"
  set_events :: "int list"
  server_accepts :: "int list"
  global_response :: "message option"
  agent_handler :: bool
  x11_handler :: bool
  tcp_handler :: bool
  custom_handled :: "(pystr \<times> int) list"
  default_window :: int
  default_packet :: int
  service_accepted :: bool

text \<open>
  \<open>channel_events\<close> are the pending events by channel number, \<open>set_events\<close> those that were set.
  \<open>server_accepts\<close> holds channel numbers. A handler of the application is called by recording the
  channel in \<open>custom_handled\<close>, unless it is the default one (\<open>default_handlers\<close>), which queues it.
\<close>

record config =
  c_crypto :: crypto_env
  c_auth :: auth_env
  c_server :: server_obj
  c_interactive :: "pystr \<Rightarrow> pystr \<Rightarrow> (pystr \<times> bool) list \<Rightarrow> pystr list res"
  c_curve25519 :: bool
  c_private :: bytes
  c_auth_only :: bool
  default_handlers :: bool

type_synonym 'a sprog = "(session, 'a) prog"

definition new_session :: "transport \<Rightarrow> int \<Rightarrow> int \<Rightarrow> session" where
  "new_session t window pkt =
     \<lparr>tr = t, au = new_auth, kex = NoKex, chans = [], seen = [], channel_counter = 0, channel_events = [], set_events = [],
      server_accepts = [], global_response = None, agent_handler = False, x11_handler = False, tcp_handler = False,
      custom_handled = [], default_window = window, default_packet = pkt, service_accepted = False\<rparr>"

definition on_tr :: "(transport, 'a) prog \<Rightarrow> 'a sprog" where
  "on_tr p s = (case p (tr s) of (r, t) \<Rightarrow> (r, s\<lparr>tr := t\<rparr>))"

definition on_au :: "(auth, 'a) kprog \<Rightarrow> 'a sprog" where
  "on_au p s = (case p (tr s, au s) of (r, (t, k)) \<Rightarrow> (r, s\<lparr>tr := t, au := k\<rparr>))"

definition s_send :: "field list \<Rightarrow> unit sprog" where
  "s_send fs = on_tr (t_send fs)"

section \<open>The channel table\<close>

text \<open>\<open>ChannelMap\<close>; its values are weak references, and the model keeps every channel alive.\<close>

definition chan_get :: "int \<Rightarrow> session \<Rightarrow> channel option" where
  "chan_get cid s = map_of (chans s) cid"

definition chan_put :: "int \<Rightarrow> channel \<Rightarrow> session \<Rightarrow> session" where
  "chan_put cid c s = s\<lparr>chans := AList.update cid c (chans s)\<rparr>"

definition chan_delete :: "int \<Rightarrow> session \<Rightarrow> session" where
  "chan_delete cid s = s\<lparr>chans := AList.delete cid (chans s)\<rparr>"

text \<open>
  \<open>_next_channel\<close>: the first free number from the counter on, modulo 2 to the 24. The loop passes
  over as many numbers as there are channels at most; when all numbers are taken it does not end.
\<close>

fun free_channel :: "nat \<Rightarrow> int \<Rightarrow> session \<Rightarrow> int option" where
  "free_channel 0 n s = None"
| "free_channel (Suc fuel) n s =
     (if chan_get n s = None then Some n else free_channel fuel ((n + 1) AND 0xFFFFFF) s)"

definition next_channel :: "int sprog" where
  "next_channel s =
     (case free_channel (Suc (length (chans s))) (channel_counter s) s of
        None \<Rightarrow> (Blocked, s)
      | Some n \<Rightarrow> (Ret n, s\<lparr>channel_counter := (n + 1) AND 0xFFFFFF\<rparr>))"

text \<open>
  \<open>_send_user_message\<close> called by the transport's own thread: it would wait for an event that only this
  thread sets, so when a key exchange is going on the wait times out.
\<close>

definition thread_send :: "field list \<Rightarrow> unit sprog" where
  "thread_send fs =
     seqp (gets tr) (\<lambda>t.
     if \<not> active t then ret ()
     else if clear_to_send t then s_send fs
     else raise (SSHException ''Key-exchange timed out waiting for key negotiation''))"

fun thread_sends :: "field list list \<Rightarrow> unit sprog" where
  "thread_sends [] = ret ()"
| "thread_sends (m # ms) = seqp (thread_send m) (\<lambda>_. thread_sends ms)"

text \<open>
  A method of a channel in the transport's thread: what it queued is sent, and a channel that has
  unlinked itself leaves the table.
\<close>

definition store_chan :: "int \<Rightarrow> channel \<Rightarrow> session \<Rightarrow> session" where
  "store_chan cid c s = (if linked c then chan_put cid (c\<lparr>outbox := []\<rparr>) s else chan_delete cid s)"

definition on_chan :: "int \<Rightarrow> channel \<Rightarrow> (channel, unit) prog \<Rightarrow> unit sprog" where
  "on_chan cid c p =
     (case p c of (r, c') \<Rightarrow>
        seqp (modify (store_chan cid c')) (\<lambda>_. seqp (thread_sends (outbox c')) (\<lambda>_. \<lambda>s. (r, s))))"

section \<open>Before the first packet\<close>

text \<open>\<open>_check_banner\<close> on the lines read so far, at most 100 of them.\<close>

definition ssh_prefix :: pystr where "ssh_prefix = lit ''SSH-''"

definition check_version :: "pystr \<Rightarrow> (transport, unit) prog" where
  "check_version line =
     seqp (modify (\<lambda>t. t\<lparr>remote_version := line\<rparr>)) (\<lambda>_.
     let banner = takeWhile (\<lambda>c. c \<noteq> of_char (CHR '' '')) line; segs = split_on (of_char (CHR ''-'')) banner
     in if length segs < 3 then raise (SSHException ''Invalid SSH banner'')
        else if segs ! 1 \<noteq> lit ''1.99'' \<and> segs ! 1 \<noteq> lit ''2.0'' then raise (IncompatiblePeer ''Incompatible version'')
        else ret ())"

fun check_banner :: "nat \<Rightarrow> pystr res list \<Rightarrow> (transport, unit) prog" where
  "check_banner n [] = (\<lambda>t. (Blocked, t))"
| "check_banner n (Inl e # ls) =
     (if e = SSHException ''ProxyCommandFailure'' then raise e else raise (SSHException ''Error reading SSH protocol banner''))"
| "check_banner n (Inr line # ls) =
     (if take 4 line = ssh_prefix then check_version line
      else if n \<le> 1 then raise (SSHException ''Indecipherable protocol version'')
      else check_banner (n - 1) ls)"

text \<open>The methods of the key exchange's object.\<close>

definition start_method :: "config \<Rightarrow> kex_state \<Rightarrow> unit sprog" where
  "start_method cfg k s =
     (case k of
        NoKex \<Rightarrow> (Exn AttributeError, s)
      | Group P k \<Rightarrow> (case group_start P G14 (tr s, k) of (r, (t, k)) \<Rightarrow> (r, s\<lparr>tr := t, kex := Group P k\<rparr>))
      | Gex k \<Rightarrow> (case gex_start False (tr s, k) of (r, (t, k)) \<Rightarrow> (r, s\<lparr>tr := t, kex := Gex k\<rparr>))
      | Ec mont priv \<Rightarrow> (case ec_start (c_crypto cfg) priv (tr s, []) of (r, (t, k)) \<Rightarrow> (r, s\<lparr>tr := t, kex := Ec mont k\<rparr>)))"

definition next_method :: "config \<Rightarrow> int \<Rightarrow> message \<Rightarrow> kex_state \<Rightarrow> unit sprog" where
  "next_method cfg ptype m k s =
     (case k of
        NoKex \<Rightarrow> (Exn AttributeError, s)
      | Group P k \<Rightarrow> (case group_parse_next (c_crypto cfg) P ptype m (tr s, k) of (r, (t, k)) \<Rightarrow> (r, s\<lparr>tr := t, kex := Group P k\<rparr>))
      | Gex k \<Rightarrow> (case gex_parse_next (c_crypto cfg) ptype m (tr s, k) of (r, (t, k)) \<Rightarrow> (r, s\<lparr>tr := t, kex := Gex k\<rparr>))
      | Ec mont k \<Rightarrow> (case ec_parse_next (c_crypto cfg) mont ptype m (tr s, k) of (r, (t, k)) \<Rightarrow> (r, s\<lparr>tr := t, kex := Ec mont k\<rparr>)))"

definition start_kex :: "config \<Rightarrow> unit sprog" where
  "start_kex cfg = seqp (gets (\<lambda>s. engine_name (tr s))) (\<lambda>nm. start_method cfg (new_kex nm (c_private cfg)))"

definition kex_next :: "config \<Rightarrow> int \<Rightarrow> message \<Rightarrow> unit sprog" where
  "kex_next cfg ptype m s =
     (if kex_engine (tr s) = None then (Exn AttributeError, s) else next_method cfg ptype m (kex s) s)"

definition negotiate_keys :: "config \<Rightarrow> int \<Rightarrow> message \<Rightarrow> unit sprog" where
  "negotiate_keys cfg seqno m =
     seqp (on_tr (modify (\<lambda>t. t\<lparr>clear_to_send := False\<rparr>))) (\<lambda>_.
     seqp (gets tr) (\<lambda>t.
     seqp (if local_kex_init t = None then on_tr (send_kex_init (c_curve25519 cfg)) else ret ()) (\<lambda>_.
     seqp (on_tr (parse_kex_init seqno m)) (\<lambda>_. start_kex cfg))))"

section \<open>Global requests\<close>

definition parse_disconnect :: "message \<Rightarrow> unit sprog" where
  "parse_disconnect m = (let (code, m) = get_int m in seqp (liftr (get_text m)) (\<lambda>_. ret ()))"

definition parse_debug :: "message \<Rightarrow> unit sprog" where
  "parse_debug m = ret ()"

text \<open>The answer to a request: \<open>None\<close> is a refusal, \<open>Some fs\<close> an acceptance with extra fields.\<close>

definition decide_global :: "config \<Rightarrow> bool \<Rightarrow> pystr \<Rightarrow> message \<Rightarrow> field list option res" where
  "decide_global cfg server kind m =
     (if \<not> server then Inr None
      else if kind = lit ''tcpip-forward'' then
        bind_res (get_text m) (\<lambda>(address, m).
        Inr (map_option (\<lambda>f. [f]) (check_port_forward_request (c_server cfg) address (fst (get_int m)))))
      else if kind = lit ''cancel-tcpip-forward'' then bind_res (get_text m) (\<lambda>_. Inr (Some []))
      else Inr (check_global_request (c_server cfg) kind m))"

definition parse_global_request :: "config \<Rightarrow> message \<Rightarrow> unit sprog" where
  "parse_global_request cfg m =
     seqp (liftr (get_text m)) (\<lambda>(kind, m).
     let (want_reply, m) = get_boolean m
     in seqp (gets tr) (\<lambda>t.
        seqp (liftr (decide_global cfg (server_mode t) kind m)) (\<lambda>ok.
        if want_reply then
          s_send (case ok of Some extra \<Rightarrow> msg_byte MSG_REQUEST_SUCCESS # extra | None \<Rightarrow> [msg_byte MSG_REQUEST_FAILURE])
        else ret ())))"

definition parse_request_success :: "message \<Rightarrow> unit sprog" where
  "parse_request_success m = modify (\<lambda>s. s\<lparr>global_response := Some m, tr := set_completion (tr s)\<rparr>)"

definition parse_request_failure :: "message \<Rightarrow> unit sprog" where
  "parse_request_failure m = modify (\<lambda>s. s\<lparr>global_response := None, tr := set_completion (tr s)\<rparr>)"

section \<open>Opening channels\<close>

definition fire_event :: "int \<Rightarrow> session \<Rightarrow> session" where
  "fire_event cid s =
     (if cid \<in> set (channel_events s)
      then s\<lparr>set_events := cid # set_events s, channel_events := removeAll cid (channel_events s)\<rparr> else s)"

definition parse_channel_open_success :: "message \<Rightarrow> unit sprog" where
  "parse_channel_open_success m =
     (let (cid, m) = get_int m; (server_chanid, m) = get_int m; (window, m) = get_int m; (pkt, m) = get_int m
      in seqp (gets (chan_get cid)) (\<lambda>c.
         case c of
           None \<Rightarrow> ret ()
         | Some c \<Rightarrow> seqp (on_chan cid c (set_remote_channel server_chanid window pkt)) (\<lambda>_. modify (fire_event cid))))"

definition parse_channel_open_failure :: "message \<Rightarrow> unit sprog" where
  "parse_channel_open_failure m =
     (let (cid, m) = get_int m; (reason, m) = get_int m
      in seqp (liftr (get_text m)) (\<lambda>(reason_str, m).
         seqp (liftr (get_text m)) (\<lambda>_.
         modify (\<lambda>s.
           let s = s\<lparr>au := (au s)\<lparr>saved := Some (ChannelException reason)\<rparr>\<rparr>
           in if cid \<in> set (channel_events s) then fire_event cid (chan_delete cid s) else s))))"

datatype open_kind = AgentChannel | X11Channel | ForwardedChannel | OtherChannel

text \<open>What becomes of a request: the reason of the refusal, or the number of the new channel.\<close>

definition host_port :: "message \<Rightarrow> ((pystr \<times> int) \<times> message) res" where
  "host_port m = bind_res (get_text m) (\<lambda>(host, m). let (port, m) = get_int m in Inr ((host, port), m))"

definition server_decides :: "config \<Rightarrow> pystr \<Rightarrow> int \<Rightarrow> message \<Rightarrow> int res" where
  "server_decides cfg kind cid m =
     (if kind = lit ''direct-tcpip'' then
        bind_res (host_port m) (\<lambda>(dest, m). bind_res (host_port m) (\<lambda>(origin, m).
        Inr (check_channel_direct_tcpip_request (c_server cfg) cid origin dest)))
      else Inr (check_channel_request (c_server cfg) kind cid))"

definition open_decision :: "config \<Rightarrow> pystr \<Rightarrow> message \<Rightarrow> (int + open_kind \<times> int) sprog" where
  "open_decision cfg kind m =
     seqp (gets id) (\<lambda>s.
     if kind = lit ''auth-agent@openssh.com'' \<and> agent_handler s then
       seqp next_channel (\<lambda>cid. ret (Inr (AgentChannel, cid)))
     else if kind = lit ''x11'' \<and> x11_handler s then
       seqp (liftr (host_port m)) (\<lambda>_. seqp next_channel (\<lambda>cid. ret (Inr (X11Channel, cid))))
     else if kind = lit ''forwarded-tcpip'' \<and> tcp_handler s then
       seqp (liftr (bind_res (host_port m) (\<lambda>(_, m). host_port m))) (\<lambda>_.
       seqp next_channel (\<lambda>cid. ret (Inr (ForwardedChannel, cid))))
     else if \<not> server_mode (tr s) then ret (Inl OPEN_FAILED_ADMINISTRATIVELY_PROHIBITED)
     else
       seqp next_channel (\<lambda>cid.
       seqp (liftr (server_decides cfg kind cid m)) (\<lambda>reason.
       ret (if reason \<noteq> OPEN_SUCCEEDED then Inl reason else Inr (OtherChannel, cid)))))"

text \<open>The new channel, as it is put into the table.\<close>

definition accepted_channel :: "int \<Rightarrow> int \<Rightarrow> int \<Rightarrow> int \<Rightarrow> session \<Rightarrow> channel" where
  "accepted_channel cid remote window pkt s =
     snd (seqp set_transport (\<lambda>_. seqp (set_window (default_window s) (default_packet s)) (\<lambda>_.
       set_remote_channel remote window pkt)) ((new_channel cid [])\<lparr>linked := True\<rparr>))"

text \<open>
  After the opening the channel goes to a handler. A server may have accepted one of the first three
  kinds without a handler for it: then \<open>None\<close> is called, or the address it would be given is not bound.
\<close>

definition hand_over :: "config \<Rightarrow> pystr \<Rightarrow> int \<Rightarrow> unit sprog" where
  "hand_over cfg kind cid =
     seqp (gets id) (\<lambda>s.
     let custom = (kind = lit ''auth-agent@openssh.com'' \<or> kind = lit ''x11'' \<or> kind = lit ''forwarded-tcpip'');
         present = (if kind = lit ''auth-agent@openssh.com'' then agent_handler s
                    else if kind = lit ''x11'' then x11_handler s else tcp_handler s)
     in if custom \<and> \<not> present
        then raise (if kind = lit ''auth-agent@openssh.com'' then TypeError else UnboundLocalError)
        else if custom \<and> \<not> default_handlers cfg then modify (\<lambda>s. s\<lparr>custom_handled := custom_handled s @ [(kind, cid)]\<rparr>)
        else modify (\<lambda>s. s\<lparr>server_accepts := server_accepts s @ [cid]\<rparr>))"

definition parse_channel_open :: "config \<Rightarrow> message \<Rightarrow> unit sprog" where
  "parse_channel_open cfg m =
     seqp (liftr (get_text m)) (\<lambda>(kind, m).
     let (remote, m) = get_int m; (window, m) = get_int m; (pkt, m) = get_int m
     in seqp (open_decision cfg kind m) (\<lambda>d.
        case d of
          Inl reason \<Rightarrow> s_send [msg_byte MSG_CHANNEL_OPEN_FAILURE, FInt remote, FInt reason, FText [], FText (lit ''en'')]
        | Inr (_, cid) \<Rightarrow>
            seqp (modify (\<lambda>s. (chan_put cid (accepted_channel cid remote window pkt s) s)\<lparr>seen := cid # seen s\<rparr>)) (\<lambda>_.
            seqp (gets id) (\<lambda>s.
            seqp (s_send [msg_byte MSG_CHANNEL_OPEN_SUCCESS, FInt remote, FInt cid, FInt (default_window s), FInt (default_packet s)]) (\<lambda>_.
            hand_over cfg kind cid)))))"

section \<open>Dispatch\<close>

definition enforce_strict_kex :: "int \<Rightarrow> unit sprog" where
  "enforce_strict_kex ptype =
     seqp (gets tr) (\<lambda>t. if agreed_on_strict_kex t \<and> \<not> initial_kex_done t then raise MessageOrderError else ret ())"

definition is_authenticated :: "session \<Rightarrow> bool" where
  "is_authenticated s \<longleftrightarrow> active (tr s) \<and> has_auth_handler (tr s) \<and> a_authenticated (au s)"

text \<open>
  \<open>_ensure_authed\<close>: \<open>None\<close> lets the message pass, \<open>Some fs\<close> is the answer instead. For the types
  without an answer it is an empty message, on which the packetizer fails (it looks at the first byte).
\<close>

definition ensure_authed :: "int \<Rightarrow> message \<Rightarrow> session \<Rightarrow> field list option res" where
  "ensure_authed ptype m s =
     (if \<not> server_mode (tr s) \<or> ptype \<le> HIGHEST_USERAUTH_MESSAGE_ID \<or> is_authenticated s then Inr None
      else if ptype = MSG_GLOBAL_REQUEST then Inr (Some [msg_byte MSG_REQUEST_FAILURE])
      else if ptype = MSG_CHANNEL_OPEN then
        bind_res (get_text m) (\<lambda>(kind, m). let (cid, m) = get_int m
          in Inr (Some [msg_byte MSG_CHANNEL_OPEN_FAILURE, FInt cid, FInt OPEN_FAILED_ADMINISTRATIVELY_PROHIBITED,
             FText [], FText (lit ''en'')]))
      else Inr (Some []))"

text \<open>\<open>ServiceRequestingTransport._parse_service_accept\<close>.\<close>

definition note_service_accept :: "message \<Rightarrow> unit sprog" where
  "note_service_accept m =
     seqp (liftr (get_text m)) (\<lambda>(service, m).
     if service \<noteq> ssh_userauth then ret () else modify (\<lambda>s. s\<lparr>service_accepted := True\<rparr>))"

text \<open>\<open>_handler_table\<close>; the service is accepted by a \<open>ServiceRequestingTransport\<close> itself.\<close>

definition transport_handler :: "config \<Rightarrow> int \<Rightarrow> int \<Rightarrow> message \<Rightarrow> unit sprog option" where
  "transport_handler cfg seqno ptype m =
     (if ptype = MSG_EXT_INFO then Some (on_tr (parse_ext_info m))
      else if ptype = MSG_NEWKEYS then Some (on_tr (parse_newkeys (c_crypto cfg)))
      else if ptype = MSG_GLOBAL_REQUEST then Some (parse_global_request cfg m)
      else if ptype = MSG_REQUEST_SUCCESS then Some (parse_request_success m)
      else if ptype = MSG_REQUEST_FAILURE then Some (parse_request_failure m)
      else if ptype = MSG_CHANNEL_OPEN_SUCCESS then Some (parse_channel_open_success m)
      else if ptype = MSG_CHANNEL_OPEN_FAILURE then Some (parse_channel_open_failure m)
      else if ptype = MSG_CHANNEL_OPEN then Some (parse_channel_open cfg m)
      else if ptype = MSG_KEXINIT then Some (negotiate_keys cfg seqno m)
      else if ptype = MSG_SERVICE_ACCEPT \<and> c_auth_only cfg then Some (note_service_accept m)
      else None)"

text \<open>\<open>_channel_handler_table\<close>.\<close>

definition channel_handler :: "config \<Rightarrow> bool \<Rightarrow> int \<Rightarrow> int \<Rightarrow> message \<Rightarrow> (channel, unit) prog option" where
  "channel_handler cfg server cid ptype m =
     (if ptype = MSG_CHANNEL_SUCCESS then Some request_success
      else if ptype = MSG_CHANNEL_FAILURE then Some request_failed
      else if ptype = MSG_CHANNEL_DATA then Some (ch_feed m)
      else if ptype = MSG_CHANNEL_EXTENDED_DATA then Some (feed_extended m)
      else if ptype = MSG_CHANNEL_WINDOW_ADJUST then Some (window_adjust m)
      else if ptype = MSG_CHANNEL_REQUEST then
        Some (handle_request (if server then Some (check_channel_action (c_server cfg) cid) else None) m)
      else if ptype = MSG_CHANNEL_EOF then Some handle_eof
      else if ptype = MSG_CHANNEL_CLOSE then Some handle_close
      else None)"

definition auth_handler_of :: "config \<Rightarrow> bool \<Rightarrow> int \<Rightarrow> message \<Rightarrow> (auth, unit) kprog option" where
  "auth_handler_of cfg server ptype m =
     (if server then server_handler (c_auth cfg) (c_server cfg) ptype m
      else client_handler (c_auth cfg) (c_interactive cfg) (c_auth_only cfg) ptype m)"

text \<open>\<open>MSG_NAMES\<close>: the types that have a name.\<close>

definition named_types :: "int list" where
  "named_types = [1 .. 7] @ [20, 21] @ [30 .. 34] @ [40, 41] @ [50 .. 53] @ [60, 61, 63, 64, 65, 66] @ [80 .. 82] @ [90 .. 100]"

text \<open>One turn of the loop for a packet: does the loop go on?\<close>

definition unhandled :: "int \<Rightarrow> int \<Rightarrow> unit sprog" where
  "unhandled seqno ptype =
     (if ptype \<notin> set named_types then raise KeyError
      else if ptype \<noteq> MSG_UNIMPLEMENTED then s_send [msg_byte MSG_UNIMPLEMENTED, FInt seqno]
      else ret ())"

definition finish_turn :: "bool sprog" where
  "finish_turn = seqp (on_tr (call CompleteHandshake)) (\<lambda>_. ret True)"

definition channel_message :: "config \<Rightarrow> int \<Rightarrow> message \<Rightarrow> bool sprog" where
  "channel_message cfg ptype m =
     (let (cid, m) = get_int m
      in seqp (gets id) (\<lambda>s.
         case chan_get cid s of
           Some c \<Rightarrow>
             (case channel_handler cfg (server_mode (tr s)) cid ptype m of
                None \<Rightarrow> raise KeyError
              | Some p \<Rightarrow> seqp (on_chan cid c p) (\<lambda>_. finish_turn))
         | None \<Rightarrow> if cid \<in> set (seen s) then finish_turn else ret False))"

definition is_channel_type :: "int \<Rightarrow> bool" where
  "is_channel_type ptype \<longleftrightarrow> ptype \<in> {MSG_CHANNEL_SUCCESS, MSG_CHANNEL_FAILURE, MSG_CHANNEL_DATA, MSG_CHANNEL_EXTENDED_DATA,
     MSG_CHANNEL_WINDOW_ADJUST, MSG_CHANNEL_REQUEST, MSG_CHANNEL_EOF, MSG_CHANNEL_CLOSE}"

definition dispatch :: "config \<Rightarrow> int \<Rightarrow> int \<Rightarrow> message \<Rightarrow> bool sprog" where
  "dispatch cfg seqno ptype m =
     seqp (gets id) (\<lambda>s.
     case transport_handler cfg seqno ptype m of
       Some p \<Rightarrow>
         seqp (liftr (ensure_authed ptype m s)) (\<lambda>e.
         seqp (case e of None \<Rightarrow> p | Some [] \<Rightarrow> raise IndexError | Some reply \<Rightarrow> s_send reply) (\<lambda>_. finish_turn))
     | None \<Rightarrow>
         if is_channel_type ptype then channel_message cfg ptype m
         else
           (case (if has_auth_handler (tr s) then auth_handler_of cfg (server_mode (tr s)) ptype m else None) of
              Some p \<Rightarrow>
                seqp (on_au p) (\<lambda>_.
                seqp (gets tr) (\<lambda>t. if expected_packet t \<noteq> [] then ret True else finish_turn))
            | None \<Rightarrow> seqp (unhandled seqno ptype) (\<lambda>_. finish_turn)))"

text \<open>The order of packets while one is expected.\<close>

definition after_expected :: "config \<Rightarrow> int \<Rightarrow> int \<Rightarrow> message \<Rightarrow> bool sprog" where
  "after_expected cfg seqno ptype m =
     seqp (gets tr) (\<lambda>t.
     if expected_packet t = [] then dispatch cfg seqno ptype m
     else if ptype \<notin> set (expected_packet t)
     then raise (if agreed_on_strict_kex t then MessageOrderError else SSHException ''Expecting packet'')
     else
       seqp (on_tr (modify (\<lambda>t. t\<lparr>expected_packet := []\<rparr>))) (\<lambda>_.
       if 30 \<le> ptype \<and> ptype \<le> 41 then seqp (kex_next cfg ptype m) (\<lambda>_. ret True)
       else dispatch cfg seqno ptype m))"

definition turn :: "config \<Rightarrow> int \<Rightarrow> int \<Rightarrow> message \<Rightarrow> bool sprog" where
  "turn cfg seqno ptype m =
     (if ptype = MSG_IGNORE then seqp (enforce_strict_kex ptype) (\<lambda>_. ret True)
      else if ptype = MSG_DISCONNECT then seqp (parse_disconnect m) (\<lambda>_. ret False)
      else if ptype = MSG_DEBUG then
        seqp (enforce_strict_kex ptype) (\<lambda>_. seqp (parse_debug m) (\<lambda>_. ret True))
      else after_expected cfg seqno ptype m)"

section \<open>The thread\<close>

text \<open>
  What \<open>read_message\<close> gives: a packet, or \<open>NeedRekeyException\<close> (a turn without a packet). Between two
  packets other threads work on the session. When the packets run out the thread waits for the next.
\<close>

datatype incoming = Packet int int message | RekeyNeeded | Other "session \<Rightarrow> session"

definition rekey_turn :: "config \<Rightarrow> unit sprog" where
  "rekey_turn cfg =
     seqp (gets tr) (\<lambda>t. if need_rekey t \<and> \<not> in_kex t then on_tr (send_kex_init (c_curve25519 cfg)) else ret ())"

fun thread_loop :: "config \<Rightarrow> incoming list \<Rightarrow> unit sprog" where
  "thread_loop cfg [] s = (Blocked, s)"
| "thread_loop cfg (Other f # ins) s = thread_loop cfg ins (f s)"
| "thread_loop cfg (RekeyNeeded # ins) s =
     (if \<not> active (tr s) then (Ret (), s)
      else case rekey_turn cfg s of (Ret _, s) \<Rightarrow> thread_loop cfg ins s | (Exn e, s) \<Rightarrow> (Exn e, s) | (Blocked, s) \<Rightarrow> (Blocked, s))"
| "thread_loop cfg (Packet seqno ptype m # ins) s =
     (if \<not> active (tr s) then (Ret (), s)
      else case seqp (rekey_turn cfg) (\<lambda>_. turn cfg seqno ptype m) s of
             (Ret True, s) \<Rightarrow> thread_loop cfg ins s
           | (Ret False, s) \<Rightarrow> (Ret (), s)
           | (Exn e, s) \<Rightarrow> (Exn e, s)
           | (Blocked, s) \<Rightarrow> (Blocked, s))"

text \<open>
  \<open>_unlink\<close> on every channel: an open one is closed and leaves the table, one that is closed already
  is left as it is.
\<close>

definition unlink_all :: "session \<Rightarrow> session" where
  "unlink_all s = s\<lparr>chans := filter (\<lambda>(cid, c). ch_closed c) (chans s)\<rparr>"

text \<open>The end of the thread: the channels are unlinked and every waiter woken.\<close>

definition shut_down :: "session \<Rightarrow> session" where
  "shut_down s =
     (let s = unlink_all s
      in if active (tr s)
         then s\<lparr>tr := snd (call ClosePacketizer (set_completion ((tr s)\<lparr>active := False\<rparr>))),
                au := (if has_auth_handler (tr s) then set_auth_event (au s) else au s),
                set_events := channel_events s @ set_events s\<rparr>
         else s)"

definition run_thread :: "config \<Rightarrow> incoming list \<Rightarrow> unit sprog" where
  "run_thread cfg ins s =
     (case thread_loop cfg ins s of
        (Ret _, s) \<Rightarrow> (Ret (), shut_down s)
      | (Exn e, s) \<Rightarrow> (Ret (), shut_down (s\<lparr>au := (au s)\<lparr>saved := Some e\<rparr>\<rparr>))
      | (Blocked, s) \<Rightarrow> (Blocked, s))"

definition begin_thread :: "config \<Rightarrow> pystr res list \<Rightarrow> unit sprog" where
  "begin_thread cfg banner =
     seqp (gets tr) (\<lambda>t.
     seqp (liftr (utf8_encode (local_version t @ [13, 10]))) (\<lambda>b.
     seqp (on_tr (call (WriteAll b))) (\<lambda>_.
     seqp (on_tr (check_banner 100 banner)) (\<lambda>_.
     seqp (on_tr (call StartHandshake)) (\<lambda>_.
     seqp (on_tr (send_kex_init (c_curve25519 cfg))) (\<lambda>_. on_tr (expect_packet [MSG_KEXINIT])))))))"

end
