(* ===== verification/Session_Calls.thy ===== *)
theory Session_Calls
  imports Session
begin

text \<open>
  The methods of \<open>Transport\<close> that user threads call: starting, opening channels, global requests,
  authentication. A thread that waits is given the list of its wake-ups, each what the other
  threads did meanwhile and the clock after it; with none left it still waits.
\<close>

type_synonym wakeups = "((session \<Rightarrow> session) \<times> int) list"

section \<open>Waiting\<close>

definition exception_of :: "py_error option sprog" where
  "exception_of = on_au take_exception"

text \<open>The saved exception, or another one.\<close>

definition raise_saved :: "string \<Rightarrow> 'a sprog" where
  "raise_saved msg = seqp exception_of (\<lambda>e. raise (case e of Some e \<Rightarrow> e | None \<Rightarrow> SSHException msg))"

text \<open>The loops of \<open>start_client\<close>, \<open>start_server\<close> and \<open>renegotiate_keys\<close>.\<close>

fun wait_negotiated :: "int option \<Rightarrow> wakeups \<Rightarrow> unit sprog" where
  "wait_negotiated deadline [] s = (Blocked, s)"
| "wait_negotiated deadline ((f, now) # ws) s =
     (let s = f s
      in if \<not> active (tr s) then raise_saved ''Negotiation failed.'' s
         else if completion_event (tr s) = Some True \<or> (case deadline of None \<Rightarrow> False | Some d \<Rightarrow> d \<le> now) then (Ret (), s)
         else wait_negotiated deadline ws s)"

definition start_client :: "int option \<Rightarrow> wakeups \<Rightarrow> unit sprog" where
  "start_client deadline ws =
     seqp (on_tr (modify (\<lambda>t. t\<lparr>active := True, completion_event := Some False\<rparr>))) (\<lambda>_. wait_negotiated deadline ws)"

definition start_server :: "wakeups \<Rightarrow> unit sprog" where
  "start_server ws =
     seqp (on_tr (modify (\<lambda>t. t\<lparr>server_mode := True, active := True, completion_event := Some False\<rparr>))) (\<lambda>_. wait_negotiated None ws)"

definition renegotiate_keys :: "config \<Rightarrow> wakeups \<Rightarrow> unit sprog" where
  "renegotiate_keys cfg ws =
     seqp (on_tr (modify (\<lambda>t. t\<lparr>completion_event := Some False\<rparr>))) (\<lambda>_.
     seqp (on_tr (send_kex_init (c_curve25519 cfg))) (\<lambda>_. wait_negotiated None ws))"

text \<open>
  \<open>_send_user_message\<close>: \<open>False\<close> when the message is dropped because the connection is dead. \<open>ws\<close> is
  split at the return: the rest is for the caller's own wait.
\<close>

fun wait_clear :: "int \<Rightarrow> wakeups \<Rightarrow> session \<Rightarrow> bool outcome \<times> session \<times> wakeups" where
  "wait_clear deadline [] s = (Blocked, s, [])"
| "wait_clear deadline ((f, now) # ws) s =
     (let s = f s
      in if \<not> active (tr s) then (Ret False, s, ws)
         else if clear_to_send (tr s) then (Ret True, s, ws)
         else if deadline < now then (Exn (SSHException ''Key-exchange timed out waiting for key negotiation''), s, ws)
         else wait_clear deadline ws s)"

definition user_send :: "int \<Rightarrow> field list \<Rightarrow> wakeups \<Rightarrow> wakeups sprog" where
  "user_send deadline fs ws s =
     (case wait_clear deadline ws s of
        (Ret go, s, ws) \<Rightarrow> seqp (if go then s_send fs else ret ()) (\<lambda>_. ret ws) s
      | (Exn e, s, ws) \<Rightarrow> (Exn e, s)
      | (Blocked, s, ws) \<Rightarrow> (Blocked, s))"

section \<open>Channels\<close>

definition sanitize_window :: "session \<Rightarrow> int option \<Rightarrow> int" where
  "sanitize_window s w = clamp_value MIN_WINDOW_SIZE (case w of None \<Rightarrow> default_window s | Some w \<Rightarrow> w) MAX_WINDOW_SIZE"

definition sanitize_packet :: "session \<Rightarrow> int option \<Rightarrow> int" where
  "sanitize_packet s p = clamp_value MIN_PACKET_SIZE (case p of None \<Rightarrow> default_packet s | Some p \<Rightarrow> p) MAX_WINDOW_SIZE"

text \<open>The addresses are needed for the kinds that send them.\<close>

definition open_fields :: "pystr \<Rightarrow> (pystr \<times> int) option \<Rightarrow> (pystr \<times> int) option \<Rightarrow> field list res" where
  "open_fields kind dest src =
     (if kind = lit ''forwarded-tcpip'' \<or> kind = lit ''direct-tcpip'' then
        bind_res (need dest) (\<lambda>d. bind_res (need src) (\<lambda>s. Inr [FText (fst d), FInt (snd d), FText (fst s), FInt (snd s)]))
      else if kind = lit ''x11'' then bind_res (need src) (\<lambda>s. Inr [FText (fst s), FInt (snd s)])
      else Inr [])"

definition requested_channel :: "int \<Rightarrow> int \<Rightarrow> int \<Rightarrow> channel" where
  "requested_channel cid window pkt =
     snd (seqp set_transport (\<lambda>_. set_window window pkt) ((new_channel cid [])\<lparr>linked := True\<rparr>))"

definition register_channel :: "int \<Rightarrow> int \<Rightarrow> int \<Rightarrow> session \<Rightarrow> session" where
  "register_channel cid window pkt s =
     (chan_put cid (requested_channel cid window pkt) s)
       \<lparr>channel_events := cid # removeAll cid (channel_events s), set_events := removeAll cid (set_events s), seen := cid # seen s\<rparr>"

fun wait_opened :: "int \<Rightarrow> int \<Rightarrow> wakeups \<Rightarrow> unit sprog" where
  "wait_opened deadline cid [] s = (Blocked, s)"
| "wait_opened deadline cid ((f, now) # ws) s =
     (let s = f s
      in if \<not> active (tr s) then raise_saved ''Unable to open channel.'' s
         else if cid \<in> set (set_events s) then (Ret (), s)
         else if deadline < now then (Exn (SSHException ''Timeout opening channel.''), s)
         else wait_opened deadline cid ws s)"

definition open_message :: "pystr \<Rightarrow> int \<Rightarrow> int \<Rightarrow> int \<Rightarrow> field list \<Rightarrow> field list" where
  "open_message kind cid window pkt fs =
     [msg_byte MSG_CHANNEL_OPEN, FText kind, FInt cid, FInt window, FInt pkt] @ fs"

definition open_channel ::
  "pystr \<Rightarrow> (pystr \<times> int) option \<Rightarrow> (pystr \<times> int) option \<Rightarrow> int option \<Rightarrow> int option \<Rightarrow> int \<Rightarrow> int \<Rightarrow> wakeups \<Rightarrow> int sprog" where
  "open_channel kind dest src window pkt clear_deadline deadline ws =
     seqp (gets id) (\<lambda>s.
     if \<not> active (tr s) then raise (SSHException ''SSH session not active'')
     else
       let w = sanitize_window s window; p = sanitize_packet s pkt
       in seqp next_channel (\<lambda>cid.
          seqp (liftr (open_fields kind dest src)) (\<lambda>fs.
          seqp (liftr (compose (open_message kind cid w p fs))) (\<lambda>_.
          seqp (modify (register_channel cid w p)) (\<lambda>_.
          seqp (user_send clear_deadline (open_message kind cid w p fs) ws) (\<lambda>ws.
          seqp (wait_opened deadline cid ws) (\<lambda>_.
          seqp (gets (chan_get cid)) (\<lambda>c.
          case c of Some _ \<Rightarrow> ret cid | None \<Rightarrow> raise_saved ''Unable to open channel.''))))))))"

definition open_session where
  "open_session window pkt cd d ws = open_channel (lit ''session'') None None window pkt cd d ws"
definition open_x11_channel where
  "open_x11_channel src cd d ws = open_channel (lit ''x11'') None src None None cd d ws"
definition open_forward_agent_channel where
  "open_forward_agent_channel cd d ws = open_channel (lit ''auth-agent@openssh.com'') None None None None cd d ws"
definition open_forwarded_tcpip_channel where
  "open_forwarded_tcpip_channel src dest cd d ws = open_channel (lit ''forwarded-tcpip'') dest src None None cd d ws"

text \<open>\<open>accept\<close>: \<open>f\<close> is what the other threads did during the wait, if there was one.\<close>

definition accept :: "(session \<Rightarrow> session) \<Rightarrow> int option sprog" where
  "accept f =
     seqp (modify (\<lambda>s. if server_accepts s = [] then f s else s)) (\<lambda>_.
     seqp (gets server_accepts) (\<lambda>q.
     case q of [] \<Rightarrow> ret None | c # cs \<Rightarrow> seqp (modify (\<lambda>s. s\<lparr>server_accepts := cs\<rparr>)) (\<lambda>_. ret (Some c))))"

section \<open>Global requests\<close>

fun wait_answer :: "wakeups \<Rightarrow> message option sprog" where
  "wait_answer [] s = (Blocked, s)"
| "wait_answer ((f, now) # ws) s =
     (let s = f s
      in if \<not> active (tr s) then (Ret None, s)
         else if completion_event (tr s) = Some True then (Ret (global_response s), s)
         else wait_answer ws s)"

definition global_request :: "pystr \<Rightarrow> field list \<Rightarrow> bool \<Rightarrow> int \<Rightarrow> wakeups \<Rightarrow> message option sprog" where
  "global_request kind fs wait deadline ws =
     seqp (if wait then on_tr (modify (\<lambda>t. t\<lparr>completion_event := Some False\<rparr>)) else ret ()) (\<lambda>_.
     seqp (user_send deadline ([msg_byte MSG_GLOBAL_REQUEST, FText kind, FBool wait] @ fs) ws) (\<lambda>ws.
     if \<not> wait then ret None else wait_answer ws))"

text \<open>The port is added as an integer that adapts its width.\<close>

definition request_port_forward :: "pystr \<Rightarrow> int \<Rightarrow> int \<Rightarrow> wakeups \<Rightarrow> int sprog" where
  "request_port_forward address port deadline ws =
     seqp (gets tr) (\<lambda>t.
     if \<not> active t then raise (SSHException ''SSH session not active'')
     else
       seqp (global_request (lit ''tcpip-forward'') [FText address, FAdaptive port] True deadline ws) (\<lambda>response.
       case response of
         None \<Rightarrow> raise (SSHException ''TCP forwarding request denied'')
       | Some m \<Rightarrow>
           seqp (modify (\<lambda>s. s\<lparr>tcp_handler := True\<rparr>)) (\<lambda>_. ret (if port = 0 then fst (get_int m) else port))))"

definition cancel_port_forward :: "pystr \<Rightarrow> int \<Rightarrow> int \<Rightarrow> wakeups \<Rightarrow> unit sprog" where
  "cancel_port_forward address port deadline ws =
     seqp (gets tr) (\<lambda>t.
     if \<not> active t then ret ()
     else
       seqp (modify (\<lambda>s. s\<lparr>tcp_handler := False\<rparr>)) (\<lambda>_.
       seqp (global_request (lit ''cancel-tcpip-forward'') [FText address, FAdaptive port] True deadline ws) (\<lambda>_. ret ())))"

text \<open>\<open>send_ignore\<close>: the number of bytes is random, between 10 and 41, when none is given.\<close>

definition send_ignore :: "int option \<Rightarrow> int \<Rightarrow> wakeups \<Rightarrow> unit sprog" where
  "send_ignore byte_count deadline ws =
     seqp (case byte_count of
             Some n \<Rightarrow> ret n
           | None \<Rightarrow> seqp (on_tr (urandom 1)) (\<lambda>b. ret (byte_ord (hd b) mod 32 + 10))) (\<lambda>n.
     seqp (on_tr (urandom (nat n))) (\<lambda>b.
     seqp (user_send deadline (msg_byte MSG_IGNORE # map FByte b) ws) (\<lambda>_. ret ())))"

section \<open>Authentication\<close>

text \<open>The waits of the handler, lifted to the session's wake-ups.\<close>

fun session_response :: "int option \<Rightarrow> wakeups \<Rightarrow> unit sprog" where
  "session_response deadline [] s = (Blocked, s)"
| "session_response deadline ((f, now) # ws) s =
     (let s = f s
      in case on_au (response_loop deadline [(id, now)]) s of
           (Blocked, s) \<Rightarrow> session_response deadline ws s
         | res \<Rightarrow> res)"

definition await_response :: "int option \<Rightarrow> wakeups \<Rightarrow> (pystr list) sprog" where
  "await_response deadline ws =
     seqp (session_response deadline ws) (\<lambda>_.
     seqp (gets au) (\<lambda>k.
     if \<not> a_authenticated k then
       seqp exception_of (\<lambda>e.
         case e of
           None \<Rightarrow> raise (AuthenticationException ''Authentication failed.'')
         | Some (PartialAuthentication types) \<Rightarrow> ret types
         | Some e \<Rightarrow> raise e)
     else ret []))"

text \<open>A new handler; the exception and the algorithm belong to the transport and stay.\<close>

definition fresh_handler :: "session \<Rightarrow> session" where
  "fresh_handler s =
     s\<lparr>au := new_auth\<lparr>saved := saved (au s), agreed_algorithm := agreed_algorithm (au s)\<rparr>, tr := (tr s)\<lparr>has_auth_handler := True\<rparr>\<rparr>"

definition client_auth :: "(auth, unit) kprog \<Rightarrow> int option \<Rightarrow> wakeups \<Rightarrow> (pystr list) sprog" where
  "client_auth p deadline ws =
     seqp (gets tr) (\<lambda>t.
     if \<not> active t \<or> \<not> initial_kex_done t then raise (SSHException ''No existing session'')
     else
       seqp (modify fresh_handler) (\<lambda>_.
       seqp (on_au p) (\<lambda>_. await_response deadline ws)))"

definition t_auth_none where
  "t_auth_none username deadline ws = client_auth (auth_none username) deadline ws"
definition t_auth_publickey where
  "t_auth_publickey username key deadline ws = client_auth (auth_publickey username key) deadline ws"
definition t_auth_interactive where
  "t_auth_interactive username submethods deadline ws = client_auth (auth_interactive username submethods) deadline ws"

text \<open>\<open>SSHException\<close> and its subclasses.\<close>

fun is_ssh_exception :: "py_error \<Rightarrow> bool" where
  "is_ssh_exception (SSHException m) = True"
| "is_ssh_exception (IncompatiblePeer m) = True"
| "is_ssh_exception MessageOrderError = True"
| "is_ssh_exception (ChannelException n) = True"
| "is_ssh_exception (AuthenticationException m) = True"
| "is_ssh_exception (BadAuthenticationType l) = True"
| "is_ssh_exception (PartialAuthentication l) = True"
| "is_ssh_exception PasswordRequired = True"
| "is_ssh_exception _ = False"

text \<open>
  Password authentication falls back to a keyboard-interactive one that answers with the password;
  \<open>ws2\<close> are the wake-ups of the second attempt. Any failure of it is reported as the first one.
\<close>

definition t_auth_password :: "pystr \<Rightarrow> py_obj \<Rightarrow> bool \<Rightarrow> int option \<Rightarrow> wakeups \<Rightarrow> wakeups \<Rightarrow> (pystr list) sprog" where
  "t_auth_password username password fallback deadline ws ws2 s =
     (case client_auth (auth_password username password) deadline ws s of
        (Exn (BadAuthenticationType types), s') \<Rightarrow>
          if \<not> fallback \<or> m_interactive \<notin> set types then (Exn (BadAuthenticationType types), s')
          else (case t_auth_interactive username [] deadline ws2 s' of
                  (Exn e, s'') \<Rightarrow> (Exn (if is_ssh_exception e then BadAuthenticationType types else e), s'')
                | res \<Rightarrow> res)
      | res \<Rightarrow> res)"

definition fallback_handler :: "pystr \<Rightarrow> pystr \<Rightarrow> pystr \<Rightarrow> (pystr \<times> bool) list \<Rightarrow> pystr list res" where
  "fallback_handler password title instructions fs =
     (if 1 < length fs then Inl (SSHException ''Fallback authentication failed.'')
      else if fs = [] then Inr [] else Inr [password])"

definition t_get_username :: "session \<Rightarrow> pystr option" where
  "t_get_username s =
     (if \<not> active (tr s) \<or> \<not> has_auth_handler (tr s) then None else get_username (tr s) (au s))"

definition t_get_banner :: "session \<Rightarrow> bytes option" where
  "t_get_banner s = (if \<not> active (tr s) \<or> \<not> has_auth_handler (tr s) then None else a_banner (au s))"

text \<open>\<open>ensure_session\<close>: the wait looks at nothing but the acceptance.\<close>

fun wait_service :: "wakeups \<Rightarrow> unit sprog" where
  "wait_service [] s = (if service_accepted s then (Ret (), s) else (Blocked, s))"
| "wait_service ((f, now) # ws) s = (if service_accepted s then (Ret (), s) else wait_service ws (f s))"

definition ensure_session :: "wakeups \<Rightarrow> unit sprog" where
  "ensure_session ws =
     seqp (gets id) (\<lambda>s.
     if \<not> active (tr s) \<or> \<not> initial_kex_done (tr s) then raise (SSHException ''No existing session'')
     else if service_accepted s then ret ()
     else
       seqp (s_send [msg_byte MSG_SERVICE_REQUEST, FText ssh_userauth]) (\<lambda>_.
       seqp (wait_service ws) (\<lambda>_. modify fresh_handler)))"

section \<open>Connecting\<close>

text \<open>
  \<open>connect\<close>: the host key expected, by name and contents, and whether it is an RSA key; the
  name of a received key is its first field.
\<close>

definition blob_name :: "bytes \<Rightarrow> pystr res" where
  "blob_name b = bind_res (get_text (message_of b)) (\<lambda>(n, m). Inr n)"

definition prefer_host_key :: "host_key_rec \<Rightarrow> session \<Rightarrow> session" where
  "prefer_host_key k s =
     s\<lparr>tr := (tr s)\<lparr>p_keys := (if hk_rsa k then map lit [''rsa-sha2-512'', ''rsa-sha2-256''] else [hk_name k])\<rparr>\<rparr>"

definition check_host_key :: "host_key_rec \<Rightarrow> unit sprog" where
  "check_host_key k =
     seqp (on_tr get_remote_server_key) (\<lambda>key.
     case key of
       None \<Rightarrow> raise AttributeError
     | Some b \<Rightarrow>
         seqp (liftr (blob_name b)) (\<lambda>nm.
         if nm \<noteq> hk_name k \<or> b \<noteq> hk_blob k then raise (SSHException ''Bad host key from server'') else ret ()))"

definition connect ::
  "host_key_rec option \<Rightarrow> pystr \<Rightarrow> py_obj option \<Rightarrow> user_key option \<Rightarrow> int option \<Rightarrow> wakeups \<Rightarrow> wakeups \<Rightarrow> wakeups \<Rightarrow> unit sprog" where
  "connect hostkey username password pkey deadline ws ws1 ws2 =
     seqp (case hostkey of None \<Rightarrow> ret () | Some k \<Rightarrow> modify (prefer_host_key k)) (\<lambda>_.
     seqp (start_client None ws) (\<lambda>_.
     seqp (case hostkey of None \<Rightarrow> ret () | Some k \<Rightarrow> check_host_key k) (\<lambda>_.
     case (pkey, password) of
       (Some key, _) \<Rightarrow> seqp (t_auth_publickey username key deadline ws1) (\<lambda>_. ret ())
     | (None, Some pw) \<Rightarrow> seqp (t_auth_password username pw True deadline ws1 ws2) (\<lambda>_. ret ())
     | (None, None) \<Rightarrow> ret ())))"

text \<open>\<open>close\<close> and the end of a user's interest in the transport.\<close>

definition s_close :: "unit sprog" where
  "s_close =
     seqp (gets tr) (\<lambda>t. if \<not> active t then ret () else seqp (on_tr stop_thread) (\<lambda>_. modify unlink_all))"

end
