(* ===== verification/Kex_Props.thy ===== *)
theory Kex_Props
  imports Key_Exchange
begin

text \<open>
  Properties of the key exchange methods: both ends compute the same secret, hash and session
  identifier, public values out of range are refused, and group exchange stays within its limits.
\<close>

section \<open>Key agreement\<close>

text \<open>What a method relies on: the two private keys give the same secret.\<close>

locale key_agreement =
  fixes public :: "'x \<Rightarrow> 'pub" and secret :: "'x \<Rightarrow> 'pub \<Rightarrow> 'k"
  assumes agree: "secret a (public b) = secret b (public a)"
begin

lemma same_secret: "e = public a \<Longrightarrow> f = public b \<Longrightarrow> secret b e = secret a f"
  using agree [of a b] by simp

end

definition modexp :: "int \<Rightarrow> int \<Rightarrow> int \<Rightarrow> int" where
  "modexp p x b = b ^ nat x mod p"

lemma modexp_modexp: "modexp p x (modexp p y g) = g ^ (nat x * nat y) mod p"
  by (simp add: modexp_def power_mod power_mult [symmetric] mult.commute)

lemma modexp_range:
  assumes "coprime g p" and "1 < p"
  shows "1 \<le> modexp p x g" "modexp p x g \<le> p - 1"
proof -
  have "0 \<le> modexp p x g" "modexp p x g < p" using assms(2) by (simp_all add: modexp_def)
  moreover have "modexp p x g \<noteq> 0"
  proof
    assume "modexp p x g = 0"
    then have "p dvd g ^ nat x" by (simp add: modexp_def dvd_eq_mod_eq_0)
    moreover have "coprime (g ^ nat x) p" using assms(1) by simp
    ultimately have "is_unit p" by (meson coprime_common_divisor dvd_refl)
    with assms(2) show False by simp
  qed
  ultimately show "1 \<le> modexp p x g" "modexp p x g \<le> p - 1" by simp_all
qed

interpretation dh_group: key_agreement "\<lambda>x. modexp p x g" "modexp p" for p g
  by unfold_locales (simp add: modexp_modexp mult.commute)

text \<open>Documented of the elliptic curve library: the shared secrets of two key pairs are equal.\<close>

definition ec_agrees :: "crypto_env \<Rightarrow> pystr \<Rightarrow> bool" where
  "ec_agrees env eng \<longleftrightarrow>
     (\<forall>a. \<exists>p. ec_point env eng (ec_public env eng a) = Inr p) \<and>
     (\<forall>a b. bind_res (ec_point env eng (ec_public env eng b)) (ec_shared env eng a) =
            bind_res (ec_point env eng (ec_public env eng a)) (ec_shared env eng b))"

text \<open>Documented of the signatures: a signature made with a key is accepted.\<close>

definition signs :: "crypto_env \<Rightarrow> pystr \<Rightarrow> bool" where
  "signs env alg \<longleftrightarrow> (\<forall>key h. verify_sig env alg key h (sign_data env key h alg) = Inr True)"

section \<open>The end of the exchange\<close>

text \<open>Two transports after a negotiation: the same transcript, method and host key algorithm.\<close>

definition paired :: "transport \<Rightarrow> transport \<Rightarrow> pystr \<Rightarrow> bool" where
  "paired c s alg \<longleftrightarrow> server_mode s \<and> \<not> server_mode c \<and> transcript c = transcript s \<and> engine_name c = engine_name s \<and>
     host_key_type c = Some alg \<and> host_key_type s = Some alg \<and> alg \<in> set key_names"

lemma transcripts_match:
  assumes "server_mode s" and "\<not> server_mode c" and "local_version c = remote_version s" "remote_version c = local_version s"
    and "local_kex_init c = remote_kex_init s" "remote_kex_init c = local_kex_init s"
    and "local_kex_init c \<noteq> None" "remote_kex_init c \<noteq> None"
  shows "transcript c = transcript s"
  using assms by (auto simp: transcript_def need_def)

definition with_keys :: "int \<Rightarrow> bytes \<Rightarrow> transport \<Rightarrow> transport" where
  "with_keys k h t = t\<lparr>kex_K := Some k, kex_H := Some h, session_id := (if session_id t = None then Some h else session_id t)\<rparr>"

definition hash_of :: "crypto_env \<Rightarrow> field list \<Rightarrow> transport \<Rightarrow> bytes res" where
  "hash_of env hfs t =
     bind_res (transcript t) (\<lambda>tr. bind_res (compose (tr @ hfs)) (\<lambda>hm. Inr (kex_hash env (engine_name t) (msg_asbytes hm))))"

lemma exchange_hash_eq: "exchange_hash env hfs t = (out_of (hash_of env hfs t), t)"
  by (auto simp: exchange_hash_def hash_of_def liftr_def seqp_def out_of_def bind_res_def split: sum.splits)

lemma hash_of_paired: "paired c s alg \<Longrightarrow> hash_of env hfs c = hash_of env hfs s"
  by (simp add: hash_of_def paired_def)

text \<open>Sending and the activation keep the secret, the hash and what was sent before.\<close>

lemma activate_outbound_keeps:
  "activate_outbound env t = (r, t') \<Longrightarrow> (kex_K t', kex_H t', session_id t', t_host_key t') = (kex_K t, kex_H t, session_id t, t_host_key t)"
proof -
  assume a: "activate_outbound env t = (r, t')"
  have "preserves (\<lambda>u. (kex_K u, kex_H u, session_id u, t_host_key u) = v) (activate_outbound env)" for v
    unfolding activate_outbound_def finish_outbound_def t_send_def call_def compressor_known_def expect_packet_def
      make_setup_def compute_key_def Let_def
    by (intro preserves_intro preserves_modify)
       (auto simp: preserves_def new_cipher_def Let_def liftr_def seqp_def split: option.splits sum.splits prod.splits)
  from preservesD [OF this _ a] show ?thesis by simp
qed


lemma t_send_sent:
  "t_send fs t = (Ret u, t') \<longleftrightarrow> (\<exists>m. compose fs = Inr m \<and> t' = t\<lparr>calls := calls t @ [Send (msg_asbytes m)]\<rparr>)"
  by (auto simp: t_send_def seqp_Ret liftr_Ret call_def)

lemma activated_calls:
  "activate_outbound env t = (Ret (), t') \<Longrightarrow> \<exists>rest. calls t' = calls t @ rest"
  using outbound_result by blast

text \<open>A server that got to the end has sent its signature of the hash.\<close>

lemma server_finish_result:
  assumes "server_finish env reply key hfs K mine s = (Ret (), s')" and "host_key_type s = Some alg"
  shows "\<exists>H m rest. hash_of env hfs s = Inr H \<and>
    compose [msg_byte reply, FString key, mine, FString (sign_data env key H alg)] = Inr m \<and>
    calls s' = calls s @ Send (msg_asbytes m) # rest \<and>
    kex_K s' = Some K \<and> kex_H s' = Some H \<and> session_id s' = session_id (with_keys K H s)"
proof -
  from assms obtain H t1 where h: "out_of (hash_of env hfs s) = Ret H"
    and t: "t_send [msg_byte reply, FString key, mine, FString (sign_data env key H alg)] (with_keys K H s) = (Ret (), t1)"
    and a: "activate_outbound env t1 = (Ret (), s')"
    by (auto simp: server_finish_def seqp_Ret exchange_hash_eq set_K_H_def with_keys_def Let_def)
  from t obtain m where m: "compose [msg_byte reply, FString key, mine, FString (sign_data env key H alg)] = Inr m"
    "t1 = (with_keys K H s)\<lparr>calls := calls s @ [Send (msg_asbytes m)]\<rparr>"
    by (auto simp: t_send_sent with_keys_def)
  from activated_calls [OF a] m(2) obtain rest where "calls s' = calls s @ Send (msg_asbytes m) # rest" by auto
  moreover from h have "hash_of env hfs s = Inr H" by (cases "hash_of env hfs s") auto
  ultimately show ?thesis
    using m activate_outbound_keeps [OF a] by (intro exI [of _ H] exI [of _ m] exI [of _ rest]) (simp add: with_keys_def)
qed

lemma client_finish_result:
  assumes "hash_of env hfs c = Inr H" and "signs env alg" and "host_key_type c = Some alg" "alg \<in> set key_names"
  shows "client_finish env key (sign_data env key H alg) hfs K c =
    activate_outbound env ((with_keys K H c)\<lparr>t_host_key := Some key\<rparr>)"
  using assms by (simp add: client_finish_def exchange_hash_eq seqp_def set_K_H_def verify_key_def with_keys_def signs_def)

text \<open>The reply as the client reads it.\<close>

lemma compose_add_seq: "compose fs = Inr m \<longleftrightarrow> add_seq add_field new_message fs = Inr m"
  by (simp add: compose_def)

lemma msg_body:
  assumes "compose (msg_byte b # fs) = Inr m"
  shows "\<exists>w. msg_asbytes m = word_of_int b # w \<and> reads w fs [] (message_of w)"
  using reads_body [of "word_of_int b" fs m "[]"] assms by (simp add: compose_def msg_byte_def)


lemma server_key_blob_Ret: "server_key_blob t = (Ret key, t') \<longleftrightarrow> t' = t \<and> (\<exists>k. get_server_key t = Some k \<and> key = hk_blob k)"
  by (auto simp: server_key_blob_def liftr_def split: option.splits)

lemma py_pow_modexp: "m \<noteq> 0 \<Longrightarrow> py_pow b e m = Inr (modexp m e b)"
  by (simp add: py_pow_def modexp_def)

text \<open>The client's transport when it has accepted the server's signature.\<close>

definition trusting :: "int \<Rightarrow> bytes \<Rightarrow> bytes \<Rightarrow> transport \<Rightarrow> transport" where
  "trusting K H key c = (with_keys K H c)\<lparr>t_host_key := Some key\<rparr>"

section \<open>Fixed groups\<close>

lemma group_server_step:
  assumes "group_parse_next env P MSG_KEXDH_INIT m (s, ks) = (Ret (), (s', ks'))" and "get_mpint m = (e, m')"
    and "server_mode s" "host_key_type s = Some alg"
  shows "\<exists>key H reply rest. let K = modexp P (dh_x ks) e in
    1 \<le> e \<and> e \<le> P - 1 \<and> map_option hk_blob (get_server_key s) = Some key \<and>
    hash_of env [FString key, FMpint e, FMpint (dh_f ks), FMpint K] s = Inr H \<and>
    compose [msg_byte MSG_KEXDH_REPLY, FString key, FMpint (dh_f ks), FString (sign_data env key H alg)] = Inr reply \<and>
    calls s' = calls s @ Send (msg_asbytes reply) # rest \<and>
    kex_K s' = Some K \<and> kex_H s' = Some H \<and> session_id s' = session_id (with_keys K H s)"
proof -
  from assms obtain K key where e: "1 \<le> e" "e \<le> P - 1" and K: "py_pow e (dh_x ks) P = Inr K"
    and key: "map_option hk_blob (get_server_key s) = Some key"
    and f: "server_finish env MSG_KEXDH_REPLY key [FString key, FMpint e, FMpint (dh_f ks), FMpint K] K (FMpint (dh_f ks)) s = (Ret (), s')"
    by (auto simp: group_parse_next_def group_init_def upd_k_def seqp_Ret on_t_Ret server_key_blob_Ret liftr_Ret not_less split: if_splits)
  from e K have "K = modexp P (dh_x ks) e" by (simp add: py_pow_modexp)
  with server_finish_result [OF f assms(4)] e key show ?thesis by (auto simp: Let_def)
qed

lemma group_client_step:
  assumes "get_string m = (key, m1)" "get_mpint m1 = (f, m2)" "get_binary m2 = (sign_data env key H alg, m3)"
    and "\<not> server_mode c" "1 \<le> f" "f \<le> P - 1"
    and "hash_of env [FString key, FMpint (dh_e kc), FMpint f, FMpint K] c = Inr H" "K = modexp P (dh_x kc) f"
    and "signs env alg" "host_key_type c = Some alg" "alg \<in> set key_names"
  shows "group_parse_next env P MSG_KEXDH_REPLY m (c, kc) =
    on_t (\<lambda>_. activate_outbound env (trusting K H key c)) (c, kc\<lparr>dh_f := f\<rparr>)"
proof -
  have "py_pow f (dh_x kc) P = Inr K" using assms(5,6,8) by (simp add: py_pow_modexp)
  then show ?thesis
    using assms client_finish_result [OF assms(7,9-11)]
    by (simp add: group_parse_next_def group_reply_def upd_k_def on_t_def trusting_def)
qed

text \<open>Claim C18. When a server has answered a client's Diffie-Hellman value, the client, given that answer,
  reaches the activation of its keys with the same shared secret, \<open>G\<close> to the product of the two private
  exponents, the same exchange hash, and the host key the server signed with.\<close>

theorem group_exchange_agrees:
  assumes "paired c s alg" and "signs env alg"
    and "dh_e kc = modexp P (dh_x kc) G" "dh_f ks = modexp P (dh_x ks) G" and "coprime G P" "1 < P"
    and "compose [msg_byte MSG_KEXDH_INIT, FMpint (dh_e kc)] = Inr first"
    and "group_parse_next env P MSG_KEXDH_INIT (message_of (tl (msg_asbytes first))) (s, ks) = (Ret (), (s', ks'))"
  shows "\<exists>key H reply rest. let K = G ^ (nat (dh_x kc) * nat (dh_x ks)) mod P in
    calls s' = calls s @ Send (31 # reply) # rest \<and> map_option hk_blob (get_server_key s) = Some key \<and>
    kex_K s' = Some K \<and> kex_H s' = Some H \<and> session_id s' = session_id (with_keys K H s) \<and>
    group_parse_next env P MSG_KEXDH_REPLY (message_of reply) (c, kc) =
      on_t (\<lambda>_. activate_outbound env (trusting K H key c)) (c, kc\<lparr>dh_f := dh_f ks\<rparr>)"
proof -
  let ?K = "G ^ (nat (dh_x kc) * nat (dh_x ks)) mod P"
  have K: "modexp P (dh_x kc) (dh_f ks) = ?K" using assms(4) by (simp add: modexp_modexp)
  then have K': "modexp P (dh_x ks) (dh_e kc) = ?K" using dh_group.same_secret [OF assms(3,4)] by simp
  obtain w where w: "msg_asbytes first = word_of_int 30 # w" "reads w [FMpint (dh_e kc)] [] (message_of w)"
    using msg_body [OF assms(7)] by auto
  obtain m' where e: "get_mpint (message_of w) = (dh_e kc, m')" using reads_mpint [OF w(2)] by blast
  have srv: "server_mode s" "\<not> server_mode c" "host_key_type s = Some alg" "host_key_type c = Some alg" "alg \<in> set key_names"
    using assms(1) by (auto simp: paired_def)
  have step: "group_parse_next env P MSG_KEXDH_INIT (message_of w) (s, ks) = (Ret (), (s', ks'))"
    using assms(8) w(1) by simp
  obtain key H m rest where r: "map_option hk_blob (get_server_key s) = Some key"
    "hash_of env [FString key, FMpint (dh_e kc), FMpint (dh_f ks), FMpint ?K] s = Inr H"
    "compose [msg_byte MSG_KEXDH_REPLY, FString key, FMpint (dh_f ks), FString (sign_data env key H alg)] = Inr m"
    "calls s' = calls s @ Send (msg_asbytes m) # rest"
    "kex_K s' = Some ?K" "kex_H s' = Some H" "session_id s' = session_id (with_keys ?K H s)"
    using group_server_step [OF step e srv(1,3)] unfolding K' Let_def by blast
  obtain v where v: "msg_asbytes m = word_of_int 31 # v"
    "reads v [FString key, FMpint (dh_f ks), FString (sign_data env key H alg)] [] (message_of v)"
    using msg_body [OF r(3)] by auto
  obtain m1 where m1: "get_string (message_of v) = (key, m1)" "reads v [FMpint (dh_f ks), FString (sign_data env key H alg)] [] m1"
    using reads_string [OF v(2)] by blast
  obtain m2 where m2: "get_mpint m1 = (dh_f ks, m2)" "reads v [FString (sign_data env key H alg)] [] m2"
    using reads_mpint [OF m1(2)] by blast
  obtain m3 where m3: "get_binary m2 = (sign_data env key H alg, m3)" using reads_binary [OF m2(2)] by blast
  have f: "1 \<le> dh_f ks" "dh_f ks \<le> P - 1" using modexp_range [OF assms(5,6)] assms(4) by simp_all
  have "group_parse_next env P MSG_KEXDH_REPLY (message_of v) (c, kc) =
      on_t (\<lambda>_. activate_outbound env (trusting ?K H key c)) (c, kc\<lparr>dh_f := dh_f ks\<rparr>)"
    using group_client_step [OF m1(1) m2(1) m3 srv(2) f _ K [symmetric] assms(2) srv(4,5)]
      r(2) hash_of_paired [OF assms(1)] by simp
  with r v(1) show ?thesis by (intro exI [of _ key] exI [of _ H] exI [of _ v] exI [of _ rest]) (simp add: Let_def)
qed


section \<open>Group exchange\<close>

lemma gex_x_loop_Ret: "gex_x_loop q n qmask e = (Ret x, e') \<Longrightarrow> 1 < x \<and> x < q"
proof (induction q n qmask e rule: gex_x_loop.induct)
  case (1 q n qmask e)
  show ?case
  proof (cases "n = 0 \<or> length e < n")
    case True
    with "1.prems" show ?thesis by (simp add: gex_x_loop.simps)
  next
    case False
    with "1.prems" obtain h where h: "byte_mask (byte_ord (hd e)) qmask = Inr h"
      by (cases "byte_mask (byte_ord (hd e)) qmask") (simp_all add: gex_x_loop.simps)
    show ?thesis
    proof (cases "1 < inflate_long (h @ drop 1 (take n e)) True \<and> inflate_long (h @ drop 1 (take n e)) True < q")
      case True
      with "1.prems" False h show ?thesis by (subst (asm) gex_x_loop.simps) (simp add: Let_def)
    next
      case no: False
      with "1.prems" False h have "gex_x_loop q n qmask (drop n e) = (Ret x, e')"
        by (subst (asm) gex_x_loop.simps) (simp add: Let_def split: if_splits)
      then show ?thesis using "1.IH" [OF False h refl] no by blast
    qed
  qed
qed

lemma need_Inr: "need x = Inr v \<longleftrightarrow> x = Some v"
  by (cases x) (simp_all add: need_def)

lemma on_entropy_Ret: "on_entropy p t = (Ret x, t') \<longleftrightarrow> (\<exists>e. p (entropy t) = (Ret x, e) \<and> t' = t\<lparr>entropy := e\<rparr>)"
  by (auto simp: on_entropy_def split: prod.splits)

lemma gex_generate_x_Ret:
  "gex_generate_x (t, k) = (Ret (), (t', k')) \<Longrightarrow>
     \<exists>p x e. gx_p k = Some p \<and> 1 < x \<and> x < (p - 1) div 2 \<and> t' = t\<lparr>entropy := e\<rparr> \<and> k' = k\<lparr>gx_x := Some x\<rparr>"
proof -
  assume "gex_generate_x (t, k) = (Ret (), (t', k'))"
  then obtain p h c qm x e where "gx_p k = Some p" "k' = k\<lparr>gx_x := Some x\<rparr>" "t' = t\<lparr>entropy := e\<rparr>"
    "gex_x_loop ((p - 1) div 2) c qm (entropy t) = (Ret x, e)"
    by (auto simp: gex_generate_x_def seqp_Ret liftr_Ret need_Inr Let_def on_t_Ret on_entropy_Ret upd_k_def
        split: option.splits)
  with gex_x_loop_Ret show ?thesis by blast
qed

lemma with_entropy [simp]:
  "hash_of env hfs (t\<lparr>entropy := e\<rparr>) = hash_of env hfs t" "get_server_key (t\<lparr>entropy := e\<rparr>) = get_server_key t"
  "session_id (with_keys K H (t\<lparr>entropy := e\<rparr>)) = session_id (with_keys K H t)"
  by (simp_all add: hash_of_def transcript_def engine_name_def get_server_key_def with_keys_def
      cong: if_cong option.case_cong)

lemma gex_server_step:
  assumes "gex_parse_next env GEX_INIT m (s, ks) = (Ret (), (s', ks'))" and "get_mpint m = (e, m')"
    and "gx_p ks = Some p" "gx_g ks = Some g" "host_key_type s = Some alg"
  shows "\<exists>x key H reply rest. let K = modexp p x e; f = modexp p x g in
    1 \<le> e \<and> e \<le> p - 1 \<and> 1 < x \<and> x < (p - 1) div 2 \<and> map_option hk_blob (get_server_key s) = Some key \<and>
    hash_of env (gex_fields key ks p g e f K) s = Inr H \<and>
    compose [msg_byte GEX_REPLY, FString key, FMpint f, FString (sign_data env key H alg)] = Inr reply \<and>
    calls s' = calls s @ Send (msg_asbytes reply) # rest \<and>
    kex_K s' = Some K \<and> kex_H s' = Some H \<and> session_id s' = session_id (with_keys K H s)"
proof -
  from assms(1-4) obtain t1 k1 where e: "1 \<le> e" "e \<le> p - 1"
    and gen: "gex_generate_x (s, ks\<lparr>gx_e := Some e\<rparr>) = (Ret (), (t1, k1))"
    and cont: "seqp (gets snd) (\<lambda>k.
           seqp (liftr (need (gx_x k))) (\<lambda>x.
           seqp (liftr (need (gx_g k))) (\<lambda>g.
           seqp (liftr (py_pow g x p)) (\<lambda>f.
           seqp (upd_k (\<lambda>k. k\<lparr>gx_f := Some f\<rparr>)) (\<lambda>_.
           seqp (liftr (py_pow e x p)) (\<lambda>K.
           seqp (on_t server_key_blob) (\<lambda>key.
           on_t (server_finish env GEX_REPLY key (gex_fields key k p g e f K) K (FMpint f))))))))) (t1, k1) = (Ret (), (s', ks'))"
    by (simp add: gex_parse_next_def gex_init_def upd_k_def seqp_Ret liftr_Ret need_def not_less del: seqp_gets split: if_splits)
       (auto simp: seqp_Ret)
  from gex_generate_x_Ret [OF gen] assms(3) obtain x n where x: "1 < x" "x < (p - 1) div 2"
    and t1: "t1 = s\<lparr>entropy := n\<rparr>" "k1 = ks\<lparr>gx_e := Some e, gx_x := Some x\<rparr>" by auto
  have p: "p \<noteq> 0" using e by simp
  let ?K = "modexp p x e" and ?f = "modexp p x g"
  have g: "gex_fields key (ks\<lparr>gx_e := a, gx_x := b\<rparr>) p g e ?f ?K = gex_fields key ks p g e ?f ?K" for key a b
    by (simp add: gex_fields_def)
  from cont obtain key where key: "map_option hk_blob (get_server_key t1) = Some key"
    and f: "server_finish env GEX_REPLY key (gex_fields key ks p g e ?f ?K) ?K (FMpint ?f) t1 = (Ret (), s')"
    unfolding t1(2) by (auto simp: seqp_Ret liftr_Ret need_Inr assms(4) py_pow_modexp [OF p] upd_k_def on_t_Ret server_key_blob_Ret g)
  have h: "host_key_type t1 = Some alg" using assms(5) t1(1) by simp
  show ?thesis
    using server_finish_result [OF f h] e x key unfolding t1(1)
    by - (rule exI [of _ x], rule exI [of _ key], auto simp: Let_def)
qed


lemma gex_client_step:
  assumes "get_string m = (key, m1)" "get_mpint m1 = (f, m2)" "get_string m2 = (sign_data env key H alg, m3)"
    and "gx_p kc = Some p" "gx_g kc = Some g" "gx_x kc = Some x" "gx_e kc = Some e" and "1 \<le> f" "f \<le> p - 1"
    and "hash_of env (gex_fields key kc p g e f (modexp p x f)) c = Inr H"
    and "signs env alg" "host_key_type c = Some alg" "alg \<in> set key_names"
  shows "gex_parse_next env GEX_REPLY m (c, kc) =
    on_t (\<lambda>_. activate_outbound env (trusting (modexp p x f) H key c)) (c, kc\<lparr>gx_f := Some f\<rparr>)"
proof -
  have "py_pow f x p = Inr (modexp p x f)" using assms(8,9) by (simp add: py_pow_modexp)
  moreover have "gex_fields key (kc\<lparr>gx_f := Some f\<rparr>) p g e f (modexp p x f) = gex_fields key kc p g e f (modexp p x f)"
    by (simp add: gex_fields_def)
  ultimately show ?thesis
    using assms client_finish_result [OF assms(10-13)]
    by (simp add: gex_parse_next_def gex_reply_def upd_k_def on_t_def trusting_def need_def)
qed

text \<open>Group exchange: when the two sides use the same bit sizes, a server's answer to the client's
  value, computed with a fresh exponent between 1 and (p - 1) / 2, gives both the same shared
  secret and the same exchange hash, and the client reaches its activation.\<close>

theorem gex_exchange_agrees:
  assumes "paired c s alg" and "signs env alg"
    and "gx_p kc = Some p" "gx_g kc = Some g" "gx_x kc = Some xc" "gx_e kc = Some (modexp p xc g)"
    and "gx_p ks = Some p" "gx_g ks = Some g" and "coprime g p" "1 < p"
    and "(old_style kc, min_bits kc, preferred_bits kc, max_bits kc) = (old_style ks, min_bits ks, preferred_bits ks, max_bits ks)"
    and "compose [msg_byte GEX_INIT, FMpint (modexp p xc g)] = Inr first"
    and "gex_parse_next env GEX_INIT (message_of (tl (msg_asbytes first))) (s, ks) = (Ret (), (s', ks'))"
  shows "\<exists>xs key H reply rest. let K = g ^ (nat xc * nat xs) mod p in
    1 < xs \<and> xs < (p - 1) div 2 \<and>
    calls s' = calls s @ Send (33 # reply) # rest \<and> map_option hk_blob (get_server_key s) = Some key \<and>
    kex_K s' = Some K \<and> kex_H s' = Some H \<and> session_id s' = session_id (with_keys K H s) \<and>
    gex_parse_next env GEX_REPLY (message_of reply) (c, kc) =
      on_t (\<lambda>_. activate_outbound env (trusting K H key c)) (c, kc\<lparr>gx_f := Some (modexp p xs g)\<rparr>)"
proof -
  let ?e = "modexp p xc g"
  obtain w where w: "msg_asbytes first = word_of_int 32 # w" "reads w [FMpint ?e] [] (message_of w)"
    using msg_body [OF assms(12)] by auto
  obtain m' where e: "get_mpint (message_of w) = (?e, m')" using reads_mpint [OF w(2)] by blast
  have srv: "host_key_type s = Some alg" "host_key_type c = Some alg" "alg \<in> set key_names"
    using assms(1) by (auto simp: paired_def)
  have step: "gex_parse_next env GEX_INIT (message_of w) (s, ks) = (Ret (), (s', ks'))"
    using assms(13) w(1) by simp
  obtain x key H m rest where x: "1 < x" "x < (p - 1) div 2" and r: "map_option hk_blob (get_server_key s) = Some key"
    "hash_of env (gex_fields key ks p g ?e (modexp p x g) (modexp p x ?e)) s = Inr H"
    "compose [msg_byte GEX_REPLY, FString key, FMpint (modexp p x g), FString (sign_data env key H alg)] = Inr m"
    "calls s' = calls s @ Send (msg_asbytes m) # rest"
    "kex_K s' = Some (modexp p x ?e)" "kex_H s' = Some H" "session_id s' = session_id (with_keys (modexp p x ?e) H s)"
    using gex_server_step [OF step e assms(7,8) srv(1)] unfolding Let_def by blast
  let ?f = "modexp p x g"
  have K: "modexp p xc ?f = g ^ (nat xc * nat x) mod p" by (rule modexp_modexp)
  then have K': "modexp p x ?e = g ^ (nat xc * nat x) mod p" using dh_group.agree [of p xc x g] by simp
  obtain v where v: "msg_asbytes m = word_of_int 33 # v"
    "reads v [FString key, FMpint ?f, FString (sign_data env key H alg)] [] (message_of v)"
    using msg_body [OF r(3)] by auto
  obtain m1 where m1: "get_string (message_of v) = (key, m1)" "reads v [FMpint ?f, FString (sign_data env key H alg)] [] m1"
    using reads_string [OF v(2)] by blast
  obtain m2 where m2: "get_mpint m1 = (?f, m2)" "reads v [FString (sign_data env key H alg)] [] m2"
    using reads_mpint [OF m1(2)] by blast
  obtain m3 where m3: "get_string m2 = (sign_data env key H alg, m3)" using reads_string [OF m2(2)] by blast
  have h: "hash_of env (gex_fields key kc p g ?e ?f (modexp p xc ?f)) c = Inr H"
    using r(2) assms(11) hash_of_paired [OF assms(1)] by (simp add: K K' gex_fields_def cong: if_cong)
  have "gex_parse_next env GEX_REPLY (message_of v) (c, kc) =
      on_t (\<lambda>_. activate_outbound env (trusting (modexp p xc ?f) H key c)) (c, kc\<lparr>gx_f := Some ?f\<rparr>)"
    by (rule gex_client_step [OF m1(1) m2(1) m3 assms(3-6) modexp_range [OF assms(9,10)] h assms(2) srv(2,3)])
  with r v(1) x show ?thesis unfolding K K'
    by - (rule exI [of _ x], rule exI [of _ key], rule exI [of _ H], rule exI [of _ v], rule exI [of _ rest], simp add: Let_def)
qed

text \<open>The bit sizes settled for a request are consistent, within the old limits when they were, and a
  consistent request within the limits is taken as it is.\<close>

lemma settle_bits_consistent:
  "min_bits (settle_bits a b c k) \<le> preferred_bits (settle_bits a b c k)"
  "preferred_bits (settle_bits a b c k) \<le> max_bits (settle_bits a b c k)"
  "min_bits k \<le> preferred_bits (settle_bits a b c k)"
  "min_bits k \<le> max_bits k \<Longrightarrow> preferred_bits (settle_bits a b c k) \<le> max_bits k"
  "a \<le> b \<Longrightarrow> b \<le> c \<Longrightarrow> min_bits k \<le> b \<Longrightarrow> b \<le> max_bits k \<Longrightarrow>
     (min_bits (settle_bits a b c k), preferred_bits (settle_bits a b c k), max_bits (settle_bits a b c k)) = (a, b, c)"
  by (simp_all add: settle_bits_def Let_def)


section \<open>Elliptic curves\<close>

text \<open>What each side computes from the other's public bytes.\<close>

definition ec_K :: "crypto_env \<Rightarrow> bool \<Rightarrow> pystr \<Rightarrow> bytes \<Rightarrow> bytes \<Rightarrow> int res" where
  "ec_K env montgomery eng priv pub = bind_res (ec_point env eng pub) (ec_secret env montgomery eng priv)"

lemma ec_K_agrees:
  assumes "ec_agrees env eng"
  shows "ec_K env mont eng a (ec_public env eng b) = ec_K env mont eng b (ec_public env eng a)"
proof -
  have s: "ec_K env mont eng x y = bind_res (bind_res (ec_point env eng y) (ec_shared env eng x))
      (\<lambda>s. if mont \<and> s = replicate 32 0 then Inl (SSHException ''peer's curve25519 public value has wrong order'') else int_of_bytes s)" for x y
    by (auto simp: ec_K_def ec_secret_def perform_exchange_def bind_res_def split: sum.splits)
  show ?thesis using assms by (simp add: s ec_agrees_def)
qed

lemma ec_server_step:
  assumes "ec_parse_next env mont MSG_KEXECDH_INIT m (s, priv) = (Ret (), (s', priv'))" and "get_string m = (q_c, m')"
    and "server_mode s" "host_key_type s = Some alg"
  shows "\<exists>K key H reply rest. let q_s = ec_public env (engine_name s) priv in
    ec_K env mont (engine_name s) priv q_c = Inr K \<and> map_option hk_blob (get_server_key s) = Some key \<and>
    hash_of env [FString key, FString q_c, FString q_s, FMpint K] s = Inr H \<and>
    compose [msg_byte MSG_KEXECDH_REPLY, FString key, FString q_s, FString (sign_data env key H alg)] = Inr reply \<and>
    calls s' = calls s @ Send (msg_asbytes reply) # rest \<and>
    kex_K s' = Some K \<and> kex_H s' = Some H \<and> session_id s' = session_id (with_keys K H s)"
proof -
  let ?q = "ec_public env (engine_name s) priv"
  from assms(1-3) obtain K key where K: "ec_K env mont (engine_name s) priv q_c = Inr K"
    and key: "map_option hk_blob (get_server_key s) = Some key"
    and f: "server_finish env MSG_KEXECDH_REPLY key [FString key, FString q_c, FString ?q, FMpint K] K (FString ?q) s = (Ret (), s')"
    by (cases mont)
      (auto simp: ec_parse_next_def ec_init_def nist_init_def curve25519_init_def seqp_Ret on_t_Ret server_key_blob_Ret liftr_Ret Let_def ec_K_def)
  from server_finish_result [OF f assms(4)] K key show ?thesis
    by - (rule exI [of _ K], rule exI [of _ key], auto simp: Let_def)
qed

text \<open>The elliptic curve methods: when the curve's shared secrets agree, a server's answer gives
  both sides the same secret, hash and session identifier, and the client reaches its activation.\<close>

theorem ec_exchange_agrees:
  assumes "paired c s alg" and "signs env alg" and "ec_agrees env (engine_name s)"
    and "compose [msg_byte MSG_KEXECDH_INIT, FString (ec_public env (engine_name c) pc)] = Inr first"
    and "ec_parse_next env mont MSG_KEXECDH_INIT (message_of (tl (msg_asbytes first))) (s, ps) = (Ret (), (s', ps'))"
  shows "\<exists>K key H reply rest.
    calls s' = calls s @ Send (31 # reply) # rest \<and> map_option hk_blob (get_server_key s) = Some key \<and>
    ec_K env mont (engine_name c) pc (ec_public env (engine_name s) ps) = Inr K \<and>
    kex_K s' = Some K \<and> kex_H s' = Some H \<and> session_id s' = session_id (with_keys K H s) \<and>
    ec_parse_next env mont MSG_KEXECDH_REPLY (message_of reply) (c, pc) =
      on_t (\<lambda>_. activate_outbound env (trusting K H key c)) (c, pc)"
proof -
  have srv: "server_mode s" "\<not> server_mode c" "host_key_type s = Some alg" "host_key_type c = Some alg" "alg \<in> set key_names"
    "engine_name c = engine_name s"
    using assms(1) by (auto simp: paired_def)
  let ?qc = "ec_public env (engine_name s) pc" and ?qs = "ec_public env (engine_name s) ps"
  obtain w where w: "msg_asbytes first = word_of_int 30 # w" "reads w [FString ?qc] [] (message_of w)"
    using msg_body [OF assms(4)] srv(6) by auto
  obtain m' where e: "get_string (message_of w) = (?qc, m')" using reads_string [OF w(2)] by blast
  have step: "ec_parse_next env mont MSG_KEXECDH_INIT (message_of w) (s, ps) = (Ret (), (s', ps'))"
    using assms(5) w(1) by simp
  obtain K key H m rest where r: "ec_K env mont (engine_name s) ps ?qc = Inr K"
    "map_option hk_blob (get_server_key s) = Some key"
    "hash_of env [FString key, FString ?qc, FString ?qs, FMpint K] s = Inr H"
    "compose [msg_byte MSG_KEXECDH_REPLY, FString key, FString ?qs, FString (sign_data env key H alg)] = Inr m"
    "calls s' = calls s @ Send (msg_asbytes m) # rest"
    "kex_K s' = Some K" "kex_H s' = Some H" "session_id s' = session_id (with_keys K H s)"
    using ec_server_step [OF step e srv(1,3)] unfolding Let_def by blast
  obtain v where v: "msg_asbytes m = word_of_int 31 # v"
    "reads v [FString key, FString ?qs, FString (sign_data env key H alg)] [] (message_of v)"
    using msg_body [OF r(4)] by auto
  obtain m1 where m1: "get_string (message_of v) = (key, m1)" "reads v [FString ?qs, FString (sign_data env key H alg)] [] m1"
    using reads_string [OF v(2)] by blast
  obtain m2 where m2: "get_string m1 = (?qs, m2)" "reads v [FString (sign_data env key H alg)] [] m2"
    using reads_string [OF m1(2)] by blast
  obtain m3 where m3: "get_binary m2 = (sign_data env key H alg, m3)" using reads_binary [OF m2(2)] by blast
  have K: "ec_K env mont (engine_name s) pc ?qs = Inr K" using r(1) ec_K_agrees [OF assms(3)] by simp
  have h: "hash_of env [FString key, FString ?qc, FString ?qs, FMpint K] c = Inr H"
    using r(3) hash_of_paired [OF assms(1)] by simp
  have "ec_parse_next env mont MSG_KEXECDH_REPLY (message_of v) (c, pc) =
      on_t (\<lambda>_. activate_outbound env (trusting K H key c)) (c, pc)"
    using m1(1) m2(1) m3 K srv client_finish_result [OF h assms(2) srv(4,5), of key K]
    by (auto simp: ec_parse_next_def ec_reply_def ec_K_def bind_res_eq_Inr on_t_def trusting_def Let_def)
  with r v(1) K srv(6) show ?thesis
    by - (rule exI [of _ K], rule exI [of _ key], rule exI [of _ H], rule exI [of _ v], rule exI [of _ rest], simp)
qed

section \<open>Public values out of range\<close>

text \<open>Claim C19. A public value below 1 or above p - 1 is refused with an exception by every Diffie-Hellman
  method on either side: nothing is sent, no secret or hash is stored, no key is activated, and no
  random bytes are used.\<close>

theorem bad_public_value_refused:
  "(server_mode t \<and> (fst (get_mpint m) < 1 \<or> P - 1 < fst (get_mpint m)) \<longrightarrow>
     (\<exists>msg k'. group_parse_next env P MSG_KEXDH_INIT m (t, k) = (Exn (SSHException msg), (t, k')))) \<and>
   (\<not> server_mode t \<and> (fst (get_mpint (snd (get_string m))) < 1 \<or> P - 1 < fst (get_mpint (snd (get_string m)))) \<longrightarrow>
     (\<exists>msg k'. group_parse_next env P MSG_KEXDH_REPLY m (t, k) = (Exn (SSHException msg), (t, k')))) \<and>
   (gx_p g = Some P \<and> (fst (get_mpint m) < 1 \<or> P - 1 < fst (get_mpint m)) \<longrightarrow>
     (\<exists>msg g'. gex_parse_next env GEX_INIT m (t, g) = (Exn (SSHException msg), (t, g')))) \<and>
   (gx_p g = Some P \<and> (fst (get_mpint (snd (get_string m))) < 1 \<or> P - 1 < fst (get_mpint (snd (get_string m)))) \<longrightarrow>
     (\<exists>msg g'. gex_parse_next env GEX_REPLY m (t, g) = (Exn (SSHException msg), (t, g'))))"
  by (auto simp: group_parse_next_def group_init_def group_reply_def gex_parse_next_def gex_init_def gex_reply_def
      upd_k_def need_def split: prod.splits)

section \<open>The exchange of small concrete peers\<close>

text \<open>A side that can activate keys as soon as it has a secret and a hash.\<close>

definition can_activate :: "crypto_env \<Rightarrow> transport \<Rightarrow> bool" where
  "can_activate env t \<longleftrightarrow> (\<forall>e b. kex_hash env e b \<noteq> []) \<and> map_of cipher_table (local_cipher t) \<noteq> None \<and>
     map_of mac_table (local_mac t) \<noteq> None \<and> local_compression t \<in> set compression_names \<and> \<not> sends_ext_info t"

lemma activation_returns:
  assumes "can_activate env t" and "has_keys t"
  shows "\<exists>t'. activate_outbound env t = (Ret (), t')"
proof -
  obtain info sizes where i: "map_of cipher_table (local_cipher t) = Some info" "map_of mac_table (local_mac t) = Some sizes"
    using assms(1) by (auto simp: can_activate_def)
  have d: "\<exists>k. derive env t c n = Ret k \<and> length k = nat n" for c n
    using assms by (intro compute_key_returns) (auto simp: can_activate_def)
  have "\<exists>u. setup_result (derive env t) (local_cipher t) (local_mac t) a b c sd = Ret u" for a b c sd
    using setup_result_returns [of "derive env t", OF d i(1), of "local_mac t" "fst sizes" "snd sizes"] i(2) by (metis prod.collapse)
  then obtain u where "outbound_setup env t = Ret u" unfolding outbound_setup_def Let_def by metis
  with outbound_succeeds assms(1) show ?thesis by (auto simp: can_activate_def)
qed

lemma server_finish_returns:
  assumes "hash_of env hfs s = Inr H" and "host_key_type s = Some alg"
    and "compose [msg_byte reply, FString key, mine, FString (sign_data env key H alg)] = Inr m"
    and "can_activate env s" and "int (length (deflate_long K True)) < 2 ^ 32"
  shows "\<exists>s'. server_finish env reply key hfs K mine s = (Ret (), s')"
proof -
  let ?t = "(with_keys K H s)\<lparr>calls := calls s @ [Send (msg_asbytes m)]\<rparr>"
  have "can_activate env ?t" using assms(4) by (simp add: can_activate_def with_keys_def sends_ext_info_def)
  moreover have "has_keys ?t" using assms(5) by (simp add: has_keys_def with_keys_def)
  ultimately obtain s' where "activate_outbound env ?t = (Ret (), s')" using activation_returns by blast
  with assms(1-3) have "server_finish env reply key hfs K mine s = (Ret (), s')"
    by (simp add: server_finish_def seqp_Ret exchange_hash_eq set_K_H_def with_keys_def Let_def t_send_sent)
  then show ?thesis by blast
qed

lemma compose_returns: "map_res enc_field fs = Inr bs \<Longrightarrow> \<exists>m. compose fs = Inr m"
  by (simp add: compose_def add_fields_enc)

definition demo_alg :: pystr where "demo_alg = lit ''ssh-ed25519''"

definition demo_peer :: "bool \<Rightarrow> bytes \<Rightarrow> transport" where
  "demo_peer srv e = (demo_side srv)\<lparr>local_version := [], remote_version := [], local_kex_init := Some [], remote_kex_init := Some [],
     host_key_type := Some demo_alg, server_key_dict := [(demo_alg, \<lparr>hk_name = demo_alg, hk_blob = [7], hk_rsa = False\<rparr>)],
     entropy := e\<rparr>"

lemma demo_alg_known: "demo_alg \<in> set key_names"
  by (simp add: demo_alg_def key_names_def)

lemma demo_paired: "paired (demo_peer False r) (demo_peer True r) demo_alg"
  using demo_alg_known
  by (simp add: paired_def demo_peer_def demo_side_def transcript_def need_def engine_name_def new_transport_def)

lemma demo_signs: "signs demo_env alg"
  by (simp add: signs_def demo_env_def)

lemma demo_can_activate: "can_activate demo_env (demo_peer srv r)"
  using demo_tables demo_hash
  by (simp add: can_activate_def demo_peer_def demo_side_def sends_ext_info_def new_transport_def)

lemma demo_server_key: "get_server_key (demo_peer True r) = Some \<lparr>hk_name = demo_alg, hk_blob = [7], hk_rsa = False\<rparr>"
  by (simp add: get_server_key_def demo_peer_def)

lemma demo_mpints:
  "enc_mpint 2 = Inr [0, 0, 0, 1, 2]" "enc_mpint 8 = Inr [0, 0, 0, 1, 8]" "enc_mpint 19 = Inr [0, 0, 0, 1, 19]"
  "enc_mpint 17 = Inr [0, 0, 0, 1, 17]" "enc_mpint 12 = Inr [0, 0, 0, 1, 12]" "enc_mpint 23 = Inr [0, 0, 0, 1, 23]"
  "enc_mpint 5 = Inr [0, 0, 0, 1, 5]" "enc_mpint 7 = Inr [0, 0, 0, 1, 7]"
  by code_simp+

lemma demo_deflated: "deflate_long 2 True = [2]" "deflate_long 12 True = [12]" "deflate_long 7 True = [7]"
  by code_simp+

lemma demo_hash_of:
  assumes "map_res enc_field hfs = Inr bs"
  shows "\<exists>H. hash_of demo_env hfs (demo_peer srv r) = Inr H \<and> length H \<le> 20"
proof -
  have e: "enc_text [] = Inr [0, 0, 0, 0]" "enc_string [] = Inr [0, 0, 0, 0]" by code_simp+
  obtain hm where "compose ([FText [], FText [], FString [], FString []] @ hfs) = Inr hm"
    using compose_returns [of "[FText [], FText [], FString [], FString []] @ hfs"] assms e by (auto simp: map_res_append)
  then show ?thesis
    by (cases srv) (simp_all add: hash_of_def transcript_def need_def demo_peer_def demo_side_def demo_env_def new_transport_def)
qed

lemma demo_reply:
  assumes "length H \<le> 20" and "enc_field mine = Inr b"
  shows "\<exists>m. compose [msg_byte n, FString [7], mine, FString (sign_data demo_env [7] H alg)] = Inr m"
  using compose_returns [of "[msg_byte n, FString [7], mine, FString (sign_data demo_env [7] H alg)]"] assms
  by (simp add: msg_byte_def enc_string_def pack_I_def demo_env_def)

lemma demo_finish:
  assumes "map_res enc_field hfs = Inr bs" and "enc_field mine = Inr b" and "length (deflate_long K True) = 1"
  shows "\<exists>s'. server_finish demo_env n [7] hfs K mine (demo_peer True r) = (Ret (), s')"
proof -
  obtain H where H: "hash_of demo_env hfs (demo_peer True r) = Inr H" "length H \<le> 20" using demo_hash_of [OF assms(1)] by blast
  obtain m where m: "compose [msg_byte n, FString [7], mine, FString (sign_data demo_env [7] H demo_alg)] = Inr m"
    using demo_reply [OF H(2) assms(2)] by blast
  have "host_key_type (demo_peer True r) = Some demo_alg" by (simp add: demo_peer_def)
  from server_finish_returns [OF H(1) this m demo_can_activate] assms(3) show ?thesis by simp
qed


definition demo_first_mpint :: "int \<Rightarrow> int \<Rightarrow> bytes" where
  "demo_first_mpint n e = (case compose [msg_byte n, FMpint e] of Inr m \<Rightarrow> tl (msg_asbytes m) | Inl _ \<Rightarrow> [])"

text \<open>The group of 23 with generator 5; the secret is 5 to the power of 6 times 15, which is 2.\<close>

lemma demo_coprime: "coprime (5 :: int) 23"
  by (simp add: coprime_iff_gcd_eq_1 gcd_non_0_int)

definition demo_dh :: "int \<Rightarrow> int \<Rightarrow> int \<Rightarrow> dh" where
  "demo_dh x e f = \<lparr>dh_x = x, dh_e = e, dh_f = f\<rparr>"

lemma demo_group_server:
  assumes "get_mpint m = (8, m')"
  shows "\<exists>s'. group_parse_next demo_env 23 MSG_KEXDH_INIT m (demo_peer True r, demo_dh 15 0 19) = (Ret (), (s', demo_dh 15 8 19))"
proof -
  have e: "map_res enc_field [FString [7], FMpint 8, FMpint 19, FMpint 2] =
    Inr [[0, 0, 0, 1, 7], [0, 0, 0, 1, 8], [0, 0, 0, 1, 19], [0, 0, 0, 1, 2]]"
    "enc_field (FMpint 19) = Inr [0, 0, 0, 1, 19]"
    by (simp_all add: demo_mpints) code_simp
  obtain s' where s': "server_finish demo_env MSG_KEXDH_REPLY [7] [FString [7], FMpint 8, FMpint 19, FMpint 2] 2 (FMpint 19)
      (demo_peer True r) = (Ret (), s')"
    using demo_finish [OF e] by (fastforce simp: demo_deflated)
  have p: "py_pow 8 15 23 = Inr 2" by (simp add: py_pow_def)
  have "server_mode (demo_peer True r)" by (simp add: demo_peer_def demo_side_def)
  then show ?thesis
    using assms s' p demo_server_key [of r]
    by (simp add: group_parse_next_def group_init_def upd_k_def demo_dh_def on_t_def seqp_def server_key_blob_def)
qed

theorem group_exchange_agrees_witness:
  "\<exists>m s' ks' key H reply rest. compose [msg_byte MSG_KEXDH_INIT, FMpint 8] = Inr m \<and>
    group_parse_next demo_env 23 MSG_KEXDH_INIT (message_of (tl (msg_asbytes m))) (demo_peer True [], demo_dh 15 0 19) = (Ret (), (s', ks')) \<and>
    calls s' = Send (31 # reply) # rest \<and> kex_K s' = Some 2 \<and> kex_H s' = Some H \<and>
    group_parse_next demo_env 23 MSG_KEXDH_REPLY (message_of reply) (demo_peer False [], demo_dh 6 8 0) =
      on_t (\<lambda>_. activate_outbound demo_env (trusting 2 H key (demo_peer False []))) (demo_peer False [], demo_dh 6 8 19)"
proof -
  obtain m where m: "compose [msg_byte MSG_KEXDH_INIT, FMpint 8] = Inr m"
    using compose_returns [of "[msg_byte MSG_KEXDH_INIT, FMpint 8]"] by (auto simp: msg_byte_def demo_mpints)
  obtain w where w: "msg_asbytes m = word_of_int 30 # w" "reads w [FMpint 8] [] (message_of w)"
    using msg_body [of MSG_KEXDH_INIT "[FMpint 8]" m] m by auto
  obtain m' where "get_mpint (message_of w) = (8, m')" using reads_mpint [OF w(2)] by blast
  then obtain s' where s': "group_parse_next demo_env 23 MSG_KEXDH_INIT (message_of (tl (msg_asbytes m))) (demo_peer True [], demo_dh 15 0 19) =
      (Ret (), (s', demo_dh 15 8 19))"
    using demo_group_server w(1) by fastforce
  have x: "dh_e (demo_dh 6 8 0) = modexp 23 (dh_x (demo_dh 6 8 0)) 5" "dh_f (demo_dh 15 0 19) = modexp 23 (dh_x (demo_dh 15 0 19)) 5"
    "coprime (5 :: int) 23" "(1 :: int) < 23"
    by (simp_all add: demo_dh_def modexp_def demo_coprime)
  have f: "dh_e (demo_dh 6 8 0) = 8" "dh_x (demo_dh 6 8 0) = 6" "dh_x (demo_dh 15 0 19) = 15" "dh_f (demo_dh 15 0 19) = 19"
    "(demo_dh 6 8 0)\<lparr>dh_f := 19\<rparr> = demo_dh 6 8 19" "calls (demo_peer True []) = []"
    by (simp_all add: demo_dh_def demo_peer_def demo_side_def new_transport_def)
  have m2: "compose [msg_byte MSG_KEXDH_INIT, FMpint (dh_e (demo_dh 6 8 0))] = Inr m" using m f by simp
  show ?thesis
    using group_exchange_agrees [OF demo_paired demo_signs x m2 s'] m s' unfolding f by (auto simp: Let_def)
qed


text \<open>The same group in group exchange; the server draws the exponent 7.\<close>

definition demo_gex :: "int option \<Rightarrow> int option \<Rightarrow> gex" where
  "demo_gex x e = new_gex\<lparr>gx_p := Some 23, gx_g := Some 5, gx_x := x, gx_e := e\<rparr>"

lemma demo_generate_x: "gx_p k = Some 23 \<Longrightarrow> gex_generate_x (demo_peer srv [7], k) = (Ret (), (demo_peer srv [], k\<lparr>gx_x := Some 7\<rparr>))"
proof -
  assume k: "gx_p k = Some 23"
  have "deflate_long 11 False = [11]" "mask_loop (byte_ord 11) 255 = Some 15" "gex_x_loop 11 1 15 [7] = (Ret 7, [])"
    by code_simp+
  with k show ?thesis
    by (simp add: gex_generate_x_def need_def py_index_def on_t_def on_entropy_def seqp_def upd_k_def demo_peer_def Let_def)
qed

lemma demo_gex_server:
  assumes "get_mpint m = (8, m')"
  shows "\<exists>s' ks'. gex_parse_next demo_env GEX_INIT m (demo_peer True [7], demo_gex None None) = (Ret (), (s', ks'))"
proof -
  let ?fs = "gex_fields [7] (demo_gex None None) 23 5 8 17 12"
  have "enc_field (FInt 2048) = Inr [0, 0, 8, 0]" "enc_field (FInt 8192) = Inr [0, 0, 32, 0]" "enc_field (FString [7]) = Inr [0, 0, 0, 1, 7]"
    by code_simp+
  then have e: "\<exists>bs. map_res enc_field ?fs = Inr bs"
    by (simp add: gex_fields_def demo_gex_def new_gex_def demo_mpints)
  obtain s' where s': "server_finish demo_env GEX_REPLY [7] ?fs 12 (FMpint 17) (demo_peer True []) = (Ret (), s')"
    using demo_finish [of ?fs _ "FMpint 17" _ 12 GEX_REPLY "[]"] e by (auto simp: demo_deflated demo_mpints)
  have p: "py_pow 8 7 23 = Inr 12" "py_pow 5 7 23 = Inr 17" by (simp_all add: py_pow_def)
  let ?k = "(demo_gex None None)\<lparr>gx_e := Some 8\<rparr>"
  have g: "gex_generate_x (demo_peer True [7], ?k) = (Ret (), (demo_peer True [], ?k\<lparr>gx_x := Some 7\<rparr>))"
    using demo_generate_x [of ?k True] by (simp add: demo_gex_def)
  have f: "gex_fields [7] (?k\<lparr>gx_x := Some 7\<rparr>) 23 5 8 17 12 = ?fs" by (simp add: gex_fields_def)
  have a: "gx_p (demo_gex None None) = Some 23" "gx_g (demo_gex None None) = Some 5" by (simp_all add: demo_gex_def)
  show ?thesis
    using assms s' p f a demo_server_key [of "[]"]
    by (simp add: gex_parse_next_def gex_init_def upd_k_def need_def on_t_def server_key_blob_def seqp_def g)
qed

theorem gex_exchange_agrees_witness:
  "\<exists>m s' ks' xs key H reply rest. compose [msg_byte GEX_INIT, FMpint 8] = Inr m \<and>
    gex_parse_next demo_env GEX_INIT (message_of (tl (msg_asbytes m))) (demo_peer True [7], demo_gex None None) = (Ret (), (s', ks')) \<and>
    1 < xs \<and> xs < 11 \<and> calls s' = Send (33 # reply) # rest \<and> kex_K s' = Some (5 ^ (6 * nat xs) mod 23) \<and>
    gex_parse_next demo_env GEX_REPLY (message_of reply) (demo_peer False [], demo_gex (Some 6) (Some 8)) =
      on_t (\<lambda>_. activate_outbound demo_env (trusting (5 ^ (6 * nat xs) mod 23) H key (demo_peer False [])))
        (demo_peer False [], (demo_gex (Some 6) (Some 8))\<lparr>gx_f := Some (modexp 23 xs 5)\<rparr>)"
proof -
  obtain m where m: "compose [msg_byte GEX_INIT, FMpint 8] = Inr m"
    using compose_returns [of "[msg_byte GEX_INIT, FMpint 8]"] by (auto simp: msg_byte_def demo_mpints)
  obtain w where w: "msg_asbytes m = word_of_int 32 # w" "reads w [FMpint 8] [] (message_of w)"
    using msg_body [of GEX_INIT "[FMpint 8]" m] m by auto
  obtain m' where "get_mpint (message_of w) = (8, m')" using reads_mpint [OF w(2)] by blast
  then obtain s' ks' where s': "gex_parse_next demo_env GEX_INIT (message_of (tl (msg_asbytes m))) (demo_peer True [7], demo_gex None None) =
      (Ret (), (s', ks'))"
    using demo_gex_server w(1) by fastforce
  have e: "modexp 23 6 5 = 8" by (simp add: modexp_def)
  have c: "coprime (5 :: int) 23" "(1 :: int) < 23" by (simp_all add: demo_coprime)
  have q: "paired (demo_peer False []) (demo_peer True [7]) demo_alg"
    using demo_paired [of "[]"] by (simp add: paired_def demo_peer_def transcript_def engine_name_def need_def)
  have a: "gx_p (demo_gex (Some 6) (Some 8)) = Some 23" "gx_g (demo_gex (Some 6) (Some 8)) = Some 5"
    "gx_x (demo_gex (Some 6) (Some 8)) = Some 6" "gx_e (demo_gex (Some 6) (Some 8)) = Some (modexp 23 6 5)"
    "gx_p (demo_gex None None) = Some 23" "gx_g (demo_gex None None) = Some 5"
    by (simp_all add: demo_gex_def e)
  have b: "(old_style (demo_gex x y), min_bits (demo_gex x y), preferred_bits (demo_gex x y), max_bits (demo_gex x y)) =
      (False, 2048, 2048, 8192)" for x y
    by (simp add: demo_gex_def new_gex_def)
  have m2: "compose [msg_byte GEX_INIT, FMpint (modexp 23 6 5)] = Inr m" using m e by simp
  have z: "calls (demo_peer True [7]) = []" by (simp add: demo_peer_def demo_side_def new_transport_def)
  show ?thesis
    using gex_exchange_agrees [OF q demo_signs a c _ m2 s'] m s' unfolding b z
    by (simp add: Let_def) blast
qed

text \<open>The demonstration curve adds the bytes of the two keys.\<close>

lemma map2_add_commute: "map2 (+) a b = map2 (+) b (a :: bytes)"
  by (rule nth_equalityI) (auto simp: add.commute)

lemma demo_ec_agrees: "ec_agrees demo_env eng"
  by (simp add: ec_agrees_def demo_env_def map2_add_commute)

lemma demo_ec_K: "ec_K demo_env mont eng [3] [4] = Inr 7"
proof -
  have "[7] \<noteq> replicate 32 (0 :: byte)" by (auto dest: arg_cong [where f = length])
  moreover have "be_val [7] = 7" by code_simp
  ultimately show ?thesis by (simp add: ec_K_def ec_secret_def perform_exchange_def demo_env_def int_of_bytes_def)
qed

lemma demo_ec_server:
  assumes "get_string m = ([4], m')"
  shows "\<exists>s'. ec_parse_next demo_env mont MSG_KEXECDH_INIT m (demo_peer True r, [3]) = (Ret (), (s', [3]))"
proof -
  have "enc_string [7] = Inr [0, 0, 0, 1, 7]" "enc_string [4] = Inr [0, 0, 0, 1, 4]" "enc_string [3] = Inr [0, 0, 0, 1, 3]"
    by code_simp+
  then have e: "map_res enc_field [FString [7], FString [4], FString [3], FMpint 7] =
      Inr [[0, 0, 0, 1, 7], [0, 0, 0, 1, 4], [0, 0, 0, 1, 3], [0, 0, 0, 1, 7]]" "enc_field (FString [3]) = Inr [0, 0, 0, 1, 3]"
    by (simp_all add: demo_mpints)
  obtain s' where s': "server_finish demo_env MSG_KEXECDH_REPLY [7] [FString [7], FString [4], FString [3], FMpint 7] 7 (FString [3])
      (demo_peer True r) = (Ret (), s')"
    using demo_finish [OF e] by (fastforce simp: demo_deflated)
  have K: "ec_point demo_env g [4] = Inr [4]" "ec_secret demo_env mont g [3] [4] = Inr 7" "ec_public demo_env g [3] = [3]" for g
    using demo_ec_K [of mont] by (simp_all add: ec_K_def demo_env_def)
  have "server_mode (demo_peer True r)" by (simp add: demo_peer_def demo_side_def)
  then show ?thesis
    using assms s' K demo_server_key [of r]
    by (cases mont) (simp_all add: ec_parse_next_def ec_init_def nist_init_def curve25519_init_def on_t_def seqp_def server_key_blob_def Let_def)
qed

theorem ec_exchange_agrees_witness:
  "\<exists>m s' ps' key H reply rest. compose [msg_byte MSG_KEXECDH_INIT, FString [4]] = Inr m \<and>
    ec_parse_next demo_env True MSG_KEXECDH_INIT (message_of (tl (msg_asbytes m))) (demo_peer True [], [3]) = (Ret (), (s', ps')) \<and>
    calls s' = Send (31 # reply) # rest \<and> kex_K s' = Some 7 \<and>
    ec_parse_next demo_env True MSG_KEXECDH_REPLY (message_of reply) (demo_peer False [], [4]) =
      on_t (\<lambda>_. activate_outbound demo_env (trusting 7 H key (demo_peer False []))) (demo_peer False [], [4])"
proof -
  have e: "enc_string [4] = Inr [0, 0, 0, 1, 4]" by code_simp
  obtain m where m: "compose [msg_byte MSG_KEXECDH_INIT, FString [4]] = Inr m"
    using compose_returns [of "[msg_byte MSG_KEXECDH_INIT, FString [4]]"] e by (auto simp: msg_byte_def)
  obtain w where w: "msg_asbytes m = word_of_int 30 # w" "reads w [FString [4]] [] (message_of w)"
    using msg_body [of MSG_KEXECDH_INIT "[FString [4]]" m] m by auto
  obtain m' where "get_string (message_of w) = ([4], m')" using reads_string [OF w(2)] by blast
  then obtain s' where s': "ec_parse_next demo_env True MSG_KEXECDH_INIT (message_of (tl (msg_asbytes m))) (demo_peer True [], [3]) =
      (Ret (), (s', [3]))"
    using demo_ec_server w(1) by fastforce
  have p: "ec_public demo_env g x = x" for g x by (simp add: demo_env_def)
  have m2: "compose [msg_byte MSG_KEXECDH_INIT, FString (ec_public demo_env (engine_name (demo_peer False [])) [4])] = Inr m"
    using m p by simp
  have z: "calls (demo_peer True []) = []" by (simp add: demo_peer_def demo_side_def new_transport_def)
  have c: "ec_K demo_env True g [4] [3] = Inr 7" for g
  proof -
    have "ec_K demo_env True g [4] (ec_public demo_env g [3]) = ec_K demo_env True g [3] (ec_public demo_env g [4])"
      by (rule ec_K_agrees [OF demo_ec_agrees])
    then show ?thesis by (simp add: p demo_ec_K)
  qed
  show ?thesis
    using ec_exchange_agrees [OF demo_paired demo_signs demo_ec_agrees m2 s'] m s' c unfolding z p by auto
qed

theorem bad_public_value_refused_witness:
  "(\<exists>msg k'. group_parse_next demo_env 23 MSG_KEXDH_INIT (message_of []) (demo_peer True [], demo_dh 15 0 19) =
      (Exn (SSHException msg), (demo_peer True [], k'))) \<and>
   (\<exists>msg k'. group_parse_next demo_env 23 MSG_KEXDH_REPLY (message_of []) (demo_peer False [], demo_dh 6 8 0) =
      (Exn (SSHException msg), (demo_peer False [], k'))) \<and>
   (\<exists>msg g'. gex_parse_next demo_env GEX_INIT (message_of []) (demo_peer True [], demo_gex None None) =
      (Exn (SSHException msg), (demo_peer True [], g'))) \<and>
   (\<exists>msg g'. gex_parse_next demo_env GEX_REPLY (message_of []) (demo_peer False [], demo_gex (Some 6) (Some 8)) =
      (Exn (SSHException msg), (demo_peer False [], g')))"
proof -
  have z: "fst (get_mpint (message_of [])) < 1" "fst (get_mpint (snd (get_string (message_of [])))) < 1" by code_simp+
  have d: "server_mode (demo_peer True [])" "\<not> server_mode (demo_peer False [])" "gx_p (demo_gex x e) = Some 23" for x e
    by (simp_all add: demo_peer_def demo_side_def demo_gex_def)
  note srv = bad_public_value_refused [of "demo_peer True []" "message_of []" 23 demo_env "demo_dh 15 0 19" "demo_gex None None"]
  note cli = bad_public_value_refused [of "demo_peer False []" "message_of []" 23 demo_env "demo_dh 6 8 0" "demo_gex (Some 6) (Some 8)"]
  show ?thesis
    by (intro conjI srv [THEN conjunct1, THEN mp] cli [THEN conjunct2, THEN conjunct1, THEN mp]
        srv [THEN conjunct2, THEN conjunct2, THEN conjunct1, THEN mp] cli [THEN conjunct2, THEN conjunct2, THEN conjunct2, THEN mp]
        disjI1 z d)
qed

section \<open>The client's exponent\<close>

text \<open>
  The group a server sends is checked by its bit length only, and the bit length of a negative number is that
  of its absolute value. With a negative (or too small) modulus no exponent is ever accepted: the
  client does not return from the generation, however many random bytes it is given.
\<close>

lemma small_modulus_never_ends:
  assumes "gx_p k = Some p" and "p \<le> 6"
  shows "fst (gex_generate_x (t, k)) \<noteq> Ret ()"
proof
  assume "fst (gex_generate_x (t, k)) = Ret ()"
  then obtain t' k' where "gex_generate_x (t, k) = (Ret (), (t', k'))" by (metis prod.collapse)
  with gex_generate_x_Ret assms show False by fastforce
qed

lemma negative_bit_length: "bit_length (- (2 ^ 7)) = 8" "bit_length (2 ^ 7) = 8"
  by code_simp+

end
