(* ===== verification/Auth_Props.thy ===== *)
theory Auth_Props
  imports Auth_Handler Kex_Props
begin

text \<open>
  Properties of the authentication: a server is authenticated only by a request its application
  approved (and, for public keys, with a verified signature over this session), the user name stays
  fixed, at most ten failures are answered, and a client's public key request is accepted by a server that approves the key.
\<close>

section \<open>What a method does to the handler and to the transport\<close>

definition keeps_auth :: "(auth, 'a) kprog \<Rightarrow> bool" where
  "keeps_auth p \<longleftrightarrow> (\<forall>t k. snd (snd (p (t, k))) = k)"

named_theorems keeps_intro \<open>methods that leave the handler unchanged\<close>

lemma keeps_authD: "keeps_auth p \<Longrightarrow> p (t, k) = (r, (t', k')) \<Longrightarrow> k' = k"
  by (metis keeps_auth_def snd_conv)

lemma keeps_on_t [keeps_intro]: "keeps_auth (on_t p)"
  by (simp add: keeps_auth_def on_t_def split: prod.splits)

lemma keeps_basic [keeps_intro]: "keeps_auth (ret x)" "keeps_auth (raise e)" "keeps_auth (gets f)" "keeps_auth (liftr r)"
  by (simp_all add: keeps_auth_def liftr_def)

lemma keeps_seqp [keeps_intro]: "keeps_auth p \<Longrightarrow> (\<And>x. keeps_auth (f x)) \<Longrightarrow> keeps_auth (seqp p f)"
  unfolding keeps_auth_def seqp_def by (auto split: prod.splits outcome.splits) (metis snd_conv)+

lemma keeps_messages [keeps_intro]:
  "keeps_auth disconnect_service_not_available" "keeps_auth disconnect_no_more_auth" "keeps_auth (interactive_query_msg q)"
  unfolding disconnect_service_not_available_def disconnect_no_more_auth_def interactive_query_msg_def
  by (intro keeps_intro)+

text \<open>What the transport keeps throughout the authentication.\<close>

definition core :: "transport \<Rightarrow> bool \<times> bytes option \<times> pystr list" where
  "core t = (server_mode t, session_id t, preferred_pubkeys t)"

lemma core_upd [simp]:
  "core (t\<lparr>calls := x\<rparr>) = core t" "core (t\<lparr>active := b\<rparr>) = core t" "core (t\<lparr>authenticated := b\<rparr>) = core t"
  by (simp_all add: core_def preferred_pubkeys_def filter_algorithm_def disabled_def)

definition keeps_core :: "(auth, 'a) kprog \<Rightarrow> bool" where
  "keeps_core p \<longleftrightarrow> (\<forall>c. preserves (\<lambda>(t, k). core t = c) p)"

lemma keeps_coreD: "keeps_core p \<Longrightarrow> p (t, k) = (r, (t', k')) \<Longrightarrow> core t' = core t"
proof -
  assume a: "keeps_core p" and p: "p (t, k) = (r, (t', k'))"
  from a have "preserves (\<lambda>(u, k). core u = core t) p"
    unfolding keeps_core_def by blast
  from preservesD [OF this _ p] show ?thesis by simp
qed

named_theorems core_intro \<open>methods that keep the core\<close>

lemma core_basic [core_intro]: "keeps_core (ret x)" "keeps_core (raise e)" "keeps_core (gets f)" "keeps_core (liftr r)" "keeps_core (upd_k g)"
  by (auto simp: keeps_core_def preserves_def liftr_def upd_k_def)

lemma core_seqp [core_intro]: "keeps_core p \<Longrightarrow> (\<And>x. keeps_core (f x)) \<Longrightarrow> keeps_core (seqp p f)"
  by (auto simp: keeps_core_def intro: preserves_seqp)

lemma core_if [core_intro]: "keeps_core p \<Longrightarrow> keeps_core q \<Longrightarrow> keeps_core (if b then p else q)"
  by simp

lemma core_send [core_intro]: "keeps_core (on_t (t_send fs))"
  by (auto simp: keeps_core_def preserves_def on_t_def t_send_def seqp_def liftr_def call_def split: sum.splits)

lemma core_close [core_intro]: "keeps_core (on_t t_close)"
  by (auto simp: keeps_core_def preserves_def on_t_def t_close_def stop_thread_def seqp_def call_def)

lemma core_trigger [core_intro]: "keeps_core (on_t auth_trigger)"
  by (auto simp: keeps_core_def preserves_def on_t_def auth_trigger_def seqp_def call_def whenp_def)

lemma core_messages [core_intro]:
  "keeps_core disconnect_service_not_available" "keeps_core disconnect_no_more_auth" "keeps_core (interactive_query_msg q)"
  unfolding disconnect_service_not_available_def disconnect_no_more_auth_def interactive_query_msg_def
  by (intro core_intro)+

section \<open>The result of a request\<close>

definition with_result :: "int \<Rightarrow> auth \<Rightarrow> auth" where
  "with_result r k =
     (if r = AUTH_SUCCESSFUL then k\<lparr>a_authenticated := True\<rparr>
      else if r = AUTH_PARTIALLY_SUCCESSFUL then k else k\<lparr>auth_fail_count := auth_fail_count k + 1\<rparr>)"

lemma send_result_k: "snd (snd (send_result srv u r (t, k))) = with_result r k"
  by (auto simp: send_result_def with_result_def upd_k_def on_t_def split: prod.splits)

lemma keeps_after [keeps_intro]: "keeps_auth (after_result r)"
  unfolding after_result_def by (intro keeps_intro) (auto intro: keeps_intro)

lemma seqp_keeps:
  assumes "seqp p f (t, k) = (r, (t', k'))" and "\<And>x. keeps_auth (f x)"
  shows "k' = snd (snd (p (t, k)))"
  using assms by (auto simp: seqp_def split: prod.splits outcome.splits) (metis keeps_authD)

lemma send_auth_result_k: "send_auth_result srv u r (t, k) = (o', (t', k')) \<Longrightarrow> k' = with_result r k"
  unfolding send_auth_result_def using seqp_keeps keeps_after send_result_k by metis

lemma send_auth_result_core [core_intro]: "keeps_core (send_auth_result srv u r)"
  unfolding send_auth_result_def send_result_def after_result_def by (intro core_intro)

text \<open>A failure that fills the count closes the transport.\<close>

lemma closed_after_disconnect: "disconnect_no_more_auth s = (Ret (), s') \<Longrightarrow> \<not> active (fst s')"
proof -
  have c: "t_close t = (Ret (), t') \<Longrightarrow> \<not> active t'" for t t'
    by (auto simp: t_close_def stop_thread_def call_def split: if_splits)
  assume "disconnect_no_more_auth s = (Ret (), s')"
  then obtain s1 where "on_t t_close s1 = (Ret (), s')" by (auto simp: disconnect_no_more_auth_def seqp_Ret)
  with c show ?thesis by (cases s1; cases s') (auto simp: on_t_Ret)
qed

lemma trigger_active: "on_t auth_trigger (t, k) = (o', (t', k')) \<Longrightarrow> active t' = active t"
  by (auto simp: on_t_def auth_trigger_def seqp_def call_def whenp_def split: prod.splits if_splits)

lemma after_result_closes:
  assumes "after_result r (t, k) = (Ret (), (t', k'))" and "10 \<le> auth_fail_count k"
  shows "\<not> active t'"
proof -
  from assms obtain t2 k2 where d: "disconnect_no_more_auth (t, k) = (Ret (), (t2, k2))"
    "(if r = AUTH_SUCCESSFUL then on_t auth_trigger else ret ()) (t2, k2) = (Ret (), (t', k'))"
    by (auto simp: after_result_def seqp_Ret simp del: AUTH_SUCCESSFUL_def)
  from closed_after_disconnect [OF d(1)] have "\<not> active t2" by simp
  with d(2) show ?thesis by (cases "r = AUTH_SUCCESSFUL") (auto simp del: AUTH_SUCCESSFUL_def dest: trigger_active)
qed

lemma send_auth_result_closes:
  assumes "send_auth_result srv u r (t, k) = (Ret (), (t', k'))" and "10 \<le> auth_fail_count (with_result r k)"
  shows "\<not> active t'"
proof -
  from assms(1) obtain t1 k1 where s: "send_result srv u r (t, k) = (Ret (), (t1, k1))" "after_result r (t1, k1) = (Ret (), (t', k'))"
    by (auto simp: send_auth_result_def seqp_Ret)
  with send_result_k [of srv u r t k] assms(2) after_result_closes show ?thesis by simp
qed


section \<open>What a server must have agreed to\<close>

text \<open>The application's decision on the rest \<open>m\<close> of a request; for a public key, also the signature over the session.\<close>

definition publickey_granted :: "auth_env \<Rightarrow> server_obj \<Rightarrow> transport \<Rightarrow> pystr \<Rightarrow> message \<Rightarrow> bool" where
  "publickey_granted env srv t username m =
     (let (sig_attached, m) = get_boolean m
      in case get_text m of
           Inl _ \<Rightarrow> False
         | Inr (algorithm, m) \<Rightarrow>
             let (keyblob, m) = get_binary m; (sig, m) = get_binary m
             in sig_attached \<and>
                (case requested_key env algorithm keyblob t of
                   None \<Rightarrow> False
                 | Some key \<Rightarrow>
                     check_auth_publickey srv username key = AUTH_SUCCESSFUL \<and>
                     (case session_blob key ssh_connection username algorithm t of
                        Inl _ \<Rightarrow> False
                      | Inr blob \<Rightarrow> verify_ssh_sig env key blob sig = Inr True)))"

definition granted :: "auth_env \<Rightarrow> server_obj \<Rightarrow> transport \<Rightarrow> pystr \<Rightarrow> pystr \<Rightarrow> message \<Rightarrow> bool" where
  "granted env srv t username meth m =
     (if meth = m_password then password_result srv username m = AUTH_SUCCESSFUL
      else if meth = m_publickey then publickey_granted env srv t username m
      else if meth = m_interactive then check_auth_interactive srv username (fst (get_string m)) = Verdict AUTH_SUCCESSFUL
      else check_auth_none srv username = AUTH_SUCCESSFUL)"

text \<open>A message that lets the client in: a user authentication request for the fixed user, or a
  response to a query.\<close>

definition lets_in :: "auth_env \<Rightarrow> server_obj \<Rightarrow> int \<Rightarrow> message \<Rightarrow> transport \<times> auth \<Rightarrow> pystr option \<Rightarrow> bool" where
  "lets_in env srv ptype m s user =
     (if ptype = MSG_USERAUTH_REQUEST then
        (\<exists>u m1 m2 meth m3. get_text m = Inr (u, m1) \<and> get_text m1 = Inr (ssh_connection, m2) \<and> get_text m2 = Inr (meth, m3) \<and>
           user = Some u \<and> (auth_username (snd s) = None \<or> auth_username (snd s) = Some u) \<and> granted env srv (fst s) u meth m3)
      else
        ptype = MSG_USERAUTH_INFO_RESPONSE \<and> user = auth_username (snd s) \<and>
        (\<exists>rs. read_texts (nat (fst (get_int m))) (snd (get_int m)) = Inr rs \<and>
          check_auth_interactive_response srv rs = Verdict AUTH_SUCCESSFUL))"

lemma with_result_simps [simp]:
  "auth_username (with_result r k) = auth_username k"
  "a_authenticated (with_result r k) \<longleftrightarrow> a_authenticated k \<or> r = AUTH_SUCCESSFUL"
  "auth_fail_count (with_result r k) \<le> auth_fail_count k + 1"
  by (auto simp: with_result_def)

text \<open>The possible effects of one handler: nothing, or a result \<open>r\<close> (\<open>ok\<close> is what \<open>AUTH_SUCCESSFUL\<close> would mean).\<close>

definition one_result :: "bool \<Rightarrow> auth \<Rightarrow> unit outcome \<Rightarrow> transport \<Rightarrow> auth \<Rightarrow> bool" where
  "one_result ok k r t' k' \<longleftrightarrow>
     k' = k \<or> (\<exists>res. k' = with_result res k \<and> (res = AUTH_SUCCESSFUL \<longrightarrow> ok) \<and>
       (r = Ret () \<and> 10 \<le> auth_fail_count k' \<longrightarrow> \<not> active t'))"

lemma one_result_send:
  assumes "send_auth_result srv u res (t, k) = (r, (t', k'))" and "res = AUTH_SUCCESSFUL \<Longrightarrow> ok"
  shows "one_result ok k r t' k'"
  using send_auth_result_k [OF assms(1)] send_auth_result_closes [of srv u res t k t' k'] assms
  unfolding one_result_def by blast

lemma one_result_keeps: "keeps_auth p \<Longrightarrow> p (t, k) = (r, (t', k')) \<Longrightarrow> one_result ok k r t' k'"
  by (simp add: one_result_def keeps_authD)

lemma one_result_verdict:
  assumes "answer_verdict srv u v (t, k) = (r, (t', k'))" and "v = Verdict AUTH_SUCCESSFUL \<Longrightarrow> ok"
  shows "one_result ok k r t' k'"
proof (cases v)
  case (Query q)
  with assms(1) show ?thesis by (auto simp: answer_verdict_def intro: one_result_keeps keeps_intro)
next
  case (Verdict x)
  with assms show ?thesis by (intro one_result_send [of srv u x t k]) (auto simp: answer_verdict_def)
qed

lemma one_result_same [simp]: "one_result ok k r t' k"
  by (simp add: one_result_def)

lemma publickey_one_result:
  assumes "publickey_request env srv u ssh_connection m (t, k) = (r, (t', k'))"
  shows "one_result (publickey_granted env srv t u m) k r t' k'"
proof -
  obtain att m1 where m1: "get_boolean m = (att, m1)" by fastforce
  show ?thesis
  proof (cases "get_text m1")
    case (Inl e)
    with assms m1 show ?thesis by (simp add: publickey_request_def)
  next
    case (Inr am)
    obtain alg m2 where m2: "get_text m1 = Inr (alg, m2)" using Inr by (cases am) auto
    obtain kb m3 where m3: "get_binary m2 = (kb, m3)" by fastforce
    obtain sig m4 where m4: "get_binary m3 = (sig, m4)" by fastforce
    note split = assms [unfolded publickey_request_def m1 m2 m3 Let_def prod.case seqp_liftr seqp_gets fst_conv]
    show ?thesis
    proof (cases "requested_key env alg kb t")
      case None
      with split show ?thesis by (auto intro: one_result_keeps keeps_intro)
    next
      case (Some key)
      let ?res = "check_auth_publickey srv u key"
      show ?thesis
      proof (cases "?res = AUTH_FAILED")
        case True
        with split Some show ?thesis by (auto intro!: one_result_send [of srv u ?res t k])
      next
        case no: False
        show ?thesis
        proof (cases att)
          case False
          with split Some no show ?thesis by (auto intro: one_result_keeps keeps_intro)
        next
          case True
          show ?thesis
          proof (cases "session_blob key ssh_connection u alg t")
            case (Inl e)
            with split Some no True m4 show ?thesis by simp
          next
            case blob: (Inr blob)
            show ?thesis
            proof (cases "verify_ssh_sig env key blob sig")
              case (Inl e)
              with split Some no True m4 blob show ?thesis by simp
            next
              case (Inr ok)
              have s: "send_auth_result srv u (if ok then ?res else AUTH_FAILED) (t, k) = (r, (t', k'))"
                using split Some no True m4 blob Inr by simp
              show ?thesis
                by (rule one_result_send [OF s])
                  (use m1 m2 m3 m4 Some True blob Inr in \<open>auto simp: publickey_granted_def split: if_splits\<close>)
            qed
          qed
        qed
      qed
    qed
  qed
qed


lemma method_one_result:
  assumes "method_request env srv u ssh_connection meth m (t, k) = (r, (t', k'))"
  shows "one_result (granted env srv t u meth m) k r t' k'"
proof -
  have d: "m_none \<noteq> m_password" "m_none \<noteq> m_publickey" "m_none \<noteq> m_interactive"
    by (simp_all add: m_none_def m_password_def m_publickey_def m_interactive_def)
  consider "meth = m_password" | "meth \<noteq> m_password" "meth = m_publickey"
    | "meth \<noteq> m_password" "meth \<noteq> m_publickey" "meth = m_interactive"
    | "meth \<noteq> m_password" "meth \<noteq> m_publickey" "meth \<noteq> m_interactive" by blast
  then show ?thesis
  proof cases
    case 1
    with assms d show ?thesis by (intro one_result_send) (auto simp: method_request_def granted_def)
  next
    case 2
    with assms d publickey_one_result [of env srv u m t k] show ?thesis by (auto simp: method_request_def granted_def)
  next
    case 3
    with assms d show ?thesis by (intro one_result_verdict) (auto simp: method_request_def granted_def)
  next
    case 4
    with assms have "send_auth_result srv u (check_auth_none srv u) (t, k) = (r, (t', k'))"
      by (auto simp: method_request_def split: if_splits)
    with 4 show ?thesis by (intro one_result_send) (auto simp: granted_def)
  qed
qed

text \<open>One handler of the server, on the state in which it starts.\<close>

lemma request_step:
  assumes "parse_userauth_request env srv m (t, k) = (r, (t', k'))" and "server_mode t"
  shows "one_result False k r t' k' \<or>
    (\<exists>u. (auth_username k = None \<or> auth_username k = Some u) \<and> \<not> a_authenticated k \<and>
      one_result (lets_in env srv MSG_USERAUTH_REQUEST m (t, k) (Some u)) (k\<lparr>auth_username := Some u\<rparr>) r t' k')"
proof (cases "a_authenticated k")
  case True
  with assms show ?thesis by (auto simp: parse_userauth_request_def)
next
  case False
  show ?thesis
  proof (cases "get_text m")
    case (Inl e)
    with assms False show ?thesis by (auto simp: parse_userauth_request_def)
  next
    case (Inr um)
    obtain u m1 where u: "get_text m = Inr (u, m1)" using Inr by (cases um) auto
    show ?thesis
    proof (cases "get_text m1")
      case (Inl e)
      with assms False u show ?thesis by (auto simp: parse_userauth_request_def)
    next
      case (Inr sm)
      obtain service m2 where sv: "get_text m1 = Inr (service, m2)" using Inr by (cases sm) auto
      show ?thesis
      proof (cases "get_text m2")
        case (Inl e)
        with assms False u sv show ?thesis by (auto simp: parse_userauth_request_def)
      next
        case (Inr mm)
        obtain meth m3 where me: "get_text m2 = Inr (meth, m3)" using Inr by (cases mm) auto
        note split = assms(1) [unfolded parse_userauth_request_def seqp_gets id_apply prod.case]
        consider "service \<noteq> ssh_connection" | "service = ssh_connection" "auth_username k \<noteq> None" "auth_username k \<noteq> Some u"
          | "service = ssh_connection" "auth_username k = None \<or> auth_username k = Some u"
          by (cases "service = ssh_connection"; cases "auth_username k = None \<or> auth_username k = Some u") auto
        then show ?thesis
        proof cases
          case 1
          with split assms(2) False u sv me show ?thesis by (auto intro: one_result_keeps keeps_intro)
        next
          case 2
          with split assms(2) False u sv me show ?thesis by (auto intro: one_result_keeps keeps_intro)
        next
          case 3
          then have "method_request env srv u ssh_connection meth m3 (t, k\<lparr>auth_username := Some u\<rparr>) = (r, (t', k'))"
            using split assms(2) False u sv me by (auto simp: upd_k_def)
          from method_one_result [OF this] 3 False u sv me show ?thesis
            by (intro disjI2 exI [of _ u]) (auto simp: lets_in_def one_result_def)
        qed
      qed
    qed
  qed
qed

lemma response_step:
  assumes "parse_info_response srv m (t, k) = (r, (t', k'))"
  shows "one_result (lets_in env srv MSG_USERAUTH_INFO_RESPONSE m (t, k) (auth_username k)) k r t' k'"
proof (cases "server_mode t")
  case False
  with assms show ?thesis by (simp add: parse_info_response_def)
next
  case True
  obtain n m1 where n: "get_int m = (n, m1)" by fastforce
  show ?thesis
  proof (cases "read_texts (nat n) m1")
    case (Inl e)
    with assms True n show ?thesis by (simp add: parse_info_response_def)
  next
    case (Inr rs)
    with assms True n have "answer_verdict srv (case auth_username k of None \<Rightarrow> [] | Some u \<Rightarrow> u)
        (check_auth_interactive_response srv rs) (t, k) = (r, (t', k'))"
      by (simp add: parse_info_response_def)
    then show ?thesis
      by (rule one_result_verdict) (use Inr n in \<open>simp add: lets_in_def\<close>)
  qed
qed

lemma service_step:
  assumes "parse_service_request srv m (t, k) = (r, (t', k'))"
  shows "k' = k"
proof -
  have "keeps_auth (parse_service_request srv m)"
    unfolding parse_service_request_def
    by (intro keeps_intro) (auto split: option.splits prod.splits intro!: keeps_intro)
  from keeps_authD [OF this assms] show ?thesis .
qed

lemma core_handlers:
  assumes "server_handler env srv ptype m = Some p"
  shows "keeps_core p"
proof -
  have v: "keeps_core (answer_verdict srv u v)" for u v
    unfolding answer_verdict_def by (cases v) (auto intro: core_intro)
  have p: "keeps_core (publickey_request env srv u service m)" for u service m
    unfolding publickey_request_def Let_def
    by (auto split: option.splits prod.splits intro!: core_intro)
  have q: "keeps_core (parse_userauth_request env srv m)"
    unfolding parse_userauth_request_def method_request_def
    by (auto split: prod.splits intro!: core_intro v p)
  have s: "keeps_core (parse_service_request srv m)"
    unfolding parse_service_request_def by (auto split: option.splits prod.splits intro!: core_intro)
  have i: "keeps_core (parse_info_response srv m)"
    unfolding parse_info_response_def Let_def by (auto split: prod.splits intro!: core_intro v)
  from assms q s i show ?thesis by (auto simp: server_handler_def split: if_splits)
qed


section \<open>Runs of a server\<close>

text \<open>
  The messages a server gets, each with the application's answers at that time. Types outside the
  table do nothing here; the transport's loop ends when it is closed, and by an exception.
\<close>

fun server_run :: "auth_env \<Rightarrow> (server_obj \<times> int \<times> message) list \<Rightarrow> transport \<times> auth \<Rightarrow> transport \<times> auth" where
  "server_run env [] s = s"
| "server_run env ((srv, ptype, m) # es) s =
     (if \<not> active (fst s) then s
      else case server_handler env srv ptype m of
             None \<Rightarrow> server_run env es s
           | Some p \<Rightarrow> (case p s of (Ret _, s') \<Rightarrow> server_run env es s' | (_, s') \<Rightarrow> s'))"

lemma handler_step:
  assumes "server_handler env srv ptype m = Some p" and "p (t, k) = (r, (t', k'))" and "server_mode t"
  shows "one_result False k r t' k' \<or>
    (\<exists>user. (auth_username k = user \<or> auth_username k = None \<and> \<not> a_authenticated k) \<and>
      one_result (lets_in env srv ptype m (t, k) user) (k\<lparr>auth_username := user\<rparr>) r t' k')"
proof -
  from assms(1) consider "ptype = MSG_SERVICE_REQUEST" "p = parse_service_request srv m"
    | "ptype = MSG_USERAUTH_REQUEST" "p = parse_userauth_request env srv m"
    | "ptype = MSG_USERAUTH_INFO_RESPONSE" "p = parse_info_response srv m"
    by (auto simp: server_handler_def split: if_splits)
  then show ?thesis
  proof cases
    case 1
    with service_step [of srv m t k r t' k'] assms(2) show ?thesis by simp
  next
    case 2
    with request_step [of env srv m t k r t' k'] assms(2,3) show ?thesis by blast
  next
    case 3
    with response_step [of srv m t k r t' k' env] assms(2) have
      "one_result (lets_in env srv ptype m (t, k) (auth_username k)) (k\<lparr>auth_username := auth_username k\<rparr>) r t' k'" by simp
    then show ?thesis by blast
  qed
qed

lemma one_result_fields:
  "one_result ok k r t' k' \<Longrightarrow> a_authenticated k \<Longrightarrow> a_authenticated k'"
  "one_result ok k r t' k' \<Longrightarrow> auth_username k' = auth_username k"
  "one_result ok k r t' k' \<Longrightarrow> a_authenticated k' \<Longrightarrow> a_authenticated k \<or> ok"
  "one_result ok k r t' k' \<Longrightarrow> auth_fail_count k' \<le> auth_fail_count k + 1"
  "one_result ok k r t' k' \<Longrightarrow> auth_fail_count k < 10 \<Longrightarrow> auth_fail_count k' < 10 \<or> r \<noteq> Ret () \<or> \<not> active t'"
  by (auto simp: one_result_def)

text \<open>What one handled message can change.\<close>

lemma step_facts:
  assumes "server_handler env srv ptype m = Some p" and "p (t, k) = (r, (t', k'))" and "server_mode t"
  shows "core t' = core t" "a_authenticated k \<or> auth_username k \<noteq> None \<Longrightarrow> auth_username k' = auth_username k"
    "a_authenticated k \<Longrightarrow> a_authenticated k'"
    "a_authenticated k' \<Longrightarrow> \<not> a_authenticated k \<Longrightarrow> lets_in env srv ptype m (t, k) (auth_username k')"
    "auth_fail_count k' \<le> auth_fail_count k + 1"
    "auth_fail_count k < 10 \<Longrightarrow> auth_fail_count k' < 10 \<or> r \<noteq> Ret () \<or> \<not> active t'"
proof -
  show "core t' = core t" by (rule keeps_coreD [OF core_handlers [OF assms(1)] assms(2)])
  from handler_step [OF assms] obtain user where c: "one_result False k r t' k' \<or>
      (auth_username k = user \<or> auth_username k = None \<and> \<not> a_authenticated k) \<and>
      one_result (lets_in env srv ptype m (t, k) user) (k\<lparr>auth_username := user\<rparr>) r t' k'" by blast
  show "a_authenticated k \<or> auth_username k \<noteq> None \<Longrightarrow> auth_username k' = auth_username k"
    using c one_result_fields(2) by fastforce
  show "a_authenticated k \<Longrightarrow> a_authenticated k'"
    using c one_result_fields(1) [of False k r t' k'] one_result_fields(1) [of _ "k\<lparr>auth_username := user\<rparr>" r t' k'] by auto
  show "lets_in env srv ptype m (t, k) (auth_username k')" if "a_authenticated k'" "\<not> a_authenticated k"
    using c that one_result_fields(3) [of False k r t' k'] one_result_fields(2,3) [of _ "k\<lparr>auth_username := user\<rparr>" r t' k'] by auto
  show "auth_fail_count k' \<le> auth_fail_count k + 1"
    using c one_result_fields(4) [of False k r t' k'] one_result_fields(4) [of _ "k\<lparr>auth_username := user\<rparr>" r t' k'] by auto
  show "auth_fail_count k' < 10 \<or> r \<noteq> Ret () \<or> \<not> active t'" if "auth_fail_count k < 10"
    using c that one_result_fields(5) [of False k r t' k'] one_result_fields(5) [of _ "k\<lparr>auth_username := user\<rparr>" r t' k'] by auto
qed

text \<open>One message of a run: nothing happens, the run ends with it, or it goes on.\<close>

lemma run_cases:
  assumes "server_run env (e # es) (t, k) = (t', k')"
  obtains (skip) "\<And>xs. server_run env (e # xs) (t, k) = server_run env xs (t, k)" "server_run env es (t, k) = (t', k')"
  | (stop) "\<not> active t" "t' = t" "k' = k"
  | (failed) srv ptype m p r where "e = (srv, ptype, m)" "active t" "server_handler env srv ptype m = Some p" "p (t, k) = (r, (t', k'))" "r \<noteq> Ret ()"
  | (handled) srv ptype m p t1 k1 where "e = (srv, ptype, m)" "active t" "server_handler env srv ptype m = Some p" "p (t, k) = (Ret (), (t1, k1))"
      "\<And>xs. server_run env (e # xs) (t, k) = server_run env xs (t1, k1)" "server_run env es (t1, k1) = (t', k')"
proof -
  obtain srv ptype m where e: "e = (srv, ptype, m)" by (cases e) auto
  show ?thesis
  proof (cases "active t")
    case False
    with assms e show ?thesis by (intro stop) auto
  next
    case act: True
    show ?thesis
    proof (cases "server_handler env srv ptype m")
      case None
      with assms e act show ?thesis by (intro skip) auto
    next
      case (Some p)
      obtain r t1 k1 where p: "p (t, k) = (r, (t1, k1))" by (metis prod.collapse)
      show ?thesis
      proof (cases "r = Ret ()")
        case True
        with p have ret: "p (t, k) = (Ret (), (t1, k1))" by simp
        have "server_run env (e # xs) (t, k) = server_run env xs (t1, k1)" for xs using e act Some ret by simp
        with assms show ?thesis by (intro handled [OF e act Some ret]) simp_all
      next
        case False
        have "(t', k') = (t1, k1)" using assms e act Some p False by (cases r) simp_all
        with p False show ?thesis by (intro failed [OF e act Some]) simp_all
      qed
    qed
  qed
qed

text \<open>Once a user name is recorded, or the client is in, the name stays.\<close>

lemma run_keeps_user:
  assumes "server_run env es (t, k) = (t', k')" and "server_mode t" and "a_authenticated k \<or> auth_username k \<noteq> None"
  shows "auth_username k' = auth_username k"
  using assms
proof (induction es arbitrary: t k)
  case (Cons e es)
  from Cons.prems(1) show ?case
  proof (cases rule: run_cases)
    case skip
    with Cons.IH Cons.prems(2,3) show ?thesis by blast
  next
    case (failed srv ptype m p r)
    with step_facts(2) Cons.prems(2,3) show ?thesis by blast
  next
    case (handled srv ptype m p t1 k1)
    note f = step_facts [OF handled(3,4) Cons.prems(2)]
    have "auth_username k1 = auth_username k" using f(2) Cons.prems(3) by blast
    moreover have "server_mode t1" using f(1) Cons.prems(2) by (simp add: core_def)
    moreover have "a_authenticated k1 \<or> auth_username k1 \<noteq> None" using f(2,3) Cons.prems(3) by auto
    ultimately show ?thesis using Cons.IH handled(6) by metis
  qed simp
qed simp

lemma run_lets_in:
  assumes "server_run env es (t, k) = (t', k')" and "server_mode t" and "\<not> a_authenticated k" and "a_authenticated k'"
  shows "\<exists>pre srv ptype m post. es = pre @ (srv, ptype, m) # post \<and>
    \<not> a_authenticated (snd (server_run env pre (t, k))) \<and> core (fst (server_run env pre (t, k))) = core t \<and>
    lets_in env srv ptype m (server_run env pre (t, k)) (auth_username k')"
  using assms
proof (induction es arbitrary: t k)
  case (Cons e es)
  have here: ?case if "e = (srv, ptype, m)" "lets_in env srv ptype m (t, k) (auth_username k')" for srv ptype m
    using that Cons.prems(3) by (intro exI [of _ "[]"] exI [of _ srv] exI [of _ ptype] exI [of _ m] exI [of _ es]) simp
  have later: ?case if run: "\<And>xs. server_run env (e # xs) (t, k) = server_run env xs (t1, k1)" "core t1 = core t"
    and "\<exists>pre srv ptype m post. es = pre @ (srv, ptype, m) # post \<and>
      \<not> a_authenticated (snd (server_run env pre (t1, k1))) \<and> core (fst (server_run env pre (t1, k1))) = core t1 \<and>
      lets_in env srv ptype m (server_run env pre (t1, k1)) (auth_username k')" for t1 k1
  proof -
    from that(3) obtain pre s q m' post where "es = pre @ (s, q, m') # post"
      "\<not> a_authenticated (snd (server_run env pre (t1, k1)))" "core (fst (server_run env pre (t1, k1))) = core t1"
      "lets_in env s q m' (server_run env pre (t1, k1)) (auth_username k')" by blast
    with run show ?thesis
      by (intro exI [of _ "e # pre"] exI [of _ s] exI [of _ q] exI [of _ m'] exI [of _ post]) simp
  qed
  from Cons.prems(1) show ?case
  proof (cases rule: run_cases)
    case skip
    with later [OF skip(1) refl] Cons.IH [OF skip(2) Cons.prems(2-4)] show ?thesis by blast
  next
    case stop
    with Cons.prems(3,4) show ?thesis by simp
  next
    case (failed srv ptype m p r)
    with here step_facts(4) [OF failed(3,4) Cons.prems(2,4,3)] show ?thesis by blast
  next
    case (handled srv ptype m p t1 k1)
    note f = step_facts [OF handled(3,4) Cons.prems(2)]
    have m1: "server_mode t1" using f(1) Cons.prems(2) by (simp add: core_def)
    show ?thesis
    proof (cases "a_authenticated k1")
      case True
      with run_keeps_user [OF handled(6) m1] f(4) Cons.prems(3) here [OF handled(1)] show ?thesis by simp
    next
      case False
      from later [OF handled(5) f(1) Cons.IH [OF handled(6) m1 False Cons.prems(4)]] show ?thesis .
    qed
  qed
qed simp


section \<open>The properties of the server\<close>

text \<open>Claim C20. However the messages come and whatever the application answers, a server in which a client
  is authenticated got a message that lets it in, when it was not yet authenticated and with its
  session as it is: a request for the recorded user that the application answered with success (for a
  public key, one whose signature over the session identifier, the user and the key was verified), or
  a response to a query that the application answered with success.\<close>

theorem authenticated_only_if_granted:
  assumes "server_run env es (t, new_auth) = (t', k')" and "server_mode t" and "a_authenticated k'"
  shows "\<exists>pre srv ptype m post. es = pre @ (srv, ptype, m) # post \<and>
    \<not> a_authenticated (snd (server_run env pre (t, new_auth))) \<and>
    session_id (fst (server_run env pre (t, new_auth))) = session_id t \<and>
    lets_in env srv ptype m (server_run env pre (t, new_auth)) (auth_username k')"
proof -
  have "\<not> a_authenticated new_auth" by (simp add: new_auth_def)
  from run_lets_in [OF assms(1,2) this assms(3)] show ?thesis by (fastforce simp: core_def)
qed

lemma run_fail_count:
  assumes "server_run env es (t, k) = (t', k')" and "server_mode t" and "auth_fail_count k < 10"
  shows "auth_fail_count k' < 10 \<or> auth_fail_count k' = 10 \<and> (active t' \<longrightarrow> (\<exists>srv ptype m p r s. server_handler env srv ptype m = Some p \<and> p s = (r, (t', k')) \<and> r \<noteq> Ret ()))"
  using assms
proof (induction es arbitrary: t k)
  case (Cons e es)
  from Cons.prems(1) show ?case
  proof (cases rule: run_cases)
    case skip
    with Cons.IH Cons.prems(2,3) show ?thesis by blast
  next
    case stop
    with Cons.prems(3) show ?thesis by simp
  next
    case (failed srv ptype m p r)
    with step_facts(5) [OF failed(3,4) Cons.prems(2)] Cons.prems(3) show ?thesis by fastforce
  next
    case (handled srv ptype m p t1 k1)
    note f = step_facts [OF handled(3,4) Cons.prems(2)]
    have m1: "server_mode t1" using f(1) Cons.prems(2) by (simp add: core_def)
    show ?thesis
    proof (cases "auth_fail_count k1 < 10")
      case True
      from Cons.IH [OF handled(6) m1 True] show ?thesis .
    next
      case False
      with f(6) Cons.prems(3) have "\<not> active t1" by simp
      then have "t' = t1" "k' = k1" using handled(6) by (cases es; auto)+
      with False f(5) Cons.prems(3) \<open>\<not> active t1\<close> show ?thesis by simp
    qed
  qed
qed simp

lemma run_core:
  assumes "server_run env es (t, k) = (t', k')" and "server_mode t"
  shows "core t' = core t"
  using assms
proof (induction es arbitrary: t k)
  case (Cons e es)
  from Cons.prems(1) show ?case
  proof (cases rule: run_cases)
    case skip
    with Cons.IH Cons.prems(2) show ?thesis by blast
  next
    case (failed srv ptype m p r)
    with step_facts(1) Cons.prems(2) show ?thesis by blast
  next
    case (handled srv ptype m p t1 k1)
    note f = step_facts(1) [OF handled(3,4) Cons.prems(2)]
    with Cons.IH [OF handled(6)] Cons.prems(2) show ?thesis by (simp add: core_def)
  qed simp
qed simp

text \<open>Claim C21. A server never counts more than ten failures: the tenth closes the transport (or the
  connection ends with an exception while it is answered), and the user name, once recorded, is never
  replaced, whatever comes later.\<close>

theorem at_most_ten_failures:
  assumes "server_run env es (t, new_auth) = (t', k')" and "server_mode t" and "server_run env es' (t', k') = (t'', k'')"
  shows "auth_fail_count k' \<le> 10 \<and> (auth_username k' = None \<or> auth_username k'' = auth_username k')"
proof -
  have "auth_fail_count new_auth < 10" by (simp add: new_auth_def)
  from run_fail_count [OF assms(1,2) this] have "auth_fail_count k' \<le> 10" by auto
  moreover have "server_mode t'" using run_core [OF assms(1,2)] assms(2) by (simp add: core_def)
  ultimately show ?thesis using run_keeps_user [OF assms(3)] by blast
qed

lemma publickey_granted_check:
  "publickey_granted env srv t u m \<Longrightarrow> \<exists>key. check_auth_publickey srv u key = AUTH_SUCCESSFUL"
  by (auto simp: publickey_granted_def Let_def split: prod.split_asm sum.split_asm option.split_asm) (metis sumE)

text \<open>The base class lets nobody in.\<close>

lemma default_server_refuses:
  assumes "server_run env es (t, new_auth) = (t', k')" and "server_mode t"
    and "\<And>e. e \<in> set es \<Longrightarrow> \<exists>subsystems. fst e = default_server subsystems"
  shows "\<not> a_authenticated k'"
proof
  assume "a_authenticated k'"
  moreover have "\<not> a_authenticated new_auth" by (simp add: new_auth_def)
  ultimately obtain pre srv ptype m post
    where e: "es = pre @ (srv, ptype, m) # post" "lets_in env srv ptype m (server_run env pre (t, new_auth)) (auth_username k')"
    using run_lets_in [OF assms(1,2)] by blast
  with assms(3) obtain subs where srv: "srv = default_server subs" by fastforce
  have no: "check_auth_none srv u \<noteq> AUTH_SUCCESSFUL" "password_result srv u x \<noteq> AUTH_SUCCESSFUL"
    "check_auth_publickey srv u key \<noteq> AUTH_SUCCESSFUL" "check_auth_interactive srv u b \<noteq> Verdict AUTH_SUCCESSFUL"
    "check_auth_interactive_response srv rs \<noteq> Verdict AUTH_SUCCESSFUL" for u x key b rs
    by (simp_all add: srv default_server_def default_auth_none_def default_auth_password_def default_auth_publickey_def
        default_auth_interactive_def default_auth_interactive_response_def password_result_def split: prod.split)
  then have "\<not> publickey_granted env srv s u m" for s u m using publickey_granted_check by blast
  with e(2) no show False by (auto simp: lets_in_def granted_def split: if_splits)
qed

text \<open>
  Nothing ties a response to a query: a client that sends one before any request is let in, under no
  name, when the application's callback for responses accepts it.
\<close>

lemma unsolicited_response:
  assumes "server_mode t" "active t" and "check_auth_interactive_response srv [] = Verdict AUTH_SUCCESSFUL"
    and "server_run env [(srv, MSG_USERAUTH_INFO_RESPONSE, message_of [])] (t, new_auth) = (t', k')"
  shows "a_authenticated k' \<and> auth_username k' = None"
proof -
  have n: "fst (get_int (message_of [])) = 0" by code_simp
  have "server_handler env srv MSG_USERAUTH_INFO_RESPONSE (message_of []) = Some (parse_info_response srv (message_of []))"
    by (simp add: server_handler_def)
  then obtain r where r: "parse_info_response srv (message_of []) (t, new_auth) = (r, (t', k'))"
    using assms(2,4) by (auto split: prod.splits outcome.splits)
  have "parse_info_response srv (message_of []) (t, new_auth) = send_auth_result srv [] AUTH_SUCCESSFUL (t, new_auth)"
    using assms(1,3) n by (simp add: parse_info_response_def answer_verdict_def new_auth_def case_prod_unfold Let_def)
  with r have "k' = with_result AUTH_SUCCESSFUL new_auth" using send_auth_result_k by metis
  then show ?thesis by (simp add: with_result_def new_auth_def)
qed


section \<open>A client and a server\<close>

lemma session_blob_same:
  "session_id t = session_id t' \<Longrightarrow> snd (key_type_and_bits key) = snd (key_type_and_bits key') \<Longrightarrow>
     session_blob key service u alg t = session_blob key' service u alg t'"
  by (simp add: session_blob_def)

lemma client_publickey_message:
  assumes "parse_service_accept env m (tc, kc) = (Ret (), (tc', kc'))" and "get_text m = Inr (ssh_userauth, m')"
    and "a_username kc = Some u" "a_method kc = m_publickey" "a_key kc = Some key"
    and "finalize_pubkey_algorithm (fst (key_type_and_bits key)) (tc, kc) = (Ret alg, (tc1, kc1))"
  shows "\<exists>blob mm. session_blob key ssh_connection u alg tc = Inr blob \<and>
    compose (auth_request u m_publickey [FBool True, FText alg, FString (snd (key_type_and_bits key)), FString (sign_ssh_data env key blob alg)]) = Inr mm \<and>
    calls tc' = calls tc @ [Send (msg_asbytes mm)]"
proof -
  have "m_publickey \<noteq> m_password" by (simp add: m_publickey_def m_password_def)
  moreover have "tc1 = tc" using assms(6) by (auto simp: finalize_pubkey_algorithm_def seqp_Ret liftr_Ret upd_k_def split: if_splits)
  ultimately show ?thesis
    using assms by (auto simp: parse_service_accept_def seqp_Ret liftr_Ret need_def method_fields_def publickey_fields_def on_t_Ret t_send_sent)
qed

text \<open>Claim C22. What a client with a key sends after the service is accepted lets it in at a server of the
  same session that knows the algorithm, parses the key and approves it: both sides sign and verify
  the same session data.\<close>

theorem publickey_request_accepted:
  assumes "parse_service_accept env m (tc, kc) = (Ret (), (tc', kc'))" and "get_text m = Inr (ssh_userauth, m')"
    and "a_username kc = Some u" "a_method kc = m_publickey" "a_key kc = Some key"
    and "finalize_pubkey_algorithm (fst (key_type_and_bits key)) (tc, kc) = (Ret alg, (tc1, kc1))"
    and "server_mode ts" "session_id ts = session_id tc" "\<not> a_authenticated ks" "auth_username ks = None \<or> auth_username ks = Some u"
    and "requested_key env alg (snd (key_type_and_bits key)) ts = Some key'"
      "snd (key_type_and_bits key') = snd (key_type_and_bits key)"
    and "\<And>blob. verify_ssh_sig env key' blob (sign_ssh_data env key blob alg) = Inr True"
    and "check_auth_publickey srv u key' = AUTH_SUCCESSFUL"
  shows "\<exists>request r ts' ks'. calls tc' = calls tc @ [Send (50 # request)] \<and>
    parse_userauth_request env srv (message_of request) (ts, ks) = (r, (ts', ks')) \<and>
    a_authenticated ks' \<and> auth_username ks' = Some u"
proof -
  let ?bits = "snd (key_type_and_bits key)"
  obtain blob mm where c: "session_blob key ssh_connection u alg tc = Inr blob"
    "compose (msg_byte MSG_USERAUTH_REQUEST # [FText u, FText ssh_connection, FText m_publickey, FBool True, FText alg, FString ?bits,
       FString (sign_ssh_data env key blob alg)]) = Inr mm"
    "calls tc' = calls tc @ [Send (msg_asbytes mm)]"
    using client_publickey_message [OF assms(1-6)] by (auto simp: auth_request_def)
  obtain w where w: "msg_asbytes mm = word_of_int MSG_USERAUTH_REQUEST # w" "reads w [FText u, FText ssh_connection, FText m_publickey,
      FBool True, FText alg, FString ?bits, FString (sign_ssh_data env key blob alg)] [] (message_of w)"
    using msg_body [OF c(2)] by blast
  from reads_text [OF w(2)] obtain n1 where n1: "get_text (message_of w) = Inr (u, n1)" and r1: "reads w [FText ssh_connection,
      FText m_publickey, FBool True, FText alg, FString ?bits, FString (sign_ssh_data env key blob alg)] [] n1" by blast
  from reads_text [OF r1] obtain n2 where n2: "get_text n1 = Inr (ssh_connection, n2)" and r2: "reads w [FText m_publickey,
      FBool True, FText alg, FString ?bits, FString (sign_ssh_data env key blob alg)] [] n2" by blast
  from reads_text [OF r2] obtain n3 where n3: "get_text n2 = Inr (m_publickey, n3)" and r3: "reads w [FBool True, FText alg,
      FString ?bits, FString (sign_ssh_data env key blob alg)] [] n3" by blast
  from reads_bool [OF r3] obtain n4 where n4: "get_boolean n3 = (True, n4)" and r4: "reads w [FText alg, FString ?bits,
      FString (sign_ssh_data env key blob alg)] [] n4" by blast
  from reads_text [OF r4] obtain n5 where n5: "get_text n4 = Inr (alg, n5)" and r5: "reads w [FString ?bits,
      FString (sign_ssh_data env key blob alg)] [] n5" by blast
  from reads_binary [OF r5] obtain n6 where n6: "get_binary n5 = (?bits, n6)" and r6: "reads w [FString (sign_ssh_data env key blob alg)] [] n6" by blast
  from reads_binary [OF r6] obtain n7 where n7: "get_binary n6 = (sign_ssh_data env key blob alg, n7)" by blast
  have blob: "session_blob key' ssh_connection u alg ts = Inr blob"
    using session_blob_same [OF assms(8,12)] c(1) by simp
  have d: "m_publickey \<noteq> m_none" "m_publickey \<noteq> m_password" by (simp_all add: m_none_def m_password_def m_publickey_def)
  obtain r ts' ks' where p: "parse_userauth_request env srv (message_of w) (ts, ks) = (r, (ts', ks'))" by (metis prod.collapse)
  have "publickey_request env srv u ssh_connection n3 (ts, ks\<lparr>auth_username := Some u\<rparr>) = (r, (ts', ks'))"
    using p assms(7,9,10) n1 n2 n3 d by (auto simp: parse_userauth_request_def method_request_def upd_k_def)
  then have "send_auth_result srv u AUTH_SUCCESSFUL (ts, ks\<lparr>auth_username := Some u\<rparr>) = (r, (ts', ks'))"
    using n4 n5 n6 n7 blob assms(11,13,14) by (simp add: publickey_request_def)
  from send_auth_result_k [OF this] have "a_authenticated ks'" "auth_username ks' = Some u" by simp_all
  with p c(3) w(1) show ?thesis by (intro exI [of _ w]) simp
qed

section \<open>A small run\<close>

definition demo_server :: server_obj where
  "demo_server = (default_server {})\<lparr>check_auth_none := \<lambda>u. AUTH_SUCCESSFUL\<rparr>"

definition demo_open :: transport where
  "demo_open = (new_transport True [] True True)\<lparr>server_mode := True, active := True\<rparr>"

definition demo_auth_env :: auth_env where
  "demo_auth_env = \<lparr>parse_key = (\<lambda>a b. Inr \<lparr>uk_name = a, uk_blob = b, uk_cert = None\<rparr>), sign_ssh_data = (\<lambda>k b a. take 4 b),
     verify_ssh_sig = (\<lambda>k b s. Inr (s = take 4 b))\<rparr>"

lemma enc_text_ascii:
  "(\<forall>c\<in>set s. c < 0x80) \<Longrightarrow> int (length s) < 2 ^ 32 \<Longrightarrow> enc_text s = Inr (be_bytes 4 (int (length s)) @ map of_nat s)"
  by (simp add: enc_text_def utf8_encode_ascii enc_string_def pack_I_def)

lemma demo_texts:
  "\<exists>b. enc_text ssh_connection = Inr b" "\<exists>b. enc_text m_none = Inr b" "\<exists>b. enc_text [65] = Inr b"
  using enc_text_ascii [of ssh_connection] enc_text_ascii [of m_none] enc_text_ascii [of "[65]"]
  by (simp_all add: ssh_connection_def m_none_def)

lemma demo_message: "\<exists>w. reads w [FText [65], FText ssh_connection, FText m_none] [] (message_of w)"
proof -
  obtain bs where "map_res enc_field [FText [65], FText ssh_connection, FText m_none] = Inr bs"
    using demo_texts by fastforce
  then obtain m where "compose [FText [65], FText ssh_connection, FText m_none] = Inr m"
    using compose_returns by blast
  then show ?thesis using reads_composed [of "[FText [65], FText ssh_connection, FText m_none]" m "[]"]
    by (auto simp: compose_def)
qed

lemma demo_run:
  assumes "reads w [FText [65], FText ssh_connection, FText m_none] [] m"
  shows "\<exists>t'. server_run env [(demo_server, MSG_USERAUTH_REQUEST, m)] (demo_open, new_auth) =
    (t', new_auth\<lparr>auth_username := Some [65], a_authenticated := True\<rparr>)"
proof -
  from reads_text [OF assms] obtain m1 where m1: "get_text m = Inr ([65], m1)" "reads w [FText ssh_connection, FText m_none] [] m1" by blast
  from reads_text [OF m1(2)] obtain m2 where m2: "get_text m1 = Inr (ssh_connection, m2)" "reads w [FText m_none] [] m2" by blast
  from reads_text [OF m2(2)] obtain m3 where m3: "get_text m2 = Inr (m_none, m3)" by blast
  have d: "server_mode demo_open" "active demo_open" "\<not> a_authenticated new_auth" "auth_username new_auth = None"
    by (simp_all add: demo_open_def new_auth_def)
  have c: "check_auth_none demo_server [65] = AUTH_SUCCESSFUL" by (simp add: demo_server_def)
  obtain r t' k' where r: "parse_userauth_request env demo_server m (demo_open, new_auth) = (r, (t', k'))" by (metis prod.collapse)
  have "send_auth_result demo_server [65] AUTH_SUCCESSFUL (demo_open, new_auth\<lparr>auth_username := Some [65]\<rparr>) = (r, (t', k'))"
    using r m1(1) m2(1) m3 d c by (simp add: parse_userauth_request_def method_request_def upd_k_def)
  from send_auth_result_k [OF this] have "k' = new_auth\<lparr>auth_username := Some [65], a_authenticated := True\<rparr>"
    by (simp add: with_result_def)
  moreover have "server_handler env demo_server MSG_USERAUTH_REQUEST m = Some (parse_userauth_request env demo_server m)"
    by (simp add: server_handler_def)
  ultimately show ?thesis using r d by (cases r) simp_all
qed

theorem authenticated_only_if_granted_witness:
  "\<exists>m pre srv ptype m' post. [(demo_server, MSG_USERAUTH_REQUEST, m)] = pre @ (srv, ptype, m') # post \<and>
    \<not> a_authenticated (snd (server_run demo_auth_env pre (demo_open, new_auth))) \<and>
    lets_in demo_auth_env srv ptype m' (server_run demo_auth_env pre (demo_open, new_auth)) (Some [65])"
proof -
  obtain w where w: "reads w [FText [65], FText ssh_connection, FText m_none] [] (message_of w)" using demo_message by blast
  from demo_run [OF w] obtain t' where t': "server_run demo_auth_env [(demo_server, MSG_USERAUTH_REQUEST, message_of w)] (demo_open, new_auth) =
      (t', new_auth\<lparr>auth_username := Some [65], a_authenticated := True\<rparr>)" by blast
  have "server_mode demo_open" by (simp add: demo_open_def)
  from authenticated_only_if_granted [OF t' this] obtain pre srv ptype m' post where
    "[(demo_server, MSG_USERAUTH_REQUEST, message_of w)] = pre @ (srv, ptype, m') # post"
    "\<not> a_authenticated (snd (server_run demo_auth_env pre (demo_open, new_auth)))"
    "lets_in demo_auth_env srv ptype m' (server_run demo_auth_env pre (demo_open, new_auth)) (Some [65])"
    by auto
  then show ?thesis by blast
qed

theorem at_most_ten_failures_witness:
  "\<exists>m t' k' t'' k''. server_run demo_auth_env [(demo_server, MSG_USERAUTH_REQUEST, m)] (demo_open, new_auth) = (t', k') \<and>
    server_run demo_auth_env [(demo_server, MSG_USERAUTH_REQUEST, m)] (t', k') = (t'', k'') \<and>
    auth_fail_count k' \<le> 10 \<and> auth_username k'' = Some [65]"
proof -
  obtain w where w: "reads w [FText [65], FText ssh_connection, FText m_none] [] (message_of w)" using demo_message by blast
  let ?es = "[(demo_server, MSG_USERAUTH_REQUEST, message_of w)]" and ?k = "new_auth\<lparr>auth_username := Some [65], a_authenticated := True\<rparr>"
  from demo_run [OF w] obtain t' where t': "server_run demo_auth_env ?es (demo_open, new_auth) = (t', ?k)" by blast
  obtain t'' k'' where t'': "server_run demo_auth_env ?es (t', ?k) = (t'', k'')" by (metis prod.collapse)
  have "server_mode demo_open" by (simp add: demo_open_def)
  from at_most_ten_failures [OF t' this t''] t' t'' show ?thesis
    by (intro exI [of _ "message_of w"] exI [of _ t'] exI [of _ ?k] exI [of _ t''] exI [of _ k'']) simp
qed


section \<open>A public key\<close>

definition demo_key :: user_key where
  "demo_key = \<lparr>uk_name = lit ''ssh-ed25519'', uk_blob = [1, 2], uk_cert = None\<rparr>"

definition demo_client :: transport where
  "demo_client = (new_transport True [] True True)\<lparr>active := True, session_id := Some [9]\<rparr>"

definition demo_host :: transport where
  "demo_host = (new_transport True [] True True)\<lparr>server_mode := True, active := True, session_id := Some [9]\<rparr>"

definition demo_request_state :: auth where
  "demo_request_state = new_auth\<lparr>a_username := Some [65], a_method := m_publickey, a_key := Some demo_key\<rparr>"

definition approving :: server_obj where
  "approving = (default_server {})\<lparr>check_auth_publickey := \<lambda>u k. AUTH_SUCCESSFUL\<rparr>"

lemma demo_algorithm: "finalize_pubkey_algorithm (fst (key_type_and_bits demo_key)) (t, k) = (Ret (lit ''ssh-ed25519''), (t, k))"
proof -
  have "\<not> contains rsa_name (lit ''ssh-ed25519'')" by (simp add: rsa_name_def starts_with_def)
  then show ?thesis by (simp add: finalize_pubkey_algorithm_def key_type_and_bits_def demo_key_def)
qed


lemma demo_remove: "remove_all cert_suffix (lit ''ssh-ed25519'') = lit ''ssh-ed25519''"
  by code_simp

lemma demo_requested: "requested_key demo_auth_env (lit ''ssh-ed25519'') [1, 2] demo_host = Some demo_key"
proof -
  have "lit ''ssh-ed25519'' \<in> set (preferred_pubkeys demo_host)"
    by (simp add: preferred_pubkeys_def filter_algorithm_def disabled_def demo_host_def new_transport_def default_pubkeys_def default_keys_def)
  moreover have "lit ''ssh-ed25519'' \<in> set key_names" by (simp add: key_names_def)
  ultimately show ?thesis
    using demo_remove by (simp add: requested_key_def generate_key_from_request_def demo_auth_env_def demo_key_def del: list.map)
qed

lemma encodes:
  "\<exists>b. enc_field (FText ssh_userauth) = Inr b" "\<exists>b. enc_field (FText [65]) = Inr b" "\<exists>b. enc_field (FText ssh_connection) = Inr b"
  "\<exists>b. enc_field (FText m_publickey) = Inr b" "\<exists>b. enc_field (FText (lit ''ssh-ed25519'')) = Inr b"
  "length x < 100 \<Longrightarrow> \<exists>b. enc_field (FString x) = Inr b" "\<exists>b. enc_field (FBool True) = Inr b" "\<exists>b. enc_field (msg_byte n) = Inr b"
  using enc_text_ascii [of ssh_userauth] enc_text_ascii [of "[65]"] enc_text_ascii [of ssh_connection]
    enc_text_ascii [of m_publickey] enc_text_ascii [of "lit ''ssh-ed25519''"]
  by (simp_all add: ssh_userauth_def ssh_connection_def m_publickey_def enc_string_def pack_I_def msg_byte_def)

lemma composes: "(\<forall>f\<in>set fs. \<exists>b. enc_field f = Inr b) \<Longrightarrow> \<exists>m. compose fs = Inr m"
  using map_res_ok compose_returns by blast

lemma demo_client_sends:
  assumes "get_text m = Inr (ssh_userauth, m')"
  shows "\<exists>tc' kc'. parse_service_accept demo_auth_env m (demo_client, demo_request_state) = (Ret (), (tc', kc'))"
proof -
  let ?alg = "lit ''ssh-ed25519''"
  have "\<exists>mm. compose [FString [9], msg_byte MSG_USERAUTH_REQUEST, FText [65], FText ssh_connection, FText m_publickey,
        FBool True, FText ?alg, FString (snd (key_type_and_bits demo_key))] = Inr mm"
    by (rule composes) (use encodes in \<open>simp add: key_type_and_bits_def demo_key_def del: enc_field.simps\<close>)
  then obtain blob where blob: "session_blob demo_key ssh_connection [65] ?alg demo_client = Inr blob"
    by (auto simp: session_blob_def need_def demo_client_def)
  have "\<exists>mm. compose (auth_request [65] m_publickey [FBool True, FText ?alg, FString (snd (key_type_and_bits demo_key)),
      FString (sign_ssh_data demo_auth_env demo_key blob ?alg)]) = Inr mm"
    by (rule composes) (use encodes in \<open>simp add: auth_request_def key_type_and_bits_def demo_key_def demo_auth_env_def del: enc_field.simps\<close>)
  then obtain mm where mm: "compose (auth_request [65] m_publickey [FBool True, FText ?alg, FString (snd (key_type_and_bits demo_key)),
      FString (sign_ssh_data demo_auth_env demo_key blob ?alg)]) = Inr mm" by blast
  have pf: "publickey_fields demo_auth_env demo_key [65] (demo_client, demo_request_state) =
      (Ret [FBool True, FText ?alg, FString (snd (key_type_and_bits demo_key)), FString (sign_ssh_data demo_auth_env demo_key blob ?alg)],
       (demo_client, demo_request_state))"
    by (simp add: publickey_fields_def seqp_def demo_algorithm blob del: list.map)
  have st: "a_username demo_request_state = Some [65]" "a_method demo_request_state = m_publickey" "a_key demo_request_state = Some demo_key"
    "m_publickey \<noteq> m_password"
    by (simp_all add: demo_request_state_def m_publickey_def m_password_def)
  have mf: "method_fields demo_auth_env [65] (demo_client, demo_request_state) =
      publickey_fields demo_auth_env demo_key [65] (demo_client, demo_request_state)"
    using st by (simp add: method_fields_def)
  have "\<exists>s'. parse_service_accept demo_auth_env m (demo_client, demo_request_state) = (Ret (), s')"
    using assms st mf pf mm
    by (simp add: parse_service_accept_def need_def seqp_def on_t_def t_send_def call_def del: list.map)
  then show ?thesis by (metis prod.collapse)
qed

theorem publickey_request_accepted_witness:
  "\<exists>m tc' kc' request r ts' ks'. parse_service_accept demo_auth_env m (demo_client, demo_request_state) = (Ret (), (tc', kc')) \<and>
    calls tc' = [Send (50 # request)] \<and>
    parse_userauth_request demo_auth_env approving (message_of request) (demo_host, new_auth) = (r, (ts', ks')) \<and>
    a_authenticated ks' \<and> auth_username ks' = Some [65]"
proof -
  obtain mm where "compose [FText ssh_userauth] = Inr mm" using composes [of "[FText ssh_userauth]"] encodes(1) by auto
  then have "reads (msg_asbytes mm) [FText ssh_userauth] [] (message_of (msg_asbytes mm @ []))"
    by (intro reads_composed) (simp add: compose_def)
  from reads_text [OF this] obtain m' where m: "get_text (message_of (msg_asbytes mm)) = Inr (ssh_userauth, m')" by auto
  from demo_client_sends [OF m] obtain tc' kc' where
    c: "parse_service_accept demo_auth_env (message_of (msg_asbytes mm)) (demo_client, demo_request_state) = (Ret (), (tc', kc'))" by blast
  have st: "a_username demo_request_state = Some [65]" "a_method demo_request_state = m_publickey" "a_key demo_request_state = Some demo_key"
    by (simp_all add: demo_request_state_def)
  have h: "server_mode demo_host" "session_id demo_host = session_id demo_client" "\<not> a_authenticated new_auth"
    "auth_username new_auth = None \<or> auth_username new_auth = Some [65]"
    by (simp_all add: demo_host_def demo_client_def new_auth_def)
  have q: "requested_key demo_auth_env (lit ''ssh-ed25519'') (snd (key_type_and_bits demo_key)) demo_host = Some demo_key"
    using demo_requested by (simp add: key_type_and_bits_def demo_key_def del: list.map)
  have v: "verify_ssh_sig demo_auth_env demo_key blob (sign_ssh_data demo_auth_env demo_key blob (lit ''ssh-ed25519'')) = Inr True" for blob
    by (simp add: demo_auth_env_def)
  have a: "check_auth_publickey approving [65] demo_key = AUTH_SUCCESSFUL" by (simp add: approving_def)
  have z: "calls demo_client = []" by (simp add: demo_client_def new_transport_def)
  show ?thesis
    using publickey_request_accepted [OF c m st demo_algorithm h q refl v a] c unfolding z append_Nil by blast
qed

end
