(* ===== verification/Session_Props.thy ===== *)
theory Session_Props
  imports Session_Calls Auth_Props
begin

text \<open>
  Properties of the transport's thread: before the first key exchange is done only the expected
  messages are taken, a server's channels wait for the authentication, the channel table stays well
  formed, and a message for a channel reaches that channel only.
\<close>

section \<open>What the steps leave alone\<close>

text \<open>The role never changes, and the first key exchange stays done.\<close>

definition base :: "bool \<Rightarrow> bool \<Rightarrow> transport \<Rightarrow> bool" where
  "base b d t \<longleftrightarrow> server_mode t = b \<and> (d \<longrightarrow> initial_kex_done t)"

lemma base_upd [simp]:
  "base b d (t\<lparr>calls := c\<rparr>) = base b d t" "base b d (t\<lparr>active := x\<rparr>) = base b d t"
  "base b d (t\<lparr>authenticated := x\<rparr>) = base b d t" "base b d (t\<lparr>expected_packet := l\<rparr>) = base b d t"
  "base b d (t\<lparr>clear_to_send := x\<rparr>) = base b d t" "base b d (t\<lparr>need_rekey := x\<rparr>) = base b d t"
  "base b d (t\<lparr>entropy := e\<rparr>) = base b d t"
  by (simp_all add: base_def)

lemma base_k_on_t [preserves_intro]: "preserves P p \<Longrightarrow> preserves (\<lambda>s. P (fst s)) (on_t p)"
  unfolding preserves_def on_t_def by (auto split: prod.splits)

lemma base_k_upd [preserves_intro]: "preserves (\<lambda>s. P (fst s)) (upd_k g)"
  by (auto simp: preserves_def upd_k_def)

lemma preserves_case_prod [preserves_intro]: "(\<And>a b. preserves P (f a b)) \<Longrightarrow> preserves P (case x of (a, b) \<Rightarrow> f a b)"
  by (cases x) simp

lemma preserves_case_option [preserves_intro]:
  "preserves P p \<Longrightarrow> (\<And>x. preserves P (q x)) \<Longrightarrow> preserves P (case o' of None \<Rightarrow> p | Some x \<Rightarrow> q x)"
  by (cases o') simp_all

lemma preserves_const [preserves_intro]: "preserves P (\<lambda>s. (r, s))"
  by (simp add: preserves_def)

lemma base_call [preserves_intro]: "preserves (base b d) (call c)"
  by (simp add: call_def preserves_def)

lemma base_send [preserves_intro]: "preserves (base b d) (t_send fs)"
  unfolding t_send_def by (intro preserves_intro)

lemma base_expect [preserves_intro]: "preserves (base b d) (expect_packet ps)"
  by (simp add: expect_packet_def preserves_def)

lemma base_urandom [preserves_intro]: "preserves (base b d) (urandom n)"
  unfolding urandom_def by (intro preserves_intro preserves_modify) (auto simp: base_def)

lemma base_entropy [preserves_intro]: "preserves (base b d) (on_entropy p)"
  by (auto simp: preserves_def on_entropy_def split: prod.splits)

lemma base_send_kex_init [preserves_intro]: "preserves (base b d) (send_kex_init avail)"
  unfolding send_kex_init_def drop_gex_def set_kex_def set_option_def
  by (intro preserves_intro preserves_modify) (auto simp: base_def)

lemma base_scan [simp]:
  "server_mode (foldl scan_marker t l) = server_mode t" "initial_kex_done (foldl scan_marker t l) = initial_kex_done t"
  by (induction l arbitrary: t) (auto simp: scan_marker_def)

lemma base_parse_kex_init [preserves_intro]: "preserves (base b d) (parse_kex_init seqno m)"
  unfolding parse_kex_init_def choose_kex_def choose_host_key_def choose_ciphers_def choose_macs_def choose_compression_def Let_def
  by (intro preserves_intro preserves_modify) (auto simp: base_def)

lemma base_compute_key [preserves_intro]: "preserves (base b d) (compute_key env c n)"
  unfolding preserves_def by (metis key_loop_calls prod.collapse)

lemma base_make_setup [preserves_intro]: "preserves (base b d) (make_setup env c m x y z sd)"
  by (simp add: preserves_def make_setup_pure)

lemma base_new_cipher [simp]:
  "server_mode (new_cipher o' t) = server_mode t" "initial_kex_done (new_cipher o' t) = initial_kex_done t"
  by (simp_all add: new_cipher_def Let_def)

lemma base_activate_inbound [preserves_intro]: "preserves (base b d) (activate_inbound env)"
  unfolding activate_inbound_def compressor_known_def
  by (intro preserves_intro preserves_modify) (auto simp: base_def)

lemma base_activate_outbound [preserves_intro]: "preserves (base b d) (activate_outbound env)"
  unfolding activate_outbound_def finish_outbound_def compressor_known_def
  by (intro preserves_intro preserves_modify) (auto simp: base_def)

lemma base_newkeys [preserves_intro]: "preserves (base b d) (parse_newkeys env)"
  unfolding parse_newkeys_def
  by (intro preserves_intro preserves_modify) (auto simp: base_def set_completion_def)

lemma base_ext_info [preserves_intro]: "preserves (base b d) (parse_ext_info m)"
  unfolding parse_ext_info_def Let_def
  by (intro preserves_intro preserves_modify) (auto simp: base_def)

lemma base_server_finish [preserves_intro]: "preserves (base b d) (server_finish env r key hfs K f)"
  unfolding server_finish_def exchange_hash_def set_K_H_def Let_def
  by (intro preserves_intro preserves_modify) (auto simp: base_def)

lemma base_client_finish [preserves_intro]: "preserves (base b d) (client_finish env key sig hfs K)"
  unfolding client_finish_def exchange_hash_def set_K_H_def verify_key_def
  by (intro preserves_intro preserves_modify) (auto simp: base_def)

lemma base_key_blob [preserves_intro]: "preserves (base b d) server_key_blob"
  unfolding server_key_blob_def by (intro preserves_intro)

lemma base_group_start [preserves_intro]: "preserves (\<lambda>s. base b d (fst s)) (group_start P G)"
  unfolding group_start_def by (intro preserves_intro)

lemma base_gex_start [preserves_intro]: "preserves (\<lambda>s. base b d (fst s)) (gex_start o')"
  unfolding gex_start_def by (intro preserves_intro)

lemma base_ec_start [preserves_intro]: "preserves (\<lambda>s. base b d (fst s)) (ec_start env priv)"
  unfolding ec_start_def by (intro preserves_intro)

lemma base_group_next [preserves_intro]: "preserves (\<lambda>s. base b d (fst s)) (group_parse_next env P ptype m)"
  unfolding group_parse_next_def group_init_def group_reply_def Let_def
  by (intro preserves_intro)

lemma base_gex_x [preserves_intro]: "preserves (\<lambda>s. base b d (fst s)) gex_generate_x"
  unfolding gex_generate_x_def Let_def by (intro preserves_intro)

lemma base_gex_group [preserves_intro]: "preserves (\<lambda>s. base b d (fst s)) gex_send_group"
  unfolding gex_send_group_def by (intro preserves_intro)

lemma base_gex_next [preserves_intro]: "preserves (\<lambda>s. base b d (fst s)) (gex_parse_next env ptype m)"
  unfolding gex_parse_next_def gex_request_def gex_group_def gex_init_def gex_reply_def gex_request_old_def Let_def
  by (intro preserves_intro)

lemma base_ec_init [preserves_intro]: "preserves (\<lambda>s. base b d (fst s)) (ec_init env mont m)"
  unfolding ec_init_def nist_init_def curve25519_init_def Let_def
  by (cases mont) (simp_all, intro preserves_intro, intro preserves_intro)

lemma base_ec_next [preserves_intro]: "preserves (\<lambda>s. base b d (fst s)) (ec_parse_next env mont ptype m)"
  unfolding ec_parse_next_def ec_reply_def Let_def
  by (intro preserves_intro)

section \<open>What a method leaves when it returns\<close>

definition ensures :: "('s \<Rightarrow> bool) \<Rightarrow> ('s, 'a) prog \<Rightarrow> bool" where
  "ensures Q p \<longleftrightarrow> (\<forall>s x s'. p s = (Ret x, s') \<longrightarrow> Q s')"

named_theorems ensures_intro \<open>what holds after a return\<close>

lemma ensuresD: "ensures Q p \<Longrightarrow> p s = (Ret x, s') \<Longrightarrow> Q s'"
  by (auto simp: ensures_def)

lemma ensures_seqp [ensures_intro]: "(\<And>x. ensures Q (f x)) \<Longrightarrow> ensures Q (seqp p f)"
  by (auto simp: ensures_def seqp_Ret)

lemma ensures_seqp_keep: "ensures Q p \<Longrightarrow> (\<And>x. preserves Q (f x)) \<Longrightarrow> ensures Q (seqp p f)"
  unfolding ensures_def seqp_Ret by (meson preservesD)

lemma ensures_basic [ensures_intro]: "ensures Q (raise e)" "ensures Q (\<lambda>s. (Blocked, s))"
  by (simp_all add: ensures_def)

lemma ensures_if [ensures_intro]: "ensures Q p \<Longrightarrow> ensures Q q \<Longrightarrow> ensures Q (if b then p else q)"
  by simp

lemma ensures_case_prod [ensures_intro]: "(\<And>a b. ensures Q (f a b)) \<Longrightarrow> ensures Q (case x of (a, b) \<Rightarrow> f a b)"
  by (cases x) simp

lemma ensures_case_option [ensures_intro]:
  "ensures Q p \<Longrightarrow> (\<And>x. ensures Q (f x)) \<Longrightarrow> ensures Q (case o' of None \<Rightarrow> p | Some x \<Rightarrow> f x)"
  by (cases o') simp_all

lemma ensures_on_t [ensures_intro]: "ensures Q p \<Longrightarrow> ensures (\<lambda>s. Q (fst s)) (on_t p)"
  by (auto simp: ensures_def on_t_def split: prod.splits)

text \<open>The types a key exchange waits for.\<close>

definition kex_types :: "int set" where
  "kex_types = {MSG_KEXINIT, MSG_NEWKEYS} \<union> {30 .. 41}"

definition expects :: "transport \<Rightarrow> bool" where
  "expects t \<longleftrightarrow> expected_packet t \<noteq> [] \<and> set (expected_packet t) \<subseteq> kex_types"

lemma expects_after [ensures_intro]: "ps \<noteq> [] \<Longrightarrow> set ps \<subseteq> kex_types \<Longrightarrow> ensures expects (expect_packet ps)"
  by (auto simp: ensures_def expect_packet_def expects_def)

lemma kex_types_in: "x \<in> {30, 31, 32, 33, 34} \<Longrightarrow> x \<in> kex_types" "MSG_NEWKEYS \<in> kex_types" "MSG_KEXINIT \<in> kex_types"
  by (auto simp: kex_types_def)

lemma expects_outbound [ensures_intro]: "ensures expects (activate_outbound env)"
proof -
  have "expects t'" if "activate_outbound env t = (Ret (), t')" for t t'
  proof -
    from that obtain u s v where "finish_outbound u s v = (Ret (), t')"
      by (auto simp: activate_outbound_def seqp_Ret)
    from finish_outbound_result [OF this] have "expected_packet t' = [MSG_NEWKEYS]" by simp
    then show ?thesis by (simp add: expects_def kex_types_def)
  qed
  then show ?thesis by (simp add: ensures_def)
qed

lemma expects_finish [ensures_intro]:
  "ensures expects (server_finish env r key hfs K f)" "ensures expects (client_finish env key sig hfs K)"
  unfolding server_finish_def client_finish_def Let_def by (intro ensures_intro)+

lemma expects_gex_send [ensures_intro]: "ensures (\<lambda>s. expects (fst s)) gex_send_group"
  unfolding gex_send_group_def by (intro ensures_intro) (auto simp: kex_types_in)

lemma expects_starts [ensures_intro]:
  "ensures (\<lambda>s. expects (fst s)) (group_start P G)" "ensures (\<lambda>s. expects (fst s)) (gex_start o')"
  "ensures (\<lambda>s. expects (fst s)) (ec_start env priv)"
  unfolding group_start_def gex_start_def ec_start_def by (intro ensures_intro; auto simp: kex_types_in)+

lemma expects_group [ensures_intro]: "ensures (\<lambda>s. expects (fst s)) (group_parse_next env P ptype m)"
  unfolding group_parse_next_def group_init_def group_reply_def Let_def by (intro ensures_intro)

lemma expects_gex [ensures_intro]: "ensures (\<lambda>s. expects (fst s)) (gex_parse_next env ptype m)"
proof -
  have "ensures (\<lambda>s. expects (fst s)) (gex_request_old m)"
    unfolding gex_request_old_def Let_def
    by (intro ensures_intro ensures_seqp_keep [OF expects_gex_send] preserves_intro)
  then show ?thesis
    unfolding gex_parse_next_def gex_request_def gex_group_def gex_init_def gex_reply_def Let_def
    by (intro ensures_intro) (auto simp: kex_types_in)
qed

lemma expects_ec [ensures_intro]: "ensures (\<lambda>s. expects (fst s)) (ec_parse_next env mont ptype m)"
proof -
  have "ensures (\<lambda>s. expects (fst s)) (ec_init env mont m)"
    unfolding ec_init_def nist_init_def curve25519_init_def Let_def
    by (cases mont) (simp_all, intro ensures_intro, intro ensures_intro)
  then show ?thesis
    unfolding ec_parse_next_def ec_reply_def Let_def by (intro ensures_intro)
qed

section \<open>The layers above the key exchange\<close>

text \<open>The authentication and everything about channels.\<close>

definition upper :: "session \<Rightarrow> auth \<times> (int \<times> channel) list \<times> int list \<times> int list \<times> (pystr \<times> int) list" where
  "upper s = (au s, chans s, seen s, server_accepts s, custom_handled s)"

definition frame :: "(auth \<times> (int \<times> channel) list \<times> int list \<times> int list \<times> (pystr \<times> int) list) \<Rightarrow> bool \<Rightarrow> bool \<Rightarrow> session \<Rightarrow> bool" where
  "frame u b d s \<longleftrightarrow> upper s = u \<and> base b d (tr s)"

lemma upper_upd [simp]: "upper (s\<lparr>tr := t\<rparr>) = upper s" "upper (s\<lparr>kex := k\<rparr>) = upper s"
  by (simp_all add: upper_def)

lemma frame_on_tr [preserves_intro]: "preserves (base b d) p \<Longrightarrow> preserves (frame u b d) (on_tr p)"
proof -
  assume p: "preserves (base b d) p"
  have "frame u b d (snd (on_tr p s))" if "frame u b d s" for s
  proof -
    obtain r t where r: "p (tr s) = (r, t)" by fastforce
    with preservesD [OF p _ r] that show ?thesis by (simp add: frame_def on_tr_def)
  qed
  then show ?thesis by (simp add: preserves_def)
qed

lemma frame_send [preserves_intro]: "preserves (frame u b d) (s_send fs)"
  unfolding s_send_def by (intro preserves_intro)

lemma preserves_state: "(\<And>x. preserves P (f x)) \<Longrightarrow> preserves P (\<lambda>s. f s s)"
  by (simp add: preserves_def)

text \<open>A method of the key exchange's object.\<close>

lemma frame_kex:
  assumes "preserves (\<lambda>s. base b d (fst s)) p" and "frame u b d s" and "p (tr s, k) = (r, (t, k'))"
  shows "frame u b d (s\<lparr>tr := t, kex := K\<rparr>)"
  using assms preservesD [of "\<lambda>s. base b d (fst s)" p "(tr s, k)" r "(t, k')"] by (simp add: frame_def)

text \<open>The shape all methods have.\<close>

lemma method_shape:
  assumes "(case p (tr s, k) of (r, (t, k)) \<Rightarrow> (r, s\<lparr>tr := t, kex := c k\<rparr>)) = (o', s')"
  obtains t k' where "p (tr s, k) = (o', (t, k'))" "s' = s\<lparr>tr := t, kex := c k'\<rparr>"
  using assms by (auto split: prod.splits)

lemma frame_start_method: "start_method cfg k s = (r, s') \<Longrightarrow> frame u b d s \<Longrightarrow> frame u b d s'"
  unfolding start_method_def
  by (cases k; simp; elim method_shape; simp)
    (rule frame_kex [OF base_group_start], assumption+, rule frame_kex [OF base_gex_start], assumption+,
      rule frame_kex [OF base_ec_start], assumption+)

lemma frame_next_method: "next_method cfg ptype m k s = (r, s') \<Longrightarrow> frame u b d s \<Longrightarrow> frame u b d s'"
  unfolding next_method_def
  by (cases k; simp; elim method_shape; simp)
    (rule frame_kex [OF base_group_next], assumption+, rule frame_kex [OF base_gex_next], assumption+,
      rule frame_kex [OF base_ec_next], assumption+)

lemma frame_start_kex [preserves_intro]: "preserves (frame u b d) (start_kex cfg)"
  by (rule preservesI) (auto simp: start_kex_def dest: frame_start_method)

lemma frame_kex_next [preserves_intro]: "preserves (frame u b d) (kex_next cfg ptype m)"
  by (rule preservesI) (auto simp: kex_next_def dest: frame_next_method split: if_splits)

lemma frame_negotiate [preserves_intro]: "preserves (frame u b d) (negotiate_keys cfg seqno m)"
  unfolding negotiate_keys_def by (intro preserves_intro preserves_modify) simp

lemma frame_rekey [preserves_intro]: "preserves (frame u b d) (rekey_turn cfg)"
  unfolding rekey_turn_def by (intro preserves_intro)

lemma expects_kex:
  assumes "ensures (\<lambda>s. expects (fst s)) p" and "p (tr s, k) = (Ret x, (t, k'))"
  shows "expects t"
  using ensuresD [OF assms] by simp

lemma expects_start_method: "start_method cfg k s = (Ret x, s') \<Longrightarrow> expects (tr s')"
  unfolding start_method_def
  by (cases k; simp; elim method_shape; simp)
    (rule expects_kex [OF expects_starts(1)], assumption, rule expects_kex [OF expects_starts(2)], assumption,
      rule expects_kex [OF expects_starts(3)], assumption)

lemma expects_next_method: "next_method cfg ptype m k s = (Ret x, s') \<Longrightarrow> expects (tr s')"
  unfolding next_method_def
  by (cases k; simp; elim method_shape; simp)
    (rule expects_kex [OF expects_group], assumption, rule expects_kex [OF expects_gex], assumption,
      rule expects_kex [OF expects_ec], assumption)

lemma ensures_start_kex [ensures_intro]: "ensures (\<lambda>s. expects (tr s)) (start_kex cfg)"
  by (auto simp: ensures_def start_kex_def dest: expects_start_method)

lemma ensures_kex_next: "ensures (\<lambda>s. expects (tr s)) (kex_next cfg ptype m)"
  by (auto simp: ensures_def kex_next_def dest: expects_next_method split: if_splits)

lemma ensures_negotiate: "ensures (\<lambda>s. expects (tr s)) (negotiate_keys cfg seqno m)"
  unfolding negotiate_keys_def by (intro ensures_intro)

section \<open>Before the first key exchange is done\<close>

definition awaiting_kex :: "session \<Rightarrow> bool" where
  "awaiting_kex s \<longleftrightarrow> initial_kex_done (tr s) \<or> expects (tr s)"

lemma seqp_on_tr_modify [simp]: "seqp (on_tr (modify g)) f s = f () (s\<lparr>tr := g (tr s)\<rparr>)"
  by (simp add: seqp_def on_tr_def)

text \<open>The three message types that are looked at before the expected ones.\<close>

lemma turn_expected:
  assumes "expects (tr s)" and "ptype \<notin> {MSG_IGNORE, MSG_DISCONNECT, MSG_DEBUG}"
  shows "turn cfg n ptype m s =
    (if ptype \<notin> set (expected_packet (tr s))
     then (Exn (if agreed_on_strict_kex (tr s) then MessageOrderError else SSHException ''Expecting packet''), s)
     else let s = s\<lparr>tr := (tr s)\<lparr>expected_packet := []\<rparr>\<rparr>
       in if 30 \<le> ptype \<and> ptype \<le> 41 then seqp (kex_next cfg ptype m) (\<lambda>_. ret True) s
          else dispatch cfg n ptype m s)"
  using assms by (simp add: turn_def after_expected_def expects_def on_tr_def Let_def)

lemma turn_uncounted:
  assumes "ptype \<in> {MSG_IGNORE, MSG_DISCONNECT, MSG_DEBUG}" and "turn cfg n ptype m s = (r, s')"
  shows "s' = s \<and> (r = Ret True \<longrightarrow> ptype \<noteq> MSG_DISCONNECT \<and> \<not> (agreed_on_strict_kex (tr s) \<and> \<not> initial_kex_done (tr s)))"
proof -
  consider "ptype = MSG_IGNORE" | "ptype = MSG_DISCONNECT" | "ptype = MSG_DEBUG" using assms(1) by auto
  then show ?thesis
  proof cases
    case 2
    obtain code m1 where g: "get_int m = (code, m1)" by fastforce
    with assms(2) 2 show ?thesis by (cases "get_text m1") (auto simp: turn_def parse_disconnect_def g seqp_def)
  qed (use assms(2) in \<open>auto simp: turn_def enforce_strict_kex_def parse_debug_def seqp_def split: if_splits\<close>)
qed

lemma dispatch_kexinit:
  "dispatch cfg n MSG_KEXINIT m = seqp (negotiate_keys cfg n m) (\<lambda>_. finish_turn)"
  "dispatch cfg n MSG_NEWKEYS m = seqp (on_tr (parse_newkeys (c_crypto cfg))) (\<lambda>_. finish_turn)"
  by (auto simp: dispatch_def transport_handler_def ensure_authed_def HIGHEST_USERAUTH_MESSAGE_ID_def seqp_def fun_eq_iff
      split: prod.splits outcome.splits)

lemma finish_turn_eq: "finish_turn s = (Ret True, s\<lparr>tr := (tr s)\<lparr>calls := calls (tr s) @ [CompleteHandshake]\<rparr>\<rparr>)"
  by (simp add: finish_turn_def seqp_def on_tr_def call_def)

lemma ensures_newkeys: "ensures (\<lambda>s. initial_kex_done (tr s)) (on_tr (parse_newkeys env))"
proof -
  have "ensures initial_kex_done (parse_newkeys env)"
    unfolding parse_newkeys_def
    by (rule ensures_seqp, rule ensures_seqp, rule ensures_seqp) (simp add: ensures_def seqp_def set_completion_def call_def)
  then show ?thesis by (auto simp: ensures_def on_tr_def split: prod.splits)
qed

lemma frame_expected [simp]: "frame u b d (s\<lparr>tr := (tr s)\<lparr>expected_packet := l\<rparr>\<rparr>) = frame u b d s"
  by (simp add: frame_def)

lemma frame_finish [preserves_intro]: "preserves (frame u b d) finish_turn"
  unfolding finish_turn_def by (intro preserves_intro)

lemma expects_calls [simp]: "expects (t\<lparr>calls := c\<rparr>) = expects t"
  by (simp add: expects_def)

lemma awaiting_finish: "awaiting_kex (s\<lparr>tr := (tr s)\<lparr>calls := c\<rparr>\<rparr>) = awaiting_kex s"
  by (simp add: awaiting_kex_def expects_def)

lemma finish_awaiting:
  assumes "ensures awaiting_kex p" and "seqp p (\<lambda>_. finish_turn) s = (Ret x, s')"
  shows "x \<and> awaiting_kex s'"
proof -
  from assms(2) obtain y s1 where p: "p s = (Ret y, s1)" and f: "finish_turn s1 = (Ret x, s')" unfolding seqp_Ret by blast
  from ensuresD [OF assms(1) p] have "awaiting_kex s1" .
  with f show ?thesis by (auto simp: finish_turn_eq awaiting_finish)
qed

lemma awaiting_after:
  "ensures awaiting_kex (kex_next cfg ptype m)" "ensures awaiting_kex (negotiate_keys cfg n m)" "ensures awaiting_kex (on_tr (parse_newkeys env))"
  using ensures_kex_next ensures_negotiate ensures_newkeys unfolding ensures_def awaiting_kex_def by blast+

text \<open>One turn in which the key exchange's own messages are handled.\<close>

lemma kex_turn:
  assumes "expects (tr s)" and "ptype \<in> set (expected_packet (tr s))" and "turn cfg n ptype m s = (r, s')" and "frame u b d s"
    and "ptype \<notin> {MSG_IGNORE, MSG_DISCONNECT, MSG_DEBUG}"
  shows "frame u b d s' \<and> (\<forall>x. r = Ret x \<longrightarrow> x \<and> awaiting_kex s')"
proof -
  let ?s = "s\<lparr>tr := (tr s)\<lparr>expected_packet := []\<rparr>\<rparr>"
  have f: "frame u b d ?s" using assms(4) by simp
  have t: "(if 30 \<le> ptype \<and> ptype \<le> 41 then seqp (kex_next cfg ptype m) (\<lambda>_. ret True) ?s else dispatch cfg n ptype m ?s) = (r, s')"
    using assms(2,3) by (simp only: turn_expected [OF assms(1,5)] Let_def not_True_eq_False if_False)
  from assms(1,2) consider "30 \<le> ptype \<and> ptype \<le> 41" | "ptype = MSG_KEXINIT" | "ptype = MSG_NEWKEYS"
    unfolding expects_def kex_types_def by fastforce
  then show ?thesis
  proof cases
    case 1
    from t [unfolded if_P [OF 1]] have q: "seqp (kex_next cfg ptype m) (\<lambda>_. ret True) ?s = (r, s')" .
    have P: "preserves (frame u b d) (seqp (kex_next cfg ptype m) (\<lambda>_. ret True))" by (intro preserves_intro)
    have e: "x \<and> awaiting_kex s'" if x: "r = Ret x" for x
    proof -
      from q [unfolded x seqp_Ret ret_apply] obtain y where "kex_next cfg ptype m ?s = (Ret y, s')" "x" by blast
      with ensuresD [OF awaiting_after(1)] show ?thesis by simp
    qed
    from preservesD [OF P f q] e show ?thesis by blast
  next
    case 2
    have no: "\<not> (30 \<le> ptype \<and> ptype \<le> 41)" unfolding 2 by simp
    from t [unfolded if_not_P [OF no], unfolded 2 dispatch_kexinit] have q: "seqp (negotiate_keys cfg n m) (\<lambda>_. finish_turn) ?s = (r, s')" .
    have P: "preserves (frame u b d) (seqp (negotiate_keys cfg n m) (\<lambda>_. finish_turn))" by (intro preserves_intro)
    have e: "x \<and> awaiting_kex s'" if "r = Ret x" for x
      by (rule finish_awaiting [OF awaiting_after(2) q [unfolded that]])
    from preservesD [OF P f q] e show ?thesis by blast
  next
    case 3
    have no: "\<not> (30 \<le> ptype \<and> ptype \<le> 41)" unfolding 3 by simp
    from t [unfolded if_not_P [OF no], unfolded 3 dispatch_kexinit] have q: "seqp (on_tr (parse_newkeys (c_crypto cfg))) (\<lambda>_. finish_turn) ?s = (r, s')" .
    have P: "preserves (frame u b d) (seqp (on_tr (parse_newkeys (c_crypto cfg))) (\<lambda>_. finish_turn))" by (intro preserves_intro)
    have e: "x \<and> awaiting_kex s'" if "r = Ret x" for x
      by (rule finish_awaiting [OF awaiting_after(3) q [unfolded that]])
    from preservesD [OF P f q] e show ?thesis by blast
  qed
qed

section \<open>The role and the first key exchange, through every handler\<close>

definition sbase :: "bool \<Rightarrow> bool \<Rightarrow> session \<Rightarrow> bool" where
  "sbase b d s \<longleftrightarrow> base b d (tr s)"

lemma sbase_on_tr [preserves_intro]: "preserves (base b d) p \<Longrightarrow> preserves (sbase b d) (on_tr p)"
  by (rule preservesI) (auto simp: sbase_def on_tr_def dest: preservesD split: prod.splits)

lemma sbase_on_au [preserves_intro]: "preserves (\<lambda>s. base b d (fst s)) p \<Longrightarrow> preserves (sbase b d) (on_au p)"
proof (rule preservesI)
  fix s r s'
  assume a: "preserves (\<lambda>s. base b d (fst s)) p" "sbase b d s" "on_au p s = (r, s')"
  obtain o' t k where p: "p (tr s, au s) = (o', (t, k))" by (metis prod.collapse)
  with a(3) have "s' = s\<lparr>tr := t, au := k\<rparr>" by (auto simp: on_au_def)
  with preservesD [OF a(1) _ p] a(2) show "sbase b d s'" by (simp add: sbase_def)
qed

lemma sbase_send [preserves_intro]: "preserves (sbase b d) (s_send fs)"
  unfolding s_send_def by (intro preserves_intro)

lemma sbase_thread_send [preserves_intro]: "preserves (sbase b d) (thread_send fs)"
  unfolding thread_send_def by (intro preserves_intro)

lemma sbase_thread_sends [preserves_intro]: "preserves (sbase b d) (thread_sends l)"
proof (induction l)
  case Nil
  show ?case unfolding thread_sends.simps by (intro preserves_intro)
next
  case (Cons fs l)
  then show ?case unfolding thread_sends.simps by (intro preserves_intro)
qed

lemma sbase_on_chan [preserves_intro]: "preserves (sbase b d) (on_chan cid c p)"
proof -
  obtain r c' where p: "p c = (r, c')" by fastforce
  show ?thesis
    unfolding on_chan_def p prod.case
    by (intro preserves_intro preserves_modify) (simp add: sbase_def store_chan_def chan_put_def chan_delete_def)
qed

text \<open>A method that works above the transport leaves it alone.\<close>

lemma sbase_frame: "(\<And>u. preserves (frame u b d) p) \<Longrightarrow> preserves (sbase b d) p"
  unfolding preserves_def frame_def sbase_def by blast

lemma sbase_next_channel [preserves_intro]: "preserves (sbase b d) next_channel"
  by (auto simp: preserves_def next_channel_def sbase_def split: option.split)

lemma sbase_hand_over [preserves_intro]: "preserves (sbase b d) (hand_over cfg kind cid)"
  unfolding hand_over_def Let_def by (intro preserves_intro preserves_modify) (auto simp: sbase_def)

lemma sbase_open_decision [preserves_intro]: "preserves (sbase b d) (open_decision cfg kind m)"
  unfolding open_decision_def by (intro preserves_intro)

lemma preserves_case_sum [preserves_intro]:
  "(\<And>x. preserves P (f x)) \<Longrightarrow> (\<And>y. preserves P (g y)) \<Longrightarrow> preserves P (case s of Inl x \<Rightarrow> f x | Inr y \<Rightarrow> g y)"
  by (cases s) simp_all

lemma sbase_channel_open [preserves_intro]: "preserves (sbase b d) (parse_channel_open cfg m)"
  unfolding parse_channel_open_def Let_def
  by (intro preserves_intro preserves_modify) (auto simp: sbase_def chan_put_def)

lemma sbase_open_success [preserves_intro]: "preserves (sbase b d) (parse_channel_open_success m)"
  unfolding parse_channel_open_success_def Let_def
  by (intro preserves_intro preserves_modify) (auto simp: sbase_def fire_event_def)

lemma sbase_open_failure [preserves_intro]: "preserves (sbase b d) (parse_channel_open_failure m)"
  unfolding parse_channel_open_failure_def Let_def
  by (intro preserves_intro preserves_modify) (auto simp: sbase_def fire_event_def chan_delete_def)

lemma sbase_globals [preserves_intro]:
  "preserves (sbase b d) (parse_global_request cfg m)" "preserves (sbase b d) (parse_request_success m)"
  "preserves (sbase b d) (parse_request_failure m)" "preserves (sbase b d) (note_service_accept m)"
  unfolding parse_global_request_def parse_request_success_def parse_request_failure_def note_service_accept_def Let_def
  by (intro preserves_intro preserves_modify; auto simp: sbase_def base_def set_completion_def)+

lemma sbase_kex [preserves_intro]:
  "preserves (sbase b d) (negotiate_keys cfg n m)" "preserves (sbase b d) (kex_next cfg ptype m)"
  "preserves (sbase b d) (rekey_turn cfg)" "preserves (sbase b d) finish_turn"
  by (rule sbase_frame, intro preserves_intro)+

lemma sbase_transport_handler: "transport_handler cfg n ptype m = Some p \<Longrightarrow> preserves (sbase b d) p"
  by (auto simp: transport_handler_def split: if_splits intro!: preserves_intro)

lemma base_trigger [preserves_intro]: "preserves (base b d) auth_trigger"
  unfolding auth_trigger_def by (intro preserves_intro preserves_modify) simp

lemma base_close [preserves_intro]: "preserves (base b d) t_close"
  unfolding t_close_def stop_thread_def by (intro preserves_intro preserves_modify) simp

lemma base_disconnects [preserves_intro]:
  "preserves (\<lambda>s. base b d (fst s)) disconnect_service_not_available" "preserves (\<lambda>s. base b d (fst s)) disconnect_no_more_auth"
  unfolding disconnect_service_not_available_def disconnect_no_more_auth_def by (intro preserves_intro)+

lemma base_auth_result [preserves_intro]: "preserves (\<lambda>s. base b d (fst s)) (send_auth_result srv u r)"
  unfolding send_auth_result_def send_result_def after_result_def by (intro preserves_intro)

lemma base_verdict [preserves_intro]: "preserves (\<lambda>s. base b d (fst s)) (answer_verdict srv u v)"
  unfolding answer_verdict_def interactive_query_msg_def by (cases v; simp; intro preserves_intro)

lemma base_publickey [preserves_intro]: "preserves (\<lambda>s. base b d (fst s)) (publickey_request env srv u sv m)"
  unfolding publickey_request_def Let_def by (intro preserves_intro)

lemma base_finalize [preserves_intro]: "preserves (\<lambda>s. base b d (fst s)) (finalize_pubkey_algorithm key)"
  unfolding finalize_pubkey_algorithm_def by (intro preserves_intro)

lemma base_auth_handlers [preserves_intro]:
  "preserves (\<lambda>s. base b d (fst s)) (parse_service_request srv m)"
  "preserves (\<lambda>s. base b d (fst s)) (parse_userauth_request env srv m)"
  "preserves (\<lambda>s. base b d (fst s)) (parse_info_response srv m)"
  "preserves (\<lambda>s. base b d (fst s)) (parse_service_accept env m)"
  "preserves (\<lambda>s. base b d (fst s)) parse_userauth_success"
  "preserves (\<lambda>s. base b d (fst s)) (parse_userauth_failure m)"
  "preserves (\<lambda>s. base b d (fst s)) (parse_userauth_banner m)"
  "preserves (\<lambda>s. base b d (fst s)) (parse_info_request h m)"
  unfolding parse_service_request_def parse_userauth_request_def method_request_def parse_info_response_def
    parse_service_accept_def method_fields_def publickey_fields_def parse_userauth_success_def
    parse_userauth_failure_def parse_userauth_banner_def parse_info_request_def Let_def
  by (intro preserves_intro)+

lemma base_auth_handler_of: "auth_handler_of cfg server ptype m = Some p \<Longrightarrow> preserves (\<lambda>s. base b d (fst s)) p"
  by (auto simp: auth_handler_of_def server_handler_def client_handler_def split: if_splits intro!: preserves_intro)

lemma sbase_dispatch [preserves_intro]: "preserves (sbase b d) (dispatch cfg n ptype m)"
proof -
  have t: "preserves (sbase b d) (case e of None \<Rightarrow> p | Some [] \<Rightarrow> raise IndexError | Some reply \<Rightarrow> s_send reply)"
    if "transport_handler cfg n ptype m = Some p" for p e
    using sbase_transport_handler [OF that] by (auto split: option.split list.split intro: preserves_intro)
  have c: "preserves (sbase b d) (channel_message cfg ptype m)"
    unfolding channel_message_def Let_def by (intro preserves_intro)
  have a: "preserves (sbase b d) (on_au p)" if "(if h then auth_handler_of cfg server ptype m else None) = Some p" for h server p
    using base_auth_handler_of that by (auto split: if_splits intro: preserves_intro)
  have u: "preserves (sbase b d) (unhandled n ptype)" unfolding unhandled_def by (intro preserves_intro)
  show ?thesis
    unfolding dispatch_def
    by (intro preserves_seqp preserves_gets)
      (auto split: option.split intro!: preserves_intro t c a u)
qed

lemma sbase_turn [preserves_intro]: "preserves (sbase b d) (turn cfg n ptype m)"
  unfolding turn_def after_expected_def enforce_strict_kex_def parse_disconnect_def parse_debug_def Let_def
  by (intro preserves_intro preserves_modify) simp

text \<open>Packets and requests to re-key, without anything that other threads do.\<close>

definition only_packets :: "incoming list \<Rightarrow> bool" where
  "only_packets ins \<longleftrightarrow> (\<forall>i\<in>set ins. case i of Other f \<Rightarrow> False | _ \<Rightarrow> True)"

lemma only_packets_simps [simp]:
  "only_packets []" "only_packets (Packet n ptype m # ins) = only_packets ins" "only_packets (RekeyNeeded # ins) = only_packets ins"
  "\<not> only_packets (Other f # ins)"
  by (simp_all add: only_packets_def)

text \<open>One turn of the loop, whatever it is given: the loop ends with the state, or it goes on from it.\<close>

lemma loop_cases:
  assumes "thread_loop cfg (i # ins) s = (r, s')" and "only_packets (i # ins)"
  obtains (dead) "s' = s" "\<not> active (tr s)"
  | (rekey) s1 where "i = RekeyNeeded" "active (tr s)" "rekey_turn cfg s = (Ret (), s1)" "thread_loop cfg ins s1 = (r, s')"
      "\<And>xs. thread_loop cfg (i # xs) s = thread_loop cfg xs s1"
  | (stuck) x where "active (tr s)" "rekey_turn cfg s = (x, s')" "x \<noteq> Ret ()" "\<And>u. x \<noteq> Ret u"
  | (last) n ptype m s1 x where "i = Packet n ptype m" "active (tr s)" "rekey_turn cfg s = (Ret (), s1)" "turn cfg n ptype m s1 = (x, s')"
      "x \<noteq> Ret True"
  | (next_one) n ptype m s1 s2 where "i = Packet n ptype m" "active (tr s)" "rekey_turn cfg s = (Ret (), s1)" "turn cfg n ptype m s1 = (Ret True, s2)"
      "thread_loop cfg ins s2 = (r, s')" "\<And>xs. thread_loop cfg (i # xs) s = thread_loop cfg xs s2"
proof (cases "active (tr s)")
  case False
  with assms show ?thesis by (intro dead; cases i) auto
next
  case act: True
  obtain x s1 where k: "rekey_turn cfg s = (x, s1)" by fastforce
  show ?thesis
  proof (cases x)
    case (Ret u)
    with k have k: "rekey_turn cfg s = (Ret (), s1)" by simp
    show ?thesis
    proof (cases i)
      case (Packet n ptype m)
      obtain y s2 where t: "turn cfg n ptype m s1 = (y, s2)" by fastforce
      show ?thesis
      proof (cases "y = Ret True")
        case True
        with Packet act k t assms(1) show ?thesis by (intro next_one [of n ptype m s1 s2]) (auto simp: seqp_def)
      next
        case False
        with Packet act k t assms(1) have "s' = s2" by (cases y) (auto simp: seqp_def)
        with Packet act k t False show ?thesis by (intro last [of n ptype m s1 y]) auto
      qed
    next
      case RekeyNeeded
      with act k assms(1) show ?thesis by (intro rekey [of s1]) auto
    next
      case (Other f)
      with assms(2) show ?thesis by simp
    qed
  next
    case (Exn e)
    with k act assms have "s' = s1" by (cases i) (auto simp: seqp_def)
    with k act Exn show ?thesis by (intro stuck [of x]) auto
  next
    case Blocked
    with k act assms have "s' = s1" by (cases i) (auto simp: seqp_def)
    with k act Blocked show ?thesis by (intro stuck [of x]) auto
  qed
qed

lemma rekey_frame: "rekey_turn cfg s = (r, s') \<Longrightarrow> frame u b d s \<Longrightarrow> frame u b d s'"
  using preservesD [OF frame_rekey] by blast

lemma frame_self: "frame (upper s) (server_mode (tr s)) (initial_kex_done (tr s)) s"
  by (simp add: frame_def base_def)

lemma frameD: "frame (upper s) (server_mode (tr s)) (initial_kex_done (tr s)) s' \<Longrightarrow>
    upper s' = upper s \<and> server_mode (tr s') = server_mode (tr s) \<and> (initial_kex_done (tr s) \<longrightarrow> initial_kex_done (tr s'))"
  by (simp add: frame_def base_def)

lemma kexed_turn: "turn cfg n ptype m s = (r, s') \<Longrightarrow> initial_kex_done (tr s) \<Longrightarrow> initial_kex_done (tr s')"
  using preservesD [OF sbase_turn [of "server_mode (tr s)" True cfg n ptype m], of s r s'] by (simp add: sbase_def base_def)

lemma kexed_rekey: "rekey_turn cfg s = (r, s') \<Longrightarrow> initial_kex_done (tr s) \<Longrightarrow> initial_kex_done (tr s')"
  using frameD [OF rekey_frame [OF _ frame_self]] by blast

lemma kexed_loop: "thread_loop cfg ins s = (r, s') \<Longrightarrow> only_packets ins \<Longrightarrow> initial_kex_done (tr s) \<Longrightarrow> initial_kex_done (tr s')"
proof (induction ins arbitrary: s)
  case (Cons i ins)
  have o: "only_packets ins" using Cons.prems(2) by (cases i) auto
  from Cons.prems(1,2) show ?case
    by (cases rule: loop_cases) (use Cons.IH [OF _ o] Cons.prems(3) kexed_turn kexed_rekey in metis)+
qed simp

text \<open>Sending a \<open>KEXINIT\<close> leaves what is expected and the session identifier.\<close>

lemma kept_kex_init: "preserves (\<lambda>t. (expected_packet t, session_id t) = l) (send_kex_init a)"
  unfolding send_kex_init_def drop_gex_def set_kex_def set_option_def urandom_def call_def
  by (intro preserves_intro preserves_modify) simp_all

lemma rekey_kept:
  assumes "rekey_turn cfg s = (r, s')"
  shows "expected_packet (tr s') = expected_packet (tr s) \<and> session_id (tr s') = session_id (tr s)"
proof (cases "need_rekey (tr s) \<and> \<not> in_kex (tr s)")
  case True
  obtain o' t where k: "send_kex_init (c_curve25519 cfg) (tr s) = (o', t)" by fastforce
  with assms True have "s' = s\<lparr>tr := t\<rparr>" by (simp add: rekey_turn_def on_tr_def)
  with preservesD [OF kept_kex_init [of "(expected_packet (tr s), session_id (tr s))"] refl k] show ?thesis by simp
next
  case False
  with assms show ?thesis by (auto simp: rekey_turn_def)
qed

lemma awaiting_rekey: "rekey_turn cfg s = (r, s') \<Longrightarrow> expects (tr s) \<Longrightarrow> expects (tr s')"
  using rekey_kept by (simp add: expects_def)

lemma turn_frame:
  assumes "expects (tr s)" and "turn cfg n ptype m s = (r, s')"
  shows "upper s' = upper s \<and> (r = Ret True \<longrightarrow> awaiting_kex s')"
proof (cases "ptype \<in> {MSG_IGNORE, MSG_DISCONNECT, MSG_DEBUG}")
  case True
  with turn_uncounted [OF True assms(2)] assms(1) show ?thesis by (simp add: awaiting_kex_def)
next
  case no: False
  show ?thesis
  proof (cases "ptype \<in> set (expected_packet (tr s))")
    case True
    from kex_turn [OF assms(1) True assms(2) frame_self no] show ?thesis by (auto simp: frame_def)
  next
    case False
    with turn_expected [OF assms(1) no] assms(2) show ?thesis by auto
  qed
qed

text \<open>Claim C23. 
  Claim. Until the first key exchange is done, nothing that the peer sends reaches the layers above:
  the authentication and the channels are as they were.
\<close>

theorem nothing_before_first_kex:
  assumes "thread_loop cfg ins s = (r, s')" and "only_packets ins" and "awaiting_kex s" and "\<not> initial_kex_done (tr s')"
  shows "au s' = au s \<and> chans s' = chans s \<and> seen s' = seen s \<and> server_accepts s' = server_accepts s \<and> custom_handled s' = custom_handled s"
proof -
  have "upper s' = upper s"
    using assms
  proof (induction ins arbitrary: s)
    case (Cons i ins)
    have o: "only_packets ins" using Cons.prems(2) by (cases i) auto
    have nd: "\<not> initial_kex_done (tr s)" using kexed_loop Cons.prems by blast
    then have ex: "expects (tr s)" using Cons.prems(3) by (simp add: awaiting_kex_def)
    from Cons.prems(1,2) show ?case
    proof (cases rule: loop_cases)
      case (rekey s1)
      have "expects (tr s1)" by (rule awaiting_rekey [OF rekey(3) ex])
      then have "upper s' = upper s1" using Cons.IH [OF rekey(4) o _ Cons.prems(4)] by (simp add: awaiting_kex_def)
      with frameD [OF rekey_frame [OF rekey(3) frame_self]] show ?thesis by simp
    next
      case (stuck x)
      with frameD [OF rekey_frame [OF stuck(2) frame_self]] show ?thesis by simp
    next
      case (last n ptype m s1 x)
      from frameD [OF rekey_frame [OF last(3) frame_self]] have u: "upper s1 = upper s" by simp
      from turn_frame [OF awaiting_rekey [OF last(3) ex] last(4)] u show ?thesis by simp
    next
      case (next_one n ptype m s1 s2)
      from frameD [OF rekey_frame [OF next_one(3) frame_self]] have u: "upper s1 = upper s" by simp
      from turn_frame [OF awaiting_rekey [OF next_one(3) ex] next_one(4)] u Cons.IH [OF next_one(5) o _ Cons.prems(4)]
      show ?thesis by simp
    qed simp
  qed simp
  then show ?thesis by (simp add: upper_def)
qed

text \<open>A server waiting for the first \<open>KEXINIT\<close>.\<close>

definition demo_config :: config where
  "demo_config = \<lparr>c_crypto = demo_env, c_auth = demo_auth_env, c_server = demo_server, c_interactive = (\<lambda>_ _ _. Inr []),
     c_curve25519 = True, c_private = [], c_auth_only = False, default_handlers = True\<rparr>"

definition demo_waiting :: session where
  "demo_waiting = new_session (demo_open\<lparr>expected_packet := [MSG_KEXINIT], agreed_on_strict_kex := True\<rparr>) 2097152 32768"

lemma demo_waiting_facts:
  "expects (tr demo_waiting)" "agreed_on_strict_kex (tr demo_waiting)" "\<not> initial_kex_done (tr demo_waiting)" "active (tr demo_waiting)"
  "\<not> need_rekey (tr demo_waiting)" "au demo_waiting = new_auth" "chans demo_waiting = []"
  by (simp_all add: demo_waiting_def new_session_def demo_open_def new_transport_def expects_def kex_types_def)

theorem nothing_before_first_kex_witness:
  "\<exists>s'. thread_loop demo_config [RekeyNeeded, Packet 0 MSG_CHANNEL_OPEN (message_of [])] demo_waiting = (Exn MessageOrderError, s') \<and>
     au s' = new_auth \<and> chans s' = []"
proof -
  have r: "rekey_turn demo_config demo_waiting = (Ret (), demo_waiting)"
    using demo_waiting_facts by (simp add: rekey_turn_def)
  have "turn demo_config 0 MSG_CHANNEL_OPEN (message_of []) demo_waiting = (Exn MessageOrderError, demo_waiting)"
    by (subst turn_expected [OF demo_waiting_facts(1)])
      (simp_all add: demo_waiting_def new_session_def demo_open_def)
  with r have l: "thread_loop demo_config [RekeyNeeded, Packet 0 MSG_CHANNEL_OPEN (message_of [])] demo_waiting =
      (Exn MessageOrderError, demo_waiting)"
    using demo_waiting_facts by (simp add: seqp_def)
  have "awaiting_kex demo_waiting" using demo_waiting_facts by (simp add: awaiting_kex_def)
  from nothing_before_first_kex [OF l _ this demo_waiting_facts(3)] l demo_waiting_facts show ?thesis by simp
qed

text \<open>
  Claim. In the strict mode, before the first key exchange is done, a packet out of order ends the
  connection, the ones that are otherwise ignored included.
\<close>

theorem strict_order_enforced:
  assumes "expects (tr s)" and "agreed_on_strict_kex (tr s)" and "\<not> initial_kex_done (tr s)"
    and "ptype \<notin> set (expected_packet (tr s))" and "ptype \<noteq> MSG_DISCONNECT"
  shows "turn cfg n ptype m s = (Exn MessageOrderError, s)"
proof (cases "ptype \<in> {MSG_IGNORE, MSG_DEBUG}")
  case True
  with assms show ?thesis by (auto simp: turn_def enforce_strict_kex_def seqp_def)
next
  case False
  with assms(5) have "ptype \<notin> {MSG_IGNORE, MSG_DISCONNECT, MSG_DEBUG}" by blast
  from turn_expected [OF assms(1) this] assms(2,4) show ?thesis by simp
qed

theorem strict_order_enforced_witness:
  "turn demo_config 1 MSG_IGNORE (message_of []) demo_waiting = (Exn MessageOrderError, demo_waiting)"
  by (rule strict_order_enforced [OF demo_waiting_facts(1-3)])
    (simp_all add: demo_waiting_def new_session_def demo_open_def)

section \<open>A server's channels wait for the authentication\<close>

definition no_channels :: "session \<Rightarrow> bool" where
  "no_channels s \<longleftrightarrow> chans s = [] \<and> seen s = [] \<and> server_accepts s = [] \<and> custom_handled s = []"

lemma no_channels_frame: "frame (upper s) b d s' \<Longrightarrow> no_channels s' = no_channels s \<and> au s' = au s"
  by (simp add: frame_def upper_def no_channels_def)

text \<open>What the transport itself does for a client that is not in: the key exchange, or an answer.\<close>

lemma transport_unauthed:
  assumes "transport_handler cfg n ptype m = Some p" and "server_mode (tr s)" and "\<not> a_authenticated (au s)"
    and "ensure_authed ptype m s = Inr e"
  shows "preserves (frame u b d) (case e of None \<Rightarrow> p | Some [] \<Rightarrow> raise IndexError | Some reply \<Rightarrow> s_send reply)"
proof (cases e)
  case None
  with assms(2-4) have "ptype \<le> HIGHEST_USERAUTH_MESSAGE_ID"
    by (auto simp: ensure_authed_def is_authenticated_def bind_res_def split: if_splits sum.splits prod.splits)
  moreover have "preserves (frame u b d) (note_service_accept m)"
    unfolding note_service_accept_def by (intro preserves_intro preserves_modify) (simp add: frame_def upper_def)
  ultimately show ?thesis
    using assms(1) None
    by (auto simp: transport_handler_def HIGHEST_USERAUTH_MESSAGE_ID_def split: if_splits intro!: preserves_intro)
next
  case (Some fs)
  then show ?thesis by (cases fs) (auto intro: preserves_intro)
qed

text \<open>What lets a client in, as the transport's loop hands it over: only parts of the transport that
  the authentication does not look at have changed since the packet arrived.\<close>

definition granted_by :: "config \<Rightarrow> int \<Rightarrow> message \<Rightarrow> session \<Rightarrow> bool" where
  "granted_by cfg ptype m s \<longleftrightarrow>
     (\<exists>t user. session_id t = session_id (tr s) \<and> lets_in (c_auth cfg) (c_server cfg) ptype m (t, au s) user)"

definition still_out :: "session \<Rightarrow> bool" where
  "still_out s \<longleftrightarrow> server_mode (tr s) \<and> \<not> a_authenticated (au s) \<and> no_channels s"

lemma still_out_frame: "still_out s \<Longrightarrow> frame (upper s) True False s' \<Longrightarrow> still_out s'"
proof -
  assume a: "still_out s" "frame (upper s) True False s'"
  from no_channels_frame [OF a(2)] a show ?thesis by (simp add: still_out_def frame_def base_def)
qed

lemma frame_out: "still_out s \<Longrightarrow> frame (upper s) True False s"
  by (simp add: frame_def base_def still_out_def)

lemma auth_unauthed:
  assumes "seqp (on_au p) (\<lambda>_. seqp (gets tr) (\<lambda>t. if expected_packet t \<noteq> [] then ret True else finish_turn)) s = (r, s')"
    and "auth_handler_of cfg True ptype m = Some p" and "still_out s"
  shows "still_out s' \<or> granted_by cfg ptype m s"
proof -
  obtain o' t k where p: "p (tr s, au s) = (o', (t, k))" by (metis prod.collapse)
  have h: "server_handler (c_auth cfg) (c_server cfg) ptype m = Some p" using assms(2) by (simp add: auth_handler_of_def)
  have sm: "server_mode (tr s)" and na: "\<not> a_authenticated (au s)" and nc: "no_channels s" using assms(3) by (simp_all add: still_out_def)
  note f = step_facts [OF h p sm]
  let ?s = "s\<lparr>tr := t, au := k\<rparr>"
  have a: "on_au p s = (o', ?s)" using p by (simp add: on_au_def)
  show ?thesis
  proof (cases "a_authenticated k")
    case True
    from f(4) [OF this na] have "granted_by cfg ptype m s"
      unfolding granted_by_def by (intro exI [of _ "tr s"] exI [of _ "auth_username k"]) simp
    then show ?thesis ..
  next
    case False
    have "server_mode t" using f(1) sm by (simp add: core_def)
    with False nc have out: "still_out ?s" by (simp add: still_out_def no_channels_def)
    have P: "preserves (frame (upper ?s) True False) (seqp (gets tr) (\<lambda>t. if expected_packet t \<noteq> [] then ret True else finish_turn))"
      by (intro preserves_intro)
    show ?thesis
    proof (cases o')
      case (Exn e)
      with assms(1) a have "s' = ?s" by (simp add: seqp_def [of "on_au p"])
      with out show ?thesis by simp
    next
      case Blocked
      with assms(1) a have "s' = ?s" by (simp add: seqp_def [of "on_au p"])
      with out show ?thesis by simp
    next
      case (Ret u)
      with assms(1) a have "seqp (gets tr) (\<lambda>t. if expected_packet t \<noteq> [] then ret True else finish_turn) ?s = (r, s')"
        by (simp add: seqp_def [of "on_au p"])
      from still_out_frame [OF out preservesD [OF P frame_out [OF out] this]] show ?thesis by simp
    qed
  qed
qed

lemma dispatch_unauthed:
  assumes "dispatch cfg n ptype m s = (r, s')" and "still_out s"
  shows "still_out s' \<or> granted_by cfg ptype m s"
proof -
  have sm: "server_mode (tr s)" and na: "\<not> a_authenticated (au s)" and nc: "no_channels s" using assms(2) by (simp_all add: still_out_def)
  have out: "still_out s'" if "preserves (frame (upper s) True False) p" "p s = (r, s')" for p :: "bool sprog"
    by (rule still_out_frame [OF assms(2) preservesD [OF that(1) frame_out [OF assms(2)] that(2)]])
  show ?thesis
  proof (cases "transport_handler cfg n ptype m")
    case (Some p)
    show ?thesis
    proof (cases "ensure_authed ptype m s")
      case (Inl e)
      with assms Some show ?thesis by (simp add: dispatch_def)
    next
      case (Inr e)
      have P: "preserves (frame (upper s) True False)
          (seqp (case e of None \<Rightarrow> p | Some [] \<Rightarrow> raise IndexError | Some reply \<Rightarrow> s_send reply) (\<lambda>_. finish_turn))"
        by (intro preserves_seqp transport_unauthed [OF Some sm na Inr] frame_finish)
      from assms(1) Some Inr have
        "seqp (case e of None \<Rightarrow> p | Some [] \<Rightarrow> raise IndexError | Some reply \<Rightarrow> s_send reply) (\<lambda>_. finish_turn) s = (r, s')"
        by (simp add: dispatch_def)
      from out [OF P this] show ?thesis ..
    qed
  next
    case none: None
    show ?thesis
    proof (cases "is_channel_type ptype")
      case True
      obtain cid m' where g: "get_int m = (cid, m')" by fastforce
      have "chan_get cid s = None" using nc by (simp add: chan_get_def no_channels_def)
      with assms(1) none True g have "(if cid \<in> set (seen s) then finish_turn else ret False) s = (r, s')"
        by (simp add: dispatch_def channel_message_def)
      with assms(2) out [OF frame_finish] show ?thesis by (auto split: if_splits)
    next
      case False
      show ?thesis
      proof (cases "if has_auth_handler (tr s) then auth_handler_of cfg (server_mode (tr s)) ptype m else None")
        case None
        have P: "preserves (frame (upper s) True False) (seqp (unhandled n ptype) (\<lambda>_. finish_turn))"
          unfolding unhandled_def by (intro preserves_intro)
        from assms(1) none False None have "seqp (unhandled n ptype) (\<lambda>_. finish_turn) s = (r, s')"
          by (simp add: dispatch_def split: if_splits)
        from out [OF P this] show ?thesis ..
      next
        case (Some p)
        with sm have "auth_handler_of cfg True ptype m = Some p" by (simp split: if_splits)
        moreover from assms(1) none False Some
        have "seqp (on_au p) (\<lambda>_. seqp (gets tr) (\<lambda>t. if expected_packet t \<noteq> [] then ret True else finish_turn)) s = (r, s')"
          by (simp add: dispatch_def split: if_splits)
        ultimately show ?thesis using auth_unauthed assms(2) by blast
      qed
    qed
  qed
qed

lemma turn_unauthed:
  assumes "turn cfg n ptype m s = (r, s')" and "still_out s"
  shows "still_out s' \<or> granted_by cfg ptype m s"
proof (cases "ptype \<in> {MSG_IGNORE, MSG_DISCONNECT, MSG_DEBUG}")
  case True
  with turn_uncounted [OF True assms(1)] assms(2) show ?thesis by simp
next
  case False
  then have t: "after_expected cfg n ptype m s = (r, s')" using assms(1) by (simp add: turn_def)
  let ?s = "s\<lparr>tr := (tr s)\<lparr>expected_packet := []\<rparr>\<rparr>"
  have out: "still_out ?s" using assms(2) by (simp add: still_out_def no_channels_def)
  have g: "granted_by cfg ptype m ?s = granted_by cfg ptype m s" by (simp add: granted_by_def)
  show ?thesis
  proof (cases "expected_packet (tr s) = []")
    case True
    with t have "dispatch cfg n ptype m s = (r, s')" by (simp add: after_expected_def)
    from dispatch_unauthed [OF this assms(2)] show ?thesis .
  next
    case waiting: False
    show ?thesis
    proof (cases "ptype \<in> set (expected_packet (tr s))")
      case no: False
      with t waiting assms(2) show ?thesis by (auto simp: after_expected_def)
    next
      case yes: True
      show ?thesis
      proof (cases "30 \<le> ptype \<and> ptype \<le> 41")
        case True
        with t waiting yes have k: "seqp (kex_next cfg ptype m) (\<lambda>_. ret True) ?s = (r, s')" by (simp add: after_expected_def)
        have P: "preserves (frame (upper ?s) True False) (seqp (kex_next cfg ptype m) (\<lambda>_. ret True))" by (intro preserves_intro)
        from still_out_frame [OF out preservesD [OF P frame_out [OF out] k]] show ?thesis ..
      next
        case False
        with t waiting yes have "dispatch cfg n ptype m ?s = (r, s')" by (auto simp: after_expected_def)
        from dispatch_unauthed [OF this out] g show ?thesis by simp
      qed
    qed
  qed
qed

lemma rekey_out: "rekey_turn cfg s = (r, s') \<Longrightarrow> still_out s \<Longrightarrow> still_out s' \<and> granted_by cfg ptype m s' = granted_by cfg ptype m s"
proof -
  assume r: "rekey_turn cfg s = (r, s')" and out: "still_out s"
  have f: "frame (upper s) True False s'" by (rule rekey_frame [OF r frame_out [OF out]])
  have "au s' = au s" using no_channels_frame [OF f] by simp
  with still_out_frame [OF out f] rekey_kept [OF r] show ?thesis by (simp add: granted_by_def)
qed

text \<open>Claim C24. 
  Claim. A server that has a channel, or has handed one to the application, was first sent a packet
  that let the client in: up to that packet the loop ran with nobody authenticated, and it carries a
  request or a response that the application granted.
\<close>

theorem channels_only_after_grant:
  assumes "thread_loop cfg ins s = (r, s')" and "only_packets ins" and "still_out s" and "\<not> no_channels s'"
  shows "\<exists>pre n ptype m post s0. ins = pre @ Packet n ptype m # post \<and> thread_loop cfg pre s = (Blocked, s0) \<and>
    still_out s0 \<and> granted_by cfg ptype m s0"
  using assms
proof (induction ins arbitrary: s)
  case (Cons i ins)
  have o: "only_packets ins" using Cons.prems(2) by (cases i) auto
  have here: ?case if "i = Packet n ptype m" "granted_by cfg ptype m s" for n ptype m
    by (rule exI [of _ "[]"], rule exI [of _ n], rule exI [of _ ptype], rule exI [of _ m], rule exI [of _ ins], rule exI [of _ s])
      (use that Cons.prems(3) in simp)
  have later: ?case if w: "\<And>xs. thread_loop cfg (i # xs) s = thread_loop cfg xs s1" and n: "thread_loop cfg ins s1 = (r, s')" "still_out s1" for s1
  proof -
    from Cons.IH [OF n(1) o n(2) Cons.prems(4)] obtain pre n ptype m post s0 where
      e: "ins = pre @ Packet n ptype m # post" "thread_loop cfg pre s1 = (Blocked, s0)" "still_out s0" "granted_by cfg ptype m s0" by blast
    show ?thesis
      by (rule exI [of _ "i # pre"], rule exI [of _ n], rule exI [of _ ptype], rule exI [of _ m], rule exI [of _ post], rule exI [of _ s0])
        (use e w in simp)
  qed
  have none: "still_out s' \<Longrightarrow> False" using Cons.prems(4) by (simp add: still_out_def)
  from Cons.prems(1,2) show ?case
  proof (cases rule: loop_cases)
    case dead
    with none Cons.prems(3) show ?thesis by simp
  next
    case (rekey s1)
    with later [OF rekey(5,4)] rekey_out [OF rekey(3) Cons.prems(3)] show ?thesis by blast
  next
    case (stuck x)
    with none rekey_out [OF stuck(2) Cons.prems(3)] show ?thesis by blast
  next
    case (last n ptype m s1 x)
    from rekey_out [OF last(3) Cons.prems(3)] have "still_out s1" "granted_by cfg ptype m s1 = granted_by cfg ptype m s" by blast+
    with turn_unauthed [OF last(4)] none here [OF last(1)] show ?thesis by blast
  next
    case (next_one n ptype m s1 s2)
    from rekey_out [OF next_one(3) Cons.prems(3)] have "still_out s1" "granted_by cfg ptype m s1 = granted_by cfg ptype m s" by blast+
    with turn_unauthed [OF next_one(4)] later [OF next_one(6,5)] here [OF next_one(1)] show ?thesis by blast
  qed
qed (auto simp: still_out_def)

text \<open>A server whose application accepts everybody and every session: a request and the opening of a channel.\<close>

definition open_config :: config where
  "open_config = demo_config\<lparr>c_server := demo_server\<lparr>check_channel_request := (\<lambda>_ _. OPEN_SUCCEEDED)\<rparr>\<rparr>"

definition packet_of :: "field list \<Rightarrow> message" where
  "packet_of fs = (case compose fs of Inr m \<Rightarrow> message_of (msg_asbytes m) | Inl _ \<Rightarrow> message_of [])"

definition open_packet :: message where
  "open_packet = packet_of [FText [115], FInt 4, FInt 65536, FInt 32768]"

definition demo_out :: session where
  "demo_out = new_session (demo_open\<lparr>has_auth_handler := True, clear_to_send := True\<rparr>) 2097152 32768"

definition demo_in :: session where
  "demo_in = demo_out\<lparr>au := new_auth\<lparr>a_authenticated := True\<rparr>\<rparr>"

definition demo_packets :: "incoming list" where
  "demo_packets = [Packet 5 MSG_USERAUTH_REQUEST (packet_of [FText [65], FText ssh_connection, FText m_none]),
     Packet 6 MSG_CHANNEL_OPEN open_packet]"

theorem channels_only_after_grant_witness:
  "\<exists>r s' pre n ptype m post s0. thread_loop open_config demo_packets demo_out = (r, s') \<and> map fst (chans s') = [0] \<and>
     demo_packets = pre @ Packet n ptype m # post \<and> thread_loop open_config pre demo_out = (Blocked, s0) \<and>
     still_out s0 \<and> granted_by open_config ptype m s0"
proof -
  obtain r s' where t: "thread_loop open_config demo_packets demo_out = (r, s')" by fastforce
  have c: "map fst (chans (snd (thread_loop open_config demo_packets demo_out))) = [0]" by code_simp
  then have n: "\<not> no_channels s'" using t by (auto simp: no_channels_def)
  have o: "still_out demo_out"
    by (simp add: still_out_def no_channels_def demo_out_def new_session_def demo_open_def new_auth_def)
  have "only_packets demo_packets" by (simp add: demo_packets_def)
  from channels_only_after_grant [OF t this o n] c t show ?thesis by auto
qed

end
