(* ===== verification/Session_Table.thy ===== *)
theory Session_Table
  imports Session_Props
begin

text \<open>
  The channel table of a session: what is well formed about it, that every packet keeps it so, that a
  new number is free, and that a message for a channel reaches no other one.
\<close>

section \<open>Well-formed tables\<close>

definition chan_ok :: "int list \<Rightarrow> int \<times> channel \<Rightarrow> bool" where
  "chan_ok l e \<longleftrightarrow> (case e of (cid, c) \<Rightarrow>
     chanid c = cid \<and> 0 \<le> cid \<and> cid < 2 ^ 24 \<and> cid \<in> set l \<and> linked c \<and> outbox c = [])"

definition table_ok :: "session \<Rightarrow> bool" where
  "table_ok s \<longleftrightarrow> distinct (map fst (chans s)) \<and> list_all (chan_ok (seen s)) (chans s) \<and>
     0 \<le> channel_counter s \<and> channel_counter s < 2 ^ 24"

text \<open>What the invariant looks at.\<close>

definition table :: "session \<Rightarrow> (int \<times> channel) list \<times> int list \<times> int" where
  "table s = (chans s, seen s, channel_counter s)"

lemma table_ok_cong: "table s = table s' \<Longrightarrow> table_ok s = table_ok s'"
  by (simp add: table_def table_ok_def)

lemma table_upd [simp]:
  "table (s\<lparr>tr := t\<rparr>) = table s" "table (s\<lparr>au := a\<rparr>) = table s" "table (s\<lparr>kex := k\<rparr>) = table s"
  "table (s\<lparr>global_response := g\<rparr>) = table s" "table (s\<lparr>service_accepted := b\<rparr>) = table s"
  "table (s\<lparr>custom_handled := h\<rparr>) = table s" "table (s\<lparr>server_accepts := l\<rparr>) = table s"
  "table (s\<lparr>set_events := l\<rparr>) = table s" "table (s\<lparr>channel_events := l\<rparr>) = table s"
  by (simp_all add: table_def)

lemma table_fire [simp]: "table (fire_event cid s) = table s"
  by (simp add: fire_event_def)

lemma table_modify: "(\<And>s. table (f s) = table s) \<Longrightarrow> preserves table_ok (modify f)"
  using table_ok_cong by (metis preserves_modify)

lemma map_of_ok: "table_ok s \<Longrightarrow> chan_get cid s = Some c \<Longrightarrow> chan_ok (seen s) (cid, c)"
  by (auto simp: table_ok_def chan_get_def list_all_iff dest: map_of_SomeD)

lemma get_put [simp]: "chan_get k (chan_put cid c s) = (if k = cid then Some c else chan_get k s)"
  by (simp add: chan_get_def chan_put_def update_conv)

lemma get_delete [simp]: "chan_get k (chan_delete cid s) = (if k = cid then None else chan_get k s)"
  by (simp add: chan_get_def chan_delete_def delete_conv)

lemma list_all_update: "list_all P al \<Longrightarrow> P (k, v) \<Longrightarrow> list_all P (AList.update k v al)"
  by (induction al) (auto split: prod.splits)

lemma ok_put:
  assumes "table_ok s" and "chan_ok (seen s) (cid, c)"
  shows "table_ok (chan_put cid c s)"
proof -
  have "distinct (map fst (AList.update cid c (chans s)))" using assms(1) by (simp add: table_ok_def distinct_update)
  moreover have "list_all (chan_ok (seen s)) (AList.update cid c (chans s))"
    using assms by (intro list_all_update) (simp_all add: table_ok_def)
  ultimately show ?thesis using assms(1) by (simp add: table_ok_def chan_put_def)
qed

lemma in_delete: "(k, c) \<in> set (AList.delete cid al) \<Longrightarrow> (k, c) \<in> set al"
  by (induction al) (auto split: if_splits)

lemma ok_delete: "table_ok s \<Longrightarrow> table_ok (chan_delete cid s)"
  by (auto simp: table_ok_def chan_delete_def list_all_iff distinct_delete dest: in_delete)

lemma ok_seen: "table_ok s \<Longrightarrow> table_ok (s\<lparr>seen := cid # seen s\<rparr>)"
  by (auto simp: table_ok_def chan_ok_def list_all_iff)

section \<open>The methods of a channel keep its number\<close>

definition numbered :: "int \<Rightarrow> channel \<Rightarrow> bool" where
  "numbered n c \<longleftrightarrow> chanid c = n"

lemma numbered_send [preserves_intro]: "preserves (numbered n) (send_user_message fs)"
  unfolding send_user_message_def by (intro preserves_intro preserves_modify) (simp add: numbered_def)

lemma numbered_sends [preserves_intro]: "preserves (numbered n) (send_msgs l)"
proof (induction l rule: send_msgs.induct)
  case 1
  show ?case unfolding send_msgs.simps by (intro preserves_intro)
next
  case (2 ms)
  then show ?case unfolding send_msgs.simps .
next
  case (3 m ms)
  then show ?case unfolding send_msgs.simps by (intro preserves_intro)
qed

lemma numbered_build [preserves_intro]: "preserves (numbered n) (build fs)"
  unfolding build_def by (intro preserves_intro)

lemma numbered_buffer [preserves_intro]: "preserves (numbered n) (on_buffer std f)"
proof -
  have p: "preserves (numbered n) (pipe_calls std cs)" for cs
    by (auto simp: preserves_def pipe_calls_def numbered_def split: option.split sum.split)
  show ?thesis
    unfolding on_buffer_def
    by (intro preserves_intro preserves_modify p) (simp add: numbered_def set_buffer_def)
qed

lemma numbered_closed [preserves_intro]: "preserves (numbered n) set_closed"
  unfolding set_closed_def close_buffer_def pipe_forever_def
  by (intro preserves_intro preserves_modify) (auto simp: numbered_def)

lemma numbered_close_internal [preserves_intro]: "preserves (numbered n) close_internal"
  unfolding close_internal_def send_eof_def Let_def
  by (intro preserves_intro preserves_modify) (auto simp: numbered_def)

lemma numbered_feed [preserves_intro]: "preserves (numbered n) (feed_buffer std d)"
  unfolding feed_buffer_def by (intro preserves_intro)

lemma numbered_decide [preserves_intro]: "preserves (numbered n) (decide server r)"
  unfolding decide_def by (intro preserves_intro)

lemma numbered_key [preserves_intro]: "preserves (numbered n) (handle_key server key m)"
  unfolding handle_key_def by (intro preserves_intro preserves_modify) (simp add: numbered_def)

lemma numbered_request [preserves_intro]: "preserves (numbered n) (handle_request server m)"
  unfolding handle_request_def Let_def by (intro preserves_intro)

lemma numbered_closing [preserves_intro]: "preserves (numbered n) handle_eof" "preserves (numbered n) handle_close"
  unfolding handle_eof_def handle_close_def close_buffer_def pipe_forever_def
  by (intro preserves_intro preserves_modify; simp add: numbered_def)+

lemma numbered_handlers [preserves_intro]:
  "preserves (numbered n) request_success" "preserves (numbered n) request_failed" "preserves (numbered n) (ch_feed m)"
  "preserves (numbered n) (feed_extended m)" "preserves (numbered n) (window_adjust m)"
  "preserves (numbered n) (set_remote_channel cid w p)"
  unfolding request_success_def request_failed_def ch_feed_def feed_extended_def window_adjust_def set_remote_channel_def Let_def
  by (intro preserves_intro preserves_modify; simp add: numbered_def)+

lemma numbered_handler: "channel_handler cfg server cid ptype m = Some p \<Longrightarrow> preserves (numbered n) p"
  by (auto simp: channel_handler_def split: if_splits intro!: preserves_intro)

section \<open>Every step keeps the table\<close>

lemma ok_on_tr [preserves_intro]: "preserves table_ok (on_tr p)"
proof (rule preservesI)
  fix s r s'
  assume "table_ok s" and "on_tr p s = (r, s')"
  then have "table s' = table s" by (auto simp: on_tr_def split: prod.splits)
  with \<open>table_ok s\<close> show "table_ok s'" using table_ok_cong [of s' s] by simp
qed

lemma ok_on_au [preserves_intro]: "preserves table_ok (on_au p)"
proof (rule preservesI)
  fix s r s'
  assume "table_ok s" and "on_au p s = (r, s')"
  then have "table s' = table s" by (auto simp: on_au_def split: prod.splits)
  with \<open>table_ok s\<close> show "table_ok s'" using table_ok_cong [of s' s] by simp
qed

lemma ok_send [preserves_intro]: "preserves table_ok (s_send fs)"
  unfolding s_send_def by (intro preserves_intro)

lemma ok_thread_send [preserves_intro]: "preserves table_ok (thread_send fs)"
  unfolding thread_send_def by (intro preserves_intro)

lemma ok_thread_sends [preserves_intro]: "preserves table_ok (thread_sends l)"
proof (induction l)
  case Nil
  show ?case unfolding thread_sends.simps by (intro preserves_intro)
next
  case (Cons fs l)
  then show ?case unfolding thread_sends.simps by (intro preserves_intro)
qed

text \<open>A channel that is in the table, after one of its methods.\<close>

lemma ok_on_chan:
  assumes "table_ok s" and "chan_get cid s = Some c" and "preserves (numbered cid) p" and "on_chan cid c p s = (r, s')"
  shows "table_ok s'"
proof -
  obtain o' c' where p: "p c = (o', c')" by fastforce
  have c: "chan_ok (seen s) (cid, c)" by (rule map_of_ok [OF assms(1,2)])
  have n: "chanid c' = cid"
    using preservesD [OF assms(3) _ p] c by (simp add: numbered_def chan_ok_def)
  have "table_ok (store_chan cid c' s)"
    using assms(1) c n by (auto simp: store_chan_def chan_ok_def intro: ok_put ok_delete)
  moreover have "preserves table_ok (seqp (thread_sends (outbox c')) (\<lambda>_. \<lambda>s. (o', s)))" by (intro preserves_intro)
  ultimately show ?thesis
    using assms(4) preservesD by (fastforce simp: on_chan_def p)
qed

lemma counter_mask: "(n AND 0xFFFFFF :: int) = n mod 2 ^ 24"
  using take_bit_eq_mask [of 24 n] by (simp add: take_bit_eq_mod mask_eq_exp_minus_1)

lemma free_range: "free_channel k n s = Some i \<Longrightarrow> 0 \<le> n \<Longrightarrow> n < 2 ^ 24 \<Longrightarrow> 0 \<le> i \<and> i < 2 ^ 24"
proof (induction k n s rule: free_channel.induct)
  case (2 fuel n s)
  then show ?case by (auto simp: counter_mask split: if_splits)
qed simp

definition fits :: "int \<Rightarrow> bool" where
  "fits cid \<longleftrightarrow> 0 \<le> cid \<and> cid < 2 ^ 24"

lemma ok_next_channel [preserves_intro]: "preserves table_ok next_channel"
  by (auto simp: preserves_def next_channel_def table_ok_def counter_mask split: option.split)

lemma next_channel_fits: "next_channel s = (Ret n, s') \<Longrightarrow> table_ok s \<Longrightarrow> fits n"
  using free_range [of "Suc (length (chans s))" "channel_counter s" s n]
  by (auto simp: next_channel_def table_ok_def fits_def simp del: free_channel.simps split: option.splits)

lemma preserves_with:
  assumes "preserves P p" and "\<And>s x s'. P s \<Longrightarrow> p s = (Ret x, s') \<Longrightarrow> R x" and "\<And>x. R x \<Longrightarrow> preserves P (f x)"
  shows "preserves P (seqp p f)"
proof (rule preservesI)
  fix s r s'
  assume P: "P s" and q: "seqp p f s = (r, s')"
  obtain o' s1 where p: "p s = (o', s1)" by fastforce
  have P1: "P s1" by (rule preservesD [OF assms(1) P p])
  show "P s'"
  proof (cases o')
    case (Ret x)
    with p q have "f x s1 = (r, s')" by (simp add: seqp_def)
    from preservesD [OF assms(3) P1 this] assms(2) [OF P] p Ret show ?thesis by simp
  qed (use p q P1 in \<open>simp_all add: seqp_def\<close>)
qed

lemma ok_open_decision [preserves_intro]: "preserves table_ok (open_decision cfg kind m)"
  unfolding open_decision_def by (intro preserves_intro)

lemma decision_fits: "open_decision cfg kind m s = (Ret (Inr (k, cid)), s') \<Longrightarrow> table_ok s \<Longrightarrow> fits cid"
  by (auto simp: open_decision_def seqp_Ret next_channel_fits liftr_Ret split: if_splits)

lemma accepted_channel_ok: "chanid (accepted_channel cid r w p s) = cid" "linked (accepted_channel cid r w p s)" "outbox (accepted_channel cid r w p s) = []"
  by (simp_all add: accepted_channel_def new_channel_def set_transport_def set_window_def set_remote_channel_def)

text \<open>A channel enters the table together with its number.\<close>

lemma ok_enter:
  assumes "table_ok s" and "fits cid"
  shows "table_ok ((chan_put cid (accepted_channel cid r w p s) s)\<lparr>seen := cid # seen s\<rparr>)"
proof -
  have "chan_ok (seen (s\<lparr>seen := cid # seen s\<rparr>)) (cid, accepted_channel cid r w p s)"
    using assms(2) by (simp add: chan_ok_def fits_def accepted_channel_ok)
  from ok_put [OF ok_seen [OF assms(1)] this]
  have "table_ok (chan_put cid (accepted_channel cid r w p s) (s\<lparr>seen := cid # seen s\<rparr>))" .
  moreover have "table (chan_put cid c (s\<lparr>seen := l\<rparr>)) = table ((chan_put cid c s)\<lparr>seen := l\<rparr>)" for c l
    by (simp add: table_def chan_put_def)
  ultimately show ?thesis using table_ok_cong by blast
qed

lemma ok_hand_over [preserves_intro]: "preserves table_ok (hand_over cfg kind cid)"
  unfolding hand_over_def Let_def by (intro preserves_intro table_modify) simp_all

definition decided :: "int + open_kind \<times> int \<Rightarrow> bool" where
  "decided d \<longleftrightarrow> (case d of Inl _ \<Rightarrow> True | Inr (k, cid) \<Rightarrow> fits cid)"

lemma decision_decided: "table_ok s \<Longrightarrow> open_decision cfg kind m s = (Ret d, s') \<Longrightarrow> decided d"
  using decision_fits by (auto simp: decided_def split: sum.split)

lemma ok_enter_step: "fits cid \<Longrightarrow>
    preserves table_ok (modify (\<lambda>s. (chan_put cid (accepted_channel cid r w p s) s)\<lparr>seen := cid # seen s\<rparr>))"
  by (intro preserves_modify ok_enter)

lemma ok_channel_open [preserves_intro]: "preserves table_ok (parse_channel_open cfg m)"
  unfolding parse_channel_open_def Let_def
  apply (rule preserves_seqp [OF preserves_liftr], intro preserves_case_prod)
  subgoal
    by (rule preserves_with [OF ok_open_decision decision_decided])
      (auto simp: decided_def split: sum.split intro!: preserves_seqp preserves_gets ok_send ok_hand_over ok_enter_step)
  done

lemma ok_globals [preserves_intro]:
  "preserves table_ok (parse_global_request cfg m)" "preserves table_ok (parse_request_success m)"
  "preserves table_ok (parse_request_failure m)" "preserves table_ok (note_service_accept m)"
  unfolding parse_global_request_def parse_request_success_def parse_request_failure_def note_service_accept_def Let_def
  by (intro preserves_intro table_modify; simp)+

lemma ok_open_failure [preserves_intro]: "preserves table_ok (parse_channel_open_failure m)"
proof -
  have "table_ok (fire_event cid (chan_delete cid s))" if "table_ok s" for cid s
    using that ok_delete table_ok_cong [of "fire_event cid (chan_delete cid s)" "chan_delete cid s"] by simp
  moreover have "table_ok (s\<lparr>au := a\<rparr>) = table_ok s" for s a by (rule table_ok_cong) simp
  ultimately show ?thesis
    unfolding parse_channel_open_failure_def Let_def
    by (intro preserves_intro preserves_modify) simp_all
qed

lemma ok_with_chan:
  assumes "table_ok s" and "chan_get cid s = Some c" and "preserves (numbered cid) p"
    and "seqp (on_chan cid c p) f s = (r, s')" and "\<And>x. preserves table_ok (f x)"
  shows "table_ok s'"
proof -
  obtain o' s1 where q: "on_chan cid c p s = (o', s1)" by fastforce
  have ok: "table_ok s1" by (rule ok_on_chan [OF assms(1-3) q])
  show ?thesis
  proof (cases o')
    case (Ret x)
    with q assms(4) have "f x s1 = (r, s')" by (simp add: seqp_def)
    from preservesD [OF assms(5) ok this] show ?thesis .
  qed (use q assms(4) ok in \<open>simp_all add: seqp_def\<close>)
qed

lemma ok_open_success [preserves_intro]: "preserves table_ok (parse_channel_open_success m)"
proof (rule preservesI)
  fix s r s'
  assume t: "table_ok s" and q: "parse_channel_open_success m s = (r, s')"
  obtain cid m1 where g1: "get_int m = (cid, m1)" by fastforce
  obtain rid m2 where g2: "get_int m1 = (rid, m2)" by fastforce
  obtain w m3 where g3: "get_int m2 = (w, m3)" by fastforce
  obtain p m4 where g4: "get_int m3 = (p, m4)" by fastforce
  note q = q [unfolded parse_channel_open_success_def g1 g2 g3 g4 Let_def prod.case]
  show "table_ok s'"
  proof (cases "chan_get cid s")
    case None
    with q t show ?thesis by simp
  next
    case (Some c)
    with q have "seqp (on_chan cid c (set_remote_channel rid w p)) (\<lambda>_. modify (fire_event cid)) s = (r, s')" by simp
    from ok_with_chan [OF t Some numbered_handlers(6) this table_modify] show ?thesis by simp
  qed
qed

lemma ok_kex [preserves_intro]:
  "preserves table_ok (negotiate_keys cfg n m)" "preserves table_ok (rekey_turn cfg)" "preserves table_ok finish_turn"
proof -
  have "table s' = table s" if "start_method cfg k s = (r, s')" for k s r s'
    using that by (cases k) (auto simp: start_method_def split: prod.splits)
  then have "preserves table_ok (start_method cfg k)" for k
    by (intro preservesI) (metis table_ok_cong)
  then have "preserves table_ok (start_kex cfg)" unfolding start_kex_def by (intro preserves_intro)
  then show "preserves table_ok (negotiate_keys cfg n m)" unfolding negotiate_keys_def by (intro preserves_intro)
  show "preserves table_ok (rekey_turn cfg)" unfolding rekey_turn_def by (intro preserves_intro)
  show "preserves table_ok finish_turn" unfolding finish_turn_def by (intro preserves_intro)
qed

lemma ok_kex_next [preserves_intro]: "preserves table_ok (kex_next cfg ptype m)"
proof -
  have "table s' = table s" if "next_method cfg ptype m k s = (r, s')" for k s r s'
    using that by (cases k) (auto simp: next_method_def split: prod.splits)
  then have "preserves table_ok (next_method cfg ptype m k)" for k
    by (intro preservesI) (metis table_ok_cong)
  then show ?thesis by (auto simp: preserves_def kex_next_def)
qed

lemma ok_transport_handler: "transport_handler cfg n ptype m = Some p \<Longrightarrow> preserves table_ok p"
  by (auto simp: transport_handler_def split: if_splits intro!: preserves_intro)

lemma ok_channel_message [preserves_intro]: "preserves table_ok (channel_message cfg ptype m)"
proof (rule preservesI)
  fix s r s'
  assume t: "table_ok s" and q: "channel_message cfg ptype m s = (r, s')"
  obtain cid m1 where g: "get_int m = (cid, m1)" by fastforce
  note q = q [unfolded channel_message_def g Let_def prod.case seqp_gets id_apply]
  have f: "table_ok s'" if "finish_turn s = (r, s')" using preservesD [OF ok_kex(3) t that] .
  show "table_ok s'"
  proof (cases "chan_get cid s")
    case None
    with q t f show ?thesis by (auto split: if_splits)
  next
    case (Some c)
    show ?thesis
    proof (cases "channel_handler cfg (server_mode (tr s)) cid ptype m1")
      case None
      with q Some t show ?thesis by simp
    next
      case h: (Some p)
      with q Some have "seqp (on_chan cid c p) (\<lambda>_. finish_turn) s = (r, s')" by simp
      from ok_with_chan [OF t Some numbered_handler [OF h] this ok_kex(3)] show ?thesis .
    qed
  qed
qed

lemma ok_dispatch [preserves_intro]: "preserves table_ok (dispatch cfg n ptype m)"
proof -
  have t: "preserves table_ok (case e of None \<Rightarrow> p | Some [] \<Rightarrow> raise IndexError | Some reply \<Rightarrow> s_send reply)"
    if "transport_handler cfg n ptype m = Some p" for p e
    using ok_transport_handler [OF that] by (auto split: option.split list.split intro: preserves_intro)
  have u: "preserves table_ok (unhandled n ptype)" unfolding unhandled_def by (intro preserves_intro)
  show ?thesis
    unfolding dispatch_def
    by (intro preserves_seqp preserves_gets)
      (auto split: option.split intro!: preserves_intro t u)
qed

text \<open>Claim C25. 
  Claim. Every packet keeps the table well formed: numbers are unique, below 2 to the 24, known as seen,
  every channel carries its own number, is linked and has no message left to send.
\<close>

theorem turn_keeps_table:
  assumes "table_ok s"
  shows "table_ok (snd (turn cfg n ptype m s))"
proof -
  have "preserves table_ok (turn cfg n ptype m)"
    unfolding turn_def after_expected_def enforce_strict_kex_def parse_disconnect_def parse_debug_def Let_def
    by (intro preserves_intro)
  with assms show ?thesis by (simp add: preserves_def)
qed

theorem turn_keeps_table_witness:
  "table_ok (snd (turn open_config 6 MSG_CHANNEL_OPEN open_packet demo_in)) \<and>
   map fst (chans (snd (turn open_config 6 MSG_CHANNEL_OPEN open_packet demo_in))) = [0]"
proof -
  have ok: "table_ok demo_in" by (simp add: table_ok_def demo_in_def demo_out_def new_session_def)
  have "map fst (chans (snd (turn open_config 6 MSG_CHANNEL_OPEN open_packet demo_in))) = [0]" by code_simp
  with turn_keeps_table [OF ok] show ?thesis by blast
qed

section \<open>New numbers\<close>

text \<open>The numbers the search passes over are all taken, and different as long as it does not come round.\<close>

lemma passed_over:
  assumes "free_channel k n s = None" and "0 \<le> n" and "n < 2 ^ 24" and "k \<le> 2 ^ 24"
  shows "\<forall>i<k. chan_get ((n + int i) mod 2 ^ 24) s \<noteq> None"
  using assms
proof (induction k n s rule: free_channel.induct)
  case (2 fuel n s)
  from 2(2) have n: "chan_get n s \<noteq> None" and f: "free_channel fuel ((n + 1) mod 2 ^ 24) s = None"
    by (auto simp: counter_mask split: if_splits)
  have IH: "\<forall>i<fuel. chan_get (((n + 1) mod 2 ^ 24 + int i) mod 2 ^ 24) s \<noteq> None"
    using 2(1) n f 2(5) by (simp add: counter_mask)
  show ?case
  proof (intro allI impI)
    fix i
    assume i: "i < Suc fuel"
    show "chan_get ((n + int i) mod 2 ^ 24) s \<noteq> None"
    proof (cases i)
      case 0
      with n 2(3,4) show ?thesis by simp
    next
      case (Suc j)
      with i IH have "chan_get (((n + 1) mod 2 ^ 24 + int j) mod 2 ^ 24) s \<noteq> None" by simp
      moreover have "((n + 1) mod 2 ^ 24 + int j) mod 2 ^ 24 = (n + int i) mod 2 ^ 24"
        unfolding Suc by (simp only: mod_add_left_eq) (simp add: algebra_simps)
      ultimately show ?thesis by simp
    qed
  qed
qed simp

lemma free_found:
  assumes "table_ok s" and "length (chans s) < 2 ^ 24"
  shows "\<exists>i. free_channel (Suc (length (chans s))) (channel_counter s) s = Some i"
proof (rule ccontr)
  let ?k = "Suc (length (chans s))" and ?n = "channel_counter s"
  let ?f = "\<lambda>i. (?n + int i) mod 2 ^ 24"
  assume "\<nexists>i. free_channel ?k ?n s = Some i"
  then have "free_channel ?k ?n s = None" by (metis not_None_eq)
  then have taken: "\<forall>i<?k. chan_get (?f i) s \<noteq> None"
    by (rule passed_over) (use assms in \<open>simp_all add: table_ok_def\<close>)
  have "inj_on ?f {..<?k}"
  proof (rule inj_onI)
    fix i j
    assume "i \<in> {..<?k}" "j \<in> {..<?k}" and e: "?f i = ?f j"
    then have "i < 2 ^ 24" "j < 2 ^ 24" using assms(2) by auto
    from e have "int i mod 2 ^ 24 = int j mod 2 ^ 24" by (metis add.commute mod_add_cong add_diff_cancel_right' mod_diff_cong)
    with \<open>i < 2 ^ 24\<close> \<open>j < 2 ^ 24\<close> show "i = j" by simp
  qed
  then have "card (?f ` {..<?k}) = ?k" by (simp add: card_image)
  moreover have "?f ` {..<?k} \<subseteq> fst ` set (chans s)"
    using taken by (auto simp: chan_get_def map_of_eq_None_iff)
  then have "card (?f ` {..<?k}) \<le> length (chans s)"
    by (metis card_mono card_length finite_imageI finite_set length_map set_map order_trans)
  ultimately show False by simp
qed

lemma free_is_free: "free_channel k n s = Some i \<Longrightarrow> chan_get i s = None"
  by (induction k n s rule: free_channel.induct) (auto split: if_splits)

text \<open>Claim C26. 
  Claim. As long as fewer than 2 to the 24 channels are open, a number is found for a new one, it is not
  in use, and the table stays well formed.
\<close>

theorem next_channel_fresh:
  assumes "table_ok s" and "length (chans s) < 2 ^ 24"
  shows "\<exists>n s'. next_channel s = (Ret n, s') \<and> chan_get n s = None \<and> 0 \<le> n \<and> n < 2 ^ 24 \<and> chans s' = chans s \<and> table_ok s'"
proof -
  from free_found [OF assms] obtain n where f: "free_channel (Suc (length (chans s))) (channel_counter s) s = Some n" by blast
  let ?s = "s\<lparr>channel_counter := (n + 1) AND 0xFFFFFF\<rparr>"
  have e: "next_channel s = (Ret n, ?s)" using f by (simp add: next_channel_def del: free_channel.simps)
  have "table_ok ?s" using preservesD [OF ok_next_channel assms(1) e] .
  with e free_is_free [OF f] next_channel_fits [OF e assms(1)] show ?thesis by (auto simp: fits_def)
qed

theorem next_channel_fresh_witness:
  "\<exists>n s'. next_channel demo_in = (Ret n, s') \<and> chan_get n demo_in = None \<and> 0 \<le> n \<and> n < 2 ^ 24"
proof -
  have ok: "table_ok demo_in" "length (chans demo_in) < 2 ^ 24" by (simp_all add: table_ok_def demo_in_def demo_out_def new_session_def)
  from next_channel_fresh [OF ok] show ?thesis by blast
qed

section \<open>Messages for one channel\<close>

lemma get_s_send: "on_tr p s = (r, s') \<Longrightarrow> chan_get k s' = chan_get k s"
  by (auto simp: on_tr_def chan_get_def split: prod.splits)

definition others :: "int \<Rightarrow> (int \<Rightarrow> channel option) \<Rightarrow> session \<Rightarrow> bool" where
  "others cid f s \<longleftrightarrow> (\<forall>k. k \<noteq> cid \<longrightarrow> chan_get k s = f k)"

lemma others_on_tr [preserves_intro]: "preserves (others cid f) (on_tr p)"
  by (auto simp: preserves_def on_tr_def others_def chan_get_def split: prod.split)

lemma others_sends [preserves_intro]: "preserves (others cid f) (thread_sends l)"
proof (induction l)
  case Nil
  show ?case unfolding thread_sends.simps by (intro preserves_intro)
next
  case (Cons fs l)
  then show ?case unfolding thread_sends.simps thread_send_def s_send_def by (intro preserves_intro)
qed

lemma others_on_chan [preserves_intro]: "preserves (others cid f) (on_chan cid c p)"
proof -
  obtain r c' where p: "p c = (r, c')" by fastforce
  show ?thesis
    unfolding on_chan_def p prod.case
    by (intro preserves_intro preserves_modify) (simp add: others_def store_chan_def)
qed

lemma others_message: "preserves (others (fst (get_int m)) f) (channel_message cfg ptype m)"
proof -
  obtain cid m1 where g: "get_int m = (cid, m1)" by fastforce
  show ?thesis
    unfolding channel_message_def finish_turn_def g Let_def prod.case fst_conv by (intro preserves_intro)
qed

text \<open>Claim C27. 
  Claim. A message for a channel changes that channel at most; one for a number never used ends the
  connection, and one for a channel that is gone is passed over.
\<close>

theorem channel_message_isolated:
  assumes "is_channel_type ptype" and "expected_packet (tr s) = []" and "turn cfg n ptype m s = (r, s')" and "get_int m = (cid, m')"
  shows "(\<forall>k. k \<noteq> cid \<longrightarrow> chan_get k s' = chan_get k s) \<and>
    (chan_get cid s = None \<longrightarrow> chans s' = chans s \<and> (r = Ret True \<longleftrightarrow> cid \<in> set (seen s)))"
proof -
  have d: "turn cfg n ptype m s = channel_message cfg ptype m s"
  proof -
    have "ptype \<in> {93, 94, 95, 96, 97, 98, 99, 100}" using assms(1) by (auto simp: is_channel_type_def)
    then have "transport_handler cfg n ptype m = None" by (auto simp: transport_handler_def)
    moreover from \<open>ptype \<in> {93, 94, 95, 96, 97, 98, 99, 100}\<close> have "ptype \<noteq> MSG_IGNORE \<and> ptype \<noteq> MSG_DISCONNECT \<and> ptype \<noteq> MSG_DEBUG" by auto
    ultimately show ?thesis using assms(1,2) by (simp add: turn_def after_expected_def dispatch_def)
  qed
  have "others cid (\<lambda>k. chan_get k s) s" by (simp add: others_def)
  then have "others cid (\<lambda>k. chan_get k s) s'"
    using preservesD [OF others_message] assms(3,4) d by (metis fst_conv)
  moreover have "chans s' = chans s \<and> (r = Ret True \<longleftrightarrow> cid \<in> set (seen s))" if "chan_get cid s = None"
    using assms(3,4) d that by (auto simp: channel_message_def finish_turn_eq split: if_splits)
  ultimately show ?thesis by (simp add: others_def)
qed

text \<open>A session with the channels 0 and 1, and a packet that ends the first.\<close>

definition two_channels :: session where
  "two_channels = snd (thread_loop open_config [Packet 6 MSG_CHANNEL_OPEN open_packet, Packet 7 MSG_CHANNEL_OPEN open_packet] demo_in)"

definition close_packet :: message where
  "close_packet = packet_of [FInt 0]"

theorem channel_message_isolated_witness:
  "map_option ch_closed (chan_get 1 (snd (turn open_config 8 MSG_CHANNEL_CLOSE close_packet two_channels))) = Some False \<and>
   chan_get 0 (snd (turn open_config 8 MSG_CHANNEL_CLOSE close_packet two_channels)) = None"
proof -
  let ?t = "turn open_config 8 MSG_CHANNEL_CLOSE close_packet two_channels"
  obtain r s' where t: "?t = (r, s')" by fastforce
  have e: "expected_packet (tr two_channels) = []" by code_simp
  have g: "fst (get_int close_packet) = 0" by code_simp
  then obtain m' where g: "get_int close_packet = (0, m')" by (metis prod.collapse)
  have c: "is_channel_type MSG_CHANNEL_CLOSE" by (simp add: is_channel_type_def)
  have "map_option ch_closed (chan_get 1 two_channels) = Some False" by code_simp
  moreover have "chan_get 0 (snd ?t) = None" by code_simp
  ultimately show ?thesis using channel_message_isolated [OF c e t g] t by simp
qed

end
