(* ===== verification/Base64.thy ===== *)
theory Base64
  imports SSH_Message
begin

text \<open>
  What the key files use of \<open>base64\<close> and \<open>binascii\<close>: \<open>encodebytes\<close>, which breaks its lines, and the
  lenient \<open>decodebytes\<close>, which passes over every character outside of the alphabet.
\<close>

section \<open>Encoding\<close>

definition b64_char :: "nat \<Rightarrow> byte" where
  "b64_char v =
     (if v < 26 then of_nat (65 + v) else if v < 52 then of_nat (71 + v)
      else if v < 62 then of_nat (v - 4) else if v = 62 then 43 else 47)"

definition pad_char :: byte where "pad_char = 61"

fun b64_encode :: "bytes \<Rightarrow> bytes" where
  "b64_encode [] = []"
| "b64_encode [a] = [b64_char (unat a div 4), b64_char (unat a mod 4 * 16), pad_char, pad_char]"
| "b64_encode [a, b] =
     [b64_char (unat a div 4), b64_char (unat a mod 4 * 16 + unat b div 16), b64_char (unat b mod 16 * 4), pad_char]"
| "b64_encode (a # b # c # r) =
     [b64_char (unat a div 4), b64_char (unat a mod 4 * 16 + unat b div 16),
      b64_char (unat b mod 16 * 4 + unat c div 64), b64_char (unat c mod 64)] @ b64_encode r"

text \<open>\<open>encodebytes\<close>: lines of 57 bytes each, every one ended by a line feed.\<close>

definition encodebytes :: "bytes \<Rightarrow> bytes" where
  "encodebytes b = concat (map (\<lambda>l. b64_encode l @ [10]) (chunks 57 b))"

section \<open>Decoding\<close>

definition b64_val :: "byte \<Rightarrow> nat option" where
  "b64_val c =
     (let n = unat c
      in if 65 \<le> n \<and> n \<le> 90 then Some (n - 65) else if 97 \<le> n \<and> n \<le> 122 then Some (n - 71)
         else if 48 \<le> n \<and> n \<le> 57 then Some (n + 4) else if n = 43 then Some 62 else if n = 47 then Some 63 else None)"

text \<open>
  \<open>binascii.a2b_base64\<close>: \<open>q\<close> is the position in a group of four characters, \<open>left\<close> the bits not yet
  used. Enough pad characters end the input, whatever comes after.
\<close>

fun a2b :: "nat \<Rightarrow> nat \<Rightarrow> nat \<Rightarrow> bytes \<Rightarrow> bytes \<Rightarrow> bytes res" where
  "a2b q left pads out [] = (if q = 0 then Inr out else Inl BinasciiError)"
| "a2b q left pads out (c # cs) =
     (if c = pad_char then
        (if 2 \<le> q \<and> 4 \<le> q + (pads + 1) then Inr out else a2b q left (if 2 \<le> q then pads + 1 else pads) out cs)
      else
        (case b64_val c of
           None \<Rightarrow> a2b q left pads out cs
         | Some v \<Rightarrow>
             (if q = 0 then a2b 1 v 0 out cs
              else if q = 1 then a2b 2 (v mod 16) 0 (out @ [of_nat (left * 4 + v div 16)]) cs
              else if q = 2 then a2b 3 (v mod 4) 0 (out @ [of_nat (left * 16 + v div 4)]) cs
              else a2b 0 0 0 (out @ [of_nat (left * 64 + v)]) cs)))"

definition decodebytes :: "bytes \<Rightarrow> bytes res" where
  "decodebytes b = a2b 0 0 0 [] b"

section \<open>The round trip\<close>

lemma b64_val_char [simp]: "v < 64 \<Longrightarrow> b64_val (b64_char v) = Some v"
proof -
  have "\<forall>v\<in>set [0..<64]. b64_val (b64_char v) = Some v" by code_simp
  then show "v < 64 \<Longrightarrow> ?thesis" by simp
qed

lemma b64_char_range: "v < 64 \<Longrightarrow> unat (b64_char v) < 128 \<and> b64_char v \<noteq> pad_char \<and> b64_char v \<noteq> 10 \<and> b64_char v \<noteq> 32 \<and> b64_char v \<noteq> 9"
proof -
  have "\<forall>v\<in>set [0..<64]. unat (b64_char v) < 128 \<and> b64_char v \<noteq> pad_char \<and> b64_char v \<noteq> 10 \<and> b64_char v \<noteq> 32 \<and> b64_char v \<noteq> 9"
    by code_simp
  then show "v < 64 \<Longrightarrow> ?thesis" by simp
qed

lemma a2b_digit:
  assumes "v < 64"
  shows "a2b 0 l p out (b64_char v # cs) = a2b 1 v 0 out cs"
    "a2b 1 l p out (b64_char v # cs) = a2b 2 (v mod 16) 0 (out @ [of_nat (l * 4 + v div 16)]) cs"
    "a2b 2 l p out (b64_char v # cs) = a2b 3 (v mod 4) 0 (out @ [of_nat (l * 16 + v div 4)]) cs"
    "a2b 3 l p out (b64_char v # cs) = a2b 0 0 0 (out @ [of_nat (l * 64 + v)]) cs"
  using assms b64_char_range [OF assms] by simp_all

lemma unat_byte: "unat (a :: byte) < 256"
  using unsigned_less [of a] by simp

lemma byte_parts:
  fixes a b c :: byte
  shows "unat a div 4 < 64" "unat a mod 4 * 16 < 64" "unat a mod 4 * 16 + unat b div 16 < 64"
    "unat b mod 16 * 4 < 64" "unat b mod 16 * 4 + unat c div 64 < 64" "unat c mod 64 < 64"
proof -
  have u: "unat a < 256" "unat b < 256" "unat c < 256" by (rule unat_byte)+
  then have "unat a div 4 < 64" "unat b div 16 < 16" "unat c div 64 < 4" by simp_all
  moreover have "unat a mod 4 < 4" "unat b mod 16 < 16" "unat c mod 64 < 64" by simp_all
  ultimately show "unat a div 4 < 64" "unat a mod 4 * 16 < 64" "unat a mod 4 * 16 + unat b div 16 < 64"
    "unat b mod 16 * 4 < 64" "unat b mod 16 * 4 + unat c div 64 < 64" "unat c mod 64 < 64" by linarith+
qed

lemma byte_joins:
  fixes a b c :: byte
  shows "of_nat (unat a div 4 * 4 + (unat a mod 4 * 16 + unat b div 16) div 16) = a"
    "of_nat (unat a div 4 * 4 + (unat a mod 4 * 16) div 16) = a"
    "of_nat ((unat a mod 4 * 16 + unat b div 16) mod 16 * 16 + (unat b mod 16 * 4 + unat c div 64) div 4) = b"
    "of_nat ((unat a mod 4 * 16 + unat b div 16) mod 16 * 16 + (unat b mod 16 * 4) div 4) = b"
    "of_nat ((unat b mod 16 * 4 + unat c div 64) mod 4 * 64 + unat c mod 64) = c"
proof -
  have u: "unat b div 16 < 16" "unat c div 64 < 4" using unat_byte [of b] unat_byte [of c] by simp_all
  have "(unat a mod 4 * 16 + unat b div 16) div 16 = unat a mod 4" using u by simp
  then show "of_nat (unat a div 4 * 4 + (unat a mod 4 * 16 + unat b div 16) div 16) = a" by (simp add: div_mult_mod_eq)
  show "of_nat (unat a div 4 * 4 + (unat a mod 4 * 16) div 16) = a" by (simp add: div_mult_mod_eq)
  have m: "(unat a mod 4 * 16 + unat b div 16) mod 16 = unat b div 16" using u by simp
  have "(unat b mod 16 * 4 + unat c div 64) div 4 = unat b mod 16" using u by simp
  with m show "of_nat ((unat a mod 4 * 16 + unat b div 16) mod 16 * 16 + (unat b mod 16 * 4 + unat c div 64) div 4) = b"
    by (simp add: div_mult_mod_eq)
  from m show "of_nat ((unat a mod 4 * 16 + unat b div 16) mod 16 * 16 + (unat b mod 16 * 4) div 4) = b"
    by (simp add: div_mult_mod_eq)
  have "(unat b mod 16 * 4 + unat c div 64) mod 4 = unat c div 64" using u by simp
  then show "of_nat ((unat b mod 16 * 4 + unat c div 64) mod 4 * 64 + unat c mod 64) = c" by (simp add: div_mult_mod_eq)
qed

lemma a2b_pad:
  "a2b 2 l 0 out (pad_char # pad_char # cs) = Inr out" "a2b 3 l 0 out (pad_char # cs) = Inr out"
  by simp_all

lemma a2b_encode: "a2b 0 l p out (b64_encode b) = Inr (out @ b)"
proof (induction b arbitrary: l p out rule: b64_encode.induct)
  case 1
  show ?case by simp
next
  case (2 a)
  show ?case
    unfolding b64_encode.simps a2b_digit(1) [OF byte_parts(1)] a2b_digit(2) [OF byte_parts(2)] a2b_pad byte_joins(2) ..
next
  case (3 a b)
  show ?case
    unfolding b64_encode.simps a2b_digit(1) [OF byte_parts(1)] a2b_digit(2) [OF byte_parts(3)] a2b_digit(3) [OF byte_parts(4)]
      a2b_pad byte_joins(1,4) append_assoc append_Cons append_Nil ..
next
  case (4 a b c r)
  show ?case
    unfolding b64_encode.simps append_Cons append_Nil a2b_digit(1) [OF byte_parts(1)] a2b_digit(2) [OF byte_parts(3)]
      a2b_digit(3) [OF byte_parts(5)] a2b_digit(4) [OF byte_parts(6)] byte_joins(1,3,5) 4 append_assoc append_Cons append_Nil ..
qed

theorem decode_encode: "decodebytes (b64_encode b) = Inr b"
  by (simp add: decodebytes_def a2b_encode)

definition plain_char :: "byte \<Rightarrow> bool" where
  "plain_char x \<longleftrightarrow> unat x < 128 \<and> x \<noteq> 10 \<and> x \<noteq> 32 \<and> x \<noteq> 9"

lemma plain_chars: "v < 64 \<Longrightarrow> plain_char (b64_char v)" "plain_char pad_char"
  using b64_char_range by (auto simp: plain_char_def pad_char_def)

lemma b64_encode_plain: "list_all plain_char (b64_encode b)"
  by (induction b rule: b64_encode.induct) (simp_all add: plain_chars byte_parts)

lemma mod_three: "Suc (Suc (Suc n)) mod 3 = n mod 3"
  by presburger

lemma b64_encode_append: "length a mod 3 = 0 \<Longrightarrow> b64_encode (a @ b) = b64_encode a @ b64_encode b"
  by (induction a rule: b64_encode.induct) (auto simp: mod_three)

text \<open>The line breaks taken out again, it is one encoding of the whole.\<close>

lemma filter_plain: "list_all plain_char l \<Longrightarrow> filter (\<lambda>x. x \<noteq> 10) l = l"
  by (induction l) (auto simp: plain_char_def)

lemma encodebytes_joined: "filter (\<lambda>x. x \<noteq> 10) (encodebytes b) = b64_encode b"
proof (induction "57 :: nat" b rule: chunks.induct)
  case (1 xs)
  show ?case
  proof (cases "xs = []")
    case True
    then show ?thesis by (simp add: encodebytes_def chunks.simps)
  next
    case False
    have e: "encodebytes xs = b64_encode (take 57 xs) @ [10] @ encodebytes (drop 57 xs)"
      using False by (simp add: encodebytes_def chunks.simps [of 57 xs])
    have IH: "filter (\<lambda>x. x \<noteq> 10) (encodebytes (drop 57 xs)) = b64_encode (drop 57 xs)"
      using 1 False by simp
    have j: "b64_encode (take 57 xs) @ b64_encode (drop 57 xs) = b64_encode xs"
    proof (cases "57 \<le> length xs")
      case True
      then show ?thesis using b64_encode_append [of "take 57 xs" "drop 57 xs"] by simp
    qed simp
    have "filter (\<lambda>x. x \<noteq> 10) (encodebytes xs) = filter (\<lambda>x. x \<noteq> 10) (b64_encode (take 57 xs)) @ filter (\<lambda>x. x \<noteq> 10) (encodebytes (drop 57 xs))"
      unfolding e filter_append by simp
    also have "\<dots> = b64_encode (take 57 xs) @ b64_encode (drop 57 xs)"
      by (simp only: IH filter_plain [OF b64_encode_plain])
    finally show ?thesis using j by simp
  qed
qed

end
