(* ===== verification/Key_Types.thy ===== *)
theory Key_Types
  imports Base64 Auth_Handler
begin

text \<open>
  \<open>paramiko/pkey.py\<close> with \<open>rsakey.py\<close>, \<open>ecdsakey.py\<close> and \<open>ed25519key.py\<close>, the public side: key objects
  read from their wire form and written to it, certificates, signatures and their verification,
  fingerprints. The arithmetic of the cryptography libraries is a parameter (\<open>key_lib\<close>).
\<close>

section \<open>The libraries\<close>

text \<open>
  A private key of a library is a handle (bytes). \<open>rsa_public\<close> builds a public key from its exponent and
  modulus and can reject them, \<open>ec_decode\<close> decodes a point, \<open>ed_public\<close> gives the public key of a seed.
  The signature functions take the name of the hash. \<open>load_der\<close> and \<open>decrypt\<close> are used for key files.
\<close>

datatype material =
    RsaMat int int "bytes option"
  | EcMat "pystr option" int int "bytes option"
  | EdMat "bytes option" "bytes option"

record key_lib =
  rsa_public :: "int \<Rightarrow> int \<Rightarrow> unit res"
  rsa_sign :: "bytes \<Rightarrow> pystr \<Rightarrow> bytes \<Rightarrow> bytes"
  rsa_verify :: "int \<Rightarrow> int \<Rightarrow> pystr \<Rightarrow> bytes \<Rightarrow> bytes \<Rightarrow> bool"
  ec_decode :: "pystr \<Rightarrow> bytes \<Rightarrow> (int \<times> int) option"
  ec_sign :: "bytes \<Rightarrow> pystr \<Rightarrow> bytes \<Rightarrow> int \<times> int"
  ec_verify :: "int \<Rightarrow> int \<Rightarrow> pystr \<Rightarrow> int \<times> int \<Rightarrow> bytes \<Rightarrow> bool res"
  ed_public :: "bytes \<Rightarrow> bytes"
  ed_sign :: "bytes \<Rightarrow> bytes \<Rightarrow> bytes"
  ed_verify :: "bytes \<Rightarrow> bytes \<Rightarrow> bytes \<Rightarrow> bool res"
  sha256_digest :: "bytes \<Rightarrow> bytes"
  md5_digest :: "bytes \<Rightarrow> bytes"
  load_der :: "bytes \<Rightarrow> material res"
  rsa_private :: "int list \<Rightarrow> bytes res"
  ec_private :: "pystr \<Rightarrow> int \<Rightarrow> (int \<times> int \<times> bytes) res"
  decrypt :: "pystr \<Rightarrow> bytes \<Rightarrow> bytes \<Rightarrow> bytes \<Rightarrow> bytes res"
  pkcs7_unpad :: "int \<Rightarrow> bytes \<Rightarrow> bytes res"
  bcrypt_kdf :: "bytes \<Rightarrow> bytes \<Rightarrow> int \<Rightarrow> int \<Rightarrow> bytes res"

section \<open>Names\<close>

definition ssh_rsa :: pystr where "ssh_rsa = lit ''ssh-rsa''"
definition ssh_ed25519 :: pystr where "ssh_ed25519 = lit ''ssh-ed25519''"
definition ecdsa_prefix :: pystr where "ecdsa_prefix = lit ''ecdsa-sha2-''"

text \<open>The curves: name, key length in bits, name of the hash.\<close>

definition ecdsa_curves :: "(pystr \<times> int \<times> pystr) list" where
  "ecdsa_curves = [(lit ''nistp256'', 256, lit ''SHA256''), (lit ''nistp384'', 384, lit ''SHA384''), (lit ''nistp521'', 521, lit ''SHA512'')]"

definition key_format_identifier :: "pystr \<Rightarrow> pystr" where
  "key_format_identifier nist = ecdsa_prefix @ nist"

definition key_format_identifier_list :: "pystr list" where
  "key_format_identifier_list = map (key_format_identifier \<circ> fst) ecdsa_curves"

definition curve_of_identifier :: "pystr \<Rightarrow> pystr option" where
  "curve_of_identifier idf = find (\<lambda>n. key_format_identifier n = idf) (map fst ecdsa_curves)"

definition curve_of_length :: "int \<Rightarrow> pystr option" where
  "curve_of_length bits = map_option fst (find (\<lambda>(n, l, h). l = bits) ecdsa_curves)"

definition curve_length :: "pystr \<Rightarrow> int res" where
  "curve_length nist = (case map_of ecdsa_curves nist of None \<Rightarrow> Inl AttributeError | Some (l, h) \<Rightarrow> Inr l)"

definition curve_hash :: "pystr \<Rightarrow> pystr res" where
  "curve_hash nist = (case map_of ecdsa_curves nist of None \<Rightarrow> Inl AttributeError | Some (l, h) \<Rightarrow> Inr h)"

text \<open>\<open>RSAKey.HASHES\<close>.\<close>

definition rsa_hashes :: "(pystr \<times> pystr) list" where
  "rsa_hashes =
     [(lit ''rsa-sha2-256'', lit ''SHA256''), (lit ''rsa-sha2-256-cert-v01@openssh.com'', lit ''SHA256''),
      (lit ''rsa-sha2-512'', lit ''SHA512''), (lit ''rsa-sha2-512-cert-v01@openssh.com'', lit ''SHA512'')]"

definition rsa_identifiers :: "pystr list" where
  "rsa_identifiers = map fst rsa_hashes @ [ssh_rsa, ssh_rsa @ cert_suffix]"

section \<open>Public blobs\<close>

record public_blob =
  pb_type :: pystr
  pb_blob :: bytes
  pb_comment :: "pystr option"

definition blob_from_message :: "message \<Rightarrow> public_blob res" where
  "blob_from_message m = bind_res (get_text m) (\<lambda>(ty, m). Inr \<lparr>pb_type = ty, pb_blob = msg_asbytes m, pb_comment = None\<rparr>)"

text \<open>\<open>str.split(None, 2)\<close>: at most two words are taken off, the rest keeps its blanks.\<close>

definition take_word :: "pystr \<Rightarrow> pystr \<times> pystr" where
  "take_word s = (let s = py_lstrip s in (takeWhile (\<lambda>c. \<not> is_blank c) s, dropWhile (\<lambda>c. \<not> is_blank c) s))"

definition split_two :: "pystr \<Rightarrow> pystr list" where
  "split_two s =
     (let (w1, r1) = take_word s; (w2, r2) = take_word r1; w3 = py_lstrip r2
      in if w1 = [] then [] else if w2 = [] then [w1] else if w3 = [] then [w1, w2] else [w1, w2, w3])"

definition blob_from_string :: "pystr \<Rightarrow> public_blob res" where
  "blob_from_string s =
     (let fs = split_two s
      in if length fs < 2 then Inl ValueError
         else
           bind_res (utf8_encode (fs ! 1)) (\<lambda>b64.
           bind_res (decodebytes b64) (\<lambda>blob.
           bind_res (get_text (message_of blob)) (\<lambda>(blob_type, m).
           if blob_type \<noteq> fs ! 0 then Inl ValueError
           else Inr \<lparr>pb_type = fs ! 0, pb_blob = blob, pb_comment = (if length fs < 3 then None else Some (py_strip (fs ! 2)))\<rparr>))))"

definition blob_eq :: "public_blob \<Rightarrow> public_blob \<Rightarrow> bool" where
  "blob_eq a b \<longleftrightarrow> pb_blob a = pb_blob b"

section \<open>Key objects\<close>

record pkey =
  mat :: material
  pub_blob :: "public_blob option"

text \<open>\<open>get_name\<close>; a curve that is not in the table leaves the key without one.\<close>

fun mat_name :: "material \<Rightarrow> pystr res" where
  "mat_name (RsaMat e n p) = Inr ssh_rsa"
| "mat_name (EcMat c x y p) = (case c of None \<Rightarrow> Inl AttributeError | Some nist \<Rightarrow> Inr (key_format_identifier nist))"
| "mat_name (EdMat v s) = Inr ssh_ed25519"

definition get_name :: "pkey \<Rightarrow> pystr res" where
  "get_name k = mat_name (mat k)"

text \<open>
  \<open>_check_type_and_load_cert\<close> of a key whose name is \<open>nm\<close>: the certificate, if it is one, and the message
  after the type (and the nonce).
\<close>

definition load_certificate :: "pystr \<Rightarrow> public_blob \<Rightarrow> public_blob res" where
  "load_certificate nm blob = (if starts_with nm (pb_type blob) then Inr blob else Inl ValueError)"

definition check_type_and_load_cert ::
  "pystr \<Rightarrow> message option \<Rightarrow> pystr list \<Rightarrow> pystr list \<Rightarrow> (public_blob option \<times> message) res" where
  "check_type_and_load_cert nm msg key_types cert_types =
     (case msg of
        None \<Rightarrow> Inl (SSHException ''Key object may not be empty'')
      | Some m \<Rightarrow>
          bind_res (get_text (rewind m)) (\<lambda>(ty, m').
          if ty \<in> set key_types then Inr (None, m')
          else if ty \<in> set cert_types then
            bind_res (blob_from_message (message_of (msg_asbytes m))) (\<lambda>blob.
            bind_res (load_certificate nm blob) (\<lambda>blob. Inr (Some blob, snd (get_string m'))))
          else Inl (SSHException ''Invalid key'')))"

definition rsa_from_message :: "key_lib \<Rightarrow> message option \<Rightarrow> pkey res" where
  "rsa_from_message lib msg =
     bind_res (check_type_and_load_cert ssh_rsa msg [ssh_rsa] [ssh_rsa @ cert_suffix]) (\<lambda>(blob, m).
     let (e, m) = get_mpint m; (n, m) = get_mpint m
     in bind_res (rsa_public lib e n) (\<lambda>_. Inr \<lparr>mat = RsaMat e n None, pub_blob = blob\<rparr>))"

text \<open>\<open>nacl.signing.VerifyKey\<close> takes 32 bytes.\<close>

definition nacl_key :: "bytes \<Rightarrow> bytes res" where
  "nacl_key b = (if length b = 32 then Inr b else Inl ValueError)"

definition ed25519_from_message :: "message option \<Rightarrow> pkey res" where
  "ed25519_from_message msg =
     (case msg of
        None \<Rightarrow> Inl ValueError
      | Some _ \<Rightarrow>
          bind_res (check_type_and_load_cert ssh_ed25519 msg [ssh_ed25519] [ssh_ed25519 @ cert_suffix]) (\<lambda>(blob, m).
          bind_res (nacl_key (fst (get_binary m))) (\<lambda>v. Inr \<lparr>mat = EdMat (Some v) None, pub_blob = blob\<rparr>)))"

definition strip_cert :: "pystr \<Rightarrow> pystr" where
  "strip_cert ty = (if ends_with cert_suffix ty then take (length ty - length cert_suffix) ty else ty)"

definition ecdsa_from_message :: "key_lib \<Rightarrow> message option \<Rightarrow> pkey res" where
  "ecdsa_from_message lib msg =
     (case msg of
        None \<Rightarrow> Inl AttributeError
      | Some m \<Rightarrow>
          bind_res (get_text m) (\<lambda>(ty, m').
          let curve = curve_of_identifier (strip_cert ty);
              nm = (case curve of None \<Rightarrow> [] | Some n \<Rightarrow> key_format_identifier n)
          in bind_res (check_type_and_load_cert nm (Some m') key_format_identifier_list (map (\<lambda>x. x @ cert_suffix) key_format_identifier_list)) (\<lambda>(blob, m).
             bind_res (get_text m) (\<lambda>(curvename, m).
             case curve of
               None \<Rightarrow> Inl AttributeError
             | Some nist \<Rightarrow>
                 if curvename \<noteq> nist then Inl (SSHException ''Can't handle curve'')
                 else
                   (case ec_decode lib nist (fst (get_binary m)) of
                      None \<Rightarrow> Inl (SSHException ''Invalid public key'')
                    | Some (x, y) \<Rightarrow> Inr \<lparr>mat = EcMat (Some nist) x y None, pub_blob = blob\<rparr>)))))"

text \<open>\<open>PKey.from_type_string\<close> on the three classes in their order, and \<open>Transport._key_info\<close>.\<close>

definition from_type_string :: "key_lib \<Rightarrow> pystr \<Rightarrow> bytes \<Rightarrow> pkey res" where
  "from_type_string lib key_type key_bytes =
     (let m = Some (message_of key_bytes)
      in if key_type \<in> set rsa_identifiers then rsa_from_message lib m
         else if key_type \<in> {ssh_ed25519} then ed25519_from_message m
         else if key_type \<in> set key_format_identifier_list then ecdsa_from_message lib m
         else Inl (UnknownKeyType ''''))"

definition from_key_info :: "key_lib \<Rightarrow> pystr \<Rightarrow> bytes \<Rightarrow> pkey res" where
  "from_key_info lib algorithm key_bytes =
     (let m = Some (message_of key_bytes)
      in if algorithm \<in> set (map fst rsa_hashes) then rsa_from_message lib m
         else if algorithm \<in> set (key_format_identifier_list @ map (\<lambda>x. x @ cert_suffix) key_format_identifier_list)
         then ecdsa_from_message lib m
         else if algorithm \<in> {ssh_ed25519, ssh_ed25519 @ cert_suffix} then ed25519_from_message m
         else Inl KeyError)"

section \<open>The wire form\<close>

definition zeros :: "int \<Rightarrow> bytes" where
  "zeros n = replicate (nat n) 0"

definition ec_coordinate :: "int \<Rightarrow> int \<Rightarrow> bytes" where
  "ec_coordinate w v = (let b = deflate_long v False in zeros (w - int (length b)) @ b)"

definition point_str :: "int \<Rightarrow> int \<Rightarrow> int \<Rightarrow> bytes" where
  "point_str bits x y = (let w = (bits + 7) div 8 in 4 # ec_coordinate w x @ ec_coordinate w y)"

definition ed_verifying :: "key_lib \<Rightarrow> bytes option \<Rightarrow> bytes option \<Rightarrow> bytes option" where
  "ed_verifying lib v s = (case s of Some seed \<Rightarrow> Some (ed_public lib seed) | None \<Rightarrow> v)"

fun mat_fields :: "key_lib \<Rightarrow> material \<Rightarrow> field list res" where
  "mat_fields lib (RsaMat e n p) = Inr [FText ssh_rsa, FMpint e, FMpint n]"
| "mat_fields lib (EcMat c x y p) =
     (case c of
        None \<Rightarrow> Inl AttributeError
      | Some nist \<Rightarrow> bind_res (curve_length nist) (\<lambda>bits. Inr [FText (key_format_identifier nist), FText nist, FString (point_str bits x y)]))"
| "mat_fields lib (EdMat v s) =
     Inr [FText ssh_ed25519, FString (case ed_verifying lib v s of None \<Rightarrow> [] | Some b \<Rightarrow> b)]"

definition key_asbytes :: "key_lib \<Rightarrow> pkey \<Rightarrow> bytes res" where
  "key_asbytes lib k = bind_res (mat_fields lib (mat k)) (\<lambda>fs. bind_res (compose fs) (\<lambda>m. Inr (msg_asbytes m)))"

text \<open>\<open>_fields\<close> and the equality by them.\<close>

datatype key_fields = RsaFields int int | EcFields pystr int int | EdFields "bytes option"

fun fields_of :: "key_lib \<Rightarrow> material \<Rightarrow> key_fields res" where
  "fields_of lib (RsaMat e n p) = Inr (RsaFields e n)"
| "fields_of lib (EcMat c x y p) = bind_res (mat_name (EcMat c x y p)) (\<lambda>nm. Inr (EcFields nm x y))"
| "fields_of lib (EdMat v s) = Inr (EdFields (ed_verifying lib v s))"

definition key_eq :: "key_lib \<Rightarrow> pkey \<Rightarrow> pkey \<Rightarrow> bool res" where
  "key_eq lib a b = bind_res (fields_of lib (mat a)) (\<lambda>x. bind_res (fields_of lib (mat b)) (\<lambda>y. Inr (x = y)))"

fun get_bits :: "material \<Rightarrow> int res" where
  "get_bits (RsaMat e n p) = Inr (bit_length n)"
| "get_bits (EcMat c x y p) = (case c of None \<Rightarrow> Inl AttributeError | Some nist \<Rightarrow> curve_length nist)"
| "get_bits (EdMat v s) = Inr 256"

fun can_sign :: "material \<Rightarrow> bool" where
  "can_sign (RsaMat e n p) = (p \<noteq> None)"
| "can_sign (EcMat c x y p) = (p \<noteq> None)"
| "can_sign (EdMat v s) = (s \<noteq> None)"

section \<open>Text about a key\<close>

definition get_base64 :: "key_lib \<Rightarrow> pkey \<Rightarrow> pystr res" where
  "get_base64 lib k =
     bind_res (key_asbytes lib k) (\<lambda>b. bind_res (utf8_decode (encodebytes b)) (\<lambda>s. Inr (filter (\<lambda>c. c \<noteq> 10) s)))"

definition rstrip_char :: "nat \<Rightarrow> pystr \<Rightarrow> pystr" where
  "rstrip_char c s = rev (dropWhile (\<lambda>x. x = c) (rev s))"

definition fingerprint :: "key_lib \<Rightarrow> pkey \<Rightarrow> pystr res" where
  "fingerprint lib k =
     bind_res (key_asbytes lib k) (\<lambda>b.
     bind_res (utf8_decode (encodebytes (sha256_digest lib b))) (\<lambda>s.
     Inr (lit ''SHA256:'' @ rstrip_char 61 (py_strip s))))"

definition get_fingerprint :: "key_lib \<Rightarrow> pkey \<Rightarrow> bytes res" where
  "get_fingerprint lib k = bind_res (key_asbytes lib k) (\<lambda>b. Inr (md5_digest lib b))"

text \<open>\<open>str.upper\<close> on ASCII letters.\<close>

definition to_upper :: "pystr \<Rightarrow> pystr" where
  "to_upper = map (\<lambda>c. if 97 \<le> c \<and> c \<le> 122 then c - 32 else c)"

text \<open>\<open>str.replace(p, q)\<close>.\<close>

function replace_sub :: "pystr \<Rightarrow> pystr \<Rightarrow> pystr \<Rightarrow> pystr" where
  "replace_sub p q s =
     (if s = [] then []
      else if p \<noteq> [] \<and> starts_with p s then q @ replace_sub p q (drop (length p) s)
      else hd s # replace_sub p q (tl s))"
  by pat_completeness auto
termination by (relation "measure (\<lambda>(p, q, s). length s)") (auto simp: starts_with_def)

declare replace_sub.simps [simp del]

definition algorithm_name :: "pkey \<Rightarrow> pystr res" where
  "algorithm_name k =
     bind_res (get_name k) (\<lambda>nm.
     let nm = replace_sub (lit ''ssh-'') [] nm
     in Inr (to_upper (if contains cert_suffix nm then replace_sub cert_suffix (lit ''-cert'') nm else hd (split_on 45 nm))))"

section \<open>Signatures\<close>

text \<open>The default algorithm of an RSA key is its name, which has no hash.\<close>

definition composed :: "field list \<Rightarrow> bytes res" where
  "composed fs = bind_res (compose fs) (\<lambda>m. Inr (msg_asbytes m))"

definition rsa_sign_data :: "key_lib \<Rightarrow> bytes option \<Rightarrow> bytes \<Rightarrow> pystr option \<Rightarrow> bytes res" where
  "rsa_sign_data lib handle data algorithm =
     (let alg = (case algorithm of None \<Rightarrow> ssh_rsa | Some a \<Rightarrow> a)
      in case handle of
           None \<Rightarrow> Inl AttributeError
         | Some h \<Rightarrow>
             (case map_of rsa_hashes alg of
                None \<Rightarrow> Inl KeyError
              | Some hash \<Rightarrow> composed [FText (remove_all cert_suffix alg), FString (rsa_sign lib h hash data)]))"

definition sigencode :: "int \<Rightarrow> int \<Rightarrow> bytes res" where
  "sigencode r s = composed [FMpint r, FMpint s]"

definition sigdecode :: "bytes \<Rightarrow> int \<times> int" where
  "sigdecode sig = (let (r, m) = get_mpint (message_of sig); (s, m) = get_mpint m in (r, s))"

definition ecdsa_sign_data :: "key_lib \<Rightarrow> pystr option \<Rightarrow> bytes option \<Rightarrow> bytes \<Rightarrow> bytes res" where
  "ecdsa_sign_data lib curve handle data =
     (case (curve, handle) of
        (Some nist, Some h) \<Rightarrow>
          bind_res (curve_hash nist) (\<lambda>hash.
          let (r, s) = ec_sign lib h hash data
          in bind_res (sigencode r s) (\<lambda>sig. composed [FText (key_format_identifier nist), FString sig]))
      | _ \<Rightarrow> Inl AttributeError)"

definition ed_sign_data :: "key_lib \<Rightarrow> bytes option \<Rightarrow> bytes \<Rightarrow> bytes res" where
  "ed_sign_data lib seed data =
     (case seed of None \<Rightarrow> Inl AttributeError | Some s \<Rightarrow> composed [FText ssh_ed25519, FString (ed_sign lib s data)])"

fun sign_data_of :: "key_lib \<Rightarrow> material \<Rightarrow> bytes \<Rightarrow> pystr option \<Rightarrow> bytes res" where
  "sign_data_of lib (RsaMat e n p) data alg = rsa_sign_data lib p data alg"
| "sign_data_of lib (EcMat c x y p) data alg = ecdsa_sign_data lib c p data"
| "sign_data_of lib (EdMat v s) data alg = ed_sign_data lib s data"

text \<open>A signature shorter than the key is padded with zeros in front.\<close>

definition rsa_verify_sig :: "key_lib \<Rightarrow> int \<Rightarrow> int \<Rightarrow> bytes \<Rightarrow> message \<Rightarrow> bool res" where
  "rsa_verify_sig lib e n data msg =
     bind_res (get_text msg) (\<lambda>(alg, m).
     case map_of rsa_hashes alg of
       None \<Rightarrow> Inr False
     | Some hash \<Rightarrow>
         (let sign = fst (get_binary m); diff = bit_length n - int (length sign) * 8;
              sign = (if 0 < diff then zeros ((diff + 7) div 8) @ sign else sign)
          in Inr (rsa_verify lib e n hash sign data)))"

definition ecdsa_verify_sig :: "key_lib \<Rightarrow> pystr option \<Rightarrow> int \<Rightarrow> int \<Rightarrow> bytes \<Rightarrow> message \<Rightarrow> bool res" where
  "ecdsa_verify_sig lib curve x y data msg =
     bind_res (get_text msg) (\<lambda>(idf, m).
     case curve of
       None \<Rightarrow> Inl AttributeError
     | Some nist \<Rightarrow>
         if idf \<noteq> key_format_identifier nist then Inr False
         else bind_res (curve_hash nist) (\<lambda>hash. ec_verify lib x y hash (sigdecode (fst (get_binary m))) data))"

text \<open>An Ed25519 key that was loaded as a private one has no \<open>_verifying_key\<close>.\<close>

definition ed_verify_sig :: "key_lib \<Rightarrow> bytes option \<Rightarrow> bytes \<Rightarrow> message \<Rightarrow> bool res" where
  "ed_verify_sig lib verifying data msg =
     bind_res (get_text msg) (\<lambda>(nm, m).
     if nm \<noteq> ssh_ed25519 then Inr False
     else case verifying of None \<Rightarrow> Inl AttributeError | Some v \<Rightarrow> ed_verify lib v data (fst (get_binary m)))"

fun verify_sig_of :: "key_lib \<Rightarrow> material \<Rightarrow> bytes \<Rightarrow> message \<Rightarrow> bool res" where
  "verify_sig_of lib (RsaMat e n p) data msg = rsa_verify_sig lib e n data msg"
| "verify_sig_of lib (EcMat c x y p) data msg = ecdsa_verify_sig lib c x y data msg"
| "verify_sig_of lib (EdMat v s) data msg = ed_verify_sig lib v data msg"

section \<open>Keys as the authentication sees them\<close>

text \<open>
  The wire form and the certificate of a key object, and an environment for the authentication whose
  parser, signer and verifier are those of the key classes: \<open>priv\<close> is the client's private key, which
  is one that signs.
\<close>

definition user_key_of :: "key_lib \<Rightarrow> pkey \<Rightarrow> user_key res" where
  "user_key_of lib k =
     bind_res (get_name k) (\<lambda>nm. bind_res (key_asbytes lib k) (\<lambda>b.
     Inr \<lparr>uk_name = nm, uk_blob = b, uk_cert = map_option (\<lambda>pb. (pb_type pb, pb_blob pb)) (pub_blob k)\<rparr>))"

definition pkey_auth_env :: "key_lib \<Rightarrow> material \<Rightarrow> auth_env" where
  "pkey_auth_env lib priv =
     \<lparr>parse_key = (\<lambda>alg blob. bind_res (from_key_info lib alg blob) (user_key_of lib)),
      sign_ssh_data = (\<lambda>k data alg. case sign_data_of lib priv data (Some alg) of Inr sig \<Rightarrow> sig | Inl e \<Rightarrow> []),
      verify_ssh_sig = (\<lambda>k data sig. bind_res (from_type_string lib (uk_name k) (uk_blob k)) (\<lambda>key.
        verify_sig_of lib (mat key) data (message_of sig)))\<rparr>"

end
