(* ===== verification/Host_Keys.thy ===== *)
theory Host_Keys
  imports Key_Types
begin

text \<open>
  \<open>paramiko/hostkeys.py\<close>: the known host keys. An entry is an object that the list of a \<open>HostKeys\<close> and the
  dictionary \<open>lookup\<close> returns share, so entries live in a heap and both hold their addresses. HMAC-SHA1
  is a parameter.
\<close>

section \<open>Entries\<close>

record host_entry =
  h_names :: "pystr list"
  h_key :: "pkey option"
  h_valid :: bool

definition new_entry :: "pystr list \<Rightarrow> pkey option \<Rightarrow> host_entry" where
  "new_entry names key = \<lparr>h_names = names, h_key = key, h_valid = (key \<noteq> None)\<rparr>"

text \<open>\<open>re.split(" |\t", line)\<close> cuts at every single blank or tab.\<close>

fun split_at :: "('a \<Rightarrow> bool) \<Rightarrow> 'a list \<Rightarrow> 'a list list" where
  "split_at p [] = [[]]"
| "split_at p (x # xs) =
     (if p x then [] # split_at p xs
      else (case split_at p xs of [] \<Rightarrow> [[x]] | y # ys \<Rightarrow> (x # y) # ys))"

definition blank_or_tab :: "nat \<Rightarrow> bool" where
  "blank_or_tab c \<longleftrightarrow> c = 32 \<or> c = 9"

definition from_line :: "key_lib \<Rightarrow> pystr \<Rightarrow> host_entry option res" where
  "from_line lib line =
     (let fields = split_at blank_or_tab line
      in if length fields < 3 then Inr None
         else
           (let names = split_on comma (fields ! 0); key_type = fields ! 1
            in bind_res (utf8_encode (fields ! 2)) (\<lambda>kb.
               case decodebytes kb of
                 Inl e \<Rightarrow> Inl InvalidHostKey
               | Inr key_bytes \<Rightarrow>
                   (case from_type_string lib key_type key_bytes of
                      Inl (UnknownKeyType t) \<Rightarrow> Inr None
                    | Inl e \<Rightarrow> Inl e
                    | Inr k \<Rightarrow> Inr (Some (new_entry names (Some k)))))))"

definition to_line :: "key_lib \<Rightarrow> host_entry \<Rightarrow> pystr option res" where
  "to_line lib e =
     (if h_valid e then
        (case h_key e of
           None \<Rightarrow> Inl AttributeError
         | Some k \<Rightarrow>
             bind_res (get_name k) (\<lambda>nm. bind_res (get_base64 lib k) (\<lambda>b64.
             Inr (Some (join [comma] (h_names e) @ [32] @ nm @ [32] @ b64 @ [10])))))
      else Inr None)"

section \<open>Hashed host names\<close>

definition hash_mark :: pystr where "hash_mark = lit ''|1|''"

definition b64_line :: "bytes \<Rightarrow> pystr res" where
  "b64_line b = utf8_decode (encodebytes b)"

text \<open>\<open>rnd\<close> is what \<open>os.urandom\<close> gives.\<close>

definition hash_host :: "(bytes \<Rightarrow> bytes \<Rightarrow> bytes) \<Rightarrow> bytes \<Rightarrow> pystr \<Rightarrow> pystr option \<Rightarrow> pystr res" where
  "hash_host hmac rnd hostname salt =
     bind_res (case salt of
         None \<Rightarrow> Inr rnd
       | Some s \<Rightarrow> bind_res (utf8_encode (if starts_with hash_mark s then split_on 124 s ! 2 else s)) decodebytes) (\<lambda>salt.
     bind_res (ensure (length salt = 20) AssertionError) (\<lambda>_.
     bind_res (utf8_encode hostname) (\<lambda>hb.
     bind_res (b64_line salt) (\<lambda>s. bind_res (b64_line (hmac salt hb)) (\<lambda>m.
     Inr (filter (\<lambda>c. c \<noteq> 10) (hash_mark @ s @ [124] @ m)))))))"

text \<open>\<open>constant_time_bytes_eq\<close> on two \<open>str\<close>.\<close>

definition constant_time_text_eq :: "pystr \<Rightarrow> pystr \<Rightarrow> bool" where
  "constant_time_text_eq a b = (length a = length b \<and> fold (\<lambda>(x, y) r. or r (xor x y)) (zip a b) 0 = 0)"

fun hostname_matches :: "(bytes \<Rightarrow> bytes \<Rightarrow> bytes) \<Rightarrow> pystr \<Rightarrow> pystr list \<Rightarrow> bool res" where
  "hostname_matches hmac hostname [] = Inr False"
| "hostname_matches hmac hostname (h # hs) =
     (if h = hostname then Inr True
      else if starts_with hash_mark h \<and> \<not> starts_with hash_mark hostname then
        bind_res (hash_host hmac [] hostname (Some h)) (\<lambda>x.
        if constant_time_text_eq x h then Inr True else hostname_matches hmac hostname hs)
      else hostname_matches hmac hostname hs)"

section \<open>The table\<close>

record hostkeys =
  hk_heap :: "host_entry list"
  hk_ids :: "nat list"

record sub_dict =
  sd_hostname :: pystr
  sd_ids :: "nat list"

definition no_hostkeys :: hostkeys where
  "no_hostkeys = \<lparr>hk_heap = [], hk_ids = []\<rparr>"

definition entry_at :: "hostkeys \<Rightarrow> nat \<Rightarrow> host_entry" where
  "entry_at st i = hk_heap st ! i"

text \<open>\<open>e.key.get_name()\<close>; an entry without a key raises.\<close>

definition entry_type :: "hostkeys \<Rightarrow> nat \<Rightarrow> pystr res" where
  "entry_type st i = (case h_key (entry_at st i) of None \<Rightarrow> Inl AttributeError | Some k \<Rightarrow> get_name k)"

definition append_entry :: "host_entry \<Rightarrow> hostkeys \<Rightarrow> hostkeys" where
  "append_entry e st = \<lparr>hk_heap = hk_heap st @ [e], hk_ids = hk_ids st @ [length (hk_heap st)]\<rparr>"

definition set_key :: "nat \<Rightarrow> pkey \<Rightarrow> hostkeys \<Rightarrow> hostkeys" where
  "set_key i k st = st\<lparr>hk_heap := (hk_heap st)[i := (entry_at st i)\<lparr>h_key := Some k\<rparr>]\<rparr>"

text \<open>The first entry that names the host and holds a key of the type.\<close>

fun find_named :: "hostkeys \<Rightarrow> pystr \<Rightarrow> pystr \<Rightarrow> nat list \<Rightarrow> nat option res" where
  "find_named st host ty [] = Inr None"
| "find_named st host ty (i # is) =
     (if host \<in> set (h_names (entry_at st i)) then
        bind_res (entry_type st i) (\<lambda>t. if t = ty then Inr (Some i) else find_named st host ty is)
      else find_named st host ty is)"

definition add_key :: "pystr \<Rightarrow> pystr \<Rightarrow> pkey \<Rightarrow> (hostkeys, unit) prog" where
  "add_key host ty k st =
     (case find_named st host ty (hk_ids st) of
        Inl e \<Rightarrow> (Exn e, st)
      | Inr (Some i) \<Rightarrow> (Ret (), set_key i k st)
      | Inr None \<Rightarrow> (Ret (), append_entry (new_entry [host] (Some k)) st))"

fun matching_ids :: "(bytes \<Rightarrow> bytes \<Rightarrow> bytes) \<Rightarrow> pystr \<Rightarrow> hostkeys \<Rightarrow> nat list \<Rightarrow> nat list res" where
  "matching_ids hmac host st [] = Inr []"
| "matching_ids hmac host st (i # is) =
     bind_res (hostname_matches hmac host (h_names (entry_at st i))) (\<lambda>b.
     bind_res (matching_ids hmac host st is) (\<lambda>r. Inr (if b then i # r else r)))"

definition lookup_host :: "(bytes \<Rightarrow> bytes \<Rightarrow> bytes) \<Rightarrow> pystr \<Rightarrow> hostkeys \<Rightarrow> sub_dict option res" where
  "lookup_host hmac host st =
     bind_res (matching_ids hmac host st (hk_ids st)) (\<lambda>is.
     Inr (if is = [] then None else Some \<lparr>sd_hostname = host, sd_ids = is\<rparr>))"

text \<open>The methods of the dictionary that \<open>lookup\<close> returns.\<close>

fun find_type :: "hostkeys \<Rightarrow> pystr \<Rightarrow> nat list \<Rightarrow> nat option res" where
  "find_type st ty [] = Inr None"
| "find_type st ty (i # is) = bind_res (entry_type st i) (\<lambda>t. if t = ty then Inr (Some i) else find_type st ty is)"

definition sd_getitem :: "hostkeys \<Rightarrow> sub_dict \<Rightarrow> pystr \<Rightarrow> pkey res" where
  "sd_getitem st d ty =
     bind_res (find_type st ty (sd_ids d)) (\<lambda>r.
     case r of
       None \<Rightarrow> Inl KeyError
     | Some i \<Rightarrow> (case h_key (entry_at st i) of None \<Rightarrow> Inl AttributeError | Some k \<Rightarrow> Inr k))"

definition sd_delitem :: "pystr \<Rightarrow> (sub_dict \<times> hostkeys, unit) prog" where
  "sd_delitem ty s =
     (case s of (d, st) \<Rightarrow>
       (case find_type st ty (sd_ids d) of
          Inl e \<Rightarrow> (Exn e, s)
        | Inr None \<Rightarrow> (Exn KeyError, s)
        | Inr (Some i) \<Rightarrow> (Ret (), (d\<lparr>sd_ids := remove1 i (sd_ids d)\<rparr>, st))))"

text \<open>Assignment passes over entries without a key.\<close>

definition keyed :: "hostkeys \<Rightarrow> nat list \<Rightarrow> nat list" where
  "keyed st is = filter (\<lambda>i. h_key (entry_at st i) \<noteq> None) is"

definition sd_setitem :: "pystr \<Rightarrow> pkey \<Rightarrow> (sub_dict \<times> hostkeys, unit) prog" where
  "sd_setitem ty k s =
     (case s of (d, st) \<Rightarrow>
       (case find_type st ty (keyed st (sd_ids d)) of
          Inl e \<Rightarrow> (Exn e, s)
        | Inr (Some i) \<Rightarrow> (Ret (), (d, set_key i k st))
        | Inr None \<Rightarrow>
            (Ret (), (d\<lparr>sd_ids := sd_ids d @ [length (hk_heap st)]\<rparr>, append_entry (new_entry [sd_hostname d] (Some k)) st))))"

definition sd_keys :: "hostkeys \<Rightarrow> sub_dict \<Rightarrow> pystr list res" where
  "sd_keys st d = map_res (entry_type st) (keyed st (sd_ids d))"

definition sd_len :: "hostkeys \<Rightarrow> sub_dict \<Rightarrow> nat res" where
  "sd_len st d = bind_res (sd_keys st d) (\<lambda>ks. Inr (length ks))"

text \<open>\<open>k.get(name, None)\<close>.\<close>

definition sd_get :: "hostkeys \<Rightarrow> sub_dict \<Rightarrow> pystr \<Rightarrow> pkey option res" where
  "sd_get st d ty = (case sd_getitem st d ty of Inl KeyError \<Rightarrow> Inr None | Inl e \<Rightarrow> Inl e | Inr k \<Rightarrow> Inr (Some k))"

definition check_key :: "key_lib \<Rightarrow> (bytes \<Rightarrow> bytes \<Rightarrow> bytes) \<Rightarrow> pystr \<Rightarrow> pkey \<Rightarrow> hostkeys \<Rightarrow> bool res" where
  "check_key lib hmac host key st =
     bind_res (lookup_host hmac host st) (\<lambda>d.
     case d of
       None \<Rightarrow> Inr False
     | Some d \<Rightarrow>
         bind_res (get_name key) (\<lambda>nm. bind_res (sd_get st d nm) (\<lambda>r.
         case r of
           None \<Rightarrow> Inr False
         | Some host_key \<Rightarrow>
             bind_res (key_asbytes lib host_key) (\<lambda>a. bind_res (key_asbytes lib key) (\<lambda>b. Inr (a = b))))))"

definition clear_keys :: "hostkeys \<Rightarrow> hostkeys" where
  "clear_keys st = st\<lparr>hk_ids := []\<rparr>"

definition getitem_host :: "(bytes \<Rightarrow> bytes \<Rightarrow> bytes) \<Rightarrow> pystr \<Rightarrow> hostkeys \<Rightarrow> sub_dict res" where
  "getitem_host hmac host st =
     bind_res (lookup_host hmac host st) (\<lambda>d. case d of None \<Rightarrow> Inl KeyError | Some d \<Rightarrow> Inr d)"

fun first_match :: "(bytes \<Rightarrow> bytes \<Rightarrow> bytes) \<Rightarrow> pystr \<Rightarrow> hostkeys \<Rightarrow> nat list \<Rightarrow> nat \<Rightarrow> nat option res" where
  "first_match hmac host st [] n = Inr None"
| "first_match hmac host st (i # is) n =
     bind_res (hostname_matches hmac host (h_names (entry_at st i))) (\<lambda>b.
     if b then Inr (Some n) else first_match hmac host st is (n + 1))"

definition delitem_host :: "(bytes \<Rightarrow> bytes \<Rightarrow> bytes) \<Rightarrow> pystr \<Rightarrow> (hostkeys, unit) prog" where
  "delitem_host hmac host st =
     (case first_match hmac host st (hk_ids st) 0 of
        Inl e \<Rightarrow> (Exn e, st)
      | Inr None \<Rightarrow> (Exn KeyError, st)
      | Inr (Some n) \<Rightarrow> (Ret (), st\<lparr>hk_ids := take n (hk_ids st) @ drop (Suc n) (hk_ids st)\<rparr>))"

text \<open>\<open>__setitem__\<close>: a key replaces every key of its type that the host has.\<close>

fun replace_named :: "pystr \<Rightarrow> pystr \<Rightarrow> pkey \<Rightarrow> nat list \<Rightarrow> bool \<Rightarrow> (hostkeys, bool) prog" where
  "replace_named host ty k [] found st = (Ret found, st)"
| "replace_named host ty k (i # is) found st =
     (if host \<in> set (h_names (entry_at st i)) then
        (case entry_type st i of
           Inl e \<Rightarrow> (Exn e, st)
         | Inr t \<Rightarrow> if t = ty then replace_named host ty k is True (set_key i k st) else replace_named host ty k is found st)
      else replace_named host ty k is found st)"

fun set_types :: "pystr \<Rightarrow> (pystr \<times> pkey) list \<Rightarrow> (hostkeys, unit) prog" where
  "set_types host [] = ret ()"
| "set_types host ((ty, k) # r) =
     seqp (\<lambda>st. replace_named host ty k (hk_ids st) False st) (\<lambda>found.
     seqp (modify (\<lambda>st. if found then st else append_entry (new_entry [host] (Some k)) st)) (\<lambda>_. set_types host r))"

definition setitem_host :: "pystr \<Rightarrow> (pystr \<times> pkey) list \<Rightarrow> (hostkeys, unit) prog" where
  "setitem_host host d = (if d = [] then modify (append_entry (new_entry [host] None)) else set_types host d)"

fun dedup :: "pystr list \<Rightarrow> pystr list \<Rightarrow> pystr list" where
  "dedup seen [] = seen"
| "dedup seen (h # hs) = dedup (if h \<in> set seen then seen else seen @ [h]) hs"

definition host_names :: "hostkeys \<Rightarrow> pystr list" where
  "host_names st = dedup [] (concat (map (\<lambda>i. h_names (entry_at st i)) (hk_ids st)))"

definition host_count :: "hostkeys \<Rightarrow> nat" where
  "host_count st = length (host_names st)"

definition host_values :: "(bytes \<Rightarrow> bytes \<Rightarrow> bytes) \<Rightarrow> hostkeys \<Rightarrow> sub_dict option list res" where
  "host_values hmac st = map_res (\<lambda>h. lookup_host hmac h st) (host_names st)"

section \<open>Files\<close>

text \<open>
  The hosts whose key is known are taken off the entry while its list is walked: after a removal the
  walk goes on at the next index, so the host that moved up is passed over.
\<close>

function prune :: "(pystr \<Rightarrow> bool res) \<Rightarrow> nat \<Rightarrow> pystr list \<Rightarrow> pystr list res" where
  "prune known i names =
     (if i < length names then
        bind_res (known (names ! i)) (\<lambda>b. prune known (i + 1) (if b then remove1 (names ! i) names else names))
      else Inr names)"
  by pat_completeness auto
termination
  by (relation "measure (\<lambda>(k, i, ns). length ns - i)") (auto simp: length_remove1)

declare prune.simps [simp del]

definition skipped_line :: "pystr \<Rightarrow> bool" where
  "skipped_line line \<longleftrightarrow> line = [] \<or> hd line = 35"

definition load_line :: "key_lib \<Rightarrow> (bytes \<Rightarrow> bytes \<Rightarrow> bytes) \<Rightarrow> pystr \<Rightarrow> (hostkeys, unit) prog" where
  "load_line lib hmac line st =
     (let line = py_strip line
      in if skipped_line line then (Ret (), st)
         else
           (case from_line lib line of
              Inl (SSHException t) \<Rightarrow> (Ret (), st)
            | Inl e \<Rightarrow> (Exn e, st)
            | Inr None \<Rightarrow> (Ret (), st)
            | Inr (Some en) \<Rightarrow>
                (case h_key en of
                   None \<Rightarrow> (Exn AttributeError, st)
                 | Some k \<Rightarrow>
                     (case prune (\<lambda>h. check_key lib hmac h k st) 0 (h_names en) of
                        Inl e \<Rightarrow> (Exn e, st)
                      | Inr names \<Rightarrow> (Ret (), if names = [] then st else append_entry (en\<lparr>h_names := names\<rparr>) st)))))"

fun load_keys :: "key_lib \<Rightarrow> (bytes \<Rightarrow> bytes \<Rightarrow> bytes) \<Rightarrow> pystr list \<Rightarrow> (hostkeys, unit) prog" where
  "load_keys lib hmac [] = ret ()"
| "load_keys lib hmac (l # ls) = seqp (load_line lib hmac l) (\<lambda>_. load_keys lib hmac ls)"

text \<open>What \<open>save\<close> writes.\<close>

definition save_keys :: "key_lib \<Rightarrow> hostkeys \<Rightarrow> pystr res" where
  "save_keys lib st =
     bind_res (map_res (\<lambda>i. to_line lib (entry_at st i)) (hk_ids st)) (\<lambda>ls.
     Inr (concat (map (\<lambda>l. case l of None \<Rightarrow> [] | Some x \<Rightarrow> x) ls)))"

end
