(* ===== verification/Key_Files.thy ===== *)
theory Key_Files
  imports Key_Types
begin

text \<open>
  Private key files: the tags, the old PEM form and the OpenSSH form of \<open>paramiko/pkey.py\<close>, and what the
  three key classes make of the contents. Text is ASCII with line feeds kept at the end of the lines.
\<close>

section \<open>The padding of the OpenSSH form\<close>

text \<open>\<open>data[i - n]\<close> counts from the end; an index before the start raises.\<close>

definition unpad_openssh :: "bytes \<Rightarrow> bytes res" where
  "unpad_openssh data =
     bind_res (py_index data (-1)) (\<lambda>last.
     let n = byte_ord last
     in if 0x20 \<le> n \<and> n < 0x7F then Inr data
        else if 15 < n then Inl (SSHException ''Invalid key'')
        else
          bind_res (map_res (\<lambda>i.
              bind_res (py_index data (i - n)) (\<lambda>b.
              if byte_ord b \<noteq> i + 1 then Inl (SSHException ''Invalid key'') else Inr ())) [0 .. n - 1]) (\<lambda>_.
          Inr (slice_to data (- n))))"

section \<open>C structures\<close>

datatype cval = CStr bytes | CInt int

text \<open>\<open>_uint32_cstruct_unpack\<close>: every failure is reported as an \<open>SSHException\<close>. Strings may be cut short.\<close>

definition c_size :: "bytes \<Rightarrow> int res" where
  "c_size data = (case unpack_I (take 4 data) of Inl e \<Rightarrow> Inl (SSHException ''unpack'') | Inr n \<Rightarrow> Inr n)"

fun cstruct_unpack :: "string \<Rightarrow> bytes \<Rightarrow> cval list res" where
  "cstruct_unpack [] data = Inr []"
| "cstruct_unpack (f # fs) data =
     (if f = CHR ''s'' then
        bind_res (c_size data) (\<lambda>n.
        bind_res (cstruct_unpack fs (drop (4 + nat n) data)) (\<lambda>r. Inr (CStr (take (nat n) (drop 4 data)) # r)))
      else if f = CHR ''i'' then
        bind_res (c_size data) (\<lambda>n.
        bind_res (cstruct_unpack fs (drop (4 + nat n) data)) (\<lambda>r. Inr (CInt (inflate_long (take (nat n) (drop 4 data)) True) # r)))
      else if f = CHR ''u'' then
        bind_res (c_size data) (\<lambda>n. bind_res (cstruct_unpack fs (drop 4 data)) (\<lambda>r. Inr (CInt n # r)))
      else if f = CHR ''r'' then Inr [CStr data]
      else cstruct_unpack fs data)"

section \<open>Tags\<close>

text \<open>\<open>BEGIN_TAG\<close> and \<open>END_TAG\<close>: the kind of key, when the line is a tag.\<close>

definition tag_kinds :: "pystr list" where
  "tag_kinds = map lit [''RSA'', ''EC'', ''OPENSSH'']"

definition tag_text :: "string \<Rightarrow> pystr \<Rightarrow> pystr" where
  "tag_text word kind = lit ''-----'' @ lit word @ lit '' '' @ kind @ lit '' PRIVATE KEY-----''"

definition match_tag :: "string \<Rightarrow> pystr \<Rightarrow> pystr option" where
  "match_tag word line =
     find (\<lambda>kind. starts_with (tag_text word kind) line \<and> list_all is_blank (drop (length (tag_text word kind)) line)) tag_kinds"

text \<open>The loop over the lines from \<open>i\<close> on: it stops at the first match, or at the last line.\<close>

function scan_tag :: "string \<Rightarrow> pystr list \<Rightarrow> nat \<Rightarrow> nat \<times> pystr option" where
  "scan_tag word lines i =
     (case match_tag word (lines ! i) of
        Some kind \<Rightarrow> (i, Some kind)
      | None \<Rightarrow> if i + 1 < length lines then scan_tag word lines (i + 1) else (i, None))"
  by pat_completeness auto
termination by (relation "measure (\<lambda>(w, ls, i). length ls - i)") auto

declare scan_tag.simps [simp del]

section \<open>PEM\<close>

text \<open>\<open>str.split(': ')\<close> and \<open>str.lower\<close>.\<close>

fun split_sub :: "pystr \<Rightarrow> nat \<Rightarrow> pystr \<Rightarrow> pystr \<Rightarrow> pystr list" where
  "split_sub sep 0 w s = [w @ s]"
| "split_sub sep (Suc fuel) w s =
     (if s = [] then [w]
      else if starts_with sep s then w # split_sub sep fuel [] (drop (length sep) s)
      else split_sub sep fuel (w @ [hd s]) (tl s))"

definition split_str :: "pystr \<Rightarrow> pystr \<Rightarrow> pystr list" where
  "split_str sep s = split_sub sep (Suc (length s)) [] s"

definition to_lower :: "pystr \<Rightarrow> pystr" where
  "to_lower = map (\<lambda>c. if 65 \<le> c \<and> c \<le> 90 then c + 32 else c)"

text \<open>The header lines from the second line of the file on, and the number of the line after them.\<close>

fun pem_headers :: "pystr list \<Rightarrow> nat \<Rightarrow> (pystr \<times> pystr) list \<times> nat" where
  "pem_headers [] n = ([], n)"
| "pem_headers (l # ls) n =
     (let parts = split_str (lit '': '') l
      in if length parts = 1 then ([], n)
         else (let (hs, n') = pem_headers ls (n + 1) in ((to_lower (parts ! 0), py_strip (parts ! 1)) # hs, n')))"

text \<open>A header given twice counts as it is given last.\<close>

definition header_value :: "pystr \<Rightarrow> (pystr \<times> pystr) list \<Rightarrow> pystr option" where
  "header_value nm hs = map_of (rev hs) nm"

definition decode_lines :: "pystr list \<Rightarrow> bytes res" where
  "decode_lines ls =
     bind_res (utf8_encode (concat ls)) (\<lambda>b.
     case decodebytes b of Inl e \<Rightarrow> Inl (SSHException ''base64 decoding error'') | Inr d \<Rightarrow> Inr d)"

text \<open>\<open>_CIPHER_TABLE\<close>: key size and block size.\<close>

definition pem_ciphers :: "(pystr \<times> int \<times> int) list" where
  "pem_ciphers = [(lit ''AES-128-CBC'', 16, 16), (lit ''AES-256-CBC'', 32, 16), (lit ''DES-EDE3-CBC'', 24, 8)]"

definition hex_value :: "byte \<Rightarrow> nat option" where
  "hex_value c =
     (let n = unat c
      in if 48 \<le> n \<and> n \<le> 57 then Some (n - 48) else if 65 \<le> n \<and> n \<le> 70 then Some (n - 55)
         else if 97 \<le> n \<and> n \<le> 102 then Some (n - 87) else None)"

fun unhexlify :: "bytes \<Rightarrow> bytes res" where
  "unhexlify [] = Inr []"
| "unhexlify [a] = Inl BinasciiError"
| "unhexlify (a # b # r) =
     (case (hex_value a, hex_value b) of
        (Some x, Some y) \<Rightarrow> bind_res (unhexlify r) (\<lambda>t. Inr (of_nat (x * 16 + y) # t))
      | _ \<Rightarrow> Inl BinasciiError)"

text \<open>The encrypted form; deriving the key ends unless the digest is empty.\<close>

definition pem_decrypt :: "key_lib \<Rightarrow> (pystr \<times> pystr) list \<Rightarrow> pystr option \<Rightarrow> bytes \<Rightarrow> bytes outcome" where
  "pem_decrypt lib hs password data =
     bind_out (out_of (case map_option (split_on comma) (header_value (lit ''dek-info'') hs) of
         Some [t, salt] \<Rightarrow> Inr (t, salt)
       | _ \<Rightarrow> Inl (SSHException ''Can't parse DEK-info in private key file''))) (\<lambda>(encryption_type, saltstr).
     bind_out (out_of (case map_of pem_ciphers encryption_type of
         None \<Rightarrow> Inl (SSHException ''Unknown private key cipher'')
       | Some c \<Rightarrow> Inr c)) (\<lambda>(keysize, blocksize).
     bind_out (out_of (case password of None \<Rightarrow> Inl PasswordRequired | Some p \<Rightarrow> Inr p)) (\<lambda>pw.
     bind_out (out_of (bind_res (utf8_encode saltstr) unhexlify)) (\<lambda>salt.
     bind_out (out_of (utf8_encode pw)) (\<lambda>pw.
     bind_out (case generate_key_bytes (md5_digest lib) salt pw keysize of None \<Rightarrow> Blocked | Some k \<Rightarrow> Ret k) (\<lambda>key.
     bind_out (out_of (decrypt lib encryption_type key salt data)) (\<lambda>d.
     out_of (case pkcs7_unpad lib (blocksize * 8) d of
       Inl e \<Rightarrow> Inl (if e = ValueError then SSHException ''Bad password or corrupt private key file'' else e)
     | Inr x \<Rightarrow> Inr x))))))))"

text \<open>The data begin after the headers that follow the file's first line, wherever the tag was.\<close>

definition read_private_key_pem :: "key_lib \<Rightarrow> pystr list \<Rightarrow> nat \<Rightarrow> pystr option \<Rightarrow> bytes outcome" where
  "read_private_key_pem lib lines stop password =
     (let (hs, start) = pem_headers (drop 1 lines) 1
      in bind_out (out_of (decode_lines (drop start (take stop lines)))) (\<lambda>data.
         case header_value (lit ''proc-type'') hs of
           None \<Rightarrow> Ret data
         | Some proc_type \<Rightarrow>
             if proc_type \<noteq> lit ''4,ENCRYPTED'' then Exn (SSHException ''Unknown private key structure'')
             else pem_decrypt lib hs password data))"

section \<open>The OpenSSH form\<close>

definition OPENSSH_AUTH_MAGIC :: bytes where
  "OPENSSH_AUTH_MAGIC = ascii ''openssh-key-v1'' @ [0]"

text \<open>The decryption of the private part.\<close>

definition openssh_decrypt :: "key_lib \<Rightarrow> bytes \<Rightarrow> bytes \<Rightarrow> bytes \<Rightarrow> bytes \<Rightarrow> pystr option \<Rightarrow> bytes res" where
  "openssh_decrypt lib cipher kdfname kdf_options blob password =
     (if kdfname = ascii ''bcrypt'' then
        if cipher \<noteq> ascii ''aes256-cbc'' \<and> cipher \<noteq> ascii ''aes256-ctr'' then
          bind_res (utf8_decode cipher) (\<lambda>_. Inl (SSHException ''unknown cipher used in private key file''))
        else
          (case password of
             None \<Rightarrow> Inl PasswordRequired
           | Some pw \<Rightarrow>
               bind_res (cstruct_unpack ''su'' kdf_options) (\<lambda>cs.
               case cs of
                 [CStr salt, CInt rounds] \<Rightarrow>
                   bind_res (utf8_encode pw) (\<lambda>pw.
                   bind_res (bcrypt_kdf lib pw salt 48 rounds) (\<lambda>key_iv.
                   bind_res (utf8_decode cipher) (\<lambda>nm.
                   decrypt lib nm (take 32 key_iv) (drop 32 key_iv) blob)))
               | _ \<Rightarrow> Inl ValueError))
      else if cipher = ascii ''none'' \<and> kdfname = ascii ''none'' then Inr blob
      else Inl (SSHException ''unknown cipher or kdf used in private key file''))"

definition openssh_payload :: "bytes \<Rightarrow> bytes res" where
  "openssh_payload decrypted =
     bind_res (cstruct_unpack ''uusr'' decrypted) (\<lambda>cs.
     case cs of
       [CInt checkint1, CInt checkint2, CStr keytype, CStr keydata] \<Rightarrow>
         if checkint1 \<noteq> checkint2 then Inl (SSHException ''OpenSSH private key file checkints do not match'')
         else unpad_openssh keydata
     | _ \<Rightarrow> Inl ValueError)"

definition read_private_key_openssh :: "key_lib \<Rightarrow> pystr list \<Rightarrow> pystr option \<Rightarrow> bytes res" where
  "read_private_key_openssh lib lines password =
     bind_res (decode_lines lines) (\<lambda>data.
     if take 15 data \<noteq> OPENSSH_AUTH_MAGIC then Inl (SSHException ''unexpected OpenSSH key header encountered'')
     else
       bind_res (cstruct_unpack ''sssur'' (drop 15 data)) (\<lambda>cs.
       case cs of
         [CStr cipher, CStr kdfname, CStr kdf_options, CInt num_pubkeys, CStr remainder] \<Rightarrow>
           if 1 < num_pubkeys then Inl (SSHException ''unsupported: private keyfile has multiple keys'')
           else
             bind_res (cstruct_unpack ''ss'' remainder) (\<lambda>ks.
             case ks of
               [CStr pubkey, CStr privkey_blob] \<Rightarrow>
                 bind_res (openssh_decrypt lib cipher kdfname kdf_options privkey_blob password) openssh_payload
             | _ \<Rightarrow> Inl ValueError)
       | _ \<Rightarrow> Inl ValueError))"

section \<open>A key file\<close>

datatype key_format = Original | OpenSSH

definition read_private_key :: "key_lib \<Rightarrow> pystr \<Rightarrow> pystr list \<Rightarrow> pystr option \<Rightarrow> (key_format \<times> bytes) outcome" where
  "read_private_key lib tag lines password =
     (if lines = [] then Exn (SSHException ''no lines in private key file'')
      else
        (let (i, keytype) = scan_tag ''BEGIN'' lines 0; start = i + 1
         in case keytype of
              None \<Rightarrow> Exn (SSHException ''not a valid private key file'')
            | Some kind \<Rightarrow>
                if length lines \<le> start then Exn (SSHException ''not a valid private key file'')
                else
                  (let (stop, m) = scan_tag ''END'' lines start
                   in if kind = tag then
                        bind_out (read_private_key_pem lib lines stop password) (\<lambda>d. Ret (Original, d))
                      else if kind = lit ''OPENSSH'' then
                        bind_out (out_of (read_private_key_openssh lib (drop start (take stop lines)) password)) (\<lambda>d. Ret (OpenSSH, d))
                      else Exn (SSHException ''encountered another kind of key''))))"

section \<open>The key classes\<close>

text \<open>Errors of the DER parser that are turned into an \<open>SSHException\<close>.\<close>

definition der_key :: "key_lib \<Rightarrow> py_error list \<Rightarrow> bytes \<Rightarrow> material res" where
  "der_key lib caught data =
     (case load_der lib data of
        Inl e \<Rightarrow> Inl (if e \<in> set caught then SSHException ''load_der_private_key'' else e)
      | Inr k \<Rightarrow> Inr k)"

definition py_mod_res :: "int \<Rightarrow> int \<Rightarrow> int res" where
  "py_mod_res a b = (if b = 0 then Inl ZeroDivisionError else Inr (a mod b))"

definition rsa_decode_key :: "key_lib \<Rightarrow> key_format \<times> bytes \<Rightarrow> material res" where
  "rsa_decode_key lib fd =
     (case fd of
        (Original, data) \<Rightarrow>
          bind_res (der_key lib [ValueError, TypeError] data) (\<lambda>k.
          case k of RsaMat e n (Some h) \<Rightarrow> Inr k | _ \<Rightarrow> Inl AssertionError)
      | (OpenSSH, data) \<Rightarrow>
          bind_res (cstruct_unpack ''iiiiii'' data) (\<lambda>cs.
          case cs of
            [CInt n, CInt e, CInt d, CInt iqmp, CInt p, CInt q] \<Rightarrow>
              bind_res (py_mod_res d (p - 1)) (\<lambda>dmp1.
              bind_res (py_mod_res d (q - 1)) (\<lambda>dmq1.
              bind_res (rsa_private lib [p, q, d, dmp1, dmq1, iqmp, e, n]) (\<lambda>h. Inr (RsaMat e n (Some h)))))
          | _ \<Rightarrow> Inl ValueError))"

text \<open>A key of another kind has no curve to look at; a curve that is not in the table is none.\<close>

definition known_curve :: "pystr option \<Rightarrow> pystr option" where
  "known_curve c = (case c of None \<Rightarrow> None | Some nist \<Rightarrow> if nist \<in> set (map fst ecdsa_curves) then Some nist else None)"

definition ecdsa_decode_key :: "key_lib \<Rightarrow> key_format \<times> bytes \<Rightarrow> material res" where
  "ecdsa_decode_key lib fd =
     (case fd of
        (Original, data) \<Rightarrow>
          bind_res (der_key lib [ValueError, AssertionError, TypeError] data) (\<lambda>k.
          case k of EcMat c x y h \<Rightarrow> Inr (EcMat (known_curve c) x y h) | _ \<Rightarrow> Inl AttributeError)
      | (OpenSSH, data) \<Rightarrow>
          (case bind_res (get_text (message_of data)) (\<lambda>(curve_name, m).
              let (verkey, m) = get_binary m; (sigkey, m) = get_mpint m
              in case curve_of_identifier (ecdsa_prefix @ curve_name) of
                   None \<Rightarrow> Inl (SSHException ''Invalid key curve identifier'')
                 | Some nist \<Rightarrow> bind_res (ec_private lib nist sigkey) (\<lambda>(x, y, h). Inr (EcMat (Some nist) x y (Some h)))) of
             Inl e \<Rightarrow> Inl (SSHException ''invalid key'')
           | Inr k \<Rightarrow> Inr k))"

text \<open>\<open>_parse_signing_key_data\<close>: first the public keys, then the private ones.\<close>

fun ed_public_keys :: "nat \<Rightarrow> message \<Rightarrow> (bytes list \<times> message) res" where
  "ed_public_keys 0 m = Inr ([], m)"
| "ed_public_keys (Suc n) m =
     (let (b, m) = get_binary m
      in bind_res (get_text (message_of b)) (\<lambda>(nm, pubkey).
         if nm \<noteq> ssh_ed25519 then Inl (SSHException ''Invalid key'')
         else bind_res (ed_public_keys n m) (\<lambda>(ks, m). Inr (fst (get_binary pubkey) # ks, m))))"

fun ed_signing_keys :: "key_lib \<Rightarrow> bytes list \<Rightarrow> message \<Rightarrow> bytes list res" where
  "ed_signing_keys lib [] m = Inr []"
| "ed_signing_keys lib (pk # pks) m =
     bind_res (get_text m) (\<lambda>(nm, m).
     if nm \<noteq> ssh_ed25519 then Inl (SSHException ''Invalid key'')
     else
       (let (public, m) = get_binary m; (key_data, m) = get_binary m
        in bind_res (nacl_key (take 32 key_data)) (\<lambda>seed.
           if ed_public lib seed \<noteq> public \<or> public \<noteq> pk \<or> pk \<noteq> drop 32 key_data then Inl AssertionError
           else bind_res (ed_signing_keys lib pks (snd (get_binary m))) (\<lambda>ks. Inr (seed # ks)))))"

text \<open>What the private part is decrypted with; \<open>None\<close> for no cipher.\<close>

definition ed_private_data :: "key_lib \<Rightarrow> pystr \<Rightarrow> bytes \<Rightarrow> pystr \<Rightarrow> bytes \<Rightarrow> bytes res" where
  "ed_private_data lib ciphername kdfoptions password ciphertext =
     (if ciphername = lit ''none'' then Inr ciphertext
      else
        (case map_of cipher_table ciphername of
           None \<Rightarrow> Inl (SSHException ''Invalid key'')
         | Some ci \<Rightarrow>
             (let (salt, m) = get_binary (message_of kdfoptions); (rounds, m) = get_int m
              in bind_res (utf8_encode password) (\<lambda>pw.
                 bind_res (bcrypt_kdf lib pw salt (ci_key_size ci + ci_block_size ci) rounds) (\<lambda>key.
                 decrypt lib ciphername (slice_to key (ci_key_size ci)) (slice_from key (ci_key_size ci)) ciphertext)))))"

definition ed_check_header :: "pystr \<Rightarrow> pystr \<Rightarrow> bytes \<Rightarrow> pystr option \<Rightarrow> unit res" where
  "ed_check_header ciphername kdfname kdfoptions password =
     (if kdfname = lit ''none'' then
        (if kdfoptions \<noteq> [] \<or> ciphername \<noteq> lit ''none'' then Inl (SSHException ''Invalid key'') else Inr ())
      else if kdfname = lit ''bcrypt'' then
        (if password = None \<or> password = Some [] then Inl PasswordRequired
         else if ciphername \<noteq> lit ''none'' \<and> ciphername \<notin> set (map fst cipher_table) then Inl (SSHException ''Invalid key'')
         else Inr ())
      else Inl (SSHException ''Invalid key''))"

definition ed_parse_signing_key :: "key_lib \<Rightarrow> bytes \<Rightarrow> pystr option \<Rightarrow> bytes res" where
  "ed_parse_signing_key lib data password =
     (let (magic, m) = get_bytes (message_of data) 15
      in if magic \<noteq> OPENSSH_AUTH_MAGIC then Inl (SSHException ''Invalid key'')
         else
           bind_res (get_text m) (\<lambda>(ciphername, m).
           bind_res (get_text m) (\<lambda>(kdfname, m).
           let (kdfoptions, m) = get_binary m; (num_keys, m) = get_int m
           in bind_res (ed_check_header ciphername kdfname kdfoptions password) (\<lambda>_.
              bind_res (ed_public_keys (nat num_keys) m) (\<lambda>(public_keys, m).
              bind_res (ed_private_data lib ciphername kdfoptions (case password of None \<Rightarrow> [] | Some p \<Rightarrow> p) (fst (get_binary m))) (\<lambda>private_data.
              bind_res (unpad_openssh private_data) (\<lambda>payload.
              let (a, m) = get_int (message_of payload); (b, m) = get_int m
              in if a \<noteq> b then Inl (SSHException ''Invalid key'')
                 else
                   bind_res (ed_signing_keys lib public_keys m) (\<lambda>ks.
                   case ks of [seed] \<Rightarrow> Inr seed | _ \<Rightarrow> Inl (SSHException ''Invalid key'')))))))))"

definition rsa_from_file :: "key_lib \<Rightarrow> pystr list \<Rightarrow> pystr option \<Rightarrow> pkey outcome" where
  "rsa_from_file lib lines password =
     bind_out (read_private_key lib (lit ''RSA'') lines password) (\<lambda>fd.
     bind_out (out_of (rsa_decode_key lib fd)) (\<lambda>k. Ret \<lparr>mat = k, pub_blob = None\<rparr>))"

definition ecdsa_from_file :: "key_lib \<Rightarrow> pystr list \<Rightarrow> pystr option \<Rightarrow> pkey outcome" where
  "ecdsa_from_file lib lines password =
     bind_out (read_private_key lib (lit ''EC'') lines password) (\<lambda>fd.
     bind_out (out_of (ecdsa_decode_key lib fd)) (\<lambda>k. Ret \<lparr>mat = k, pub_blob = None\<rparr>))"

text \<open>The reader gets no password here: the file's own tag makes it take the old form.\<close>

definition ed25519_from_file :: "key_lib \<Rightarrow> pystr list \<Rightarrow> pystr option \<Rightarrow> pkey outcome" where
  "ed25519_from_file lib lines password =
     bind_out (read_private_key lib (lit ''OPENSSH'') lines None) (\<lambda>(f, data).
     bind_out (out_of (ed_parse_signing_key lib data password)) (\<lambda>seed. Ret \<lparr>mat = EdMat None (Some seed), pub_blob = None\<rparr>))"

text \<open>The pair of paths of \<open>from_path\<close>.\<close>

definition cert_file_suffix :: pystr where "cert_file_suffix = lit ''-cert.pub''"

definition key_and_cert_paths :: "pystr \<Rightarrow> pystr \<times> pystr" where
  "key_and_cert_paths path =
     (if ends_with cert_file_suffix path then (take (length path - length cert_file_suffix) path, path)
      else (path, path @ cert_file_suffix))"

end
