(* ===== verification/Key_Props.thy ===== *)
theory Key_Props
  imports Key_Files Auth_Props
begin

text \<open>
  Key objects and their wire form: what a key writes is read back as its public part, and what it signs
  is verified by what was read back. The laws of the cryptography libraries are hypotheses.
\<close>

section \<open>Names\<close>

definition rsa_cert :: pystr where "rsa_cert = ssh_rsa @ cert_suffix"

lemma name_facts:
  "ssh_rsa \<in> set rsa_identifiers" "ssh_ed25519 \<notin> set rsa_identifiers"
  "list_all (\<lambda>n. key_format_identifier n \<notin> set rsa_identifiers \<and> key_format_identifier n \<noteq> ssh_ed25519 \<and>
     key_format_identifier n \<in> set key_format_identifier_list \<and> curve_of_identifier (key_format_identifier n) = Some n \<and>
     strip_cert (key_format_identifier n) = key_format_identifier n) (map fst ecdsa_curves)"
  by code_simp+

lemma curve_facts:
  assumes "curve_length nist = Inr bits"
  shows "key_format_identifier nist \<notin> set rsa_identifiers" "key_format_identifier nist \<noteq> ssh_ed25519"
    "key_format_identifier nist \<in> set key_format_identifier_list" "curve_of_identifier (key_format_identifier nist) = Some nist"
    "strip_cert (key_format_identifier nist) = key_format_identifier nist"
proof -
  from assms have "nist \<in> set (map fst ecdsa_curves)"
    by (force simp: curve_length_def split: option.splits dest!: map_of_SomeD)
  with name_facts(3) show "key_format_identifier nist \<notin> set rsa_identifiers" "key_format_identifier nist \<noteq> ssh_ed25519"
    "key_format_identifier nist \<in> set key_format_identifier_list" "curve_of_identifier (key_format_identifier nist) = Some nist"
    "strip_cert (key_format_identifier nist) = key_format_identifier nist"
    by (auto simp only: list_all_iff)
qed

section \<open>Reading what was written\<close>

lemma composed_reads:
  assumes "composed fs = Inr b"
  shows "reads b fs [] (message_of b)"
proof -
  from assms(1) obtain m where m: "add_seq add_field new_message fs = Inr m" "b = msg_asbytes m"
    by (auto simp: composed_def compose_def bind_res_eq_Inr)
  from reads_composed [OF m(1), of "[]"] show ?thesis using m(2) by simp
qed

lemma get_bytes_packet: "packet (snd (get_bytes m n)) = packet m"
  by (simp add: get_bytes_def bio_read_def split_beta Let_def)

lemma get_text_rewind: "get_text m = Inr (t, m') \<Longrightarrow> rewind m' = rewind m"
  using get_bytes_packet [of m 4] get_bytes_packet [of "snd (get_int m)" "fst (get_int m)"]
  by (auto simp: get_text_def get_string_def get_int_def split_beta bind_res_eq_Inr rewind_def)

lemma rewind_message_of [simp]: "rewind (message_of b) = message_of b"
  by (simp add: rewind_def message_of_def)

text \<open>The public part of a key, which is what the wire form determines.\<close>

fun public_part :: "key_lib \<Rightarrow> material \<Rightarrow> material" where
  "public_part lib (RsaMat e n p) = RsaMat e n None"
| "public_part lib (EcMat c x y p) = EcMat c x y None"
| "public_part lib (EdMat v s) = EdMat (ed_verifying lib v s) None"

text \<open>The library takes the numbers of the key: it accepts the RSA numbers, decodes the point, and has an Ed25519 key of the right size.\<close>

fun lib_takes :: "key_lib \<Rightarrow> material \<Rightarrow> bool" where
  "lib_takes lib (RsaMat e n p) = (rsa_public lib e n = Inr ())"
| "lib_takes lib (EcMat c x y p) =
     (case c of
        None \<Rightarrow> False
      | Some nist \<Rightarrow>
          (case curve_length nist of Inl er \<Rightarrow> False | Inr bits \<Rightarrow> ec_decode lib nist (point_str bits x y) = Some (x, y)))"
| "lib_takes lib (EdMat v s) = (case ed_verifying lib v s of None \<Rightarrow> False | Some b \<Rightarrow> length b = 32)"

lemma key_asbytes_composed: "key_asbytes lib k = bind_res (mat_fields lib (mat k)) composed"
  by (simp add: key_asbytes_def composed_def [abs_def])

lemma plain_type_loads:
  "get_text (message_of b) = Inr (t, m) \<Longrightarrow> t \<in> set kts \<Longrightarrow> check_type_and_load_cert nm (Some (message_of b)) kts cts = Inr (None, m)"
  by (simp add: check_type_and_load_cert_def)

lemma rsa_blob_read:
  assumes "composed [FText ssh_rsa, FMpint e, FMpint n] = Inr b" and "rsa_public lib e n = Inr ()"
  shows "rsa_from_message lib (Some (message_of b)) = Inr \<lparr>mat = RsaMat e n None, pub_blob = None\<rparr>"
proof -
  have "reads b [FText ssh_rsa, FMpint e, FMpint n] [] (message_of b)" by (rule composed_reads [OF assms(1)])
  from reads_text [OF this] obtain m1 where m1: "get_text (message_of b) = Inr (ssh_rsa, m1)" "reads b [FMpint e, FMpint n] [] m1" by blast
  from reads_mpint [OF m1(2)] obtain m2 where m2: "get_mpint m1 = (e, m2)" "reads b [FMpint n] [] m2" by blast
  from reads_mpint [OF m2(2)] obtain m3 where m3: "get_mpint m2 = (n, m3)" by blast
  have "check_type_and_load_cert ssh_rsa (Some (message_of b)) [ssh_rsa] [ssh_rsa @ cert_suffix] = Inr (None, m1)"
    by (rule plain_type_loads [OF m1(1)]) simp
  then show ?thesis using m2 m3 assms(2) by (simp add: rsa_from_message_def)
qed

lemma ed_blob_read:
  assumes "composed [FText ssh_ed25519, FString v] = Inr b" and "length v = 32"
  shows "ed25519_from_message (Some (message_of b)) = Inr \<lparr>mat = EdMat (Some v) None, pub_blob = None\<rparr>"
proof -
  have "reads b [FText ssh_ed25519, FString v] [] (message_of b)" by (rule composed_reads [OF assms(1)])
  from reads_text [OF this] obtain m1 where m1: "get_text (message_of b) = Inr (ssh_ed25519, m1)" "reads b [FString v] [] m1" by blast
  from reads_binary [OF m1(2)] obtain m2 where m2: "get_binary m1 = (v, m2)" by blast
  have "check_type_and_load_cert ssh_ed25519 (Some (message_of b)) [ssh_ed25519] [ssh_ed25519 @ cert_suffix] = Inr (None, m1)"
    by (rule plain_type_loads [OF m1(1)]) simp
  then show ?thesis using m2 assms(2) by (simp add: ed25519_from_message_def nacl_key_def)
qed

lemma ec_blob_read:
  assumes "composed [FText (key_format_identifier nist), FText nist, FString pt] = Inr b" and "curve_length nist = Inr bits"
    and "ec_decode lib nist pt = Some (x, y)"
  shows "ecdsa_from_message lib (Some (message_of b)) = Inr \<lparr>mat = EcMat (Some nist) x y None, pub_blob = None\<rparr>"
proof -
  let ?id = "key_format_identifier nist"
  have "reads b [FText ?id, FText nist, FString pt] [] (message_of b)" by (rule composed_reads [OF assms(1)])
  from reads_text [OF this] obtain m1 where m1: "get_text (message_of b) = Inr (?id, m1)" "reads b [FText nist, FString pt] [] m1" by blast
  from reads_text [OF m1(2)] obtain m2 where m2: "get_text m1 = Inr (nist, m2)" "reads b [FString pt] [] m2" by blast
  from reads_binary [OF m2(2)] obtain m3 where m3: "get_binary m2 = (pt, m3)" by blast
  have "check_type_and_load_cert ?id (Some m1) key_format_identifier_list (map (\<lambda>x. x @ cert_suffix) key_format_identifier_list) = Inr (None, m1)"
    using m1(1) curve_facts(3) [OF assms(2)] get_text_rewind [OF m1(1)] by (simp add: check_type_and_load_cert_def)
  then show ?thesis
    using m1 m2 m3 assms(3) curve_facts [OF assms(2)] by (simp add: ecdsa_from_message_def Let_def)
qed

lemma blob_read_back:
  assumes "key_asbytes lib k = Inr b" and "get_name k = Inr nm" and "lib_takes lib (mat k)"
  shows "from_type_string lib nm b = Inr \<lparr>mat = public_part lib (mat k), pub_blob = None\<rparr>"
proof (cases "mat k")
  case (RsaMat e n p)
  then have "composed [FText ssh_rsa, FMpint e, FMpint n] = Inr b" "rsa_public lib e n = Inr ()" "nm = ssh_rsa"
    using assms by (simp_all add: key_asbytes_composed get_name_def)
  with rsa_blob_read RsaMat name_facts(1) show ?thesis by (simp add: from_type_string_def)
next
  case (EcMat c x y p)
  then obtain nist bits where n: "c = Some nist" "curve_length nist = Inr bits"
    "composed [FText (key_format_identifier nist), FText nist, FString (point_str bits x y)] = Inr b"
    using assms(1) by (auto simp: key_asbytes_composed bind_res_eq_Inr split: option.splits)
  moreover from this EcMat assms have "ec_decode lib nist (point_str bits x y) = Some (x, y)" "nm = key_format_identifier nist"
    by (simp_all add: get_name_def)
  ultimately show ?thesis using ec_blob_read [OF n(3,2)] EcMat curve_facts [OF n(2)] by (simp add: from_type_string_def)
next
  case (EdMat v s)
  then obtain w where "ed_verifying lib v s = Some w" "length w = 32" using assms(3) by (auto split: option.splits)
  moreover from this EdMat assms have "composed [FText ssh_ed25519, FString w] = Inr b" "nm = ssh_ed25519"
    by (simp_all add: key_asbytes_composed get_name_def)
  ultimately show ?thesis using ed_blob_read EdMat name_facts(2) by (simp add: from_type_string_def)
qed


definition demo_key_lib :: key_lib where
  "demo_key_lib =
     \<lparr>rsa_public = (\<lambda>e n. if 3 \<le> e \<and> e < n then Inr () else Inl ValueError),
      rsa_sign = (\<lambda>h hash d. replicate 4 (of_nat (length d))), rsa_verify = (\<lambda>e n hash sig d. sig = replicate 4 (of_nat (length d))),
      ec_decode = (\<lambda>c p. None), ec_sign = (\<lambda>h hash d. (1, int (length d))),
      ec_verify = (\<lambda>x y hash rs d. Inr (rs = (1, int (length d)))),
      ed_public = (\<lambda>s. s), ed_sign = (\<lambda>s d. take 4 d), ed_verify = (\<lambda>v d sig. Inr (sig = take 4 d)),
      sha256_digest = take 32, md5_digest = take 16, load_der = (\<lambda>d. Inl ValueError),
      rsa_private = (\<lambda>ns. Inl ValueError), ec_private = (\<lambda>c k. Inl ValueError),
      decrypt = (\<lambda>c k iv d. Inr d), pkcs7_unpad = (\<lambda>n d. Inr d), bcrypt_kdf = (\<lambda>pw salt n r. Inl ValueError)\<rparr>"

definition demo_rsa :: pkey where
  "demo_rsa = \<lparr>mat = RsaMat 3 193 (Some [7]), pub_blob = None\<rparr>"


section \<open>Signatures\<close>

text \<open>
  The law of a signature library for the key at hand: what the private half signs the public half
  accepts. RSA signatures are as long as the modulus.
\<close>

fun lib_signs :: "key_lib \<Rightarrow> material \<Rightarrow> bytes \<Rightarrow> bool" where
  "lib_signs lib (RsaMat e n p) d =
     (\<forall>h \<in> set (case p of None \<Rightarrow> [] | Some h \<Rightarrow> [h]). list_all (\<lambda>hash.
        bit_length n \<le> int (length (rsa_sign lib h hash d)) * 8 \<and> rsa_verify lib e n hash (rsa_sign lib h hash d) d) (map snd rsa_hashes))"
| "lib_signs lib (EcMat c x y p) d =
     (\<forall>h \<in> set (case p of None \<Rightarrow> [] | Some h \<Rightarrow> [h]). list_all (\<lambda>hash.
        ec_verify lib x y hash (ec_sign lib h hash d) d = Inr True) (map (snd \<circ> snd) ecdsa_curves))"
| "lib_signs lib (EdMat v s) d =
     (\<forall>seed \<in> set (case s of None \<Rightarrow> [] | Some s \<Rightarrow> [s]). ed_verify lib (ed_public lib seed) d (ed_sign lib seed d) = Inr True)"

text \<open>Taking off the certificate suffix keeps the hash of an RSA algorithm.\<close>

lemma rsa_plain_algorithm:
  assumes "map_of rsa_hashes alg = Some hash"
  shows "map_of rsa_hashes (remove_all cert_suffix alg) = Some hash \<and> hash \<in> set (map snd rsa_hashes)"
proof -
  have "list_all (\<lambda>(a, h). map_of rsa_hashes (remove_all cert_suffix a) = Some h \<and> h \<in> set (map snd rsa_hashes)) rsa_hashes" by code_simp
  with map_of_SomeD [OF assms] show ?thesis by (auto simp only: list_all_iff)
qed

lemma rsa_signature_verified:
  assumes "rsa_sign_data lib (Some h) d alg = Inr sig"
    and "list_all (\<lambda>hash. bit_length n \<le> int (length (rsa_sign lib h hash d)) * 8 \<and> rsa_verify lib e n hash (rsa_sign lib h hash d) d)
      (map snd rsa_hashes)"
  shows "rsa_verify_sig lib e n d (message_of sig) = Inr True"
proof -
  let ?alg = "case alg of None \<Rightarrow> ssh_rsa | Some a \<Rightarrow> a"
  from assms(1) obtain hash where h: "map_of rsa_hashes ?alg = Some hash"
    "composed [FText (remove_all cert_suffix ?alg), FString (rsa_sign lib h hash d)] = Inr sig"
    by (auto simp: rsa_sign_data_def Let_def split: option.splits)
  note p = rsa_plain_algorithm [OF h(1)]
  from assms(2) p have s: "bit_length n \<le> int (length (rsa_sign lib h hash d)) * 8" "rsa_verify lib e n hash (rsa_sign lib h hash d) d"
    by (simp_all only: list_all_iff)
  from reads_text [OF composed_reads [OF h(2)]] obtain m1 where m1: "get_text (message_of sig) = Inr (remove_all cert_suffix ?alg, m1)"
    "reads sig [FString (rsa_sign lib h hash d)] [] m1" by blast
  from reads_binary [OF m1(2)] obtain m2 where m2: "get_binary m1 = (rsa_sign lib h hash d, m2)" by blast
  show ?thesis using m1(1) m2 p s by (simp add: rsa_verify_sig_def Let_def)
qed

lemma sigdecode_encode: "sigencode r s = Inr b \<Longrightarrow> sigdecode b = (r, s)"
proof -
  assume "sigencode r s = Inr b"
  then have "reads b [FMpint r, FMpint s] [] (message_of b)" unfolding sigencode_def by (rule composed_reads)
  from reads_mpint [OF this] obtain m1 where m1: "get_mpint (message_of b) = (r, m1)" "reads b [FMpint s] [] m1" by blast
  from reads_mpint [OF m1(2)] obtain m2 where "get_mpint m1 = (s, m2)" by blast
  with m1 show ?thesis by (simp add: sigdecode_def)
qed

lemma curve_hash_known: "curve_hash nist = Inr h \<Longrightarrow> h \<in> set (map (snd \<circ> snd) ecdsa_curves)"
  by (force simp: curve_hash_def split: option.splits dest!: map_of_SomeD)

lemma ec_signature_verified:
  assumes "ecdsa_sign_data lib c (Some h) d = Inr sig"
    and "list_all (\<lambda>hash. ec_verify lib x y hash (ec_sign lib h hash d) d = Inr True) (map (snd \<circ> snd) ecdsa_curves)"
  shows "ecdsa_verify_sig lib c x y d (message_of sig) = Inr True"
proof -
  obtain nist hash b where n: "c = Some nist" "curve_hash nist = Inr hash"
    "sigencode (fst (ec_sign lib h hash d)) (snd (ec_sign lib h hash d)) = Inr b"
    "composed [FText (key_format_identifier nist), FString b] = Inr sig"
    using assms(1) by (auto simp: ecdsa_sign_data_def bind_res_eq_Inr split_beta split: option.splits)
  have v: "ec_verify lib x y hash (ec_sign lib h hash d) d = Inr True"
    using assms(2) curve_hash_known [OF n(2)] by (simp only: list_all_iff)
  from reads_text [OF composed_reads [OF n(4)]] obtain m1 where m1: "get_text (message_of sig) = Inr (key_format_identifier nist, m1)"
    "reads sig [FString b] [] m1" by blast
  from reads_binary [OF m1(2)] obtain m2 where m2: "get_binary m1 = (b, m2)" by blast
  show ?thesis using m1(1) m2 n(1,2) v sigdecode_encode [OF n(3)] by (simp add: ecdsa_verify_sig_def)
qed

lemma ed_signature_verified:
  assumes "ed_sign_data lib (Some seed) d = Inr sig" and "ed_verify lib v d (ed_sign lib seed d) = Inr True"
  shows "ed_verify_sig lib (Some v) d (message_of sig) = Inr True"
proof -
  have c: "composed [FText ssh_ed25519, FString (ed_sign lib seed d)] = Inr sig" using assms(1) by (simp add: ed_sign_data_def)
  from reads_text [OF composed_reads [OF c]] obtain m1 where m1: "get_text (message_of sig) = Inr (ssh_ed25519, m1)"
    "reads sig [FString (ed_sign lib seed d)] [] m1" by blast
  from reads_binary [OF m1(2)] obtain m2 where m2: "get_binary m1 = (ed_sign lib seed d, m2)" by blast
  show ?thesis using m1(1) m2 assms(2) by (simp add: ed_verify_sig_def)
qed

text \<open>Claim C29. 
  A signature that a private key makes, under any algorithm it signs with, is verified by the key that is
  read from its wire form.
\<close>

theorem signature_verified_by_blob:
  assumes "sign_data_of lib (mat k) d alg = Inr sig" and "lib_signs lib (mat k) d"
    and "key_asbytes lib k = Inr b" and "get_name k = Inr nm" and "lib_takes lib (mat k)"
  shows "\<exists>pub. from_type_string lib nm b = Inr pub \<and> verify_sig_of lib (mat pub) d (message_of sig) = Inr True"
proof -
  have "verify_sig_of lib (public_part lib (mat k)) d (message_of sig) = Inr True"
  proof (cases "mat k")
    case (RsaMat e n p)
    moreover from this assms(1) obtain h where "p = Some h" by (cases p) (auto simp: rsa_sign_data_def)
    ultimately show ?thesis using assms(1,2) rsa_signature_verified by auto
  next
    case (EcMat c x y p)
    moreover from this assms(1) obtain h where "p = Some h" by (cases p) (auto simp: ecdsa_sign_data_def split: option.splits)
    ultimately show ?thesis using assms(1,2) ec_signature_verified by auto
  next
    case (EdMat v s)
    moreover from this assms(1) obtain seed where "s = Some seed" by (cases s) (auto simp: ed_sign_data_def)
    ultimately show ?thesis using assms(1,2) ed_signature_verified by (auto simp: ed_verifying_def)
  qed
  then show ?thesis using blob_read_back [OF assms(3-5)] by simp
qed


theorem signature_verified_by_blob_witness:
  "\<exists>sig b pub. sign_data_of demo_key_lib (mat demo_rsa) [1, 2, 3] (Some (lit ''rsa-sha2-256-cert-v01@openssh.com'')) = Inr sig \<and>
     key_asbytes demo_key_lib demo_rsa = Inr b \<and> from_type_string demo_key_lib ssh_rsa b = Inr pub \<and>
     verify_sig_of demo_key_lib (mat pub) [1, 2, 3] (message_of sig) = Inr True"
proof -
  have g: "sign_data_of demo_key_lib (mat demo_rsa) [1, 2, 3] (Some (lit ''rsa-sha2-256-cert-v01@openssh.com'')) =
      Inr [0, 0, 0, 12, 114, 115, 97, 45, 115, 104, 97, 50, 45, 50, 53, 54, 0, 0, 0, 4, 3, 3, 3, 3]" by code_simp
  have a: "key_asbytes demo_key_lib demo_rsa =
      Inr [0, 0, 0, 7, 115, 115, 104, 45, 114, 115, 97, 0, 0, 0, 1, 3, 0, 0, 0, 2, 0, 193]" by code_simp
  have n: "get_name demo_rsa = Inr ssh_rsa" by code_simp
  have t: "lib_takes demo_key_lib (mat demo_rsa)" by code_simp
  have l: "lib_signs demo_key_lib (mat demo_rsa) [1, 2, 3]" by code_simp
  from signature_verified_by_blob [OF g l a n t] obtain pub where
    pub: "from_type_string demo_key_lib ssh_rsa [0, 0, 0, 7, 115, 115, 104, 45, 114, 115, 97, 0, 0, 0, 1, 3, 0, 0, 0, 2, 0, 193] = Inr pub"
      "verify_sig_of demo_key_lib (mat pub) [1, 2, 3] (message_of [0, 0, 0, 12, 114, 115, 97, 45, 115, 104, 97, 50, 45, 50, 53, 54, 0, 0, 0, 4, 3, 3, 3, 3]) = Inr True"
    by (elim exE conjE)
  show ?thesis by (rule exI, rule exI, rule exI, rule conjI [OF g], rule conjI [OF a], rule conjI [OF pub])
qed

end
