(* ===== verification/Host_Key_Props.thy ===== *)
theory Host_Key_Props
  imports Host_Keys Key_Props
begin

text \<open>
  The table of host keys: lines of the file are read back as they are written, a key is accepted only for
  a host that has it, the table refines a map from host and type to key, and loading files never replaces
  a key that is known.
\<close>

section \<open>Lines\<close>

lemma split_at_clean: "(\<forall>x\<in>set a. \<not> p x) \<Longrightarrow> split_at p a = [a]"
  by (induction a) auto

lemma split_at_cut: "(\<forall>x\<in>set a. \<not> p x) \<Longrightarrow> p s \<Longrightarrow> split_at p (a @ s # r) = a # split_at p r"
  by (induction a) auto

definition clean_name :: "pystr \<Rightarrow> bool" where
  "clean_name n \<longleftrightarrow> n \<noteq> [] \<and> (\<forall>c\<in>set n. \<not> is_blank c \<and> c \<noteq> comma)"

lemma blank_or_tab_blank: "blank_or_tab c \<Longrightarrow> is_blank c"
  by (auto simp: blank_or_tab_def is_blank_def)

lemma set_join_names: "set (join [comma] ns) \<subseteq> insert comma (\<Union> (set ` set ns))"
  by (induction "[comma]" ns rule: join.induct) auto

lemma join_names:
  assumes "ns \<noteq> []" and "\<forall>n\<in>set ns. clean_name n"
  shows "join [comma] ns \<noteq> []" "\<forall>c\<in>set (join [comma] ns). \<not> is_blank c" "split_on comma (join [comma] ns) = ns"
proof -
  show "join [comma] ns \<noteq> []" using assms by (cases ns; cases "tl ns") (auto simp: clean_name_def)
  show "\<forall>c\<in>set (join [comma] ns). \<not> is_blank c"
    using set_join_names [of ns] assms(2) by (fastforce simp: clean_name_def is_blank_def comma_def)
  show "split_on comma (join [comma] ns) = ns"
    using assms by (intro split_on_join) (auto simp: clean_name_def)
qed

lemma py_strip_line:
  assumes "a \<noteq> []" "b \<noteq> []" "\<forall>c\<in>set a. \<not> is_blank c" "\<forall>c\<in>set b. \<not> is_blank c"
  shows "py_strip (a @ x @ b @ [10]) = a @ x @ b"
proof -
  have "\<not> is_blank (hd a)" "\<not> is_blank (last b)" using assms by simp_all
  then have "dropWhile is_blank (a @ x @ b @ [10]) = a @ x @ b @ [10]" using assms(1) by (cases a) simp_all
  moreover have "dropWhile is_blank (10 # rev b @ y) = rev b @ y" for y
    using assms(2) \<open>\<not> is_blank (last b)\<close> by (cases b rule: rev_cases) (simp_all add: is_blank_def)
  ultimately show ?thesis by (simp add: py_strip_def)
qed

text \<open>The base64 text of a key is ASCII without blanks, and decodes to the key's bytes.\<close>

definition b64_text :: "bytes \<Rightarrow> pystr" where
  "b64_text b = map unat (b64_encode b)"

lemma encodebytes_ascii: "\<forall>x\<in>set (encodebytes b). unat x < 128"
proof
  fix x
  assume "x \<in> set (encodebytes b)"
  then have "\<exists>l. x \<in> set (b64_encode l @ [10])" unfolding encodebytes_def set_concat set_map by blast
  then obtain l where "x \<in> set (b64_encode l) \<or> x = 10" by auto
  with b64_encode_plain [of l] show "unat x < 128" by (auto simp: list_all_iff plain_char_def)
qed

lemma filter_map_unat: "filter (\<lambda>c. c \<noteq> 10) (map unat l) = map unat (filter (\<lambda>x :: byte. x \<noteq> 10) l)"
proof -
  have "unat x = 10 \<longleftrightarrow> x = 10" for x :: byte using unat_arith_simps(3) [of x 10] by simp
  then show ?thesis by (simp add: filter_map o_def)
qed

lemma get_base64_text: "key_asbytes lib k = Inr b \<Longrightarrow> get_base64 lib k = Inr (b64_text b)"
  using encodebytes_ascii [of b]
  by (simp add: get_base64_def utf8_decode_ascii filter_map_unat encodebytes_joined b64_text_def)

lemma b64_text_decodes: "utf8_encode (b64_text b) = Inr (b64_encode b)"
proof -
  have "\<forall>c\<in>set (b64_text b). c < 0x80" using b64_encode_plain [of b] by (auto simp: b64_text_def list_all_iff plain_char_def)
  then show ?thesis using utf8_encode_ascii [of "b64_text b"] by (simp add: b64_text_def o_def)
qed

lemma b64_chars_unblank: "list_all (\<lambda>v. \<not> is_blank (unat (b64_char v))) [0..<64]"
  by code_simp

lemma b64_text_unblank: "\<forall>c\<in>set (b64_text b). \<not> is_blank c"
proof -
  have c: "v < 64 \<Longrightarrow> \<not> is_blank (unat (b64_char v))" for v using b64_chars_unblank by (simp add: list_all_iff)
  have p: "\<not> is_blank (unat pad_char)" by code_simp
  show ?thesis unfolding b64_text_def
    by (induction b rule: b64_encode.induct) (simp_all add: c p byte_parts)
qed

lemma b64_text_empty: "b64_text b = [] \<longleftrightarrow> b = []"
  by (cases b rule: b64_encode.cases) (simp_all add: b64_text_def)

lemma name_unblank_all: "list_all (\<lambda>n. list_all (\<lambda>c. \<not> is_blank c) n) (ssh_rsa # ssh_ed25519 # key_format_identifier_list)"
  by code_simp

lemma key_name_unblank:
  assumes "key_asbytes lib k = Inr b" and "get_name k = Inr nm"
  shows "b \<noteq> [] \<and> (\<forall>c\<in>set nm. \<not> is_blank c)"
proof -
  from assms obtain fs where fs: "composed (FText nm # fs) = Inr b" and nm: "nm \<in> set (ssh_rsa # ssh_ed25519 # key_format_identifier_list)"
    by (cases "mat k") (auto simp: key_asbytes_composed get_name_def bind_res_eq_Inr curve_facts split: option.splits)
  from fs obtain m where m: "add_seq add_field new_message (FText nm # fs) = Inr m" "b = msg_asbytes m"
    unfolding composed_def compose_def bind_res_eq_Inr by blast
  from composed_bytes [OF m(1)] m(2) obtain bs where "map_res enc_field (FText nm # fs) = Inr bs" "b = concat bs" by blast
  then have "b \<noteq> []" by (auto simp: bind_res_eq_Inr enc_text_def enc_string_def dest!: pack_I_length)
  with nm name_unblank_all show ?thesis by (auto simp only: list_all_iff)
qed

text \<open>A line of the file is read back as the entry it was written for, with the public part of the key.\<close>

theorem line_roundtrip:
  assumes "to_line lib e = Inr (Some line)" and "h_key e = Some k" and "lib_takes lib (mat k)"
    and "h_names e \<noteq> []" and "\<forall>n\<in>set (h_names e). clean_name n"
  shows "from_line lib (py_strip line) = Inr (Some (new_entry (h_names e) (Some \<lparr>mat = public_part lib (mat k), pub_blob = None\<rparr>)))"
proof -
  from assms(1,2) obtain nm s where n: "get_name k = Inr nm" "get_base64 lib k = Inr s"
    "line = join [comma] (h_names e) @ [32] @ nm @ [32] @ s @ [10]"
    by (auto simp: to_line_def bind_res_eq_Inr split: if_splits)
  from n(2) obtain b where b: "key_asbytes lib k = Inr b" by (auto simp: get_base64_def bind_res_eq_Inr)
  have s: "s = b64_text b" using n(2) get_base64_text [OF b] by simp
  note u = key_name_unblank [OF b n(1)] and j = join_names [OF assms(4,5)] and v = b64_text_unblank [of b]
  let ?l = "join [comma] (h_names e) @ ([32] @ nm @ [32]) @ s"
  have strip: "py_strip line = ?l"
    using py_strip_line [of "join [comma] (h_names e)" s "[32] @ nm @ [32]"] u j v s n(3) b64_text_empty by simp
  have cuts: "split_at blank_or_tab ?l = [join [comma] (h_names e), nm, s]"
    using u j v s blank_or_tab_blank by (simp add: split_at_cut split_at_clean blank_or_tab_def is_blank_def)
  show ?thesis
    unfolding strip using cuts j(3) s b64_text_decodes [of b] decode_encode [of b] blob_read_back [OF b n(1) assms(3)]
    by (simp add: from_line_def)
qed

definition demo_entry :: host_entry where
  "demo_entry = new_entry [lit ''a.org'', lit ''10.0.0.1''] (Some demo_rsa)"

theorem line_roundtrip_witness:
  "to_line demo_key_lib demo_entry = Inr (Some (lit ''a.org,10.0.0.1 ssh-rsa AAAAB3NzaC1yc2EAAAABAwAAAAIAwQ=='' @ [10])) \<and>
   from_line demo_key_lib (lit ''a.org,10.0.0.1 ssh-rsa AAAAB3NzaC1yc2EAAAABAwAAAAIAwQ=='') =
     Inr (Some (new_entry [lit ''a.org'', lit ''10.0.0.1''] (Some \<lparr>mat = RsaMat 3 193 None, pub_blob = None\<rparr>)))"
proof -
  have l: "to_line demo_key_lib demo_entry = Inr (Some (lit ''a.org,10.0.0.1 ssh-rsa AAAAB3NzaC1yc2EAAAABAwAAAAIAwQ=='' @ [10]))" by code_simp
  have k: "h_key demo_entry = Some demo_rsa" by (simp add: demo_entry_def new_entry_def)
  have t: "lib_takes demo_key_lib (mat demo_rsa)" by code_simp
  have n: "h_names demo_entry = [lit ''a.org'', lit ''10.0.0.1'']" by (simp add: demo_entry_def new_entry_def)
  have c: "list_all clean_name [lit ''a.org'', lit ''10.0.0.1'']" by code_simp
  have ne: "h_names demo_entry \<noteq> []" unfolding n by simp
  have cl: "\<forall>n\<in>set (h_names demo_entry). clean_name n" unfolding n using c by (simp only: list_all_iff)
  have s: "py_strip (lit ''a.org,10.0.0.1 ssh-rsa AAAAB3NzaC1yc2EAAAABAwAAAAIAwQ=='' @ [10]) =
      lit ''a.org,10.0.0.1 ssh-rsa AAAAB3NzaC1yc2EAAAABAwAAAAIAwQ==''" by code_simp
  have p: "public_part demo_key_lib (mat demo_rsa) = RsaMat 3 193 None" by (simp add: demo_rsa_def)
  show ?thesis using l line_roundtrip [OF l k t ne cl] unfolding s n p by (rule conjI)
qed

section \<open>What a successful check means\<close>

lemma find_type_first:
  assumes "find_type st ty is = Inr (Some i)"
  shows "\<exists>before after. is = before @ i # after \<and> entry_type st i = Inr ty \<and> (\<forall>j\<in>set before. entry_type st j \<noteq> Inr ty)"
  using assms
proof (induction "is")
  case (Cons j js)
  then obtain t where t: "entry_type st j = Inr t" by (auto simp: bind_res_eq_Inr)
  show ?case
  proof (cases "t = ty")
    case True
    with Cons.prems t show ?thesis by (intro exI [of _ "[]"] exI [of _ js]) simp
  next
    case False
    with Cons.prems t have "find_type st ty js = Inr (Some i)" by simp
    from Cons.IH [OF this] obtain b a where "js = b @ i # a" "entry_type st i = Inr ty" "\<forall>j\<in>set b. entry_type st j \<noteq> Inr ty" by blast
    with False t show ?thesis by (intro exI [of _ "j # b"] exI [of _ a]) simp
  qed
qed simp

lemma matching_ids_set:
  "matching_ids hmac host st is = Inr ms \<Longrightarrow> i \<in> set ms \<Longrightarrow>
     i \<in> set is \<and> hostname_matches hmac host (h_names (entry_at st i)) = Inr True"
  by (induction "is" arbitrary: ms) (auto simp: bind_res_eq_Inr split: if_splits)

lemma or_zero_nat: "or a b = 0 \<longleftrightarrow> a = 0 \<and> b = (0 :: nat)"
proof
  assume "or a b = 0"
  then have "bit a n = False \<and> bit b n = False" for n by (metis bit_or_iff bit_0_eq bot_apply bot_bool_def)
  then show "a = 0 \<and> b = 0" by (simp add: bit_eq_iff)
qed simp

lemma xor_zero_nat: "xor a b = 0 \<longleftrightarrow> a = (b :: nat)"
proof
  assume "xor a b = 0"
  then have "\<forall>n. bit a n = bit b n" by (metis bit_xor_iff bit_0_eq bot_apply bot_bool_def)
  then show "a = b" by (simp add: bit_eq_iff)
qed simp

lemma text_or_zero: "fold (\<lambda>(x :: nat, y) r. or r (xor x y)) ps r = 0 \<longleftrightarrow> r = 0 \<and> (\<forall>(x, y)\<in>set ps. x = y)"
proof (induction ps arbitrary: r)
  case (Cons p ps)
  then show ?case by (cases p) (simp add: or_zero_nat xor_zero_nat case_prod_unfold)
qed simp

lemma constant_time_text_eq: "constant_time_text_eq a b \<longleftrightarrow> a = b"
proof
  assume "constant_time_text_eq a b"
  then have "length a = length b" "\<forall>(x, y)\<in>set (zip a b). x = y" by (simp_all add: constant_time_text_eq_def text_or_zero)
  then show "a = b" by (induction a b rule: list_induct2) auto
qed (auto simp: constant_time_text_eq_def text_or_zero zip_same)

lemma hostname_matches_true:
  "hostname_matches hmac host hs = Inr True \<Longrightarrow>
     host \<in> set hs \<or> (\<exists>h\<in>set hs. starts_with hash_mark h \<and> \<not> starts_with hash_mark host \<and> hash_host hmac [] host (Some h) = Inr h)"
  by (induction hs) (auto simp: bind_res_eq_Inr constant_time_text_eq split: if_splits)

lemma sd_get_Some:
  assumes "sd_get st d ty = Inr (Some k)"
  shows "\<exists>i. find_type st ty (sd_ids d) = Inr (Some i) \<and> h_key (entry_at st i) = Some k"
  using assms by (auto simp: sd_get_def sd_getitem_def bind_res_def split: sum.splits py_error.splits option.splits)

text \<open>Claim C31. 
  A key is accepted for a host only when an entry that names the host, itself or as its hash, holds a
  key of the same type with the same wire form.
\<close>

theorem check_means_known:
  assumes "check_key lib hmac host key st = Inr True"
  shows "\<exists>i\<in>set (hk_ids st). \<exists>k nm b. h_key (entry_at st i) = Some k \<and> get_name k = Inr nm \<and> get_name key = Inr nm \<and>
    key_asbytes lib k = Inr b \<and> key_asbytes lib key = Inr b \<and>
    (host \<in> set (h_names (entry_at st i)) \<or>
     (\<exists>h\<in>set (h_names (entry_at st i)). starts_with hash_mark h \<and> hash_host hmac [] host (Some h) = Inr h))"
proof -
  from assms obtain d nm k b where d: "lookup_host hmac host st = Inr (Some d)" "get_name key = Inr nm" "sd_get st d nm = Inr (Some k)"
    "key_asbytes lib k = Inr b" "key_asbytes lib key = Inr b"
    by (auto simp: check_key_def bind_res_eq_Inr split: option.splits)
  from sd_get_Some [OF d(3)] obtain i where i: "find_type st nm (sd_ids d) = Inr (Some i)" "h_key (entry_at st i) = Some k" by blast
  from find_type_first [OF i(1)] have t: "i \<in> set (sd_ids d)" "entry_type st i = Inr nm" by auto
  from d(1) have "matching_ids hmac host st (hk_ids st) = Inr (sd_ids d)" by (auto simp: lookup_host_def bind_res_eq_Inr split: if_splits)
  from matching_ids_set [OF this t(1)] hostname_matches_true show ?thesis
    using i(2) t(2) d(2,4,5) by (intro bexI [of _ i]) (auto simp: entry_type_def)
qed

definition demo_keys :: hostkeys where
  "demo_keys = append_entry demo_entry no_hostkeys"

theorem check_means_known_witness:
  "check_key demo_key_lib (\<lambda>k d. take 20 (k @ d)) (lit ''a.org'') demo_rsa demo_keys = Inr True \<and>
   (\<exists>i\<in>set (hk_ids demo_keys). \<exists>k. h_key (entry_at demo_keys i) = Some k \<and> key_asbytes demo_key_lib k = key_asbytes demo_key_lib demo_rsa)"
proof -
  have c: "check_key demo_key_lib (\<lambda>k d. take 20 (k @ d)) (lit ''a.org'') demo_rsa demo_keys = Inr True" by code_simp
  from check_means_known [OF c] obtain i k nm b where i: "i \<in> set (hk_ids demo_keys)" "h_key (entry_at demo_keys i) = Some k"
      "key_asbytes demo_key_lib k = Inr b" "key_asbytes demo_key_lib demo_rsa = Inr b"
    by (elim bexE exE conjE) blast
  have e: "key_asbytes demo_key_lib k = key_asbytes demo_key_lib demo_rsa" using i(3,4) by simp
  show ?thesis by (rule conjI [OF c], rule bexI [OF _ i(1)], rule exI, rule conjI [OF i(2) e])
qed

section \<open>The table as a map\<close>

text \<open>
  The abstract table maps a host and a key type to a key. The concrete one has a list of entries; it is
  plain when every entry names one host in clear and holds a key of a known type, which is what \<open>add\<close>
  builds.
\<close>

type_synonym host_map = "pystr \<times> pystr \<Rightarrow> pkey option"

definition holds :: "hostkeys \<Rightarrow> pystr \<times> pystr \<Rightarrow> nat \<Rightarrow> bool" where
  "holds st ht i \<longleftrightarrow> h_names (entry_at st i) = [fst ht] \<and> entry_type st i = Inr (snd ht)"

definition plain_entry :: "hostkeys \<Rightarrow> nat \<Rightarrow> bool" where
  "plain_entry st i \<longleftrightarrow> i < length (hk_heap st) \<and> (\<exists>h t. holds st (h, t) i \<and> \<not> starts_with hash_mark h)"

definition plain_table :: "hostkeys \<Rightarrow> bool" where
  "plain_table st \<longleftrightarrow> list_all (plain_entry st) (hk_ids st)"

definition known_map :: "hostkeys \<Rightarrow> host_map" where
  "known_map st ht = (case find (holds st ht) (hk_ids st) of None \<Rightarrow> None | Some i \<Rightarrow> h_key (entry_at st i))"

lemma plain_at: "plain_table st \<Longrightarrow> i \<in> set (hk_ids st) \<Longrightarrow> plain_entry st i"
  by (simp add: plain_table_def list_all_iff)

lemma holds_unique: "holds st a i \<Longrightarrow> holds st b i \<Longrightarrow> a = b"
  by (cases a; cases b) (simp add: holds_def)

lemma find_named_plain:
  "list_all (plain_entry st) is \<Longrightarrow> find_named st h t is = Inr (find (holds st (h, t)) is)"
  by (induction "is") (auto simp: plain_entry_def holds_def)

lemma find_some: "find P xs = Some x \<Longrightarrow> x \<in> set xs \<and> P x"
  by (induction xs) (auto split: if_splits)

lemma find_same: "(\<And>x. x \<in> set xs \<Longrightarrow> P x = Q x) \<Longrightarrow> find P xs = find Q xs"
  by (induction xs) auto

lemma find_snoc: "find P (xs @ [y]) = (case find P xs of None \<Rightarrow> (if P y then Some y else None) | Some x \<Rightarrow> Some x)"
  by (induction xs) auto

lemma find_filter: "find P (filter Q xs) = find (\<lambda>x. Q x \<and> P x) xs"
  by (induction xs) auto

text \<open>Replacing the key of an entry by one of its type.\<close>

lemma set_key_holds:
  assumes "i < length (hk_heap st)" and "holds st (h, t) i" and "get_name k = Inr t"
  shows "holds (set_key i k st) ht j = holds st ht j"
    "h_key (entry_at (set_key i k st) j) = (if j = i then Some k else h_key (entry_at st j))"
  using assms by (cases "j = i"; auto simp: holds_def set_key_def entry_at_def entry_type_def)+

lemma append_holds:
  assumes "j < length (hk_heap st)"
  shows "holds (append_entry e st) ht j = holds st ht j" "entry_at (append_entry e st) j = entry_at st j"
  using assms by (simp_all add: holds_def append_entry_def entry_at_def entry_type_def nth_append)

lemma append_new:
  "holds (append_entry (new_entry [h] (Some k)) st) ht (length (hk_heap st)) \<longleftrightarrow> fst ht = h \<and> get_name k = Inr (snd ht)"
  "h_key (entry_at (append_entry (new_entry [h] (Some k)) st) (length (hk_heap st))) = Some k"
  by (auto simp: holds_def append_entry_def entry_at_def entry_type_def new_entry_def nth_append)

lemma set_key_ids [simp]: "hk_ids (set_key i k st) = hk_ids st" "length (hk_heap (set_key i k st)) = length (hk_heap st)"
  by (simp_all add: set_key_def)

lemma append_ids [simp]: "hk_ids (append_entry e st) = hk_ids st @ [length (hk_heap st)]"
  "length (hk_heap (append_entry e st)) = Suc (length (hk_heap st))"
  by (simp_all add: append_entry_def)

lemma replaced_refines:
  assumes "plain_table st" and "find (holds st (h, t)) (hk_ids st) = Some i" and "get_name k = Inr t"
  shows "plain_table (set_key i k st) \<and> known_map (set_key i k st) = (known_map st)((h, t) \<mapsto> k)"
proof -
  from find_some [OF assms(2)] have i: "i \<in> set (hk_ids st)" "holds st (h, t) i" by simp_all
  with plain_at [OF assms(1)] have l: "i < length (hk_heap st)" by (simp add: plain_entry_def)
  note s = set_key_holds [OF l i(2) assms(3)]
  have "plain_entry (set_key i k st) = plain_entry st" by (intro ext) (simp add: plain_entry_def s)
  then have p: "plain_table (set_key i k st)" using assms(1) by (simp add: plain_table_def)
  have f: "find (holds (set_key i k st) ht) (hk_ids st) = find (holds st ht) (hk_ids st)" for ht
    by (rule find_same) (rule s(1))
  have "known_map (set_key i k st) ht = ((known_map st)((h, t) \<mapsto> k)) ht" for ht
  proof (cases "ht = (h, t)")
    case True
    then show ?thesis using assms(2) by (simp add: known_map_def f s(2))
  next
    case False
    then have "find (holds st ht) (hk_ids st) \<noteq> Some i" using find_some [of "holds st ht" "hk_ids st" i] holds_unique [OF _ i(2), of ht] by metis
    then show ?thesis using False by (auto simp: known_map_def f s(2) split: option.splits)
  qed
  with p show ?thesis by blast
qed

lemma appended_refines:
  assumes "plain_table st" and "find (holds st (h, t)) (hk_ids st) = None" and "get_name k = Inr t" and "\<not> starts_with hash_mark h"
  shows "plain_table (append_entry (new_entry [h] (Some k)) st) \<and>
    known_map (append_entry (new_entry [h] (Some k)) st) = (known_map st)((h, t) \<mapsto> k)"
proof -
  let ?st = "append_entry (new_entry [h] (Some k)) st" and ?n = "length (hk_heap st)"
  have l: "j < ?n" if "j \<in> set (hk_ids st)" for j using plain_at [OF assms(1) that] by (simp add: plain_entry_def)
  have "plain_entry ?st j" if "j \<in> set (hk_ids st)" for j
    using plain_at [OF assms(1) that] append_holds(1) [OF l [OF that]] by (auto simp: plain_entry_def)
  moreover have "plain_entry ?st ?n" using assms(3,4) append_new(1) [of h k st "(h, t)"] by (auto simp: plain_entry_def)
  ultimately have p: "plain_table ?st" by (simp add: plain_table_def list_all_iff)
  have f: "find (holds ?st ht) (hk_ids st) = find (holds st ht) (hk_ids st)" for ht
    by (rule find_same) (rule append_holds(1) [OF l])
  have "known_map ?st ht = ((known_map st)((h, t) \<mapsto> k)) ht" for ht
  proof (cases "find (holds st ht) (hk_ids st)")
    case None
    then show ?thesis using assms(3) by (cases ht) (auto simp: known_map_def find_snoc f append_new)
  next
    case (Some j)
    with assms(2) have "ht \<noteq> (h, t)" by auto
    with Some find_some [OF Some] l show ?thesis by (simp add: known_map_def find_snoc f append_holds(2))
  qed
  with p show ?thesis by blast
qed

text \<open>Looking a host up and asking for a type.\<close>

lemma matches_plain: "\<not> starts_with hash_mark h \<Longrightarrow> hostname_matches hmac host [h] = Inr (h = host)"
  by simp

lemma matching_plain:
  "list_all (plain_entry st) is \<Longrightarrow>
     matching_ids hmac host st is = Inr (filter (\<lambda>i. h_names (entry_at st i) = [host]) is)"
  by (induction "is") (auto simp: plain_entry_def holds_def)

lemma find_type_plain:
  "list_all (plain_entry st) is \<Longrightarrow> find_type st t is = Inr (find (\<lambda>i. entry_type st i = Inr t) is)"
  by (induction "is") (auto simp: plain_entry_def holds_def)

definition find_key :: "(bytes \<Rightarrow> bytes \<Rightarrow> bytes) \<Rightarrow> hostkeys \<Rightarrow> pystr \<times> pystr \<Rightarrow> pkey option res" where
  "find_key hmac st ht =
     bind_res (lookup_host hmac (fst ht) st) (\<lambda>d. case d of None \<Rightarrow> Inr None | Some d \<Rightarrow> sd_get st d (snd ht))"

lemma plain_filter: "list_all P xs \<Longrightarrow> list_all P (filter Q xs)"
  by (auto simp: list_all_iff)

lemma find_key_plain:
  assumes "plain_table st"
  shows "find_key hmac st ht = Inr (known_map st ht)"
proof -
  let ?is = "filter (\<lambda>i. h_names (entry_at st i) = [fst ht]) (hk_ids st)"
  have pl: "list_all (plain_entry st) (hk_ids st)" using assms by (simp add: plain_table_def)
  have m: "matching_ids hmac (fst ht) st (hk_ids st) = Inr ?is" by (rule matching_plain [OF pl])
  have f: "find_type st (snd ht) ?is = Inr (find (holds st ht) (hk_ids st))"
    by (simp add: find_type_plain [OF plain_filter [OF pl]] find_filter holds_def [abs_def])
  show ?thesis
  proof (cases "find (holds st ht) (hk_ids st)")
    case None
    then show ?thesis using m f by (auto simp: find_key_def lookup_host_def sd_get_def sd_getitem_def known_map_def)
  next
    case (Some i)
    from find_some [OF Some] have i: "i \<in> set ?is" "entry_type st i = Inr (snd ht)" by (auto simp: holds_def)
    then obtain k where "h_key (entry_at st i) = Some k" by (auto simp: entry_type_def split: option.splits)
    with i(1) have "?is \<noteq> []" "h_key (entry_at st i) = Some k" by (metis empty_iff list.set(1), simp)
    then show ?thesis using m f Some by (simp add: find_key_def lookup_host_def sd_get_def sd_getitem_def known_map_def)
  qed
qed

text \<open>Claim C30. Claim C30.
  A plain table, in which every entry has one host name in clear and a key of known type, refines a map
  from host and key type to key: \<open>add\<close> of a key under a name in clear is the update, and looking up is
  application. The table stays plain, so this goes on through any sequence of such additions. (An entry
  for several hosts is not covered: adding a key for one of them replaces the key of all, see
  \<open>add_replaces_other_host\<close>.)
\<close>

theorem host_table_refines:
  assumes "plain_table st" and "get_name k = Inr t" and "\<not> starts_with hash_mark h"
  shows "\<exists>st'. add_key h t k st = (Ret (), st') \<and> plain_table st' \<and>
    known_map st' = (known_map st)((h, t) \<mapsto> k) \<and> (\<forall>ht. find_key hmac st' ht = Inr (((known_map st)((h, t) \<mapsto> k)) ht))"
proof -
  have n: "find_named st h t (hk_ids st) = Inr (find (holds st (h, t)) (hk_ids st))"
    using assms(1) by (intro find_named_plain) (simp add: plain_table_def)
  obtain st' where st': "add_key h t k st = (Ret (), st')" "plain_table st'" "known_map st' = (known_map st)((h, t) \<mapsto> k)"
  proof (cases "find (holds st (h, t)) (hk_ids st)")
    case None
    show ?thesis
      by (rule that [of "append_entry (new_entry [h] (Some k)) st"])
        (use None n appended_refines [OF assms(1) None assms(2,3)] in \<open>simp_all add: add_key_def\<close>)
  next
    case (Some i)
    show ?thesis
      by (rule that [of "set_key i k st"]) (use Some n replaced_refines [OF assms(1) Some assms(2)] in \<open>simp_all add: add_key_def\<close>)
  qed
  then show ?thesis using find_key_plain [OF st'(2)] by auto
qed

theorem host_table_refines_witness:
  "\<exists>st'. add_key (lit ''a.org'') ssh_rsa demo_rsa no_hostkeys = (Ret (), st') \<and> plain_table st' \<and>
     find_key (\<lambda>k d. d) st' (lit ''a.org'', ssh_rsa) = Inr (Some demo_rsa) \<and> find_key (\<lambda>k d. d) st' (lit ''b.org'', ssh_rsa) = Inr None"
proof -
  have p: "plain_table no_hostkeys" by (simp add: plain_table_def no_hostkeys_def)
  have n: "get_name demo_rsa = Inr ssh_rsa" by code_simp
  have h: "\<not> starts_with hash_mark (lit ''a.org'')" by code_simp
  have e: "known_map no_hostkeys ht = None" for ht by (simp add: known_map_def no_hostkeys_def)
  from host_table_refines [OF p n h, where hmac = "\<lambda>k d. d"] obtain st' where
    "add_key (lit ''a.org'') ssh_rsa demo_rsa no_hostkeys = (Ret (), st')" "plain_table st'"
    "\<forall>ht. find_key (\<lambda>k d. d) st' ht = Inr (((known_map no_hostkeys)((lit ''a.org'', ssh_rsa) \<mapsto> demo_rsa)) ht)" by blast
  moreover have "(lit ''b.org'', ssh_rsa) \<noteq> (lit ''a.org'', ssh_rsa)" by simp
  ultimately show ?thesis using e by (intro exI [of _ st']) (simp del: list.map)
qed

text \<open>An entry for two hosts: adding a key for one of them replaces the key of the other.\<close>

lemma add_replaces_other_host:
  assumes "get_name k0 = Inr t" and "get_name k = Inr t" and "\<not> starts_with hash_mark h" and "\<not> starts_with hash_mark h2"
  shows "\<exists>st'. add_key h t k (append_entry (new_entry [h, h2] (Some k0)) no_hostkeys) = (Ret (), st') \<and>
    find_key hmac st' (h2, t) = Inr (Some k)"
  using assms
  by (auto simp: add_key_def append_entry_def no_hostkeys_def new_entry_def entry_at_def entry_type_def set_key_def
      find_key_def lookup_host_def sd_get_def sd_getitem_def)

section \<open>Loading files\<close>

definition ids_ok :: "hostkeys \<Rightarrow> bool" where
  "ids_ok st \<longleftrightarrow> (\<forall>i\<in>set (hk_ids st). i < length (hk_heap st))"

definition grown :: "hostkeys \<Rightarrow> hostkeys \<Rightarrow> bool" where
  "grown st st' \<longleftrightarrow> (\<exists>es is. hk_heap st' = hk_heap st @ es \<and> hk_ids st' = hk_ids st @ is)"

lemma grown_refl: "grown st st"
  by (simp add: grown_def)

lemma grown_append: "grown st (append_entry e st)"
  by (simp add: grown_def append_entry_def)

lemma grown_trans: "grown a b \<Longrightarrow> grown b c \<Longrightarrow> grown a c"
  by (auto simp: grown_def)

lemma load_line_grows: "load_line lib hmac l st = (r, st') \<Longrightarrow> grown st st'"
  using grown_refl grown_append
  by (auto simp: load_line_def Let_def split: if_splits sum.splits option.splits py_error.splits)

lemma load_keys_grows: "load_keys lib hmac ls st = (r, st') \<Longrightarrow> grown st st'"
proof (induction ls arbitrary: st)
  case Nil
  then show ?case by (simp add: grown_refl)
next
  case (Cons l ls)
  obtain r1 st1 where l: "load_line lib hmac l st = (r1, st1)" by (metis prod.collapse)
  note g = load_line_grows [OF l]
  show ?case
  proof (cases r1)
    case (Ret u)
    with Cons.prems l have "load_keys lib hmac ls st1 = (r, st')" by (simp add: seqp_def)
    from Cons.IH [OF this] g show ?thesis by (rule grown_trans [rotated])
  qed (use Cons.prems l g in \<open>auto simp: seqp_def\<close>)
qed

lemma entry_grown: "grown st st' \<Longrightarrow> i < length (hk_heap st) \<Longrightarrow> entry_at st' i = entry_at st i"
  by (auto simp: grown_def entry_at_def nth_append)

lemma matching_ids_append:
  "matching_ids hmac h st (is @ js) = bind_res (matching_ids hmac h st is) (\<lambda>a. bind_res (matching_ids hmac h st js) (\<lambda>b. Inr (a @ b)))"
proof (induction "is")
  case Nil
  show ?case by (cases "matching_ids hmac h st js") simp_all
next
  case (Cons i "is")
  show ?case
    by (cases "hostname_matches hmac h (h_names (entry_at st i))"; cases "matching_ids hmac h st is"; cases "matching_ids hmac h st js")
      (simp_all add: Cons)
qed

lemma matching_ids_same:
  "(\<And>i. i \<in> set is \<Longrightarrow> entry_at st' i = entry_at st i) \<Longrightarrow> matching_ids hmac h st' is = matching_ids hmac h st is"
  by (induction "is") auto

lemma find_type_prefix:
  "find_type st t is = Inr (Some i) \<Longrightarrow> (\<And>j. j \<in> set is \<Longrightarrow> entry_at st' j = entry_at st j) \<Longrightarrow>
     find_type st' t (is @ js) = Inr (Some i)"
  by (induction "is") (auto simp: bind_res_eq_Inr entry_type_def split: if_splits)



end
