(* ===== verification/Sftp_Server.thy ===== *)
theory Sftp_Server
  imports Sftp_Wire
begin

text \<open>
  \<open>paramiko/sftp_server.py\<close>, \<open>sftp_handle.py\<close> and \<open>sftp_si.py\<close>: the server of the SFTP protocol. The
  application's \<open>SFTPServerInterface\<close> and the file objects its handles wrap are a record of calls on a state
  of their own; the default methods of the repository are definitions here. A handle object is
  handed out once.
\<close>

section \<open>Errors of the operating system\<close>

definition EACCES :: int where "EACCES = 13"
definition ENOENT :: int where "ENOENT = 2"
definition ENOTDIR :: int where "ENOTDIR = 20"

definition convert_errno :: "int option \<Rightarrow> int" where
  "convert_errno e =
     (if e = Some EACCES then SFTP_PERMISSION_DENIED
      else if e = Some ENOENT \<or> e = Some ENOTDIR then SFTP_NO_SUCH_FILE
      else SFTP_FAILURE)"

text \<open>\<open>except IOError as e\<close>, with \<open>e.errno\<close>.\<close>

fun io_errno :: "py_error \<Rightarrow> int option option" where
  "io_errno (OSErr n t) = Some (Some n)"
| "io_errno (IOError t) = Some None"
| "io_errno (SocketError t) = Some None"
| "io_errno SocketTimeout = Some None"
| "io_errno _ = None"

definition except_io :: "('s, 'a) prog \<Rightarrow> (int option \<Rightarrow> ('s, 'a) prog) \<Rightarrow> ('s, 'a) prog" where
  "except_io m handler s =
     (case m s of
        (Exn e, s') \<Rightarrow> (case io_errno e of None \<Rightarrow> (Exn e, s') | Some n \<Rightarrow> handler n s')
      | r \<Rightarrow> r)"

section \<open>The application's side\<close>

text \<open>A name of a listing; an attribute object without one raises when it is asked for it.\<close>

type_synonym listing = "(pystr option \<times> sftp_attr) list"

record sftp_handle =
  hd_flags :: int
  hd_name :: "bytes option"
  hd_files :: listing
  hd_tell :: "int option"
  hd_readfile :: "nat option"
  hd_writefile :: "nat option"

definition new_handle :: "int \<Rightarrow> sftp_handle" where
  "new_handle flags = \<lparr>hd_flags = flags, hd_name = None, hd_files = [], hd_tell = None, hd_readfile = None, hd_writefile = None\<rparr>"

text \<open>The calls: an object or an error code is a sum. \<open>fo_*\<close> are the methods of file objects.\<close>

record 'f sftp_si =
  si_open :: "pystr \<Rightarrow> int \<Rightarrow> sftp_attr \<Rightarrow> ('f, sftp_handle + int) prog"
  si_list_folder :: "pystr \<Rightarrow> ('f, listing + int) prog"
  si_stat :: "pystr \<Rightarrow> ('f, sftp_attr + int) prog"
  si_lstat :: "pystr \<Rightarrow> ('f, sftp_attr + int) prog"
  si_remove :: "pystr \<Rightarrow> ('f, int) prog"
  si_rename :: "pystr \<Rightarrow> pystr \<Rightarrow> ('f, int) prog"
  si_posix_rename :: "pystr \<Rightarrow> pystr \<Rightarrow> ('f, int) prog"
  si_mkdir :: "pystr \<Rightarrow> sftp_attr \<Rightarrow> ('f, int) prog"
  si_rmdir :: "pystr \<Rightarrow> ('f, int) prog"
  si_chattr :: "pystr \<Rightarrow> sftp_attr \<Rightarrow> ('f, int) prog"
  si_canonicalize :: "pystr \<Rightarrow> ('f, pystr) prog"
  si_readlink :: "pystr \<Rightarrow> ('f, pystr + int) prog"
  si_symlink :: "pystr \<Rightarrow> pystr \<Rightarrow> ('f, int) prog"
  hd_stat :: "sftp_handle \<Rightarrow> ('f, sftp_attr + int) prog"
  hd_chattr :: "sftp_handle \<Rightarrow> sftp_attr \<Rightarrow> ('f, int) prog"
  fo_tell :: "nat \<Rightarrow> ('f, int) prog"
  fo_seek :: "nat \<Rightarrow> int \<Rightarrow> ('f, unit) prog"
  fo_read :: "nat \<Rightarrow> int \<Rightarrow> ('f, bytes) prog"
  fo_write :: "nat \<Rightarrow> bytes \<Rightarrow> ('f, unit) prog"
  fo_flush :: "nat \<Rightarrow> ('f, unit) prog"
  fo_close :: "nat \<Rightarrow> ('f, unit) prog"

section \<open>Handles\<close>

definition O_APPEND :: int where "O_APPEND = 0x400"

definition on_hf :: "('f, 'a) prog \<Rightarrow> (sftp_handle \<times> 'f, 'a) prog" where
  "on_hf m s = (case s of (h, f) \<Rightarrow> (case m f of (r, f') \<Rightarrow> (r, (h, f'))))"

definition set_tell :: "int option \<Rightarrow> (sftp_handle \<times> 'f, unit) prog" where
  "set_tell t = modify (\<lambda>(h, f). (h\<lparr>hd_tell := t\<rparr>, f))"

text \<open>The position is asked for when it is not known, and set when it is another one.\<close>

definition go_to :: "'f sftp_si \<Rightarrow> nat \<Rightarrow> int \<Rightarrow> (sftp_handle \<times> 'f, unit) prog" where
  "go_to si file off =
     seqp (\<lambda>s. case hd_tell (fst s) of
         None \<Rightarrow> seqp (on_hf (fo_tell si file)) (\<lambda>t. set_tell (Some t)) s
       | Some t \<Rightarrow> ret () s) (\<lambda>_.
     (\<lambda>s. if hd_tell (fst s) \<noteq> Some off then seqp (on_hf (fo_seek si file off)) (\<lambda>_. set_tell (Some off)) s else ret () s))"

definition move_tell :: "int \<Rightarrow> (sftp_handle \<times> 'f, unit) prog" where
  "move_tell n s = (case hd_tell (fst s) of None \<Rightarrow> (Exn TypeError, s) | Some t \<Rightarrow> set_tell (Some (t + n)) s)"

definition handle_read :: "'f sftp_si \<Rightarrow> int \<Rightarrow> int \<Rightarrow> (sftp_handle \<times> 'f, bytes + int) prog" where
  "handle_read si off len s =
     (case hd_readfile (fst s) of
        None \<Rightarrow> (Ret (Inr SFTP_OP_UNSUPPORTED), s)
      | Some file \<Rightarrow>
          seqp (except_io
              (seqp (go_to si file off) (\<lambda>_. seqp (on_hf (fo_read si file len)) (\<lambda>d. ret (Inl d))))
              (\<lambda>e. seqp (set_tell None) (\<lambda>_. ret (Inr (convert_errno e))))) (\<lambda>r.
          case r of
            Inr code \<Rightarrow> ret (Inr code)
          | Inl data \<Rightarrow> seqp (move_tell (int (length data))) (\<lambda>_. ret (Inl data))) s)"

definition handle_write :: "'f sftp_si \<Rightarrow> int \<Rightarrow> bytes \<Rightarrow> (sftp_handle \<times> 'f, int) prog" where
  "handle_write si off data s =
     (case hd_writefile (fst s) of
        None \<Rightarrow> (Ret SFTP_OP_UNSUPPORTED, s)
      | Some file \<Rightarrow>
          seqp (except_io
              (seqp (if hd_flags (fst s) AND O_APPEND = 0 then go_to si file off else ret ()) (\<lambda>_.
               seqp (on_hf (fo_write si file data)) (\<lambda>_.
               seqp (on_hf (fo_flush si file)) (\<lambda>_. ret None))))
              (\<lambda>e. seqp (set_tell None) (\<lambda>_. ret (Some (convert_errno e))))) (\<lambda>r.
          case r of
            Some code \<Rightarrow> ret code
          | None \<Rightarrow>
              seqp (\<lambda>s. if hd_tell (fst s) \<noteq> None then move_tell (int (length data)) s else ret () s) (\<lambda>_. ret SFTP_OK)) s)"

definition handle_finish :: "'f sftp_si \<Rightarrow> (sftp_handle \<times> 'f, unit) prog" where
  "handle_finish si s =
     seqp (case hd_readfile (fst s) of None \<Rightarrow> ret () | Some file \<Rightarrow> on_hf (fo_close si file)) (\<lambda>_.
     case hd_writefile (fst s) of None \<Rightarrow> ret () | Some file \<Rightarrow> on_hf (fo_close si file)) s"

definition get_next_files :: "sftp_handle \<Rightarrow> listing \<times> sftp_handle" where
  "get_next_files h = (take 16 (hd_files h), h\<lparr>hd_files := drop 16 (hd_files h)\<rparr>)"

section \<open>The default interface\<close>

text \<open>
  What \<open>canonicalize\<close> uses of \<open>os.path\<close> and \<open>sys.platform\<close>, and what they are on a POSIX system: \<open>normpath\<close>
  takes out \<open>.\<close> and empty parts; \<open>..\<close> takes the last part off, stays at the root, and is kept in front of a relative path.
\<close>

record os_path =
  path_isabs :: "pystr \<Rightarrow> bool"
  path_normpath :: "pystr \<Rightarrow> pystr"
  on_win32 :: bool

fun norm_parts :: "bool \<Rightarrow> pystr list \<Rightarrow> pystr list \<Rightarrow> pystr list" where
  "norm_parts rooted acc [] = acc"
| "norm_parts rooted acc (p # ps) =
     (if p = [] \<or> p = [46] then norm_parts rooted acc ps
      else if p \<noteq> [46, 46] \<or> (\<not> rooted \<and> acc = []) \<or> (acc \<noteq> [] \<and> last acc = [46, 46]) then norm_parts rooted (acc @ [p]) ps
      else norm_parts rooted (butlast acc) ps)"

definition slash :: nat where "slash = 47"

definition posix_isabs :: "pystr \<Rightarrow> bool" where
  "posix_isabs p = (take 1 p = [slash])"

definition posix_normpath :: "pystr \<Rightarrow> pystr" where
  "posix_normpath p =
     (let start = (if \<not> posix_isabs p then []
                   else if take 2 p = [slash, slash] \<and> take 3 p \<noteq> [slash, slash, slash] then [slash, slash] else [slash]);
          out = start @ join [slash] (norm_parts (start \<noteq> []) [] (split_on slash p))
      in if out = [] then [46] else out)"

definition posix_path :: os_path where
  "posix_path = \<lparr>path_isabs = posix_isabs, path_normpath = posix_normpath, on_win32 = False\<rparr>"

definition canonicalize :: "os_path \<Rightarrow> pystr \<Rightarrow> pystr" where
  "canonicalize os path =
     (let out = (if path_isabs os path then path_normpath os path else path_normpath os ([slash] @ path))
      in if on_win32 os then map (\<lambda>c. if c = 92 then slash else c) out else out)"

definition unsupported :: "('f, int) prog" where
  "unsupported = ret SFTP_OP_UNSUPPORTED"

definition no_object :: "('f, 'a + int) prog" where
  "no_object = ret (Inr SFTP_OP_UNSUPPORTED)"

text \<open>The methods of \<open>SFTPServerInterface\<close> and of \<open>SFTPHandle\<close> that an application overrides, over given file objects.\<close>

definition default_si :: "os_path \<Rightarrow> 'f sftp_si \<Rightarrow> 'f sftp_si" where
  "default_si os files =
     files\<lparr>si_open := (\<lambda>path flags a. no_object), si_list_folder := (\<lambda>path. no_object), si_stat := (\<lambda>path. no_object),
       si_lstat := (\<lambda>path. no_object), si_remove := (\<lambda>path. unsupported), si_rename := (\<lambda>p q. unsupported),
       si_posix_rename := (\<lambda>p q. unsupported), si_mkdir := (\<lambda>path a. unsupported), si_rmdir := (\<lambda>path. unsupported),
       si_chattr := (\<lambda>path a. unsupported), si_canonicalize := (\<lambda>path. ret (canonicalize os path)), si_readlink := (\<lambda>path. no_object),
       si_symlink := (\<lambda>p q. unsupported), hd_stat := (\<lambda>h. no_object), hd_chattr := (\<lambda>h a. unsupported)\<rparr>"

section \<open>The server\<close>

text \<open>\<open>ss_sent\<close> records the packets that were written completely.\<close>

record 'f sftp_server =
  ss_next :: nat
  ss_files :: "(bytes \<times> sftp_handle) list"
  ss_folders :: "(bytes \<times> sftp_handle) list"
  ss_fs :: 'f
  ss_conn :: sftp_conn
  ss_sent :: "(int \<times> bytes) list"
  ss_closed :: bool

definition new_server :: "'f \<Rightarrow> sftp_conn \<Rightarrow> 'f sftp_server" where
  "new_server f c = \<lparr>ss_next = 1, ss_files = [], ss_folders = [], ss_fs = f, ss_conn = c, ss_sent = [], ss_closed = False\<rparr>"

text \<open>
  The hash functions, the \<open>ls -l\<close> line of an attribute object (it holds a local date), and a bound on the
  reads of one hash computation, which need not end.
\<close>

record sftp_env =
  hash_of :: "pystr \<Rightarrow> bytes \<Rightarrow> bytes"
  long_name :: "pystr option \<Rightarrow> sftp_attr \<Rightarrow> bytes"
  hash_reads :: nat

definition on_fs :: "('f, 'a) prog \<Rightarrow> ('f sftp_server, 'a) prog" where
  "on_fs m s = (case m (ss_fs s) of (r, f) \<Rightarrow> (r, s\<lparr>ss_fs := f\<rparr>))"

text \<open>A handle object changes where the table has it.\<close>

definition store_handle :: "bytes \<Rightarrow> sftp_handle \<Rightarrow> (bytes \<times> sftp_handle) list \<Rightarrow> (bytes \<times> sftp_handle) list" where
  "store_handle hname h tab = map (\<lambda>(k, v). (k, if k = hname then h else v)) tab"

text \<open>A method of the handle of an open file.\<close>

definition on_file :: "bytes \<Rightarrow> sftp_handle \<Rightarrow> (sftp_handle \<times> 'f, 'a) prog \<Rightarrow> ('f sftp_server, 'a) prog" where
  "on_file hname h m s =
     (case m (h, ss_fs s) of (r, (h', f)) \<Rightarrow> (r, s\<lparr>ss_fs := f, ss_files := store_handle hname h' (ss_files s)\<rparr>))"

definition srv_send :: "int \<Rightarrow> bytes \<Rightarrow> ('f sftp_server, unit) prog" where
  "srv_send t pkt s =
     (case send_packet t pkt (ss_conn s) of
        (Ret u, c) \<Rightarrow> (Ret u, s\<lparr>ss_conn := c, ss_sent := ss_sent s @ [(t, pkt)]\<rparr>)
      | (r, c) \<Rightarrow> (r, s\<lparr>ss_conn := c\<rparr>))"

datatype resp_item = RInt int | RInt64 int | RText pystr | RBytes bytes | RAttr sftp_attr

fun add_item :: "message \<Rightarrow> resp_item \<Rightarrow> message res" where
  "add_item m (RInt64 n) = add_int64 m n"
| "add_item m (RInt n) = add_int m n"
| "add_item m (RText s) = add_string m (PStr s)"
| "add_item m (RBytes b) = add_string m (PBytes b)"
| "add_item m (RAttr a) = attr_pack a m"

definition response :: "int \<Rightarrow> int \<Rightarrow> resp_item list \<Rightarrow> ('f sftp_server, unit) prog" where
  "response rn t items =
     seqp (liftr (bind_res (add_int new_message rn) (\<lambda>m. add_seq add_item m items))) (\<lambda>m. srv_send t (msg_asbytes m))"

definition SFTP_DESC :: "pystr list" where
  "SFTP_DESC = map lit [''Success'', ''End of file'', ''No such file'', ''Permission denied'', ''Failure'',
     ''Bad message'', ''No connection'', ''Connection lost'', ''Operation unsupported'']"

definition status_text :: "int \<Rightarrow> pystr option \<Rightarrow> pystr" where
  "status_text code desc =
     (case desc of Some d \<Rightarrow> d | None \<Rightarrow> (case py_index SFTP_DESC code of Inr d \<Rightarrow> d | Inl e \<Rightarrow> lit ''Unknown''))"

definition send_status :: "int \<Rightarrow> int \<Rightarrow> pystr option \<Rightarrow> ('f sftp_server, unit) prog" where
  "send_status rn code desc = response rn CMD_STATUS [RInt code, RText (status_text code desc), RText []]"

text \<open>\<open>"hx{:d}".format(n)\<close>.\<close>

fun digits :: "nat \<Rightarrow> pystr" where
  "digits n = (if n < 10 then [48 + n] else digits (n div 10) @ [48 + n mod 10])"

declare digits.simps [simp del]

definition handle_name :: "nat \<Rightarrow> bytes" where
  "handle_name n = [104, 120] @ map of_nat (digits n)"

definition register_handle :: "sftp_handle \<Rightarrow> bool \<Rightarrow> ('f sftp_server, bytes) prog" where
  "register_handle h folder s =
     (let nm = handle_name (ss_next s); h = h\<lparr>hd_name := Some nm\<rparr>; s = s\<lparr>ss_next := ss_next s + 1\<rparr>
      in (Ret nm, if folder then s\<lparr>ss_folders := AList.update nm h (ss_folders s)\<rparr> else s\<lparr>ss_files := AList.update nm h (ss_files s)\<rparr>))"

definition send_handle_response :: "int \<Rightarrow> sftp_handle + int \<Rightarrow> bool \<Rightarrow> ('f sftp_server, unit) prog" where
  "send_handle_response rn r folder =
     (case r of
        Inr code \<Rightarrow> send_status rn code None
      | Inl h \<Rightarrow> seqp (register_handle h folder) (\<lambda>nm. response rn CMD_HANDLE [RBytes nm]))"

definition open_folder :: "'f sftp_si \<Rightarrow> int \<Rightarrow> pystr \<Rightarrow> ('f sftp_server, unit) prog" where
  "open_folder si rn path =
     seqp (on_fs (si_list_folder si path)) (\<lambda>r.
     case r of
       Inl files \<Rightarrow> send_handle_response rn (Inl ((new_handle 0)\<lparr>hd_files := files\<rparr>)) True
     | Inr code \<Rightarrow> send_status rn code None)"

fun add_listing :: "sftp_env \<Rightarrow> message \<Rightarrow> listing \<Rightarrow> message res" where
  "add_listing env m [] = Inr m"
| "add_listing env m ((filename, a) # r) =
     (case filename of
        None \<Rightarrow> Inl AttributeError
      | Some nm \<Rightarrow>
          bind_res (add_string m (PStr nm)) (\<lambda>m.
          bind_res (add_string m (PBytes (long_name env filename a))) (\<lambda>m.
          bind_res (attr_pack a m) (\<lambda>m. add_listing env m r))))"

definition read_folder :: "sftp_env \<Rightarrow> int \<Rightarrow> bytes \<Rightarrow> sftp_handle \<Rightarrow> ('f sftp_server, unit) prog" where
  "read_folder env rn hname folder =
     (let (flist, folder') = get_next_files folder
      in seqp (modify (\<lambda>s. s\<lparr>ss_folders := store_handle hname folder' (ss_folders s)\<rparr>)) (\<lambda>_.
         if flist = [] then send_status rn SFTP_EOF None
         else
           seqp (liftr (bind_res (add_int new_message rn) (\<lambda>m.
             bind_res (add_int m (int (length flist))) (\<lambda>m. add_listing env m flist)))) (\<lambda>m.
           srv_send CMD_NAME (msg_asbytes m))))"

section \<open>Hashes of a file\<close>

text \<open>
  One block: reads until \<open>count\<close> reaches \<open>blocklen\<close>. Every read adds the whole \<open>count\<close> so far to the
  offset. \<open>Inl\<close> is an error code.
\<close>

fun hash_block :: "'f sftp_si \<Rightarrow> nat \<Rightarrow> bytes \<Rightarrow> int \<Rightarrow> int \<Rightarrow> int \<Rightarrow> int \<Rightarrow> bytes \<Rightarrow> ('f sftp_server, int + (int \<times> bytes \<times> nat)) prog" where
  "hash_block si fuel hname blocklen chunklen off count acc s =
     (if count < blocklen then
        (case fuel of
           0 \<Rightarrow> (Blocked, s)
         | Suc fuel \<Rightarrow>
             (case map_of (ss_files s) hname of
                None \<Rightarrow> (Exn KeyError, s)
              | Some h \<Rightarrow>
                  (case on_file hname h (handle_read si off chunklen) s of
                     (Ret (Inl d), s') \<Rightarrow>
                       (let count = count + int (length d)
                        in hash_block si fuel hname blocklen chunklen (off + count) count (acc @ d) s')
                   | (Ret (Inr code), s') \<Rightarrow> (Ret (Inl code), s')
                   | (Exn e, s') \<Rightarrow> (Exn e, s')
                   | (Blocked, s') \<Rightarrow> (Blocked, s'))))
      else (Ret (Inr (off, acc, fuel)), s))"

declare hash_block.simps [simp del]

fun hash_blocks :: "sftp_env \<Rightarrow> 'f sftp_si \<Rightarrow> nat \<Rightarrow> pystr \<Rightarrow> bytes \<Rightarrow> int \<Rightarrow> int \<Rightarrow> int \<Rightarrow> nat \<Rightarrow> bytes \<Rightarrow> ('f sftp_server, int + bytes) prog" where
  "hash_blocks env si 0 alg hname stop block_size off fuel out s = (Blocked, s)"
| "hash_blocks env si (Suc n) alg hname stop block_size off fuel out s =
     (if off < stop then
        (let blocklen = min block_size (stop - off); chunklen = min blocklen 65536
         in seqp (hash_block si fuel hname blocklen chunklen off 0 []) (\<lambda>r.
            case r of
              Inl code \<Rightarrow> ret (Inl code)
            | Inr (off, acc, fuel) \<Rightarrow>
                hash_blocks env si n alg hname stop block_size off fuel (out @ hash_of env alg acc)) s)
      else (Ret (Inr out), s))"

definition known_hashes :: "pystr list" where
  "known_hashes = [lit ''sha1'', lit ''md5'']"

text \<open>A block is at least 256 bytes, so it takes a read: the bound on the reads bounds the blocks too.\<close>

definition check_hashes :: "sftp_env \<Rightarrow> 'f sftp_si \<Rightarrow> int \<Rightarrow> pystr \<Rightarrow> bytes \<Rightarrow> int \<Rightarrow> int \<Rightarrow> int \<Rightarrow> ('f sftp_server, unit) prog" where
  "check_hashes env si rn alg hname start len block_size =
     (let block_size = (if block_size = 0 then len else block_size)
      in if block_size < 256 then send_status rn SFTP_FAILURE (Some (lit ''Block size too small''))
         else
           seqp (hash_blocks env si (Suc (hash_reads env)) alg hname (start + len) block_size start (hash_reads env) []) (\<lambda>r.
           case r of
             Inl code \<Rightarrow> send_status rn code (Some (lit ''Unable to hash file''))
           | Inr sum_out \<Rightarrow>
               seqp (liftr (bind_res (add_int new_message rn) (\<lambda>m.
                 bind_res (add_string m (PStr (lit ''check-file''))) (\<lambda>m.
                 bind_res (add_string m (PStr alg)) (\<lambda>m. Inr (add_bytes m sum_out)))))) (\<lambda>m.
               srv_send CMD_EXTENDED_REPLY (msg_asbytes m))))"

definition check_file :: "sftp_env \<Rightarrow> 'f sftp_si \<Rightarrow> int \<Rightarrow> message \<Rightarrow> ('f sftp_server, unit) prog" where
  "check_file env si rn m =
     (let (hname, m) = get_binary m
      in seqp (liftr (get_list m)) (\<lambda>(alg_list, m).
         let (start, m) = get_int64 m; (len, m) = get_int64 m; (block_size, m) = get_int m
         in (\<lambda>s. case map_of (ss_files s) hname of
              None \<Rightarrow> send_status rn SFTP_BAD_MESSAGE (Some (lit ''Invalid handle'')) s
            | Some h \<Rightarrow>
                (case find (\<lambda>x. x \<in> set known_hashes) alg_list of
                   None \<Rightarrow> send_status rn SFTP_FAILURE (Some (lit ''No supported hash types found'')) s
                 | Some alg \<Rightarrow>
                     if len = 0 then
                       seqp (on_fs (hd_stat si h)) (\<lambda>st.
                       case st of
                         Inr code \<Rightarrow> send_status rn code (Some (lit ''Unable to stat file''))
                       | Inl a \<Rightarrow>
                           (case st_size a of
                              None \<Rightarrow> raise TypeError
                            | Some sz \<Rightarrow> check_hashes env si rn alg hname start (sz - start) block_size)) s
                     else check_hashes env si rn alg hname start len block_size s))))"

section \<open>Requests\<close>

text \<open>The flags of \<open>os.open\<close>, as on Linux.\<close>

definition convert_pflags :: "int \<Rightarrow> int" where
  "convert_pflags pf =
     (let flags = (if pf AND 1 \<noteq> 0 \<and> pf AND 2 \<noteq> 0 then 2 else if pf AND 2 \<noteq> 0 then 1 else 0);
          flags = (if pf AND 4 \<noteq> 0 then flags OR O_APPEND else flags);
          flags = (if pf AND 8 \<noteq> 0 then flags OR 0x40 else flags);
          flags = (if pf AND 0x10 \<noteq> 0 then flags OR 0x200 else flags)
      in if pf AND 0x20 \<noteq> 0 then flags OR 0x80 else flags)"

definition bad_handle :: "int \<Rightarrow> ('f sftp_server, unit) prog" where
  "bad_handle rn = send_status rn SFTP_BAD_MESSAGE (Some (lit ''Invalid handle''))"

definition with_file :: "int \<Rightarrow> bytes \<Rightarrow> (sftp_handle \<Rightarrow> ('f sftp_server, unit) prog) \<Rightarrow> ('f sftp_server, unit) prog" where
  "with_file rn hname f s = (case map_of (ss_files s) hname of None \<Rightarrow> bad_handle rn s | Some h \<Rightarrow> f h s)"

text \<open>A call of the interface whose answer is a status code, and one whose answer is attributes.\<close>

definition status_of :: "int \<Rightarrow> ('f, int) prog \<Rightarrow> ('f sftp_server, unit) prog" where
  "status_of rn m = seqp (on_fs m) (\<lambda>code. send_status rn code None)"

definition attrs_of :: "int \<Rightarrow> ('f, sftp_attr + int) prog \<Rightarrow> ('f sftp_server, unit) prog" where
  "attrs_of rn m =
     seqp (on_fs m) (\<lambda>r. case r of Inl a \<Rightarrow> response rn CMD_ATTRS [RAttr a] | Inr code \<Rightarrow> send_status rn code None)"

definition process_open :: "'f sftp_si \<Rightarrow> int \<Rightarrow> message \<Rightarrow> ('f sftp_server, unit) prog" where
  "process_open si rn m =
     seqp (liftr (get_text m)) (\<lambda>(path, m).
     let (pf, m) = get_int m; (a, m) = attr_unpack m
     in seqp (on_fs (si_open si path (convert_pflags pf) a)) (\<lambda>r. send_handle_response rn r False))"

definition process_close :: "'f sftp_si \<Rightarrow> int \<Rightarrow> message \<Rightarrow> ('f sftp_server, unit) prog" where
  "process_close si rn m s =
     (let hname = fst (get_binary m)
      in case map_of (ss_folders s) hname of
           Some h \<Rightarrow>
             seqp (modify (\<lambda>s. s\<lparr>ss_folders := AList.delete hname (ss_folders s)\<rparr>)) (\<lambda>_. send_status rn SFTP_OK None) s
         | None \<Rightarrow>
             (case map_of (ss_files s) hname of
                Some h \<Rightarrow>
                  seqp (on_file hname h (handle_finish si)) (\<lambda>_.
                  seqp (modify (\<lambda>s. s\<lparr>ss_files := AList.delete hname (ss_files s)\<rparr>)) (\<lambda>_. send_status rn SFTP_OK None)) s
              | None \<Rightarrow> bad_handle rn s))"

definition process_read :: "'f sftp_si \<Rightarrow> int \<Rightarrow> message \<Rightarrow> ('f sftp_server, unit) prog" where
  "process_read si rn m =
     (let (hname, m) = get_binary m; (off, m) = get_int64 m; (len, m) = get_int m
      in with_file rn hname (\<lambda>h.
           seqp (on_file hname h (handle_read si off len)) (\<lambda>r.
           case r of
             Inl data \<Rightarrow> if data = [] then send_status rn SFTP_EOF None else response rn CMD_DATA [RBytes data]
           | Inr code \<Rightarrow> send_status rn code None)))"

definition process_write :: "'f sftp_si \<Rightarrow> int \<Rightarrow> message \<Rightarrow> ('f sftp_server, unit) prog" where
  "process_write si rn m =
     (let (hname, m) = get_binary m; (off, m) = get_int64 m; (data, m) = get_binary m
      in with_file rn hname (\<lambda>h.
           seqp (on_file hname h (handle_write si off data)) (\<lambda>code. send_status rn code None)))"

definition process_readdir :: "sftp_env \<Rightarrow> int \<Rightarrow> message \<Rightarrow> ('f sftp_server, unit) prog" where
  "process_readdir env rn m s =
     (let hname = fst (get_binary m)
      in case map_of (ss_folders s) hname of None \<Rightarrow> bad_handle rn s | Some h \<Rightarrow> read_folder env rn hname h s)"

definition process_fstat :: "'f sftp_si \<Rightarrow> int \<Rightarrow> message \<Rightarrow> ('f sftp_server, unit) prog" where
  "process_fstat si rn m = (let hname = fst (get_binary m) in with_file rn hname (\<lambda>h. attrs_of rn (hd_stat si h)))"

text \<open>For an unknown handle the code of the status is the type of the answer.\<close>

definition process_fsetstat :: "'f sftp_si \<Rightarrow> int \<Rightarrow> message \<Rightarrow> ('f sftp_server, unit) prog" where
  "process_fsetstat si rn m s =
     (let (hname, m) = get_binary m; (a, m) = attr_unpack m
      in case map_of (ss_files s) hname of
           None \<Rightarrow> response rn SFTP_BAD_MESSAGE [RText (lit ''Invalid handle'')] s
         | Some h \<Rightarrow> status_of rn (hd_chattr si h a) s)"

definition process_readlink :: "'f sftp_si \<Rightarrow> int \<Rightarrow> message \<Rightarrow> ('f sftp_server, unit) prog" where
  "process_readlink si rn m =
     seqp (liftr (get_text m)) (\<lambda>(path, m).
     seqp (on_fs (si_readlink si path)) (\<lambda>r.
     case r of
       Inl t \<Rightarrow> response rn CMD_NAME [RInt 1, RText t, RText [], RAttr new_attr]
     | Inr code \<Rightarrow> send_status rn code None))"

text \<open>A request of one path, of two, and of a path with attributes.\<close>

definition path_request :: "message \<Rightarrow> (pystr \<Rightarrow> ('f sftp_server, unit) prog) \<Rightarrow> ('f sftp_server, unit) prog" where
  "path_request m f = seqp (liftr (get_text m)) (\<lambda>(path, m). f path)"

definition two_paths :: "message \<Rightarrow> (pystr \<Rightarrow> pystr \<Rightarrow> ('f sftp_server, unit) prog) \<Rightarrow> ('f sftp_server, unit) prog" where
  "two_paths m f = seqp (liftr (get_text m)) (\<lambda>(p, m). seqp (liftr (get_text m)) (\<lambda>(q, m). f p q))"

definition path_attr :: "message \<Rightarrow> (pystr \<Rightarrow> sftp_attr \<Rightarrow> ('f sftp_server, unit) prog) \<Rightarrow> ('f sftp_server, unit) prog" where
  "path_attr m f = seqp (liftr (get_text m)) (\<lambda>(path, m). f path (fst (attr_unpack m)))"

definition process_extended :: "sftp_env \<Rightarrow> 'f sftp_si \<Rightarrow> int \<Rightarrow> message \<Rightarrow> ('f sftp_server, unit) prog" where
  "process_extended env si rn m =
     seqp (liftr (get_text m)) (\<lambda>(tag, m).
     if tag = lit ''check-file'' then check_file env si rn m
     else if tag = lit ''posix-rename@openssh.com'' then two_paths m (\<lambda>p q. status_of rn (si_posix_rename si p q))
     else send_status rn SFTP_OP_UNSUPPORTED None)"

text \<open>The keys of \<open>CMD_NAMES\<close>.\<close>

definition named_commands :: "int list" where
  "named_commands = [1 .. 20] @ [101 .. 105] @ [200, 201]"

definition process :: "sftp_env \<Rightarrow> 'f sftp_si \<Rightarrow> int \<Rightarrow> int \<Rightarrow> message \<Rightarrow> ('f sftp_server, unit) prog" where
  "process env si t rn m =
     (if t \<notin> set named_commands then raise KeyError
      else if t = CMD_OPEN then process_open si rn m
      else if t = CMD_CLOSE then process_close si rn m
      else if t = CMD_READ then process_read si rn m
      else if t = CMD_WRITE then process_write si rn m
      else if t = CMD_REMOVE then path_request m (\<lambda>p. status_of rn (si_remove si p))
      else if t = CMD_RENAME then two_paths m (\<lambda>p q. status_of rn (si_rename si p q))
      else if t = CMD_MKDIR then path_attr m (\<lambda>p a. status_of rn (si_mkdir si p a))
      else if t = CMD_RMDIR then path_request m (\<lambda>p. status_of rn (si_rmdir si p))
      else if t = CMD_OPENDIR then path_request m (open_folder si rn)
      else if t = CMD_READDIR then process_readdir env rn m
      else if t = CMD_STAT then path_request m (\<lambda>p. attrs_of rn (si_stat si p))
      else if t = CMD_LSTAT then path_request m (\<lambda>p. attrs_of rn (si_lstat si p))
      else if t = CMD_FSTAT then process_fstat si rn m
      else if t = CMD_SETSTAT then path_attr m (\<lambda>p a. status_of rn (si_chattr si p a))
      else if t = CMD_FSETSTAT then process_fsetstat si rn m
      else if t = CMD_READLINK then process_readlink si rn m
      else if t = CMD_SYMLINK then two_paths m (\<lambda>p q. status_of rn (si_symlink si p q))
      else if t = CMD_REALPATH then
        path_request m (\<lambda>p. seqp (on_fs (si_canonicalize si p)) (\<lambda>r. response rn CMD_NAME [RInt 1, RText r, RText [], RAttr new_attr]))
      else if t = CMD_EXTENDED then process_extended env si rn m
      else send_status rn SFTP_OP_UNSUPPORTED None)"

text \<open>One request: whatever is raised becomes a failure status, and what that raises is passed over.\<close>

definition answer_request :: "sftp_env \<Rightarrow> 'f sftp_si \<Rightarrow> int \<Rightarrow> bytes \<Rightarrow> ('f sftp_server, unit) prog" where
  "answer_request env si t data s =
     (let (rn, m) = get_int (message_of data)
      in case process env si t rn m s of
           (Exn e, s') \<Rightarrow> (case send_status rn SFTP_FAILURE None s' of (Exn e', s'') \<Rightarrow> (Ret (), s'') | r \<Rightarrow> r)
         | r \<Rightarrow> r)"

definition next_packet :: "('f sftp_server, int \<times> bytes) prog" where
  "next_packet s = (case read_packet (ss_conn s) of (r, c) \<Rightarrow> (r, s\<lparr>ss_conn := c\<rparr>))"

text \<open>The loop of the subsystem; every round takes a packet off the stream (\<open>fuel\<close> bounds their number).\<close>

fun serve :: "sftp_env \<Rightarrow> 'f sftp_si \<Rightarrow> nat \<Rightarrow> ('f sftp_server, unit) prog" where
  "serve env si 0 s = (Blocked, s)"
| "serve env si (Suc fuel) s =
     (case next_packet s of
        (Exn e, s') \<Rightarrow> (Ret (), s')
      | (Blocked, s') \<Rightarrow> (Blocked, s')
      | (Ret (t, data), s') \<Rightarrow> seqp (answer_request env si t data) (\<lambda>_. serve env si fuel) s')"

definition start_subsystem :: "sftp_env \<Rightarrow> 'f sftp_si \<Rightarrow> nat \<Rightarrow> ('f sftp_server, unit) prog" where
  "start_subsystem env si fuel =
     seqp (\<lambda>s. case send_server_version (ss_conn s) of (r, c) \<Rightarrow> (r, s\<lparr>ss_conn := c\<rparr>)) (\<lambda>_. serve env si fuel)"

fun close_all :: "'f sftp_si \<Rightarrow> (bytes \<times> sftp_handle) list \<Rightarrow> ('f sftp_server, unit) prog" where
  "close_all si [] = ret ()"
| "close_all si ((nm, h) # r) =
     seqp (\<lambda>s. case handle_finish si (h, ss_fs s) of (x, (h', f)) \<Rightarrow> (x, s\<lparr>ss_fs := f\<rparr>)) (\<lambda>_. close_all si r)"

definition finish_subsystem :: "'f sftp_si \<Rightarrow> ('f sftp_server, unit) prog" where
  "finish_subsystem si =
     seqp (modify (\<lambda>s. s\<lparr>ss_closed := True\<rparr>)) (\<lambda>_.
     seqp (\<lambda>s. close_all si (ss_files s) s) (\<lambda>_.
     seqp (\<lambda>s. close_all si (ss_folders s) s) (\<lambda>_.
     modify (\<lambda>s. s\<lparr>ss_files := [], ss_folders := []\<rparr>))))"

text \<open>\<open>set_file_attr\<close>, as the calls it makes; \<open>flags\<close> are those of the wire. A size rewrites the file.\<close>

datatype os_call = OsChmod pystr "int option" | OsChown pystr "int option" "int option" | OsUtime pystr "int option" "int option"
  | OsOpenTruncating pystr | OsTruncate "int option"

definition set_file_attr :: "pystr \<Rightarrow> int \<Rightarrow> sftp_attr \<Rightarrow> os_call list" where
  "set_file_attr filename flags a =
     (if has_flag flags FLAG_PERMISSIONS then [OsChmod filename (st_mode a)] else []) @
     (if has_flag flags FLAG_UIDGID then [OsChown filename (st_uid a) (st_gid a)] else []) @
     (if has_flag flags FLAG_AMTIME then [OsUtime filename (st_atime a) (st_mtime a)] else []) @
     (if has_flag flags FLAG_SIZE then [OsOpenTruncating filename, OsTruncate (st_size a)] else [])"

end
