(* ===== verification/Sftp_Client.thy ===== *)
theory Sftp_Client
  imports Sftp_Server Sftp_Props
begin

text \<open>
  \<open>paramiko/sftp_client.py\<close>: requests and responses of the SFTP client, and its operations on paths. The open
  files (\<open>SFTPFile\<close>) are objects the client's table of expected responses refers to, so they live in the
  client's state; a number is their address. Incoming data are the outcomes of the connection's reads.
\<close>

section \<open>State\<close>

text \<open>
  A prefetch thread is kept in \<open>sf_threads\<close>: the request it has sent and not yet recorded, with its number and
  chunk, the chunks it has not asked for, and its limit. Sending and recording are steps of their own.
\<close>

record sfile =
  sf_handle :: bytes
  sf_buf :: bfile
  sf_pipelined :: bool
  sf_prefetching :: bool
  sf_done :: bool
  sf_data :: "(int \<times> bytes) list"
  sf_extents :: "(int \<times> (int \<times> int)) list"
  sf_saved :: "py_error option"
  sf_reqs :: "int list"
  sf_threads :: "((int \<times> (int \<times> int)) option \<times> (int \<times> int) list \<times> int option) list"

text \<open>\<open>_expecting\<close>: a request number and the file that gets its response, if one does.\<close>

record sftp_client =
  sc_conn :: sftp_conn
  sc_next :: int
  sc_expecting :: "(int \<times> nat option) list"
  sc_cwd :: "bytes option"
  sc_files :: "sfile list"
  sc_closed :: bool

definition new_sfile :: "bytes \<Rightarrow> sfile" where
  "new_sfile handle =
     \<lparr>sf_handle = handle, sf_buf = new_bfile [] [], sf_pipelined = False, sf_prefetching = False, sf_done = False,
      sf_data = [], sf_extents = [], sf_saved = None, sf_reqs = [], sf_threads = []\<rparr>"

definition the_f :: "nat \<Rightarrow> sftp_client \<Rightarrow> sfile" where
  "the_f i s = (if i < length (sc_files s) then sc_files s ! i else new_sfile [])"

definition upd_f :: "nat \<Rightarrow> (sfile \<Rightarrow> sfile) \<Rightarrow> (sftp_client, unit) prog" where
  "upd_f i g = modify (\<lambda>s. s\<lparr>sc_files := (sc_files s)[i := g (the_f i s)]\<rparr>)"

definition on_conn :: "(sftp_conn, 'a) prog \<Rightarrow> (sftp_client, 'a) prog" where
  "on_conn m s = (case m (sc_conn s) of (r, c) \<Rightarrow> (r, s\<lparr>sc_conn := c\<rparr>))"

text \<open>A connection lost during the version exchange is reported as an \<open>SSHException\<close>.\<close>

definition new_client :: "(sftp_conn, sftp_client) prog" where
  "new_client c =
     (case send_version c of
        (Exn EOFError, c) \<Rightarrow> (Exn (SSHException ''EOF during negotiation''), c)
      | (Exn e, c) \<Rightarrow> (Exn e, c)
      | (Blocked, c) \<Rightarrow> (Blocked, c)
      | (Ret v, c) \<Rightarrow> (Ret \<lparr>sc_conn = c, sc_next = 1, sc_expecting = [], sc_cwd = None, sc_files = [], sc_closed = False\<rparr>, c))"

section \<open>Requests\<close>

definition async_request :: "nat option \<Rightarrow> int \<Rightarrow> resp_item list \<Rightarrow> (sftp_client, int) prog" where
  "async_request fo t items =
     seqp (\<lambda>s. liftr (bind_res (add_int new_message (sc_next s)) (\<lambda>m. add_seq add_item m items)) s) (\<lambda>m.
     seqp (gets sc_next) (\<lambda>num.
     seqp (modify (\<lambda>s. s\<lparr>sc_expecting := AList.update num fo (sc_expecting s), sc_next := num + 1\<rparr>)) (\<lambda>_.
     seqp (on_conn (send_packet t (msg_asbytes m))) (\<lambda>_. ret num))))"

text \<open>The text of an unmapped status is cut to characters.\<close>

definition convert_status :: "message \<Rightarrow> message res" where
  "convert_status m =
     (let (code, m) = get_int m
      in bind_res (get_text m) (\<lambda>(text, m).
         if code = SFTP_OK then Inr m
         else if code = SFTP_EOF then Inl EOFError
         else if code = SFTP_NO_SUCH_FILE then Inl (OSErr ENOENT text)
         else if code = SFTP_PERMISSION_DENIED then Inl (OSErr EACCES text)
         else Inl (IOError (map char_of text))))"

text \<open>A thread records the extent of the request it has sent.\<close>

definition record_extent :: "nat \<Rightarrow> sfile \<Rightarrow> sfile" where
  "record_extent k f =
     (case sf_threads f ! k of
        (None, parts, limit) \<Rightarrow> f
      | (Some (num, chunk), parts, limit) \<Rightarrow>
          f\<lparr>sf_extents := AList.update num chunk (sf_extents f), sf_threads := (sf_threads f)[k := (None, parts, limit)]\<rparr>)"

text \<open>The reader spins until the extent of the request is there: the thread that has sent it records it meanwhile.\<close>

definition recorded :: "int \<Rightarrow> sfile \<Rightarrow> sfile" where
  "recorded num f =
     (if num \<in> set (map fst (sf_extents f)) then f
      else
        (case find (\<lambda>k. map_option fst (fst (sf_threads f ! k)) = Some num) [0 ..< length (sf_threads f)] of
           None \<Rightarrow> f
         | Some k \<Rightarrow> record_extent k f))"

text \<open>What a prefetched chunk changes; without an extent that can be recorded the reader spins for ever.\<close>

definition store_response :: "int \<Rightarrow> bytes \<Rightarrow> sfile \<Rightarrow> sfile option" where
  "store_response num data f =
     (let f = recorded num f in case map_of (sf_extents f) num of
        None \<Rightarrow> None
      | Some (off, len) \<Rightarrow>
          (let ext = AList.delete num (sf_extents f)
           in Some (f\<lparr>sf_data := AList.update off data (sf_data f), sf_extents := ext, sf_done := (if ext = [] then True else sf_done f)\<rparr>)))"

definition async_response :: "nat \<Rightarrow> int \<Rightarrow> message \<Rightarrow> int \<Rightarrow> (sftp_client, unit) prog" where
  "async_response i t m num s =
     (if t = CMD_STATUS then
        (case convert_status m of Inl e \<Rightarrow> upd_f i (\<lambda>f. f\<lparr>sf_saved := Some e\<rparr>) s | Inr m \<Rightarrow> (Ret (), s))
      else if t \<noteq> CMD_DATA then (Exn (SFTPError ''Expected data''), s)
      else
        (case store_response num (fst (get_string m)) (the_f i s) of
           None \<Rightarrow> (Blocked, s)
         | Some f \<Rightarrow> upd_f i (\<lambda>_. f) s))"

definition deliver :: "nat option \<Rightarrow> int \<Rightarrow> message \<Rightarrow> int \<Rightarrow> (sftp_client, unit) prog" where
  "deliver fo t m num = (case fo of None \<Rightarrow> ret () | Some i \<Rightarrow> async_response i t m num)"

text \<open>One response: its type, the message after the number, the number, and who expects it, if it is expected.\<close>

definition next_response :: "(sftp_client, int \<times> message \<times> int \<times> nat option option) prog" where
  "next_response s =
     (case read_packet (sc_conn s) of
        (Exn e, c) \<Rightarrow> (Exn (if e = EOFError then SSHException ''Server connection dropped'' else e), s\<lparr>sc_conn := c\<rparr>)
      | (Blocked, c) \<Rightarrow> (Blocked, s\<lparr>sc_conn := c\<rparr>)
      | (Ret (t, data), c) \<Rightarrow>
          (let (num, m) = get_int (message_of data)
           in (Ret (t, m, num, map_of (sc_expecting s) num), s\<lparr>sc_conn := c, sc_expecting := AList.delete num (sc_expecting s)\<rparr>)))"

definition in_size :: "sftp_client \<Rightarrow> nat" where
  "in_size s = src_size (s_rx (sc_conn s))"

lemma sftp_read_loop_smaller:
  "sftp_read_loop n out es c = (Ret d, c') \<Longrightarrow> src_size (s_rx c') \<le> src_size es \<and> (0 < n \<longrightarrow> src_size (s_rx c') < src_size es)"
proof (induction n out es c rule: sftp_read_loop.induct)
  case (1 n out es c)
  show ?case
  proof (cases "0 < n")
    case True
    obtain r es' where r: "raw_read n es = (r, es')" by (metis prod.collapse)
    show ?thesis
    proof (cases r)
      case (Inl e)
      then show ?thesis using 1(2) True r by (subst (asm) sftp_read_loop.simps) simp
    next
      case (Inr x)
      then have "sftp_read_loop n out es c =
          (if x = [] then (Exn EOFError, c\<lparr>s_rx := es'\<rparr>) else sftp_read_loop (n - int (length x)) (out @ x) es' c)"
        using True r by (subst sftp_read_loop.simps) simp
      with 1(2) have x: "x \<noteq> []" "sftp_read_loop (n - int (length x)) (out @ x) es' c = (Ret d, c')" by (simp_all split: if_splits)
      have "src_size es' < src_size es" using raw_read_smaller r Inr x(1) by simp
      with 1(1) [OF True r [symmetric] Inr x(1) x(2)] show ?thesis by simp
    qed
  next
    case False
    then show ?thesis using 1(2) by (subst (asm) sftp_read_loop.simps) auto
  qed
qed

lemma read_packet_smaller:
  assumes "read_packet c = (Ret x, c')"
  shows "src_size (s_rx c') < src_size (s_rx c)"
proof -
  from assms obtain h c1 where h: "sftp_read_all 4 c = (Ret h, c1)" unfolding read_packet_def by (auto simp: seqp_Ret)
  have a: "src_size (s_rx c1) < src_size (s_rx c)" using sftp_read_loop_smaller [of 4 "[]" "s_rx c" c h c1] h by (simp add: sftp_read_all_def)
  have "\<exists>n d. sftp_read_all n c1 = (Ret d, c')"
    using assms h unfolding read_packet_def
    by (auto simp: seqp_Ret liftr_Ret ret_def raise_def split: if_splits)
  then obtain n d where "sftp_read_all n c1 = (Ret d, c')" by blast
  then have "src_size (s_rx c') \<le> src_size (s_rx c1)" using sftp_read_loop_smaller [of n "[]" "s_rx c1" c1 d c'] by (simp add: sftp_read_all_def)
  with a show ?thesis by simp
qed

lemma next_response_smaller: "next_response s = (Ret x, s') \<Longrightarrow> in_size s' < in_size s"
  using read_packet_smaller [of "sc_conn s"]
  by (auto simp: next_response_def in_size_def split: prod.splits outcome.splits)

lemma deliver_size: "deliver fo t m num s = (r, s') \<Longrightarrow> in_size s' = in_size s"
  by (auto simp: deliver_def async_response_def upd_f_def in_size_def split: option.splits sum.splits if_splits)

text \<open>\<open>_read_response\<close>: until the response that is waited for, or one response when none is.\<close>

function read_response :: "int option \<Rightarrow> sftp_client \<Rightarrow> (int \<times> message) option outcome \<times> sftp_client" where
  "read_response waitfor s =
     (case next_response s of
        (Exn e, s1) \<Rightarrow> (Exn e, s1)
      | (Blocked, s1) \<Rightarrow> (Blocked, s1)
      | (Ret (t, m, num, known), s1) \<Rightarrow>
          (case known of
             None \<Rightarrow> if waitfor = None then (Ret None, s1) else read_response waitfor s1
           | Some fo \<Rightarrow>
               if waitfor = Some num then
                 (if t = CMD_STATUS then (case convert_status m of Inl e \<Rightarrow> (Exn e, s1) | Inr m \<Rightarrow> (Ret (Some (t, m)), s1))
                  else (Ret (Some (t, m)), s1))
               else
                 (case deliver fo t m num s1 of
                    (Exn e, s2) \<Rightarrow> (Exn e, s2)
                  | (Blocked, s2) \<Rightarrow> (Blocked, s2)
                  | (Ret u, s2) \<Rightarrow> if waitfor = None then (Ret None, s2) else read_response waitfor s2)))"
  by pat_completeness auto
termination
  by (relation "measure (\<lambda>(w, s). in_size s)") (auto dest!: next_response_smaller [OF sym] deliver_size [OF sym])

declare read_response.simps [simp del]

definition request :: "int \<Rightarrow> resp_item list \<Rightarrow> (sftp_client, int \<times> message) prog" where
  "request t items =
     seqp (async_request None t items) (\<lambda>num.
     seqp (read_response (Some num)) (\<lambda>r. case r of None \<Rightarrow> raise TypeError | Some tm \<Rightarrow> ret tm))"

definition expect :: "int \<Rightarrow> int \<Rightarrow> resp_item list \<Rightarrow> (sftp_client, message) prog" where
  "expect reply t items = seqp (request t items) (\<lambda>(t', m). if t' \<noteq> reply then raise (SFTPError ''Expected another response'') else ret m)"

definition command :: "int \<Rightarrow> resp_item list \<Rightarrow> (sftp_client, unit) prog" where
  "command t items = seqp (request t items) (\<lambda>_. ret ())"

text \<open>\<open>_finish_responses\<close> of a file.\<close>

definition check_exception :: "nat \<Rightarrow> (sftp_client, unit) prog" where
  "check_exception i s =
     (case sf_saved (the_f i s) of
        None \<Rightarrow> (Ret (), s)
      | Some e \<Rightarrow> seqp (upd_f i (\<lambda>f. f\<lparr>sf_saved := None\<rparr>)) (\<lambda>_. raise e) s)"

lemma read_response_smaller: "read_response w s = (Ret x, s') \<Longrightarrow> in_size s' < in_size s"
proof (induction w s arbitrary: x s' rule: read_response.induct)
  case (1 w s)
  from 1(3) obtain t m num known s1 where n: "next_response s = (Ret (t, m, num, known), s1)"
    by (subst (asm) read_response.simps) (auto split: prod.splits outcome.splits)
  have l: "in_size s1 < in_size s" by (rule next_response_smaller [OF n])
  show ?case
  proof (cases known)
    case None
    show ?thesis
    proof (cases "w = None")
      case True
      then show ?thesis using 1(3) n None l by (subst (asm) read_response.simps) simp
    next
      case False
      then have "read_response w s1 = (Ret x, s')" using 1(3) n None by (subst (asm) read_response.simps) (auto split: if_splits)
      from 1(1) [OF n [symmetric] refl refl refl refl None False this] l show ?thesis by simp
    qed
  next
    case (Some fo)
    show ?thesis
    proof (cases "w = Some num")
      case True
      then show ?thesis using 1(3) n Some l by (subst (asm) read_response.simps) (auto split: if_splits sum.splits)
    next
      case False
      then obtain u s2 where d: "deliver fo t m num s1 = (Ret u, s2)"
        using 1(3) n Some by (subst (asm) read_response.simps) (auto split: prod.splits outcome.splits)
      have l2: "in_size s2 < in_size s" using deliver_size [OF d] l by simp
      show ?thesis
      proof (cases "w = None")
        case True
        then show ?thesis using 1(3) n Some d l2 by (subst (asm) read_response.simps) simp
      next
        case nn: False
        then have r: "read_response w s2 = (Ret x, s')" using 1(3) n Some d False by (subst (asm) read_response.simps) (auto split: if_splits)
        from 1(2) [OF n [symmetric] refl refl refl refl Some False d [symmetric] refl nn r] l2 show ?thesis by simp
      qed
    qed
  qed
qed

lemma on_conn_eq: "on_conn m s = (fst (m (sc_conn s)), s\<lparr>sc_conn := snd (m (sc_conn s))\<rparr>)"
  by (simp add: on_conn_def split: prod.split)

lemma sftp_write_loop_rx: "s_rx (snd (sftp_write_loop out ws c)) = s_rx c"
  by (induction out ws c rule: sftp_write_loop.induct) (auto simp: Let_def split: raw_out.split)

lemma send_packet_rx [simp]: "s_rx (snd (send_packet t pkt c)) = s_rx c"
  by (auto simp: send_packet_def sftp_write_all_def seqp_def liftr_def sftp_write_loop_rx split: sum.split)

lemma async_request_size:
  assumes "async_request fo t items s = (Ret num, s')"
  shows "in_size s' = in_size s"
proof -
  from assms obtain m s1 where "s1 = s\<lparr>sc_expecting := AList.update num fo (sc_expecting s), sc_next := num + 1\<rparr>"
    "on_conn (send_packet t (msg_asbytes m)) s1 = (Ret (), s')"
    unfolding async_request_def seqp_Ret liftr_Ret gets_def modify_def ret_def by auto
  then show ?thesis by (auto simp: on_conn_eq in_size_def)
qed

lemma request_smaller:
  assumes "request t items s = (Ret x, s')"
  shows "in_size s' < in_size s"
proof -
  from assms obtain num s1 y where a: "async_request None t items s = (Ret num, s1)"
    and r: "read_response (Some num) s1 = (Ret y, s')"
    unfolding request_def by (auto simp: seqp_Ret split: option.splits)
  show ?thesis using read_response_smaller [OF r] async_request_size [OF a] by simp
qed

section \<open>Paths\<close>

definition b_slash :: bytes where "b_slash = [47]"

definition adjust_cwd :: "bytes option \<Rightarrow> py_obj \<Rightarrow> bytes res" where
  "adjust_cwd cwd path =
     bind_res (b_cast path) (\<lambda>path.
     case cwd of
       None \<Rightarrow> Inr path
     | Some c \<Rightarrow>
         if path \<noteq> [] \<and> take 1 path = b_slash then Inr path
         else if c = b_slash then Inr (c @ path)
         else Inr (c @ b_slash @ path))"

definition with_path :: "py_obj \<Rightarrow> (bytes \<Rightarrow> (sftp_client, 'a) prog) \<Rightarrow> (sftp_client, 'a) prog" where
  "with_path path f = seqp (\<lambda>s. liftr (adjust_cwd (sc_cwd s) path) s) f"

text \<open>\<open>_to_unicode\<close>, of bytes.\<close>

definition to_unicode :: "bytes \<Rightarrow> py_obj" where
  "to_unicode b = (case utf8_decode b of Inr s \<Rightarrow> PStr s | Inl e \<Rightarrow> PBytes b)"

section \<open>Listings\<close>

type_synonym dir_entry = "pystr \<times> sftp_attr"

fun parse_names :: "nat \<Rightarrow> message \<Rightarrow> (dir_entry list \<times> message) res" where
  "parse_names 0 m = Inr ([], m)"
| "parse_names (Suc n) m =
     bind_res (get_text m) (\<lambda>(filename, m).
     bind_res (get_text m) (\<lambda>(longname, m).
     let (a, m) = attr_unpack m
     in bind_res (parse_names n m) (\<lambda>(r, m).
        Inr (if filename \<noteq> [46] \<and> filename \<noteq> [46, 46] then (filename, a) # r else r, m))))"

definition names_of :: "message \<Rightarrow> dir_entry list res" where
  "names_of m = (let (count, m) = get_int m in bind_res (parse_names (nat count) m) (\<lambda>(l, m). Inr l))"

function listdir_loop :: "bytes \<Rightarrow> dir_entry list \<Rightarrow> sftp_client \<Rightarrow> dir_entry list outcome \<times> sftp_client" where
  "listdir_loop handle acc s =
     (case request CMD_READDIR [RBytes handle] s of
        (Exn e, s') \<Rightarrow> if e = EOFError then (Ret acc, s') else (Exn e, s')
      | (Blocked, s') \<Rightarrow> (Blocked, s')
      | (Ret (t, m), s') \<Rightarrow>
          if t \<noteq> CMD_NAME then (Exn (SFTPError ''Expected name response''), s')
          else (case names_of m of Inl e \<Rightarrow> (Exn e, s') | Inr l \<Rightarrow> listdir_loop handle (acc @ l) s'))"
  by pat_completeness auto
termination
  by (relation "measure (\<lambda>(h, a, s). in_size s)") (auto dest!: request_smaller [OF sym])

declare listdir_loop.simps [simp del]

definition listdir_attr :: "py_obj \<Rightarrow> (sftp_client, dir_entry list) prog" where
  "listdir_attr path =
     with_path path (\<lambda>path.
     seqp (expect CMD_HANDLE CMD_OPENDIR [RBytes path]) (\<lambda>m.
     let handle = fst (get_binary m)
     in seqp (listdir_loop handle []) (\<lambda>l. seqp (command CMD_CLOSE [RBytes handle]) (\<lambda>_. ret l))))"

definition listdir :: "py_obj \<Rightarrow> (sftp_client, pystr list) prog" where
  "listdir path = seqp (listdir_attr path) (\<lambda>l. ret (map fst l))"

text \<open>
  \<open>listdir_iter\<close>, as the list of all it yields: rounds of requests sent ahead, then one packet for each. The
  packets are taken off the connection without looking at the table. With no requests ahead the loop
  spins.
\<close>

fun send_ahead :: "nat \<Rightarrow> bytes \<Rightarrow> (sftp_client, int list) prog" where
  "send_ahead 0 handle = ret []"
| "send_ahead (Suc n) handle =
     seqp (async_request None CMD_READDIR [RBytes handle]) (\<lambda>num. seqp (send_ahead n handle) (\<lambda>ns. ret (num # ns)))"

definition iter_packet :: "int \<Rightarrow> (sftp_client, dir_entry list) prog" where
  "iter_packet num =
     seqp (on_conn read_packet) (\<lambda>(t, data).
     let (new_num, m) = get_int (message_of data)
     in seqp (liftr (if num = new_num \<and> t = CMD_STATUS then convert_status m else Inr m)) (\<lambda>m.
        liftr (names_of m)))"

text \<open>The entries up to the first exception, and that.\<close>

fun iter_packets :: "int list \<Rightarrow> sftp_client \<Rightarrow> dir_entry list \<times> unit outcome \<times> sftp_client" where
  "iter_packets [] s = ([], Ret (), s)"
| "iter_packets (n # ns) s =
     (case iter_packet n s of
        (Ret l, s') \<Rightarrow> (let (l', r, s'') = iter_packets ns s' in (l @ l', r, s''))
      | (Exn e, s') \<Rightarrow> ([], Exn e, s')
      | (Blocked, s') \<Rightarrow> ([], Blocked, s'))"

lemma iter_packet_smaller:
  assumes "iter_packet n s = (Ret l, s')"
  shows "in_size s' < in_size s"
proof -
  obtain r c where r: "read_packet (sc_conn s) = (r, c)" by (metis prod.collapse)
  with assms obtain t data where t: "r = Ret (t, data)" by (cases r) (auto simp: iter_packet_def seqp_def on_conn_def)
  with assms r have "s' = s\<lparr>sc_conn := c\<rparr>"
    by (auto simp: iter_packet_def seqp_def on_conn_def liftr_def Let_def split: prod.splits sum.splits if_splits)
  with read_packet_smaller r t show ?thesis by (simp add: in_size_def)
qed

lemma iter_packets_smaller: "iter_packets ns s = (l, Ret u, s') \<Longrightarrow> in_size s' \<le> in_size s \<and> (ns \<noteq> [] \<longrightarrow> in_size s' < in_size s)"
proof (induction ns arbitrary: s l)
  case (Cons n ns)
  then obtain l1 s1 where s1: "iter_packet n s = (Ret l1, s1)" by (auto split: prod.splits outcome.splits)
  with Cons.prems obtain l2 where "iter_packets ns s1 = (l2, Ret u, s')" by (auto simp: Let_def split: prod.splits)
  with Cons.IH iter_packet_smaller [OF s1] show ?case by fastforce
qed simp

lemma send_ahead_facts: "send_ahead n handle s = (Ret ns, s') \<Longrightarrow> length ns = n \<and> in_size s' = in_size s"
proof (induction n arbitrary: s ns)
  case (Suc n)
  then obtain num s1 ms where a: "async_request None CMD_READDIR [RBytes handle] s = (Ret num, s1)"
    "send_ahead n handle s1 = (Ret ms, s')" "ns = num # ms" by (auto simp: seqp_Ret)
  have "in_size s1 = in_size s" by (rule async_request_size [OF a(1)])
  with Suc.IH [OF a(2)] a(3) show ?case by simp
qed simp

function iter_loop :: "nat \<Rightarrow> bytes \<Rightarrow> dir_entry list \<Rightarrow> sftp_client \<Rightarrow> dir_entry list outcome \<times> sftp_client" where
  "iter_loop ahead handle acc s =
     (if ahead = 0 then (Blocked, s)
      else
        (case send_ahead ahead handle s of
           (Exn e, s1) \<Rightarrow>
             if e = EOFError then seqp (command CMD_CLOSE [RBytes handle]) (\<lambda>_. ret acc) s1 else (Exn e, s1)
         | (Blocked, s1) \<Rightarrow> (Blocked, s1)
         | (Ret nums, s1) \<Rightarrow>
             (case iter_packets nums s1 of
                (l, Exn e, s2) \<Rightarrow>
                  if e = EOFError then seqp (command CMD_CLOSE [RBytes handle]) (\<lambda>_. ret (acc @ l)) s2 else (Exn e, s2)
              | (l, Blocked, s2) \<Rightarrow> (Blocked, s2)
              | (l, Ret u, s2) \<Rightarrow> iter_loop ahead handle (acc @ l) s2)))"
  by pat_completeness auto
termination
  by (relation "measure (\<lambda>(n, h, a, s). in_size s)")
    (auto dest!: send_ahead_facts [OF sym] iter_packets_smaller [OF sym])

declare iter_loop.simps [simp del]

definition listdir_iter :: "py_obj \<Rightarrow> nat \<Rightarrow> (sftp_client, dir_entry list) prog" where
  "listdir_iter path read_aheads =
     with_path path (\<lambda>path.
     seqp (expect CMD_HANDLE CMD_OPENDIR [RBytes path]) (\<lambda>m. iter_loop read_aheads (fst (get_string m)) []))"

section \<open>Operations on paths\<close>

definition path_command :: "int \<Rightarrow> py_obj \<Rightarrow> (sftp_client, unit) prog" where
  "path_command t path = with_path path (\<lambda>p. command t [RBytes p])"

definition sc_remove :: "py_obj \<Rightarrow> (sftp_client, unit) prog" where "sc_remove = path_command CMD_REMOVE"
definition sc_rmdir :: "py_obj \<Rightarrow> (sftp_client, unit) prog" where "sc_rmdir = path_command CMD_RMDIR"

definition sc_rename :: "py_obj \<Rightarrow> py_obj \<Rightarrow> (sftp_client, unit) prog" where
  "sc_rename oldpath newpath = with_path oldpath (\<lambda>p. with_path newpath (\<lambda>q. command CMD_RENAME [RBytes p, RBytes q]))"

definition sc_posix_rename :: "py_obj \<Rightarrow> py_obj \<Rightarrow> (sftp_client, unit) prog" where
  "sc_posix_rename oldpath newpath =
     with_path oldpath (\<lambda>p. with_path newpath (\<lambda>q.
     command CMD_EXTENDED [RText (lit ''posix-rename@openssh.com''), RBytes p, RBytes q]))"

definition sc_mkdir :: "py_obj \<Rightarrow> int \<Rightarrow> (sftp_client, unit) prog" where
  "sc_mkdir path mode = with_path path (\<lambda>p. command CMD_MKDIR [RBytes p, RAttr (new_attr\<lparr>st_mode := Some mode\<rparr>)])"

definition path_stat :: "int \<Rightarrow> py_obj \<Rightarrow> (sftp_client, sftp_attr) prog" where
  "path_stat t path = with_path path (\<lambda>p. seqp (expect CMD_ATTRS t [RBytes p]) (\<lambda>m. ret (fst (attr_unpack m))))"

definition sc_stat :: "py_obj \<Rightarrow> (sftp_client, sftp_attr) prog" where "sc_stat = path_stat CMD_STAT"
definition sc_lstat :: "py_obj \<Rightarrow> (sftp_client, sftp_attr) prog" where "sc_lstat = path_stat CMD_LSTAT"

definition sc_symlink :: "py_obj \<Rightarrow> py_obj \<Rightarrow> (sftp_client, unit) prog" where
  "sc_symlink source dest =
     with_path dest (\<lambda>d. seqp (liftr (b_cast source)) (\<lambda>src. command CMD_SYMLINK [RBytes src, RBytes d]))"

text \<open>\<open>chmod\<close>, \<open>chown\<close>, \<open>utime\<close> and \<open>truncate\<close>; \<open>now\<close> is the clock.\<close>

definition set_attributes :: "py_obj \<Rightarrow> sftp_attr \<Rightarrow> (sftp_client, unit) prog" where
  "set_attributes path a = with_path path (\<lambda>p. command CMD_SETSTAT [RBytes p, RAttr a])"

definition sc_chmod :: "py_obj \<Rightarrow> int \<Rightarrow> (sftp_client, unit) prog" where
  "sc_chmod path mode = set_attributes path (new_attr\<lparr>st_mode := Some mode\<rparr>)"

definition sc_chown :: "py_obj \<Rightarrow> int \<Rightarrow> int \<Rightarrow> (sftp_client, unit) prog" where
  "sc_chown path uid gid = set_attributes path (new_attr\<lparr>st_uid := Some uid, st_gid := Some gid\<rparr>)"

definition sc_utime :: "py_obj \<Rightarrow> (int \<times> int) option \<Rightarrow> int \<Rightarrow> (sftp_client, unit) prog" where
  "sc_utime path tms now =
     (let (at, mt) = (case tms of None \<Rightarrow> (now, now) | Some t \<Rightarrow> t)
      in set_attributes path (new_attr\<lparr>st_atime := Some at, st_mtime := Some mt\<rparr>))"

definition sc_truncate :: "py_obj \<Rightarrow> int \<Rightarrow> (sftp_client, unit) prog" where
  "sc_truncate path sz = set_attributes path (new_attr\<lparr>st_size := Some sz\<rparr>)"

definition sc_readlink :: "py_obj \<Rightarrow> (sftp_client, py_obj option) prog" where
  "sc_readlink path =
     with_path path (\<lambda>p.
     seqp (expect CMD_NAME CMD_READLINK [RBytes p]) (\<lambda>m.
     let (count, m) = get_int m
     in if count = 0 then ret None
        else if count \<noteq> 1 then raise (SFTPError ''Readlink returned several results'')
        else ret (Some (to_unicode (fst (get_string m))))))"

definition sc_normalize :: "py_obj \<Rightarrow> (sftp_client, pystr) prog" where
  "sc_normalize path =
     with_path path (\<lambda>p.
     seqp (expect CMD_NAME CMD_REALPATH [RBytes p]) (\<lambda>m.
     let (count, m) = get_int m
     in if count \<noteq> 1 then raise (SFTPError ''Realpath returned several results'')
        else seqp (liftr (get_text m)) (\<lambda>(t, m). ret t)))"

definition is_dir :: "int option \<Rightarrow> bool res" where
  "is_dir mode = (case mode of None \<Rightarrow> Inl TypeError | Some md \<Rightarrow> Inr (md AND 0xF000 = 0x4000))"

definition sc_chdir :: "py_obj option \<Rightarrow> (sftp_client, unit) prog" where
  "sc_chdir path =
     (case path of
        None \<Rightarrow> modify (\<lambda>s. s\<lparr>sc_cwd := None\<rparr>)
      | Some p \<Rightarrow>
          seqp (sc_stat p) (\<lambda>a.
          seqp (liftr (is_dir (st_mode a))) (\<lambda>d.
          if \<not> d then raise (SFTPError ''Not a directory'')
          else
            seqp (sc_normalize p) (\<lambda>np.
            seqp (liftr (utf8_encode np)) (\<lambda>b. modify (\<lambda>s. s\<lparr>sc_cwd := Some b\<rparr>))))))"

definition getcwd :: "sftp_client \<Rightarrow> py_obj option res" where
  "getcwd s =
     (case sc_cwd s of
        None \<Rightarrow> Inr None
      | Some b \<Rightarrow> if b = [] then Inr (Some (PBytes [])) else bind_res (utf8_decode b) (\<lambda>t. Inr (Some (PStr t))))"

definition sc_close :: "sftp_client \<Rightarrow> sftp_client" where
  "sc_close s = s\<lparr>sc_closed := True\<rparr>"

end
