(* ===== verification/Sftp_File.thy ===== *)
theory Sftp_File
  imports Sftp_Client
begin

text \<open>
  \<open>paramiko/sftp_file.py\<close> and the rest of \<open>sftp_client.py\<close>: open files, prefetching, pipelined writes, and the
  transfers of whole files. A prefetch thread moves by steps of its own, between the operations of the
  reader. \<open>rdy\<close> says whether the channel has data to read (\<open>recv_ready\<close>).
\<close>

section \<open>Prefetched data\<close>

definition MAX_REQUEST_SIZE :: int where "MAX_REQUEST_SIZE = 32768"

text \<open>\<open>_data_in_prefetch_requests\<close>: the extent that starts last at or before the offset, and then what it leaves over.\<close>

function in_requests :: "(int \<times> int) list \<Rightarrow> int \<Rightarrow> int \<Rightarrow> bool" where
  "in_requests extents off sz =
     (let k = sort_key fst (filter (\<lambda>x. fst x \<le> off) extents)
      in if k = [] then False
         else
           (let (buf_offset, buf_size) = last k
            in if buf_offset + buf_size \<le> off then False
               else if off + sz \<le> buf_offset + buf_size then True
               else in_requests extents (buf_offset + buf_size) (off + sz - buf_offset - buf_size)))"
  by pat_completeness auto
termination
  by (relation "measure (\<lambda>(e, off, sz). nat sz)") auto

declare in_requests.simps [simp del]

definition in_buffers :: "(int \<times> bytes) list \<Rightarrow> int \<Rightarrow> int option" where
  "in_buffers data off =
     (let k = filter (\<lambda>i. i \<le> off) (map fst data)
      in if k = [] then None
         else
           (let index = Max (set k); buf_offset = off - index
            in if int (length (the (map_of data index))) \<le> buf_offset then None else Some index))"

text \<open>The end of \<open>_read_prefetch\<close>: \<open>n\<close> bytes at the position, out of the buffer at \<open>index\<close>.\<close>

definition take_prefetch :: "int \<Rightarrow> int \<Rightarrow> sfile \<Rightarrow> bytes \<times> sfile" where
  "take_prefetch index n f =
     (let pf = the (map_of (sf_data f) index);
          d = AList.delete index (sf_data f);
          buf_offset = realpos (sf_buf f) - index;
          (d, pf) = (if 0 < buf_offset then (AList.update index (slice_to pf buf_offset) d, slice_from pf buf_offset) else (d, pf));
          (d, pf) = (if n < int (length pf) then (AList.update (realpos (sf_buf f) + n) (slice_from pf n) d, slice_to pf n) else (d, pf))
      in (pf, f\<lparr>sf_data := d\<rparr>))"

function prefetch_wait :: "nat \<Rightarrow> sftp_client \<Rightarrow> int option outcome \<times> sftp_client" where
  "prefetch_wait i s =
     (case in_buffers (sf_data (the_f i s)) (realpos (sf_buf (the_f i s))) of
        Some index \<Rightarrow> (Ret (Some index), s)
      | None \<Rightarrow>
          if sf_done (the_f i s) \<or> f_closed (sf_buf (the_f i s)) then (Ret None, s)
          else
            (case read_response None s of
               (Exn e, s1) \<Rightarrow> (Exn e, s1)
             | (Blocked, s1) \<Rightarrow> (Blocked, s1)
             | (Ret x, s1) \<Rightarrow>
                 (case check_exception i s1 of
                    (Exn e, s2) \<Rightarrow> (Exn e, s2)
                  | (Blocked, s2) \<Rightarrow> (Blocked, s2)
                  | (Ret u, s2) \<Rightarrow> prefetch_wait i s2)))"
  by pat_completeness auto
termination
  by (relation "measure (\<lambda>(i, s). in_size s)")
    (auto dest!: read_response_smaller [OF sym] simp: check_exception_def upd_f_def in_size_def seqp_def split: option.splits)

declare prefetch_wait.simps [simp del]

definition read_prefetch :: "nat \<Rightarrow> int \<Rightarrow> (sftp_client, bytes option) prog" where
  "read_prefetch i n =
     seqp (prefetch_wait i) (\<lambda>index.
     case index of
       None \<Rightarrow> seqp (upd_f i (\<lambda>f. f\<lparr>sf_prefetching := False\<rparr>)) (\<lambda>_. ret None)
     | Some index \<Rightarrow>
         seqp (gets (\<lambda>s. fst (take_prefetch index n (the_f i s)))) (\<lambda>d.
         seqp (upd_f i (\<lambda>f. snd (take_prefetch index n f))) (\<lambda>_. ret (Some d))))"

section \<open>Reading\<close>

text \<open>\<open>_read\<close>\<close>

definition raw_read_file :: "nat \<Rightarrow> int \<Rightarrow> (sftp_client, bytes) prog" where
  "raw_read_file i n =
     (let n = min n MAX_REQUEST_SIZE
      in seqp (gets (\<lambda>s. sf_prefetching (the_f i s))) (\<lambda>p.
         seqp (if p then read_prefetch i n else ret None) (\<lambda>d.
         case d of
           Some d \<Rightarrow> ret d
         | None \<Rightarrow>
             seqp (gets (the_f i)) (\<lambda>f.
             seqp (expect CMD_DATA CMD_READ [RBytes (sf_handle f), RInt64 (realpos (sf_buf f)), RInt n]) (\<lambda>m.
             ret (fst (get_string m)))))))"

definition on_buf :: "nat \<Rightarrow> (bfile \<Rightarrow> bfile) \<Rightarrow> (sftp_client, unit) prog" where
  "on_buf i g = upd_f i (\<lambda>f. f\<lparr>sf_buf := g (sf_buf f)\<rparr>)"

text \<open>The bytes that wait in the file's prefetch buffers.\<close>

definition dict_size :: "(int \<times> bytes) list \<Rightarrow> nat" where
  "dict_size d = sum_list (map (\<lambda>(k, d). length d) d)"

definition waiting :: "nat \<Rightarrow> sftp_client \<Rightarrow> nat" where
  "waiting i s = dict_size (sf_data (the_f i s))"

lemma dict_size_update: "dict_size (AList.update k v d) \<le> dict_size d + length v"
  by (induction d) (auto simp: dict_size_def)

lemma dict_size_delete: "map_of d k = Some v \<Longrightarrow> dict_size (AList.delete k d) + length v \<le> dict_size d"
proof (induction d)
  case (Cons x d)
  have le: "dict_size (AList.delete k d) \<le> dict_size d" by (induction d) (auto simp: dict_size_def)
  show ?case
  proof (cases "fst x = k")
    case True
    with Cons.prems le show ?thesis by (cases x) (simp add: dict_size_def)
  next
    case False
    with Cons show ?thesis by (cases x) (simp add: dict_size_def)
  qed
qed simp

lemma in_buffersD:
  assumes "in_buffers d off = Some index"
  shows "\<exists>pf. map_of d index = Some pf \<and> index \<le> off \<and> off - index < int (length pf)"
proof -
  define k where "k = filter (\<lambda>i. i \<le> off) (map fst d)"
  from assms have k: "k \<noteq> []" and i: "index = Max (set k)" and l: "off - index < int (length (the (map_of d index)))"
    by (auto simp: in_buffers_def Let_def k_def [symmetric] split: if_splits)
  from k i have "index \<in> set k" using Max_in [of "set k"] by simp
  then have "index \<le> off" "index \<in> fst ` set d" by (auto simp: k_def)
  then show ?thesis using l by (cases "map_of d index") (auto simp: map_of_eq_None_iff)
qed

lemma take_prefetch_smaller:
  assumes "in_buffers (sf_data f) (realpos (sf_buf f)) = Some index" and "take_prefetch index n f = (d, f')" and "0 \<le> n"
  shows "dict_size (sf_data f') + length d \<le> dict_size (sf_data f)"
proof -
  from in_buffersD [OF assms(1)] obtain pf where pf: "map_of (sf_data f) index = Some pf" and o: "index \<le> realpos (sf_buf f)"
      "realpos (sf_buf f) - index < int (length pf)" by blast
  define bo where "bo = nat (realpos (sf_buf f) - index)"
  have bo: "realpos (sf_buf f) - index = int bo" "bo < length pf" using o by (auto simp: bo_def)
  define d0 where "d0 = AList.delete index (sf_data f)"
  have d0: "dict_size d0 + length pf \<le> dict_size (sf_data f)" using dict_size_delete [OF pf] by (simp add: d0_def)
  define d1 where "d1 = (if 0 < bo then AList.update index (take bo pf) d0 else d0)"
  have d1: "dict_size d1 + length (drop bo pf) \<le> dict_size (sf_data f)"
    using d0 bo(2) dict_size_update [of index "take bo pf" d0] by (auto simp: d1_def)
  have "(d, f') = (if n < int (length (drop bo pf)) then take (nat n) (drop bo pf) else drop bo pf,
      f\<lparr>sf_data := if n < int (length (drop bo pf)) then AList.update (realpos (sf_buf f) + n) (drop (nat n) (drop bo pf)) d1 else d1\<rparr>)"
    using assms(2,3) pf bo(1)
    by (auto simp: take_prefetch_def Let_def d0_def d1_def slice_to_nonneg slice_from_nonneg split: if_splits)
  then show ?thesis
    using d1 assms(3) dict_size_update [of "realpos (sf_buf f) + n" "drop (nat n) (drop bo pf)" d1]
    by (auto split: if_splits)
qed

lemma check_exception_size: "check_exception i s = (r, s') \<Longrightarrow> in_size s' = in_size s"
  by (auto simp: check_exception_def upd_f_def in_size_def seqp_def split: option.splits)

lemma prefetch_wait_progress:
  "prefetch_wait i s = (Ret index, s') \<Longrightarrow>
     (s' = s \<or> in_size s' < in_size s) \<and>
     (\<forall>k. index = Some k \<longrightarrow> in_buffers (sf_data (the_f i s')) (realpos (sf_buf (the_f i s'))) = Some k)"
proof (induction i s rule: prefetch_wait.induct)
  case (1 i s)
  show ?case
  proof (cases "in_buffers (sf_data (the_f i s)) (realpos (sf_buf (the_f i s)))")
    case None
    show ?thesis
    proof (cases "sf_done (the_f i s) \<or> f_closed (sf_buf (the_f i s))")
      case True
      then show ?thesis using 1(2) None by (subst (asm) prefetch_wait.simps) auto
    next
      case False
      then obtain x s1 u s2 where r: "read_response None s = (Ret x, s1)" "check_exception i s1 = (Ret u, s2)" "prefetch_wait i s2 = (Ret index, s')"
        using 1(2) None by (subst (asm) prefetch_wait.simps) (auto split: prod.splits outcome.splits)
      from 1(1) [OF None False r(1) [symmetric] refl r(2) [symmetric] refl r(3)] read_response_smaller [OF r(1)] check_exception_size [OF r(2)]
      show ?thesis by auto
    qed
  next
    case (Some k)
    then show ?thesis using 1(2) by (subst (asm) prefetch_wait.simps) auto
  qed
qed

lemma raw_read_progress:
  assumes "raw_read_file i n s = (Ret d, s')" and "0 \<le> n" and "d \<noteq> []"
  shows "in_size s' < in_size s \<or> in_size s' = in_size s \<and> waiting i s' < waiting i s"
proof -
  define m where "m = min n MAX_REQUEST_SIZE"
  have m: "0 \<le> m" using assms(2) by (simp add: m_def MAX_REQUEST_SIZE_def)
  have ex: "in_size s2 < in_size s1" if "expect a b c s1 = (Ret y, s2)" for a b c s1 s2 and y :: message
    using that request_smaller by (fastforce simp: expect_def seqp_Ret split: if_splits)
  from assms(1) obtain r s1 where r: "(if sf_prefetching (the_f i s) then read_prefetch i m else ret None) s = (Ret r, s1)"
    and d: "(case r of Some d \<Rightarrow> ret d
         | None \<Rightarrow>
             seqp (gets (the_f i)) (\<lambda>f.
             seqp (expect CMD_DATA CMD_READ [RBytes (sf_handle f), RInt64 (realpos (sf_buf f)), RInt m]) (\<lambda>m.
             ret (fst (get_string m))))) s1 = (Ret d, s')"
    unfolding raw_read_file_def by (auto simp: Let_def seqp_Ret m_def [symmetric] simp del: CMD_DATA_def CMD_READ_def)
  show ?thesis
  proof (cases r)
    case None
    have "in_size s1 \<le> in_size s"
    proof (cases "sf_prefetching (the_f i s)")
      case True
      with r None obtain s0 where "prefetch_wait i s = (Ret None, s0)" "in_size s1 = in_size s0"
        by (auto simp: read_prefetch_def seqp_Ret upd_f_def in_size_def split: option.splits)
      then show ?thesis using prefetch_wait_progress by fastforce
    next
      case False
      then show ?thesis using r by simp
    qed
    moreover have "in_size s' < in_size s1" using d None by (auto simp: seqp_Ret dest: ex)
    ultimately show ?thesis by simp
  next
    case (Some d')
    then have d': "d' = d" "s' = s1" using d by auto
    have p: "sf_prefetching (the_f i s)" using r Some by (cases "sf_prefetching (the_f i s)") auto
    with r Some d' obtain k s0 where w: "prefetch_wait i s = (Ret (Some k), s0)"
      and t: "d = fst (take_prefetch k m (the_f i s0))" "s' = snd (upd_f i (\<lambda>f. snd (take_prefetch k m f)) s0)"
      by (auto simp: read_prefetch_def seqp_Ret upd_f_def split: option.splits)
    from prefetch_wait_progress [OF w] have w': "s0 = s \<or> in_size s0 < in_size s"
      and b: "in_buffers (sf_data (the_f i s0)) (realpos (sf_buf (the_f i s0))) = Some k" by auto
    have i: "i < length (sc_files s0)"
    proof (rule ccontr)
      assume "\<not> i < length (sc_files s0)"
      then show False using b by (simp add: the_f_def new_sfile_def in_buffers_def)
    qed
    have "the_f i s' = snd (take_prefetch k m (the_f i s0))" "in_size s' = in_size s0"
      using t(2) i by (simp_all add: upd_f_def the_f_def in_size_def)
    note a = this
    have b2: "dict_size (sf_data (snd (take_prefetch k m (the_f i s0)))) + length d \<le> dict_size (sf_data (the_f i s0))"
      using take_prefetch_smaller [OF b _ m] t(1) by (metis prod.collapse)
    have "0 < length d" using assms(3) by simp
    with b2 have "waiting i s' < waiting i s0" unfolding waiting_def a(1) by linarith
    with w' a(2) show ?thesis by auto
  qed
qed


lemma raw_read_step:
  "(Ret d, s') = raw_read_file i n s \<Longrightarrow>
     d = [] \<or> n < 0 \<or> in_size s' < in_size s \<or> in_size s' = in_size s \<and> waiting i s' < waiting i s"
  using raw_read_progress [of i n s d s'] by (metis linorder_not_less)

text \<open>The loops of \<open>BufferedFile.read\<close>; an \<open>EOFError\<close> is the end of the file.\<close>

function sf_rest :: "nat \<Rightarrow> bytes \<Rightarrow> sftp_client \<Rightarrow> bytes outcome \<times> sftp_client" where
  "sf_rest i out s =
     (case raw_read_file i DEFAULT_BUFSIZE s of
        (Exn e, s1) \<Rightarrow> if e = EOFError then (Ret out, s1) else (Exn e, s1)
      | (Blocked, s1) \<Rightarrow> (Blocked, s1)
      | (Ret d, s1) \<Rightarrow>
          if d = [] then (Ret out, s1)
          else sf_rest i (out @ d) (snd (on_buf i (\<lambda>b. b\<lparr>realpos := realpos b + int (length d), pos := pos b + int (length d)\<rparr>) s1)))"
  by pat_completeness auto

lemma on_buf_size:
  "in_size (snd (on_buf i g s)) = in_size s" "waiting i (snd (on_buf i g s)) = waiting i s"
  by (simp_all add: on_buf_def upd_f_def in_size_def waiting_def the_f_def)

termination sf_rest
  by (relation "measures [\<lambda>(i, out, s). in_size s, \<lambda>(i, out, s). waiting i s]")
    (auto dest!: raw_read_step simp: on_buf_size DEFAULT_BUFSIZE_def)

function sf_fill :: "nat \<Rightarrow> int \<Rightarrow> sftp_client \<Rightarrow> unit outcome \<times> sftp_client" where
  "sf_fill i n s =
     (let b = sf_buf (the_f i s)
      in if int (length (rbuffer b)) < n then
           (let want = n - int (length (rbuffer b));
                want = (if flag_buffered b then max (bufsize b) want else want)
            in case raw_read_file i want s of
                 (Exn e, s1) \<Rightarrow> if e = EOFError then (Ret (), s1) else (Exn e, s1)
               | (Blocked, s1) \<Rightarrow> (Blocked, s1)
               | (Ret d, s1) \<Rightarrow>
                   if d = [] then (Ret (), s1)
                   else sf_fill i n (snd (on_buf i (\<lambda>b. b\<lparr>rbuffer := rbuffer b @ d, realpos := realpos b + int (length d)\<rparr>) s1)))
         else (Ret (), s))"
  by pat_completeness auto
termination
  by (relation "measures [\<lambda>(i, n, s). in_size s, \<lambda>(i, n, s). waiting i s]")
    (auto dest!: raw_read_step simp: on_buf_size Let_def split: if_splits)

declare sf_rest.simps [simp del] sf_fill.simps [simp del]

definition sf_take :: "nat \<Rightarrow> int \<Rightarrow> (sftp_client, bytes) prog" where
  "sf_take i n =
     seqp (gets (\<lambda>s. slice_to (rbuffer (sf_buf (the_f i s))) n)) (\<lambda>d.
     seqp (on_buf i (\<lambda>b. b\<lparr>rbuffer := slice_from (rbuffer b) n, pos := pos b + int (length d)\<rparr>)) (\<lambda>_. ret d))"

definition sf_read :: "nat \<Rightarrow> int option \<Rightarrow> (sftp_client, bytes) prog" where
  "sf_read i sz =
     seqp (gets (\<lambda>s. sf_buf (the_f i s))) (\<lambda>b.
     if f_closed b then raise (IOError ''File is closed'')
     else if \<not> flag_read b then raise (IOError ''File is not open for reading'')
     else if (case sz of None \<Rightarrow> True | Some n \<Rightarrow> n < 0) then
       seqp (on_buf i (\<lambda>b. b\<lparr>rbuffer := [], pos := pos b + int (length (rbuffer b))\<rparr>)) (\<lambda>_. sf_rest i (rbuffer b))
     else if the sz \<le> int (length (rbuffer b)) then sf_take i (the sz)
     else seqp (sf_fill i (the sz)) (\<lambda>_. sf_take i (the sz)))"

section \<open>Writing\<close>

fun collect_writes :: "nat \<Rightarrow> int list \<Rightarrow> (sftp_client, unit) prog" where
  "collect_writes i [] = ret ()"
| "collect_writes i (r # rs) =
     seqp (upd_f i (\<lambda>f. f\<lparr>sf_reqs := rs\<rparr>)) (\<lambda>_.
     seqp (read_response (Some r)) (\<lambda>x.
     case x of
       None \<Rightarrow> raise (SFTPError ''Expected status'')
     | Some (t, m) \<Rightarrow> if t \<noteq> CMD_STATUS then raise (SFTPError ''Expected status'') else collect_writes i rs))"

text \<open>\<open>_write\<close>: the length of the chunk.\<close>

definition write_chunk :: "(sftp_client \<Rightarrow> bool) \<Rightarrow> nat \<Rightarrow> bytes \<Rightarrow> (sftp_client, nat) prog" where
  "write_chunk rdy i data =
     (let chunk = min (length data) (nat MAX_REQUEST_SIZE)
      in seqp (gets (the_f i)) (\<lambda>f.
         seqp (async_request None CMD_WRITE [RBytes (sf_handle f), RInt64 (realpos (sf_buf f)), RBytes (take chunk data)]) (\<lambda>num.
         seqp (upd_f i (\<lambda>f. f\<lparr>sf_reqs := sf_reqs f @ [num]\<rparr>)) (\<lambda>_.
         seqp (\<lambda>s. if \<not> sf_pipelined (the_f i s) \<or> 100 < length (sf_reqs (the_f i s)) \<and> rdy s
                   then collect_writes i (sf_reqs (the_f i s)) s else ret () s) (\<lambda>_. ret chunk)))))"

definition advance :: "nat \<Rightarrow> bfile \<Rightarrow> bfile" where
  "advance n f =
     (if flag_append f
      then f\<lparr>f_size := f_size f + int n, pos := f_size f + int n, realpos := f_size f + int n\<rparr>
      else f\<lparr>pos := pos f + int n, realpos := realpos f + int n\<rparr>)"

lemma write_chunk_count: "write_chunk rdy i data s = (Ret n, s') \<Longrightarrow> n = min (length data) 32768"
  by (auto simp: write_chunk_def seqp_Ret Let_def MAX_REQUEST_SIZE_def)

function sf_write_all :: "(sftp_client \<Rightarrow> bool) \<Rightarrow> nat \<Rightarrow> bytes \<Rightarrow> sftp_client \<Rightarrow> unit outcome \<times> sftp_client" where
  "sf_write_all rdy i data s =
     (if data = [] then (Ret (), s)
      else
        (case write_chunk rdy i data s of
           (Exn e, s1) \<Rightarrow> (Exn e, s1)
         | (Blocked, s1) \<Rightarrow> (Blocked, s1)
         | (Ret n, s1) \<Rightarrow> sf_write_all rdy i (drop n data) (snd (on_buf i (advance n) s1))))"
  by pat_completeness auto
termination
  by (relation "measure (\<lambda>(r, i, data, s). length data)") (auto dest!: write_chunk_count [OF sym])

declare sf_write_all.simps [simp del]

definition sf_flush :: "(sftp_client \<Rightarrow> bool) \<Rightarrow> nat \<Rightarrow> (sftp_client, unit) prog" where
  "sf_flush rdy i =
     seqp (gets (\<lambda>s. wbuffer (sf_buf (the_f i s)))) (\<lambda>w.
     seqp (sf_write_all rdy i w) (\<lambda>_. on_buf i (\<lambda>b. b\<lparr>wbuffer := []\<rparr>)))"

definition sf_write :: "(sftp_client \<Rightarrow> bool) \<Rightarrow> nat \<Rightarrow> py_obj \<Rightarrow> (sftp_client, unit) prog" where
  "sf_write rdy i obj =
     seqp (liftr (to_bytes obj)) (\<lambda>data.
     seqp (gets (\<lambda>s. sf_buf (the_f i s))) (\<lambda>b.
     if f_closed b then raise (IOError ''File is closed'')
     else if \<not> flag_write b then raise (IOError ''File not open for writing'')
     else if \<not> flag_buffered b then sf_write_all rdy i data
     else
       seqp (on_buf i (\<lambda>b. b\<lparr>wbuffer := wbuffer b @ data\<rparr>)) (\<lambda>_.
       seqp (gets (\<lambda>s. sf_buf (the_f i s))) (\<lambda>b.
       if flag_line_buffered b then
         (case last_newline data of
            None \<Rightarrow> ret ()
          | Some k \<Rightarrow>
              (let wbuf = wbuffer b; cut = length wbuf - length data + k
               in seqp (sf_write_all rdy i (take cut wbuf)) (\<lambda>_. on_buf i (\<lambda>b. b\<lparr>wbuffer := drop cut wbuf\<rparr>))))
       else if bufsize b \<le> int (length (wbuffer b)) then sf_flush rdy i else ret ()))))"


section \<open>The other operations of a file\<close>

definition handle_of :: "nat \<Rightarrow> sftp_client \<Rightarrow> bytes" where
  "handle_of i s = sf_handle (the_f i s)"

definition sf_stat :: "nat \<Rightarrow> (sftp_client, sftp_attr) prog" where
  "sf_stat i = seqp (gets (handle_of i)) (\<lambda>h. seqp (expect CMD_ATTRS CMD_FSTAT [RBytes h]) (\<lambda>m. ret (fst (attr_unpack m))))"

text \<open>\<open>_get_size\<close>: any exception is a size of 0.\<close>

definition get_size :: "nat \<Rightarrow> (sftp_client, int option) prog" where
  "get_size i s =
     (case sf_stat i s of
        (Ret a, s1) \<Rightarrow> (Ret (st_size a), s1)
      | (Exn e, s1) \<Rightarrow> (Ret (Some 0), s1)
      | (Blocked, s1) \<Rightarrow> (Blocked, s1))"

definition set_file :: "nat \<Rightarrow> sftp_attr \<Rightarrow> (sftp_client, unit) prog" where
  "set_file i a = seqp (gets (handle_of i)) (\<lambda>h. command CMD_FSETSTAT [RBytes h, RAttr a])"

definition sf_chmod :: "nat \<Rightarrow> int \<Rightarrow> (sftp_client, unit) prog" where
  "sf_chmod i mode = set_file i (new_attr\<lparr>st_mode := Some mode\<rparr>)"

definition sf_chown :: "nat \<Rightarrow> int \<Rightarrow> int \<Rightarrow> (sftp_client, unit) prog" where
  "sf_chown i uid gid = set_file i (new_attr\<lparr>st_uid := Some uid, st_gid := Some gid\<rparr>)"

definition sf_utime :: "nat \<Rightarrow> (int \<times> int) option \<Rightarrow> int \<Rightarrow> (sftp_client, unit) prog" where
  "sf_utime i tms now =
     (let (atm, mtm) = (case tms of None \<Rightarrow> (now, now) | Some t \<Rightarrow> t)
      in set_file i (new_attr\<lparr>st_atime := Some atm, st_mtime := Some mtm\<rparr>))"

definition sf_truncate :: "nat \<Rightarrow> int \<Rightarrow> (sftp_client, unit) prog" where
  "sf_truncate i sz = set_file i (new_attr\<lparr>st_size := Some sz\<rparr>)"

definition sf_check :: "nat \<Rightarrow> pystr \<Rightarrow> int \<Rightarrow> int \<Rightarrow> int \<Rightarrow> (sftp_client, bytes) prog" where
  "sf_check i alg off len block_size =
     seqp (gets (handle_of i)) (\<lambda>h.
     seqp (request CMD_EXTENDED [RText (lit ''check-file''), RBytes h, RText alg, RInt64 off, RInt64 len, RInt block_size]) (\<lambda>(t, m).
     seqp (liftr (get_text m)) (\<lambda>(ext, m).
     seqp (liftr (get_text m)) (\<lambda>(alg', m). ret (fst (get_remainder m))))))"

definition set_pipelined :: "nat \<Rightarrow> bool \<Rightarrow> (sftp_client, unit) prog" where
  "set_pipelined i b = upd_f i (\<lambda>f. f\<lparr>sf_pipelined := b\<rparr>)"

text \<open>\<open>seek\<close>; a size the server leaves out makes the sum fail.\<close>

definition sf_seek :: "(sftp_client \<Rightarrow> bool) \<Rightarrow> nat \<Rightarrow> int \<Rightarrow> int \<Rightarrow> (sftp_client, unit) prog" where
  "sf_seek rdy i off whence =
     seqp (sf_flush rdy i) (\<lambda>_.
     seqp (if whence = 0 then on_buf i (\<lambda>b. b\<lparr>pos := off, realpos := off\<rparr>)
           else if whence = 1 then on_buf i (\<lambda>b. b\<lparr>pos := pos b + off, realpos := pos b + off\<rparr>)
           else seqp (get_size i) (\<lambda>n.
             case n of None \<Rightarrow> raise TypeError | Some n \<Rightarrow> on_buf i (\<lambda>b. b\<lparr>pos := n + off, realpos := n + off\<rparr>))) (\<lambda>_.
     on_buf i (\<lambda>b. b\<lparr>rbuffer := []\<rparr>)))"

function finish_responses :: "nat \<Rightarrow> sftp_client \<Rightarrow> unit outcome \<times> sftp_client" where
  "finish_responses i s =
     (if Some i \<in> set (map snd (sc_expecting s)) then
        (case read_response None s of
           (Exn e, s1) \<Rightarrow> (Exn e, s1)
         | (Blocked, s1) \<Rightarrow> (Blocked, s1)
         | (Ret x, s1) \<Rightarrow>
             (case check_exception i s1 of
                (Exn e, s2) \<Rightarrow> (Exn e, s2)
              | (Blocked, s2) \<Rightarrow> (Blocked, s2)
              | (Ret u, s2) \<Rightarrow> finish_responses i s2))
      else (Ret (), s))"
  by pat_completeness auto
termination
  by (relation "measure (\<lambda>(i, s). in_size s)")
    (auto dest!: read_response_smaller [OF sym] check_exception_size [OF sym])

declare finish_responses.simps [simp del]

text \<open>\<open>_close\<close>; \<open>async\<close> sends the request and does not wait.\<close>

definition pass_io :: "(sftp_client, unit) prog \<Rightarrow> (sftp_client, unit) prog" where
  "pass_io m s =
     (case m s of (Exn e, s1) \<Rightarrow> if e = EOFError \<or> io_errno e \<noteq> None then (Ret (), s1) else (Exn e, s1) | r \<Rightarrow> r)"

definition sf_close :: "(sftp_client \<Rightarrow> bool) \<Rightarrow> nat \<Rightarrow> bool \<Rightarrow> (sftp_client, unit) prog" where
  "sf_close rdy i async =
     seqp (gets (the_f i)) (\<lambda>f.
     if f_closed (sf_buf f) then ret ()
     else
       seqp (if sf_pipelined f then finish_responses i else ret ()) (\<lambda>_.
       seqp (sf_flush rdy i) (\<lambda>_.
       seqp (on_buf i (\<lambda>b. b\<lparr>f_closed := True\<rparr>)) (\<lambda>_.
       pass_io (if async then seqp (async_request None CMD_CLOSE [RBytes (sf_handle f)]) (\<lambda>_. ret ())
                else command CMD_CLOSE [RBytes (sf_handle f)])))))"

section \<open>Prefetching\<close>

function cut_chunks :: "int \<Rightarrow> int \<Rightarrow> (int \<times> int) list" where
  "cut_chunks off sz =
     (if 0 < sz then (off, min sz MAX_REQUEST_SIZE) # cut_chunks (off + min sz MAX_REQUEST_SIZE) (sz - min sz MAX_REQUEST_SIZE) else [])"
  by auto
termination
  by (relation "measure (\<lambda>(off, sz). nat sz)") (auto simp: MAX_REQUEST_SIZE_def)

declare cut_chunks.simps [simp del]

definition start_prefetch :: "nat \<Rightarrow> (int \<times> int) list \<Rightarrow> int option \<Rightarrow> (sftp_client, unit) prog" where
  "start_prefetch i parts limit =
     upd_f i (\<lambda>f. f\<lparr>sf_prefetching := True, sf_done := False, sf_threads := sf_threads f @ [(None, parts, limit)]\<rparr>)"

text \<open>
  The steps of a thread. It waits while the limit is reached, and otherwise sends the request for its next chunk; an
  exception ends it. Then it records what it has asked for. In between the response may come.
\<close>

definition prefetch_send :: "nat \<Rightarrow> nat \<Rightarrow> sftp_client \<Rightarrow> sftp_client" where
  "prefetch_send i k s =
     (case sf_threads (the_f i s) ! k of
        (Some asked, parts, limit) \<Rightarrow> s
      | (None, [], limit) \<Rightarrow> s
      | (None, (off, len) # parts, limit) \<Rightarrow>
          if (case limit of None \<Rightarrow> False | Some n \<Rightarrow> n \<le> int (length (sf_extents (the_f i s)))) then s
          else
            (case async_request (Some i) CMD_READ [RBytes (handle_of i s), RInt64 off, RInt len] s of
               (Ret num, s1) \<Rightarrow> snd (upd_f i (\<lambda>f. f\<lparr>sf_threads := (sf_threads f)[k := (Some (num, off, len), parts, limit)]\<rparr>) s1)
             | (Exn e, s1) \<Rightarrow> snd (upd_f i (\<lambda>f. f\<lparr>sf_threads := (sf_threads f)[k := (None, [], limit)]\<rparr>) s1)
             | (Blocked, s1) \<Rightarrow> s1))"

definition prefetch_record :: "nat \<Rightarrow> nat \<Rightarrow> sftp_client \<Rightarrow> sftp_client" where
  "prefetch_record i k s = snd (upd_f i (record_extent k) s)"

definition prefetch :: "nat \<Rightarrow> int option \<Rightarrow> int option \<Rightarrow> (sftp_client, unit) prog" where
  "prefetch i file_size limit =
     seqp (case file_size of
         Some n \<Rightarrow> ret n
       | None \<Rightarrow> seqp (sf_stat i) (\<lambda>a. case st_size a of None \<Rightarrow> raise TypeError | Some n \<Rightarrow> ret n)) (\<lambda>n.
     seqp (gets (\<lambda>s. realpos (sf_buf (the_f i s)))) (\<lambda>r.
     (let parts = cut_chunks r (n - r)
      in if 0 < length parts then start_prefetch i parts limit else ret ())))"

text \<open>The test of \<open>readv\<close> takes a buffer at offset 0 for none.\<close>

definition readv_plan :: "sfile \<Rightarrow> (int \<times> int) list \<Rightarrow> (int \<times> int) list" where
  "readv_plan f parts =
     concat (map (\<lambda>(off, sz).
       if in_buffers (sf_data f) off \<notin> {None, Some 0} \<or> in_requests (map snd (sf_extents f)) off sz then [] else cut_chunks off sz) parts)"

fun readv_reads :: "(sftp_client \<Rightarrow> bool) \<Rightarrow> nat \<Rightarrow> (int \<times> int) list \<Rightarrow> (sftp_client, bytes list) prog" where
  "readv_reads rdy i [] = ret []"
| "readv_reads rdy i ((off, sz) # r) =
     seqp (sf_seek rdy i off 0) (\<lambda>_. seqp (sf_read i (Some sz)) (\<lambda>d. seqp (readv_reads rdy i r) (\<lambda>ds. ret (d # ds))))"

definition readv :: "(sftp_client \<Rightarrow> bool) \<Rightarrow> nat \<Rightarrow> (int \<times> int) list \<Rightarrow> int option \<Rightarrow> (sftp_client, bytes list) prog" where
  "readv rdy i parts limit =
     seqp (gets (\<lambda>s. readv_plan (the_f i s) parts)) (\<lambda>plan.
     seqp (start_prefetch i plan limit) (\<lambda>_. readv_reads rdy i parts))"

section \<open>Opening files, and whole transfers\<close>

definition open_flags :: "string \<Rightarrow> int" where
  "open_flags mode =
     (let has = (\<lambda>c. c \<in> set mode); fl = 0;
          fl = (if has (CHR ''r'') \<or> has (CHR ''+'') then fl OR 1 else fl);
          fl = (if has (CHR ''w'') \<or> has (CHR ''+'') \<or> has (CHR ''a'') then fl OR 2 else fl);
          fl = (if has (CHR ''w'') then fl OR 8 OR 0x10 else fl);
          fl = (if has (CHR ''a'') then fl OR 8 OR 4 else fl)
      in if has (CHR ''x'') then fl OR 8 OR 0x20 else fl)"

text \<open>\<open>SFTPFile(...)\<close>: the size is asked for when the mode appends.\<close>

definition make_file :: "bytes \<Rightarrow> string \<Rightarrow> int \<Rightarrow> (sftp_client, nat) prog" where
  "make_file handle mode bsize =
     seqp (gets (\<lambda>s. length (sc_files s))) (\<lambda>i.
     seqp (modify (\<lambda>s. s\<lparr>sc_files := sc_files s @ [new_sfile handle]\<rparr>)) (\<lambda>_.
     seqp (if CHR ''a'' \<in> set mode then get_size i else ret (Some 0)) (\<lambda>n.
     case n of
       None \<Rightarrow> raise TypeError
     | Some n \<Rightarrow> seqp (on_buf i (set_mode mode bsize n)) (\<lambda>_. ret i))))"

definition sc_open :: "py_obj \<Rightarrow> string \<Rightarrow> int \<Rightarrow> (sftp_client, nat) prog" where
  "sc_open filename mode bsize =
     with_path filename (\<lambda>p.
     seqp (expect CMD_HANDLE CMD_OPEN [RBytes p, RInt (open_flags mode), RAttr new_attr]) (\<lambda>m.
     make_file (fst (get_binary m)) mode bsize))"

text \<open>A \<open>with\<close> block over an open file: it is closed however the block ends.\<close>

definition closing :: "(sftp_client \<Rightarrow> bool) \<Rightarrow> nat \<Rightarrow> (sftp_client, 'a) prog \<Rightarrow> (sftp_client, 'a) prog" where
  "closing rdy i m s =
     (case m s of
        (Blocked, s1) \<Rightarrow> (Blocked, s1)
      | (r, s1) \<Rightarrow>
          (case sf_close rdy i False s1 of
             (Ret u, s2) \<Rightarrow> (r, s2)
           | (Exn e, s2) \<Rightarrow> (Exn e, s2)
           | (Blocked, s2) \<Rightarrow> (Blocked, s2)))"

text \<open>
  \<open>_transfer_with_callback\<close>, from a local stream to a file of the server and the other way round; the
  calls of the callback are left out.
\<close>

definition TRANSFER_SIZE :: int where "TRANSFER_SIZE = 32768"

function put_loop :: "(sftp_client \<Rightarrow> bool) \<Rightarrow> nat \<Rightarrow> raw_in list \<Rightarrow> int \<Rightarrow> sftp_client \<Rightarrow> int outcome \<times> sftp_client" where
  "put_loop rdy i es sz s =
     (case raw_read TRANSFER_SIZE es of
        (Inl e, es') \<Rightarrow> (Exn e, s)
      | (Inr d, es') \<Rightarrow>
          (case sf_write rdy i (PBytes d) s of
             (Exn e, s1) \<Rightarrow> (Exn e, s1)
           | (Blocked, s1) \<Rightarrow> (Blocked, s1)
           | (Ret u, s1) \<Rightarrow> if d = [] then (Ret sz, s1) else put_loop rdy i es' (sz + int (length d)) s1))"
  by pat_completeness auto
termination
  by (relation "measure (\<lambda>(r, i, es, sz, s). src_size es)") (auto dest: raw_read_smaller [OF sym])

declare put_loop.simps [simp del]

definition putfo :: "(sftp_client \<Rightarrow> bool) \<Rightarrow> raw_in list \<Rightarrow> py_obj \<Rightarrow> bool \<Rightarrow> (sftp_client, sftp_attr) prog" where
  "putfo rdy fl remotepath confirm =
     seqp (sc_open remotepath ''wb'' (-1)) (\<lambda>i.
     seqp (closing rdy i (seqp (set_pipelined i True) (\<lambda>_. put_loop rdy i fl 0))) (\<lambda>sz.
     if confirm then
       seqp (sc_stat remotepath) (\<lambda>a.
       if st_size a \<noteq> Some sz then raise (IOError ''size mismatch in put!'') else ret a)
     else ret new_attr))"


text \<open>Into a local stream, as the bytes it gets; at most \<open>fuel\<close> rounds.\<close>

fun get_loop :: "nat \<Rightarrow> nat \<Rightarrow> bytes \<Rightarrow> (sftp_client, bytes) prog" where
  "get_loop 0 i out s = (Blocked, s)"
| "get_loop (Suc fuel) i out s =
     seqp (sf_read i (Some TRANSFER_SIZE)) (\<lambda>d. if d = [] then ret out else get_loop fuel i (out @ d)) s"

definition getfo :: "nat \<Rightarrow> (sftp_client \<Rightarrow> bool) \<Rightarrow> py_obj \<Rightarrow> bool \<Rightarrow> int option \<Rightarrow> (sftp_client, bytes \<times> int) prog" where
  "getfo fuel rdy remotepath pf limit =
     seqp (sc_stat remotepath) (\<lambda>a.
     seqp (sc_open remotepath ''rb'' (-1)) (\<lambda>i.
     seqp (closing rdy i
       (seqp (if pf then prefetch i (st_size a) limit else ret ()) (\<lambda>_. get_loop fuel i []))) (\<lambda>out.
     ret (out, int (length out)))))"

text \<open>\<open>get\<close>: \<open>local_size\<close> is the size the local file has in the end.\<close>

definition sc_get :: "nat \<Rightarrow> (sftp_client \<Rightarrow> bool) \<Rightarrow> py_obj \<Rightarrow> bool \<Rightarrow> int option \<Rightarrow> (bytes \<Rightarrow> int) \<Rightarrow> (sftp_client, bytes) prog" where
  "sc_get fuel rdy remotepath pf limit local_size =
     seqp (getfo fuel rdy remotepath pf limit) (\<lambda>(out, sz).
     if local_size out \<noteq> sz then raise (IOError ''size mismatch in get!'') else ret out)"

end
