(* ===== verification/Sftp_Server_Props.thy ===== *)
theory Sftp_Server_Props
  imports Sftp_Server Sftp_Props
begin

text \<open>
  The SFTP server: no request is answered twice; every request but a \<open>check-file\<close> is answered, by a packet of a
  fitting type (an \<open>FSETSTAT\<close> on an unknown handle apart); handle names are never reused.
\<close>

section \<open>Handlers end with their answer\<close>

definition ready :: "sftp_conn \<Rightarrow> bool" where
  "ready c \<longleftrightarrow> (case s_tx c of Count k # _ \<Rightarrow> 2 ^ 33 \<le> k | _ \<Rightarrow> False)"

definition for_request :: "int \<Rightarrow> bytes \<Rightarrow> bool" where
  "for_request rn w \<longleftrightarrow> take 4 w = be_bytes 4 rn"

text \<open>
  A handler answers: it returns after sending one packet of a type in \<open>T\<close> that begins with the request's
  number, or it has sent nothing and a connection that takes everything still does.
\<close>

definition answered :: "int \<Rightarrow> int set \<Rightarrow> 'f sftp_server \<Rightarrow> 'a outcome \<Rightarrow> 'f sftp_server \<Rightarrow> bool" where
  "answered rn T s r s' \<longleftrightarrow>
     (case r of
        Ret x \<Rightarrow> (\<exists>t w. ss_sent s' = ss_sent s @ [(t, w)] \<and> t \<in> T \<and> for_request rn w)
      | Exn e \<Rightarrow> ss_sent s' = ss_sent s \<and> (ready (ss_conn s) \<longrightarrow> ready (ss_conn s'))
      | Blocked \<Rightarrow> ss_sent s' = ss_sent s)"

definition answers :: "int \<Rightarrow> int set \<Rightarrow> ('f sftp_server, 'a) prog \<Rightarrow> bool" where
  "answers rn T m \<longleftrightarrow> (\<forall>s. answered rn T s (fst (m s)) (snd (m s)))"

definition quiet :: "('f sftp_server, 'a) prog \<Rightarrow> bool" where
  "quiet m \<longleftrightarrow> (\<forall>s r s'. m s = (r, s') \<longrightarrow> ss_sent s' = ss_sent s \<and> ss_conn s' = ss_conn s)"

named_theorems handler_intro \<open>handlers that answer and steps that send nothing\<close>

lemma quietD: "quiet m \<Longrightarrow> m s = (r, s') \<Longrightarrow> ss_sent s' = ss_sent s \<and> ss_conn s' = ss_conn s"
  by (simp add: quiet_def)

lemma answersI: "(\<And>s r s'. m s = (r, s') \<Longrightarrow> answered rn T s r s') \<Longrightarrow> answers rn T m"
  by (simp add: answers_def)

lemma answersD: "answers rn T m \<Longrightarrow> m s = (r, s') \<Longrightarrow> answered rn T s r s'"
  by (auto simp: answers_def dest: spec [of _ s])

lemma answered_from: "ss_sent s1 = ss_sent s \<Longrightarrow> ss_conn s1 = ss_conn s \<Longrightarrow> answered rn T s1 r s' = answered rn T s r s'"
  by (cases r) (simp_all add: answered_def)

lemma answered_fails: "ss_sent s' = ss_sent s \<Longrightarrow> ss_conn s' = ss_conn s \<Longrightarrow> answered rn T s (Exn e) s' \<and> answered rn T s Blocked s'"
  by (simp add: answered_def)

lemma answers_seqp [handler_intro]:
  assumes "quiet m" and "\<And>x. answers rn T (f x)"
  shows "answers rn T (seqp m f)"
proof (rule answersI)
  fix s r s'
  assume run: "seqp m f s = (r, s')"
  obtain r1 s1 where m: "m s = (r1, s1)" by (metis prod.collapse)
  from quietD [OF assms(1) m] have q: "ss_sent s1 = ss_sent s" "ss_conn s1 = ss_conn s" by simp_all
  show "answered rn T s r s'"
  proof (cases r1)
    case (Ret x)
    with run m have "f x s1 = (r, s')" by (simp add: seqp_def)
    from answersD [OF assms(2) this] show ?thesis by (simp add: answered_from [OF q])
  qed (use run m answered_fails [OF q] in \<open>auto simp: seqp_def\<close>)
qed

lemma answers_weaken: "answers rn T m \<Longrightarrow> T \<subseteq> U \<Longrightarrow> answers rn U m"
  unfolding answers_def answered_def by (fastforce split: outcome.splits)

lemma answers_raise [handler_intro]: "answers rn T (raise e)"
  by (simp add: answers_def answered_def)

lemma answers_fails: "answers rn T (seqp (liftr (Inl e)) f)"
  by (simp add: answers_def answered_def)

lemma answers_goes: "answers rn T (f x) \<Longrightarrow> answers rn T (seqp (liftr (Inr x)) f)"
  by (simp add: answers_def)

lemma answers_if [handler_intro]: "(b \<Longrightarrow> answers rn T m) \<Longrightarrow> (\<not> b \<Longrightarrow> answers rn T n) \<Longrightarrow> answers rn T (if b then m else n)"
  by simp

lemma answers_at: "(\<And>s0. answers rn T (f s0)) \<Longrightarrow> answers rn T (\<lambda>s. f s s)"
  by (auto simp: answers_def)

lemma quiet_modify: "(\<And>s. ss_sent (g s) = ss_sent s \<and> ss_conn (g s) = ss_conn s) \<Longrightarrow> quiet (modify g)"
  by (simp add: quiet_def)

lemma quiet_liftr [handler_intro]: "quiet (liftr r)"
  by (simp add: quiet_def liftr_def)

lemma quiet_on_fs [handler_intro]: "quiet (on_fs m)"
  by (auto simp: quiet_def on_fs_def split: prod.splits)

lemma quiet_on_file [handler_intro]: "quiet (on_file hname h m)"
  by (auto simp: quiet_def on_file_def split: prod.splits)

lemma quiet_register [handler_intro]: "quiet (register_handle h folder)"
  by (auto simp: quiet_def register_handle_def Let_def)

section \<open>Sending\<close>

lemma write_all_ready:
  assumes "sftp_write_all out c = (r, c')" and "ready c" and "int (length out) < 2 ^ 33"
  shows "r = Ret ()"
proof -
  from assms(2) obtain k ws where k: "s_tx c = Count k # ws" "2 ^ 33 \<le> k"
    by (auto simp: ready_def split: list.splits raw_out.splits)
  then have "min k (length out) = length out" using assms(3) by simp
  with k(1) assms(1) show ?thesis by (auto simp: sftp_write_all_def Let_def split: if_splits)
qed

lemma send_packet_ready:
  assumes "send_packet t pkt c = (Exn e, c')" and "ready c"
  shows "c' = c"
proof -
  have "c' = c" if "pack_I (int (length pkt) + 1) = Inl e0" for e0 using assms(1) that by (simp add: send_packet_def seqp_def liftr_def)
  moreover have "c' = c" if "pack_I (int (length pkt) + 1) = Inr l" "byte_chr t = Inl e0" for l e0
    using assms(1) that by (simp add: send_packet_def seqp_def liftr_def)
  moreover have False if l: "pack_I (int (length pkt) + 1) = Inr l" and b: "byte_chr t = Inr b" for l b
  proof -
    have w: "sftp_write_all (l @ b @ pkt) c = (Exn e, c')" using assms(1) l b by (simp add: send_packet_def seqp_def liftr_def)
    have "int (length pkt) + 1 < 2 ^ 32" using l by (auto simp: pack_I_def split: if_splits)
    moreover have "length l = 4" "length b = 1" using l b by (auto simp: pack_I_length byte_chr_def pack_B_def split: if_splits)
    ultimately have "int (length (l @ b @ pkt)) < 2 ^ 33" by simp
    from write_all_ready [OF w assms(2) this] show False by simp
  qed
  ultimately show ?thesis by (metis sumE)
qed

lemma srv_send_answers:
  assumes "for_request rn w" and "t \<in> T"
  shows "answers rn T (srv_send t w)"
proof (rule answersI)
  fix s :: "'f sftp_server" and r s'
  assume run: "srv_send t w s = (r, s')"
  obtain x c where x: "send_packet t w (ss_conn s) = (x, c)" by (metis prod.collapse)
  show "answered rn T s r s'"
    using run x send_packet_ready [of t w "ss_conn s"] assms by (cases x) (auto simp: srv_send_def answered_def)
qed

text \<open>What is composed after the request's number begins with it.\<close>

definition extends :: "message \<Rightarrow> message \<Rightarrow> bool" where
  "extends m m' \<longleftrightarrow> at_end m' \<and> (\<exists>b. packet m' = packet m @ b)"

lemma extends_trans: "extends a b \<Longrightarrow> extends b c \<Longrightarrow> extends a c"
  by (auto simp: extends_def)

lemma fields_extend: "at_end m \<Longrightarrow> add_seq add_field m fs = Inr m' \<Longrightarrow> extends m m'"
  by (auto simp: add_fields_enc bind_res_eq_Inr extends_def)

fun item_fields :: "resp_item \<Rightarrow> field list" where
  "item_fields (RInt64 n) = [FInt64 n]"
| "item_fields (RInt n) = [FInt n]"
| "item_fields (RText s) = [FText s]"
| "item_fields (RBytes b) = [FString b]"
| "item_fields (RAttr a) = attr_fields a"

lemma one_field: "add_seq add_field m [f] = add_field m f"
  by (cases "add_field m f") simp_all

lemma add_item_fields: "add_item m i = add_seq add_field m (item_fields i)"
proof (cases i)
  case (RAttr a)
  then show ?thesis by (simp add: attr_pack_fields)
qed (simp_all add: one_field del: add_seq.simps)

lemma add_items_fields: "add_seq add_item m items = add_seq add_field m (concat (map item_fields items))"
  by (induction items arbitrary: m) (simp_all add: add_item_fields add_seq_append)

lemma listing_extends: "at_end m \<Longrightarrow> add_listing env m l = Inr m' \<Longrightarrow> extends m m'"
proof (induction env m l rule: add_listing.induct)
  case (1 env m)
  then show ?case by (simp add: extends_def)
next
  case (2 env m filename a r)
  then obtain nm m1 m2 m3 where f: "filename = Some nm" "add_string m (PStr nm) = Inr m1"
    "add_string m1 (PBytes (long_name env filename a)) = Inr m2" "attr_pack a m2 = Inr m3" "add_listing env m3 r = Inr m'"
    by (auto simp: bind_res_eq_Inr split: option.splits)
  have "add_seq add_field m ([FText nm, FString (long_name env filename a)] @ attr_fields a) = Inr m3"
    using f(2-4) by (simp add: attr_pack_fields)
  from fields_extend [OF 2(2) this] have e: "extends m m3" .
  then have "extends m3 m'" using 2(1) [OF f(1), of m1 m2 m3] f by (simp add: extends_def)
  with e show ?case by (rule extends_trans)
qed

lemma number_first:
  assumes "add_int new_message rn = Inr m" and "extends m m'"
  shows "for_request rn (msg_asbytes m')"
proof -
  from assms(1) have "packet m = be_bytes 4 rn"
    by (auto simp: wf_int.add_enc bind_res_eq_Inr pack_I_def bio_write_at_end split: if_splits) (simp add: new_message_def)
  with assms(2) show ?thesis by (auto simp: extends_def for_request_def msg_asbytes_def)
qed

lemma response_answers:
  assumes "t \<in> T"
  shows "answers rn T (response rn t items)"
proof (cases "bind_res (add_int new_message rn) (\<lambda>m. add_seq add_item m items)")
  case (Inl e)
  then show ?thesis by (simp add: response_def answers_fails)
next
  case (Inr m')
  then obtain m where m: "add_int new_message rn = Inr m" "add_seq add_item m items = Inr m'" by (auto simp: bind_res_eq_Inr)
  then have "at_end m" by (auto simp: wf_int.add_enc bind_res_eq_Inr)
  with m have "for_request rn (msg_asbytes m')" by (intro number_first [OF m(1)] fields_extend) (simp_all add: add_items_fields)
  from srv_send_answers [OF this assms] show ?thesis
    unfolding response_def Inr by (rule answers_goes)
qed

lemma send_status_answers [handler_intro]: "CMD_STATUS \<in> T \<Longrightarrow> answers rn T (send_status rn code desc)"
  unfolding send_status_def by (rule response_answers)

lemma composed_answers:
  assumes "\<And>m m'. at_end m \<Longrightarrow> f m = Inr m' \<Longrightarrow> extends m m'" and "t \<in> T"
  shows "answers rn T (seqp (liftr (bind_res (add_int new_message rn) f)) (\<lambda>m. srv_send t (msg_asbytes m)))"
proof (cases "bind_res (add_int new_message rn) f")
  case (Inl e)
  then show ?thesis by (simp add: answers_fails)
next
  case (Inr m')
  then obtain m where m: "add_int new_message rn = Inr m" "f m = Inr m'" by (auto simp: bind_res_eq_Inr)
  then have "at_end m" by (auto simp: wf_int.add_enc bind_res_eq_Inr)
  with m assms(1) have "for_request rn (msg_asbytes m')" by (blast intro: number_first)
  from srv_send_answers [OF this assms(2)] show ?thesis unfolding Inr by (rule answers_goes)
qed

section \<open>Every handler answers\<close>

lemma handle_response_answers [handler_intro]:
  "CMD_STATUS \<in> T \<Longrightarrow> CMD_HANDLE \<in> T \<Longrightarrow> answers rn T (send_handle_response rn r folder)"
  unfolding send_handle_response_def by (cases r) (auto intro!: handler_intro response_answers)

lemma open_folder_answers [handler_intro]:
  "CMD_STATUS \<in> T \<Longrightarrow> CMD_HANDLE \<in> T \<Longrightarrow> answers rn T (open_folder si rn path)"
  unfolding open_folder_def by (intro handler_intro) (auto intro!: handler_intro split: sum.split)

lemma read_folder_answers:
  "CMD_STATUS \<in> T \<Longrightarrow> CMD_NAME \<in> T \<Longrightarrow> answers rn T (read_folder env rn hname folder)"
proof -
  assume T: "CMD_STATUS \<in> T" "CMD_NAME \<in> T"
  have l: "extends m m'" if "at_end m" "bind_res (add_int m n) (\<lambda>m. add_listing env m l) = Inr m'" for m m' n l
  proof -
    from that(2) obtain m1 where m1: "add_int m n = Inr m1" "add_listing env m1 l = Inr m'" by (auto simp: bind_res_eq_Inr)
    have e: "extends m m1" using fields_extend [OF that(1), of "[FInt n]" m1] m1(1) by simp
    then have "at_end m1" by (simp add: extends_def)
    from extends_trans [OF e listing_extends [OF this m1(2)]] show ?thesis .
  qed
  show ?thesis
    unfolding read_folder_def get_next_files_def Let_def prod.case
    by (intro handler_intro quiet_modify composed_answers l T) simp_all
qed

lemma status_of_answers [handler_intro]: "CMD_STATUS \<in> T \<Longrightarrow> answers rn T (status_of rn m)"
  unfolding status_of_def by (intro handler_intro)

lemma attrs_of_answers [handler_intro]: "CMD_STATUS \<in> T \<Longrightarrow> CMD_ATTRS \<in> T \<Longrightarrow> answers rn T (attrs_of rn m)"
  unfolding attrs_of_def by (intro handler_intro) (auto intro!: handler_intro response_answers split: sum.split)

lemma with_file_answers [handler_intro]:
  "CMD_STATUS \<in> T \<Longrightarrow> (\<And>h. answers rn T (f h)) \<Longrightarrow> answers rn T (with_file rn hname f)"
proof -
  assume T: "CMD_STATUS \<in> T" and f: "\<And>h. answers rn T (f h)"
  have "answers rn T (case map_of (ss_files s0) hname of None \<Rightarrow> bad_handle rn | Some h \<Rightarrow> f h)" for s0 :: "'a sftp_server"
    using T f by (auto simp: bad_handle_def intro!: handler_intro split: option.split)
  from answers_at [OF this] show ?thesis
    unfolding with_file_def [abs_def] by (simp add: option.case_distrib [of "\<lambda>g. g _"])
qed

lemma path_request_answers [handler_intro]: "(\<And>p. answers rn T (f p)) \<Longrightarrow> answers rn T (path_request m f)"
  unfolding path_request_def by (intro handler_intro) (auto split: prod.split)

lemma two_paths_answers [handler_intro]: "(\<And>p q. answers rn T (f p q)) \<Longrightarrow> answers rn T (two_paths m f)"
  unfolding two_paths_def by (intro handler_intro) (auto intro!: handler_intro split: prod.split)

lemma path_attr_answers [handler_intro]: "(\<And>p a. answers rn T (f p a)) \<Longrightarrow> answers rn T (path_attr m f)"
  unfolding path_attr_def by (intro handler_intro) (auto split: prod.split)

section \<open>The commands\<close>

text \<open>What a request may be answered with, beside a status.\<close>

definition reply_types :: "int \<Rightarrow> int set" where
  "reply_types t = insert CMD_STATUS
     (if t = CMD_OPEN \<or> t = CMD_OPENDIR then {CMD_HANDLE} else if t = CMD_READ then {CMD_DATA}
      else if t = CMD_READDIR \<or> t = CMD_READLINK \<or> t = CMD_REALPATH then {CMD_NAME}
      else if t = CMD_STAT \<or> t = CMD_LSTAT \<or> t = CMD_FSTAT then {CMD_ATTRS}
      else if t = CMD_EXTENDED then {CMD_EXTENDED_REPLY} else {})"

text \<open>A \<open>FSETSTAT\<close> on a handle that is not open gets a packet of another type.\<close>

definition stray_fsetstat :: "int \<Rightarrow> message \<Rightarrow> 'f sftp_server \<Rightarrow> bool" where
  "stray_fsetstat t m s \<longleftrightarrow> t = CMD_FSETSTAT \<and> map_of (ss_files s) (fst (get_binary m)) = None"

definition used_types :: "int \<Rightarrow> message \<Rightarrow> 'f sftp_server \<Rightarrow> int set" where
  "used_types t m s = (if stray_fsetstat t m s then {CMD_STATUS, SFTP_BAD_MESSAGE} else reply_types t)"

lemma bad_handle_answers [handler_intro]: "CMD_STATUS \<in> T \<Longrightarrow> answers rn T (bad_handle rn)"
  unfolding bad_handle_def by (intro handler_intro)

lemma quiet_seqp [handler_intro]: "quiet m \<Longrightarrow> (\<And>x. quiet (f x)) \<Longrightarrow> quiet (seqp m f)"
  unfolding quiet_def seqp_def by (auto split: prod.splits outcome.splits)

lemma process_open_answers: "CMD_STATUS \<in> T \<Longrightarrow> CMD_HANDLE \<in> T \<Longrightarrow> answers rn T (process_open si rn m)"
  unfolding process_open_def by (intro handler_intro) (auto intro!: handler_intro simp: Let_def split: prod.split)

lemma answers_same: "(\<And>s. \<exists>n. answers rn T n \<and> m s = n s) \<Longrightarrow> answers rn T m"
  unfolding answers_def by metis

lemma process_close_answers:
  assumes "CMD_STATUS \<in> T"
  shows "answers rn T (process_close si rn m)"
proof (rule answers_same)
  fix s :: "'a sftp_server"
  let ?h = "fst (get_binary m)"
  let ?drop = "seqp (modify (\<lambda>s. s\<lparr>ss_folders := AList.delete ?h (ss_folders s)\<rparr>)) (\<lambda>_. send_status rn SFTP_OK None)"
  let ?close = "\<lambda>h. seqp (on_file ?h h (handle_finish si)) (\<lambda>_.
     seqp (modify (\<lambda>s. s\<lparr>ss_files := AList.delete ?h (ss_files s)\<rparr>)) (\<lambda>_. send_status rn SFTP_OK None))"
  have d: "answers rn T ?drop" by (intro handler_intro quiet_modify assms) simp
  have c: "answers rn T (?close h)" for h by (intro handler_intro quiet_modify assms) simp
  have b: "answers rn T (bad_handle rn)" by (intro handler_intro assms)
  show "\<exists>n. answers rn T n \<and> process_close si rn m s = n s"
  proof (cases "map_of (ss_folders s) ?h")
    case None
    show ?thesis
    proof (cases "map_of (ss_files s) ?h")
      case None
      with \<open>map_of (ss_folders s) ?h = None\<close> b show ?thesis by (intro exI [of _ "bad_handle rn"]) (simp add: process_close_def Let_def)
    next
      case (Some h)
      with \<open>map_of (ss_folders s) ?h = None\<close> c show ?thesis by (intro exI [of _ "?close h"]) (simp add: process_close_def Let_def)
    qed
  next
    case (Some h)
    with d show ?thesis by (intro exI [of _ ?drop]) (simp add: process_close_def Let_def)
  qed
qed

lemma process_read_answers: "CMD_STATUS \<in> T \<Longrightarrow> CMD_DATA \<in> T \<Longrightarrow> answers rn T (process_read si rn m)"
  unfolding process_read_def Let_def split_beta
  by (intro handler_intro) (auto intro!: handler_intro response_answers split: sum.split)

lemma process_write_answers: "CMD_STATUS \<in> T \<Longrightarrow> answers rn T (process_write si rn m)"
  unfolding process_write_def Let_def split_beta by (intro handler_intro)

lemma process_readdir_answers: "CMD_STATUS \<in> T \<Longrightarrow> CMD_NAME \<in> T \<Longrightarrow> answers rn T (process_readdir env rn m)"
proof -
  assume T: "CMD_STATUS \<in> T" "CMD_NAME \<in> T"
  have "answers rn T (case map_of (ss_folders s0) (fst (get_binary m)) of
      None \<Rightarrow> bad_handle rn | Some h \<Rightarrow> read_folder env rn (fst (get_binary m)) h)" for s0 :: "'a sftp_server"
    using T by (auto intro!: handler_intro read_folder_answers split: option.split)
  from answers_at [OF this] show ?thesis
    unfolding process_readdir_def [abs_def] Let_def by (simp add: option.case_distrib [of "\<lambda>g. g _"])
qed

lemma process_fstat_answers: "CMD_STATUS \<in> T \<Longrightarrow> CMD_ATTRS \<in> T \<Longrightarrow> answers rn T (process_fstat si rn m)"
  unfolding process_fstat_def Let_def by (intro handler_intro)

lemma process_fsetstat_answers:
  "process_fsetstat si rn m s = (r, s') \<Longrightarrow>
     answered rn (if map_of (ss_files s) (fst (get_binary m)) = None then {SFTP_BAD_MESSAGE} else {CMD_STATUS}) s r s'"
  by (auto simp: process_fsetstat_def Let_def split_beta split: option.splits
      intro: answersD [OF response_answers] answersD [OF status_of_answers])

lemma process_readlink_answers: "CMD_STATUS \<in> T \<Longrightarrow> CMD_NAME \<in> T \<Longrightarrow> answers rn T (process_readlink si rn m)"
  unfolding process_readlink_def split_beta
  by (intro handler_intro) (auto intro!: handler_intro response_answers split: sum.split)

text \<open>The hash computation sends nothing before its answer.\<close>

lemma quiet_hash_block: "quiet (hash_block si fuel hname blocklen chunklen off count acc)"
proof -
  have "ss_sent (snd (hash_block si fuel hname blocklen chunklen off count acc s)) = ss_sent s \<and>
      ss_conn (snd (hash_block si fuel hname blocklen chunklen off count acc s)) = ss_conn s" for s
  proof (induction si fuel hname blocklen chunklen off count acc s rule: hash_block.induct)
    case (1 si fuel hname blocklen chunklen off count acc s)
    show ?case
    proof (cases "\<exists>n h d s'. count < blocklen \<and> fuel = Suc n \<and> map_of (ss_files s) hname = Some h \<and>
        on_file hname h (handle_read si off chunklen) s = (Ret (Inl d), s')")
      case True
      then obtain n h d s' where t: "count < blocklen" "fuel = Suc n" "map_of (ss_files s) hname = Some h"
        "on_file hname h (handle_read si off chunklen) s = (Ret (Inl d), s')" by blast
      have q: "ss_sent s' = ss_sent s \<and> ss_conn s' = ss_conn s" by (rule quietD [OF quiet_on_file t(4)])
      have e: "hash_block si fuel hname blocklen chunklen off count acc s =
          hash_block si n hname blocklen chunklen (off + (count + int (length d))) (count + int (length d)) (acc @ d) s'"
        using t by (subst hash_block.simps) (simp add: Let_def)
      show ?thesis using 1 [OF t(1,2,3) t(4) [symmetric] refl refl refl] q unfolding e by simp
    next
      case False
      have q: "on_file hname h (handle_read si off chunklen) s = (r, s') \<Longrightarrow> ss_sent s' = ss_sent s \<and> ss_conn s' = ss_conn s" for h r s'
        by (rule quietD [OF quiet_on_file])
      from False show ?thesis
        by (subst (1 2) hash_block.simps) (auto dest: q split: nat.splits option.splits prod.splits outcome.splits sum.splits)
    qed
  qed
  then show ?thesis unfolding quiet_def by (metis snd_conv)
qed

lemma quiet_hash_blocks: "quiet (hash_blocks env si n alg hname stop bs off fuel out)"
proof (induction n arbitrary: off fuel out)
  case (Suc n)
  have q: "quiet (seqp (hash_block si fuel hname (min bs (stop - off)) (min (min bs (stop - off)) 65536) off 0 []) (\<lambda>r.
      case r of Inl code \<Rightarrow> ret (Inl code)
      | Inr (off, acc, fuel) \<Rightarrow> hash_blocks env si n alg hname stop bs off fuel (out @ hash_of env alg acc)))"
    by (rule quiet_seqp [OF quiet_hash_block]) (use Suc in \<open>auto simp: quiet_def split: sum.split prod.split\<close>)
  show ?case unfolding quiet_def
  proof (intro allI impI)
    fix s r s'
    assume "hash_blocks env si (Suc n) alg hname stop bs off fuel out s = (r, s')"
    then show "ss_sent s' = ss_sent s \<and> ss_conn s' = ss_conn s"
      using quietD [OF q, of s r s'] by (auto simp: Let_def split: if_splits)
  qed
qed (simp add: quiet_def)

lemma check_hashes_answers:
  assumes "CMD_STATUS \<in> T" and "CMD_EXTENDED_REPLY \<in> T"
  shows "answers rn T (check_hashes env si rn alg hname start len block_size)"
proof -
  have e: "extends m m'" if "at_end m" "bind_res (add_string m (PStr (lit ''check-file''))) (\<lambda>m.
      bind_res (add_string m (PStr alg)) (\<lambda>m. Inr (add_bytes m sum_out))) = Inr m'" for m m' sum_out
  proof -
    from that(2) obtain m1 where m1: "add_seq add_field m [FText (lit ''check-file''), FText alg] = Inr m1" "m' = add_bytes m1 sum_out"
      by (auto simp: bind_res_eq_Inr simp del: list.map)
    from fields_extend [OF that(1) m1(1)] have "extends m m1" .
    then show ?thesis using m1(2) by (auto simp: extends_def add_bytes_def)
  qed
  have c: "answers rn T (case r of Inl code \<Rightarrow> send_status rn code d
    | Inr sum_out \<Rightarrow> seqp (liftr (bind_res (add_int new_message rn) (\<lambda>m. bind_res (add_string m (PStr (lit ''check-file''))) (\<lambda>m.
        bind_res (add_string m (PStr alg)) (\<lambda>m. Inr (add_bytes m sum_out)))))) (\<lambda>m. srv_send CMD_EXTENDED_REPLY (msg_asbytes m)))" for r d
  proof (cases r)
    case (Inl code)
    show ?thesis unfolding Inl sum.case by (rule send_status_answers [OF assms(1)])
  next
    case (Inr sum_out)
    show ?thesis unfolding Inr sum.case by (rule composed_answers [OF e assms(2)])
  qed
  show ?thesis
    unfolding check_hashes_def Let_def
    by (intro answers_if send_status_answers assms answers_seqp [OF quiet_hash_blocks] c)
qed

lemma check_file_answers:
  assumes "CMD_STATUS \<in> T" and "CMD_EXTENDED_REPLY \<in> T"
  shows "answers rn T (check_file env (si :: 'f sftp_si) rn m)"
proof -
  have inner: "answers rn T (\<lambda>s :: 'f sftp_server. case map_of (ss_files s) hname of
        None \<Rightarrow> send_status rn SFTP_BAD_MESSAGE d s
      | Some h \<Rightarrow> (case alg of None \<Rightarrow> send_status rn SFTP_FAILURE d' s | Some a \<Rightarrow> if len = 0 then g h a s else k a s))"
    if "\<And>h a. answers rn T (g h a)" "\<And>a. answers rn T (k a)" for hname d d' alg and len :: int and g k
  proof (rule answers_same)
    fix s :: "'f sftp_server"
    let ?n = "case map_of (ss_files s) hname of
        None \<Rightarrow> send_status rn SFTP_BAD_MESSAGE d
      | Some h \<Rightarrow> (case alg of None \<Rightarrow> send_status rn SFTP_FAILURE d' | Some a \<Rightarrow> if len = 0 then g h a else k a)"
    have "answers rn T ?n" using that assms(1) by (auto intro!: handler_intro split: option.split)
    then show "\<exists>n. answers rn T n \<and> (case map_of (ss_files s) hname of
        None \<Rightarrow> send_status rn SFTP_BAD_MESSAGE d s
      | Some h \<Rightarrow> (case alg of None \<Rightarrow> send_status rn SFTP_FAILURE d' s | Some a \<Rightarrow> if len = 0 then g h a s else k a s)) = n s"
      by (intro exI [of _ ?n]) (auto split: option.split)
  qed
  have st: "answers rn T (case st of Inr code \<Rightarrow> send_status rn code d
      | Inl a \<Rightarrow> (case st_size a of None \<Rightarrow> raise TypeError | Some sz \<Rightarrow> check_hashes env si rn alg hname start (sz - start) bs))"
    for st d alg hname start bs
    using assms by (auto intro!: handler_intro check_hashes_answers split: sum.split option.split)
  show ?thesis
    unfolding check_file_def Let_def split_beta
    by (intro handler_intro inner st check_hashes_answers assms)
qed

lemma other_process_answers:
  assumes "t \<noteq> CMD_FSETSTAT"
  shows "answers rn (reply_types t) (process env si t rn m)"
proof -
  have T: "CMD_STATUS \<in> reply_types t" by (simp add: reply_types_def)
  have x: "answers rn (reply_types t) (process_extended env si rn m)" if "t = CMD_EXTENDED"
    unfolding process_extended_def
    by (intro handler_intro) (use that T in \<open>auto intro!: handler_intro check_file_answers simp: reply_types_def split: prod.split simp del: list.map\<close>)
  have r: "answers rn (reply_types t) (path_request m (\<lambda>p. seqp (on_fs (si_canonicalize si p)) (\<lambda>r.
      response rn CMD_NAME [RInt 1, RText r, RText [], RAttr new_attr])))" if "t = CMD_REALPATH"
    by (intro handler_intro response_answers) (use that in \<open>simp add: reply_types_def\<close>)
  have f: "answers rn (reply_types t) (process_fsetstat si rn m)" if "t = CMD_FSETSTAT" using assms that by simp
  note h = process_open_answers process_close_answers process_read_answers process_write_answers process_readdir_answers
    process_fstat_answers process_readlink_answers
  show ?thesis
    unfolding process_def
    by (intro answers_if answers_raise; (rule h x r | rule f, assumption | intro handler_intro); simp add: reply_types_def)
qed

lemma process_answers:
  assumes "process env si t rn m s = (r, s')"
  shows "answered rn (used_types t m s) s r s'"
proof (cases "t = CMD_FSETSTAT")
  case True
  with assms have "process_fsetstat si rn m s = (r, s')" by (simp add: process_def named_commands_def)
  from process_fsetstat_answers [OF this] True show ?thesis
    by (cases r) (auto simp: used_types_def stray_fsetstat_def reply_types_def answered_def split: if_splits)
next
  case False
  from answersD [OF other_process_answers [OF this] assms] False show ?thesis by (simp add: used_types_def stray_fsetstat_def)
qed

section \<open>Handlers end\<close>

text \<open>A program that does not wait, on states in which \<open>P\<close> holds.\<close>

definition returns :: "('s \<Rightarrow> bool) \<Rightarrow> ('s, 'a) prog \<Rightarrow> bool" where
  "returns P m \<longleftrightarrow> (\<forall>s. P s \<longrightarrow> fst (m s) \<noteq> Blocked)"

named_theorems returns_intro \<open>programs that do not wait\<close>

lemma returnsI: "(\<And>s r s'. P s \<Longrightarrow> m s = (r, s') \<Longrightarrow> r \<noteq> Blocked) \<Longrightarrow> returns P m"
  unfolding returns_def by (metis prod.collapse)

lemma returnsD: "returns P m \<Longrightarrow> P s \<Longrightarrow> m s = (r, s') \<Longrightarrow> r \<noteq> Blocked"
  by (auto simp: returns_def dest: spec [of _ s])

lemma returns_seqp:
  assumes "returns P m" and "preserves P m" and "\<And>x. returns P (f x)"
  shows "returns P (seqp m f)"
proof (rule returnsI)
  fix s r s'
  assume P: "P s" and run: "seqp m f s = (r, s')"
  obtain r1 s1 where m: "m s = (r1, s1)" by (metis prod.collapse)
  have "r1 \<noteq> Blocked" "P s1" using returnsD [OF assms(1) P m] preservesD [OF assms(2) P m] by simp_all
  then show "r \<noteq> Blocked" using run m returnsD [OF assms(3)] by (cases r1) (auto simp: seqp_def)
qed

lemma returns_simple [returns_intro]:
  "returns P (ret x)" "returns P (raise e)" "returns P (liftr y)" "returns P (gets g)" "returns P (modify h)"
  by (simp_all add: returns_def liftr_def)
    (cases y; simp)

lemma returns_if [returns_intro]: "(b \<Longrightarrow> returns P m) \<Longrightarrow> (\<not> b \<Longrightarrow> returns P n) \<Longrightarrow> returns P (if b then m else n)"
  by simp

text \<open>Neither the application's interface nor a file object keeps the server waiting.\<close>

definition prompt :: "'f sftp_si \<Rightarrow> bool" where
  "prompt si \<longleftrightarrow>
     (\<forall>p q fl a h i n d f. fst (si_open si p fl a f) \<noteq> Blocked \<and> fst (si_list_folder si p f) \<noteq> Blocked \<and>
       fst (si_stat si p f) \<noteq> Blocked \<and> fst (si_lstat si p f) \<noteq> Blocked \<and> fst (si_remove si p f) \<noteq> Blocked \<and>
       fst (si_rename si p q f) \<noteq> Blocked \<and> fst (si_posix_rename si p q f) \<noteq> Blocked \<and> fst (si_mkdir si p a f) \<noteq> Blocked \<and>
       fst (si_rmdir si p f) \<noteq> Blocked \<and> fst (si_chattr si p a f) \<noteq> Blocked \<and> fst (si_canonicalize si p f) \<noteq> Blocked \<and>
       fst (si_readlink si p f) \<noteq> Blocked \<and> fst (si_symlink si p q f) \<noteq> Blocked \<and> fst (hd_stat si h f) \<noteq> Blocked \<and>
       fst (hd_chattr si h a f) \<noteq> Blocked \<and> fst (fo_tell si i f) \<noteq> Blocked \<and> fst (fo_seek si i n f) \<noteq> Blocked \<and>
       fst (fo_read si i n f) \<noteq> Blocked \<and> fst (fo_write si i d f) \<noteq> Blocked \<and> fst (fo_flush si i f) \<noteq> Blocked \<and>
       fst (fo_close si i f) \<noteq> Blocked)"

abbreviation always :: "'s \<Rightarrow> bool" where "always \<equiv> \<lambda>_. True"
abbreviation takes_all :: "'f sftp_server \<Rightarrow> bool" where "takes_all \<equiv> \<lambda>s. ready (ss_conn s)"

lemma prompt_calls:
  assumes "prompt si"
  shows "returns always (si_open si p fl a)" "returns always (si_list_folder si p)" "returns always (si_stat si p)"
    "returns always (si_lstat si p)" "returns always (si_remove si p)" "returns always (si_rename si p q)"
    "returns always (si_posix_rename si p q)" "returns always (si_mkdir si p a)" "returns always (si_rmdir si p)"
    "returns always (si_chattr si p a)" "returns always (si_canonicalize si p)" "returns always (si_readlink si p)"
    "returns always (si_symlink si p q)" "returns always (hd_stat si h)" "returns always (hd_chattr si h a)"
    "returns always (fo_tell si i)" "returns always (fo_seek si i n)" "returns always (fo_read si i n)"
    "returns always (fo_write si i d)" "returns always (fo_flush si i)" "returns always (fo_close si i)"
  using assms by (simp_all add: prompt_def returns_def)

lemma returns_seqp_always: "returns always m \<Longrightarrow> (\<And>x. returns always (f x)) \<Longrightarrow> returns always (seqp m f)"
  by (rule returns_seqp) (simp_all add: preserves_def)

lemma returns_on_hf: "returns always m \<Longrightarrow> returns always (on_hf m)"
  unfolding returns_def on_hf_def by (auto split: prod.split) (metis fst_conv)

lemma returns_except_io: "returns always m \<Longrightarrow> (\<And>e. returns always (g e)) \<Longrightarrow> returns always (except_io m g)"
  unfolding returns_def except_io_def by (auto split: prod.split outcome.split option.split) (metis fst_conv)+

lemma returns_apply: "returns P m \<Longrightarrow> P s \<Longrightarrow> fst (m s) \<noteq> Blocked"
  by (simp add: returns_def)

lemma returns_choice:
  assumes "\<And>x. returns P (m x)"
  shows "returns P (\<lambda>s. m (g s) s)"
  using assms by (simp add: returns_def)

lemma returns_tell: "returns always (set_tell x)" "returns always (move_tell n)"
  by (simp_all add: set_tell_def move_tell_def returns_def split: option.split)

lemmas handle_calls = returns_seqp_always returns_on_hf returns_except_io returns_tell returns_if returns_simple prompt_calls

lemma returns_go_to:
  assumes "prompt si"
  shows "returns always (go_to si fno off)"
proof -
  have "returns always (seqp (on_hf (fo_tell si fno)) (\<lambda>t. set_tell (Some t)))"
    by (intro handle_calls assms)
  from returns_apply [OF this] have "returns always (\<lambda>s. case hd_tell (fst s) of
      None \<Rightarrow> seqp (on_hf (fo_tell si fno)) (\<lambda>t. set_tell (Some t)) s | Some t \<Rightarrow> ret () s)"
    by (auto simp: returns_def split: option.split)
  moreover have "returns always (seqp (on_hf (fo_seek si fno off)) (\<lambda>_. set_tell (Some off)))"
    by (intro handle_calls assms)
  from returns_apply [OF this] have "returns always (\<lambda>s. if hd_tell (fst s) \<noteq> Some off
      then seqp (on_hf (fo_seek si fno off)) (\<lambda>_. set_tell (Some off)) s else ret () s)"
    by (auto simp: returns_def)
  ultimately show ?thesis unfolding go_to_def by (rule returns_seqp_always)
qed

lemma returns_handle_read:
  assumes "prompt si"
  shows "returns always (handle_read si off len)"
proof -
  have "returns always (case r of Inr code \<Rightarrow> ret (Inr code)
      | Inl data \<Rightarrow> seqp (move_tell (int (length data))) (\<lambda>_. ret (Inl data)))" for r :: "bytes + int"
    by (auto intro!: handle_calls split: sum.split)
  then have "returns always (seqp (except_io
        (seqp (go_to si fno off) (\<lambda>_. seqp (on_hf (fo_read si fno len)) (\<lambda>d. ret (Inl d))))
        (\<lambda>e. seqp (set_tell None) (\<lambda>_. ret (Inr (convert_errno e))))) (\<lambda>r.
      case r of Inr code \<Rightarrow> ret (Inr code)
      | Inl data \<Rightarrow> seqp (move_tell (int (length data))) (\<lambda>_. ret (Inl data))))" for fno
    by (intro handle_calls returns_go_to assms)
  from returns_apply [OF this] show ?thesis
    unfolding returns_def handle_read_def by (auto split: option.split)
qed

lemma returns_handle_write:
  assumes "prompt si"
  shows "returns always (handle_write si off data)"
proof -
  have m: "returns always (\<lambda>s. if hd_tell (fst s) \<noteq> None then move_tell n s else ret () s)" for n
    by (simp add: returns_def move_tell_def set_tell_def split: option.split)
  have "returns always (case r of Some code \<Rightarrow> ret code
      | None \<Rightarrow> seqp (\<lambda>s. if hd_tell (fst s) \<noteq> None then move_tell (int (length data)) s else ret () s) (\<lambda>_. ret SFTP_OK))" for r :: "int option"
    by (cases r; simp only: option.case; intro handle_calls m)
  then have "returns always (seqp (except_io
        (seqp (if b then go_to si fno off else ret ()) (\<lambda>_.
         seqp (on_hf (fo_write si fno data)) (\<lambda>_. seqp (on_hf (fo_flush si fno)) (\<lambda>_. ret None))))
        (\<lambda>e. seqp (set_tell None) (\<lambda>_. ret (Some (convert_errno e))))) (\<lambda>r.
      case r of Some code \<Rightarrow> ret code
      | None \<Rightarrow> seqp (\<lambda>s. if hd_tell (fst s) \<noteq> None then move_tell (int (length data)) s else ret () s) (\<lambda>_. ret SFTP_OK)))" for b fno
    by (intro handle_calls returns_go_to assms)
  from returns_apply [OF this] show ?thesis
    unfolding returns_def handle_write_def by (auto split: option.split)
qed

lemma returns_finish:
  assumes "prompt si"
  shows "returns always (handle_finish si)"
proof -
  have "returns always (case x of None \<Rightarrow> ret () | Some fno \<Rightarrow> on_hf (fo_close si fno))" for x
    by (cases x) (auto intro!: handle_calls assms)
  then have "returns always (seqp (case x of None \<Rightarrow> ret () | Some fno \<Rightarrow> on_hf (fo_close si fno)) (\<lambda>_.
      case y of None \<Rightarrow> ret () | Some fno \<Rightarrow> on_hf (fo_close si fno)))" for x y
    by (intro returns_seqp_always)
  from returns_apply [OF this] show ?thesis unfolding returns_def handle_finish_def by blast
qed

text \<open>Steps of the server that send nothing, and the answers on a connection that takes everything.\<close>

lemma quiet_takes_all: "quiet m \<Longrightarrow> preserves takes_all m"
  by (auto simp: quiet_def preserves_def) (metis prod.collapse)

lemma returns_step:
  "returns takes_all m \<Longrightarrow> quiet m \<Longrightarrow> (\<And>x. returns takes_all (f x)) \<Longrightarrow> returns takes_all (seqp m f)"
  by (rule returns_seqp) (simp_all add: quiet_takes_all)

lemma returns_on_fs: "returns always m \<Longrightarrow> returns takes_all (on_fs m)"
  by (auto simp: returns_def on_fs_def split: prod.split) (metis fst_conv)

lemma returns_on_file: "returns always m \<Longrightarrow> returns takes_all (on_file hname h m)"
  by (auto simp: returns_def on_file_def split: prod.split) (metis fst_conv)

lemma returns_srv_send: "returns takes_all (srv_send t w)"
proof (rule returnsI)
  fix s :: "'a sftp_server" and r s'
  assume rd: "ready (ss_conn s)" and run: "srv_send t w s = (r, s')"
  obtain x c where x: "send_packet t w (ss_conn s) = (x, c)" by (metis prod.collapse)
  have "x \<noteq> Blocked"
  proof (cases "pack_I (int (length w) + 1)")
    case (Inl e)
    then show ?thesis using x by (auto simp: send_packet_def seqp_def liftr_def)
  next
    case l: (Inr l)
    show ?thesis
    proof (cases "byte_chr t")
      case (Inl e)
      then show ?thesis using x l by (auto simp: send_packet_def seqp_def liftr_def)
    next
      case b: (Inr b)
      have w: "sftp_write_all (l @ b @ w) (ss_conn s) = (x, c)" using x l b by (simp add: send_packet_def)
      have "int (length w) + 1 < 2 ^ 32" using l by (auto simp: pack_I_def split: if_splits)
      moreover have "length l = 4" "length b = 1" using l b by (auto simp: pack_I_length byte_chr_def pack_B_def split: if_splits)
      ultimately have "int (length (l @ b @ w)) < 2 ^ 33" by simp
      from write_all_ready [OF w rd this] show ?thesis by simp
    qed
  qed
  then show "r \<noteq> Blocked" using run x by (cases x) (auto simp: srv_send_def)
qed

lemma returns_response: "returns takes_all (response rn t items)"
  unfolding response_def by (intro returns_step returns_simple handler_intro returns_srv_send)

lemma returns_status: "returns takes_all (send_status rn code desc)"
  unfolding send_status_def by (rule returns_response)

lemmas handler_ends = returns_step returns_status returns_response returns_srv_send returns_on_fs returns_on_file returns_if returns_simple

lemma returns_register: "returns takes_all (register_handle h folder)"
  by (simp add: returns_def register_handle_def Let_def)

lemma returns_handle_response: "returns takes_all (send_handle_response rn r folder)"
  unfolding send_handle_response_def
  by (cases r) (auto intro!: handler_ends returns_register quiet_register)

lemma returns_lookup:
  assumes "returns P a" and "\<And>h. returns P (b h)"
  shows "returns P (\<lambda>s. case map_of (g s) k of None \<Rightarrow> a s | Some h \<Rightarrow> b h s)"
  using assms by (simp add: returns_def split: option.split)

lemma returns_bad_handle: "returns takes_all (bad_handle rn)"
  unfolding bad_handle_def by (rule returns_status)

lemma returns_with_file: "(\<And>h. returns takes_all (f h)) \<Longrightarrow> returns takes_all (with_file rn hname f)"
  unfolding with_file_def [abs_def] by (intro returns_lookup returns_bad_handle)

lemma returns_status_of: "returns always m \<Longrightarrow> returns takes_all (status_of rn m)"
  unfolding status_of_def by (intro handler_ends quiet_on_fs)

lemma returns_attrs_of: "returns always m \<Longrightarrow> returns takes_all (attrs_of rn m)"
  unfolding attrs_of_def by (intro handler_ends quiet_on_fs) (auto intro!: handler_ends split: sum.split)

lemma returns_paths:
  "(\<And>p. returns takes_all (f p)) \<Longrightarrow> returns takes_all (path_request m f)"
  "(\<And>p q. returns takes_all (g p q)) \<Longrightarrow> returns takes_all (two_paths m g)"
  "(\<And>p a. returns takes_all (k p a)) \<Longrightarrow> returns takes_all (path_attr m k)"
  unfolding path_request_def two_paths_def path_attr_def
  by (auto intro!: handler_ends quiet_liftr split: prod.split)

lemma returns_close:
  assumes "prompt si"
  shows "returns takes_all (process_close si rn m)"
  unfolding process_close_def [abs_def] Let_def
  by (intro returns_lookup handler_ends quiet_on_file returns_finish returns_bad_handle assms quiet_modify; simp)

lemma returns_read_folder: "returns takes_all (read_folder env rn hname h)"
  unfolding read_folder_def get_next_files_def Let_def prod.case
  by (intro handler_ends quiet_modify quiet_liftr; simp)

definition is_check_file :: "int \<Rightarrow> message \<Rightarrow> bool" where
  "is_check_file t m \<longleftrightarrow> t = CMD_EXTENDED \<and> (case get_text m of Inr (tag, m') \<Rightarrow> tag = lit ''check-file'' | Inl e \<Rightarrow> False)"

lemma returns_extended:
  assumes "prompt si" and "\<not> is_check_file CMD_EXTENDED m"
  shows "returns takes_all (process_extended env (si :: 'f sftp_si) rn m)"
proof (cases "get_text m")
  case (Inl e)
  then show ?thesis by (simp add: process_extended_def returns_def)
next
  case (Inr x)
  with assms(2) have "fst x \<noteq> lit ''check-file''" by (auto simp: is_check_file_def)
  moreover have "returns takes_all (two_paths m' (\<lambda>p q. status_of rn (si_posix_rename si p q)))" for m'
    by (intro returns_paths returns_status_of prompt_calls assms(1))
  moreover have "returns takes_all (send_status rn SFTP_OP_UNSUPPORTED None :: ('f sftp_server, unit) prog)"
    by (rule returns_status)
  ultimately show ?thesis using Inr
    by (auto simp: process_extended_def returns_def split_beta simp del: list.map)
qed

lemma returns_process:
  assumes "prompt si" and "\<not> is_check_file t m"
  shows "returns takes_all (process env si t rn m)"
proof -
  note c = prompt_calls [OF assms(1)] and s = assms(1)
  note l = handler_ends returns_handle_response returns_with_file returns_status_of returns_attrs_of returns_paths
    returns_close [OF s] returns_bad_handle returns_read_folder c quiet_on_fs quiet_on_file quiet_liftr
  have o: "returns takes_all (process_open si rn m)" unfolding process_open_def Let_def split_beta by (intro l)
  have r: "returns takes_all (process_read si rn m)" unfolding process_read_def Let_def split_beta
    by (intro l returns_handle_read s) (auto intro!: l split: sum.split)
  have w: "returns takes_all (process_write si rn m)" unfolding process_write_def Let_def split_beta
    by (intro l returns_handle_write s)
  have d: "returns takes_all (process_readdir env rn m)" unfolding process_readdir_def [abs_def] Let_def
    by (intro returns_lookup l)
  have f: "returns takes_all (process_fstat si rn m)" unfolding process_fstat_def Let_def by (intro l)
  have fs: "returns takes_all (process_fsetstat si rn m)" unfolding process_fsetstat_def [abs_def] Let_def split_beta
    by (intro returns_lookup l)
  have rl: "returns takes_all (process_readlink si rn m)" unfolding process_readlink_def split_beta
    by (intro l) (auto intro!: l split: sum.split)
  have od: "returns takes_all (open_folder si rn p)" for p unfolding open_folder_def
    by (intro l) (auto intro!: l split: sum.split)
  have x: "returns takes_all (process_extended env si rn m)" if "t = CMD_EXTENDED"
    using returns_extended [OF s] assms(2) that by simp
  show ?thesis
    unfolding process_def by (intro returns_if; (rule o r w d f fs rl od x l, assumption?)+)
qed

section \<open>One answer for every request\<close>

lemma failure_status_sent:
  assumes "0 \<le> rn" "rn < 2 ^ 32" "ready (ss_conn s)" "send_status rn SFTP_FAILURE None s = (r, s')"
  shows "\<exists>u. r = Ret u"
proof -
  obtain m where m: "bind_res (add_int new_message rn) (\<lambda>m. add_seq add_item m [RInt 4, RText (lit ''Failure''), RText []]) = Inr m"
    "length (msg_asbytes m) = 23"
  proof -
    have p: "pack_I rn = Inr (be_bytes 4 rn)" "pack_I 4 = Inr (be_bytes 4 4)" using assms(1,2) by (simp_all add: pack_I_def)
    have t: "enc_field (FText (lit ''Failure'')) = Inr (be_bytes 4 7 @ ascii ''Failure'')" "enc_field (FText []) = Inr (be_bytes 4 0)"
      by code_simp+
    have "add_seq add_field new_message [FInt rn, FInt 4, FText (lit ''Failure''), FText []] =
        Inr (bio_write new_message (be_bytes 4 rn @ be_bytes 4 4 @ (be_bytes 4 7 @ ascii ''Failure'') @ be_bytes 4 0))"
      by (simp add: add_fields_enc p t del: add_seq.simps enc_field.simps(8) list.map)
    then have "bind_res (add_int new_message rn) (\<lambda>m. add_seq add_item m [RInt 4, RText (lit ''Failure''), RText []]) =
        Inr (bio_write new_message (be_bytes 4 rn @ be_bytes 4 4 @ (be_bytes 4 7 @ ascii ''Failure'') @ be_bytes 4 0))"
      by simp
    then show ?thesis by (rule that) (simp add: msg_asbytes_def, simp add: new_message_def)
  qed
  have "status_text SFTP_FAILURE None = lit ''Failure''" by code_simp
  with assms(4) m(1) have s: "srv_send CMD_STATUS (msg_asbytes m) s = (r, s')"
    by (simp add: send_status_def response_def del: list.map)
  obtain x c where x: "send_packet CMD_STATUS (msg_asbytes m) (ss_conn s) = (x, c)" by (metis prod.collapse)
  have "sftp_write_all (be_bytes 4 24 @ [101] @ msg_asbytes m) (ss_conn s) = (x, c)"
    using x m(2) by (simp add: send_packet_def pack_I_def byte_chr_def pack_B_def)
  from write_all_ready [OF this assms(3)] m(2) have "x = Ret ()" by simp
  with s x show ?thesis by (simp add: srv_send_def)
qed

lemma sends_at_most_one:
  assumes "answer_request env si t data s = (r, s')"
  shows "ss_sent s' = ss_sent s \<or> (\<exists>ty w. ss_sent s' = ss_sent s @ [(ty, w)])"
proof -
  let ?rn = "fst (get_int (message_of data))" and ?m = "snd (get_int (message_of data))"
  obtain r1 s1 where p: "process env si t ?rn ?m s = (r1, s1)" by (metis prod.collapse)
  obtain r2 s2 where f: "send_status ?rn SFTP_FAILURE None s1 = (r2, s2)" by (metis prod.collapse)
  note a = process_answers [OF p]
  have "CMD_STATUS \<in> {CMD_STATUS}" by simp
  note b = answersD [OF send_status_answers [OF this] f]
  show ?thesis using assms p f a b
    by (auto simp: answer_request_def split_beta answered_def split: outcome.splits)
qed

text \<open>A request whose handling ends is answered.\<close>

lemma ended_is_answered:
  assumes "answer_request env si t data s = (r, s')" and "ready (ss_conn s)"
    and "process env si t rn m s = (r1, s1)" and "r1 \<noteq> Blocked" and "(rn, m) = get_int (message_of data)"
  shows "r = Ret () \<and> (\<exists>ty w. ss_sent s' = ss_sent s @ [(ty, w)] \<and> ty \<in> used_types t m s \<and> for_request rn w)"
proof (cases r1)
  case (Ret u)
  then have "r = Ret ()" "s' = s1" using assms(1,3) by (simp_all add: answer_request_def flip: assms(5))
  with process_answers [OF assms(3)] Ret show ?thesis by (auto simp: answered_def)
next
  case (Exn e)
  obtain r2 s2 where f: "send_status rn SFTP_FAILURE None s1 = (r2, s2)" by (metis prod.collapse)
  have st: "CMD_STATUS \<in> used_types t m s" by (simp add: used_types_def reply_types_def)
  note b = answersD [OF send_status_answers [OF st] f]
  have rs: "s' = s2" "r = (case r2 of Exn e' \<Rightarrow> Ret () | x \<Rightarrow> x)"
    using assms(1,3) Exn f by (auto simp: answer_request_def simp flip: assms(5) split: outcome.splits)
  have e: "ss_sent s1 = ss_sent s" "ready (ss_conn s1)"
    using process_answers [OF assms(3)] assms(2) Exn by (simp_all add: answered_def)
  have "0 \<le> rn" "rn < 2 ^ 32" using get_int_range [of "message_of data"] by (simp_all flip: assms(5))
  from failure_status_sent [OF this e(2) f] obtain u where "r2 = Ret u" by blast
  with b e(1) rs show ?thesis by (auto simp: answered_def)
qed (use assms(4) in simp)

text \<open>Claim C33. Claim C33.
  No request is answered twice, on any connection. If the application's calls end and the connection
  takes what is written, every request other than \<open>check-file\<close> is answered, by exactly one packet that
  begins with the number of the request; its type is a status or the one that fits the command, except for an \<open>FSETSTAT\<close> on
  a handle that is not open (\<open>stray_fsetstat_misanswered\<close>). The hashes of a \<open>check-file\<close> over a range past
  the end of the file are never finished (\<open>hash_past_end_never_ends\<close>).
\<close>

theorem every_request_answered:
  assumes "answer_request env si t data s = (r, s')" and "(rn, m) = get_int (message_of data)"
  shows "(ss_sent s' = ss_sent s \<or> (\<exists>ty w. ss_sent s' = ss_sent s @ [(ty, w)])) \<and>
    (prompt si \<longrightarrow> ready (ss_conn s) \<longrightarrow> \<not> is_check_file t m \<longrightarrow> \<not> stray_fsetstat t m s \<longrightarrow> r = Ret () \<and>
      (\<exists>ty w. ss_sent s' = ss_sent s @ [(ty, w)] \<and> ty \<in> reply_types t \<and> for_request rn w))"
proof (intro conjI [OF sends_at_most_one [OF assms(1)]] impI)
  assume h: "prompt si" "ready (ss_conn s)" "\<not> is_check_file t m" "\<not> stray_fsetstat t m s"
  obtain r1 s1 where p: "process env si t rn m s = (r1, s1)" by (metis prod.collapse)
  have "r1 \<noteq> Blocked" by (rule returnsD [OF returns_process [OF h(1,3)] h(2) p])
  from ended_is_answered [OF assms(1) h(2) p this assms(2)] h(4)
  show "r = Ret () \<and> (\<exists>ty w. ss_sent s' = ss_sent s @ [(ty, w)] \<and> ty \<in> reply_types t \<and> for_request rn w)"
    by (simp add: used_types_def)
qed

text \<open>The exception: the packet's type is the status code, so the client cannot take it for an answer.\<close>

lemma stray_fsetstat_misanswered:
  assumes "stray_fsetstat t m s" and "process env si t rn m s = (Ret u, s')"
  shows "\<exists>w. ss_sent s' = ss_sent s @ [(SFTP_BAD_MESSAGE, w)] \<and> for_request rn w"
proof -
  have "process_fsetstat si rn m s = (Ret u, s')"
    using assms by (simp add: process_def named_commands_def stray_fsetstat_def)
  from process_fsetstat_answers [OF this] assms(1) show ?thesis by (simp add: answered_def stray_fsetstat_def)
qed

section \<open>Handle names\<close>

definition number_of :: "bytes \<Rightarrow> nat" where
  "number_of bs = foldl (\<lambda>a c. a * 10 + (unat c - 48)) 0 bs"

lemma number_of_digits: "number_of (map of_nat (digits n)) = n"
proof (induction n rule: digits.induct)
  case (1 n)
  have u: "unat (48 + of_nat d :: byte) = 48 + d" if "d < 10" for d
  proof -
    have "unat (of_nat (48 + d) :: byte) = 48 + d" unfolding unsigned_of_nat using that by (simp add: take_bit_nat_eq_self)
    then show ?thesis by simp
  qed
  show ?case
  proof (cases "n < 10")
    case True
    then show ?thesis using u [OF True] by (subst digits.simps) (simp add: number_of_def)
  next
    case False
    have "n mod 10 < 10" by simp
    from u [OF this] 1 [OF False] False show ?thesis
      by (subst digits.simps) (simp add: number_of_def)
  qed
qed

lemma handle_name_eq: "handle_name a = handle_name b \<longleftrightarrow> a = b"
  using number_of_digits by (metis handle_name_def append_same_eq same_append_eq)

definition tab_keys :: "(bytes \<times> sftp_handle) list \<Rightarrow> bytes set" where
  "tab_keys l = fst ` set l"

definition handle_keys :: "'f sftp_server \<Rightarrow> bytes set" where
  "handle_keys s = tab_keys (ss_files s) \<union> tab_keys (ss_folders s)"

text \<open>What a server may do to its tables: drop handles and give out names not given out before.\<close>

definition issued :: "'f sftp_server \<Rightarrow> 'f sftp_server \<Rightarrow> bool" where
  "issued s0 s \<longleftrightarrow> ss_next s0 \<le> ss_next s \<and>
     (\<forall>nm\<in>handle_keys s. nm \<in> handle_keys s0 \<or> (\<exists>n. ss_next s0 \<le> n \<and> n < ss_next s \<and> nm = handle_name n))"

definition handles_ok :: "'f sftp_server \<Rightarrow> bool" where
  "handles_ok s \<longleftrightarrow> (\<forall>nm\<in>handle_keys s. \<exists>n. n < ss_next s \<and> nm = handle_name n) \<and>
     tab_keys (ss_files s) \<inter> tab_keys (ss_folders s) = {}"

text \<open>Both are kept by every step that leaves the tables and the counter alone, drops handles, or registers one.\<close>

definition table_law :: "('f sftp_server \<Rightarrow> bool) \<Rightarrow> bool" where
  "table_law P \<longleftrightarrow>
     (\<forall>s s'. P s \<longrightarrow> ss_next s' = ss_next s \<longrightarrow> tab_keys (ss_files s') \<subseteq> tab_keys (ss_files s) \<longrightarrow>
        tab_keys (ss_folders s') \<subseteq> tab_keys (ss_folders s) \<longrightarrow> P s') \<and>
     (\<forall>h folder. preserves P (register_handle h folder))"

lemma tab_keys_update [simp]: "tab_keys (AList.update k v l) = insert k (tab_keys l)"
  unfolding tab_keys_def by (induction l) auto

lemma tab_keys_store [simp]: "tab_keys (store_handle nm h tab) = tab_keys tab"
  by (force simp: store_handle_def tab_keys_def)

lemma tab_keys_delete [simp]: "tab_keys (AList.delete k l) = tab_keys l - {k}"
  unfolding tab_keys_def set_map [symmetric] AList.delete_keys by auto

lemma register_keys:
  assumes "register_handle h folder s = (r, s')"
  shows "ss_next s' = Suc (ss_next s)" "handle_keys s' \<subseteq> insert (handle_name (ss_next s)) (handle_keys s)"
  using assms by (cases folder; auto simp: register_handle_def Let_def handle_keys_def)+

lemma issued_law: "table_law (issued s0)"
proof -
  have "preserves (issued s0) (register_handle h folder)" for h folder
  proof (rule preservesI)
    fix s r s'
    assume i: "issued s0 s" and run: "register_handle h folder s = (r, s')"
    note n = register_keys [OF run]
    show "issued s0 s'"
      using i n unfolding issued_def by (metis insertE le_SucI less_Suc_eq subsetD)
  qed
  moreover have "issued s0 s'" if "issued s0 s" "ss_next s' = ss_next s" "tab_keys (ss_files s') \<subseteq> tab_keys (ss_files s)"
    "tab_keys (ss_folders s') \<subseteq> tab_keys (ss_folders s)" for s s'
  proof -
    have "handle_keys s' \<subseteq> handle_keys s" using that(3,4) by (auto simp: handle_keys_def)
    with that(1,2) show ?thesis by (auto simp: issued_def)
  qed
  ultimately show ?thesis unfolding table_law_def by blast
qed

lemma handles_ok_law: "table_law (handles_ok :: 'f sftp_server \<Rightarrow> bool)"
proof -
  have "preserves (handles_ok :: 'f sftp_server \<Rightarrow> bool) (register_handle h folder)" for h folder
  proof (rule preservesI)
    fix s r s'
    assume i: "handles_ok s" and run: "register_handle h folder s = (r, s')"
    have new: "handle_name (ss_next s) \<notin> handle_keys s" using i by (auto simp: handles_ok_def handle_name_eq)
    have "ss_next s' = Suc (ss_next s)" "handle_keys s' \<subseteq> insert (handle_name (ss_next s)) (handle_keys s)"
      using register_keys [OF run] by simp_all
    note n = this
    have "\<exists>n. n < ss_next s' \<and> nm = handle_name n" if "nm \<in> handle_keys s'" for nm
    proof (cases "nm = handle_name (ss_next s)")
      case True
      with n(1) show ?thesis by (intro exI [of _ "ss_next s"]) simp
    next
      case False
      with that n(2) have "nm \<in> handle_keys s" by blast
      with i obtain k where "k < ss_next s" "nm = handle_name k" unfolding handles_ok_def by blast
      with n(1) show ?thesis by (intro exI [of _ k]) simp
    qed
    then have "\<forall>nm\<in>handle_keys s'. \<exists>n. n < ss_next s' \<and> nm = handle_name n" by (rule ballI)
    moreover have dj: "tab_keys (ss_files s) \<inter> tab_keys (ss_folders s) = {}" using i by (simp add: handles_ok_def)
    have "tab_keys (ss_files s') \<inter> tab_keys (ss_folders s') = {}"
      using run dj new by (cases folder) (auto simp: register_handle_def Let_def handle_keys_def)
    ultimately show "handles_ok s'" by (simp add: handles_ok_def)
  qed
  moreover have "handles_ok s'" if h: "handles_ok s" "ss_next s' = ss_next s" "tab_keys (ss_files s') \<subseteq> tab_keys (ss_files s)"
    "tab_keys (ss_folders s') \<subseteq> tab_keys (ss_folders s)" for s s' :: "'f sftp_server"
  proof -
    have k: "handle_keys s' \<subseteq> handle_keys s" using h(3,4) by (auto simp: handle_keys_def)
    then have "\<forall>nm\<in>handle_keys s'. \<exists>n. n < ss_next s' \<and> nm = handle_name n" using h(1,2) by (auto simp: handles_ok_def)
    moreover have "tab_keys (ss_files s') \<inter> tab_keys (ss_folders s') = {}" using h(1,3,4) by (auto simp: handles_ok_def)
    ultimately show ?thesis by (simp add: handles_ok_def)
  qed
  ultimately show ?thesis by (simp add: table_law_def)
qed

lemma law_step:
  assumes "table_law P"
    and "\<And>s. ss_next (snd (m s)) = ss_next s \<and> tab_keys (ss_files (snd (m s))) \<subseteq> tab_keys (ss_files s) \<and>
      tab_keys (ss_folders (snd (m s))) \<subseteq> tab_keys (ss_folders s)"
  shows "preserves P m"
  using assms unfolding table_law_def preserves_def by metis

lemma on_fs_law: "table_law P \<Longrightarrow> preserves P (on_fs m)"
  by (rule law_step) (auto simp: on_fs_def split: prod.split)

lemma on_file_law: "table_law P \<Longrightarrow> preserves P (on_file nm h m)"
  by (rule law_step) (auto simp: on_file_def split: prod.split)

lemma srv_send_law: "table_law P \<Longrightarrow> preserves P (srv_send t w)"
  by (rule law_step) (auto simp: srv_send_def split: prod.split outcome.split)

lemma store_folder_law: "table_law P \<Longrightarrow> preserves P (modify (\<lambda>s. s\<lparr>ss_folders := store_handle nm h (ss_folders s)\<rparr>))"
  by (rule law_step) auto

lemma drop_folder_law: "table_law P \<Longrightarrow> preserves P (modify (\<lambda>s. s\<lparr>ss_folders := AList.delete nm (ss_folders s)\<rparr>))"
  by (rule law_step) auto

lemma drop_file_law: "table_law P \<Longrightarrow> preserves P (modify (\<lambda>s. s\<lparr>ss_files := AList.delete nm (ss_files s)\<rparr>))"
  by (rule law_step) auto

lemma register_law: "table_law P \<Longrightarrow> preserves P (register_handle h folder)"
  by (simp add: table_law_def)

lemma hash_block_law: "table_law P \<Longrightarrow> preserves P (hash_block si fuel hname blocklen chunklen off count acc)"
proof (rule law_step)
  fix s
  show "ss_next (snd (hash_block si fuel hname blocklen chunklen off count acc s)) = ss_next s \<and>
      tab_keys (ss_files (snd (hash_block si fuel hname blocklen chunklen off count acc s))) \<subseteq> tab_keys (ss_files s) \<and>
      tab_keys (ss_folders (snd (hash_block si fuel hname blocklen chunklen off count acc s))) \<subseteq> tab_keys (ss_folders s)"
  proof (induction si fuel hname blocklen chunklen off count acc s rule: hash_block.induct)
    case (1 si fuel hname blocklen chunklen off count acc s)
    have q: "ss_next s' = ss_next s \<and> tab_keys (ss_files s') = tab_keys (ss_files s) \<and> ss_folders s' = ss_folders s"
      if "on_file hname h m s = (r, s')" for h m s' and r :: "(bytes + int) outcome"
      using that by (auto simp: on_file_def split: prod.splits)
    show ?case
    proof (cases "\<exists>n h d s'. count < blocklen \<and> fuel = Suc n \<and> map_of (ss_files s) hname = Some h \<and>
        on_file hname h (handle_read si off chunklen) s = (Ret (Inl d), s')")
      case True
      then obtain n h d s' where t: "count < blocklen" "fuel = Suc n" "map_of (ss_files s) hname = Some h"
        "on_file hname h (handle_read si off chunklen) s = (Ret (Inl d), s')" by blast
      have e: "hash_block si fuel hname blocklen chunklen off count acc s =
          hash_block si n hname blocklen chunklen (off + (count + int (length d))) (count + int (length d)) (acc @ d) s'"
        using t by (subst hash_block.simps) (simp add: Let_def)
      show ?thesis using 1 [OF t(1,2,3) t(4) [symmetric] refl refl refl] q [OF t(4)] unfolding e by simp
    next
      case False
      then show ?thesis
        by (subst (1 2 3) hash_block.simps) (auto dest: q split: nat.splits option.splits prod.splits outcome.splits sum.splits)
    qed
  qed
qed

lemma hash_blocks_law: "table_law P \<Longrightarrow> preserves P (hash_blocks env si n alg hname stop bs off fuel out)"
proof (induction n arbitrary: off fuel out)
  case (Suc n)
  have q: "preserves P (seqp (hash_block si fuel hname (min bs (stop - off)) (min (min bs (stop - off)) 65536) off 0 []) (\<lambda>r.
      case r of Inl code \<Rightarrow> ret (Inl code)
      | Inr (off, acc, fuel) \<Rightarrow> hash_blocks env si n alg hname stop bs off fuel (out @ hash_of env alg acc)))"
    by (rule preserves_seqp [OF hash_block_law [OF Suc.prems]]) (use Suc in \<open>auto intro: preserves_ret split: sum.split prod.split\<close>)
  show ?case
    by (rule preservesI) (use q in \<open>auto simp: Let_def preserves_def split: if_splits dest!: spec [of _ s for s]; metis snd_conv\<close>)
qed (simp add: preserves_def)

lemma preserves_same: "(\<And>s. \<exists>n. preserves P n \<and> m s = n s) \<Longrightarrow> preserves P m"
  unfolding preserves_def by metis

lemma response_law: "table_law P \<Longrightarrow> preserves P (response rn t items)"
  unfolding response_def by (intro preserves_intro srv_send_law)

lemma send_status_law: "table_law P \<Longrightarrow> preserves P (send_status rn code d)"
  unfolding send_status_def by (rule response_law)

lemma bad_handle_law: "table_law P \<Longrightarrow> preserves P (bad_handle rn)"
  unfolding bad_handle_def by (rule send_status_law)

lemma handle_response_law: "table_law P \<Longrightarrow> preserves P (send_handle_response rn r folder)"
  unfolding send_handle_response_def by (cases r) (auto intro!: preserves_intro register_law response_law send_status_law)

lemma open_folder_law: "table_law P \<Longrightarrow> preserves P (open_folder si rn path)"
  unfolding open_folder_def
  by (intro preserves_intro on_fs_law) (auto intro!: handle_response_law send_status_law split: sum.split)

lemma read_folder_law: "table_law P \<Longrightarrow> preserves P (read_folder env rn hname h)"
  unfolding read_folder_def get_next_files_def Let_def prod.case
  by (intro preserves_intro store_folder_law send_status_law srv_send_law)

lemma status_of_law: "table_law P \<Longrightarrow> preserves P (status_of rn m)"
  unfolding status_of_def by (intro preserves_intro on_fs_law send_status_law)

lemma attrs_of_law: "table_law P \<Longrightarrow> preserves P (attrs_of rn m)"
  unfolding attrs_of_def by (intro preserves_intro on_fs_law) (auto intro!: response_law send_status_law split: sum.split)

lemma preserves_lookup:
  assumes "preserves P a" and "\<And>h. preserves P (b h)"
  shows "preserves P (\<lambda>s. case map_of (g s) k of None \<Rightarrow> a s | Some h \<Rightarrow> b h s)"
  using assms by (auto simp: preserves_def split: option.split)

lemma with_file_law: "table_law P \<Longrightarrow> (\<And>h. preserves P (f h)) \<Longrightarrow> preserves P (with_file rn hname f)"
  unfolding with_file_def [abs_def] by (intro preserves_lookup bad_handle_law)

lemma path_laws:
  "table_law P \<Longrightarrow> (\<And>p. preserves P (f p)) \<Longrightarrow> preserves P (path_request m f)"
  "table_law P \<Longrightarrow> (\<And>p q. preserves P (g p q)) \<Longrightarrow> preserves P (two_paths m g)"
  "table_law P \<Longrightarrow> (\<And>p a. preserves P (k p a)) \<Longrightarrow> preserves P (path_attr m k)"
  unfolding path_request_def two_paths_def path_attr_def by (auto intro!: preserves_intro split: prod.split)

lemma process_close_law: "table_law P \<Longrightarrow> preserves P (process_close si rn m)"
  unfolding process_close_def [abs_def] Let_def
  by (intro preserves_lookup preserves_intro drop_folder_law drop_file_law on_file_law send_status_law bad_handle_law)

lemma process_law:
  assumes "table_law P"
  shows "preserves P (process env si t rn m)"
proof -
  note l = on_fs_law [OF assms] on_file_law [OF assms] send_status_law [OF assms] response_law [OF assms] status_of_law [OF assms]
    attrs_of_law [OF assms] with_file_law [OF assms] path_laws [OF assms] open_folder_law [OF assms] bad_handle_law [OF assms]
    process_close_law [OF assms] handle_response_law [OF assms] read_folder_law [OF assms] srv_send_law [OF assms]
  have o: "preserves P (process_open si rn m)" unfolding process_open_def Let_def split_beta by (intro preserves_intro l)
  have r: "preserves P (process_read si rn m)" unfolding process_read_def Let_def split_beta
    by (intro l preserves_intro) (auto intro!: l split: sum.split)
  have w: "preserves P (process_write si rn m)" unfolding process_write_def Let_def split_beta by (intro l preserves_intro)
  have d: "preserves P (process_readdir env rn m)"
    unfolding process_readdir_def [abs_def] Let_def by (intro preserves_lookup l)
  have f: "preserves P (process_fstat si rn m)" unfolding process_fstat_def Let_def by (intro l)
  have fs: "preserves P (process_fsetstat si rn m)"
    unfolding process_fsetstat_def [abs_def] Let_def split_beta by (intro preserves_lookup l)
  have rl: "preserves P (process_readlink si rn m)" unfolding process_readlink_def split_beta
    by (intro preserves_intro l) (auto intro!: l split: sum.split)
  have ch: "preserves P (check_hashes env si rn alg hname start len bs)" for alg hname start len bs
    unfolding check_hashes_def Let_def
    by (intro preserves_intro l hash_blocks_law assms) (auto intro!: preserves_intro l split: sum.split simp del: list.map)
  have cf: "preserves P (check_file env si rn m)" for m
    unfolding check_file_def Let_def split_beta
  proof (intro preserves_intro preserves_lookup l)
    show "preserves P (\<lambda>s. case find (\<lambda>x. x \<in> set known_hashes) a of None \<Rightarrow> send_status rn SFTP_FAILURE d s
      | Some alg \<Rightarrow> if len = 0 then seqp (on_fs (hd_stat si h)) (\<lambda>st. case st of Inr code \<Rightarrow> send_status rn code d'
          | Inl a \<Rightarrow> (case st_size a of None \<Rightarrow> raise TypeError | Some sz \<Rightarrow> check_hashes env si rn alg nm start (sz - start) bs)) s
        else check_hashes env si rn alg nm start len bs s)" for a d d' and len :: int and h nm start bs
      by (cases "find (\<lambda>x. x \<in> set known_hashes) a"; cases "len = 0")
        (auto intro!: preserves_intro l ch split: option.split sum.split simp: if_distrib)
  qed
  have x: "preserves P (process_extended env si rn m)"
    unfolding process_extended_def split_beta by (intro preserves_intro cf l)
  show ?thesis
    unfolding process_def by (intro preserves_if preserves_raise o r w d f fs rl x l preserves_intro)
qed

lemma request_law: "table_law P \<Longrightarrow> preserves P (answer_request env si t data)"
proof (rule preservesI)
  fix s r s'
  assume l: "table_law P" and P: "P s" and run: "answer_request env si t data s = (r, s')"
  let ?rn = "fst (get_int (message_of data))" and ?m = "snd (get_int (message_of data))"
  obtain r1 s1 where p: "process env si t ?rn ?m s = (r1, s1)" by (metis prod.collapse)
  have P1: "P s1" by (rule preservesD [OF process_law [OF l] P p])
  obtain r2 s2 where f: "send_status ?rn SFTP_FAILURE None s1 = (r2, s2)" by (metis prod.collapse)
  have P2: "P s2" by (rule preservesD [OF send_status_law [OF l] P1 f])
  have "s' = s1 \<or> s' = s2" using run p f by (auto simp: answer_request_def split_beta split: outcome.splits)
  with P1 P2 show "P s'" by blast
qed

fun answer_requests :: "sftp_env \<Rightarrow> 'f sftp_si \<Rightarrow> (int \<times> bytes) list \<Rightarrow> 'f sftp_server \<Rightarrow> 'f sftp_server" where
  "answer_requests env si [] s = s"
| "answer_requests env si ((t, data) # rs) s = answer_requests env si rs (snd (answer_request env si t data s))"

lemma requests_law: "table_law P \<Longrightarrow> P s \<Longrightarrow> P (answer_requests env si rs s)"
proof (induction rs arbitrary: s)
  case (Cons x rs)
  obtain t data where x: "x = (t, data)" by (cases x)
  have "P (snd (answer_request env si t data s))"
    using request_law [OF Cons.prems(1)] Cons.prems(2) by (simp add: preserves_def)
  with Cons x show ?case by simp
qed simp

lemma close_removes:
  assumes "process_close si rn m s = (Ret u, s1)" and "handles_ok s" and "fst (get_binary m) \<in> handle_keys s"
  shows "fst (get_binary m) \<notin> handle_keys s1 \<and> ss_next s1 = ss_next s"
proof -
  let ?h = "fst (get_binary m)"
  have st: "ss_next s' = ss_next x \<and> handle_keys s' = handle_keys x" if "send_status rn c d x = (r, s')" for c d x r s'
    using that by (auto simp: send_status_def response_def seqp_def liftr_def srv_send_def handle_keys_def split: sum.splits prod.splits outcome.splits)
  show ?thesis
  proof (cases "map_of (ss_folders s) ?h")
    case (Some h)
    then have "?h \<in> tab_keys (ss_folders s)" by (force simp: tab_keys_def dest: map_of_SomeD)
    with assms(2) have nf: "?h \<notin> tab_keys (ss_files s)" by (auto simp: handles_ok_def)
    have "send_status rn SFTP_OK None (s\<lparr>ss_folders := AList.delete ?h (ss_folders s)\<rparr>) = (Ret u, s1)"
      using assms(1) Some by (simp add: process_close_def Let_def)
    from st [OF this] nf show ?thesis by (simp add: handle_keys_def)
  next
    case None
    then have nf: "?h \<notin> tab_keys (ss_folders s)" by (simp add: tab_keys_def map_of_eq_None_iff)
    with assms(3) have "?h \<in> tab_keys (ss_files s)" by (simp add: handle_keys_def)
    then obtain h where h: "map_of (ss_files s) ?h = Some h" by (metis map_of_eq_None_iff not_None_eq tab_keys_def)
    obtain r2 s2 where f: "on_file ?h h (handle_finish si) s = (r2, s2)" by (metis prod.collapse)
    have k: "ss_next s2 = ss_next s \<and> tab_keys (ss_folders s2) = tab_keys (ss_folders s)"
      using f by (auto simp: on_file_def split: prod.splits)
    have "r2 = Ret ()" using assms(1) None h f by (cases r2) (auto simp: process_close_def Let_def seqp_def)
    then have "send_status rn SFTP_OK None (s2\<lparr>ss_files := AList.delete ?h (ss_files s2)\<rparr>) = (Ret u, s1)"
      using assms(1) None h f by (simp add: process_close_def Let_def seqp_def)
    from st [OF this] k nf show ?thesis by (simp add: handle_keys_def)
  qed
qed

text \<open>Claim C34. 
  A handle that was closed is refused for good: names are not given out again, so whatever requests come
  later, reading from it, writing to it and closing it again are answered as an invalid handle.
\<close>

theorem closed_handle_refused:
  assumes "s = answer_requests env si before (new_server f c)" and "fst (get_binary m) \<in> handle_keys s"
    and "process_close si rn m s = (Ret u, s1)" and "s2 = answer_requests env si later s1"
    and "fst (get_binary m') = fst (get_binary m)"
  shows "process_read si rn' m' s2 = bad_handle rn' s2 \<and> process_write si rn' m' s2 = bad_handle rn' s2 \<and>
    process_close si rn' m' s2 = bad_handle rn' s2"
proof -
  let ?h = "fst (get_binary m)"
  have new: "handles_ok (new_server f c)" by (simp add: handles_ok_def new_server_def handle_keys_def tab_keys_def)
  have ok: "handles_ok s" unfolding assms(1) by (rule requests_law [OF handles_ok_law new])
  then obtain n where n: "n < ss_next s" "?h = handle_name n" using assms(2) by (auto simp: handles_ok_def)
  note c = close_removes [OF assms(3) ok assms(2)]
  have "issued s1 s2" unfolding assms(4) by (rule requests_law [OF issued_law]) (simp add: issued_def)
  then have "?h \<notin> handle_keys s2" using c n by (auto simp: issued_def handle_name_eq)
  then have "map_of (ss_files s2) ?h = None" "map_of (ss_folders s2) ?h = None"
    by (simp_all add: handle_keys_def tab_keys_def map_of_eq_None_iff)
  with assms(5) show ?thesis by (simp add: process_read_def process_write_def process_close_def with_file_def split_beta)
qed

end
