(* ===== verification/Sftp_Server_Files.thy ===== *)
theory Sftp_Server_Files
  imports Sftp_Server_Props
begin

text \<open>
  The default handle reads and writes by position; the default interface confines paths; and small runs of
  the server over a file in memory.
\<close>

section \<open>Positional access\<close>

definition pread :: "bytes \<Rightarrow> int \<Rightarrow> int \<Rightarrow> bytes" where
  "pread c p n = take (nat n) (drop (nat p) c)"

definition pwrite :: "bytes \<Rightarrow> int \<Rightarrow> bytes \<Rightarrow> bytes" where
  "pwrite c p d = take (nat p) c @ replicate (nat p - length c) 0 @ d @ drop (nat p + length d) c"

text \<open>What the handle needs of a file object: the documented behaviour of a seekable binary file.\<close>

locale positional_file =
  fixes si :: "'f sftp_si" and fno :: nat and bytes_of :: "'f \<Rightarrow> bytes" and posn :: "'f \<Rightarrow> int"
  assumes tells: "fo_tell si fno f = (Ret (posn f), f)"
    and seeks: "0 \<le> p \<Longrightarrow> \<exists>f'. fo_seek si fno p f = (Ret (), f') \<and> bytes_of f' = bytes_of f \<and> posn f' = p"
    and reads_at: "0 \<le> n \<Longrightarrow> \<exists>f'. fo_read si fno n f = (Ret (pread (bytes_of f) (posn f) n), f') \<and> bytes_of f' = bytes_of f \<and>
        posn f' = posn f + int (length (pread (bytes_of f) (posn f) n))"
    and writes_at: "\<exists>f'. fo_write si fno d f = (Ret (), f') \<and> bytes_of f' = pwrite (bytes_of f) (posn f) d \<and> posn f' = posn f + int (length d)"
    and flushes: "\<exists>f'. fo_flush si fno f = (Ret (), f') \<and> bytes_of f' = bytes_of f \<and> posn f' = posn f"
begin

definition tell_ok :: "sftp_handle \<times> 'f \<Rightarrow> bool" where
  "tell_ok s \<longleftrightarrow> (\<forall>t. hd_tell (fst s) = Some t \<longrightarrow> t = posn (snd s)) \<and> hd_readfile (fst s) = Some fno \<and>
     hd_writefile (fst s) = Some fno \<and> hd_flags (fst s) AND O_APPEND = 0"

lemma go_to_at:
  assumes "tell_ok s" and "0 \<le> p"
  shows "\<exists>s'. go_to si fno p s = (Ret (), s') \<and> tell_ok s' \<and> hd_tell (fst s') = Some p \<and> bytes_of (snd s') = bytes_of (snd s)"
proof -
  obtain h f where s: "s = (h, f)" by (cases s)
  have seek: "\<exists>s'. (if t \<noteq> p then seqp (on_hf (fo_seek si fno p)) (\<lambda>_. set_tell (Some p)) (h', f) else ret () (h', f)) = (Ret (), s') \<and>
      tell_ok s' \<and> hd_tell (fst s') = Some p \<and> bytes_of (snd s') = bytes_of f"
    if ok: "tell_ok (h', f)" "hd_tell h' = Some t" for h' t
  proof (cases "t = p")
    case True
    with ok show ?thesis by simp
  next
    case False
    from seeks [OF assms(2), of f] obtain f' where f': "fo_seek si fno p f = (Ret (), f')" "bytes_of f' = bytes_of f" "posn f' = p" by blast
    with False ok show ?thesis by (simp add: on_hf_def set_tell_def seqp_def tell_ok_def)
  qed
  show ?thesis
  proof (cases "hd_tell h")
    case None
    have ok: "tell_ok (h\<lparr>hd_tell := Some (posn f)\<rparr>, f)" using assms(1) s by (simp add: tell_ok_def)
    from seek [OF ok] None show ?thesis
      by (simp add: go_to_def s seqp_def on_hf_def tells set_tell_def)
  next
    case (Some t)
    with seek [of h t] assms(1) s show ?thesis by (simp add: go_to_def seqp_def)
  qed
qed

lemma read_at:
  assumes "tell_ok s" and "0 \<le> p" and "0 \<le> n"
  shows "\<exists>s'. handle_read si p n s = (Ret (Inl (pread (bytes_of (snd s)) p n)), s') \<and> tell_ok s' \<and> bytes_of (snd s') = bytes_of (snd s)"
proof -
  from go_to_at [OF assms(1,2)] obtain h1 f1 where g: "go_to si fno p s = (Ret (), (h1, f1))" "tell_ok (h1, f1)" "hd_tell h1 = Some p"
    "bytes_of f1 = bytes_of (snd s)" by (metis fst_conv snd_conv surj_pair)
  have a: "posn f1 = p" using g(2,3) by (simp add: tell_ok_def)
  from reads_at [OF assms(3), of f1] obtain f2 where r: "fo_read si fno n f1 = (Ret (pread (bytes_of f1) (posn f1) n), f2)" "bytes_of f2 = bytes_of f1"
    "posn f2 = posn f1 + int (length (pread (bytes_of f1) (posn f1) n))" by blast
  have "hd_readfile (fst s) = Some fno" using assms(1) by (simp add: tell_ok_def)
  with g r a show ?thesis
    by (simp add: handle_read_def seqp_def except_io_def on_hf_def move_tell_def set_tell_def tell_ok_def)
qed

lemma write_at:
  assumes "tell_ok s" and "0 \<le> p"
  shows "\<exists>s'. handle_write si p d s = (Ret SFTP_OK, s') \<and> tell_ok s' \<and> bytes_of (snd s') = pwrite (bytes_of (snd s)) p d"
proof -
  from go_to_at [OF assms] obtain h1 f1 where g: "go_to si fno p s = (Ret (), (h1, f1))" "tell_ok (h1, f1)" "hd_tell h1 = Some p"
    "bytes_of f1 = bytes_of (snd s)" by (metis fst_conv snd_conv surj_pair)
  have a: "posn f1 = p" using g(2,3) by (simp add: tell_ok_def)
  from writes_at [of d f1] obtain f2 where w: "fo_write si fno d f1 = (Ret (), f2)" "bytes_of f2 = pwrite (bytes_of f1) (posn f1) d"
    "posn f2 = posn f1 + int (length d)" by blast
  from flushes [of f2] obtain f3 where l: "fo_flush si fno f2 = (Ret (), f3)" "bytes_of f3 = bytes_of f2" "posn f3 = posn f2" by blast
  have "hd_writefile (fst s) = Some fno" "hd_flags (fst s) AND O_APPEND = 0" using assms(1) by (simp_all add: tell_ok_def)
  with g w l a show ?thesis
    by (simp add: handle_write_def seqp_def except_io_def on_hf_def move_tell_def set_tell_def tell_ok_def)
qed

end

text \<open>Sequences of accesses, on a handle and on the bytes themselves.\<close>

datatype file_op = ReadAt int int | WriteAt int bytes
datatype op_result = GotBytes bytes | GotCode int

fun valid_op :: "file_op \<Rightarrow> bool" where
  "valid_op (ReadAt p n) = (0 \<le> p \<and> 0 \<le> n)"
| "valid_op (WriteAt p d) = (0 \<le> p)"

fun handle_op :: "'f sftp_si \<Rightarrow> file_op \<Rightarrow> (sftp_handle \<times> 'f, op_result) prog" where
  "handle_op si (ReadAt p n) = seqp (handle_read si p n) (\<lambda>r. ret (case r of Inl d \<Rightarrow> GotBytes d | Inr c \<Rightarrow> GotCode c))"
| "handle_op si (WriteAt p d) = seqp (handle_write si p d) (\<lambda>c. ret (GotCode c))"

fun handle_ops :: "'f sftp_si \<Rightarrow> file_op list \<Rightarrow> (sftp_handle \<times> 'f, op_result list) prog" where
  "handle_ops si [] = ret []"
| "handle_ops si (x # xs) = seqp (handle_op si x) (\<lambda>r. seqp (handle_ops si xs) (\<lambda>rs. ret (r # rs)))"

fun bytes_op :: "file_op \<Rightarrow> bytes \<Rightarrow> op_result \<times> bytes" where
  "bytes_op (ReadAt p n) c = (GotBytes (pread c p n), c)"
| "bytes_op (WriteAt p d) c = (GotCode SFTP_OK, pwrite c p d)"

fun bytes_ops :: "file_op list \<Rightarrow> bytes \<Rightarrow> op_result list \<times> bytes" where
  "bytes_ops [] c = ([], c)"
| "bytes_ops (x # xs) c = (let (r, c) = bytes_op x c; (rs, c) = bytes_ops xs c in (r # rs, c))"

context positional_file begin

lemma op_at:
  assumes "tell_ok s" and "valid_op x"
  shows "\<exists>s'. handle_op si x s = (Ret (fst (bytes_op x (bytes_of (snd s)))), s') \<and> tell_ok s' \<and>
    bytes_of (snd s') = snd (bytes_op x (bytes_of (snd s)))"
proof (cases x)
  case (ReadAt p n)
  with read_at [OF assms(1), of p n] assms(2) show ?thesis by (auto simp: seqp_def)
next
  case (WriteAt p d)
  with write_at [OF assms(1), of p d] assms(2) show ?thesis by (auto simp: seqp_def)
qed

lemma ops_at:
  "tell_ok s \<Longrightarrow> list_all valid_op xs \<Longrightarrow> \<exists>s'. handle_ops si xs s = (Ret (fst (bytes_ops xs (bytes_of (snd s)))), s') \<and>
     bytes_of (snd s') = snd (bytes_ops xs (bytes_of (snd s)))"
proof (induction xs arbitrary: s)
  case (Cons x xs)
  from op_at [OF Cons.prems(1), of x] Cons.prems(2) obtain s1 where s1: "handle_op si x s = (Ret (fst (bytes_op x (bytes_of (snd s)))), s1)"
    "tell_ok s1" "bytes_of (snd s1) = snd (bytes_op x (bytes_of (snd s)))" by auto
  from Cons.IH [OF s1(2)] Cons.prems(2) obtain s2 where
    "handle_ops si xs s1 = (Ret (fst (bytes_ops xs (bytes_of (snd s1)))), s2)" "bytes_of (snd s2) = snd (bytes_ops xs (bytes_of (snd s1)))" by auto
  with s1 show ?case by (auto simp: seqp_def split_beta Let_def)
qed simp

end

text \<open>Claim C35. 
  The position a handle remembers never shows: through a handle that is not opened for appending, reads and
  writes one seekable file, and remembers no position or the right one, any sequence of reads and writes gives
  what the same accesses on the bytes give. (For a handle opened for appending it is not so, see \<open>append_handle_misreads\<close>.)
\<close>

theorem handle_is_positional:
  assumes "positional_file si fno bytes_of posn" and "hd_readfile h = Some fno" and "hd_writefile h = Some fno"
    and "hd_flags h AND O_APPEND = 0" and "\<forall>t. hd_tell h = Some t \<longrightarrow> t = posn f" and "list_all valid_op ops"
  shows "\<exists>h' f'. handle_ops si ops (h, f) = (Ret (fst (bytes_ops ops (bytes_of f))), (h', f')) \<and>
    bytes_of f' = snd (bytes_ops ops (bytes_of f))"
proof -
  have "positional_file.tell_ok fno posn (h, f)"
    using assms(2-5) by (simp add: positional_file.tell_ok_def [OF assms(1)])
  from positional_file.ops_at [OF assms(1) this assms(6)] show ?thesis by (metis snd_conv surj_pair)
qed

section \<open>A file in memory\<close>

text \<open>\<open>io.BytesIO\<close> as the file object of every handle; the other calls are the default ones.\<close>

definition bytesio_si :: "message sftp_si" where
  "bytesio_si = default_si posix_path
     \<lparr>si_open = (\<lambda>p fl a. no_object), si_list_folder = (\<lambda>p. no_object), si_stat = (\<lambda>p. no_object), si_lstat = (\<lambda>p. no_object),
      si_remove = (\<lambda>p. unsupported), si_rename = (\<lambda>p q. unsupported), si_posix_rename = (\<lambda>p q. unsupported),
      si_mkdir = (\<lambda>p a. unsupported), si_rmdir = (\<lambda>p. unsupported), si_chattr = (\<lambda>p a. unsupported),
      si_canonicalize = ret, si_readlink = (\<lambda>p. no_object), si_symlink = (\<lambda>p q. unsupported),
      hd_stat = (\<lambda>h. no_object), hd_chattr = (\<lambda>h a. unsupported),
      fo_tell = (\<lambda>i. gets (\<lambda>m. int (offset m))),
      fo_seek = (\<lambda>i p. if p < 0 then raise ValueError else modify (\<lambda>m. m\<lparr>offset := nat p\<rparr>)),
      fo_read = (\<lambda>i n m. let (b, m') = bio_read m n in (Ret b, m')),
      fo_write = (\<lambda>i d. modify (\<lambda>m. bio_write m d)), fo_flush = (\<lambda>i. ret ()), fo_close = (\<lambda>i. ret ())\<rparr>"

interpretation bio: positional_file bytesio_si i packet "\<lambda>m. int (offset m)"
proof unfold_locales
  fix p :: int and f :: message
  assume "0 \<le> p"
  then show "\<exists>f'. fo_seek bytesio_si i p f = (Ret (), f') \<and> packet f' = packet f \<and> int (offset f') = p"
    by (simp add: bytesio_si_def default_si_def)
next
  fix n :: int and f :: message
  assume "0 \<le> n"
  then show "\<exists>f'. fo_read bytesio_si i n f = (Ret (pread (packet f) (int (offset f)) n), f') \<and> packet f' = packet f \<and>
      int (offset f') = int (offset f) + int (length (pread (packet f) (int (offset f)) n))"
    by (simp add: bytesio_si_def default_si_def bio_read_def pread_def Let_def)
next
  fix d and f :: message
  show "\<exists>f'. fo_write bytesio_si i d f = (Ret (), f') \<and> packet f' = pwrite (packet f) (int (offset f)) d \<and>
      int (offset f') = int (offset f) + int (length d)"
    by (simp add: bytesio_si_def default_si_def bio_write_def pwrite_def Let_def)
qed (simp_all add: bytesio_si_def default_si_def)

definition memory_handle :: sftp_handle where
  "memory_handle = (new_handle 2)\<lparr>hd_readfile := Some 0, hd_writefile := Some 0\<rparr>"

theorem handle_is_positional_witness:
  "\<exists>h' f'. handle_ops bytesio_si [WriteAt 2 [7, 8], ReadAt 0 3, ReadAt 3 9] (memory_handle, message_of [1]) =
     (Ret [GotCode 0, GotBytes [1, 0, 7], GotBytes [8]], (h', f')) \<and> packet f' = [1, 0, 7, 8]"
proof -
  have h: "hd_readfile memory_handle = Some 0" "hd_writefile memory_handle = Some 0" "hd_flags memory_handle AND O_APPEND = 0"
    "hd_tell memory_handle = None" and v: "list_all valid_op [WriteAt 2 [7, 8], ReadAt 0 3, ReadAt 3 9]"
    by code_simp+
  have b: "bytes_ops [WriteAt 2 [7, 8], ReadAt 0 3, ReadAt 3 9] (packet (message_of [1])) =
      ([GotCode 0, GotBytes [1, 0, 7], GotBytes [8]], [1, 0, 7, 8])" by code_simp
  show ?thesis using handle_is_positional [OF bio.positional_file_axioms h(1-3) _ v, of "message_of [1]"] h(4) unfolding b fst_conv snd_conv by simp
qed

text \<open>
  A handle opened for appending does not seek before it writes, and the file ends up behind the position it
  remembers: the next read there comes from the end of the file.
\<close>

definition append_si :: "message sftp_si" where
  "append_si = bytesio_si\<lparr>fo_write := (\<lambda>i d. modify (\<lambda>m. bio_write (m\<lparr>offset := length (packet m)\<rparr>) d))\<rparr>"

lemma append_handle_misreads:
  "fst (handle_ops append_si [ReadAt 0 2, WriteAt 4 [9], ReadAt 3 1] (memory_handle\<lparr>hd_flags := O_APPEND + 2\<rparr>, message_of [1, 2, 3, 4])) =
     Ret [GotBytes [1, 2], GotCode 0, GotBytes []]"
  "fst (bytes_ops [ReadAt 0 2, WriteAt 4 [9], ReadAt 3 1] [1, 2, 3, 4]) = [GotBytes [1, 2], GotCode 0, GotBytes [4]]"
  by code_simp+

text \<open>A hash over a range that goes past the end of the file is never finished.\<close>

lemma hash_past_end_never_ends:
  assumes "map_of (ss_files s) hname = Some h" and "on_file hname h (handle_read si off chunklen) s = (Ret (Inl []), s)" and "0 < blocklen"
  shows "hash_block si fuel hname blocklen chunklen off 0 acc s = (Blocked, s)"
proof (induction fuel)
  case 0
  show ?case using assms(3) by (subst hash_block.simps) simp
next
  case (Suc fuel)
  then show ?case using assms by (subst hash_block.simps) (simp add: Let_def)
qed

section \<open>Paths\<close>

lemma split_on_sepfree: "x \<in> set (split_on sep l) \<Longrightarrow> sep \<notin> set x"
  by (induction l arbitrary: x) (auto split: if_splits list.splits)

definition proper_part :: "pystr \<Rightarrow> bool" where
  "proper_part x \<longleftrightarrow> x \<noteq> [] \<and> x \<noteq> [46] \<and> x \<noteq> [46, 46] \<and> slash \<notin> set x"

text \<open>Going through the parts of a path from the root: \<open>..\<close> goes up, but not above it.\<close>

definition visit :: "pystr list \<Rightarrow> pystr \<Rightarrow> pystr list" where
  "visit at p = (if p = [] \<or> p = [46] then at else if p = [46, 46] then butlast at else at @ [p])"

lemma norm_parts_rooted:
  "list_all proper_part acc \<Longrightarrow> \<forall>x\<in>set ps. slash \<notin> set x \<Longrightarrow>
     norm_parts True acc ps = foldl visit acc ps \<and> list_all proper_part (foldl visit acc ps)"
proof (induction ps arbitrary: acc)
  case (Cons p ps)
  have b: "list_all proper_part (butlast acc)" using Cons.prems(1) by (auto simp: list_all_iff dest: in_set_butlastD)
  have r: "\<forall>x\<in>set ps. slash \<notin> set x" and p: "slash \<notin> set p" using Cons.prems(2) by simp_all
  have last: "\<not> (acc \<noteq> [] \<and> last acc = [46, 46])"
    using Cons.prems(1) by (auto simp: list_all_iff proper_part_def dest: last_in_set)
  have "proper_part p" if "p \<noteq> []" "p \<noteq> [46]" "p \<noteq> [46, 46]" using p that by (simp add: proper_part_def)
  then have "list_all proper_part (acc @ [p])" if "p \<noteq> []" "p \<noteq> [46]" "p \<noteq> [46, 46]"
    using Cons.prems(1) that by simp
  with Cons.IH [OF Cons.prems(1) r] Cons.IH [OF b r] Cons.IH [of "acc @ [p]", OF _ r] last show ?case
    by (auto simp: visit_def)
qed simp

lemma visit_proper: "list_all proper_part ps \<Longrightarrow> foldl visit acc ps = acc @ ps"
  by (induction ps arbitrary: acc) (simp_all add: visit_def proper_part_def)

lemma normpath_absolute:
  assumes "posix_isabs p"
  shows "\<exists>start. posix_normpath p = start @ join [slash] (foldl visit [] (split_on slash p)) \<and>
    (start = [slash] \<or> start = [slash, slash] \<and> take 2 p = [slash, slash] \<and> take 3 p \<noteq> [slash, slash, slash]) \<and>
    (take 2 p = [slash, slash] \<and> take 3 p \<noteq> [slash, slash, slash] \<longrightarrow> start = [slash, slash])"
proof -
  have "norm_parts True [] (split_on slash p) = foldl visit [] (split_on slash p)"
    using norm_parts_rooted [of "[]" "split_on slash p"] by (auto dest: split_on_sepfree)
  with assms show ?thesis by (auto simp: posix_normpath_def Let_def)
qed

lemma split_joined:
  assumes "list_all proper_part parts"
  shows "foldl visit [] (split_on slash (join [slash] parts)) = parts"
proof (cases "parts = []")
  case True
  then show ?thesis by (simp add: visit_def)
next
  case False
  have "split_on slash (join [slash] parts) = parts"
    by (rule split_on_join [OF False]) (use assms in \<open>auto simp: proper_part_def list_all_iff\<close>)
  then show ?thesis using visit_proper [OF assms, of "[]"] by simp
qed

lemma joined_start: "list_all proper_part parts \<Longrightarrow> take 1 (join [slash] parts) \<noteq> [slash]"
  by (cases parts; cases "tl parts"; cases "hd parts") (auto simp: proper_part_def)

lemma split_from_root [simp]: "split_on slash (slash # p) = [] # split_on slash p"
  by simp

lemma visit_nothing [simp]: "visit at [] = at"
  by (simp add: visit_def)

lemma normpath_stable:
  assumes "list_all proper_part parts" and "start = [slash] \<or> start = [slash, slash]"
  shows "posix_normpath (start @ join [slash] parts) = start @ join [slash] parts"
proof -
  let ?j = "join [slash] parts"
  have j: "take 1 ?j \<noteq> [slash]" by (rule joined_start [OF assms(1)])
  have abs: "posix_isabs (start @ ?j)" using assms(2) by (auto simp: posix_isabs_def)
  have two: "take 2 (start @ ?j) = [slash, slash] \<and> take 3 (start @ ?j) \<noteq> [slash, slash, slash] \<longleftrightarrow> start = [slash, slash]"
    using assms(2) j by (cases ?j) auto
  have "foldl visit [] (split_on slash (start @ ?j)) = parts"
    using assms(2) split_joined [OF assms(1)] by auto
  with normpath_absolute [OF abs] two assms(2) show ?thesis by auto
qed

lemma canonical_form:
  "\<exists>start. canonicalize posix_path p = start @ join [slash] (foldl visit [] (split_on slash p)) \<and>
    (start = [slash] \<or> start = [slash, slash] \<and> take 2 p = [slash, slash])"
proof (cases "posix_isabs p")
  case True
  with normpath_absolute [OF True] show ?thesis by (auto simp: canonicalize_def posix_path_def)
next
  case False
  have abs: "posix_isabs (slash # p)" by (simp add: posix_isabs_def)
  have "take 2 (slash # p) \<noteq> [slash, slash]" using False by (cases p) (auto simp: posix_isabs_def)
  with normpath_absolute [OF abs] False show ?thesis by (auto simp: canonicalize_def posix_path_def)
qed


section \<open>Small runs\<close>

definition memory_si :: "message sftp_si" where
  "memory_si = bytesio_si\<lparr>si_open := (\<lambda>p fl a. ret (Inl memory_handle))\<rparr>"

definition demo_env :: sftp_env where
  "demo_env = \<lparr>hash_of = (\<lambda>alg d. []), long_name = (\<lambda>nm a. []), hash_reads = 9\<rparr>"

definition demo_conn :: sftp_conn where
  "demo_conn = \<lparr>s_rx = [], s_tx = [Count 40, Count 40], s_out = []\<rparr>"

definition open_request :: bytes where
  "open_request = [0, 0, 0, 1, 0, 0, 0, 1, 97, 0, 0, 0, 3, 0, 0, 0, 0]"

theorem closed_handle_refused_witness:
  "\<exists>s s1. s = answer_requests demo_env memory_si [(3, open_request)] (new_server (message_of []) demo_conn) \<and>
     process_close memory_si 2 (message_of [0, 0, 0, 3, 104, 120, 49]) s = (Ret (), s1) \<and>
     process_read memory_si 3 (message_of [0, 0, 0, 3, 104, 120, 49, 0, 0, 0, 0, 0, 0, 0, 0, 0, 0, 0, 9])
       (answer_requests demo_env memory_si [(3, open_request)] s1) =
     bad_handle 3 (answer_requests demo_env memory_si [(3, open_request)] s1)"
proof -
  let ?s = "answer_requests demo_env memory_si [(3, open_request)] (new_server (message_of []) demo_conn)"
  let ?m = "message_of [0, 0, 0, 3, 104, 120, 49]"
  have k: "fst (get_binary ?m) \<in> handle_keys ?s"
    unfolding handle_keys_def tab_keys_def by code_simp
  have c: "fst (process_close memory_si 2 ?m ?s) = Ret ()" by code_simp
  then obtain s1 where s1: "process_close memory_si 2 ?m ?s = (Ret (), s1)" by (metis prod.collapse)
  have n: "fst (get_binary (message_of [0, 0, 0, 3, 104, 120, 49, 0, 0, 0, 0, 0, 0, 0, 0, 0, 0, 0, 9])) = fst (get_binary ?m)" by code_simp
  from closed_handle_refused [OF refl k s1 refl n, of 3] s1 show ?thesis by blast
qed

lemma prompt_memory: "prompt memory_si"
  by (simp add: prompt_def memory_si_def bytesio_si_def default_si_def unsupported_def no_object_def split: prod.split)

theorem every_request_answered_witness:
  "\<exists>s' w. answer_request demo_env memory_si 14 [0, 0, 0, 7, 0, 0, 0, 1, 97, 0, 0, 0, 0]
      (new_server (message_of []) \<lparr>s_rx = [], s_tx = [Count (2 ^ 33)], s_out = []\<rparr>) = (Ret (), s') \<and>
     ss_sent s' = [(101, w)] \<and> for_request 7 w"
proof -
  let ?s = "new_server (message_of []) \<lparr>s_rx = [], s_tx = [Count (2 ^ 33)], s_out = []\<rparr>" and ?d = "[0, 0, 0, 7, 0, 0, 0, 1, 97, 0, 0, 0, 0] :: bytes"
  obtain r s' where run: "answer_request demo_env memory_si 14 ?d ?s = (r, s')" by (metis prod.collapse)
  have rn: "(7, snd (get_int (message_of ?d))) = get_int (message_of ?d)" by code_simp
  note all = every_request_answered [OF run rn]
  have "ready (ss_conn ?s)" by (simp add: ready_def new_server_def)
  moreover have "\<not> is_check_file 14 (snd (get_int (message_of ?d)))" "\<not> stray_fsetstat 14 (snd (get_int (message_of ?d))) ?s"
    by (simp_all add: is_check_file_def stray_fsetstat_def)
  ultimately obtain ty w where "r = Ret ()" "ss_sent s' = ss_sent ?s @ [(ty, w)]" "ty \<in> reply_types 14" "for_request 7 w"
    using conjunct2 [OF all] prompt_memory by blast
  then show ?thesis using run by (auto simp: new_server_def reply_types_def)
qed

end
