(* ===== verification/Sftp_Client_Props.thy ===== *)
theory Sftp_Client_Props
  imports Sftp_File Sftp_Server_Files
begin

text \<open>
  Properties of the SFTP client's prefetching: the test of what is being fetched, and the bytes a prefetch hands
  out.
\<close>

section \<open>What is being fetched\<close>

text \<open>Claim C39. 
  When \<open>_data_in_prefetch_requests\<close> says that a range of a file is already asked for, every byte of the
  range is in one of the extents of the outstanding requests.
\<close>

theorem in_requests_covers:
  "in_requests extents off sz \<Longrightarrow> off \<le> x \<Longrightarrow> x < off + sz \<Longrightarrow>
     \<exists>(o', len) \<in> set extents. o' \<le> x \<and> x < o' + len"
proof (induction extents off sz rule: in_requests.induct)
  case (1 extents off sz)
  define k where "k = sort_key fst (filter (\<lambda>x. fst x \<le> off) extents)"
  have k: "k \<noteq> []" using 1(2) by (subst (asm) in_requests.simps) (auto simp: k_def Let_def)
  obtain o' len where l: "last k = (o', len)" by fastforce
  have "last k \<in> set k" using k by simp
  then have m: "(o', len) \<in> set extents" "o' \<le> off" unfolding l by (auto simp: k_def)
  have c: "off < o' + len" "off + sz \<le> o' + len \<or> in_requests extents (o' + len) (off + sz - o' - len)"
    using 1(2) k l by (subst (asm) in_requests.simps; auto simp: k_def [symmetric] Let_def split: if_splits)+
  show ?case
  proof (cases "x < o' + len")
    case True
    with m 1(3) have "o' \<le> x \<and> x < o' + len" by simp
    then show ?thesis using m(1) by blast
  next
    case False
    then have "in_requests extents (o' + len) (off + sz - o' - len)" "\<not> off + sz \<le> o' + len" using c 1(4) by auto
    from 1(1) [OF k_def k refl l [symmetric] _ _ this(1)] c(1) this(2) False 1(4) show ?thesis by auto
  qed
qed

theorem in_requests_covers_witness:
  "\<exists>(o', len) \<in> set [(4, 4), (0, 4)]. o' \<le> 5 \<and> 5 < o' + (len :: int)"
proof -
  have "in_requests [(4, 4), (0, 4)] 2 5" by code_simp
  from in_requests_covers [OF this, of 5] show ?thesis by simp
qed

section \<open>The bytes a prefetch hands out\<close>

text \<open>\<open>d\<close> stands in the server's file from the offset on.\<close>

definition stands :: "bytes \<Rightarrow> int \<Rightarrow> bytes \<Rightarrow> bool" where
  "stands file off d \<longleftrightarrow> 0 \<le> off \<and> (\<exists>r. drop (nat off) file = d @ r)"

lemma stands_take: "stands file off d \<Longrightarrow> stands file off (take k d)"
  unfolding stands_def by (metis append.assoc append_take_drop_id)

lemma stands_drop:
  assumes "stands file off d" and "k \<le> length d"
  shows "stands file (off + int k) (drop k d)"
proof -
  from assms(1) obtain r where r: "0 \<le> off" "drop (nat off) file = d @ r" by (auto simp: stands_def)
  have "drop (nat (off + int k)) file = drop k (drop (nat off) file)" using r(1) by (simp add: nat_add_distrib add.commute)
  then have "drop (nat (off + int k)) file = drop k d @ r" using r(2) assms(2) by simp
  then show ?thesis using r(1) by (auto simp: stands_def)
qed

text \<open>What a prefetch relies on: the buffers hold the file's bytes, and nothing is asked for before its start.\<close>

definition buffers_right :: "bytes \<Rightarrow> sfile \<Rightarrow> bool" where
  "buffers_right file f \<longleftrightarrow>
     (\<forall>off d. map_of (sf_data f) off = Some d \<longrightarrow> stands file off d) \<and>
     (\<forall>num off len. map_of (sf_extents f) num = Some (off, len) \<longrightarrow> 0 \<le> off) \<and>
     (\<forall>(asked, parts, limit) \<in> set (sf_threads f).
        (\<forall>num off len. asked = Some (num, off, len) \<longrightarrow> 0 \<le> off) \<and> (\<forall>(off, len) \<in> set parts. 0 \<le> off))"

lemma take_prefetch_right:
  assumes "buffers_right file f" and "in_buffers (sf_data f) (realpos (sf_buf f)) = Some index"
    and "take_prefetch index n f = (d, f')" and "0 < n"
  shows "stands file (realpos (sf_buf f)) d \<and> d \<noteq> [] \<and> int (length d) \<le> n \<and> buffers_right file f'"
proof -
  from in_buffersD [OF assms(2)] obtain pf where pf: "map_of (sf_data f) index = Some pf" and o: "index \<le> realpos (sf_buf f)"
      "realpos (sf_buf f) - index < int (length pf)" by blast
  define bo where "bo = nat (realpos (sf_buf f) - index)"
  have bo: "realpos (sf_buf f) = index + int bo" "bo < length pf" using o by (auto simp: bo_def)
  define d0 where "d0 = AList.delete index (sf_data f)"
  define d1 where "d1 = (if 0 < bo then AList.update index (take bo pf) d0 else d0)"
  have st: "stands file index pf" using assms(1) pf by (simp add: buffers_right_def)
  have here: "stands file (realpos (sf_buf f)) (drop bo pf)" using stands_drop [OF st] bo by simp
  have eq: "(d, f') = (if n < int (length (drop bo pf)) then take (nat n) (drop bo pf) else drop bo pf,
      f\<lparr>sf_data := if n < int (length (drop bo pf)) then AList.update (realpos (sf_buf f) + n) (drop (nat n) (drop bo pf)) d1 else d1\<rparr>)"
    using assms(3,4) pf bo(1)
    by (auto simp: take_prefetch_def Let_def d0_def d1_def slice_to_nonneg slice_from_nonneg split: if_splits)
  have d0: "map_of d0 x = Some v \<Longrightarrow> stands file x v" for x v
    using assms(1) by (auto simp: d0_def AList.delete_conv' buffers_right_def split: if_splits)
  have d1: "map_of d1 x = Some v \<Longrightarrow> stands file x v" for x v
    using d0 stands_take [OF st, of bo] by (auto simp: d1_def AList.update_conv' split: if_splits)
  have late: "stands file (realpos (sf_buf f) + n) (drop (nat n) (drop bo pf))" if "n < int (length (drop bo pf))"
    using stands_drop [OF here, of "nat n"] that assms(4) by simp
  have "map_of (sf_data f') x = Some v \<Longrightarrow> stands file x v" for x v
    using eq d1 late by (auto simp: AList.update_conv' split: if_splits)
  moreover have "sf_extents f' = sf_extents f" "sf_threads f' = sf_threads f" using eq by simp_all
  ultimately have "buffers_right file f'" using assms(1) by (simp add: buffers_right_def)
  moreover have "stands file (realpos (sf_buf f)) d" using eq here stands_take [OF here, of "nat n"] by (auto split: if_splits)
  moreover have "d \<noteq> []" "int (length d) \<le> n" using eq bo(2) assms(4) by (auto split: if_splits)
  ultimately show ?thesis by blast
qed

text \<open>
  The steps of a client with an open file, for a server whose data are the file's: a thread sends a request or records
  it, a response for the file comes (also before its request was recorded), a read takes a prefetched piece, a prefetch starts, the buffers of \<open>BufferedFile\<close> change (\<open>seek\<close>
  and the rest of \<open>read\<close>), and everything else of the client.
\<close>

inductive pf_step :: "bytes \<Rightarrow> nat \<Rightarrow> sftp_client \<Rightarrow> sftp_client \<Rightarrow> bool" for bs :: bytes and i :: nat where
  sends: "k < length (sf_threads (the_f i s)) \<Longrightarrow> pf_step bs i s (prefetch_send i k s)"
| records: "k < length (sf_threads (the_f i s)) \<Longrightarrow> pf_step bs i s (prefetch_record i k s)"
| data_comes: "async_response i CMD_DATA m num s = (Ret (), s') \<Longrightarrow> map_of (sf_extents (recorded num (the_f i s))) num = Some (off, len) \<Longrightarrow>
    stands bs off (fst (get_string m)) \<Longrightarrow> pf_step bs i s s'"
| status_comes: "async_response i CMD_STATUS m num s = (r, s') \<Longrightarrow> pf_step bs i s s'"
| hit: "in_buffers (sf_data (the_f i s)) (realpos (sf_buf (the_f i s))) = Some index \<Longrightarrow> 0 < n \<Longrightarrow>
    read_prefetch i n s = (r, s') \<Longrightarrow> pf_step bs i s s'"
| starts: "\<forall>(off, len) \<in> set parts. 0 \<le> off \<Longrightarrow> start_prefetch i parts limit s = (r, s') \<Longrightarrow> pf_step bs i s s'"
| buffered: "pf_step bs i s (snd (on_buf i g s))"
| elsewhere: "the_f i s' = the_f i s \<Longrightarrow> length (sc_files s') = length (sc_files s) \<Longrightarrow> pf_step bs i s s'"

inductive pf_reach :: "bytes \<Rightarrow> nat \<Rightarrow> sftp_client \<Rightarrow> sftp_client \<Rightarrow> bool" for bs :: bytes and i :: nat where
  start: "sf_data (the_f i s) = [] \<Longrightarrow> sf_extents (the_f i s) = [] \<Longrightarrow> sf_threads (the_f i s) = [] \<Longrightarrow> pf_reach bs i s s"
| more: "pf_reach bs i s s' \<Longrightarrow> pf_step bs i s' s'' \<Longrightarrow> pf_reach bs i s s''"

lemma the_upd: "the_f i (snd (upd_f i g s)) = (if i < length (sc_files s) then g (the_f i s) else new_sfile [])"
  by (simp add: upd_f_def the_f_def)

lemma right_same [simp]:
  "buffers_right file (f\<lparr>sf_saved := x\<rparr>) = buffers_right file f"
  "buffers_right file (f\<lparr>sf_buf := b\<rparr>) = buffers_right file f"
  "buffers_right file (f\<lparr>sf_done := c\<rparr>) = buffers_right file f"
  by (simp_all add: buffers_right_def)

lemma right_new: "buffers_right file (new_sfile h)"
  by (simp add: buffers_right_def new_sfile_def)

lemma right_upd: "(buffers_right file (the_f i s) \<Longrightarrow> buffers_right file (g (the_f i s))) \<Longrightarrow>
    buffers_right file (the_f i s) \<Longrightarrow> buffers_right file (the_f i (snd (upd_f i g s)))"
  by (simp add: the_upd right_new)

lemma async_request_files: "sc_files (snd (async_request fo t items s)) = sc_files s"
  by (auto simp: async_request_def seqp_def liftr_def on_conn_eq split: sum.split outcome.split)

definition thread_right :: "(int \<times> (int \<times> int)) option \<times> (int \<times> int) list \<times> int option \<Rightarrow> bool" where
  "thread_right t \<longleftrightarrow> (\<forall>num off len. fst t = Some (num, off, len) \<longrightarrow> 0 \<le> off) \<and> (\<forall>(off, len) \<in> set (fst (snd t)). 0 \<le> off)"

lemma right_threads:
  "buffers_right file f \<longleftrightarrow> (\<forall>off d. map_of (sf_data f) off = Some d \<longrightarrow> stands file off d) \<and>
     (\<forall>num off len. map_of (sf_extents f) num = Some (off, len) \<longrightarrow> 0 \<le> off) \<and> (\<forall>t \<in> set (sf_threads f). thread_right t)"
  by (auto simp: buffers_right_def thread_right_def split_beta)

lemma right_thread_update: "buffers_right file f \<Longrightarrow> thread_right t \<Longrightarrow> buffers_right file (f\<lparr>sf_threads := (sf_threads f)[k := t]\<rparr>)"
  using set_update_subset_insert [of "sf_threads f" k t] by (auto simp: right_threads)

lemma thread_at: "buffers_right file f \<Longrightarrow> k < length (sf_threads f) \<Longrightarrow> thread_right (sf_threads f ! k)"
  by (simp add: right_threads)

lemma record_right:
  assumes "buffers_right file f" and "k < length (sf_threads f)"
  shows "buffers_right file (record_extent k f)"
proof -
  obtain asked parts limit where t: "sf_threads f ! k = (asked, parts, limit)" by (metis prod.collapse)
  have r: "thread_right (asked, parts, limit)" using thread_at [OF assms] t by simp
  show ?thesis
  proof (cases asked)
    case None
    with t assms(1) show ?thesis by (simp add: record_extent_def)
  next
    case (Some x)
    obtain num off len where x: "x = (num, off, len)" by (metis prod.collapse)
    have "buffers_right file (f\<lparr>sf_threads := (sf_threads f)[k := (None, parts, limit)]\<rparr>)"
      using r by (intro right_thread_update assms(1)) (simp add: thread_right_def)
    moreover have "0 \<le> off" using r Some x by (simp add: thread_right_def)
    ultimately show ?thesis using t Some x by (auto simp: record_extent_def right_threads AList.update_conv')
  qed
qed

lemma prefetch_send_right:
  assumes "buffers_right file (the_f i s)" and "k < length (sf_threads (the_f i s))"
  shows "buffers_right file (the_f i (prefetch_send i k s))"
proof -
  obtain asked parts limit where t: "sf_threads (the_f i s) ! k = (asked, parts, limit)" by (metis prod.collapse)
  note r = thread_at [OF assms, unfolded t]
  show ?thesis
  proof (cases "asked = None \<and> parts \<noteq> []")
    case False
    then show ?thesis using assms t by (auto simp: prefetch_send_def split: list.split option.split)
  next
    case True
    then obtain off len rest where p: "asked = None" "parts = (off, len) # rest" by (cases parts) auto
    obtain x s1 where a: "async_request (Some i) CMD_READ [RBytes (handle_of i s), RInt64 off, RInt len] s = (x, s1)" by fastforce
    have f1: "the_f i s1 = the_f i s" using async_request_files [of "Some i" CMD_READ _ s] a by (metis snd_conv the_f_def)
    have "thread_right (Some (num, off, len), rest, limit)" for num using r p by (simp add: thread_right_def)
    moreover have "thread_right (None, [], limit)" by (simp add: thread_right_def)
    ultimately show ?thesis
      using assms(1) t p a f1 right_thread_update [OF assms(1)]
      by (cases x) (auto simp: prefetch_send_def right_new the_upd split: option.splits)
  qed
qed

lemma recorded_right: "buffers_right file f \<Longrightarrow> buffers_right file (recorded num f)"
  by (auto simp: recorded_def find_Some_iff split: option.split intro: record_right)

lemma store_right:
  assumes "buffers_right file f" and "map_of (sf_extents (recorded num f)) num = Some (off, len)" and "stands file off d"
    and "store_response num d f = Some f'"
  shows "buffers_right file f'"
proof -
  let ?f = "recorded num f"
  define g where "g = ?f\<lparr>sf_data := AList.update off d (sf_data ?f), sf_extents := AList.delete num (sf_extents ?f)\<rparr>"
  have "buffers_right file g"
    using recorded_right [OF assms(1)] assms(3) unfolding buffers_right_def g_def by (simp add: AList.update_conv' AList.delete_conv')
  moreover have "f' = g \<or> f' = g\<lparr>sf_done := True\<rparr>"
    using assms(2,4) by (auto simp: store_response_def Let_def g_def split: if_splits)
  ultimately show ?thesis by auto
qed

lemma read_prefetch_hit:
  assumes "in_buffers (sf_data (the_f i s)) (realpos (sf_buf (the_f i s))) = Some index"
  shows "read_prefetch i n s = (Ret (Some (fst (take_prefetch index n (the_f i s)))), snd (upd_f i (\<lambda>f. snd (take_prefetch index n f)) s))"
proof -
  have "prefetch_wait i s = (Ret (Some index), s)" using assms by (subst prefetch_wait.simps) simp
  then show ?thesis by (simp add: read_prefetch_def seqp_def upd_f_def)
qed

lemma pf_step_right: "pf_step file i s s' \<Longrightarrow> buffers_right file (the_f i s) \<Longrightarrow> buffers_right file (the_f i s')"
proof (induction rule: pf_step.induct)
  case (sends k s)
  then show ?case using prefetch_send_right by blast
next
  case (records k s)
  then show ?case using record_right by (simp add: prefetch_record_def the_upd right_new)
next
  case (data_comes m num s s' off len)
  then obtain f where f: "store_response num (fst (get_string m)) (the_f i s) = Some f" "s' = snd (upd_f i (\<lambda>_. f) s)"
    by (auto simp: async_response_def upd_f_def split: option.splits)
  then show ?case using store_right [OF data_comes(4,2,3) f(1)] by (simp add: the_upd right_new)
next
  case (status_comes m num s r s')
  then have "s' = s \<or> (\<exists>e. s' = snd (upd_f i (\<lambda>f. f\<lparr>sf_saved := Some e\<rparr>) s))"
    by (auto simp: async_response_def upd_f_def split: sum.splits)
  then show ?case using status_comes(2) by (auto simp: the_upd right_new)
next
  case (hit s index n r s')
  obtain d f' where t: "take_prefetch index n (the_f i s) = (d, f')" by fastforce
  show ?case using hit read_prefetch_hit [OF hit(1), of n] take_prefetch_right [OF hit(4) hit(1) t hit(2)] t
    by (auto simp: the_upd right_new)
next
  case (starts parts limit s r s')
  then have "s' = snd (start_prefetch i parts limit s)" by simp
  moreover have "buffers_right file (f\<lparr>sf_prefetching := True, sf_done := False, sf_threads := sf_threads f @ [(None, parts, limit)]\<rparr>)"
    if "buffers_right file f" for f using that starts(1) by (simp add: buffers_right_def)
  ultimately show ?case using starts(3) by (simp add: start_prefetch_def the_upd right_new)
next
  case (buffered s g)
  then show ?case by (simp add: on_buf_def the_upd right_new)
next
  case (elsewhere s' s)
  then show ?case by simp
qed

lemma pf_reach_right: "pf_reach file i s0 s \<Longrightarrow> buffers_right file (the_f i s)"
proof (induction rule: pf_reach.induct)
  case (start s)
  then show ?case by (simp add: buffers_right_def)
next
  case (more s s' s'')
  then show ?case using pf_step_right by blast
qed


text \<open>
  A client asks for four bytes ahead, gets them before the thread has recorded the request, and reads the second of
  them and those after it.
\<close>

definition demo_file :: bytes where "demo_file = [10, 20, 30, 40, 50]"

definition demo_client :: sftp_client where
  "demo_client =
     \<lparr>sc_conn = \<lparr>s_rx = [], s_tx = [Count 99], s_out = []\<rparr>, sc_next = 7, sc_expecting = [], sc_cwd = None,
      sc_files = [new_sfile [104]], sc_closed = False\<rparr>"

definition demo_asked :: sftp_client where
  "demo_asked = prefetch_send 0 0 (snd (start_prefetch 0 [(0, 4)] None demo_client))"

definition demo_fetched :: sftp_client where
  "demo_fetched =
     snd (on_buf 0 (\<lambda>b. b\<lparr>realpos := 1\<rparr>) (snd (async_response 0 CMD_DATA (message_of [0, 0, 0, 4, 10, 20, 30, 40]) 7 demo_asked)))"


text \<open>
  A chunk that ends in an error, or starts past the end of the file, keeps its extent: when it is the last, the
  prefetch never counts as done.
\<close>

lemma status_keeps_extent:
  assumes "async_response i CMD_STATUS m num s = (r, s')"
  shows "sf_extents (the_f i s') = sf_extents (the_f i s) \<and> sf_done (the_f i s') = sf_done (the_f i s) \<or> \<not> i < length (sc_files s)"
  using assms by (auto simp: async_response_def the_upd upd_f_def the_f_def split: sum.splits)

text \<open>A prefetch buffer at the start of the file is not seen by \<open>readv\<close>, which asks for it again.\<close>

lemma readv_asks_again:
  "readv_plan ((new_sfile [])\<lparr>sf_data := [(0, [1, 2, 3, 4])]\<rparr>) [(0, 4)] = [(0, 4)]"
  "readv_plan ((new_sfile [])\<lparr>sf_data := [(8, [1, 2, 3, 4])]\<rparr>) [(8, 4)] = []"
  by code_simp+

end
