(* ===== verification/Sftp_Composed.thy ===== *)
theory Sftp_Composed
  imports Sftp_Client_Props
begin

text \<open>
  The client and the server of the SFTP protocol together: what a request puts on the wire, which response it
  gets, and a read of a remote file that goes through the client, the packets, the server and its handle.
\<close>

section \<open>Requests on the wire\<close>

lemma packet_fields:
  "bind_res (add_int new_message n) (\<lambda>m. add_seq add_item m items) =
     add_seq add_field new_message (FInt n # concat (map item_fields items))"
  by (simp add: add_items_fields)

lemma async_request_sends:
  assumes "async_request fo t items s = (Ret num, s1)"
  shows "num = sc_next s \<and> (\<exists>m c. add_seq add_field new_message (FInt num # concat (map item_fields items)) = Inr m \<and>
     s1 = s\<lparr>sc_expecting := AList.update num fo (sc_expecting s), sc_next := num + 1, sc_conn := c\<rparr> \<and>
     s_out c = s_out (sc_conn s) @ sftp_frame t (msg_asbytes m) \<and> s_rx c = s_rx (sc_conn s) \<and> 0 \<le> t \<and> t < 256 \<and>
     int (length (msg_asbytes m)) + 1 < 2 ^ 32)"
proof -
  from assms obtain m s0 where m: "add_seq add_field new_message (FInt num # concat (map item_fields items)) = Inr m"
    and num: "num = sc_next s"
    and s0: "s0 = s\<lparr>sc_expecting := AList.update num fo (sc_expecting s), sc_next := num + 1\<rparr>"
    and o: "on_conn (send_packet t (msg_asbytes m)) s0 = (Ret (), s1)"
    unfolding async_request_def packet_fields seqp_Ret liftr_Ret gets_def modify_def ret_def by auto
  obtain c where c: "send_packet t (msg_asbytes m) (sc_conn s) = (Ret (), c)" and s1: "s1 = s0\<lparr>sc_conn := c\<rparr>"
    using o s0 by (auto simp: on_conn_def split: prod.splits)
  from send_packet_frame [OF c] send_packet_rx [of t "msg_asbytes m" "sc_conn s"] c m num s0 s1
  show ?thesis by auto
qed

lemma read_response_own:
  assumes "read_packet (sc_conn s) = (Ret (t, data), c)" and "get_int (message_of data) = (num, m)"
    and "map_of (sc_expecting s) num = Some fo"
  shows "fst (read_response (Some num) s) =
     (if t = CMD_STATUS then (case convert_status m of Inl e \<Rightarrow> Exn e | Inr m \<Rightarrow> Ret (Some (t, m))) else Ret (Some (t, m)))"
  using assms by (subst read_response.simps) (auto simp: next_response_def split: sum.split)

lemma srv_send_frame:
  assumes "ready (ss_conn s)" and "0 \<le> t" and "t < 256" and "int (length w) + 1 < 2 ^ 32"
  shows "\<exists>s'. srv_send t w s = (Ret (), s') \<and> s_out (ss_conn s') = s_out (ss_conn s) @ sftp_frame t w \<and>
     ss_fs s' = ss_fs s \<and> ss_files s' = ss_files s"
proof -
  obtain x c where x: "send_packet t w (ss_conn s) = (x, c)" by (metis prod.collapse)
  obtain l where l: "pack_I (int (length w) + 1) = Inr l" "length l = 4" using assms(4) by (simp add: pack_I_def)
  obtain b where b: "byte_chr t = Inr b" "length b = 1" using assms(2,3) by (simp add: byte_chr_def pack_B_def)
  have "sftp_write_all (l @ b @ w) (ss_conn s) = (x, c)" using x l b by (simp add: send_packet_def)
  from write_all_ready [OF this assms(1)] l b assms(4) have "x = Ret ()" by simp
  with x send_packet_frame [of t w "ss_conn s" c] show ?thesis by (simp add: srv_send_def)
qed

lemma response_frame:
  assumes "ready (ss_conn s)" and "0 \<le> t" and "t < 256"
    and "add_seq add_field new_message (FInt rn # concat (map item_fields items)) = Inr m" and "int (length (msg_asbytes m)) + 1 < 2 ^ 32"
  shows "\<exists>s'. response rn t items s = (Ret (), s') \<and> s_out (ss_conn s') = s_out (ss_conn s) @ sftp_frame t (msg_asbytes m) \<and>
     ss_fs s' = ss_fs s \<and> ss_files s' = ss_files s"
  using srv_send_frame [OF assms(1-3,5)] unfolding response_def packet_fields assms(4) by simp

section \<open>Reading a remote file\<close>

text \<open>The server takes one request off its stream and answers it.\<close>

definition server_turn :: "sftp_env \<Rightarrow> 'f sftp_si \<Rightarrow> ('f sftp_server, unit) prog" where
  "server_turn env si = seqp next_packet (\<lambda>(t, data). answer_request env si t data)"

text \<open>A request that is short enough comes out of the server's stream as it was composed.\<close>

lemma next_packet_frame:
  assumes "data_only (s_rx (ss_conn s))" and "raw_bytes (s_rx (ss_conn s)) = sftp_frame t w"
    and "0 \<le> t" and "t < 256" and "int (length w) + 1 < 2 ^ 24"
  shows "\<exists>es. next_packet s = (Ret (t, w), s\<lparr>ss_conn := (ss_conn s)\<lparr>s_rx := es\<rparr>\<rparr>)"
proof -
  have "raw_bytes (s_rx (ss_conn s)) = sftp_frame t w @ []" using assms(2) by simp
  moreover have "int (length w) + 1 < 2 ^ 32" using assms(5) by simp
  ultimately obtain es where "read_packet (ss_conn s) = (Ret (t, w), (ss_conn s)\<lparr>s_rx := es\<rparr>)"
    using read_packet_frame(1) [OF assms(1) _ assms(3,4) _ assms(5), of "[]"] by blast
  then show ?thesis by (auto simp: next_packet_def)
qed

lemma composed_length:
  assumes "add_seq add_field new_message [FInt a, FString h, FInt64 b, FInt c] = Inr m"
  shows "length (msg_asbytes m) = 20 + length h"
  using composed_bytes [OF assms] by (auto simp: bind_res_eq_Inr enc_string_def pack_I_def pack_Q_def split: if_splits)

lemma data_response:
  assumes "0 \<le> rn" and "rn < 2 ^ 32" and "length d \<le> 32768"
  shows "\<exists>m. add_seq add_field new_message [FInt rn, FString d] = Inr m \<and> int (length (msg_asbytes m)) + 1 < 2 ^ 24"
proof -
  have "map_res enc_field [FInt rn, FString d] = Inr [be_bytes 4 rn, be_bytes 4 (int (length d)) @ d]"
    using assms by (simp add: enc_string_def pack_I_def)
  then have "add_seq add_field new_message [FInt rn, FString d] = Inr (bio_write new_message (be_bytes 4 rn @ be_bytes 4 (int (length d)) @ d))"
    by (simp only: add_fields_enc at_end_new bind_res_eq_Inr) simp
  moreover have "msg_asbytes (bio_write new_message b) = b" for b by (simp add: msg_asbytes_def bio_write_at_end) (simp add: new_message_def)
  ultimately show ?thesis using assms(3) by simp
qed

lemma eof_response:
  assumes "0 \<le> rn" and "rn < 2 ^ 32"
  shows "\<exists>m. add_seq add_field new_message [FInt rn, FInt SFTP_EOF, FText (lit ''End of file''), FText []] = Inr m \<and>
     int (length (msg_asbytes m)) + 1 < 2 ^ 24"
proof -
  have e: "enc_text (lit ''End of file'') = Inr [0, 0, 0, 11, 69, 110, 100, 32, 111, 102, 32, 102, 105, 108, 101]" "enc_text [] = Inr [0, 0, 0, 0]"
    by code_simp+
  have "map_res enc_field [FInt rn, FInt SFTP_EOF, FText (lit ''End of file''), FText []] =
      Inr [be_bytes 4 rn, be_bytes 4 1, [0, 0, 0, 11, 69, 110, 100, 32, 111, 102, 32, 102, 105, 108, 101], [0, 0, 0, 0]]"
    using assms e by (simp add: pack_I_def)
  then have "add_seq add_field new_message [FInt rn, FInt SFTP_EOF, FText (lit ''End of file''), FText []] = Inr (bio_write new_message
      (concat [be_bytes 4 rn, be_bytes 4 1, [0, 0, 0, 11, 69, 110, 100, 32, 111, 102, 32, 102, 105, 108, 101], [0, 0, 0, 0]]))"
    by (simp only: add_fields_enc at_end_new bind_res_eq_Inr) simp
  moreover have "msg_asbytes (bio_write new_message b) = b" for b by (simp add: msg_asbytes_def bio_write_at_end) (simp add: new_message_def)
  ultimately show ?thesis by simp
qed

lemma composed_ranges:
  assumes "add_seq add_field new_message [FInt a, FString h, FInt64 b, FInt c] = Inr m"
  shows "0 \<le> a \<and> a < 2 ^ 32 \<and> 0 \<le> b \<and> 0 \<le> c"
  using composed_bytes [OF assms] by (auto simp: bind_res_eq_Inr pack_I_def pack_Q_def split: if_splits)

lemma read_answered:
  assumes si: "positional_file si fno bytes_of posn" and ok: "positional_file.tell_ok fno posn (hnd, ss_fs sv)"
    and hnd: "map_of (ss_files sv) h = Some hnd" and rdy: "ready (ss_conn sv)"
    and req: "add_seq add_field new_message [FInt num, FString h, FInt64 off, FInt n] = Inr m" and n: "n \<le> 32768"
  defines "d \<equiv> pread (bytes_of (ss_fs sv)) off n"
  shows "\<exists>sv' m' t fs. answer_request env si CMD_READ (msg_asbytes m) sv = (Ret (), sv') \<and> bytes_of (ss_fs sv') = bytes_of (ss_fs sv) \<and>
     s_out (ss_conn sv') = s_out (ss_conn sv) @ sftp_frame t (msg_asbytes m') \<and>
     int (length (msg_asbytes m')) + 1 < 2 ^ 24 \<and> add_seq add_field new_message (FInt num # fs) = Inr m' \<and>
     (if d = [] then t = CMD_STATUS \<and> fs = [FInt SFTP_EOF, FText (lit ''End of file''), FText []]
      else t = CMD_DATA \<and> fs = [FString d])"
proof -
  from composed_ranges [OF req] have r: "0 \<le> num" "num < 2 ^ 32" "0 \<le> off" "0 \<le> n" by simp_all
  have "reads (msg_asbytes m) [FInt num, FString h, FInt64 off, FInt n] [] (message_of (msg_asbytes m))"
    using reads_composed [OF req, of "[]"] by simp
  from reads_int [OF this] obtain m1 where m1: "get_int (message_of (msg_asbytes m)) = (num, m1)"
    "reads (msg_asbytes m) [FString h, FInt64 off, FInt n] [] m1" by blast
  from reads_binary [OF m1(2)] obtain m2 where m2: "get_binary m1 = (h, m2)" "reads (msg_asbytes m) [FInt64 off, FInt n] [] m2" by blast
  from reads_int64 [OF m2(2)] obtain m3 where m3: "get_int64 m2 = (off, m3)" "reads (msg_asbytes m) [FInt n] [] m3" by blast
  from reads_int [OF m3(2)] obtain m4 where m4: "get_int m3 = (n, m4)" by blast
  from positional_file.read_at [OF si ok r(3,4)] obtain h' f' where
    hr: "handle_read si off n (hnd, ss_fs sv) = (Ret (Inl d), (h', f'))" "bytes_of f' = bytes_of (ss_fs sv)"
    unfolding d_def by (metis snd_conv surj_pair)
  define s1 where "s1 = sv\<lparr>ss_fs := f', ss_files := store_handle h h' (ss_files sv)\<rparr>"
  have of: "on_file h hnd (handle_read si off n) sv = (Ret (Inl d), s1)" using hr by (simp add: on_file_def s1_def)
  have rdy1: "ready (ss_conn s1)" "s_out (ss_conn s1) = s_out (ss_conn sv)" "ss_fs s1 = f'" using rdy by (simp_all add: s1_def)
  have p: "process env si CMD_READ num m1 sv =
      (if d = [] then send_status num SFTP_EOF None else response num CMD_DATA [RBytes d]) s1"
    using hnd m2(1) m3(1) m4 of by (simp add: process_def named_commands_def process_read_def with_file_def seqp_def)
  show ?thesis
  proof (cases "d = []")
    case True
    have st: "status_text SFTP_EOF None = lit ''End of file''" by code_simp
    from eof_response [OF r(1,2)] obtain m' where m': "add_seq add_field new_message [FInt num, FInt SFTP_EOF, FText (lit ''End of file''), FText []] = Inr m'"
      "int (length (msg_asbytes m')) + 1 < 2 ^ 24" by blast
    have "\<exists>s2. response num CMD_STATUS [RInt SFTP_EOF, RText (lit ''End of file''), RText []] s1 = (Ret (), s2) \<and>
        s_out (ss_conn s2) = s_out (ss_conn s1) @ sftp_frame CMD_STATUS (msg_asbytes m') \<and> ss_fs s2 = ss_fs s1 \<and> ss_files s2 = ss_files s1"
      using m' by (intro response_frame [OF rdy1(1)]) simp_all
    then obtain s2 where "response num CMD_STATUS [RInt SFTP_EOF, RText (lit ''End of file''), RText []] s1 = (Ret (), s2)"
        "s_out (ss_conn s2) = s_out (ss_conn s1) @ sftp_frame CMD_STATUS (msg_asbytes m')" "ss_fs s2 = ss_fs s1" by blast
    with True p m1(1) m' rdy1 hr(2) st show ?thesis
      by (intro exI [of _ s2] exI [of _ m'] exI [of _ CMD_STATUS] exI [of _ "[FInt SFTP_EOF, FText (lit ''End of file''), FText []]"])
        (simp add: answer_request_def send_status_def)
  next
    case False
    have "length d \<le> 32768" using n by (simp add: d_def pread_def)
    from data_response [OF r(1,2) this] obtain m' where m': "add_seq add_field new_message [FInt num, FString d] = Inr m'"
      "int (length (msg_asbytes m')) + 1 < 2 ^ 24" by blast
    have "\<exists>s2. response num CMD_DATA [RBytes d] s1 = (Ret (), s2) \<and>
        s_out (ss_conn s2) = s_out (ss_conn s1) @ sftp_frame CMD_DATA (msg_asbytes m') \<and> ss_fs s2 = ss_fs s1 \<and> ss_files s2 = ss_files s1"
      using m' by (intro response_frame [OF rdy1(1)]) simp_all
    then obtain s2 where "response num CMD_DATA [RBytes d] s1 = (Ret (), s2)"
        "s_out (ss_conn s2) = s_out (ss_conn s1) @ sftp_frame CMD_DATA (msg_asbytes m')" "ss_fs s2 = ss_fs s1" by blast
    with False p m1(1) m' rdy1 hr(2) show ?thesis
      by (intro exI [of _ s2] exI [of _ m'] exI [of _ CMD_DATA] exI [of _ "[FString d]"]) (simp add: answer_request_def)
  qed
qed

text \<open>What the client makes of the two responses.\<close>

lemma status_read:
  assumes "add_seq add_field new_message [FInt num, FInt SFTP_EOF, FText (lit ''End of file''), FText []] = Inr m'"
  shows "\<exists>m1. get_int (message_of (msg_asbytes m')) = (num, m1) \<and> convert_status m1 = Inl EOFError"
proof -
  have "reads (msg_asbytes m') [FInt num, FInt SFTP_EOF, FText (lit ''End of file''), FText []] [] (message_of (msg_asbytes m'))"
    using reads_composed [OF assms, of "[]"] by simp
  from reads_int [OF this] obtain m1 where m1: "get_int (message_of (msg_asbytes m')) = (num, m1)"
    "reads (msg_asbytes m') [FInt SFTP_EOF, FText (lit ''End of file''), FText []] [] m1" by blast
  from reads_int [OF m1(2)] obtain m2 where m2: "get_int m1 = (SFTP_EOF, m2)"
    "reads (msg_asbytes m') [FText (lit ''End of file''), FText []] [] m2" by blast
  from reads_text [OF m2(2)] obtain m3 where "get_text m2 = Inr (lit ''End of file'', m3)" by blast
  with m1 m2 show ?thesis by (simp add: convert_status_def)
qed

lemma data_read:
  assumes "add_seq add_field new_message [FInt num, FString d] = Inr m'"
  shows "\<exists>m1. get_int (message_of (msg_asbytes m')) = (num, m1) \<and> fst (get_string m1) = d"
proof -
  have "reads (msg_asbytes m') [FInt num, FString d] [] (message_of (msg_asbytes m'))"
    using reads_composed [OF assms, of "[]"] by simp
  from reads_int [OF this] obtain m1 where m1: "get_int (message_of (msg_asbytes m')) = (num, m1)"
    "reads (msg_asbytes m') [FString d] [] m1" by blast
  from reads_string [OF m1(2)] m1(1) show ?thesis by auto
qed

text \<open>Claim C37. 
  A read of an open remote file, through both sides: the client composes the request, the server takes it off the
  stream, reads at the offset through the handle and answers, and the client, whose stream brings the answer in any
  pieces, returns the bytes of the file at the position it was at, at most 32768 of them, or meets the end of the
  file exactly if there are none. The file is not changed.
\<close>

theorem remote_read_returns_file_bytes:
  assumes "positional_file si fno bytes_of posn" and "positional_file.tell_ok fno posn (hnd, ss_fs sv)"
    and "map_of (ss_files sv) h = Some hnd" and "ready (ss_conn sv)" and "s_out (ss_conn sv) = []"
    and "\<not> sf_prefetching (the_f i s)" and "sf_handle (the_f i s) = h" and "length h \<le> 256" and "s_out (sc_conn s) = []"
    and sent: "async_request None CMD_READ [RBytes h, RInt64 (realpos (sf_buf (the_f i s))), RInt (min n MAX_REQUEST_SIZE)] s = (Ret num, s1)"
    and "data_only (s_rx (ss_conn sv))" and "raw_bytes (s_rx (ss_conn sv)) = s_out (sc_conn s1)"
    and served: "server_turn env si sv = (r, sv')"
    and "data_only (s_rx (sc_conn s))" and "raw_bytes (s_rx (sc_conn s)) = s_out (ss_conn sv')"
  defines "d \<equiv> pread (bytes_of (ss_fs sv)) (realpos (sf_buf (the_f i s))) (min n MAX_REQUEST_SIZE)"
  shows "fst (raw_read_file i n s) = (if d = [] then Exn EOFError else Ret d) \<and> bytes_of (ss_fs sv') = bytes_of (ss_fs sv)"
proof -
  let ?off = "realpos (sf_buf (the_f i s))" and ?n = "min n MAX_REQUEST_SIZE"
  from async_request_sends [OF sent] obtain m c where num: "num = sc_next s"
    and m: "add_seq add_field new_message [FInt num, FString h, FInt64 ?off, FInt ?n] = Inr m"
    and s1: "s1 = s\<lparr>sc_expecting := AList.update num None (sc_expecting s), sc_next := num + 1, sc_conn := c\<rparr>"
    and c: "s_out c = sftp_frame CMD_READ (msg_asbytes m)" "s_rx c = s_rx (sc_conn s)"
    using assms(9) by (auto simp del: add_seq.simps CMD_READ_def)
  have "int (length (msg_asbytes m)) + 1 < 2 ^ 24" using composed_length [OF m] assms(8) by simp
  then have "\<exists>es. next_packet sv = (Ret (CMD_READ, msg_asbytes m), sv\<lparr>ss_conn := (ss_conn sv)\<lparr>s_rx := es\<rparr>\<rparr>)"
    using assms(11,12) s1 c(1) by (intro next_packet_frame) simp_all
  then obtain es where np: "next_packet sv = (Ret (CMD_READ, msg_asbytes m), sv\<lparr>ss_conn := (ss_conn sv)\<lparr>s_rx := es\<rparr>\<rparr>)" by blast
  let ?sv = "sv\<lparr>ss_conn := (ss_conn sv)\<lparr>s_rx := es\<rparr>\<rparr>"
  have "positional_file.tell_ok fno posn (hnd, ss_fs ?sv)" "map_of (ss_files ?sv) h = Some hnd" "ready (ss_conn ?sv)"
    using assms(2-4) by (simp_all add: ready_def)
  from read_answered [OF assms(1) this m, where env = env] obtain sv2 m' t fs where
    a: "answer_request env si CMD_READ (msg_asbytes m) ?sv = (Ret (), sv2)" "bytes_of (ss_fs sv2) = bytes_of (ss_fs sv)"
    "s_out (ss_conn sv2) = sftp_frame t (msg_asbytes m')" "int (length (msg_asbytes m')) + 1 < 2 ^ 24"
    "add_seq add_field new_message (FInt num # fs) = Inr m'"
    and b: "if d = [] then t = CMD_STATUS \<and> fs = [FInt SFTP_EOF, FText (lit ''End of file''), FText []] else t = CMD_DATA \<and> fs = [FString d]"
    using assms(5) by (auto simp: MAX_REQUEST_SIZE_def d_def)
  have sv': "sv' = sv2" using served np a(1) by (simp add: server_turn_def seqp_def)
  have t: "0 \<le> t" "t < 256" using b by (auto split: if_splits)
  have "raw_bytes (s_rx c) = sftp_frame t (msg_asbytes m') @ []" using assms(15) sv' a(3) c(2) by simp
  then obtain es' where rp: "read_packet c = (Ret (t, msg_asbytes m'), c\<lparr>s_rx := es'\<rparr>)"
    using read_packet_frame(1) [of c t "msg_asbytes m'" "[]"] assms(14) c(2) t a(4) by auto
  have ex: "map_of (sc_expecting s1) num = Some None" by (simp add: s1 AList.update_conv')
  have rp1: "read_packet (sc_conn s1) = (Ret (t, msg_asbytes m'), c\<lparr>s_rx := es'\<rparr>)" using rp s1 by simp
  show ?thesis
  proof (cases "d = []")
    case True
    with b have "t = CMD_STATUS" "fs = [FInt SFTP_EOF, FText (lit ''End of file''), FText []]" by simp_all
    moreover from this status_read a(5) obtain m1 where "get_int (message_of (msg_asbytes m')) = (num, m1)" "convert_status m1 = Inl EOFError" by blast
    ultimately have "fst (read_response (Some num) s1) = Exn EOFError" using read_response_own [OF rp1 _ ex] by simp
    then obtain s2 where "read_response (Some num) s1 = (Exn EOFError, s2)" by (metis prod.collapse)
    then have "request CMD_READ [RBytes h, RInt64 ?off, RInt ?n] s = (Exn EOFError, s2)" using sent by (simp add: request_def seqp_def)
    with True assms(6,7) a(2) sv' show ?thesis by (simp add: raw_read_file_def expect_def seqp_def Let_def)
  next
    case False
    with b have t: "t = CMD_DATA" "fs = [FString d]" by simp_all
    with data_read a(5) obtain m1 where m1: "get_int (message_of (msg_asbytes m')) = (num, m1)" "fst (get_string m1) = d" by blast
    with t have "fst (read_response (Some num) s1) = Ret (Some (CMD_DATA, m1))" using read_response_own [OF rp1 _ ex] by simp
    then obtain s2 where "read_response (Some num) s1 = (Ret (Some (CMD_DATA, m1)), s2)" by (metis prod.collapse)
    then have "request CMD_READ [RBytes h, RInt64 ?off, RInt ?n] s = (Ret (CMD_DATA, m1), s2)" using sent by (simp add: request_def seqp_def)
    with False assms(6,7) a(2) sv' m1(2) show ?thesis by (simp add: raw_read_file_def expect_def seqp_def Let_def)
  qed
qed

text \<open>A server with one open file of five bytes, and a client at its second byte that has sent a read of two.\<close>

definition demo_server :: "message sftp_server" where
  "demo_server =
     (new_server (message_of demo_file)
       \<lparr>s_rx = [Data [0, 0, 0, 22, 5, 0, 0, 0, 7, 0, 0, 0, 1, 104, 0, 0, 0, 0, 0, 0, 0, 1, 0, 0, 0, 2]], s_tx = [Count (2 ^ 33)], s_out = []\<rparr>)
     \<lparr>ss_files := [([104], memory_handle)]\<rparr>"

definition demo_reading :: "bytes \<Rightarrow> sftp_client" where
  "demo_reading rx = snd (on_buf 0 (\<lambda>b. b\<lparr>realpos := 1\<rparr>) (demo_client\<lparr>sc_conn := \<lparr>s_rx = (if rx = [] then [] else [Data rx]), s_tx = [Count 99], s_out = []\<rparr>\<rparr>))"

definition demo_si_env :: sftp_env where
  "demo_si_env = \<lparr>hash_of = (\<lambda>a b. b), long_name = (\<lambda>n a. []), hash_reads = 0\<rparr>"

lemma demo_reading_facts:
  "the_f 0 (demo_reading rx) = (new_sfile [104])\<lparr>sf_buf := (new_bfile [] [])\<lparr>realpos := 1\<rparr>\<rparr>"
  "s_out (sc_conn (demo_reading rx)) = []" "s_rx (sc_conn (demo_reading rx)) = (if rx = [] then [] else [Data rx])"
  by (simp_all add: demo_reading_def demo_client_def on_buf_def upd_f_def the_f_def new_sfile_def)

theorem remote_read_returns_file_bytes_witness:
  "\<exists>rx. fst (raw_read_file 0 2 (demo_reading rx)) = Ret [20, 30]"
proof -
  obtain r sv' where run: "server_turn demo_si_env bytesio_si demo_server = (r, sv')" by (metis prod.collapse)
  let ?s = "demo_reading (s_out (ss_conn sv'))"
  let ?req = "async_request None CMD_READ [RBytes [104], RInt64 (realpos (sf_buf (the_f 0 ?s))), RInt (min 2 MAX_REQUEST_SIZE)] ?s"
  have "fst (async_request None CMD_READ [RBytes [104], RInt64 1, RInt 2] (demo_reading rx)) = Ret 7 \<and>
      s_out (sc_conn (snd (async_request None CMD_READ [RBytes [104], RInt64 1, RInt 2] (demo_reading rx)))) =
      [0, 0, 0, 22, 5, 0, 0, 0, 7, 0, 0, 0, 1, 104, 0, 0, 0, 0, 0, 0, 0, 1, 0, 0, 0, 2]" for rx
    by code_simp
  then obtain s1 where s1: "?req = (Ret 7, s1)"
    "s_out (sc_conn s1) = [0, 0, 0, 22, 5, 0, 0, 0, 7, 0, 0, 0, 1, 104, 0, 0, 0, 0, 0, 0, 0, 1, 0, 0, 0, 2]"
    by (simp add: demo_reading_facts MAX_REQUEST_SIZE_def del: CMD_READ_def) (metis prod.collapse)
  have sv: "map_of (ss_files demo_server) [104] = Some memory_handle" "ready (ss_conn demo_server)" "s_out (ss_conn demo_server) = []"
    "data_only (s_rx (ss_conn demo_server))" "raw_bytes (s_rx (ss_conn demo_server)) = s_out (sc_conn s1)"
    using s1(2) by (simp_all add: demo_server_def new_server_def ready_def)
  have "\<forall>t. hd_tell memory_handle = Some t \<longrightarrow> t = int (offset (ss_fs demo_server))" "hd_readfile memory_handle = Some 0"
      "hd_writefile memory_handle = Some 0" "hd_flags memory_handle AND O_APPEND = 0"
    by (simp add: memory_handle_def new_handle_def) code_simp+
  then have ok: "positional_file.tell_ok 0 (\<lambda>m. int (offset m)) (memory_handle, ss_fs demo_server)"
    by (simp add: bio.tell_ok_def)
  have "pread (packet (ss_fs demo_server)) 1 2 = [20, 30]" by (simp add: demo_server_def new_server_def message_of_def demo_file_def pread_def)
  moreover have "min 2 MAX_REQUEST_SIZE = 2" by (simp add: MAX_REQUEST_SIZE_def)
  ultimately have "fst (raw_read_file 0 2 ?s) = Ret [20, 30]"
    using remote_read_returns_file_bytes [OF bio.positional_file_axioms ok sv(1-3) _ _ _ _ s1(1) sv(4,5) run]
    by (simp add: demo_reading_facts new_sfile_def new_bfile_def)
  then show ?thesis by blast
qed

end
