(* ===== verification/Config_File.thy ===== *)
theory Config_File
  imports Key_Files "HOL-Library.AList"
begin

text \<open>
  \<open>paramiko/config.py\<close>: OpenSSH client configuration. The file is its lines; user and host names, name resolution,
  SHA-1 and the commands of \<open>Match exec\<close> are an environment. First what is used of \<open>shlex\<close>, \<open>fnmatch\<close> and \<open>str.replace\<close>.
\<close>

section \<open>Words and patterns\<close>

text \<open>\<open>shlex.split\<close>: between words, in a word, in quotes, and after a backslash.\<close>

datatype shlex_state = Between | InWord | Quoted nat | Escaped shlex_state

definition shlex_blank :: "nat \<Rightarrow> bool" where
  "shlex_blank c \<longleftrightarrow> c \<in> {9, 10, 13, 32}"

fun shlex_run :: "shlex_state \<Rightarrow> bool \<Rightarrow> pystr \<Rightarrow> pystr \<Rightarrow> pystr list res" where
  "shlex_run (Quoted q) seen w [] = Inl ValueError"
| "shlex_run (Escaped st) seen w [] = Inl ValueError"
| "shlex_run st seen w [] = Inr (if w \<noteq> [] \<or> seen then [w] else [])"
| "shlex_run (Quoted q) seen w (c # cs) =
     (if c = q then shlex_run InWord True w cs
      else if c = 92 \<and> q = 34 then shlex_run (Escaped (Quoted q)) True w cs
      else shlex_run (Quoted q) True (w @ [c]) cs)"
| "shlex_run (Escaped st) seen w (c # cs) =
     shlex_run st seen (if (\<exists>q \<in> {34, 39}. st = Quoted q \<and> c \<noteq> 92 \<and> c \<noteq> q) then w @ [92, c] else w @ [c]) cs"
| "shlex_run st seen w (c # cs) =
     (if shlex_blank c then
        (if w \<noteq> [] \<or> seen then bind_res (shlex_run Between False [] cs) (\<lambda>ws. Inr (w # ws)) else shlex_run Between seen w cs)
      else if c = 92 then shlex_run (Escaped InWord) seen w cs
      else if c = 34 \<or> c = 39 then shlex_run (Quoted c) seen w cs
      else shlex_run InWord seen (w @ [c]) cs)"

definition shlex_split :: "pystr \<Rightarrow> pystr list res" where
  "shlex_split s = shlex_run Between False [] s"

text \<open>\<open>fnmatch\<close>: the items of a bracket are characters and ranges.\<close>

fun in_class :: "nat \<Rightarrow> pystr \<Rightarrow> bool" where
  "in_class c (a # d # b # r) = (if d = 45 then a \<le> c \<and> c \<le> b \<or> in_class c r else a = c \<or> in_class c (d # b # r))"
| "in_class c (a # r) = (a = c \<or> in_class c r)"
| "in_class c [] = False"

text \<open>The items of a bracket and what follows it; a bracket right after the opening is an item.\<close>

definition bracket :: "pystr \<Rightarrow> (bool \<times> pystr \<times> pystr) option" where
  "bracket p =
     (let neg = (p \<noteq> [] \<and> hd p = 33); q = (if neg then tl p else p);
          first = (if q \<noteq> [] \<and> hd q = 93 then [93] else []); r = drop (length first) q
      in if 93 \<in> set r then Some (neg, first @ takeWhile (\<lambda>c. c \<noteq> 93) r, tl (dropWhile (\<lambda>c. c \<noteq> 93) r)) else None)"

lemma bracket_shorter:
  assumes "bracket p = Some (neg, items, r)"
  shows "length r < length p"
proof -
  define q where "q = (if p \<noteq> [] \<and> hd p = 33 then tl p else p)"
  define r0 where "r0 = drop (length (if q \<noteq> [] \<and> hd q = 93 then [93 :: nat] else [])) q"
  have m: "93 \<in> set r0" "r = tl (dropWhile (\<lambda>c. c \<noteq> 93) r0)"
    using assms by (auto simp: bracket_def Let_def q_def r0_def split: if_splits)
  have "length (dropWhile (\<lambda>c. c \<noteq> 93) r0) \<le> length r0" by (rule length_dropWhile_le)
  moreover have "0 < length r0" using m(1) by (cases r0) simp_all
  moreover have "length r0 \<le> length q" "length q \<le> length p" by (simp_all add: r0_def q_def)
  ultimately show ?thesis unfolding m(2) length_tl by linarith
qed

function glob :: "pystr \<Rightarrow> pystr \<Rightarrow> bool" where
  "glob [] s = (s = [])"
| "glob (p # ps) s =
     (if p = 42 then glob ps s \<or> (if s = [] then False else glob (p # ps) (tl s))
      else if s = [] then False
      else if p = 63 then glob ps (tl s)
      else if p = 91 then
        (case bracket ps of
           None \<Rightarrow> hd s = 91 \<and> glob ps (tl s)
         | Some (neg, items, r) \<Rightarrow> in_class (hd s) items \<noteq> neg \<and> glob r (tl s))
      else hd s = p \<and> glob ps (tl s))"
  by pat_completeness auto
termination
  by (relation "measure (\<lambda>(p, s). length p + length s)") (auto dest!: bracket_shorter simp: length_greater_0_conv [symmetric] simp del: length_greater_0_conv)

declare glob.simps(2) [simp del]

section \<open>The settings\<close>

text \<open>The value of a key: \<open>None\<close> (a proxy command of \<open>none\<close>), text, or the list of a key that may come more than once.\<close>

datatype cfg_value = CNone | CText pystr | CTexts "pystr list"

type_synonym cfg_dict = "(pystr \<times> cfg_value) list"

record match_item =
  mi_type :: pystr
  mi_param :: pystr
  mi_negate :: bool

text \<open>A block has hosts or matches; the implicit first block has the host \<open>*\<close>.\<close>

record cfg_block =
  cb_host :: "pystr list option"
  cb_matches :: "match_item list option"
  cb_config :: cfg_dict

definition first_block :: cfg_block where
  "first_block = \<lparr>cb_host = Some [lit ''*''], cb_matches = None, cb_config = []\<rparr>"

definition is_word :: "nat \<Rightarrow> bool" where
  "is_word c \<longleftrightarrow> 48 \<le> c \<and> c \<le> 57 \<or> 65 \<le> c \<and> c \<le> 90 \<or> 97 \<le> c \<and> c \<le> 122 \<or> c = 95"

text \<open>The regular expression \<open>(\w+)(?:\s*=\s*|\s+)(.+)\<close> on a line without outer blanks.\<close>

definition parse_setting :: "pystr \<Rightarrow> (pystr \<times> pystr) option" where
  "parse_setting line =
     (let w = takeWhile is_word line; r = dropWhile is_word line; r1 = dropWhile is_blank r
      in if w = [] then None
         else if r1 \<noteq> [] \<and> hd r1 = 61 \<and> dropWhile is_blank (tl r1) \<noteq> [] then Some (w, dropWhile is_blank (tl r1))
         else if r \<noteq> [] \<and> is_blank (hd r) \<and> r1 \<noteq> [] then Some (w, r1)
         else None)"

definition get_hosts :: "pystr \<Rightarrow> pystr list res" where
  "get_hosts v = (case shlex_split v of Inl e \<Rightarrow> if e = ValueError then Inl (SSHException ''Unparsable host'') else Inl e | Inr hs \<Rightarrow> Inr hs)"

definition bare_keywords :: "pystr list" where
  "bare_keywords = [lit ''all'', lit ''canonical'', lit ''final'']"

function match_items :: "pystr list \<Rightarrow> match_item list res" where
  "match_items [] = Inr []"
| "match_items (t # ts) =
     (let neg = (t \<noteq> [] \<and> hd t = 33); ty = (if neg then tl t else t)
      in if ty \<in> set bare_keywords then bind_res (match_items ts) (\<lambda>ms. Inr (\<lparr>mi_type = ty, mi_param = [], mi_negate = neg\<rparr> # ms))
         else if ts = [] then Inl (SSHException ''Missing parameter to Match keyword'')
         else bind_res (match_items (tl ts)) (\<lambda>ms. Inr (\<lparr>mi_type = ty, mi_param = hd ts, mi_negate = neg\<rparr> # ms)))"
  by pat_completeness auto
termination
  by (relation "measure length") auto

text \<open>Where a word is in a list; the test for words not allowed passes over an empty one.\<close>

definition index_of :: "'a \<Rightarrow> 'a list \<Rightarrow> nat" where
  "index_of x xs = length (takeWhile (\<lambda>y. y \<noteq> x) xs)"

definition get_matches :: "pystr \<Rightarrow> match_item list res" where
  "get_matches v =
     bind_res (shlex_split v) (\<lambda>tokens.
     bind_res (match_items tokens) (\<lambda>ms.
     let keywords = map mi_type ms; allowable = [lit ''all'', lit ''canonical''];
         ok = filter (\<lambda>x. x \<in> set allowable) keywords; bad = filter (\<lambda>x. x \<notin> set allowable) keywords
     in if lit ''all'' \<in> set keywords \<and>
           ((\<exists>x \<in> set bad. x \<noteq> []) \<or> lit ''canonical'' \<in> set ok \<and> index_of (lit ''all'') ok < index_of (lit ''canonical'') ok)
        then Inl (SSHException ''Match does not allow this use of all'')
        else Inr ms))"

definition multi_keys :: "pystr list" where
  "multi_keys = [lit ''identityfile'', lit ''localforward'', lit ''remoteforward'']"

definition unquote :: "pystr \<Rightarrow> pystr" where
  "unquote v = (if v \<noteq> [] \<and> hd v = 34 \<and> last v = 34 then butlast (drop 1 v) else v)"

text \<open>A setting inside a block.\<close>

definition store_setting :: "pystr \<Rightarrow> pystr \<Rightarrow> cfg_dict \<Rightarrow> cfg_dict" where
  "store_setting key v d =
     (if key = lit ''proxycommand'' \<and> to_lower v = lit ''none'' then AList.update key CNone d
      else
        (let v = unquote v
         in if key \<in> set multi_keys then
              AList.update key (CTexts ((case map_of d key of Some (CTexts l) \<Rightarrow> l | _ \<Rightarrow> []) @ [v])) d
            else if key \<notin> set (map fst d) then AList.update key (CText v) d else d))"

text \<open>One line: the blocks that are finished, and the open one.\<close>

definition parse_line :: "pystr \<Rightarrow> cfg_block list \<times> cfg_block \<Rightarrow> (cfg_block list \<times> cfg_block) res" where
  "parse_line line st =
     (let line = py_strip line; (blocks, cur) = st
      in if line = [] \<or> hd line = 35 then Inr st
         else
           (case parse_setting line of
              None \<Rightarrow> Inl (SSHException ''Unparsable line'')
            | Some (k, v) \<Rightarrow>
                (let key = to_lower k
                 in if key = lit ''host'' then
                      bind_res (get_hosts v) (\<lambda>hs. Inr (blocks @ [cur], \<lparr>cb_host = Some hs, cb_matches = None, cb_config = []\<rparr>))
                    else if key = lit ''match'' then
                      bind_res (get_matches v) (\<lambda>ms. Inr (blocks @ [cur], \<lparr>cb_host = None, cb_matches = Some ms, cb_config = []\<rparr>))
                    else Inr (blocks, cur\<lparr>cb_config := store_setting key v (cb_config cur)\<rparr>))))"

fun parse_lines :: "pystr list \<Rightarrow> cfg_block list \<times> cfg_block \<Rightarrow> (cfg_block list \<times> cfg_block) res" where
  "parse_lines [] st = Inr st"
| "parse_lines (l # ls) st = bind_res (parse_line l st) (parse_lines ls)"

definition parse_config :: "pystr list \<Rightarrow> cfg_block list res" where
  "parse_config lines = bind_res (parse_lines lines ([], first_block)) (\<lambda>(blocks, cur). Inr (blocks @ [cur]))"

text \<open>\<open>get_hostnames\<close> asks every block for its hosts.\<close>

fun get_hostnames :: "cfg_block list \<Rightarrow> pystr list res" where
  "get_hostnames [] = Inr []"
| "get_hostnames (c # cs) =
     (case cb_host c of
        None \<Rightarrow> Inl KeyError
      | Some hs \<Rightarrow> bind_res (get_hostnames cs) (\<lambda>r. Inr (remdups (hs @ r))))"

section \<open>Looking up a host\<close>

text \<open>
  The environment: the local user, host and home directory, the commands of \<open>Match exec\<close> (whether they succeed),
  SHA-1 in hexadecimal, and the resolver: \<open>addr_info\<close> gives the canonical names for an address family (IPv4 or not), or
  fails; \<open>by_name\<close> says whether a name is known.
\<close>

record cfg_env =
  ce_user :: pystr
  ce_host :: pystr
  ce_fqdn :: pystr
  ce_home :: pystr
  ce_run :: "pystr \<Rightarrow> bool"
  ce_sha1 :: "pystr \<Rightarrow> pystr"
  ce_addr_info :: "pystr \<Rightarrow> bool \<Rightarrow> pystr list option"
  ce_by_name :: "pystr \<Rightarrow> bool"

definition text_option :: "pystr \<Rightarrow> cfg_dict \<Rightarrow> pystr option" where
  "text_option key d = (case map_of d key of Some (CText v) \<Rightarrow> Some v | _ \<Rightarrow> None)"

fun pattern_loop :: "pystr list \<Rightarrow> pystr \<Rightarrow> bool \<Rightarrow> bool" where
  "pattern_loop [] target found = found"
| "pattern_loop (p # ps) target found =
     (if p \<noteq> [] \<and> hd p = 33 \<and> glob (tl p) target then False
      else if glob p target then pattern_loop ps target True
      else pattern_loop ps target found)"

definition pattern_matches :: "pystr list \<Rightarrow> pystr \<Rightarrow> bool" where
  "pattern_matches ps target = pattern_loop ps target False"

section \<open>Tokens\<close>

text \<open>\<open>str.replace\<close>, of a word that is not empty.\<close>

function replace_all :: "pystr \<Rightarrow> pystr \<Rightarrow> pystr \<Rightarrow> pystr" where
  "replace_all w by' s =
     (if s = [] then []
      else if w \<noteq> [] \<and> take (length w) s = w then by' @ replace_all w by' (drop (length w) s)
      else hd s # replace_all w by' (tl s))"
  by pat_completeness auto
termination
  by (relation "measure (\<lambda>(w, b, s). length s)") (auto simp: length_greater_0_conv [symmetric] simp del: length_greater_0_conv)

declare replace_all.simps [simp del]

definition allowed_tokens :: "pystr \<Rightarrow> pystr list" where
  "allowed_tokens key =
     (if key = lit ''controlpath'' then map lit [''%C'', ''%h'', ''%l'', ''%L'', ''%n'', ''%p'', ''%r'', ''%u'']
      else if key = lit ''hostname'' then map lit [''%h'']
      else if key = lit ''identityfile'' then map lit [''%C'', ''~'', ''%d'', ''%h'', ''%l'', ''%u'', ''%r'']
      else if key = lit ''proxycommand'' then map lit [''~'', ''%h'', ''%p'', ''%r'']
      else if key = lit ''proxyjump'' then map lit [''%h'', ''%p'', ''%r'']
      else if key = lit ''match-exec'' then map lit [''%C'', ''%d'', ''%h'', ''%L'', ''%l'', ''%n'', ''%p'', ''%r'', ''%u'']
      else [])"

text \<open>\<open>_addressfamily_host_lookup\<close>: nothing for the family \<open>any\<close> and when the resolver fails.\<close>

definition family_lookup :: "cfg_env \<Rightarrow> pystr \<Rightarrow> cfg_dict \<Rightarrow> pystr list option" where
  "family_lookup env host d =
     (let family = to_lower (case text_option (lit ''addressfamily'') d of None \<Rightarrow> lit ''any'' | Some f \<Rightarrow> f)
      in if family = lit ''any'' then None else ce_addr_info env host (family = lit ''inet''))"

definition lazy_fqdn :: "cfg_env \<Rightarrow> cfg_dict \<Rightarrow> pystr \<Rightarrow> pystr" where
  "lazy_fqdn env d host =
     (case family_lookup env host d of
        None \<Rightarrow> ce_fqdn env
      | Some names \<Rightarrow> (case find (\<lambda>n. n \<noteq> [] \<and> 46 \<in> set n) names of None \<Rightarrow> ce_fqdn env | Some n \<Rightarrow> n))"

text \<open>\<open>repr\<close> of the port: the default is a number, a configured one a string in quotes.\<close>

definition replacements :: "cfg_env \<Rightarrow> cfg_dict \<Rightarrow> pystr \<Rightarrow> pystr \<Rightarrow> (pystr \<times> pystr) list" where
  "replacements env d target key =
     (let configured = (if key \<noteq> lit ''hostname'' then (case text_option (lit ''hostname'') d of None \<Rightarrow> target | Some h \<Rightarrow> h) else target);
          (port, port_repr) = (case text_option (lit ''port'') d of None \<Rightarrow> (lit ''22'', lit ''22'') | Some p \<Rightarrow> (p, [39] @ p @ [39]));
          remoteuser = (case text_option (lit ''user'') d of None \<Rightarrow> ce_user env | Some u \<Rightarrow> u);
          local_host = takeWhile (\<lambda>c. c \<noteq> 46) (ce_host env)
      in [(lit ''%C'', ce_sha1 env (local_host @ target @ port_repr @ remoteuser)), (lit ''%d'', ce_home env), (lit ''%h'', configured),
          (lit ''%L'', local_host), (lit ''%l'', lazy_fqdn env d local_host), (lit ''%n'', target), (lit ''%p'', port),
          (lit ''%r'', remoteuser), (lit ''%u'', ce_user env), (lit ''~'', ce_home env)])"

definition tokenize :: "cfg_env \<Rightarrow> cfg_dict \<Rightarrow> pystr \<Rightarrow> pystr \<Rightarrow> pystr \<Rightarrow> pystr" where
  "tokenize env d target key v =
     (if allowed_tokens key = [] then v
      else fold (\<lambda>(w, r) v. if w \<in> set (allowed_tokens key) then replace_all w r v else v) (replacements env d target key) v)"

text \<open>\<open>_expand_variables\<close>: key by key in the order of the dict, each value seeing those expanded before.\<close>

definition expand_value :: "cfg_env \<Rightarrow> pystr \<Rightarrow> pystr \<Rightarrow> cfg_dict \<Rightarrow> cfg_dict" where
  "expand_value env target key d =
     (case map_of d key of
        Some (CText v) \<Rightarrow> AList.update key (CText (tokenize env d target key v)) d
      | Some (CTexts vs) \<Rightarrow> AList.update key (CTexts (map (tokenize env d target key) vs)) d
      | _ \<Rightarrow> d)"

definition expand_variables :: "cfg_env \<Rightarrow> cfg_dict \<Rightarrow> pystr \<Rightarrow> cfg_dict" where
  "expand_variables env d target = fold (expand_value env target) (map fst d) d"

section \<open>Matching\<close>

definition should_fail :: "bool \<Rightarrow> match_item \<Rightarrow> bool" where
  "should_fail would_pass mi = (if mi_negate mi then would_pass else \<not> would_pass)"

text \<open>Whether a criterion passed; an unknown keyword, and \<open>canonical\<close> after its own test, have no answer.\<close>

definition item_passed :: "cfg_env \<Rightarrow> pystr \<Rightarrow> bool \<Rightarrow> cfg_dict \<Rightarrow> match_item \<Rightarrow> bool option" where
  "item_passed env target final d mi =
     (let or_else = (\<lambda>key dflt. case text_option key d of Some v \<Rightarrow> if v = [] then dflt else v | None \<Rightarrow> dflt);
          patterns = split_on comma (mi_param mi)
      in if mi_type mi = lit ''final'' then Some final
         else if mi_type mi = lit ''host'' then Some (pattern_matches patterns (or_else (lit ''hostname'') target))
         else if mi_type mi = lit ''originalhost'' then Some (pattern_matches patterns target)
         else if mi_type mi = lit ''user'' then Some (pattern_matches patterns (or_else (lit ''user'') (ce_user env)))
         else if mi_type mi = lit ''localuser'' then Some (pattern_matches patterns (ce_user env))
         else if mi_type mi = lit ''exec'' then Some (ce_run env (tokenize env d target (lit ''match-exec'') (mi_param mi)))
         else None)"

fun does_match :: "cfg_env \<Rightarrow> pystr \<Rightarrow> bool \<Rightarrow> bool \<Rightarrow> cfg_dict \<Rightarrow> match_item list \<Rightarrow> bool \<Rightarrow> bool" where
  "does_match env target canonical final d [] matched = matched"
| "does_match env target canonical final d (mi # ms) matched =
     (if mi_type mi = lit ''canonical'' \<and> should_fail canonical mi then False
      else if mi_type mi = lit ''all'' then True
      else
        (case item_passed env target final d mi of
           Some passed \<Rightarrow> if should_fail passed mi then False else does_match env target canonical final d ms True
         | None \<Rightarrow> does_match env target canonical final d ms True))"

definition block_applies :: "cfg_env \<Rightarrow> pystr \<Rightarrow> bool \<Rightarrow> bool \<Rightarrow> cfg_dict \<Rightarrow> cfg_block \<Rightarrow> bool" where
  "block_applies env target canonical final d c \<longleftrightarrow>
     pattern_matches (case cb_host c of None \<Rightarrow> [] | Some hs \<Rightarrow> hs) target \<or>
     does_match env target canonical final d (case cb_matches c of None \<Rightarrow> [] | Some ms \<Rightarrow> ms) False"

fun extend_new :: "pystr list \<Rightarrow> pystr list \<Rightarrow> pystr list" where
  "extend_new l [] = l"
| "extend_new l (x # xs) = extend_new (if x \<in> set l then l else l @ [x]) xs"

text \<open>One setting of a block that applies.\<close>

definition take_setting :: "pystr \<times> cfg_value \<Rightarrow> cfg_dict \<Rightarrow> cfg_dict" where
  "take_setting kv d =
     (case kv of (key, v) \<Rightarrow>
        (case map_of d key of
           None \<Rightarrow> AList.update key v d
         | Some old \<Rightarrow>
             if key = lit ''identityfile'' then
               (case (old, v) of (CTexts l, CTexts new) \<Rightarrow> AList.update key (CTexts (extend_new l new)) d | _ \<Rightarrow> d)
             else d))"

definition lookup_pass :: "cfg_env \<Rightarrow> pystr \<Rightarrow> bool \<Rightarrow> bool \<Rightarrow> cfg_block list \<Rightarrow> cfg_dict \<Rightarrow> cfg_dict" where
  "lookup_pass env target canonical final blocks d =
     (let d = fold (\<lambda>c d. if block_applies env target canonical final d c then fold take_setting (cb_config c) d else d) blocks d
      in if final then expand_variables env d target else d)"

fun canonicalize_loop :: "cfg_env \<Rightarrow> pystr \<Rightarrow> cfg_dict \<Rightarrow> pystr list \<Rightarrow> pystr option" where
  "canonicalize_loop env host d [] = None"
| "canonicalize_loop env host d (suffix # ds) =
     (let candidate = host @ [46] @ suffix
      in if (case family_lookup env candidate d of Some names \<Rightarrow> names \<noteq> [] | None \<Rightarrow> ce_by_name env candidate)
         then Some candidate else canonicalize_loop env host d ds)"

definition cfg_canonicalize :: "cfg_env \<Rightarrow> pystr \<Rightarrow> cfg_dict \<Rightarrow> pystr list \<Rightarrow> pystr res" where
  "cfg_canonicalize env host d domains =
     (case canonicalize_loop env host d domains of
        Some c \<Rightarrow> Inr c
      | None \<Rightarrow>
          if (case map_of d (lit ''canonicalizefallbacklocal'') of None \<Rightarrow> True | Some v \<Rightarrow> v = CText (lit ''yes'')) then Inr host
          else Inl (SSHException ''CouldNotCanonicalize''))"

definition lookup :: "cfg_env \<Rightarrow> cfg_block list \<Rightarrow> pystr \<Rightarrow> cfg_dict res" where
  "lookup env blocks host =
     (let d = lookup_pass env host False False blocks [];
          d = (if lit ''hostname'' \<notin> set (map fst d) then AList.update (lit ''hostname'') (CText host) d else d);
          canon = text_option (lit ''canonicalizehostname'') d \<in> {Some (lit ''yes''), Some (lit ''always'')}
      in bind_res (case text_option (lit ''canonicalizemaxdots'') d of None \<Rightarrow> Inr 1 | Some t \<Rightarrow> py_int 10 t) (\<lambda>maxdots.
         if canon \<and> int (length (filter (\<lambda>c. c = 46) host)) \<le> maxdots then
           (case text_option (lit ''canonicaldomains'') d of
              None \<Rightarrow> Inl KeyError
            | Some doms \<Rightarrow>
                bind_res (cfg_canonicalize env host d (py_split doms)) (\<lambda>host.
                Inr (lookup_pass env host True True blocks (AList.update (lit ''hostname'') (CText host) d))))
         else Inr (lookup_pass env host False True blocks d)))"

section \<open>Values\<close>

definition as_bool :: "pystr \<Rightarrow> cfg_dict \<Rightarrow> bool res" where
  "as_bool key d =
     (case map_of d key of
        None \<Rightarrow> Inl KeyError
      | Some (CText v) \<Rightarrow> Inr (to_lower v = lit ''yes'')
      | Some _ \<Rightarrow> Inl AttributeError)"

definition as_int :: "pystr \<Rightarrow> cfg_dict \<Rightarrow> int res" where
  "as_int key d =
     (case map_of d key of
        None \<Rightarrow> Inl KeyError
      | Some (CText v) \<Rightarrow> py_int 10 v
      | Some _ \<Rightarrow> Inl TypeError)"

end
