(* ===== verification/Config_Props.thy ===== *)
theory Config_Props
  imports Config_File
begin

text \<open>
  What a configuration lookup means: a list of patterns accepts a name that one of them matches and none of
  its negated ones does, and the value of a key is the first one that a matching \<open>Host\<close> block has; the identity
  files of all of them are collected.
\<close>

section \<open>Patterns\<close>

lemma pattern_loop_iff:
  "pattern_loop ps target found \<longleftrightarrow>
     (found \<or> (\<exists>p \<in> set ps. glob p target)) \<and> \<not> (\<exists>p \<in> set ps. p \<noteq> [] \<and> hd p = 33 \<and> glob (tl p) target)"
  by (induction ps target found rule: pattern_loop.induct) auto

lemma pattern_matches_iff:
  "pattern_matches ps target \<longleftrightarrow>
     (\<exists>p \<in> set ps. glob p target) \<and> \<not> (\<exists>p \<in> set ps. p \<noteq> [] \<and> hd p = 33 \<and> glob (tl p) target)"
  by (simp add: pattern_matches_def pattern_loop_iff)

section \<open>The first value wins\<close>

definition host_block :: "cfg_block \<Rightarrow> bool" where
  "host_block c \<longleftrightarrow> cb_matches c = None \<or> cb_matches c = Some []"

definition named_by :: "pystr \<Rightarrow> cfg_block \<Rightarrow> bool" where
  "named_by host c \<longleftrightarrow> (case cb_host c of None \<Rightarrow> False | Some ps \<Rightarrow>
     (\<exists>p \<in> set ps. glob p host) \<and> \<not> (\<exists>p \<in> set ps. p \<noteq> [] \<and> hd p = 33 \<and> glob (tl p) host))"

text \<open>The reference: the blocks for the host in the order of the file, and the first that has the key.\<close>

fun first_value :: "cfg_block list \<Rightarrow> pystr \<Rightarrow> pystr \<Rightarrow> cfg_value option" where
  "first_value [] host key = None"
| "first_value (c # cs) host key =
     (if named_by host c \<and> map_of (cb_config c) key \<noteq> None then map_of (cb_config c) key else first_value cs host key)"

lemma host_block_applies: "host_block c \<Longrightarrow> block_applies env host canonical final d c \<longleftrightarrow> named_by host c"
  by (auto simp: block_applies_def host_block_def named_by_def pattern_matches_iff split: option.splits)

lemma take_setting_value:
  "key \<noteq> lit ''identityfile'' \<Longrightarrow>
     map_of (take_setting kv d) key = (case map_of d key of Some v \<Rightarrow> Some v | None \<Rightarrow> if fst kv = key then Some (snd kv) else None)"
  by (cases kv) (auto simp: take_setting_def AList.update_conv' split: option.splits cfg_value.splits if_splits)

lemma take_settings_value:
  "key \<noteq> lit ''identityfile'' \<Longrightarrow>
     map_of (fold take_setting kvs d) key = (case map_of d key of Some v \<Rightarrow> Some v | None \<Rightarrow> map_of kvs key)"
  by (induction kvs arbitrary: d) (auto simp: take_setting_value split: option.splits)

lemma blocks_value:
  assumes "key \<noteq> lit ''identityfile''" and "list_all host_block blocks"
  shows "map_of (fold (\<lambda>c d. if block_applies env host canonical final d c then fold take_setting (cb_config c) d else d) blocks d) key =
     (case map_of d key of Some v \<Rightarrow> Some v | None \<Rightarrow> first_value blocks host key)"
  using assms(2)
  by (induction blocks arbitrary: d)
    (auto simp: host_block_applies take_settings_value [OF assms(1)] split: option.splits)

text \<open>Identity files: the first list that a block for the host has, and of the later ones what is new.\<close>

abbreviation idfile :: pystr where "idfile \<equiv> lit ''identityfile''"

fun add_files :: "cfg_value option \<Rightarrow> pystr list option \<Rightarrow> pystr list option" where
  "add_files (Some (CTexts new)) None = Some new"
| "add_files (Some (CTexts new)) (Some l) = Some (extend_new l new)"
| "add_files v acc = acc"

fun identity_files :: "pystr list option \<Rightarrow> cfg_block list \<Rightarrow> pystr \<Rightarrow> pystr list option" where
  "identity_files acc [] host = acc"
| "identity_files acc (c # cs) host =
     identity_files (if named_by host c then add_files (map_of (cb_config c) idfile) acc else acc) cs host"

definition expected :: "cfg_block list \<Rightarrow> pystr \<Rightarrow> pystr \<Rightarrow> cfg_value option" where
  "expected blocks host key =
     (if key = idfile then map_option CTexts (identity_files None blocks host)
      else if key = lit ''hostname'' then Some (case first_value blocks host key of None \<Rightarrow> CText host | Some v \<Rightarrow> v)
      else first_value blocks host key)"

text \<open>What the parser makes: a key has one value in a block, and identity files are lists.\<close>

definition good_block :: "cfg_block \<Rightarrow> bool" where
  "good_block c \<longleftrightarrow> distinct (map fst (cb_config c)) \<and> (\<forall>v. map_of (cb_config c) idfile = Some v \<longrightarrow> (\<exists>l. v = CTexts l))"

lemma store_setting_good:
  assumes "good_block c"
  shows "good_block (c\<lparr>cb_config := store_setting key v (cb_config c)\<rparr>)"
proof -
  have "distinct (map fst (store_setting key v (cb_config c)))"
    using assms by (simp add: good_block_def store_setting_def Let_def AList.distinct_update)
  moreover have "\<exists>l. x = CTexts l" if "map_of (store_setting key v (cb_config c)) idfile = Some x" for x
  proof -
    have m: "idfile \<noteq> lit ''proxycommand''" "idfile \<in> set multi_keys" by (simp_all add: multi_keys_def)
    have old: "\<exists>l. y = CTexts l" if "map_of (cb_config c) idfile = Some y" for y using assms that by (simp add: good_block_def)
    show ?thesis using that m old
      by (auto simp: store_setting_def Let_def AList.update_conv' simp del: list.map split: if_splits)
  qed
  ultimately show ?thesis by (simp add: good_block_def)
qed

lemma parse_lines_good:
  "parse_lines ls st = Inr st' \<Longrightarrow> list_all good_block (fst st) \<Longrightarrow> good_block (snd st) \<Longrightarrow>
     list_all good_block (fst st') \<and> good_block (snd st')"
proof (induction ls st rule: parse_lines.induct)
  case (2 l ls st)
  have new: "good_block \<lparr>cb_host = x, cb_matches = y, cb_config = []\<rparr>" for x y by (simp add: good_block_def)
  from 2(2) obtain s1 where s1: "parse_line l st = Inr s1" "parse_lines ls s1 = Inr st'" by (auto simp: bind_res_eq_Inr)
  have "list_all good_block (fst s1) \<and> good_block (snd s1)"
    using s1(1) 2(3,4) new
    by (auto simp: parse_line_def Let_def bind_res_eq_Inr store_setting_good split_beta split: if_splits option.splits)
  with 2(1) s1 show ?case by blast
qed simp

lemma parse_config_good:
  assumes "parse_config lines = Inr blocks"
  shows "list_all good_block blocks"
proof -
  from assms obtain a b where "parse_lines lines ([], first_block) = Inr (a, b)" "blocks = a @ [b]"
    by (auto simp: parse_config_def bind_res_eq_Inr)
  moreover have "good_block first_block" by (simp add: good_block_def first_block_def)
  ultimately show ?thesis using parse_lines_good [of lines "([], first_block)" "(a, b)"] by simp
qed

text \<open>The identity files of a dict, and one pass over the blocks.\<close>

definition files_are :: "pystr list option \<Rightarrow> cfg_dict \<Rightarrow> bool" where
  "files_are l d \<longleftrightarrow> map_of d idfile = map_option CTexts l"

lemma take_settings_without:
  "idfile \<notin> set (map fst kvs) \<Longrightarrow> map_of (fold take_setting kvs d) idfile = map_of d idfile"
proof (induction kvs arbitrary: d)
  case (Cons kv kvs)
  then have "map_of (take_setting kv d) idfile = map_of d idfile"
    by (cases kv) (auto simp: take_setting_def AList.update_conv' split: option.split cfg_value.split)
  with Cons show ?case by simp
qed simp

lemma take_settings_files:
  assumes "distinct (map fst kvs)" and "map_of kvs idfile = Some (CTexts new)" and "files_are l d"
  shows "files_are (add_files (Some (CTexts new)) l) (fold take_setting kvs d)"
  using assms
proof (induction kvs arbitrary: d)
  case (Cons kv kvs)
  obtain k v where kv: "kv = (k, v)" by (cases kv)
  show ?case
  proof (cases "k = idfile")
    case True
    with Cons.prems kv have v: "v = CTexts new" and n: "idfile \<notin> set (map fst kvs)" by auto
    have "files_are (add_files (Some (CTexts new)) l) (take_setting kv d)"
      using Cons.prems(3) kv True v by (cases l) (auto simp: files_are_def take_setting_def AList.update_conv')
    with take_settings_without [OF n] show ?thesis by (simp add: files_are_def)
  next
    case False
    then have "files_are l (take_setting kv d)"
      using Cons.prems(3) kv by (auto simp: files_are_def take_setting_def AList.update_conv' split: option.split cfg_value.split)
    with Cons False kv show ?thesis by simp
  qed
qed simp

lemma blocks_files:
  "list_all host_block blocks \<Longrightarrow> list_all good_block blocks \<Longrightarrow> files_are l d \<Longrightarrow>
     files_are (identity_files l blocks host)
       (fold (\<lambda>c d. if block_applies env host canonical final d c then fold take_setting (cb_config c) d else d) blocks d)"
proof (induction blocks arbitrary: l d)
  case (Cons c cs)
  let ?d = "if named_by host c then fold take_setting (cb_config c) d else d"
  let ?l = "if named_by host c then add_files (map_of (cb_config c) idfile) l else l"
  have g: "good_block c" using Cons.prems(2) by simp
  have "files_are ?l ?d"
  proof (cases "named_by host c")
    case True
    show ?thesis
    proof (cases "map_of (cb_config c) idfile")
      case None
      then have "map_of (fold take_setting (cb_config c) d) idfile = map_of d idfile"
        by (intro take_settings_without) (simp add: map_of_eq_None_iff)
      with None True Cons.prems(3) show ?thesis by (simp add: files_are_def)
    next
      case (Some v)
      with g obtain new where "v = CTexts new" by (auto simp: good_block_def)
      with take_settings_files [of "cb_config c" new l d] Some True g Cons.prems(3) show ?thesis by (simp add: good_block_def)
    qed
  qed (use Cons.prems in simp)
  from Cons.IH [OF _ _ this] Cons.prems show ?case by (simp add: host_block_applies)
qed simp

text \<open>A second pass finds nothing new.\<close>

lemma extend_new_same: "set new \<subseteq> set l \<Longrightarrow> extend_new l new = l"
  by (induction l new rule: extend_new.induct) auto

lemma extend_new_set: "set (extend_new l new) = set l \<union> set new"
  by (induction l new rule: extend_new.induct) auto

definition covers :: "pystr list option \<Rightarrow> cfg_block list \<Rightarrow> pystr \<Rightarrow> bool" where
  "covers l cs host \<longleftrightarrow> (\<forall>c\<in>set cs. named_by host c \<longrightarrow>
     (\<forall>new. map_of (cb_config c) idfile = Some (CTexts new) \<longrightarrow> (\<exists>k. l = Some k \<and> set new \<subseteq> set k)))"

lemma add_files_covered: "v = Some (CTexts new) \<longrightarrow> (\<exists>k. l = Some k \<and> set new \<subseteq> set k) \<Longrightarrow> v = Some (CTexts new) \<or> (\<nexists>n. v = Some (CTexts n)) \<Longrightarrow>
    add_files v l = l"
  by (cases "(v, l)" rule: add_files.cases) (auto simp: extend_new_same)

lemma covered_again: "covers l cs host \<Longrightarrow> identity_files l cs host = l"
proof (induction cs)
  case (Cons c cs)
  have "add_files (map_of (cb_config c) idfile) l = l" if "named_by host c"
    by (cases "\<exists>new. map_of (cb_config c) idfile = Some (CTexts new)")
      (use Cons.prems that in \<open>auto simp: covers_def intro: add_files_covered\<close>)
  with Cons show ?case by (simp add: covers_def)
qed simp

lemma add_files_grow: "acc = Some l \<Longrightarrow> \<exists>k. add_files v acc = Some k \<and> set l \<subseteq> set k"
  by (cases "(v, acc)" rule: add_files.cases) (auto simp: extend_new_set)

lemma files_grow: "acc = Some l \<Longrightarrow> \<exists>k. identity_files acc cs host = Some k \<and> set l \<subseteq> set k"
proof (induction cs arbitrary: acc l)
  case (Cons c cs)
  from add_files_grow [OF Cons.prems] obtain l' where
    l': "(if named_by host c then add_files (map_of (cb_config c) idfile) acc else acc) = Some l'" "set l \<subseteq> set l'"
    using Cons.prems by (cases "named_by host c") auto
  with Cons.IH [OF l'(1)] show ?case by auto
qed simp

lemma files_cover: "covers (identity_files acc cs host) cs host"
proof (induction cs arbitrary: acc)
  case (Cons c cs)
  let ?acc = "if named_by host c then add_files (map_of (cb_config c) idfile) acc else acc"
  have "\<exists>k. identity_files ?acc cs host = Some k \<and> set new \<subseteq> set k"
    if named: "named_by host c" "map_of (cb_config c) idfile = Some (CTexts new)" for new
  proof -
    obtain l where "?acc = Some l" "set new \<subseteq> set l" using named by (cases acc) (auto simp: extend_new_set)
    with files_grow [of ?acc l cs host] show ?thesis by blast
  qed
  with Cons [of ?acc] show ?case by (simp add: covers_def)
qed (simp add: covers_def)

section \<open>Substitution\<close>

definition plain_text :: "pystr \<Rightarrow> bool" where
  "plain_text s \<longleftrightarrow> 37 \<notin> set s \<and> 126 \<notin> set s"

text \<open>Nothing is substituted in the value of a key: it has no tokens, or the text has no \<open>%\<close> and no \<open>~\<close>.\<close>

definition unsubstituted :: "pystr \<Rightarrow> cfg_value option \<Rightarrow> bool" where
  "unsubstituted key v \<longleftrightarrow> allowed_tokens key = [] \<or>
     (case v of Some (CText s) \<Rightarrow> plain_text s | Some (CTexts l) \<Rightarrow> list_all plain_text l | _ \<Rightarrow> True)"

lemma replace_all_absent: "w \<noteq> [] \<Longrightarrow> hd w \<notin> set s \<Longrightarrow> replace_all w r s = s"
proof (induction s)
  case (Cons c cs)
  then have "take (length w) (c # cs) \<noteq> w" by (cases w) auto
  with Cons show ?case by (subst replace_all.simps) simp
qed (simp add: replace_all.simps)

lemma tokens_marked: "(w, r) \<in> set (replacements env d target key) \<Longrightarrow> w \<noteq> [] \<and> hd w \<in> {37, 126}"
  by (auto simp: replacements_def Let_def split_beta)

lemma tokenize_plain: "allowed_tokens key = [] \<or> plain_text s \<Longrightarrow> tokenize env d target key s = s"
proof (cases "allowed_tokens key = []")
  case False
  assume "allowed_tokens key = [] \<or> plain_text s"
  with False have s: "plain_text s" by simp
  have "fold (\<lambda>(w, r) v. if w \<in> set (allowed_tokens key) then replace_all w r v else v) rs s = s"
    if "set rs \<subseteq> set (replacements env d target key)" for rs
    using that
  proof (induction rs)
    case (Cons x rs)
    obtain w r where x: "x = (w, r)" by (cases x)
    with Cons.prems have "w \<noteq> []" "hd w \<in> {37, 126}" using tokens_marked [of w r env d target key] by simp_all
    then have "replace_all w r s = s" using s by (intro replace_all_absent) (auto simp: plain_text_def)
    with Cons x show ?case by simp
  qed simp
  with False show ?thesis by (simp add: tokenize_def)
qed (simp add: tokenize_def)

lemma expand_value_plain:
  assumes "unsubstituted key (map_of d key)"
  shows "map_of (expand_value env host k d) key = map_of d key"
  using assms
  by (auto simp: expand_value_def AList.update_conv' unsubstituted_def tokenize_plain list_all_iff intro!: map_idI
      split: option.split cfg_value.split)

lemma expand_variables_plain: "unsubstituted key (map_of d key) \<Longrightarrow> map_of (expand_variables env d host) key = map_of d key"
proof -
  assume a: "unsubstituted key (map_of d key)"
  have "map_of (fold (expand_value env host) ks d) key = map_of d key" for ks
    using a by (induction ks arbitrary: d) (simp_all add: expand_value_plain)
  then show ?thesis by (simp add: expand_variables_def)
qed

text \<open>Claim C40. Claim C40.
  For a file of \<open>Host\<close> blocks that is read without an error, and without canonicalization, the lookup of a host is the
  expansion of the dict in which every key has the first value that a block for the host has, in the order of the file,
  except that the identity files of all these blocks are collected without repetitions and that the host name is the
  host itself if no block gives one. A key in whose value nothing is substituted has just that value.
\<close>

theorem first_value_wins:
  assumes "parse_config lines = Inr blocks" and "list_all host_block blocks" and "lookup env blocks host = Inr r"
    and "first_value blocks host (lit ''canonicalizehostname'') \<notin> {Some (CText (lit ''yes'')), Some (CText (lit ''always''))}"
  shows "(\<exists>d. r = expand_variables env d host \<and> (\<forall>key. map_of d key = expected blocks host key)) \<and>
    (\<forall>key. unsubstituted key (expected blocks host key) \<longrightarrow> map_of r key = expected blocks host key)"
proof -
  note hb = assms(2) and gb = parse_config_good [OF assms(1)]
  let ?pass = "\<lambda>final. fold (\<lambda>c d. if block_applies env host False final d c then fold take_setting (cb_config c) d else d) blocks"
  define d1 where "d1 = lookup_pass env host False False blocks []"
  define d2 where "d2 = (if lit ''hostname'' \<notin> set (map fst d1) then AList.update (lit ''hostname'') (CText host) d1 else d1)"
  define d where "d = ?pass True d2"
  have v1: "map_of d1 q = first_value blocks host q" if "q \<noteq> idfile" for q
    using blocks_value [OF that hb, of env host False False "[]"] by (simp add: d1_def lookup_pass_def)
  have f1: "files_are (identity_files None blocks host) d1"
    using blocks_files [OF hb gb, of None "[]" host env False False] by (simp add: d1_def lookup_pass_def files_are_def)
  have hn: "lit ''hostname'' \<noteq> idfile" by simp
  have h2: "map_of d2 (lit ''hostname'') = expected blocks host (lit ''hostname'')"
    using v1 [OF hn] by (auto simp: d2_def expected_def AList.update_conv' map_of_eq_None_iff [symmetric] simp del: list.map split: option.split)
  have v2: "map_of d2 q = expected blocks host q" if "q \<noteq> idfile" for q
    using that v1 h2 by (cases "q = lit ''hostname''") (simp_all add: d2_def expected_def AList.update_conv' del: list.map(2))
  have f2: "files_are (identity_files None blocks host) d2" using f1 by (simp add: files_are_def d2_def AList.update_conv')
  have f: "files_are (identity_files None blocks host) d"
    using blocks_files [OF hb gb f2, of host env False True] covered_again [OF files_cover] by (simp add: d_def)
  have v: "map_of d q = expected blocks host q" for q
  proof (cases "q = idfile")
    case True
    with f show ?thesis by (simp add: files_are_def expected_def)
  next
    case False
    have "map_of d q = (case map_of d2 q of Some v \<Rightarrow> Some v | None \<Rightarrow> first_value blocks host q)"
      using blocks_value [OF False hb, of env host False True d2] by (simp add: d_def)
    with v2 [OF False] False show ?thesis by (auto simp: expected_def split: option.splits if_splits)
  qed
  have "text_option (lit ''canonicalizehostname'') d2 \<notin> {Some (lit ''yes''), Some (lit ''always'')}"
    using assms(4) v2 [of "lit ''canonicalizehostname''"] by (auto simp: text_option_def expected_def split: option.splits cfg_value.splits)
  then have "r = lookup_pass env host False True blocks d2"
    using assms(3) unfolding lookup_def Let_def d1_def [symmetric] unfolding d2_def [symmetric]
    by (simp only: bind_res_eq_Inr simp_thms if_False sum.inject) blast
  then have r: "r = expand_variables env d host" by (simp add: lookup_pass_def d_def)
  have "map_of r key = expected blocks host key" if "unsubstituted key (expected blocks host key)" for key
    using expand_variables_plain [of key d env host] that by (simp add: r v)
  with r v show ?thesis by blast
qed

definition demo_cfg_env :: cfg_env where
  "demo_cfg_env =
     \<lparr>ce_user = lit ''me'', ce_host = lit ''box'', ce_fqdn = lit ''box.lan'', ce_home = lit ''/h'', ce_run = (\<lambda>c. False),
      ce_sha1 = (\<lambda>s. s), ce_addr_info = (\<lambda>h b. None), ce_by_name = (\<lambda>h. False)\<rparr>"

definition demo_lines :: "pystr list" where
  "demo_lines = map lit [''Host * !x.org'', ''Port = 22'', ''IdentityFile /k1'', ''Host *.org'', ''Port 23'', ''IdentityFile /k2'', ''User=me'']"

theorem first_value_wins_witness:
  "\<exists>blocks d d'. parse_config demo_lines = Inr blocks \<and>
     lookup demo_cfg_env blocks (lit ''a.org'') = Inr d \<and> map_of d (lit ''port'') = Some (CText (lit ''22'')) \<and>
     map_of d idfile = Some (CTexts [lit ''/k1'', lit ''/k2'']) \<and> map_of d (lit ''hostname'') = Some (CText (lit ''a.org'')) \<and>
     lookup demo_cfg_env blocks (lit ''x.org'') = Inr d' \<and> map_of d' (lit ''port'') = Some (CText (lit ''23''))"
proof -
  let ?b = "projr (parse_config demo_lines)"
  have p: "parse_config demo_lines = Inr ?b" by code_simp
  have b: "list_all host_block ?b" by code_simp
  have "isl (lookup demo_cfg_env ?b (lit ''a.org'')) = False" "isl (lookup demo_cfg_env ?b (lit ''x.org'')) = False" by code_simp+
  then obtain d d' where d: "lookup demo_cfg_env ?b (lit ''a.org'') = Inr d" "lookup demo_cfg_env ?b (lit ''x.org'') = Inr d'"
    by (metis isl_def sumE)
  have n: "first_value ?b (lit ''a.org'') (lit ''canonicalizehostname'') \<notin> {Some (CText (lit ''yes'')), Some (CText (lit ''always''))}"
    "first_value ?b (lit ''x.org'') (lit ''canonicalizehostname'') \<notin> {Some (CText (lit ''yes'')), Some (CText (lit ''always''))}" by code_simp+
  have v: "expected ?b (lit ''a.org'') (lit ''port'') = Some (CText (lit ''22''))"
    "expected ?b (lit ''x.org'') (lit ''port'') = Some (CText (lit ''23''))"
    "expected ?b (lit ''a.org'') idfile = Some (CTexts [lit ''/k1'', lit ''/k2''])"
    "expected ?b (lit ''a.org'') (lit ''hostname'') = Some (CText (lit ''a.org''))" by code_simp+
  have u: "unsubstituted (lit ''port'') x" for x by (simp add: unsubstituted_def allowed_tokens_def)
  have u2: "unsubstituted idfile (Some (CTexts [lit ''/k1'', lit ''/k2'']))" "unsubstituted (lit ''hostname'') (Some (CText (lit ''a.org'')))"
    by code_simp+
  note A = conjunct2 [OF first_value_wins [OF p b d(1) n(1)]] and X = conjunct2 [OF first_value_wins [OF p b d(2) n(2)]]
  show ?thesis
    using p d A [rule_format, of "lit ''port''"] A [rule_format, of idfile] A [rule_format, of "lit ''hostname''"]
      X [rule_format, of "lit ''port''"] u2 unfolding v by (simp add: u del: list.map) blast
qed

text \<open>A \<open>Match\<close> line with a keyword that is not known applies to every host.\<close>

lemma unknown_match_applies:
  "parse_config (map lit [''Match hsot x.org'', ''User root'']) =
     Inr [first_block, \<lparr>cb_host = None, cb_matches = Some [\<lparr>mi_type = lit ''hsot'', mi_param = lit ''x.org'', mi_negate = False\<rparr>],
       cb_config = [(lit ''user'', CText (lit ''root''))]\<rparr>]"
  "does_match demo_cfg_env (lit ''y'') False False [] [\<lparr>mi_type = lit ''hsot'', mi_param = lit ''x.org'', mi_negate = False\<rparr>] False"
  by code_simp+

end
