(* ===== verification/Auth_Agent.thy ===== *)
theory Auth_Agent
  imports Key_Types Sftp_Props
begin

text \<open>
  \<open>paramiko/agent.py\<close>, the protocol with the agent, and \<open>paramiko/auth_strategy.py\<close>. The agent's connection is the
  outcomes of its calls; the threads that forward an agent over a channel are not modelled. The transport's
  authentication calls, which a strategy makes, are a record of calls on a state of their own.
\<close>

section \<open>The agent\<close>

record agent_conn =
  ag_rx :: "raw_in list"
  ag_tx :: "raw_out list"
  ag_out :: bytes

record agent_key =
  ak_blob :: bytes
  ak_comment :: pystr
  ak_name :: pystr
  ak_inner :: "pkey option"

record agent_ssh =
  ag_conn :: "agent_conn option"
  ag_keys :: "agent_key list"

definition new_agent :: agent_ssh where
  "new_agent = \<lparr>ag_conn = None, ag_keys = []\<rparr>"

definition on_agent :: "(agent_conn, 'a) prog \<Rightarrow> (agent_ssh, 'a) prog" where
  "on_agent m s =
     (case ag_conn s of
        None \<Rightarrow> (Exn AttributeError, s)
      | Some c \<Rightarrow> (case m c of (r, c) \<Rightarrow> (r, s\<lparr>ag_conn := Some c\<rparr>)))"

text \<open>One \<open>send\<close>, whose count is not looked at.\<close>

definition agent_send :: "bytes \<Rightarrow> (agent_conn, unit) prog" where
  "agent_send d c =
     (case ag_tx c of
        [] \<Rightarrow> (Blocked, c)
      | WriteFails e # ws \<Rightarrow> (Exn e, c\<lparr>ag_tx := ws\<rparr>)
      | Count k # ws \<Rightarrow> (Ret (), c\<lparr>ag_tx := ws, ag_out := ag_out c @ take k d\<rparr>))"

text \<open>\<open>_read_all\<close>; nothing is read when nothing is wanted.\<close>

function agent_read_loop :: "int \<Rightarrow> bytes \<Rightarrow> raw_in list \<Rightarrow> agent_conn \<Rightarrow> bytes outcome \<times> agent_conn" where
  "agent_read_loop wanted result es c =
     (if int (length result) < wanted then
        (case raw_read (wanted - int (length result)) es of
           (Inl e, es') \<Rightarrow> (Exn e, c\<lparr>ag_rx := es'\<rparr>)
         | (Inr x, es') \<Rightarrow>
             if x = [] then (Exn (SSHException ''lost ssh-agent''), c\<lparr>ag_rx := es'\<rparr>)
             else agent_read_loop wanted (result @ x) es' c)
      else (Ret result, c\<lparr>ag_rx := es\<rparr>))"
  by pat_completeness auto
termination
  by (relation "measure (\<lambda>(n, r, es, c). src_size es)") (auto dest: raw_read_smaller [OF sym])

declare agent_read_loop.simps [simp del]

definition agent_read_all :: "int \<Rightarrow> (agent_conn, bytes) prog" where
  "agent_read_all wanted c = agent_read_loop wanted [] (ag_rx c) c"

definition agent_message :: "bytes \<Rightarrow> (agent_conn, int \<times> message) prog" where
  "agent_message b =
     seqp (liftr (pack_I (int (length b)))) (\<lambda>l.
     seqp (agent_send (l @ b)) (\<lambda>_.
     seqp (agent_read_all 4) (\<lambda>d.
     seqp (liftr (unpack_I d)) (\<lambda>n.
     seqp (agent_read_all n) (\<lambda>d.
     let (t, m) = get_byte (message_of d) in ret (byte_ord (hd t), m))))))"

text \<open>\<open>AgentKey(...)\<close>: a type that is not known leaves the key without an inner one.\<close>

definition new_agent_key :: "key_lib \<Rightarrow> bytes \<Rightarrow> pystr \<Rightarrow> agent_key res" where
  "new_agent_key lib blob comment =
     bind_res (get_text (message_of blob)) (\<lambda>(nm, m).
     case from_type_string lib nm blob of
       Inr k \<Rightarrow> Inr \<lparr>ak_blob = blob, ak_comment = comment, ak_name = nm, ak_inner = Some k\<rparr>
     | Inl (UnknownKeyType t) \<Rightarrow> Inr \<lparr>ak_blob = blob, ak_comment = comment, ak_name = nm, ak_inner = None\<rparr>
     | Inl e \<Rightarrow> Inl e)"

fun read_agent_keys :: "key_lib \<Rightarrow> nat \<Rightarrow> message \<Rightarrow> agent_key list res" where
  "read_agent_keys lib 0 m = Inr []"
| "read_agent_keys lib (Suc n) m =
     (let (blob, m) = get_binary m
      in bind_res (get_text m) (\<lambda>(comment, m).
         bind_res (new_agent_key lib blob comment) (\<lambda>k.
         bind_res (read_agent_keys lib n m) (\<lambda>ks. Inr (k # ks)))))"

definition agent_connect :: "key_lib \<Rightarrow> agent_conn \<Rightarrow> (agent_ssh, unit) prog" where
  "agent_connect lib conn =
     seqp (modify (\<lambda>s. s\<lparr>ag_conn := Some conn\<rparr>)) (\<lambda>_.
     seqp (on_agent (agent_message [11])) (\<lambda>(t, m).
     if t \<noteq> 12 then raise (SSHException ''could not get keys from ssh-agent'')
     else
       (let (n, m) = get_int m
        in seqp (liftr (read_agent_keys lib (nat n) m)) (\<lambda>ks. modify (\<lambda>s. s\<lparr>ag_keys := ks\<rparr>)))))"

definition agent_close :: "agent_ssh \<Rightarrow> agent_ssh" where
  "agent_close s = s\<lparr>ag_conn := None, ag_keys := []\<rparr>"

definition agent_key_bytes :: "key_lib \<Rightarrow> agent_key \<Rightarrow> bytes res" where
  "agent_key_bytes lib k = (case ak_inner k of Some inner \<Rightarrow> key_asbytes lib inner | None \<Rightarrow> Inr (ak_blob k))"

definition agent_cert_suffix :: pystr where "agent_cert_suffix = lit ''-cert-v01@openssh.com''"

definition algorithm_flag :: "pystr option \<Rightarrow> int" where
  "algorithm_flag alg =
     (if alg \<in> {Some (lit ''rsa-sha2-256''), Some (lit ''rsa-sha2-256'' @ agent_cert_suffix)} then 2
      else if alg \<in> {Some (lit ''rsa-sha2-512''), Some (lit ''rsa-sha2-512'' @ agent_cert_suffix)} then 4
      else 0)"

definition agent_sign :: "key_lib \<Rightarrow> agent_key \<Rightarrow> bytes \<Rightarrow> pystr option \<Rightarrow> (agent_ssh, bytes) prog" where
  "agent_sign lib k data alg =
     seqp (liftr (bind_res (agent_key_bytes lib k) (\<lambda>b.
       add_seq add_field new_message [FByte 13, FString b, FString data, FInt (algorithm_flag alg)]))) (\<lambda>m.
     seqp (on_agent (agent_message (msg_asbytes m))) (\<lambda>(t, r).
     if t \<noteq> 14 then raise (SSHException ''key cannot be used for signing'') else ret (fst (get_binary r))))"

section \<open>Strategies\<close>

text \<open>What a source authenticates with, and the transport's calls; they return what the server still wants.\<close>

datatype auth_source =
    NoneAuth pystr
  | PasswordAuth pystr "pystr res"
  | InMemoryPrivateKey pystr pkey
  | OnDiskPrivateKey pystr pystr pystr pkey

record 't transport_calls =
  tc_none :: "pystr \<Rightarrow> ('t, pystr list) prog"
  tc_password :: "pystr \<Rightarrow> pystr \<Rightarrow> ('t, pystr list) prog"
  tc_publickey :: "pystr \<Rightarrow> pkey \<Rightarrow> ('t, pystr list) prog"

definition on_disk_key :: "pystr \<Rightarrow> pystr \<Rightarrow> pystr \<Rightarrow> pkey \<Rightarrow> auth_source res" where
  "on_disk_key username origin path k =
     (if origin \<notin> {lit ''ssh-config'', lit ''python-config'', lit ''implicit-home''} then Inl ValueError
      else Inr (OnDiskPrivateKey username origin path k))"

fun source_authenticate :: "'t transport_calls \<Rightarrow> auth_source \<Rightarrow> ('t, pystr list) prog" where
  "source_authenticate tc (NoneAuth u) = tc_none tc u"
| "source_authenticate tc (PasswordAuth u getter) = seqp (liftr getter) (tc_password tc u)"
| "source_authenticate tc (InMemoryPrivateKey u k) = tc_publickey tc u k"
| "source_authenticate tc (OnDiskPrivateKey u src' path k) = tc_publickey tc u k"

type_synonym auth_result = "(auth_source \<times> (py_error + pystr list)) list"

text \<open>\<open>AuthStrategy.authenticate\<close>: whether a source succeeded, and the result for every source that was tried.\<close>

fun try_sources :: "'t transport_calls \<Rightarrow> auth_source list \<Rightarrow> auth_result \<Rightarrow> ('t, bool \<times> auth_result) prog" where
  "try_sources tc [] acc s = (Ret (False, acc), s)"
| "try_sources tc (x # xs) acc s =
     (case source_authenticate tc x s of
        (Ret r, s') \<Rightarrow> (Ret (True, acc @ [(x, Inr r)]), s')
      | (Exn e, s') \<Rightarrow> try_sources tc xs (acc @ [(x, Inl e)]) s'
      | (Blocked, s') \<Rightarrow> (Blocked, s'))"

definition strategy_authenticate :: "'t transport_calls \<Rightarrow> auth_source list \<Rightarrow> ('t, auth_result + auth_result) prog" where
  "strategy_authenticate tc sources =
     seqp (try_sources tc sources []) (\<lambda>(ok, r). ret (if ok then Inr r else Inl r))"

section \<open>Facts\<close>

text \<open>What the agent sends is read exactly, however it comes.\<close>

lemma agent_read_data:
  "data_only es \<Longrightarrow> raw_bytes es = d @ rest \<Longrightarrow> int (length d) = wanted - int (length result) \<Longrightarrow>
     \<exists>es'. agent_read_loop wanted result es c = (Ret (result @ d), c\<lparr>ag_rx := es'\<rparr>) \<and> data_only es' \<and> raw_bytes es' = rest"
proof -
  have same: "agent_read_loop (n + int (length result)) result es c =
      (case sftp_read_loop n result es \<lparr>s_rx = [], s_tx = [], s_out = []\<rparr> of (Ret x, q) \<Rightarrow> (Ret x, c\<lparr>ag_rx := s_rx q\<rparr>) | r \<Rightarrow> agent_read_loop (n + int (length result)) result es c)"
    for n result es
  proof (induction "src_size es" arbitrary: n result es rule: less_induct)
    case less
    obtain r es' where r: "raw_read n es = (r, es')" by fastforce
    show ?case
    proof (cases "0 < n \<and> (\<exists>x. r = Inr x \<and> x \<noteq> [])")
      case True
      then obtain x where x: "r = Inr x" "x \<noteq> []" "0 < n" by blast
      have s: "agent_read_loop (n + int (length result)) result es c = agent_read_loop (n - int (length x) + int (length (result @ x))) (result @ x) es' c"
        using x r by (subst agent_read_loop.simps) simp
      have t: "sftp_read_loop n result es \<lparr>s_rx = [], s_tx = [], s_out = []\<rparr> = sftp_read_loop (n - int (length x)) (result @ x) es' \<lparr>s_rx = [], s_tx = [], s_out = []\<rparr>"
        using x r by (subst sftp_read_loop.simps) simp
      show ?thesis unfolding s t using less raw_read_smaller [OF r [unfolded x(1)] x(2)] by blast
    next
      case False
      then show ?thesis using r by (subst sftp_read_loop.simps, cases r) (auto simp: agent_read_loop.simps)
    qed
  qed
  assume d: "data_only es" "raw_bytes es = d @ rest" "int (length d) = wanted - int (length result)"
  from sftp_read_loop_data [OF d(1,2), of "wanted - int (length result)" result "\<lparr>s_rx = [], s_tx = [], s_out = []\<rparr>"] d(3)
  show ?thesis using same [of "wanted - int (length result)" result es] by auto
qed

text \<open>
  The sources are tried in their order up to the first that succeeds; every one before it has failed, and the
  strategy fails only when all have.
\<close>

lemma strategy_stops_at_success:
  "strategy_authenticate tc sources s = (Ret r, s') \<Longrightarrow>
     (case r of
        Inl fs \<Rightarrow> map fst fs = sources \<and> (\<forall>(x, v) \<in> set fs. isl v)
      | Inr fs \<Rightarrow> \<exists>k < length sources. map fst fs = take (Suc k) sources \<and> (\<forall>(x, v) \<in> set (butlast fs). isl v) \<and> \<not> isl (snd (last fs)))"
proof -
  have "try_sources tc xs acc s = (Ret (ok, fs), s') \<Longrightarrow> \<exists>new. fs = acc @ new \<and>
      (if ok then \<exists>k < length xs. map fst new = take (Suc k) xs \<and> (\<forall>(x, v) \<in> set (butlast new). isl v) \<and> \<not> isl (snd (last new)) \<and> new \<noteq> []
       else map fst new = xs \<and> (\<forall>(x, v) \<in> set new. isl v))" for xs acc ok fs s s'
  proof (induction xs arbitrary: acc s)
    case (Cons x xs)
    obtain o' s1 where o: "source_authenticate tc x s = (o', s1)" by fastforce
    show ?case
    proof (cases o')
      case (Ret r)
      with Cons.prems o show ?thesis by (auto intro!: exI [of _ "[(x, Inr r)]"])
    next
      case (Exn e)
      with Cons.prems o have "try_sources tc xs (acc @ [(x, Inl e)]) s1 = (Ret (ok, fs), s')" by simp
      from Cons.IH [OF this] obtain new where n: "fs = (acc @ [(x, Inl e)]) @ new"
        "if ok then \<exists>k < length xs. map fst new = take (Suc k) xs \<and> (\<forall>(x, v) \<in> set (butlast new). isl v) \<and> \<not> isl (snd (last new)) \<and> new \<noteq> []
         else map fst new = xs \<and> (\<forall>(x, v) \<in> set new. isl v)" by blast
      show ?thesis
      proof (cases ok)
        case True
        with n(2) obtain k where "k < length xs" "map fst new = take (Suc k) xs" "\<forall>(x, v) \<in> set (butlast new). isl v"
          "\<not> isl (snd (last new))" "new \<noteq> []" by auto
        with n(1) True show ?thesis by (intro exI [of _ "(x, Inl e) # new"]) (auto intro!: exI [of _ "Suc k"])
      next
        case False
        with n show ?thesis by (intro exI [of _ "(x, Inl e) # new"]) auto
      qed
    next
      case Blocked
      with Cons.prems o show ?thesis by simp
    qed
  qed simp
  note t = this
  assume "strategy_authenticate tc sources s = (Ret r, s')"
  then obtain ok fs where "try_sources tc sources [] s = (Ret (ok, fs), s')" "r = (if ok then Inr fs else Inl fs)"
    by (auto simp: strategy_authenticate_def seqp_Ret)
  with t [of sources "[]" s ok fs s'] show ?thesis by (auto split: if_splits)
qed

end
