(* ===== verification/Spec2Isabelle.thy ===== *)
theory Spec2Isabelle
  imports Packet_Props Packet_Safety Channel_Props File_Props Sftp_Props Negotiation_Props BER_Codec Session_Table Host_Key_Props Sftp_Composed Config_Props Auth_Agent
begin

text \<open>
  A verification library for the SSH implementation under \<open>src/paramiko/\<close>.

  \<^bold>\<open>The program.\<close> A \<open>Transport\<close> runs one SSH connection. Its thread takes packets off a \<open>Packetizer\<close>
  (\<open>packet.py\<close>), which frames, encrypts and authenticates them over a socket, and dispatches their messages
  (\<open>message.py\<close>): the negotiation and the key exchange (\<open>transport.py\<close>, \<open>kex_*.py\<close>), the user authentication
  (\<open>auth_handler.py\<close>, \<open>server.py\<close>), and the channels (\<open>channel.py\<close>), whose data wait in \<open>BufferedPipe\<close>s until a
  user thread reads them. \<open>BufferedFile\<close> (\<open>file.py\<close>) adds lines and buffers to a stream, and the SFTP client and
  server speak their packets over a channel. Keys and known hosts are read from files.

  \<^bold>\<open>How it is modelled.\<close> An object is a record, and a method is a function of type \<open>('s, 'a) prog\<close>, from a state to an
  outcome and a state: a value, an exception (the state keeps what was done before it), or \<open>Blocked\<close>, a call that does
  not return. Pure functions that raise return \<open>py_error + 'a\<close>. Integers are \<open>int\<close>, as Python's have no width; bytes are
  lists of 8 bit words, and the ranges of \<open>struct\<close> fields are checked where the code packs them. A socket, channel or raw
  stream is the list of the outcomes of its future calls, so a theorem about all lists holds however the network cuts,
  delays or breaks the data. The cryptography libraries, the clock, the random source, the application's objects and the
  operating system are arguments of the definitions; what a theorem needs of them is a named hypothesis or a locale.
  Interleavings of threads are step relations (\<open>Channel_Props\<close>, \<open>Sftp_Client_Props\<close>) over the methods as steps.

  \<^bold>\<open>The theories.\<close>
  \<^item> \<open>Prelude\<close>, \<open>Python_Runtime\<close>, \<open>Base64\<close>: exceptions, results, methods and their sequencing, slices and indexing; what is
    used of \<open>struct\<close>, UTF-8, text and base64.
  \<^item> \<open>Common_Util\<close>: \<open>common.py\<close> and \<open>util.py\<close>. \<open>BER_Codec\<close>: \<open>ber.py\<close>. \<open>SSH_Message\<close>: \<open>message.py\<close>, with the locale of a
    wire format that every field type of the protocol is an instance of.
  \<^item> \<open>Buffered_Pipe\<close>: \<open>buffered_pipe.py\<close> and \<open>pipe.py\<close>, their stream and event invariants. \<open>Buffered_File\<close>, \<open>File_Props\<close>:
    \<open>file.py\<close>; lines do not depend on the division of the stream.
  \<^item> \<open>Packet_Layer\<close>, \<open>Packet_Props\<close>, \<open>Packet_Safety\<close>: \<open>packet.py\<close>; the round trip in every protection mode, what is kept when
    a read is interrupted, no decryption before the tag is checked, the limits of a key's use.
  \<^item> \<open>Channel_Core\<close>, \<open>Channel_Props\<close>: \<open>channel.py\<close>; EOF and CLOSE under every interleaving, what \<open>send\<close> and
    \<open>sendall\<close> take from the window and hand over whatever other threads do while they wait, replies.
  \<^item> \<open>Transport_Core\<close>, \<open>Key_Negotiation\<close>, \<open>Key_Exchange\<close>, \<open>Key_Activation\<close>, with \<open>Negotiation_Props\<close> and \<open>Kex_Props\<close>: the
    transport's state, \<open>KEXINIT\<close>, \<open>kex_group14.py\<close>, \<open>kex_group16.py\<close>, \<open>kex_gex.py\<close>, \<open>kex_ecdh_nist.py\<close>, \<open>kex_curve25519.py\<close>,
    and the derivation of the session keys; both sides agree at every stage. \<open>Prime_Moduli\<close>: \<open>primes.py\<close>.
  \<^item> \<open>Server_Interface\<close>, \<open>Auth_Handler\<close>, \<open>Auth_Props\<close>: \<open>server.py\<close> and \<open>auth_handler.py\<close>; who gets authenticated, and how often
    one may fail.
  \<^item> \<open>Session\<close>, \<open>Session_Calls\<close>, \<open>Session_Props\<close>, \<open>Session_Table\<close>: the thread's loop and its handlers, the calls of user
    threads, and the channel table of \<open>transport.py\<close>; the order of the phases, the table's invariant, isolation of channels.
  \<^item> \<open>Key_Types\<close>, \<open>Key_Files\<close>, \<open>Key_Props\<close>: \<open>pkey.py\<close>, \<open>rsakey.py\<close>, \<open>ecdsakey.py\<close>, \<open>ed25519key.py\<close>. \<open>Host_Keys\<close>, \<open>Host_Key_Props\<close>:
    \<open>hostkeys.py\<close>, plain tables refine a map from host and key type to key.
  \<^item> \<open>Sftp_Wire\<close>, \<open>Sftp_Props\<close>: \<open>sftp.py\<close> and \<open>sftp_attr.py\<close>. \<open>Sftp_Server\<close>, \<open>Sftp_Server_Props\<close>, \<open>Sftp_Server_Files\<close>:
    \<open>sftp_server.py\<close>, \<open>sftp_handle.py\<close>, \<open>sftp_si.py\<close>; every request other than \<open>check-file\<close> gets one answer, handles are not
    reused, access through a handle that does not append is positional, default paths stay below the root.
    \<open>Sftp_Client\<close>, \<open>Sftp_File\<close>, \<open>Sftp_Client_Props\<close>: \<open>sftp_client.py\<close> and \<open>sftp_file.py\<close>; a prefetch thread sends a request
    and records it in two steps, and prefetched data are the file's in every interleaving. \<open>Sftp_Composed\<close> puts both sides together.
  \<^item> \<open>Config_File\<close>, \<open>Config_Props\<close>: \<open>config.py\<close>; the first value of a matching \<open>Host\<close> block wins, identity files are collected. \<open>Auth_Agent\<close>: \<open>agent.py\<close>
    without its forwarding threads, and \<open>auth_strategy.py\<close>.

  \<^bold>\<open>The interfaces.\<close> \<open>wire_field\<close> states that a getter undoes an adder, \<open>byte_feeder\<close> what a consumer relies on of a pipe,
  \<open>key_agreement\<close> that two private keys give one secret, \<open>positional_file\<close> that a file object is a seekable sequence of bytes. Each is interpreted on the model's
  definitions in the theory that provides them.

  \<^bold>\<open>Bounds and fuel.\<close> Loops over a stream end because every round takes something off it, and are proved to. A bound is an
  argument where the code's loop need not end: \<open>readlines\<close> (the number of lines; \<open>File_Props\<close> shows which bound is enough), the
  search for a free channel number (one more than there are channels, which is shown to be enough), the rounds of \<open>serve\<close> (packets), \<open>hash_reads\<close> (a hash over a range past the end of a file is
  shown not to end), and the rounds of \<open>get_loop\<close>. A run that reaches its bound is \<open>Blocked\<close>.

  \<^bold>\<open>Not modelled.\<close> \<open>client.py\<close> composes the calls of the transport with the file system, the agent and the name
  service; the threads of \<open>agent.py\<close> forward bytes between sockets. \<open>proxy.py\<close>, \<open>_winapi.py\<close>, \<open>win_openssh.py\<close> and
  \<open>win_pageant.py\<close> wrap the operating system, \<open>compress.py\<close> the zlib library, whose engines are arguments of the packet layer.
  Logging, locks around single statements, the callbacks of a transfer, writing and generating private keys, and the pipe behind
  \<open>Channel.fileno\<close> are left out of the modelled parts. The references in \<open>_expecting\<close> are weak in the code: a file that is
  dropped is not taken out of the table here.
\<close>

end
